(* ===== verification/GoPrelude.thy ===== *)
theory GoPrelude
  imports Main "HOL-Library.Word" "HOL-Library.Monad_Syntax" "HOL-Library.Signed_Division"
begin

text \<open>
  Shared vocabulary of the development: the Go types and run-time operations that the
  sources use, and the collections of rewrite rules that the component theories share.

  Conventions.
  \<^item> A Go run-time panic (index or slice out of range, nil dereference, write to a nil map,
    explicit \<open>panic\<close>) is the value \<open>None\<close>; a computation that goes on is \<open>Some\<close>.
    An error \<^emph>\<open>returned\<close> by the code is an ordinary value.
  \<^item> Fixed-width values are words. A Go \<open>uint\<close> or \<open>int\<close> that is a length, a count or an
    offset into a slice is a \<open>nat\<close>: a slice is shorter than \<open>2 ^ 63\<close>, so sums of such
    values do not wrap; a subtraction can, and is written with \<open>usub\<close>, which wraps at 64 bits,
    as \<open>uadd\<close> does where a sum takes a wrapped operand.
  \<^item> A byte slice is the list of its bytes; where two slices share an array the model keeps
    the array and the offsets.
\<close>

unbundle bit_operations_syntax

type_synonym byte = "8 word"
type_synonym u16 = "16 word"
type_synonym u32 = "32 word"
type_synonym u64 = "64 word"
type_synonym bytes = "byte list"

named_theorems go_defs "run-time operations unfolded by default in component proofs"
named_theorems codec "encode/decode equations"

section \<open>Unsigned 64-bit subtraction on lengths and offsets\<close>

definition usub :: "nat \<Rightarrow> nat \<Rightarrow> nat" where
  "usub a b = (if b \<le> a then a - b else a + 2 ^ 64 - b)"

lemma usub_le [simp]: "b \<le> a \<Longrightarrow> usub a b = a - b"
  by (simp add: usub_def)

lemma usub_wraps: "a < b \<Longrightarrow> usub a b = a + 2 ^ 64 - b"
  by (simp add: usub_def)

lemma usub_word:
  assumes "a < 2 ^ 64" and "b < 2 ^ 64"
  shows "usub a b = unat (word_of_nat a - word_of_nat b :: u64)"
  using assms
  by (simp add: usub_def unat_sub_if' unat_of_nat take_bit_nat_eq_self word_le_nat_alt)

definition uadd :: "nat \<Rightarrow> nat \<Rightarrow> nat" where
  "uadd a b = (a + b) mod 2 ^ 64"

lemma uadd_small [simp]: "a + b < 2 ^ 64 \<Longrightarrow> uadd a b = a + b"
  by (simp add: uadd_def)

section \<open>Slices\<close>

text \<open>\<open>xs[i]\<close>, \<open>xs[i] = v\<close>, \<open>xs[i:]\<close> and \<open>xs[i:j]\<close>, each with its bounds check.\<close>

definition idx :: "'a list \<Rightarrow> nat \<Rightarrow> 'a option" where
  "idx xs i = (if i < length xs then Some (xs ! i) else None)"

definition put :: "'a list \<Rightarrow> nat \<Rightarrow> 'a \<Rightarrow> 'a list option" where
  "put xs i v = (if i < length xs then Some (xs[i := v]) else None)"

definition slice_from :: "'a list \<Rightarrow> nat \<Rightarrow> 'a list option" where
  "slice_from xs i = (if i \<le> length xs then Some (drop i xs) else None)"

definition slice :: "'a list \<Rightarrow> nat \<Rightarrow> nat \<Rightarrow> 'a list option" where
  "slice xs i j = (if i \<le> j \<and> j \<le> length xs then Some (take (j - i) (drop i xs)) else None)"

text \<open>
  \<open>copy(xs[off:], src)\<close>: as many elements as both have; the rest of \<open>xs\<close> is unchanged.
  The source is read before anything is written, as for overlapping slices in Go.
\<close>

definition copy_at :: "'a list \<Rightarrow> nat \<Rightarrow> 'a list \<Rightarrow> 'a list" where
  "copy_at xs off src =
     take off xs @ take (length xs - off) src @ drop (off + length src) xs"

lemma idx_Some [simp]: "i < length xs \<Longrightarrow> idx xs i = Some (xs ! i)"
  by (simp add: idx_def)

lemma idx_None [simp]: "length xs \<le> i \<Longrightarrow> idx xs i = None"
  by (simp add: idx_def)

lemma idx_eq_Some [simp]: "idx xs i = Some v \<longleftrightarrow> i < length xs \<and> xs ! i = v"
  by (auto simp: idx_def)

lemma idx_eq_None [simp]: "idx xs i = None \<longleftrightarrow> length xs \<le> i"
  by (auto simp: idx_def)

lemma put_Some [simp]: "i < length xs \<Longrightarrow> put xs i v = Some (xs[i := v])"
  by (simp add: put_def)

lemma put_eq_None [simp]: "put xs i v = None \<longleftrightarrow> length xs \<le> i"
  by (auto simp: put_def)

lemma slice_from_Some [simp]: "i \<le> length xs \<Longrightarrow> slice_from xs i = Some (drop i xs)"
  by (simp add: slice_from_def)

lemma slice_from_eq_None [simp]: "slice_from xs i = None \<longleftrightarrow> length xs < i"
  by (auto simp: slice_from_def)

lemma slice_Some [simp]:
  "i \<le> j \<Longrightarrow> j \<le> length xs \<Longrightarrow> slice xs i j = Some (take (j - i) (drop i xs))"
  by (simp add: slice_def)

lemma slice_eq_None [simp]: "slice xs i j = None \<longleftrightarrow> \<not> (i \<le> j \<and> j \<le> length xs)"
  by (auto simp: slice_def)

lemma length_copy_at [simp]: "off \<le> length xs \<Longrightarrow> length (copy_at xs off src) = length xs"
  by (simp add: copy_at_def min_def)

lemma nth_copy_at:
  assumes "off \<le> length xs" and "i < length xs"
  shows "copy_at xs off src ! i =
    (if off \<le> i \<and> i < off + length src then src ! (i - off) else xs ! i)"
  using assms by (auto simp: copy_at_def nth_append min_def)

lemma take_copy_at [simp]: "off \<le> length xs \<Longrightarrow> n \<le> off \<Longrightarrow> take n (copy_at xs off src) = take n xs"
  by (simp add: copy_at_def min_def)

lemma drop_copy_at_beyond [simp]:
  assumes "off + length src \<le> n" and "off \<le> length xs"
  shows "drop n (copy_at xs off src) = drop n xs"
  using assms by (intro nth_equalityI) (auto simp: nth_copy_at)

lemma slice_copy_at [simp]:
  assumes "off + length src \<le> length xs"
  shows "take (length src) (drop off (copy_at xs off src)) = src"
  using assms by (intro nth_equalityI) (auto simp: nth_copy_at)

lemma take_copy_at_0 [simp]: "length src \<le> length xs \<Longrightarrow> take (length src) (copy_at xs 0 src) = src"
  using slice_copy_at [of 0 src xs] by simp

lemma copy_at_Nil [simp]: "copy_at xs off [] = xs"
  by (simp add: copy_at_def)

section \<open>Option monad\<close>

lemmas bind_simps = Option.bind_eq_Some_conv Option.bind_eq_None_conv

lemma bind_Some_cong: "m = Some x \<Longrightarrow> Option.bind m f = f x"
  by simp

section \<open>Time values\<close>

text \<open>\<open>syscall.Timeval\<close> on linux/amd64: two signed 64-bit fields, kept as integers.\<close>

record timeval =
  tv_sec :: int
  tv_usec :: int

definition tv_zero :: timeval where
  "tv_zero = \<lparr>tv_sec = 0, tv_usec = 0\<rparr>"

definition tv_wf :: "timeval \<Rightarrow> bool" where
  "tv_wf t \<longleftrightarrow> 0 \<le> tv_usec t \<and> tv_usec t < 1000000"

end
