(* ===== verification/Binary.thy ===== *)
theory Binary
  imports GoPrelude
begin

text \<open>
  \<^verbatim>\<open>livemedia/binary.go\<close>, \<^verbatim>\<open>livemedia/utils.go\<close> and \<open>groupsock.Ntohl\<close>: byte-order
  conversion, cursor advance and the 16-bit sequence-number order.

  The library part of Go's \<open>encoding/binary\<close> (\<open>be16\<close>, \<open>be32\<close>, \<open>be64\<close>, \<open>le32\<close> and their
  encoders) is written out first; the functions of the repository follow under their own names.
  An \<open>io.Writer\<close> is a parameter: the function that receives the bytes.
\<close>

section \<open>Fixed-width codecs\<close>

text \<open>The interface a fixed-width codec offers to the code that frames packets with it.\<close>

locale byte_codec =
  fixes enc :: "'a \<Rightarrow> bytes"
    and dec :: "bytes \<Rightarrow> 'a option"
    and width :: nat
  assumes enc_length: "length (enc v) = width"
    and dec_enc: "dec (enc v @ rest) = Some v"
    and dec_short: "length bs < width \<Longrightarrow> dec bs = None"
begin

lemma dec_enc_exact: "dec (enc v) = Some v"
  using dec_enc [of v "[]"] by simp

lemma enc_inj: "enc v = enc w \<Longrightarrow> v = w"
  by (metis dec_enc_exact option.inject)

lemma dec_prefix:
  assumes "take width bs = enc v"
  shows "dec bs = Some v"
proof -
  have "bs = take width bs @ drop width bs" by simp
  then have "dec bs = dec (enc v @ drop width bs)" using assms by simp
  then show ?thesis by (simp add: dec_enc)
qed

lemma dec_after_copy:
  assumes "off + width \<le> length xs"
  shows "dec (drop off (copy_at xs off (enc v))) = Some v"
  using assms by (intro dec_prefix) (simp add: enc_length [of v, symmetric])

lemma enc_self_delimiting: "enc v @ r = enc w @ s \<Longrightarrow> v = w \<and> r = s"
  by (metis append_same_eq dec_enc enc_length append_eq_append_conv option.inject)

end

definition be16_enc :: "u16 \<Rightarrow> bytes" where
  "be16_enc n = [ucast (drop_bit 8 n), ucast n]"

definition be32_enc :: "u32 \<Rightarrow> bytes" where
  "be32_enc n = [ucast (drop_bit 24 n), ucast (drop_bit 16 n), ucast (drop_bit 8 n), ucast n]"

definition le32_enc :: "u32 \<Rightarrow> bytes" where
  "le32_enc n = [ucast n, ucast (drop_bit 8 n), ucast (drop_bit 16 n), ucast (drop_bit 24 n)]"

fun be16 :: "bytes \<Rightarrow> u16 option" where
  "be16 (b0 # b1 # _) = Some (push_bit 8 (ucast b0) OR ucast b1)"
| "be16 _ = None"

fun be32 :: "bytes \<Rightarrow> u32 option" where
  "be32 (b0 # b1 # b2 # b3 # _) =
     Some (push_bit 24 (ucast b0) OR push_bit 16 (ucast b1) OR push_bit 8 (ucast b2) OR ucast b3)"
| "be32 _ = None"

fun le32 :: "bytes \<Rightarrow> u32 option" where
  "le32 (b0 # b1 # b2 # b3 # _) =
     Some (ucast b0 OR push_bit 8 (ucast b1) OR push_bit 16 (ucast b2) OR push_bit 24 (ucast b3))"
| "le32 _ = None"

fun be64 :: "bytes \<Rightarrow> u64 option" where
  "be64 (b0 # b1 # b2 # b3 # b4 # b5 # b6 # b7 # _) =
     Some (push_bit 56 (ucast b0) OR push_bit 48 (ucast b1) OR push_bit 40 (ucast b2)
       OR push_bit 32 (ucast b3) OR push_bit 24 (ucast b4) OR push_bit 16 (ucast b5)
       OR push_bit 8 (ucast b6) OR ucast b7)"
| "be64 _ = None"

lemma be32_short: "be32 bs = None \<longleftrightarrow> length bs < 4"
  by (cases bs rule: be32.cases) auto

lemma be16_short: "be16 bs = None \<longleftrightarrow> length bs < 2"
  by (cases bs rule: be16.cases) auto

lemma le32_short: "le32 bs = None \<longleftrightarrow> length bs < 4"
  by (cases bs rule: le32.cases) auto

lemma be32_Some: "4 \<le> length bs \<Longrightarrow> \<exists>w. be32 bs = Some w"
  using be32_short [of bs] by (cases "be32 bs") auto

lemma byte_ranges:
  "(k :: nat) < 8 \<or> 8 \<le> k \<and> k < 16 \<or> 16 \<le> k \<and> k < 24 \<or> 24 \<le> k"
  by linarith

lemma be16_join:
  "(push_bit 8 (ucast (ucast (drop_bit 8 n) :: byte)) OR ucast (ucast n :: byte)) = (n :: u16)"
  (is "?l = n")
proof (rule bit_word_eqI)
  fix k assume "k < LENGTH(16)"
  with byte_ranges [of k] show "bit ?l k = bit n k"
    by (elim disjE) (auto simp: bit_simps)
qed

lemma be32_join:
  "(push_bit 24 (ucast (ucast (drop_bit 24 n) :: byte)) OR push_bit 16 (ucast (ucast (drop_bit 16 n) :: byte))
    OR push_bit 8 (ucast (ucast (drop_bit 8 n) :: byte)) OR ucast (ucast n :: byte)) = (n :: u32)"
  (is "?l = n")
proof (rule bit_word_eqI)
  fix k assume "k < LENGTH(32)"
  with byte_ranges [of k] show "bit ?l k = bit n k"
    by (elim disjE) (auto simp: bit_simps)
qed

lemma le32_join:
  "(ucast (ucast n :: byte) OR push_bit 8 (ucast (ucast (drop_bit 8 n) :: byte))
     OR push_bit 16 (ucast (ucast (drop_bit 16 n) :: byte))
     OR push_bit 24 (ucast (ucast (drop_bit 24 n) :: byte))) = (n :: u32)"
  using be32_join [of n] by (simp add: ac_simps)

lemma be32_dec_enc: "be32 (be32_enc n @ r) = Some n"
  by (simp add: be32_enc_def be32_join)

lemma be16_dec_enc: "be16 (be16_enc n @ r) = Some n"
  by (simp add: be16_enc_def be16_join)

lemma le32_dec_enc: "le32 (le32_enc n @ r) = Some n"
  by (simp add: le32_enc_def le32_join)

interpretation c16: byte_codec be16_enc be16 2
  by unfold_locales (simp add: be16_enc_def, rule be16_dec_enc, simp add: be16_short)

interpretation c32: byte_codec be32_enc be32 4
  by unfold_locales (simp add: be32_enc_def, rule be32_dec_enc, simp add: be32_short)

interpretation l32: byte_codec le32_enc le32 4
  by unfold_locales (simp add: le32_enc_def, rule le32_dec_enc, simp add: le32_short)

lemmas [codec] = c16.dec_enc c32.dec_enc l32.dec_enc
  c16.dec_enc_exact c32.dec_enc_exact l32.dec_enc_exact

section \<open>binary.go\<close>

text \<open>\<open>make([]byte, n-len(b))\<close> panics when the length is negative.\<close>

definition pad :: "bytes \<Rightarrow> nat \<Rightarrow> bytes option" where
  "pad b n = (if length b \<le> n then Some (replicate (n - length b) 0 @ b) else None)"

definition padl :: "bytes \<Rightarrow> nat \<Rightarrow> bytes option" where
  "padl b n = (if length b \<le> n then Some (b @ replicate (n - length b) 0) else None)"

definition Uint16 :: "bytes \<Rightarrow> u16 option" where
  "Uint16 b = do { p \<leftarrow> pad b 2; be16 p }"

definition Uint32 :: "bytes \<Rightarrow> u32 option" where
  "Uint32 b = do { p \<leftarrow> pad b 4; be32 p }"

definition LittleEndianUint32 :: "bytes \<Rightarrow> u32 option" where
  "LittleEndianUint32 b = do { p \<leftarrow> padl b 4; le32 p }"

definition Uint64 :: "bytes \<Rightarrow> u64 option" where
  "Uint64 b = do { p \<leftarrow> pad b 8; be64 p }"

definition PutUint8 :: "byte \<Rightarrow> (bytes \<Rightarrow> 'r) \<Rightarrow> 'r" where
  "PutUint8 n w = w [n]"

definition PutUint16 :: "u16 \<Rightarrow> (bytes \<Rightarrow> 'r) \<Rightarrow> 'r" where
  "PutUint16 n w = w (be16_enc n)"

definition PutUint24 :: "u32 \<Rightarrow> (bytes \<Rightarrow> 'r) \<Rightarrow> 'r" where
  "PutUint24 n w =
     w [ucast (drop_bit 16 n AND 0xff), ucast (drop_bit 8 n AND 0xff), ucast (drop_bit 0 n AND 0xff)]"

definition PutUint32 :: "u32 \<Rightarrow> (bytes \<Rightarrow> 'r) \<Rightarrow> 'r" where
  "PutUint32 n w = w (be32_enc n)"

definition LittleEndianPutUint32 :: "u32 \<Rightarrow> (bytes \<Rightarrow> 'r) \<Rightarrow> 'r" where
  "LittleEndianPutUint32 n w = w (le32_enc n)"

lemma pad_exact [simp]: "length b = n \<Longrightarrow> pad b n = Some b"
  by (simp add: pad_def)

lemma padl_exact [simp]: "length b = n \<Longrightarrow> padl b n = Some b"
  by (simp add: padl_def)

lemma pad_length: "pad b n = Some p \<Longrightarrow> length p = n"
  by (auto simp: pad_def split: if_splits)

lemma Uint32_exact: "length b = 4 \<Longrightarrow> Uint32 b = be32 b"
  by (simp add: Uint32_def)

lemma Uint32_enc [codec]: "Uint32 (be32_enc n) = Some n"
  by (simp add: Uint32_exact c32.enc_length codec)

lemma Uint24_join:
  "push_bit 24 (ucast (0 :: byte)) OR push_bit 16 (ucast (ucast (drop_bit 16 n AND 0xff) :: byte))
     OR push_bit 8 (ucast (ucast (drop_bit 8 n AND 0xff) :: byte))
     OR ucast (ucast (drop_bit 0 n AND 0xff) :: byte) = (n AND 0xFFFFFF :: u32)" (is "?l = ?r")
proof (rule bit_word_eqI)
  fix k assume k: "k < LENGTH(32)"
  have m8: "(0xff :: u32) = mask 8" by (simp add: mask_eq_exp_minus_1)
  have m24: "(0xFFFFFF :: u32) = mask 24" by (simp add: mask_eq_exp_minus_1)
  from k byte_ranges [of k] show "bit ?l k = bit ?r k"
    unfolding m8 m24 by (elim disjE) (auto simp: bit_simps)
qed

section \<open>groupsock/inet.go: Ntohl\<close>

text \<open>
  \<open>binary.Read\<close> of a \<open>uint32\<close> fails on fewer than four bytes; \<open>Ntohl\<close> then returns the
  zero value with the error. The callers in the packet parsers drop the error.
\<close>

definition Ntohl :: "bytes \<Rightarrow> u32 \<times> bool" where
  "Ntohl packet = (case be32 packet of None \<Rightarrow> (0, True) | Some v \<Rightarrow> (v, False))"

lemma Ntohl_enc [codec]: "Ntohl (be32_enc n @ r) = (n, False)"
  by (simp add: Ntohl_def codec)

lemma Ntohl_prefix: "take 4 bs = be32_enc n \<Longrightarrow> Ntohl bs = (n, False)"
  by (simp add: Ntohl_def c32.dec_prefix)

section \<open>utils.go\<close>

definition ADVANCE :: "bytes \<Rightarrow> nat \<Rightarrow> nat \<Rightarrow> (bytes \<times> nat) option" where
  "ADVANCE data sz n = do { data' \<leftarrow> slice_from data n; Some (data', usub sz n) }"

definition seqNumLT :: "int \<Rightarrow> int \<Rightarrow> bool" where
  "seqNumLT s1 s2 =
     (let diff = s2 - s1 in
      if diff > 0 then diff < 0x8000
      else if diff < 0 then diff < - 0x8000
      else False)"

lemma ADVANCE_Some [simp]:
  "n \<le> length data \<Longrightarrow> sz = length data \<Longrightarrow> ADVANCE data sz n = Some (drop n data, length data - n)"
  by (simp add: ADVANCE_def)

text \<open>On 16-bit sequence numbers: \<open>s2\<close> lies in the half circle after \<open>s1\<close>.\<close>

lemma seqNumLT_circle:
  assumes "0 \<le> s1" "s1 < 65536" "0 \<le> s2" "s2 < 65536"
  shows "seqNumLT s1 s2 \<longleftrightarrow> 0 < (s2 - s1) mod 65536 \<and> (s2 - s1) mod 65536 < 0x8000"
proof -
  have "(s2 - s1) mod 65536 = (if s1 \<le> s2 then s2 - s1 else s2 - s1 + 65536)"
  proof (cases "s1 \<le> s2")
    case True
    then show ?thesis using assms by simp
  next
    case False
    have "(s2 - s1) mod 65536 = (s2 - s1 + 65536) mod 65536" by simp
    also have "\<dots> = s2 - s1 + 65536" by (rule mod_pos_pos_trivial) (use assms False in simp_all)
    finally show ?thesis using False by simp
  qed
  then show ?thesis using assms by (auto simp: seqNumLT_def Let_def)
qed

lemma seqNumLT_irrefl [simp]: "\<not> seqNumLT s s"
  by (simp add: seqNumLT_def)

lemma seqNumLT_asym: "seqNumLT s1 s2 \<Longrightarrow> \<not> seqNumLT s2 s1"
  by (auto simp: seqNumLT_def Let_def split: if_splits)

end
