(* ===== verification/BitVec.thy ===== *)
theory BitVec
  imports Binary
begin

text \<open>
  \<^verbatim>\<open>livemedia/bit_vector.go\<close>: the bit cursor the H.264 header parsers read with.

  \<open>BitVector\<close> is the struct; the operations pass it along. \<open>shiftBits\<close> copies single bits
  between two byte slices; its loop pointers \<open>fromBytePtr\<close> and \<open>toBytePtr\<close> are kept as indices
  into the arrays they were sliced from. The abstract view is \<open>bits_of\<close>, the bits of a byte
  slice from the most significant one of the first byte; the lemmas relate every read to it.
\<close>

record BitVector =
  totNumBits :: nat
  curBitIndex :: nat
  baseBitOffset :: nat
  baseByte :: bytes

definition maxLength :: nat where "maxLength = 32"

definition singleBitMask :: "byte list" where
  "singleBitMask = [0x80, 0x40, 0x20, 0x10, 0x08, 0x04, 0x02, 0x01]"

definition newBitVector :: "bytes \<Rightarrow> nat \<Rightarrow> nat \<Rightarrow> BitVector" where
  "newBitVector base off tot =
     \<lparr>totNumBits = tot, curBitIndex = 0, baseBitOffset = off, baseByte = base\<rparr>"

definition bv_init :: "bytes \<Rightarrow> nat \<Rightarrow> nat \<Rightarrow> BitVector \<Rightarrow> BitVector" where
  "bv_init base off tot v = v\<lparr>baseByte := base, baseBitOffset := off, totNumBits := tot\<rparr>"

text \<open>The loop of \<open>shiftBits\<close>: one bit per round, the two positions advance together.\<close>

fun shiftLoop :: "bytes \<Rightarrow> bytes \<Rightarrow> nat \<Rightarrow> nat \<Rightarrow> nat \<Rightarrow> nat \<Rightarrow> nat \<Rightarrow> bytes option" where
  "shiftLoop to from toPtr toRem fromPtr fromRem 0 = Some to"
| "shiftLoop to from toPtr toRem fromPtr fromRem (Suc n) = do {
     fromBitMask \<leftarrow> idx singleBitMask fromRem;
     fromB \<leftarrow> idx from fromPtr;
     toBitMask \<leftarrow> idx singleBitMask toRem;
     toB \<leftarrow> idx to toPtr;
     let toB' = (if fromB AND fromBitMask \<noteq> 0 then toB OR toBitMask else toB AND NOT toBitMask);
     to' \<leftarrow> put to toPtr toB';
     let (fromPtr', fromRem') =
       (if fromRem + 1 = 8 then (fromPtr + 1, 0) else (fromPtr, fromRem + 1));
     let (toPtr', toRem') =
       (if toRem + 1 = 8 then (toPtr + 1, 0) else (toPtr, toRem + 1));
     shiftLoop to' from toPtr' toRem' fromPtr' fromRem' n
   }"

definition shiftBits :: "bytes \<Rightarrow> bytes \<Rightarrow> nat \<Rightarrow> nat \<Rightarrow> nat \<Rightarrow> bytes option" where
  "shiftBits to from toBitOffset fromBitOffset numBits =
     (if numBits = 0 then Some to
      else if fromBitOffset div 8 \<le> length from \<and> toBitOffset div 8 \<le> length to
      then shiftLoop to from (toBitOffset div 8) (toBitOffset mod 8)
             (fromBitOffset div 8) (fromBitOffset mod 8) numBits
      else None)"

definition getBits :: "nat \<Rightarrow> BitVector \<Rightarrow> (u64 \<times> BitVector) option" where
  "getBits numBits0 v =
     (if numBits0 = 0 then Some (0, v)
      else
        let numBits = (if numBits0 > maxLength then maxLength else numBits0);
            avail = usub (totNumBits v) (curBitIndex v);
            overflowingBits = (if numBits > avail then numBits - avail else 0)
        in do {
          tmpBuf \<leftarrow> shiftBits (replicate 4 0) (baseByte v) 0 (baseBitOffset v + curBitIndex v)
                       (numBits - overflowingBits);
          w \<leftarrow> be32 tmpBuf;
          let result = (drop_bit (maxLength - numBits) (ucast w :: u64))
                         AND push_bit overflowingBits 0xFFFFFFFF;
          Some (result, v\<lparr>curBitIndex := curBitIndex v + (numBits - overflowingBits)\<rparr>)
        })"

definition get1Bit :: "BitVector \<Rightarrow> (u64 \<times> BitVector) option" where
  "get1Bit v =
     (if curBitIndex v \<ge> totNumBits v then Some (0, v)
      else
        let totBitOffset = baseBitOffset v + curBitIndex v in do {
          curFromByte \<leftarrow> idx (baseByte v) (totBitOffset div 8);
          let result = drop_bit (7 - totBitOffset mod 8) curFromByte AND 0x01;
          Some (ucast result, v\<lparr>curBitIndex := curBitIndex v + 1\<rparr>)
        })"

definition get1BitBoolean :: "BitVector \<Rightarrow> (bool \<times> BitVector) option" where
  "get1BitBoolean v = do { (b, v') \<leftarrow> get1Bit v; Some (b \<noteq> 0, v') }"

definition skipBits :: "nat \<Rightarrow> BitVector \<Rightarrow> BitVector" where
  "skipBits numBits v =
     (if numBits > usub (totNumBits v) (curBitIndex v) then v\<lparr>curBitIndex := totNumBits v\<rparr>
      else v\<lparr>curBitIndex := curBitIndex v + numBits\<rparr>)"

text \<open>
  The scan of \<open>getExpGolomb\<close>: it stops at the first one bit, or at the end of the data. Every
  round that goes on has advanced the cursor below \<open>totNumBits\<close>, so it ends.
\<close>

lemma get1Bit_cur:
  "get1Bit v = Some (b, v') \<Longrightarrow> curBitIndex v < totNumBits v \<Longrightarrow>
     curBitIndex v' = Suc (curBitIndex v) \<and> totNumBits v' = totNumBits v"
  by (auto simp: get1Bit_def Let_def bind_simps split: if_splits)

lemma get1Bit_end:
  "get1Bit v = Some (b, v') \<Longrightarrow> \<not> curBitIndex v < totNumBits v \<Longrightarrow> v' = v \<and> b = 0"
  by (auto simp: get1Bit_def Let_def split: if_splits)

function expGolombScan :: "BitVector \<Rightarrow> nat \<Rightarrow> u64 \<Rightarrow> (nat \<times> u64 \<times> BitVector) option" where
  "expGolombScan v numLeadingZeroBits codeStart =
     (case get1Bit v of
        None \<Rightarrow> None
      | Some (b, v') \<Rightarrow>
          (if b = 0 \<and> curBitIndex v' < totNumBits v'
           then expGolombScan v' (numLeadingZeroBits + 1) (codeStart * 2)
           else Some (numLeadingZeroBits, codeStart, v')))"
  by pat_completeness auto
termination
  by (relation "measure (\<lambda>(v, _, _). totNumBits v - curBitIndex v)")
    (auto dest: get1Bit_end simp: get1Bit_cur
      split: if_splits intro!: diff_less_mono2, metis get1Bit_cur get1Bit_end diff_less_mono2 lessI)

declare expGolombScan.simps [simp del]

definition getExpGolomb :: "BitVector \<Rightarrow> (u64 \<times> BitVector) option" where
  "getExpGolomb v = do {
     (numLeadingZeroBits, codeStart, v1) \<leftarrow> expGolombScan v 0 1;
     (x, v2) \<leftarrow> getBits numLeadingZeroBits v1;
     Some (codeStart - 1 + x, v2)
   }"

section \<open>The bits of a byte slice\<close>

definition byte_bits :: "byte \<Rightarrow> bool list" where
  "byte_bits b = map (\<lambda>i. bit b (7 - i)) [0..<8]"

definition bits_of :: "bytes \<Rightarrow> bool list" where
  "bits_of bs = concat (map byte_bits bs)"

text \<open>The value of a bit string, most significant bit first, as a Go \<open>uint\<close>.\<close>

definition word_of_bits :: "bool list \<Rightarrow> u64" where
  "word_of_bits bs = horner_sum of_bool 2 (rev bs)"

lemma length_byte_bits [simp]: "length (byte_bits b) = 8"
  by (simp add: byte_bits_def)

lemma bits_of_Nil [simp]: "bits_of [] = []"
  by (simp add: bits_of_def)

lemma bits_of_Cons [simp]: "bits_of (b # bs) = byte_bits b @ bits_of bs"
  by (simp add: bits_of_def)

lemma length_bits_of [simp]: "length (bits_of bs) = 8 * length bs"
  by (induction bs) simp_all

lemma nth_byte_bits: "i < 8 \<Longrightarrow> byte_bits b ! i = bit b (7 - i)"
  by (simp add: byte_bits_def)

lemma nth_bits_of: "k < 8 * length bs \<Longrightarrow> bits_of bs ! k = bit (bs ! (k div 8)) (7 - k mod 8)"
proof (induction bs arbitrary: k)
  case (Cons b bs)
  show ?case
  proof (cases "k < 8")
    case True
    then show ?thesis by (simp add: nth_append nth_byte_bits)
  next
    case False
    then have "k div 8 = Suc ((k - 8) div 8)" "k mod 8 = (k - 8) mod 8"
      by (simp_all add: le_div_geq le_mod_geq)
    then show ?thesis using Cons False by (simp add: nth_append)
  qed
qed simp

lemma nth_bits_of_pos:
  "r < 8 \<Longrightarrow> p < length bs \<Longrightarrow> bits_of bs ! (8 * p + r) = bit (bs ! p) (7 - r)"
  by (subst nth_bits_of) auto

lemma bits_of_update:
  assumes "p < length bs" and "r < 8" and "k < 8 * length bs"
    and same: "\<And>j. j < 8 \<Longrightarrow> j \<noteq> 7 - r \<Longrightarrow> bit b' j = bit (bs ! p) j"
  shows "bits_of (bs[p := b']) ! k =
    (if k = 8 * p + r then bit b' (7 - r) else bits_of bs ! k)"
proof (cases "k div 8 = p")
  case True
  have k: "k = 8 * p + k mod 8" using True by auto
  show ?thesis
  proof (cases "k mod 8 = r")
    case True
    then show ?thesis using assms k by (simp add: nth_bits_of_pos)
  next
    case False
    then have ne: "k \<noteq> 8 * p + r" using k by auto
    have "k mod 8 < 8" by simp
    then have "7 - k mod 8 \<noteq> 7 - r" using False assms(2) by arith
    then have "bit b' (7 - k mod 8) = bit (bs ! p) (7 - k mod 8)" by (intro same) auto
    then show ?thesis using assms ne True by (simp add: nth_bits_of)
  qed
next
  case False
  then have "k \<noteq> 8 * p + r" using assms(2) by auto
  then show ?thesis using assms False by (simp add: nth_bits_of)
qed

lemma bit_word_of_bits:
  "bit (word_of_bits bs) k \<longleftrightarrow> k < 64 \<and> k < length bs \<and> bs ! (length bs - 1 - k)"
  by (auto simp: word_of_bits_def bit_horner_sum_bit_word_iff rev_nth)

lemma be32_bits:
  assumes "be32 bs = Some w" and "length bs = 4"
  shows "bit w k \<longleftrightarrow> k < 32 \<and> bits_of bs ! (31 - k)"
proof -
  obtain b0 b1 b2 b3 where bs: "bs = [b0, b1, b2, b3]"
    using assms(2) by (auto simp: length_Suc_conv numeral_eq_Suc)
  have w: "w = push_bit 24 (ucast b0) OR push_bit 16 (ucast b1) OR push_bit 8 (ucast b2) OR ucast b3"
    using assms(1) bs by simp
  show ?thesis
  proof (cases "k < 32")
    case False
    then show ?thesis by (auto simp: w bit_simps)
  next
    case True
    with byte_ranges [of k] show ?thesis
      by (elim disjE) (auto simp: w bs bit_simps nth_append nth_byte_bits dest: bit_imp_le_length)
  qed
qed

section \<open>shiftBits copies the bits\<close>

lemma singleBitMask_nth:
  assumes "r < 8"
  shows "singleBitMask ! r = push_bit (7 - r) 1"
proof -
  have "r \<in> {0, 1, 2, 3, 4, 5, 6, 7}" using assms by auto
  then show ?thesis by (auto simp: singleBitMask_def)
qed

lemma length_singleBitMask [simp]: "length singleBitMask = 8"
  by (simp add: singleBitMask_def)

lemma bit_singleBitMask: "r < 8 \<Longrightarrow> bit (singleBitMask ! r) j \<longleftrightarrow> j = 7 - r"
  by (auto simp: singleBitMask_nth bit_simps)

lemma mask_test: "r < 8 \<Longrightarrow> b AND singleBitMask ! r = 0 \<longleftrightarrow> \<not> bit b (7 - r)"
  by (metis bit_iff_and_push_bit_not_eq_0 singleBitMask_nth)

lemma shiftLoop_spec:
  assumes "toRem < 8" "fromRem < 8"
    and "8 * toPtr + toRem + n \<le> 8 * length to"
    and "8 * fromPtr + fromRem + n \<le> 8 * length from"
  shows "\<exists>to'. shiftLoop to from toPtr toRem fromPtr fromRem n = Some to' \<and> length to' = length to \<and>
    (\<forall>k < 8 * length to. bits_of to' ! k =
      (if 8 * toPtr + toRem \<le> k \<and> k < 8 * toPtr + toRem + n
       then bits_of from ! (8 * fromPtr + fromRem + (k - (8 * toPtr + toRem)))
       else bits_of to ! k))"
  using assms
proof (induction n arbitrary: to toPtr toRem fromPtr fromRem)
  case 0
  then show ?case by auto
next
  case (Suc n)
  let ?m = "singleBitMask ! toRem"
  let ?bit = "bit (from ! fromPtr) (7 - fromRem)"
  define b' where "b' = (if ?bit then to ! toPtr OR ?m else to ! toPtr AND NOT ?m)"
  define f' where "f' = (if fromRem + 1 = 8 then (fromPtr + 1, 0) else (fromPtr, fromRem + 1))"
  define t' where "t' = (if toRem + 1 = 8 then (toPtr + 1, 0) else (toPtr, toRem + 1))"
  have lt: "toPtr < length to" "fromPtr < length from" using Suc.prems by auto
  have f: "8 * fst f' + snd f' = Suc (8 * fromPtr + fromRem)" "snd f' < 8"
    using Suc.prems by (auto simp: f'_def)
  have t: "8 * fst t' + snd t' = Suc (8 * toPtr + toRem)" "snd t' < 8"
    using Suc.prems by (auto simp: t'_def)
  have step: "shiftLoop to from toPtr toRem fromPtr fromRem (Suc n) =
      shiftLoop (to[toPtr := b']) from (fst t') (snd t') (fst f') (snd f') n"
    using Suc.prems lt
    by (simp add: mask_test b'_def f'_def t'_def Let_def split_def)
  have up: "bits_of (to[toPtr := b']) ! k =
      (if k = 8 * toPtr + toRem then ?bit else bits_of to ! k)" if "k < 8 * length to" for k
  proof -
    have "bit b' j = bit (to ! toPtr) j" if "j < 8" "j \<noteq> 7 - toRem" for j
      using that Suc.prems(1) by (auto simp: b'_def bit_simps bit_singleBitMask)
    moreover have "bit b' (7 - toRem) = ?bit"
      using Suc.prems(1) by (auto simp: b'_def bit_simps bit_singleBitMask)
    ultimately show ?thesis using bits_of_update [OF lt(1) Suc.prems(1) that, of b'] by simp
  qed
  have hd: "bits_of from ! (8 * fromPtr + fromRem) = ?bit"
    using Suc.prems lt by (simp add: nth_bits_of_pos)
  have pre: "8 * fst t' + snd t' + n \<le> 8 * length (to[toPtr := b'])"
       "8 * fst f' + snd f' + n \<le> 8 * length from"
    using Suc.prems f t by auto
  obtain to' where to': "shiftLoop (to[toPtr := b']) from (fst t') (snd t') (fst f') (snd f') n = Some to'"
      "length to' = length to"
      "\<forall>k < 8 * length to. bits_of to' ! k =
        (if Suc (8 * toPtr + toRem) \<le> k \<and> k < Suc (8 * toPtr + toRem) + n
         then bits_of from ! (Suc (8 * fromPtr + fromRem) + (k - Suc (8 * toPtr + toRem)))
         else bits_of (to[toPtr := b']) ! k)"
    using Suc.IH [OF t(2) f(2) pre] by (auto simp: f t)
  have "bits_of to' ! k =
      (if 8 * toPtr + toRem \<le> k \<and> k < 8 * toPtr + toRem + Suc n
       then bits_of from ! (8 * fromPtr + fromRem + (k - (8 * toPtr + toRem)))
       else bits_of to ! k)" if "k < 8 * length to" for k
    using to'(3) that up [OF that] hd by (cases "k = 8 * toPtr + toRem") (auto simp: Suc_diff_Suc)
  with step to' show ?case by auto
qed

section \<open>Reads return the bits at the cursor\<close>

definition bv_wf :: "BitVector \<Rightarrow> bool" where
  "bv_wf v \<longleftrightarrow> curBitIndex v \<le> totNumBits v \<and> baseBitOffset v + totNumBits v \<le> 8 * length (baseByte v)"

text \<open>What is left to read.\<close>

definition bits_left :: "BitVector \<Rightarrow> bool list" where
  "bits_left v = take (totNumBits v - curBitIndex v)
     (drop (baseBitOffset v + curBitIndex v) (bits_of (baseByte v)))"

lemma length_bits_left: "bv_wf v \<Longrightarrow> length (bits_left v) = totNumBits v - curBitIndex v"
  by (auto simp: bv_wf_def bits_left_def)

lemma nth_bits_left:
  "bv_wf v \<Longrightarrow> k < totNumBits v - curBitIndex v \<Longrightarrow>
     bits_left v ! k = bits_of (baseByte v) ! (baseBitOffset v + curBitIndex v + k)"
  by (auto simp: bv_wf_def bits_left_def)

lemma bits_left_advance:
  "bits_left (v\<lparr>curBitIndex := curBitIndex v + n\<rparr>) = drop n (bits_left v)"
  by (simp add: bits_left_def drop_take ac_simps)

lemma bv_wf_advance:
  "bv_wf v \<Longrightarrow> n \<le> totNumBits v - curBitIndex v \<Longrightarrow> bv_wf (v\<lparr>curBitIndex := curBitIndex v + n\<rparr>)"
  by (auto simp: bv_wf_def)

lemma newBitVector_wf: "8 * length base \<ge> off + tot \<Longrightarrow> bv_wf (newBitVector base off tot)"
  by (simp add: bv_wf_def newBitVector_def)

lemma skipBits_spec:
  assumes "bv_wf v"
  shows "bits_left (skipBits n v) = drop n (bits_left v)" and "bv_wf (skipBits n v)"
  using assms by (auto simp: skipBits_def bits_left_def bv_wf_def drop_take ac_simps)

text \<open>
  \<open>getBits n\<close> returns the next \<open>min n 32\<close> bits, most significant first; bits past the end of
  the data read as zero and do not move the cursor.
\<close>

lemma getBits_spec:
  fixes n :: nat
  assumes wf: "bv_wf v"
  defines "m \<equiv> min n 32"
  defines "got \<equiv> take m (bits_left v)"
  shows "getBits n v = Some (word_of_bits (got @ replicate (m - length got) False),
           v\<lparr>curBitIndex := curBitIndex v + length got\<rparr>)"
proof (cases "n = 0")
  case True
  then show ?thesis by (simp add: getBits_def m_def got_def word_of_bits_def)
next
  case False
  define avail where "avail = totNumBits v - curBitIndex v"
  define c where "c = min m avail"
  let ?pos = "baseBitOffset v + curBitIndex v"
  have lg: "length got = c" by (simp add: got_def c_def avail_def length_bits_left wf min.commute)
  have us: "usub (totNumBits v) (curBitIndex v) = avail" using wf by (simp add: bv_wf_def avail_def)
  have pos: "?pos + avail \<le> 8 * length (baseByte v)" using wf by (auto simp: bv_wf_def avail_def)
  have c: "c \<le> 32" "c \<le> avail" by (auto simp: c_def m_def)
  have cm: "(if avail < m then m - avail else 0) = m - c" by (auto simp: c_def)
  have shift: "\<exists>t. shiftBits (replicate 4 0) (baseByte v) 0 ?pos c = Some t \<and> length t = 4 \<and>
      (\<forall>k < 32. bits_of t ! k = (k < c \<and> bits_of (baseByte v) ! (?pos + k)))"
  proof (cases "c = 0")
    case True
    then show ?thesis by (auto simp: shiftBits_def nth_bits_of)
  next
    case False
    have "8 * (?pos div 8) + ?pos mod 8 = ?pos" by simp
    then show ?thesis
      using shiftLoop_spec [of "0 mod 8" "?pos mod 8" "0 div 8" c "replicate 4 0" "?pos div 8" "baseByte v"]
        pos c False
      by (fastforce simp: shiftBits_def nth_bits_of)
  qed
  then obtain t where t: "shiftBits (replicate 4 0) (baseByte v) 0 ?pos c = Some t" "length t = 4"
    and bt: "\<And>k. k < 32 \<Longrightarrow> bits_of t ! k = (k < c \<and> bits_of (baseByte v) ! (?pos + k))" by blast
  obtain w where w: "be32 t = Some w" using be32_Some [of t] t by auto
  have res: "drop_bit (32 - m) (ucast w :: u64) AND push_bit (m - c) 0xFFFFFFFF =
      word_of_bits (got @ replicate (m - c) False)" (is "?l = ?r")
  proof (rule bit_word_eqI)
    fix k assume "k < LENGTH(64)"
    have m32: "(0xFFFFFFFF :: u64) = mask 32" by (simp add: mask_eq_exp_minus_1)
    have "bit ?l k \<longleftrightarrow> k + (32 - m) < 32 \<and> m - c \<le> k \<and> bits_of t ! (31 - (32 - m + k))"
      using m_def by (auto simp: m32 bit_simps be32_bits [OF w t(2)])
    also have "\<dots> \<longleftrightarrow> k < m \<and> m - c \<le> k \<and> bits_of (baseByte v) ! (?pos + (m - 1 - k))"
    proof (cases "k < m \<and> m - c \<le> k")
      case True
      have "m \<le> 32" by (simp add: m_def)
      with True have "31 - (32 - m + k) = m - 1 - k" "m - 1 - k < c" "m - 1 - k < 32"
        "k + (32 - m) < 32" by arith+
      then show ?thesis using True \<open>m \<le> 32\<close> bt by simp
    next
      case False
      moreover have "m \<le> 32" by (simp add: m_def)
      ultimately show ?thesis by auto
    qed
    also have "\<dots> \<longleftrightarrow> bit ?r k"
    proof -
      have "got ! (m - 1 - k) = bits_of (baseByte v) ! (?pos + (m - 1 - k))" if "k < m" "m - c \<le> k"
        using that wf c by (simp add: got_def nth_bits_left avail_def c_def)
      moreover have "length (got @ replicate (m - c) False) = m" using lg by (simp add: c_def)
      moreover have "(got @ replicate (m - c) False) ! (m - 1 - k) \<longleftrightarrow> m - c \<le> k \<and> got ! (m - 1 - k)"
        if "k < m"
      proof (cases "m - 1 - k < c")
        case True
        then have "m - c \<le> k" using that by arith
        then show ?thesis using True lg by (simp add: nth_append)
      next
        case False
        then have "\<not> m - c \<le> k" using that by arith
        then show ?thesis using False lg that by (simp add: nth_append)
      qed
      moreover have "m \<le> 32" by (simp add: m_def)
      ultimately show ?thesis unfolding bit_word_of_bits by auto
    qed
    finally show "bit ?l k = bit ?r k" .
  qed
  have n32: "(if n > maxLength then maxLength else n) = m" by (simp add: maxLength_def m_def)
  have mc: "m - (m - c) = c" by (simp add: c_def)
  show ?thesis
    unfolding getBits_def Let_def n32 us cm mc lg t(1) Option.bind.simps w
    unfolding maxLength_def res using False by simp
qed

lemma getBits_wf:
  assumes "bv_wf v" and "getBits n v = Some (x, v')"
  shows "bv_wf v'" and "bits_left v' = drop (min n 32) (bits_left v)"
    and "totNumBits v' = totNumBits v" and "curBitIndex v \<le> curBitIndex v'"
proof -
  have v': "v' = v\<lparr>curBitIndex := curBitIndex v + length (take (min n 32) (bits_left v))\<rparr>"
    using assms getBits_spec [OF assms(1), of n] by simp
  have "length (take (min n 32) (bits_left v)) \<le> totNumBits v - curBitIndex v"
    using length_bits_left [OF assms(1)] by simp
  then show "bv_wf v'" using assms(1) v' by (simp only: bv_wf_advance)
  have "drop (length (take k xs)) xs = drop k xs" for k and xs :: "bool list" by (simp add: min_def)
  then show "bits_left v' = drop (min n 32) (bits_left v)" unfolding v' by (simp only: bits_left_advance)
  show "totNumBits v' = totNumBits v" "curBitIndex v \<le> curBitIndex v'" by (simp_all add: v')
qed

lemma get1Bit_more:
  assumes wf: "bv_wf v" and lt: "curBitIndex v < totNumBits v"
  shows "get1Bit v = Some (of_bool (bits_left v ! 0), v\<lparr>curBitIndex := curBitIndex v + 1\<rparr>)"
proof -
  let ?p = "baseBitOffset v + curBitIndex v"
  have p: "?p < 8 * length (baseByte v)" using assms by (auto simp: bv_wf_def)
  then have i: "?p div 8 < length (baseByte v)" by auto
  have "bits_left v ! 0 = bit (baseByte v ! (?p div 8)) (7 - ?p mod 8)"
    using nth_bits_left [OF wf, of 0] lt p by (simp add: nth_bits_of)
  moreover have "ucast (drop_bit j b AND 1) = (of_bool (bit b j) :: u64)" for j and b :: byte
    by (rule bit_word_eqI) (auto simp: bit_simps bit_of_bool_iff)
  ultimately show ?thesis using lt i by (simp add: get1Bit_def Let_def)
qed

text \<open>\<open>get1Bit\<close> is \<open>getBits(1)\<close>, \<open>except faster\<close>.\<close>

lemma get1Bit_is_getBits:
  assumes wf: "bv_wf v"
  shows "get1Bit v = getBits 1 v"
proof (cases "curBitIndex v < totNumBits v")
  case True
  then obtain b bs where b: "bits_left v = b # bs"
    using length_bits_left [OF wf] by (cases "bits_left v") auto
  have "word_of_bits [b] = of_bool b" by (simp add: word_of_bits_def)
  then show ?thesis using get1Bit_more [OF wf True] getBits_spec [OF wf, of 1] b by simp
next
  case False
  then have "bits_left v = []" using length_bits_left [OF wf] by auto
  moreover have "word_of_bits [False] = 0" by (simp add: word_of_bits_def)
  ultimately show ?thesis using False getBits_spec [OF wf, of 1] by (simp add: get1Bit_def)
qed

lemma get1Bit_wf:
  assumes "bv_wf v" and "get1Bit v = Some (x, v')"
  shows "bv_wf v'" and "bits_left v' = drop 1 (bits_left v)" and "totNumBits v' = totNumBits v"
    and "curBitIndex v \<le> curBitIndex v'"
  using getBits_wf [OF assms(1), of 1 x v'] assms get1Bit_is_getBits [OF assms(1)] by simp_all

section \<open>Exp-Golomb codes\<close>

text \<open>The code of H.264 (9.1): \<open>v + 1\<close> in binary after as many zeros as it has further bits.\<close>

fun binary :: "nat \<Rightarrow> bool list" where
  "binary n = (if n = 0 then [] else binary (n div 2) @ [odd n])"

declare binary.simps [simp del]

definition ue_encode :: "nat \<Rightarrow> bool list" where
  "ue_encode n = replicate (length (binary (n + 1)) - 1) False @ binary (n + 1)"

lemma binary_pos: "0 < n \<Longrightarrow> \<exists>xs. binary n = True # xs"
proof (induction n rule: binary.induct)
  case (1 n)
  show ?case
  proof (cases "n div 2 = 0")
    case True
    then have "n = 1" using 1 by auto
    then show ?thesis by (simp add: binary.simps [of "Suc 0"] binary.simps [of 0])
  next
    case False
    then obtain xs where "binary (n div 2) = True # xs" using 1 by auto
    then show ?thesis using 1(2) by (subst binary.simps) auto
  qed
qed

lemma word_of_bits_snoc: "word_of_bits (xs @ [b]) = 2 * word_of_bits xs + of_bool b"
  by (simp add: word_of_bits_def)

lemma word_of_bits_binary: "word_of_bits (binary n) = of_nat n"
proof (induction n rule: binary.induct)
  case (1 n)
  show ?case
  proof (cases "n = 0")
    case True
    then show ?thesis by (simp add: binary.simps [of 0] word_of_bits_def)
  next
    case False
    have "n = 2 * (n div 2) + of_bool (odd n)" by simp
    then have "(of_nat n :: u64) = 2 * of_nat (n div 2) + of_bool (odd n)"
      by (metis of_nat_add of_nat_mult of_nat_numeral of_nat_of_bool)
    then show ?thesis using 1 [OF False] False by (subst binary.simps) (simp add: word_of_bits_snoc)
  qed
qed

lemma word_of_bits_Cons: "word_of_bits (b # xs) = of_bool b * 2 ^ length xs + word_of_bits xs"
  by (induction xs rule: rev_induct)
    (simp_all add: word_of_bits_snoc [of "b # xs" for xs, simplified] word_of_bits_snoc
      word_of_bits_def algebra_simps)

lemma length_binary: "n < 2 ^ k \<Longrightarrow> length (binary n) \<le> k"
proof (induction n arbitrary: k rule: binary.induct)
  case (1 n)
  show ?case
  proof (cases "n = 0")
    case True
    then show ?thesis by (simp add: binary.simps [of 0])
  next
    case False
    then obtain k' where k: "k = Suc k'" using 1(2) by (cases k) auto
    then have "n div 2 < 2 ^ k'" using 1(2) by auto
    then show ?thesis using 1(1) [OF False] False k by (subst binary.simps) simp
  qed
qed

lemma bits_left_pos: "bv_wf v \<Longrightarrow> bits_left v \<noteq> [] \<Longrightarrow> curBitIndex v < totNumBits v"
  using length_bits_left [of v] by (cases "bits_left v") auto

lemma expGolombScan_zeros:
  assumes "bv_wf v" and "bits_left v = replicate k False @ True # xs"
  shows "expGolombScan v z c = Some (z + k, c * 2 ^ k, v\<lparr>curBitIndex := curBitIndex v + k + 1\<rparr>)"
  using assms
proof (induction k arbitrary: v z c)
  case 0
  have lt: "curBitIndex v < totNumBits v" using 0 by (intro bits_left_pos) auto
  then show ?case using 0 get1Bit_more [OF 0(1) lt] by (subst expGolombScan.simps) simp
next
  case (Suc k)
  have lt: "curBitIndex v < totNumBits v" using Suc.prems by (intro bits_left_pos) auto
  let ?v = "v\<lparr>curBitIndex := curBitIndex v + 1\<rparr>"
  have wf: "bv_wf ?v" using Suc.prems lt by (intro bv_wf_advance) auto
  have bl: "bits_left ?v = replicate k False @ True # xs"
    unfolding bits_left_advance Suc.prems(2) by simp
  have "curBitIndex ?v < totNumBits ?v" using wf bl by (intro bits_left_pos) auto
  then show ?case
    using Suc.IH [OF wf bl, of "z + 1" "c * 2"] Suc.prems get1Bit_more [OF Suc.prems(1) lt]
    by (subst expGolombScan.simps) (simp add: ac_simps)
qed

lemma getExpGolomb_code:
  assumes wf: "bv_wf v" and bl: "bits_left v = replicate k False @ True # xs @ rest"
    and "length xs = k" and "k \<le> 32"
  shows "getExpGolomb v =
    Some (2 ^ k - 1 + word_of_bits xs, v\<lparr>curBitIndex := curBitIndex v + (2 * k + 1)\<rparr>)"
proof -
  let ?v = "v\<lparr>curBitIndex := curBitIndex v + (k + 1)\<rparr>"
  have len: "length (bits_left v) = totNumBits v - curBitIndex v" using wf by (rule length_bits_left)
  then have wf': "bv_wf ?v" using wf bl assms(3) by (intro bv_wf_advance) auto
  have bl': "bits_left ?v = xs @ rest" unfolding bits_left_advance bl by simp
  have "min k 32 = k" using assms(4) by simp
  then have "getBits k ?v = Some (word_of_bits xs, ?v\<lparr>curBitIndex := curBitIndex ?v + k\<rparr>)"
    using getBits_spec [OF wf', of k] bl' assms(3) by simp
  moreover have "expGolombScan v 0 1 = Some (k, 2 ^ k, ?v)"
    using expGolombScan_zeros [OF wf bl, of 0 1] by (simp add: ac_simps)
  ultimately show ?thesis by (simp add: getExpGolomb_def ac_simps)
qed

lemma ue_encode_shape:
  assumes "n < 2 ^ 33 - 1"
  obtains k xs where "ue_encode n = replicate k False @ True # xs" "length xs = k" "k \<le> 32"
    "2 ^ k - 1 + word_of_bits xs = of_nat n" "length (ue_encode n) = 2 * k + 1"
proof -
  obtain xs where xs: "binary (n + 1) = True # xs" using binary_pos [of "n + 1"] by auto
  have "length (binary (n + 1)) \<le> 33" using assms by (intro length_binary) simp
  then have k: "length xs \<le> 32" using xs by simp
  have "word_of_bits (True # xs) = of_nat n + 1" using word_of_bits_binary [of "n + 1"] xs by simp
  then have "2 ^ length xs - 1 + word_of_bits xs = of_nat n" by (simp add: word_of_bits_Cons algebra_simps)
  then show thesis using that [of "length xs" xs] k xs by (simp add: ue_encode_def)
qed

text \<open>Every read is total on a well-formed vector, whatever the data.\<close>

lemma expGolombScan_total:
  assumes "bv_wf v"
  shows "\<exists>z' c' v'. expGolombScan v z c = Some (z', c', v') \<and> bv_wf v' \<and>
    totNumBits v' = totNumBits v \<and> curBitIndex v \<le> curBitIndex v'"
  using assms
proof (induction v z c rule: expGolombScan.induct)
  case (1 v z c)
  obtain b v1 where g: "get1Bit v = Some (b, v1)"
    using get1Bit_is_getBits [OF 1(2)] getBits_spec [OF 1(2), of 1] by auto
  note w = get1Bit_wf [OF 1(2) g]
  show ?case
  proof (cases "b = 0 \<and> curBitIndex v1 < totNumBits v1")
    case True
    have "\<exists>z' c' v'. expGolombScan v1 (z + 1) (c * 2) = Some (z', c', v') \<and> bv_wf v' \<and>
        totNumBits v' = totNumBits v1 \<and> curBitIndex v1 \<le> curBitIndex v'"
      using "1.IH" [OF g refl True w(1)] .
    then show ?thesis using g True w by (subst expGolombScan.simps) fastforce
  next
    case False
    then show ?thesis using g w by (subst expGolombScan.simps) auto
  qed
qed

lemma getExpGolomb_total:
  assumes "bv_wf v"
  shows "\<exists>x v'. getExpGolomb v = Some (x, v') \<and> bv_wf v' \<and> totNumBits v' = totNumBits v \<and>
    curBitIndex v \<le> curBitIndex v'"
proof -
  obtain z c v1 where s: "expGolombScan v 0 1 = Some (z, c, v1)" "bv_wf v1"
      "totNumBits v1 = totNumBits v" "curBitIndex v \<le> curBitIndex v1"
    using expGolombScan_total [OF assms] by blast
  obtain x v' where g: "getBits z v1 = Some (x, v')" using getBits_spec [OF s(2)] by simp
  show ?thesis using s g getBits_wf [OF s(2) g] by (auto simp: getExpGolomb_def)
qed

section \<open>Properties\<close>

text \<open>C29. \<open>getBits\<close> is the specified read: the next \<open>min n 32\<close> bits of the data, most significant
  first and zero-filled past the end, with the cursor moved over the bits that were there. In
  particular it never indexes out of range on a well-formed vector.\<close>

theorem getBits_reads_next_bits:
  assumes "bv_wf v"
  shows "getBits n v =
    Some (word_of_bits (take (min n 32) (bits_left v)
              @ replicate (min n 32 - length (take (min n 32) (bits_left v))) False),
          v\<lparr>curBitIndex := curBitIndex v + length (take (min n 32) (bits_left v))\<rparr>)"
  by (rule getBits_spec [OF assms])

theorem getBits_reads_next_bits_witness:
  "bv_wf (newBitVector [0xA5, 0x0F] 4 12) \<and>
   getBits 6 (newBitVector [0xA5, 0x0F] 4 12) =
     Some (word_of_bits [False, True, False, True, False, False],
           (newBitVector [0xA5, 0x0F] 4 12)\<lparr>curBitIndex := 6\<rparr>)"
proof -
  have wf: "bv_wf (newBitVector [0xA5, 0x0F] 4 12)" by (simp add: newBitVector_wf)
  have bl: "bits_left (newBitVector [0xA5, 0x0F] 4 12) =
      [False, True, False, True, False, False, False, False, True, True, True, True]"
    by (simp add: newBitVector_def bits_left_def byte_bits_def upt_rec)
  show ?thesis
    using wf getBits_reads_next_bits [OF wf, of 6] unfolding bl by (simp add: newBitVector_def)
qed

text \<open>The comment on \<open>get1Bit\<close> holds: it is equivalent to \<open>getBits(1)\<close>, in the value and in the
  cursor, at the end of the data too.\<close>

theorem get1Bit_equals_getBits:
  assumes "bv_wf v"
  shows "get1Bit v = getBits 1 v"
  by (rule get1Bit_is_getBits [OF assms])

theorem get1Bit_equals_getBits_witness:
  "bv_wf (newBitVector [0x80] 0 1) \<and>
   get1Bit (newBitVector [0x80] 0 1) = getBits 1 (newBitVector [0x80] 0 1)"
  using get1Bit_equals_getBits [of "newBitVector [0x80] 0 1"] by (simp add: newBitVector_wf)

text \<open>C30. Exp-Golomb round trip: reading the code of any \<open>n < 2^33 - 1\<close> (up to 32 leading zeros, all
  that one \<open>getBits\<close> can read back) gives \<open>n\<close> and moves the cursor just past the code.\<close>

theorem getExpGolomb_decodes:
  assumes "bv_wf v" and "bits_left v = ue_encode n @ rest" and "n < 2 ^ 33 - 1"
  shows "getExpGolomb v =
    Some (of_nat n, v\<lparr>curBitIndex := curBitIndex v + length (ue_encode n)\<rparr>)"
proof -
  obtain k xs where s: "ue_encode n = replicate k False @ True # xs" "length xs = k" "k \<le> 32"
    "2 ^ k - 1 + word_of_bits xs = of_nat n" "length (ue_encode n) = 2 * k + 1"
    using ue_encode_shape [OF assms(3)] .
  have "bits_left v = replicate k False @ True # xs @ rest" using assms(2) s(1) by simp
  from getExpGolomb_code [OF assms(1) this s(2,3)] show ?thesis using s by simp
qed

theorem getExpGolomb_decodes_witness:
  "getExpGolomb (newBitVector [0x2F] 0 8) = Some (4, (newBitVector [0x2F] 0 8)\<lparr>curBitIndex := 5\<rparr>)"
proof -
  let ?v = "newBitVector [0x2F] 0 8"
  have wf: "bv_wf ?v" by (simp add: newBitVector_wf)
  have ue: "ue_encode 4 = [False, False, True, False, True]"
    by code_simp
  have bl: "bits_left ?v = ue_encode 4 @ [True, True, True]"
    by (simp add: ue newBitVector_def bits_left_def byte_bits_def upt_rec)
  show ?thesis using getExpGolomb_decodes [OF wf bl] by (simp add: ue newBitVector_def)
qed

end
