(* ===== verification/OutBuffer.thy ===== *)
theory OutBuffer
  imports Binary
begin

text \<open>
  \<^verbatim>\<open>livemedia/media_sink.go\<close>: \<open>OutPacketBuffer\<close>, the buffer every outgoing RTP and RTCP
  packet is built in.

  The packet under construction is \<open>content b\<close>, the \<open>curOffset\<close> bytes from \<open>packetStart\<close> on;
  the lemmas state each operation as an operation on it. \<open>buff_wf\<close> is the invariant: the array has
  \<open>limit\<close> bytes and the packet lies inside it. A write of a word goes through the standard library's
  \<open>binary.Write\<close>, which does not fail on a \<open>uint32\<close> and a \<open>bytes.Buffer\<close>.
\<close>

record OutPacketBuffer =
  buff :: bytes
  limit :: nat
  preferred :: nat
  curOffset :: nat
  packetStart :: nat
  maxPacketSize :: nat
  overflowDataSize :: nat
  overflowDataOffset :: nat
  overflowDurationInMicroseconds :: nat
  overflowPresentationTime :: timeval

definition OutPacketBufferMaxSize :: nat where
  "OutPacketBufferMaxSize = 2000000"

definition resetOffset :: "OutPacketBuffer \<Rightarrow> OutPacketBuffer" where
  "resetOffset b = b\<lparr>curOffset := 0\<rparr>"

definition resetPacketStart :: "OutPacketBuffer \<Rightarrow> OutPacketBuffer" where
  "resetPacketStart b =
     (let b1 = (if overflowDataSize b > 0
                then b\<lparr>overflowDataOffset := overflowDataOffset b + packetStart b\<rparr> else b)
      in b1\<lparr>packetStart := 0\<rparr>)"

definition resetOverflowData :: "OutPacketBuffer \<Rightarrow> OutPacketBuffer" where
  "resetOverflowData b = b\<lparr>overflowDataSize := 0, overflowDataOffset := 0\<rparr>"

text \<open>The package variable \<open>OutPacketBufferMaxSize\<close> is the first argument; a zero packet size
  divides by zero.\<close>

definition newOutPacketBuffer :: "nat \<Rightarrow> nat \<Rightarrow> nat \<Rightarrow> OutPacketBuffer option" where
  "newOutPacketBuffer maxSize preferredPacketSize maxPacketSz =
     (if maxPacketSz = 0 then None
      else
        let maxNumPackets = (maxSize + (maxPacketSz - 1)) div maxPacketSz;
            lim = maxNumPackets * maxPacketSz;
            b = \<lparr>buff = replicate lim 0, limit = lim, preferred = preferredPacketSize, curOffset = 0,
                 packetStart = 0, maxPacketSize = maxPacketSz, overflowDataSize = 0,
                 overflowDataOffset = 0, overflowDurationInMicroseconds = 0,
                 overflowPresentationTime = tv_zero\<rparr>
        in Some (resetOverflowData (resetPacketStart (resetOffset b))))"

definition packet :: "OutPacketBuffer \<Rightarrow> bytes option" where
  "packet b = slice_from (buff b) (packetStart b)"

definition curPtr :: "OutPacketBuffer \<Rightarrow> bytes option" where
  "curPtr b = slice_from (buff b) (packetStart b + curOffset b)"

definition curPacketSize :: "OutPacketBuffer \<Rightarrow> nat" where
  "curPacketSize b = curOffset b"

definition totalBufferSize :: "OutPacketBuffer \<Rightarrow> nat" where
  "totalBufferSize b = limit b"

definition increment :: "nat \<Rightarrow> OutPacketBuffer \<Rightarrow> OutPacketBuffer" where
  "increment numBytes b = b\<lparr>curOffset := uadd (curOffset b) numBytes\<rparr>"

definition haveOverflowData :: "OutPacketBuffer \<Rightarrow> bool" where
  "haveOverflowData b \<longleftrightarrow> overflowDataSize b > 0"

definition isPreferredSize :: "OutPacketBuffer \<Rightarrow> bool" where
  "isPreferredSize b \<longleftrightarrow> curOffset b \<ge> preferred b"

definition setOverflowData :: "nat \<Rightarrow> nat \<Rightarrow> nat \<Rightarrow> timeval \<Rightarrow> OutPacketBuffer \<Rightarrow> OutPacketBuffer" where
  "setOverflowData off sz dur pt b =
     b\<lparr>overflowDataSize := sz, overflowDataOffset := off, overflowPresentationTime := pt,
       overflowDurationInMicroseconds := dur\<rparr>"

definition adjustPacketStart :: "nat \<Rightarrow> OutPacketBuffer \<Rightarrow> OutPacketBuffer" where
  "adjustPacketStart numBytes b =
     (let b1 = b\<lparr>packetStart := packetStart b + numBytes\<rparr>
      in if overflowDataOffset b1 \<ge> numBytes
         then b1\<lparr>overflowDataOffset := overflowDataOffset b1 - numBytes\<rparr>
         else b1\<lparr>overflowDataOffset := 0, overflowDataSize := 0\<rparr>)"

definition totalBytesAvailable :: "OutPacketBuffer \<Rightarrow> nat" where
  "totalBytesAvailable b = usub (limit b) (packetStart b + curOffset b)"

text \<open>\<open>copy\<close> moves as many bytes as \<open>from\<close> and the rest of the buffer have; the cursor moves by
  \<open>numBytes\<close>, whatever was copied.\<close>

definition enqueue :: "bytes \<Rightarrow> nat \<Rightarrow> OutPacketBuffer \<Rightarrow> OutPacketBuffer option" where
  "enqueue from numBytes0 b =
     (let numBytes = (if numBytes0 > totalBytesAvailable b then totalBytesAvailable b else numBytes0)
      in do {
        _ \<leftarrow> curPtr b;
        Some (increment numBytes (b\<lparr>buff := copy_at (buff b) (packetStart b + curOffset b) from\<rparr>))
      })"

definition useOverflowData :: "OutPacketBuffer \<Rightarrow> OutPacketBuffer option" where
  "useOverflowData b = do {
     from \<leftarrow> slice_from (buff b) (packetStart b + overflowDataOffset b);
     enqueue from (overflowDataSize b) b
   }"

definition enqueueWord :: "u32 \<Rightarrow> OutPacketBuffer \<Rightarrow> OutPacketBuffer option" where
  "enqueueWord word b = enqueue (be32_enc word) 4 b"

definition buf_insert :: "bytes \<Rightarrow> nat \<Rightarrow> nat \<Rightarrow> OutPacketBuffer \<Rightarrow> OutPacketBuffer option" where
  "buf_insert from numBytes0 toPosition b =
     (let realToPosition = packetStart b + toPosition;
          over = realToPosition + numBytes0 > limit b;
          numBytes = (if over then limit b - realToPosition else numBytes0)
      in if over \<and> realToPosition > limit b then Some b
         else do {
           src \<leftarrow> slice from 0 numBytes;
           _ \<leftarrow> slice_from (buff b) realToPosition;
           let b1 = b\<lparr>buff := copy_at (buff b) realToPosition src\<rparr>;
           Some (if toPosition + numBytes > curOffset b1
                 then b1\<lparr>curOffset := toPosition + numBytes\<rparr> else b1)
         })"

definition insertWord :: "u32 \<Rightarrow> nat \<Rightarrow> OutPacketBuffer \<Rightarrow> OutPacketBuffer option" where
  "insertWord word toPosition b = buf_insert (be32_enc word) 4 toPosition b"

definition wouldOverflow :: "nat \<Rightarrow> OutPacketBuffer \<Rightarrow> bool" where
  "wouldOverflow numBytes b \<longleftrightarrow> uadd (curOffset b) numBytes > maxPacketSize b"

definition numOverflowBytes :: "nat \<Rightarrow> OutPacketBuffer \<Rightarrow> nat" where
  "numOverflowBytes numBytes b = usub (uadd (curOffset b) numBytes) (maxPacketSize b)"

definition isTooBigForAPacket :: "nat \<Rightarrow> OutPacketBuffer \<Rightarrow> bool" where
  "isTooBigForAPacket numBytes b \<longleftrightarrow> numBytes > maxPacketSize b"

definition buf_extract :: "bytes \<Rightarrow> nat \<Rightarrow> nat \<Rightarrow> OutPacketBuffer \<Rightarrow> bytes option" where
  "buf_extract to numBytes0 fromPosition b =
     (let realFromPosition = packetStart b + fromPosition;
          over = realFromPosition + numBytes0 > limit b;
          numBytes = (if over then limit b - realFromPosition else numBytes0)
      in if over \<and> realFromPosition > limit b then Some to
         else do {
           src \<leftarrow> slice (buff b) realFromPosition (realFromPosition + numBytes);
           Some (copy_at to 0 src)
         })"

definition extractWord :: "nat \<Rightarrow> OutPacketBuffer \<Rightarrow> u32 option" where
  "extractWord fromPosition b = do {
     word \<leftarrow> buf_extract (replicate 4 0) 4 fromPosition b;
     be32 word
   }"

definition buf_skipBytes :: "nat \<Rightarrow> OutPacketBuffer \<Rightarrow> OutPacketBuffer" where
  "buf_skipBytes numBytes0 b =
     (let numBytes = (if numBytes0 > totalBytesAvailable b then totalBytesAvailable b else numBytes0)
      in increment numBytes b)"

section \<open>The packet under construction\<close>

definition buff_wf :: "OutPacketBuffer \<Rightarrow> bool" where
  "buff_wf b \<longleftrightarrow> length (buff b) = limit b \<and> packetStart b + curOffset b \<le> limit b \<and> limit b < 2 ^ 63"

definition content :: "OutPacketBuffer \<Rightarrow> bytes" where
  "content b = take (curOffset b) (drop (packetStart b) (buff b))"

definition room :: "OutPacketBuffer \<Rightarrow> nat" where
  "room b = limit b - (packetStart b + curOffset b)"

lemma length_content: "buff_wf b \<Longrightarrow> length (content b) = curOffset b"
  by (auto simp: buff_wf_def content_def)

lemma available_room: "buff_wf b \<Longrightarrow> totalBytesAvailable b = room b"
  by (simp add: buff_wf_def totalBytesAvailable_def room_def)

lemma newOutPacketBuffer_wf:
  assumes "newOutPacketBuffer m p k = Some b" and "m + k < 2 ^ 63"
  shows "buff_wf b \<and> content b = [] \<and> room b = limit b"
proof -
  have "(m + k - Suc 0) div k * k \<le> m + k - Suc 0" by (rule div_times_less_eq_dividend)
  then have "(m + k - Suc 0) div k * k < 2 ^ 63" using assms(2) by linarith
  then show ?thesis using assms
    by (auto simp: newOutPacketBuffer_def buff_wf_def content_def room_def resetOverflowData_def
        resetPacketStart_def resetOffset_def Let_def split: if_splits)
qed

lemma enqueue_content:
  assumes "buff_wf b" and "length from = n" and "n \<le> room b"
  shows "\<exists>b'. enqueue from n b = Some b' \<and> buff_wf b' \<and> content b' = content b @ from \<and>
    room b' = room b - n \<and> packetStart b' = packetStart b \<and> limit b' = limit b \<and>
    curOffset b' = curOffset b + n"
proof -
  let ?p = "packetStart b + curOffset b"
  let ?b' = "increment n (b\<lparr>buff := copy_at (buff b) ?p from\<rparr>)"
  have l: "length (buff b) = limit b" "?p + n \<le> limit b"
    using assms by (auto simp: buff_wf_def room_def)
  have "take (curOffset b + n) (drop (packetStart b) (copy_at (buff b) ?p from)) =
      take (curOffset b) (drop (packetStart b) (buff b)) @ from"
    using l assms(2) by (intro nth_equalityI) (auto simp: nth_copy_at nth_append)
  moreover have "enqueue from n b = Some ?b'"
    using assms l by (simp add: enqueue_def available_room curPtr_def)
  ultimately show ?thesis
    using assms l by (auto simp: buff_wf_def content_def increment_def room_def)
qed

lemma enqueueWord_content:
  assumes "buff_wf b" and "4 \<le> room b"
  shows "\<exists>b'. enqueueWord w b = Some b' \<and> buff_wf b' \<and> content b' = content b @ be32_enc w \<and>
    room b' = room b - 4 \<and> packetStart b' = packetStart b \<and> limit b' = limit b \<and>
    curOffset b' = curOffset b + 4"
  using enqueue_content [OF assms(1), of "be32_enc w" 4] assms(2)
  by (simp add: enqueueWord_def c32.enc_length)

lemma insertWord_content:
  assumes "buff_wf b" and "p + 4 \<le> curOffset b"
  shows "\<exists>b'. insertWord w p b = Some b' \<and> buff_wf b' \<and>
    content b' = copy_at (content b) p (be32_enc w) \<and> room b' = room b \<and>
    curOffset b' = curOffset b"
proof -
  let ?b' = "b\<lparr>buff := copy_at (buff b) (packetStart b + p) (be32_enc w)\<rparr>"
  have l: "length (buff b) = limit b" "packetStart b + p + 4 \<le> limit b"
    "packetStart b + curOffset b \<le> limit b" "limit b < 2 ^ 63"
    using assms by (auto simp: buff_wf_def)
  have "insertWord w p b = Some ?b'"
    using assms l by (simp add: insertWord_def buf_insert_def c32.enc_length)
  moreover have "content ?b' = copy_at (content b) p (be32_enc w)"
    using assms l
    by (intro nth_equalityI) (auto simp: content_def nth_copy_at c32.enc_length)
  ultimately show ?thesis using l by (auto simp: buff_wf_def room_def)
qed

lemma extractWord_content:
  assumes "buff_wf b" and "p + 4 \<le> curOffset b"
  shows "extractWord p b = be32 (drop p (content b))"
proof -
  have l: "length (buff b) = limit b" "packetStart b + p + 4 \<le> limit b"
    "packetStart b + curOffset b \<le> limit b"
    using assms by (auto simp: buff_wf_def)
  have "copy_at (replicate 4 0) 0 (take 4 (drop (packetStart b + p) (buff b))) =
      take 4 (drop (packetStart b + p) (buff b))"
    using l by (intro nth_equalityI) (auto simp: nth_copy_at)
  then have e: "extractWord p b = be32 (take 4 (drop (packetStart b + p) (buff b)))"
    using l by (simp add: extractWord_def buf_extract_def)
  have "take 4 (drop p (content b)) = take 4 (drop (packetStart b + p) (buff b))"
  proof -
    have "min 4 (curOffset b - p) = 4" using assms by simp
    then show ?thesis by (simp add: content_def drop_take ac_simps take_take)
  qed
  moreover have "be32 (take 4 xs) = be32 xs" for xs
    by (cases xs rule: be32.cases) auto
  ultimately show ?thesis using e by metis
qed

lemma buf_skipBytes_content:
  assumes "buff_wf b" and "n \<le> room b"
  shows "buff_wf (buf_skipBytes n b)" and "\<exists>s. length s = n \<and> content (buf_skipBytes n b) = content b @ s"
    and "room (buf_skipBytes n b) = room b - n" and "curOffset (buf_skipBytes n b) = curOffset b + n"
proof -
  have sk: "buf_skipBytes n b = increment n b" using assms by (simp add: buf_skipBytes_def available_room)
  show "buff_wf (buf_skipBytes n b)" "room (buf_skipBytes n b) = room b - n"
    "curOffset (buf_skipBytes n b) = curOffset b + n"
    using assms by (auto simp: sk increment_def buff_wf_def room_def)
  let ?d = "drop (packetStart b) (buff b)"
  have "take (curOffset b + n) ?d = take (curOffset b) ?d @ take n (drop (curOffset b) ?d)"
    by (rule take_add)
  moreover have "length (take n (drop (curOffset b) ?d)) = n"
    using assms by (auto simp: buff_wf_def room_def)
  moreover have "uadd (curOffset b) n = curOffset b + n" using assms by (auto simp: buff_wf_def room_def)
  ultimately show "\<exists>s. length s = n \<and> content (buf_skipBytes n b) = content b @ s"
    by (auto simp: sk content_def increment_def)
qed

section \<open>Word-wise writing as an interface\<close>

text \<open>
  The packet builders (RTP header, RTCP reports) only use the buffer to append, patch and read
  back 32-bit words. That contract is \<open>word_writer\<close> and its extension \<open>word_patcher\<close>.
\<close>

fun putWords :: "('w \<Rightarrow> 'b \<Rightarrow> 'b option) \<Rightarrow> 'w list \<Rightarrow> 'b \<Rightarrow> 'b option" where
  "putWords pw [] b = Some b"
| "putWords pw (w # ws) b = do { b' \<leftarrow> pw w b; putWords pw ws b' }"

lemma putWords_append:
  "putWords pw (xs @ ys) b = do { b' \<leftarrow> putWords pw xs b; putWords pw ys b' }"
  by (induction xs arbitrary: b) (auto split: Option.bind_splits)

definition words_enc :: "u32 list \<Rightarrow> bytes" where
  "words_enc ws = concat (map be32_enc ws)"

lemma words_enc_simps [simp]:
  "words_enc [] = []" "words_enc (w # ws) = be32_enc w @ words_enc ws"
  "words_enc (xs @ ys) = words_enc xs @ words_enc ys"
  by (simp_all add: words_enc_def)

lemma length_words_enc [simp]: "length (words_enc ws) = 4 * length ws"
  by (induction ws) (simp_all add: c32.enc_length)

lemma drop_words_enc: "i \<le> length ws \<Longrightarrow> drop (4 * i) (words_enc ws) = words_enc (drop i ws)"
proof (induction ws arbitrary: i)
  case (Cons w ws)
  then show ?case by (cases i) (simp_all add: c32.enc_length)
qed simp

lemma be32_words_enc:
  assumes "i < length ws"
  shows "be32 (drop (4 * i) (words_enc ws) @ r) = Some (ws ! i)"
proof -
  have "drop i ws = ws ! i # drop (Suc i) ws" using assms by (simp add: Cons_nth_drop_Suc)
  then show ?thesis using assms by (simp add: drop_words_enc codec)
qed

locale word_writer =
  fixes putW :: "u32 \<Rightarrow> 'b \<Rightarrow> 'b option"
    and bytes_of :: "'b \<Rightarrow> bytes"
    and space :: "'b \<Rightarrow> nat"
    and ok :: "'b \<Rightarrow> bool"
  assumes putW_ok: "ok b \<Longrightarrow> 4 \<le> space b \<Longrightarrow>
    \<exists>b'. putW w b = Some b' \<and> ok b' \<and> bytes_of b' = bytes_of b @ be32_enc w \<and> space b' = space b - 4"
begin

lemma putWords_ok:
  "ok b \<Longrightarrow> 4 * length ws \<le> space b \<Longrightarrow>
    \<exists>b'. putWords putW ws b = Some b' \<and> ok b' \<and> bytes_of b' = bytes_of b @ words_enc ws \<and>
      space b' = space b - 4 * length ws"
proof (induction ws arbitrary: b)
  case (Cons w ws)
  obtain b1 where b1: "putW w b = Some b1" "ok b1" "bytes_of b1 = bytes_of b @ be32_enc w"
    "space b1 = space b - 4" using putW_ok [of b w] Cons.prems by auto
  show ?case using Cons.IH [OF b1(2)] Cons.prems b1 by auto
qed auto

end

locale word_patcher = word_writer +
  fixes patchW :: "u32 \<Rightarrow> nat \<Rightarrow> 'b \<Rightarrow> 'b option"
    and readW :: "nat \<Rightarrow> 'b \<Rightarrow> u32 option"
  assumes patchW_ok: "ok b \<Longrightarrow> p + 4 \<le> length (bytes_of b) \<Longrightarrow>
    \<exists>b'. patchW w p b = Some b' \<and> ok b' \<and> bytes_of b' = copy_at (bytes_of b) p (be32_enc w) \<and>
      space b' = space b"
    and readW_ok: "ok b \<Longrightarrow> p + 4 \<le> length (bytes_of b) \<Longrightarrow> readW p b = be32 (drop p (bytes_of b))"
begin

lemma read_after_patch:
  assumes "ok b" and "p + 4 \<le> length (bytes_of b)"
  shows "\<exists>b'. patchW w p b = Some b' \<and> ok b' \<and> readW p b' = Some w \<and>
    length (bytes_of b') = length (bytes_of b)"
proof -
  obtain b' where b': "patchW w p b = Some b'" "ok b'"
    "bytes_of b' = copy_at (bytes_of b) p (be32_enc w)" using patchW_ok [OF assms] by blast
  then have l: "length (bytes_of b') = length (bytes_of b)" using assms by simp
  show ?thesis using b' l assms readW_ok [of b' p] c32.dec_after_copy [of p "bytes_of b" w] by simp
qed

lemma read_after_putWords:
  assumes "ok b" and "4 * length ws \<le> space b"
  shows "\<exists>b'. putWords putW ws b = Some b' \<and> ok b' \<and>
    (\<forall>i < length ws. readW (length (bytes_of b) + 4 * i) b' = Some (ws ! i))"
proof -
  obtain b' where b': "putWords putW ws b = Some b'" "ok b'" "bytes_of b' = bytes_of b @ words_enc ws"
    using putWords_ok [OF assms] by blast
  have "readW (length (bytes_of b) + 4 * i) b' = Some (ws ! i)" if "i < length ws" for i
    using that readW_ok [OF b'(2)] b'(3) be32_words_enc [OF that, of "[]"] by simp
  then show ?thesis using b' by blast
qed

end

interpretation ob: word_writer enqueueWord content room buff_wf
  by unfold_locales (meson enqueueWord_content)

interpretation obp: word_patcher enqueueWord content room buff_wf insertWord extractWord
proof unfold_locales
  fix b :: OutPacketBuffer and p w
  assume "buff_wf b" "p + 4 \<le> length (content b)"
  then show "\<exists>b'. insertWord w p b = Some b' \<and> buff_wf b' \<and>
      content b' = copy_at (content b) p (be32_enc w) \<and> room b' = room b"
    using insertWord_content [of b p w] by (auto simp: length_content)
next
  fix b :: OutPacketBuffer and p
  assume "buff_wf b" "p + 4 \<le> length (content b)"
  then show "extractWord p b = be32 (drop p (content b))"
    by (simp add: extractWord_content length_content)
qed

section \<open>Properties\<close>

text \<open>Words enqueued into a packet that has room for them are appended in network byte order, and
  each reads back from its offset with \<open>extractWord\<close>.\<close>

theorem enqueued_words_read_back:
  assumes "buff_wf b" and "4 * length ws \<le> room b"
  shows "\<exists>b'. putWords enqueueWord ws b = Some b' \<and> content b' = content b @ words_enc ws \<and>
    (\<forall>i < length ws. extractWord (curPacketSize b + 4 * i) b' = Some (ws ! i))"
  using ob.putWords_ok [OF assms] obp.read_after_putWords [OF assms] length_content [OF assms(1)]
  by (auto simp: curPacketSize_def)

theorem enqueued_words_read_back_witness:
  "\<exists>b b'. newOutPacketBuffer 16 8 16 = Some b \<and> putWords enqueueWord [0x80600001, 7] b = Some b' \<and>
     extractWord 4 b' = Some 7"
proof -
  obtain b where b: "newOutPacketBuffer 16 8 16 = Some b" by (auto simp: newOutPacketBuffer_def)
  have "limit b = 16" "curOffset b = 0" using b
    by (auto simp: newOutPacketBuffer_def resetOverflowData_def resetPacketStart_def resetOffset_def)
  then have r: "buff_wf b" "4 * length [0x80600001 :: u32, 7] \<le> room b" "curPacketSize b = 0"
    using newOutPacketBuffer_wf [OF b] by (auto simp: curPacketSize_def)
  obtain b' where b': "putWords enqueueWord [0x80600001, 7] b = Some b'"
    and rd: "\<forall>i < length [0x80600001 :: u32, 7].
      extractWord (curPacketSize b + 4 * i) b' = Some ([0x80600001, 7] ! i)"
    using enqueued_words_read_back [OF r(1,2)] by blast
  have "extractWord 4 b' = Some 7" using rd [rule_format, of 1] r(3) by simp
  then show ?thesis using b b' by blast
qed

text \<open>Patching a word already in the packet (\<open>insertWord\<close>, as for the timestamp and the marker bit)
  changes those four bytes and nothing else: the size, the other bytes and every other word stay.\<close>

theorem insertWord_is_local:
  assumes "buff_wf b" and "p + 4 \<le> curPacketSize b"
  shows "\<exists>b'. insertWord w p b = Some b' \<and> extractWord p b' = Some w \<and>
    curPacketSize b' = curPacketSize b \<and>
    (\<forall>q. q + 4 \<le> curPacketSize b \<longrightarrow> q + 4 \<le> p \<or> p + 4 \<le> q \<longrightarrow> extractWord q b' = extractWord q b)"
proof -
  obtain b' where b': "insertWord w p b = Some b'" "buff_wf b'"
    "content b' = copy_at (content b) p (be32_enc w)" "curOffset b' = curOffset b"
    using insertWord_content [of b p w] assms by (auto simp: curPacketSize_def)
  have w: "extractWord p b' = Some w"
    using obp.read_after_patch [OF assms(1), of p w] assms b'(1)
    by (auto simp: length_content curPacketSize_def)
  have "take 4 (drop q (content b')) = take 4 (drop q (content b))"
    if "q + 4 \<le> curPacketSize b" "q + 4 \<le> p \<or> p + 4 \<le> q" for q
    using that assms b'(3) length_content [OF assms(1)]
    by (intro nth_equalityI) (auto simp: nth_copy_at c32.enc_length curPacketSize_def)
  moreover have "be32 (take 4 xs) = be32 xs" for xs by (cases xs rule: be32.cases) auto
  ultimately have "be32 (drop q (content b')) = be32 (drop q (content b))"
    if "q + 4 \<le> curPacketSize b" "q + 4 \<le> p \<or> p + 4 \<le> q" for q
    using that by metis
  then show ?thesis using b' w assms(1) by (auto simp: curPacketSize_def extractWord_content)
qed

theorem insertWord_is_local_witness:
  "\<exists>b b'. newOutPacketBuffer 16 8 16 = Some b \<and> insertWord 5 4 (increment 12 b) = Some b' \<and>
     extractWord 4 b' = Some 5 \<and> extractWord 8 b' = extractWord 8 (increment 12 b)"
proof -
  obtain b where b: "newOutPacketBuffer 16 8 16 = Some b" by (auto simp: newOutPacketBuffer_def)
  have r: "buff_wf (increment 12 b)" "4 + 4 \<le> curPacketSize (increment 12 b)"
    "8 + 4 \<le> curPacketSize (increment 12 b)"
    using b by (auto simp: newOutPacketBuffer_def resetOverflowData_def resetPacketStart_def
        resetOffset_def buff_wf_def increment_def curPacketSize_def)
  from insertWord_is_local [OF r(1,2), of 5] r(3) b show ?thesis by auto
qed

end
