(* ===== verification/Framed.thy ===== *)
theory Framed
  imports GoPrelude
begin

text \<open>
  \<^verbatim>\<open>livemedia/framed_source.go\<close>: the base of every frame source, with the rule that one
  read is outstanding at a time.

  The record holds the fields of \<open>FramedSource\<close>; sources extend it. The callbacks
  (\<open>afterGettingFunc\<close>, \<open>onCloseFunc\<close>) and the virtual \<open>doGetNextFrame\<close> and \<open>doStopGettingFrames\<close>
  are arguments of the operations that call them: a callback is represented by the arguments it is
  called with.
\<close>

record FramedSource =
  buffTo :: bytes
  maxSize :: nat
  frameSize :: nat
  numTruncatedBytes :: nat
  durationInMicroseconds :: nat
  isCurrentlyAwaitingData :: bool
  presentationTime :: timeval

definition GetNextFrame ::
  "('a FramedSource_scheme \<Rightarrow> 'r option) \<Rightarrow> bytes \<Rightarrow> nat \<Rightarrow> 'a FramedSource_scheme \<Rightarrow> 'r option" where
  "GetNextFrame doGetNextFrame to sz f =
     (if isCurrentlyAwaitingData f then None
      else doGetNextFrame (f\<lparr>buffTo := to, maxSize := sz, isCurrentlyAwaitingData := True\<rparr>))"

text \<open>The new state and the arguments of \<open>afterGettingFunc\<close>: frame size, duration, time.\<close>

definition afterGetting ::
  "'a FramedSource_scheme \<Rightarrow> 'a FramedSource_scheme \<times> (nat \<times> nat \<times> timeval)" where
  "afterGetting f =
     (let f' = f\<lparr>isCurrentlyAwaitingData := False\<rparr>
      in (f', frameSize f', durationInMicroseconds f', presentationTime f'))"

definition stopGettingFrames ::
  "('a FramedSource_scheme \<Rightarrow> 'a FramedSource_scheme) \<Rightarrow> 'a FramedSource_scheme \<Rightarrow> 'a FramedSource_scheme" where
  "stopGettingFrames doStopGettingFrames f =
     doStopGettingFrames (f\<lparr>isCurrentlyAwaitingData := False\<rparr>)"

definition handleClosure ::
  "('a FramedSource_scheme \<Rightarrow> 'a FramedSource_scheme) \<Rightarrow> ('a FramedSource_scheme \<Rightarrow> 'a FramedSource_scheme) option
     \<Rightarrow> 'a FramedSource_scheme \<Rightarrow> 'a FramedSource_scheme" where
  "handleClosure doStopGettingFrames onCloseFunc f =
     (let f' = stopGettingFrames doStopGettingFrames f
      in case onCloseFunc of None \<Rightarrow> f' | Some g \<Rightarrow> g f')"

definition doStopGettingFrames :: "'a FramedSource_scheme \<Rightarrow> 'a FramedSource_scheme" where
  "doStopGettingFrames f = f"

definition maxFrameSize :: "'a FramedSource_scheme \<Rightarrow> nat" where
  "maxFrameSize f = 0"

definition isAwaitingData :: "'a FramedSource_scheme \<Rightarrow> bool" where
  "isAwaitingData f = isCurrentlyAwaitingData f"

section \<open>One outstanding read\<close>

lemma GetNextFrame_twice: "isAwaitingData f \<Longrightarrow> GetNextFrame g to sz f = None"
  by (simp add: GetNextFrame_def isAwaitingData_def)

lemma afterGetting_idle: "afterGetting f = (f', args) \<Longrightarrow> \<not> isAwaitingData f'"
  by (auto simp: afterGetting_def Let_def isAwaitingData_def)

lemma stop_idle: "\<not> isAwaitingData (stopGettingFrames doStopGettingFrames f)"
  by (simp add: stopGettingFrames_def doStopGettingFrames_def isAwaitingData_def)

end
