(* ===== verification/Fragmenter.thy ===== *)
theory Fragmenter
  imports Framed Binary
begin

text \<open>
  \<^verbatim>\<open>livemedia/h264_video_rtp_sink.go\<close>, \<open>H264FUAFragmenter\<close>: cuts the NAL units of the framer
  into FU-A fragments that fit a packet (RFC 6184, 5.8).

  \<open>fragmentStep\<close> is the branch of \<open>doGetNextFrame\<close> that delivers from the input buffer, with the
  rewriting of the buffer in place; \<open>doGetNextFrame\<close> adds the request for a new NAL unit.
  The specification \<open>fua_packets\<close> lists the packets a NAL unit must become; the main lemma is that
  pulling frames delivers exactly those.
\<close>

record H264FUAFragmenter = FramedSource +
  saveNumTruncatedBytes :: nat
  maxOutputPacketSize :: nat
  numValidDataBytes :: nat
  inputBufferSize :: nat
  curDataOffset :: nat
  inputBuffer :: bytes
  lastFragmentCompletedNALUnit :: bool

definition newH264FUAFragmenter :: "nat \<Rightarrow> nat \<Rightarrow> H264FUAFragmenter" where
  "newH264FUAFragmenter inputBufferMax maxOut =
     \<lparr>buffTo = [], maxSize = 0, frameSize = 0, numTruncatedBytes = 0, durationInMicroseconds = 0,
      isCurrentlyAwaitingData = False, presentationTime = tv_zero,
      saveNumTruncatedBytes = 0, maxOutputPacketSize = maxOut, numValidDataBytes = 1,
      inputBufferSize = inputBufferMax + 1, curDataOffset = 1,
      inputBuffer = replicate (inputBufferMax + 1) 0, lastFragmentCompletedNALUnit = False\<rparr>"

text \<open>Case 1 and case 2 of the code: the first bytes of a NAL unit.\<close>

definition firstFragment :: "H264FUAFragmenter \<Rightarrow> H264FUAFragmenter option" where
  "firstFragment f =
     (if usub (numValidDataBytes f) 1 \<le> maxSize f then do {
        src \<leftarrow> slice (inputBuffer f) 1 (numValidDataBytes f);
        Some (f\<lparr>buffTo := copy_at (buffTo f) 0 src,
                frameSize := usub (numValidDataBytes f) 1,
                curDataOffset := numValidDataBytes f\<rparr>)
      }
      else do {
        nalHeader \<leftarrow> idx (inputBuffer f) 1;
        buf1 \<leftarrow> put (inputBuffer f) 0 ((nalHeader AND 0xE0) OR 28);
        nalHeader1 \<leftarrow> idx buf1 1;
        buf2 \<leftarrow> put buf1 1 (0x80 OR (nalHeader1 AND 0x1F));
        src \<leftarrow> slice buf2 0 (maxSize f);
        Some (f\<lparr>inputBuffer := buf2,
                buffTo := copy_at (buffTo f) 0 src,
                frameSize := maxSize f,
                curDataOffset := uadd (curDataOffset f) (usub (maxSize f) 1),
                lastFragmentCompletedNALUnit := False\<rparr>)
      })"

text \<open>The later fragments: the FU indicator and header go over the two bytes before the data.\<close>

definition nextFragment :: "H264FUAFragmenter \<Rightarrow> H264FUAFragmenter option" where
  "nextFragment f = do {
     fuIndicator \<leftarrow> idx (inputBuffer f) 0;
     buf1 \<leftarrow> put (inputBuffer f) (usub (curDataOffset f) 2) fuIndicator;
     fuHeader \<leftarrow> idx buf1 1;
     buf2 \<leftarrow> put buf1 (usub (curDataOffset f) 1) (fuHeader AND NOT 0x80);
     let numBytesToSend = usub (2 + numValidDataBytes f) (curDataOffset f);
     (buf3, n, f1) \<leftarrow>
       (if numBytesToSend > maxSize f
        then Some (buf2, maxSize f, f\<lparr>lastFragmentCompletedNALUnit := False\<rparr>)
        else do {
          h \<leftarrow> idx buf2 (usub (curDataOffset f) 1);
          buf3 \<leftarrow> put buf2 (usub (curDataOffset f) 1) (h OR 0x40);
          Some (buf3, numBytesToSend, f\<lparr>numTruncatedBytes := saveNumTruncatedBytes f\<rparr>)
        });
     src \<leftarrow> slice buf3 (usub (curDataOffset f) 2) (uadd (usub (curDataOffset f) 2) n);
     Some (f1\<lparr>inputBuffer := buf3,
              buffTo := copy_at (buffTo f) 0 src,
              frameSize := n,
              curDataOffset := uadd (curDataOffset f) (usub n 2)\<rparr>)
   }"

definition fragmentStep :: "H264FUAFragmenter \<Rightarrow> H264FUAFragmenter option" where
  "fragmentStep f =
     (let f1 = (if maxSize f < maxOutputPacketSize f then f else f\<lparr>maxSize := maxOutputPacketSize f\<rparr>);
          f2 = f1\<lparr>lastFragmentCompletedNALUnit := True\<rparr>
      in do {
        f3 \<leftarrow> (if curDataOffset f2 = 1 then firstFragment f2 else nextFragment f2);
        let f4 = (if curDataOffset f3 \<ge> numValidDataBytes f3
                  then f3\<lparr>numValidDataBytes := 1, curDataOffset := 1\<rparr> else f3);
        Some (fst (afterGetting f4))
      })"

text \<open>
  \<open>doGetNextFrame\<close> either asks the input source for a NAL unit of at most \<open>inputBufferSize - 1\<close> bytes,
  to be stored from \<open>inputBuffer[1]\<close> on, or delivers a frame.
\<close>

datatype fua_action = ReadInput nat H264FUAFragmenter | Delivered H264FUAFragmenter

definition fua_doGetNextFrame :: "H264FUAFragmenter \<Rightarrow> fua_action option" where
  "fua_doGetNextFrame f =
     (if numValidDataBytes f = 1 then do {
        _ \<leftarrow> slice_from (inputBuffer f) 1;
        Some (ReadInput (usub (inputBufferSize f) 1) f)
      }
      else map_option Delivered (fragmentStep f))"

text \<open>
  The framer stored \<open>nal\<close> in \<open>inputBuffer[1:]\<close> and called back with its size.
\<close>

definition fua_afterGettingFrame :: "bytes \<Rightarrow> nat \<Rightarrow> timeval \<Rightarrow> H264FUAFragmenter \<Rightarrow> fua_action option" where
  "fua_afterGettingFrame nal dur pt f =
     fua_doGetNextFrame
       (f\<lparr>inputBuffer := copy_at (inputBuffer f) 1 nal,
          numValidDataBytes := numValidDataBytes f + length nal,
          presentationTime := pt, durationInMicroseconds := dur\<rparr>)"

section \<open>The fragments a NAL unit must become\<close>

definition fu_indicator :: "byte \<Rightarrow> byte" where
  "fu_indicator h = (h AND 0xE0) OR 28"

fun fu_rest :: "nat \<Rightarrow> byte \<Rightarrow> bytes \<Rightarrow> bytes list" where
  "fu_rest k h xs =
     (if length xs \<le> k - 2 \<or> k \<le> 2 then [[fu_indicator h, (h AND 0x1F) OR 0x40] @ xs]
      else ([fu_indicator h, h AND 0x1F] @ take (k - 2) xs) # fu_rest k h (drop (k - 2) xs))"

declare fu_rest.simps [simp del]

definition fua_packets :: "nat \<Rightarrow> bytes \<Rightarrow> bytes list" where
  "fua_packets k nal =
     (case nal of
        [] \<Rightarrow> []
      | h # p \<Rightarrow>
          if length nal \<le> k then [nal]
          else ([fu_indicator h, 0x80 OR (h AND 0x1F)] @ take (k - 2) p) # fu_rest k h (drop (k - 2) p))"

lemma fu_rest_nonempty: "fu_rest k h xs \<noteq> []"
  by (subst fu_rest.simps) simp

section \<open>Pulling frames\<close>

text \<open>
  The sink's side: it calls \<open>GetNextFrame\<close> with its packet buffer until the fragmenter would read
  a new NAL unit. Each delivered frame is taken with the flag the sink reads next.
\<close>

fun fua_drain :: "nat \<Rightarrow> bytes \<Rightarrow> nat \<Rightarrow> H264FUAFragmenter \<Rightarrow> ((bytes \<times> bool) list \<times> H264FUAFragmenter) option" where
  "fua_drain 0 to sz f = (if numValidDataBytes f = 1 then Some ([], f) else None)"
| "fua_drain (Suc n) to sz f =
     (if numValidDataBytes f = 1 then Some ([], f)
      else case GetNextFrame fua_doGetNextFrame to sz f of
          Some (Delivered f') \<Rightarrow>
            map_option (\<lambda>(xs, g). ((take (frameSize f') (buffTo f'), lastFragmentCompletedNALUnit f') # xs, g))
              (fua_drain n to sz f')
        | _ \<Rightarrow> None)"

definition fua_send ::
  "bytes \<Rightarrow> nat \<Rightarrow> bytes \<Rightarrow> nat \<Rightarrow> timeval \<Rightarrow> H264FUAFragmenter \<Rightarrow>
     ((bytes \<times> bool) list \<times> H264FUAFragmenter) option" where
  "fua_send to sz nal dur pt f =
     (case GetNextFrame fua_doGetNextFrame to sz f of
        Some (ReadInput cap f1) \<Rightarrow>
          (if length nal \<le> cap then
             case fua_afterGettingFrame nal dur pt f1 of
               Some (Delivered f2) \<Rightarrow>
                 map_option (\<lambda>(xs, g). ((take (frameSize f2) (buffTo f2), lastFragmentCompletedNALUnit f2) # xs, g))
                   (fua_drain (length nal) to sz f2)
             | _ \<Rightarrow> None
           else None)
      | _ \<Rightarrow> None)"

definition fua_idle :: "nat \<Rightarrow> H264FUAFragmenter \<Rightarrow> bool" where
  "fua_idle k f \<longleftrightarrow>
     numValidDataBytes f = 1 \<and> curDataOffset f = 1 \<and> \<not> isCurrentlyAwaitingData f \<and>
     length (inputBuffer f) = inputBufferSize f \<and> 0 < inputBufferSize f \<and>
     maxOutputPacketSize f = k \<and> inputBufferSize f < 2 ^ 63"

text \<open>In the middle of a NAL unit with header \<open>h\<close>: \<open>rest\<close> is what has not been sent.\<close>

definition fua_mid :: "nat \<Rightarrow> byte \<Rightarrow> bytes \<Rightarrow> H264FUAFragmenter \<Rightarrow> bool" where
  "fua_mid k h rest f \<longleftrightarrow>
     4 \<le> curDataOffset f \<and> numValidDataBytes f = curDataOffset f + length rest \<and> rest \<noteq> [] \<and>
     numValidDataBytes f \<le> length (inputBuffer f) \<and> length (inputBuffer f) = inputBufferSize f \<and>
     inputBufferSize f < 2 ^ 63 \<and> maxOutputPacketSize f = k \<and> \<not> isCurrentlyAwaitingData f \<and>
     inputBuffer f ! 0 = fu_indicator h \<and> inputBuffer f ! 1 = 0x80 OR (h AND 0x1F) \<and>
     take (length rest) (drop (curDataOffset f) (inputBuffer f)) = rest"

lemma fu_header_clear: "(0x80 OR (h AND 0x1F)) AND NOT 0x80 = (h AND 0x1F :: byte)"
proof (rule bit_word_eqI)
  fix k assume "k < LENGTH(8)"
  then have "k \<in> {0, 1, 2, 3, 4, 5, 6, 7}" by auto
  then show "bit ((0x80 OR (h AND 0x1F)) AND NOT 0x80 :: byte) k = bit (h AND 0x1F) k"
    by (auto simp: bit_simps)
qed

lemma take_two_update:
  assumes "2 \<le> c" "c + n \<le> length xs"
  shows "take (2 + n) (drop (c - 2) (xs[c - 2 := a, c - Suc 0 := b])) = a # b # take n (drop c xs)"
  using assms
  by (intro nth_equalityI) (auto simp: nth_list_update nth_Cons split: nat.split, arith?)

lemma pull_unfold:
  assumes "\<not> isCurrentlyAwaitingData f" "numValidDataBytes f \<noteq> 1"
  shows "GetNextFrame fua_doGetNextFrame to sz f =
    map_option Delivered (fragmentStep (f\<lparr>buffTo := to, maxSize := sz, isCurrentlyAwaitingData := True\<rparr>))"
  using assms by (simp add: GetNextFrame_def fua_doGetNextFrame_def)

lemma pull_last:
  assumes mid: "fua_mid k h rest f" and k: "4 \<le> k" "k \<le> sz" "k \<le> length to" "length rest \<le> k - 2"
  shows "\<exists>f'. GetNextFrame fua_doGetNextFrame to sz f = Some (Delivered f') \<and>
    take (frameSize f') (buffTo f') = [fu_indicator h, (h AND 0x1F) OR 0x40] @ rest \<and>
    lastFragmentCompletedNALUnit f' \<and> fua_idle k f' \<and>
    frameSize f' = 2 + length rest \<and> length (buffTo f') = length to \<and> presentationTime f' = presentationTime f \<and>
    inputBufferSize f' = inputBufferSize f"
proof -
  let ?c = "curDataOffset f" and ?b = "inputBuffer f"
  define pkt where "pkt = [fu_indicator h, (h AND 0x1F) OR 0x40] @ rest"
  have m: "4 \<le> ?c" "numValidDataBytes f = ?c + length rest" "rest \<noteq> []" "?c + length rest \<le> length ?b"
    "length ?b = inputBufferSize f" "inputBufferSize f < 2 ^ 63" "maxOutputPacketSize f = k"
    "\<not> isCurrentlyAwaitingData f" "?b ! 0 = fu_indicator h" "?b ! 1 = 0x80 OR (h AND 0x1F)"
    "take (length rest) (drop ?c ?b) = rest"
    using mid by (auto simp: fua_mid_def)
  define b3 where "b3 = ?b[?c - 2 := fu_indicator h, ?c - Suc 0 := (h AND 0x1F) OR 0x40]"
  have src: "take (2 + length rest) (drop (?c - 2) b3) = pkt"
    using m take_two_update [of ?c "length rest" ?b] by (simp add: b3_def pkt_def)
  have len: "length pkt = 2 + length rest" by (simp add: pkt_def)
  let ?f = "f\<lparr>buffTo := to, isCurrentlyAwaitingData := True, maxSize := k,
    lastFragmentCompletedNALUnit := True\<rparr>"
  have nf: "nextFragment ?f = Some (?f\<lparr>numTruncatedBytes := saveNumTruncatedBytes f, inputBuffer := b3,
      buffTo := copy_at to 0 pkt, frameSize := 2 + length rest, curDataOffset := ?c + length rest\<rparr>)"
  proof -
    have s1: "usub (2 + (?c + length rest)) ?c = 2 + length rest" by simp
    have s2: "uadd (?c - 2) (2 + length rest) = ?c + length rest" using m by simp
    have d: "?c + length rest - (?c - 2) = 2 + length rest" using m by simp
    have "?c - 2 \<le> ?c + length rest" "?c + length rest \<le> length b3" using m by (simp_all add: b3_def)
    then have s3: "slice b3 (?c - 2) (?c + length rest) = Some pkt"
      unfolding slice_def d src by simp
    show ?thesis
      using m k fu_header_clear [of h] s3
      by (simp add: nextFragment_def b3_def Let_def nth_list_update s1 s2
          del: add_2_eq_Suc add_2_eq_Suc')
  qed
  have fs: "fragmentStep (f\<lparr>buffTo := to, maxSize := sz, isCurrentlyAwaitingData := True\<rparr>) =
      Some (?f\<lparr>numTruncatedBytes := saveNumTruncatedBytes f, inputBuffer := b3,
        buffTo := copy_at to 0 pkt, frameSize := 2 + length rest, curDataOffset := 1,
        numValidDataBytes := 1, isCurrentlyAwaitingData := False\<rparr>)" (is "_ = Some ?g")
    using m k nf by (simp add: fragmentStep_def afterGetting_def Let_def)
  have "GetNextFrame fua_doGetNextFrame to sz f = Some (Delivered ?g)"
    using m fs by (subst pull_unfold) auto
  moreover have "take (2 + length rest) (copy_at to 0 pkt) = pkt"
    unfolding len [symmetric] using k len by (intro take_copy_at_0) simp
  moreover have "fua_idle k ?g" using m by (auto simp: fua_idle_def b3_def)
  ultimately show ?thesis using pkt_def by (intro exI [of _ ?g]) simp
qed

lemma pull_more:
  assumes mid: "fua_mid k h rest f" and k: "4 \<le> k" "k \<le> sz" "k \<le> length to" "k - 2 < length rest"
  shows "\<exists>f'. GetNextFrame fua_doGetNextFrame to sz f = Some (Delivered f') \<and>
    take (frameSize f') (buffTo f') = [fu_indicator h, h AND 0x1F] @ take (k - 2) rest \<and>
    \<not> lastFragmentCompletedNALUnit f' \<and> fua_mid k h (drop (k - 2) rest) f' \<and>
    frameSize f' = k \<and> length (buffTo f') = length to \<and> presentationTime f' = presentationTime f \<and>
    inputBufferSize f' = inputBufferSize f"
proof -
  let ?c = "curDataOffset f" and ?b = "inputBuffer f"
  define pkt where "pkt = [fu_indicator h, h AND 0x1F] @ take (k - 2) rest"
  have m: "4 \<le> ?c" "numValidDataBytes f = ?c + length rest" "rest \<noteq> []" "?c + length rest \<le> length ?b"
    "length ?b = inputBufferSize f" "inputBufferSize f < 2 ^ 63" "maxOutputPacketSize f = k"
    "\<not> isCurrentlyAwaitingData f" "?b ! 0 = fu_indicator h" "?b ! 1 = 0x80 OR (h AND 0x1F)"
    "take (length rest) (drop ?c ?b) = rest"
    using mid by (auto simp: fua_mid_def)
  define b3 where "b3 = ?b[?c - 2 := fu_indicator h, ?c - Suc 0 := h AND 0x1F]"
  have tk: "take (k - 2) (drop ?c ?b) = take (k - 2) rest"
  proof -
    have "take (k - 2) rest = take (k - 2) (take (length rest) (drop ?c ?b))" using m(11) by simp
    then show ?thesis using k by (simp add: min_def)
  qed
  have src: "take k (drop (?c - 2) b3) = pkt"
  proof -
    have k2: "2 + (k - 2) = k" using k by simp
    have "?c + (k - 2) \<le> length ?b" using m k by simp
    with m k take_two_update [of ?c "k - 2" ?b "fu_indicator h" "h AND 0x1F"] show ?thesis
      unfolding k2 tk by (simp add: b3_def pkt_def)
  qed
  have len: "length pkt = k" using k by (simp add: pkt_def)
  let ?f = "f\<lparr>buffTo := to, isCurrentlyAwaitingData := True, maxSize := k,
    lastFragmentCompletedNALUnit := True\<rparr>"
  have nf: "nextFragment ?f = Some (?f\<lparr>lastFragmentCompletedNALUnit := False, inputBuffer := b3,
      buffTo := copy_at to 0 pkt, frameSize := k, curDataOffset := ?c + (k - 2)\<rparr>)"
  proof -
    have s1: "usub (2 + (?c + length rest)) ?c = 2 + length rest" by simp
    have s2: "uadd (?c - 2) k = ?c - 2 + k" using m k by (intro uadd_small) simp
    have d: "?c - 2 + k - (?c - 2) = k" by simp
    have "?c - 2 \<le> ?c - 2 + k" "?c - 2 + k \<le> length b3" using m k by (simp_all add: b3_def)
    then have "slice b3 (?c - 2) (?c - 2 + k) = Some pkt"
      unfolding slice_def d src by simp
    then have s3: "slice b3 (?c - 2) (uadd (?c - 2) k) = Some pkt" unfolding s2 .
    have s4: "uadd ?c (k - 2) = ?c + (k - 2)" using m k by (intro uadd_small) simp
    show ?thesis
      using m k fu_header_clear [of h] s3 s4
      by (simp add: nextFragment_def b3_def Let_def nth_list_update s1
          del: add_2_eq_Suc add_2_eq_Suc' uadd_small)
  qed
  have fs: "fragmentStep (f\<lparr>buffTo := to, maxSize := sz, isCurrentlyAwaitingData := True\<rparr>) =
      Some (?f\<lparr>lastFragmentCompletedNALUnit := False, inputBuffer := b3,
        buffTo := copy_at to 0 pkt, frameSize := k, curDataOffset := ?c + (k - 2),
        isCurrentlyAwaitingData := False\<rparr>)" (is "_ = Some ?g")
    using m k nf by (simp add: fragmentStep_def afterGetting_def Let_def)
  have "GetNextFrame fua_doGetNextFrame to sz f = Some (Delivered ?g)"
    using m fs by (subst pull_unfold) auto
  moreover have "take k (copy_at to 0 pkt) = pkt"
    unfolding len [symmetric] using k len by (intro take_copy_at_0) simp
  moreover have "fua_mid k h (drop (k - 2) rest) ?g"
  proof -
    have "take (length rest - (k - 2)) (drop (?c + (k - 2)) b3) = drop (k - 2) rest"
    proof -
      have "drop (?c + (k - 2)) b3 = drop (?c + (k - 2)) ?b"
        using m by (simp add: b3_def)
      moreover have "drop (k - 2) rest = drop (k - 2) (take (length rest) (drop ?c ?b))" using m(11) by simp
      ultimately show ?thesis by (simp add: drop_take ac_simps)
    qed
    then show ?thesis using m k by (simp add: fua_mid_def b3_def nth_list_update) arith
  qed
  ultimately show ?thesis using pkt_def by (intro exI [of _ ?g]) simp
qed

lemma drain_mid:
  assumes "fua_mid k h rest f" and "4 \<le> k" "k \<le> sz" "k \<le> length to" "length rest \<le> n"
  shows "\<exists>f' ps. fua_drain n to sz f = Some (ps, f') \<and> fua_idle k f' \<and> map fst ps = fu_rest k h rest \<and>
    map snd ps = replicate (length ps - 1) False @ [True] \<and> ps \<noteq> []"
  using assms
proof (induction n arbitrary: rest f)
  case 0
  then show ?case by (auto simp: fua_mid_def)
next
  case (Suc n)
  have nv: "numValidDataBytes f \<noteq> 1" using Suc.prems(1) by (auto simp: fua_mid_def)
  show ?case
  proof (cases "length rest \<le> k - 2")
    case True
    obtain f' where f': "GetNextFrame fua_doGetNextFrame to sz f = Some (Delivered f')"
      "take (frameSize f') (buffTo f') = [fu_indicator h, (h AND 0x1F) OR 0x40] @ rest"
      "lastFragmentCompletedNALUnit f'" "fua_idle k f'"
      using pull_last [OF Suc.prems(1-4) True] by blast
    have "fua_drain n to sz f' = Some ([], f')" using f'(4) by (cases n) (auto simp: fua_idle_def)
    then show ?thesis using f' nv True by (auto simp: fu_rest.simps)
  next
    case False
    then have lt: "k - 2 < length rest" by simp
    obtain f' where f': "GetNextFrame fua_doGetNextFrame to sz f = Some (Delivered f')"
      "take (frameSize f') (buffTo f') = [fu_indicator h, h AND 0x1F] @ take (k - 2) rest"
      "\<not> lastFragmentCompletedNALUnit f'" "fua_mid k h (drop (k - 2) rest) f'"
      using pull_more [OF Suc.prems(1-4) lt] by blast
    have "length (drop (k - 2) rest) \<le> n" using Suc.prems lt by simp
    then obtain f'' ps where ps: "fua_drain n to sz f' = Some (ps, f'')" "fua_idle k f''"
      "map fst ps = fu_rest k h (drop (k - 2) rest)" "ps \<noteq> []"
      "map snd ps = replicate (length ps - 1) False @ [True]"
      using Suc.IH [OF f'(4) Suc.prems(2-4)] by blast
    have "fu_rest k h rest = ([fu_indicator h, h AND 0x1F] @ take (k - 2) rest) # fu_rest k h (drop (k - 2) rest)"
      using lt Suc.prems by (subst fu_rest.simps) auto
    moreover have "replicate (length ps) False = False # replicate (length ps - 1) False"
      using ps(4) by (cases ps) auto
    ultimately show ?thesis using f' nv ps by auto
  qed
qed

text \<open>The first frame of a NAL unit, asked for while the fragmenter is idle.\<close>

lemma pull_first:
  assumes idle: "fua_idle k f" and k: "4 \<le> k" "k \<le> sz" "k \<le> length to"
    and nal: "nal = h # p" "length nal + 1 \<le> inputBufferSize f"
  shows "\<exists>f1 f'. GetNextFrame fua_doGetNextFrame to sz f = Some (ReadInput (inputBufferSize f - 1) f1) \<and>
    fua_afterGettingFrame nal dur pt f1 = Some (Delivered f') \<and>
    (if length nal \<le> k
     then take (frameSize f') (buffTo f') = nal \<and> lastFragmentCompletedNALUnit f' \<and> fua_idle k f'
     else take (frameSize f') (buffTo f') = [fu_indicator h, 0x80 OR (h AND 0x1F)] @ take (k - 2) p \<and>
       \<not> lastFragmentCompletedNALUnit f' \<and> fua_mid k h (drop (k - 2) p) f') \<and>
    frameSize f' = min k (length nal) \<and> length (buffTo f') = length to \<and> presentationTime f' = pt \<and>
    inputBufferSize f' = inputBufferSize f"
proof -
  have i: "numValidDataBytes f = 1" "curDataOffset f = 1" "\<not> isCurrentlyAwaitingData f"
    "length (inputBuffer f) = inputBufferSize f" "0 < inputBufferSize f" "maxOutputPacketSize f = k"
    "inputBufferSize f < 2 ^ 63"
    using idle by (auto simp: fua_idle_def)
  define b where "b = copy_at (inputBuffer f) 1 nal"
  let ?f1 = "f\<lparr>buffTo := to, isCurrentlyAwaitingData := True, maxSize := sz\<rparr>"
  let ?f2 = "?f1\<lparr>inputBuffer := b, numValidDataBytes := 1 + length nal, presentationTime := pt,
    durationInMicroseconds := dur, maxSize := k, lastFragmentCompletedNALUnit := True\<rparr>"
  have lb: "length b = inputBufferSize f" using i by (simp add: b_def)
  have sb: "take (length nal) (drop 1 b) = nal"
    unfolding b_def using i nal by (intro slice_copy_at) simp
  have get: "GetNextFrame fua_doGetNextFrame to sz f = Some (ReadInput (inputBufferSize f - 1) ?f1)"
    using i by (simp add: GetNextFrame_def fua_doGetNextFrame_def)
  show ?thesis
  proof (cases "length nal \<le> k")
    case True
    let ?g = "?f2\<lparr>buffTo := copy_at to 0 nal, frameSize := length nal, curDataOffset := 1,
      numValidDataBytes := 1, isCurrentlyAwaitingData := False\<rparr>"
    have "slice b 1 (1 + length nal) = Some nal" using lb nal sb by simp
    then have "fua_afterGettingFrame nal dur pt ?f1 = Some (Delivered ?g)"
      using i True k nal
      by (simp add: fua_afterGettingFrame_def fua_doGetNextFrame_def fragmentStep_def firstFragment_def
          afterGetting_def Let_def b_def)
    moreover have "fua_idle k ?g" using i lb by (simp add: fua_idle_def)
    moreover have "take (length nal) (copy_at to 0 nal) = nal" using k True by (intro take_copy_at_0) simp
    ultimately show ?thesis using get True by (intro exI [of _ ?f1] exI [of _ ?g]) simp
  next
    case False
    then have gt: "k < length nal" by simp
    define b2 where "b2 = b[0 := fu_indicator h, 1 := 0x80 OR (h AND 0x1F)]"
    define pkt where "pkt = [fu_indicator h, 0x80 OR (h AND 0x1F)] @ take (k - 2) p"
    have b1: "b ! 1 = h" using i nal by (simp add: b_def nth_copy_at)
    have db: "take (length p) (drop 2 b) = p"
    proof -
      have "drop 1 (take (length nal) (drop 1 b)) = p" using sb nal by simp
      then show ?thesis using nal by (simp add: drop_take numeral_2_eq_2)
    qed
    have src: "take k b2 = pkt"
    proof -
      have "take (2 + (k - 2)) (drop (2 - 2) (b[2 - 2 := fu_indicator h, 2 - Suc 0 := 0x80 OR (h AND 0x1F)]))
          = fu_indicator h # (0x80 OR (h AND 0x1F)) # take (k - 2) (drop 2 b)"
        using lb nal gt k by (intro take_two_update) simp_all
      moreover have "take (k - 2) (drop 2 b) = take (k - 2) (take (length p) (drop 2 b))"
        using gt nal by (simp add: min_def)
      moreover have "Suc (Suc (k - 2)) = k" using k by simp
      ultimately show ?thesis using db by (simp add: b2_def pkt_def)
    qed
    have len: "length pkt = k" using gt nal k by (simp add: pkt_def)
    let ?g = "?f2\<lparr>inputBuffer := b2, buffTo := copy_at to 0 pkt, frameSize := k,
      curDataOffset := 1 + (k - 1), lastFragmentCompletedNALUnit := False,
      isCurrentlyAwaitingData := False\<rparr>"
    have s: "slice b2 0 k = Some pkt" using src lb nal gt by (simp add: b2_def)
    have ff: "firstFragment ?f2 = Some (?f2\<lparr>inputBuffer := b2, buffTo := copy_at to 0 pkt, frameSize := k,
        curDataOffset := 1 + (k - 1), lastFragmentCompletedNALUnit := False\<rparr>)"
      using i k gt nal lb b1 s by (simp add: firstFragment_def b2_def fu_indicator_def)
    have "copy_at (inputBuffer f) (Suc 0) (h # p) = b" using nal by (simp add: b_def)
    then have "fua_afterGettingFrame nal dur pt ?f1 = Some (Delivered ?g)"
      using i k gt nal ff
      by (simp add: fua_afterGettingFrame_def fua_doGetNextFrame_def fragmentStep_def afterGetting_def
          Let_def)
    moreover have "fua_mid k h (drop (k - 2) p) ?g"
    proof -
      have "drop k b2 = drop k b" using k by (simp add: b2_def)
      moreover have "drop (k - 2) p = drop (k - 2) (take (length p) (drop 2 b))" using db by simp
      moreover have "Suc (Suc (k - 2)) = k" using k by simp
      ultimately have "take (length p - (k - 2)) (drop k b2) = drop (k - 2) p"
        by (simp add: drop_take)
      then show ?thesis using i k gt nal lb by (simp add: fua_mid_def b2_def nth_list_update)
    qed
    moreover have "take k (copy_at to 0 pkt) = pkt"
      unfolding len [symmetric] using k len by (intro take_copy_at_0) simp
    ultimately show ?thesis using get False pkt_def by (intro exI [of _ ?f1] exI [of _ ?g]) simp
  qed
qed

lemma fua_packets_small: "(\<forall>x \<in> set (fu_rest k h xs). length x \<le> k)" if "2 < k"
  using that
proof (induction k h xs rule: fu_rest.induct)
  case (1 k h xs)
  then show ?case by (subst fu_rest.simps) auto
qed

text \<open>C6. The fragmenter delivers exactly the RFC 6184 packets of a NAL unit, each in at most the
  maximum packet size, marks the last one only, and is idle again.\<close>

theorem fragmenter_delivers_fua_packets:
  assumes "fua_idle k f" and "4 \<le> k" "k \<le> sz" "k \<le> length to"
    and "nal \<noteq> []" "length nal + 1 \<le> inputBufferSize f"
  shows "\<exists>ps f'. fua_send to sz nal dur pt f = Some (ps, f') \<and> fua_idle k f' \<and>
    map fst ps = fua_packets k nal \<and> (\<forall>p \<in> set (map fst ps). length p \<le> k) \<and>
    map snd ps = replicate (length ps - 1) False @ [True]"
proof -
  obtain h p where nal: "nal = h # p" using assms(5) by (cases nal) auto
  obtain f1 f' where f1: "GetNextFrame fua_doGetNextFrame to sz f = Some (ReadInput (inputBufferSize f - 1) f1)"
    and f': "fua_afterGettingFrame nal dur pt f1 = Some (Delivered f')"
    and res: "if length nal \<le> k
     then take (frameSize f') (buffTo f') = nal \<and> lastFragmentCompletedNALUnit f' \<and> fua_idle k f'
     else take (frameSize f') (buffTo f') = [fu_indicator h, 0x80 OR (h AND 0x1F)] @ take (k - 2) p \<and>
       \<not> lastFragmentCompletedNALUnit f' \<and> fua_mid k h (drop (k - 2) p) f'"
    using pull_first [OF assms(1-4) nal assms(6)] by blast
  show ?thesis
  proof (cases "length nal \<le> k")
    case True
    then have "fua_drain (length nal) to sz f' = Some ([], f')"
      using res by (cases "length nal") (auto simp: fua_idle_def)
    then show ?thesis using f1 f' res True assms nal by (auto simp: fua_send_def fua_packets_def)
  next
    case False
    then have "fua_mid k h (drop (k - 2) p) f'" using res by simp
    moreover have "length (drop (k - 2) p) \<le> length nal" using nal by simp
    ultimately obtain f'' ps where ps: "fua_drain (length nal) to sz f' = Some (ps, f'')" "fua_idle k f''"
      "map fst ps = fu_rest k h (drop (k - 2) p)" "ps \<noteq> []"
      "map snd ps = replicate (length ps - 1) False @ [True]"
      using drain_mid [of k h _ f' sz to "length nal"] assms by blast
    define qs where "qs = ([fu_indicator h, 0x80 OR (h AND 0x1F)] @ take (k - 2) p, False) # ps"
    have "fua_send to sz nal dur pt f = Some (qs, f'')"
      using f1 f' res False assms nal ps(1) by (simp add: fua_send_def qs_def)
    moreover have "map fst qs = fua_packets k nal"
      using False nal ps(3) by (simp add: qs_def fua_packets_def)
    moreover have "map snd qs = replicate (length qs - 1) False @ [True]"
      using ps(4,5) by (cases ps) (auto simp: qs_def)
    moreover have "\<forall>x \<in> set (map fst qs). length x \<le> k"
      using fua_packets_small [of k h] assms(2) ps(3) by (auto simp: qs_def simp flip: list.set_map)
    ultimately show ?thesis using ps(2) by blast
  qed
qed

lemma fragmenter_delivers_fua_packets_witness:
  "\<exists>ps f'. fua_send (replicate 4 0) 4 [0x65, 1, 2, 3, 4, 5, 6, 7] 0 tv_zero (newH264FUAFragmenter 20 4)
     = Some (ps, f') \<and> map fst ps = [[0x7C, 0x85, 1, 2], [0x7C, 5, 3, 4], [0x7C, 5, 5, 6], [0x7C, 0x45, 7]]"
proof -
  have p: "fua_packets 4 [0x65, 1, 2, 3, 4, 5, 6, 7] =
     [[0x7C, 0x85, 1, 2], [0x7C, 5, 3, 4], [0x7C, 5, 5, 6], [0x7C, 0x45, 7]]" by code_simp
  have i: "fua_idle 4 (newH264FUAFragmenter 20 4)"
    by (simp add: fua_idle_def newH264FUAFragmenter_def)
  have s: "length [0x65, 1, 2, 3, 4, 5, 6, 7 :: byte] + 1 \<le> inputBufferSize (newH264FUAFragmenter 20 4)"
    by (simp add: newH264FUAFragmenter_def)
  show ?thesis
    using fragmenter_delivers_fua_packets [OF i _ _ _ _ s, of 4 "replicate 4 0" 0 tv_zero]
    unfolding p by simp metis
qed

end
