(* ===== verification/GoFloat.thy ===== *)
theory GoFloat
  imports Complex_Main GoPrelude
begin

text \<open>
  Go's \<open>float32\<close> and \<open>float64\<close> as the sources use them (jitter, time differences, NTP
  fractions, the RTCP interval): IEEE binary formats on rationals, rounding to nearest, ties to
  even, with gradual underflow and overflow to infinity. There is one zero, because nothing the
  sources do tells the two zeros apart. A conversion to \<open>int64\<close> truncates; out of range or not finite it gives
  \<open>-2 ^ 63\<close>, as the amd64 instruction does.
\<close>

datatype fmt = F32 | F64

definition prec :: "fmt \<Rightarrow> int" where "prec f = (case f of F32 \<Rightarrow> 24 | F64 \<Rightarrow> 53)"
definition emin :: "fmt \<Rightarrow> int" where "emin f = (case f of F32 \<Rightarrow> -126 | F64 \<Rightarrow> -1022)"
definition emax :: "fmt \<Rightarrow> int" where "emax f = (case f of F32 \<Rightarrow> 127 | F64 \<Rightarrow> 1023)"

datatype float = Fin rat | PInf | NInf | NaN

text \<open>The number of binary digits of a positive integer.\<close>

function bit_length :: "int \<Rightarrow> int" where
  "bit_length n = (if n \<le> 0 then 0 else 1 + bit_length (n div 2))"
  by auto
termination by (relation "measure nat") auto

declare bit_length.simps [simp del]

text \<open>Powers of two, by squaring; \<open>pow2\<close> takes negative exponents too.\<close>

function pow2_int :: "int \<Rightarrow> int" where
  "pow2_int e =
     (if e \<le> 0 then 1
      else let h = pow2_int (e div 2) in if even e then h * h else 2 * (h * h))"
  by auto
termination by (relation "measure nat") auto

declare pow2_int.simps [simp del]

definition pow2 :: "int \<Rightarrow> rat" where
  "pow2 e = (if 0 \<le> e then of_int (pow2_int e) else 1 / of_int (pow2_int (- e)))"

definition exponent2 :: "rat \<Rightarrow> int" where
  "exponent2 x =
     (let (n, d) = quotient_of \<bar>x\<bar>;
          e = bit_length n - bit_length d
      in if pow2 e \<le> \<bar>x\<bar> then e else e - 1)"

definition round_even :: "rat \<Rightarrow> int" where
  "round_even y =
     (let f = \<lfloor>y\<rfloor>; r = y - of_int f
      in if r < 1 / 2 then f else if r > 1 / 2 then f + 1 else if even f then f else f + 1)"

definition rnd :: "fmt \<Rightarrow> rat \<Rightarrow> float" where
  "rnd f x =
     (if x = 0 then Fin 0
      else let e = max (exponent2 x) (emin f);
               q = pow2 (e - prec f + 1);
               v = of_int (round_even (x / q)) * q
           in if pow2 (emax f + 1) \<le> v then PInf
              else if v \<le> - (pow2 (emax f + 1)) then NInf else Fin v)"

definition fl_of_int :: "fmt \<Rightarrow> int \<Rightarrow> float" where
  "fl_of_int f n = rnd f (of_int n)"

fun fl_neg :: "float \<Rightarrow> float" where
  "fl_neg (Fin x) = Fin (- x)"
| "fl_neg PInf = NInf"
| "fl_neg NInf = PInf"
| "fl_neg NaN = NaN"

fun fl_add :: "fmt \<Rightarrow> float \<Rightarrow> float \<Rightarrow> float" where
  "fl_add f (Fin x) (Fin y) = rnd f (x + y)"
| "fl_add f NaN _ = NaN"
| "fl_add f _ NaN = NaN"
| "fl_add f PInf NInf = NaN"
| "fl_add f NInf PInf = NaN"
| "fl_add f PInf _ = PInf"
| "fl_add f _ PInf = PInf"
| "fl_add f NInf _ = NInf"
| "fl_add f _ NInf = NInf"

definition fl_sub :: "fmt \<Rightarrow> float \<Rightarrow> float \<Rightarrow> float" where
  "fl_sub f a b = fl_add f a (fl_neg b)"

definition fl_sign :: "float \<Rightarrow> int" where
  "fl_sign a = (case a of Fin x \<Rightarrow> (if 0 < x then 1 else if x < 0 then -1 else 0)
     | PInf \<Rightarrow> 1 | NInf \<Rightarrow> -1 | NaN \<Rightarrow> 0)"

definition fl_inf :: "int \<Rightarrow> float" where
  "fl_inf s = (if 0 < s then PInf else if s < 0 then NInf else NaN)"

fun fl_mul :: "fmt \<Rightarrow> float \<Rightarrow> float \<Rightarrow> float" where
  "fl_mul f (Fin x) (Fin y) = rnd f (x * y)"
| "fl_mul f NaN _ = NaN"
| "fl_mul f _ NaN = NaN"
| "fl_mul f a b = fl_inf (fl_sign a * fl_sign b)"

fun fl_div :: "fmt \<Rightarrow> float \<Rightarrow> float \<Rightarrow> float" where
  "fl_div f (Fin x) (Fin y) = (if y = 0 then fl_inf (fl_sign (Fin x)) else rnd f (x / y))"
| "fl_div f NaN _ = NaN"
| "fl_div f _ NaN = NaN"
| "fl_div f (Fin x) _ = Fin 0"
| "fl_div f a (Fin y) = fl_inf (fl_sign a * (if y < 0 then -1 else 1))"
| "fl_div f _ _ = NaN"

text \<open>Comparisons are false on a NaN.\<close>

fun fl_le :: "float \<Rightarrow> float \<Rightarrow> bool" where
  "fl_le (Fin x) (Fin y) = (x \<le> y)"
| "fl_le NaN _ = False"
| "fl_le _ NaN = False"
| "fl_le NInf _ = True"
| "fl_le _ PInf = True"
| "fl_le PInf _ = False"
| "fl_le _ NInf = False"

fun fl_lt :: "float \<Rightarrow> float \<Rightarrow> bool" where
  "fl_lt (Fin x) (Fin y) = (x < y)"
| "fl_lt NaN _ = False"
| "fl_lt _ NaN = False"
| "fl_lt NInf b = (b \<noteq> NInf)"
| "fl_lt a PInf = (a \<noteq> PInf)"
| "fl_lt PInf _ = False"
| "fl_lt _ NInf = False"

definition i64 :: "int \<Rightarrow> int" where
  "i64 x = signed_take_bit 63 x"

definition fl_to_int64 :: "float \<Rightarrow> int" where
  "fl_to_int64 a =
     (case a of
        Fin x \<Rightarrow> (let t = (if 0 \<le> x then \<lfloor>x\<rfloor> else \<lceil>x\<rceil>)
                  in if - (2 ^ 63) \<le> t \<and> t < 2 ^ 63 then t else - (2 ^ 63))
      | _ \<Rightarrow> - (2 ^ 63))"

definition fl_to_uint32 :: "float \<Rightarrow> u32" where
  "fl_to_uint32 a = word_of_int (fl_to_int64 a)"

lemma i64_small [simp]: "- (2 ^ 63) \<le> x \<Longrightarrow> x < 2 ^ 63 \<Longrightarrow> i64 x = x"
  unfolding i64_def by (rule signed_take_bit_int_eq_self) simp_all

lemma rnd_0 [simp]: "rnd f 0 = Fin 0"
  by (simp add: rnd_def)

lemma fl_of_int_0 [simp]: "fl_of_int f 0 = Fin 0"
  by (simp add: fl_of_int_def)

end
