(* ===== verification/RtpPacket.thy ===== *)
theory RtpPacket
  imports Binary GoFloat
begin

text \<open>
  \<^verbatim>\<open>livemedia/multi_framed_rtp_source_linux_amd64.go\<close>, first part: \<open>BufferedPacket\<close>, the packets
  the receiver works on, and \<open>ReorderingPacketBuffer\<close>, the singly linked list that puts them in order.

  Packets are shared by pointers (the list, its head, tail and save pointers, the packet being
  handled), so they live in a store \<open>packets\<close> from addresses to packets; \<open>None\<close> is the nil
  interface. Offsets are \<open>uint32\<close>: natural numbers with the wrap-around at \<open>2 ^ 32\<close> written out.
\<close>

definition u32add :: "nat \<Rightarrow> nat \<Rightarrow> nat" where "u32add a b = (a + b) mod 2 ^ 32"
definition u32sub :: "nat \<Rightarrow> nat \<Rightarrow> nat" where "u32sub a b = (if b \<le> a then a - b else a + 2 ^ 32 - b)"

lemma u32add_small [simp]: "a + b < 4294967296 \<Longrightarrow> u32add a b = a + b"
  by (simp add: u32add_def)

lemma u32sub_le [simp]: "b \<le> a \<Longrightarrow> u32sub a b = a - b"
  by (simp add: u32sub_def)

section \<open>BufferedPacket\<close>

definition maxPacketSize :: nat where "maxPacketSize = 20000"

record BufferedPacket =
  pk_buffer :: bytes
  pk_head :: nat
  pk_tail :: nat
  useCount :: nat
  packetSize :: nat
  RTPSeqNo :: u32
  RTPTimestamp :: u32
  nextPacket :: "nat option"
  timeReceived :: timeval
  pk_presentationTime :: timeval
  hasBeenSyncedUsingRTCP :: bool
  firstPacketFlag :: bool
  RTPMarkerBit :: bool

record PacketInfo =
  bytesUsed :: nat
  bytesTruncated :: nat
  pi_rtpSeqNo :: u32
  pi_rtpTimestamp :: u32
  pi_presentationTime :: timeval
  pi_hasBeenSyncedUsingRTCP :: bool
  pi_rtpMarkerBit :: bool

definition newBufferedPacket :: BufferedPacket where
  "newBufferedPacket =
     \<lparr>pk_buffer = replicate maxPacketSize 0, pk_head = 0, pk_tail = 0, useCount = 0,
      packetSize = maxPacketSize, RTPSeqNo = 0, RTPTimestamp = 0, nextPacket = None,
      timeReceived = tv_zero, pk_presentationTime = tv_zero, hasBeenSyncedUsingRTCP = False,
      firstPacketFlag = False, RTPMarkerBit = False\<rparr>"

definition packet_data :: "BufferedPacket \<Rightarrow> bytes option" where
  "packet_data p = slice_from (pk_buffer p) (pk_head p)"

definition dataSize :: "BufferedPacket \<Rightarrow> nat" where
  "dataSize p = u32sub (pk_tail p) (pk_head p)"

definition skip :: "nat \<Rightarrow> BufferedPacket \<Rightarrow> BufferedPacket" where
  "skip numBytes p =
     (let h = u32add (pk_head p) numBytes
      in p\<lparr>pk_head := (if h > pk_tail p then pk_tail p else h)\<rparr>)"

definition rtpSeqNo :: "BufferedPacket \<Rightarrow> nat" where
  "rtpSeqNo p = unat (RTPSeqNo p)"

definition hasUsableData :: "BufferedPacket \<Rightarrow> bool" where
  "hasUsableData p \<longleftrightarrow> u32sub (pk_tail p) (pk_head p) \<noteq> 0"

definition removePadding :: "nat \<Rightarrow> BufferedPacket \<Rightarrow> BufferedPacket" where
  "removePadding numBytes p =
     (let n = (if numBytes > u32sub (pk_tail p) (pk_head p) then u32sub (pk_tail p) (pk_head p) else numBytes)
      in p\<lparr>pk_tail := u32sub (pk_tail p) n\<rparr>)"

text \<open>
  \<open>fillInData\<close>: the interface read \<open>input\<close>, of which the slice \<open>buffer[tail:]\<close> takes what fits.
\<close>

definition fillInData :: "bytes \<Rightarrow> BufferedPacket \<Rightarrow> BufferedPacket option" where
  "fillInData input p = do {
     room \<leftarrow> slice_from (pk_buffer p) (pk_tail p);
     let readBytes = min (length input) (length room);
     Some (p\<lparr>pk_buffer := copy_at (pk_buffer p) (pk_tail p) input,
             pk_tail := u32add (pk_tail p) readBytes\<rparr>)
   }"

definition assignMiscParams ::
  "u32 \<Rightarrow> u32 \<Rightarrow> timeval \<Rightarrow> timeval \<Rightarrow> bool \<Rightarrow> bool \<Rightarrow> BufferedPacket \<Rightarrow> BufferedPacket" where
  "assignMiscParams seqNo timestamp presTime received synced marker p =
     p\<lparr>RTPSeqNo := seqNo, timeReceived := received, RTPMarkerBit := marker,
       RTPTimestamp := timestamp, pk_presentationTime := presTime, hasBeenSyncedUsingRTCP := synced\<rparr>"

text \<open>
  \<open>nextEnclosedFrameProc\<close> is the packet's function value, nil for a plain packet; the code calls it and
  drops its result, so only its panics count.
\<close>

definition nextEnclosedFrameSize :: "(bytes \<Rightarrow> nat \<Rightarrow> nat option) option \<Rightarrow> bytes \<Rightarrow> nat \<Rightarrow> nat option" where
  "nextEnclosedFrameSize proc buff sz =
     (case proc of None \<Rightarrow> Some sz | Some f \<Rightarrow> do { _ \<leftarrow> f buff sz; Some sz })"

definition getNextEnclosedFrameParameters ::
  "(bytes \<Rightarrow> nat \<Rightarrow> nat option) option \<Rightarrow> bytes \<Rightarrow> nat \<Rightarrow> (nat \<times> nat) option" where
  "getNextEnclosedFrameParameters proc framePtr sz = do {
     frameSize \<leftarrow> nextEnclosedFrameSize proc framePtr sz;
     Some (frameSize, 0)
   }"

text \<open>\<open>buff\<close> and \<open>sz\<close> are the client's buffer and its size. The buffer is returned as the code leaves it.\<close>

definition packet_use ::
  "(bytes \<Rightarrow> nat \<Rightarrow> nat option) option \<Rightarrow> bytes \<Rightarrow> nat \<Rightarrow> BufferedPacket \<Rightarrow> (bytes \<times> PacketInfo \<times> BufferedPacket) option" where
  "packet_use proc buff sz p = do {
     origFramePtr \<leftarrow> packet_data p;
     (frameSize, frameDurationInMicroseconds) \<leftarrow> getNextEnclosedFrameParameters proc origFramePtr (dataSize p);
     let (used, truncated) = (if frameSize > sz then (sz, frameSize - sz) else (frameSize, 0));
     let info = \<lparr>bytesUsed = used, bytesTruncated = truncated, pi_rtpSeqNo = RTPSeqNo p,
                 pi_rtpTimestamp = RTPTimestamp p, pi_presentationTime = pk_presentationTime p,
                 pi_hasBeenSyncedUsingRTCP = hasBeenSyncedUsingRTCP p, pi_rtpMarkerBit = RTPMarkerBit p\<rparr>;
     let t = pk_presentationTime p;
     let us = i64 (tv_usec t + int frameDurationInMicroseconds);
     let t' = (if us \<ge> 1000000
               then \<lparr>tv_sec = i64 (tv_sec t + us sdiv 1000000), tv_usec = us smod 1000000\<rparr>
               else t\<lparr>tv_usec := us\<rparr>);
     Some (buff, info, p\<lparr>useCount := uadd (useCount p) 1, pk_presentationTime := t'\<rparr>)
   }"

section \<open>ReorderingPacketBuffer\<close>

type_synonym packet_store = "nat \<rightharpoonup> BufferedPacket"

record ReorderingPacketBuffer =
  headPacket :: "nat option"
  tailPacket :: "nat option"
  savePacket :: "nat option"
  thresholdTime :: int
  savedPacketFree :: bool
  haveSeenFirstPacket :: bool
  nextExpectedSeqNo :: nat

definition newReorderingPacketBuffer :: ReorderingPacketBuffer where
  "newReorderingPacketBuffer =
     \<lparr>headPacket = None, tailPacket = None, savePacket = None, thresholdTime = 100000,
      savedPacketFree = False, haveSeenFirstPacket = False, nextExpectedSeqNo = 0\<rparr>"

text \<open>\<open>fresh\<close> is the address of the packet that the factory would allocate.\<close>

definition getFreePacket ::
  "nat \<Rightarrow> packet_store \<Rightarrow> ReorderingPacketBuffer \<Rightarrow> nat \<times> packet_store \<times> ReorderingPacketBuffer" where
  "getFreePacket fresh st b =
     (case savePacket b of
        None \<Rightarrow> (fresh, st(fresh \<mapsto> newBufferedPacket), b\<lparr>savePacket := Some fresh, savedPacketFree := False\<rparr>)
      | Some sp \<Rightarrow>
          if savedPacketFree b then (sp, st, b\<lparr>savedPacketFree := False\<rparr>)
          else (fresh, st(fresh \<mapsto> newBufferedPacket), b))"

definition getNextCompletedPacket ::
  "timeval \<Rightarrow> packet_store \<Rightarrow> ReorderingPacketBuffer \<Rightarrow> (nat option \<times> bool \<times> ReorderingPacketBuffer) option" where
  "getNextCompletedPacket timeNow st b =
     (case headPacket b of
        None \<Rightarrow> Some (None, False, b)
      | Some h \<Rightarrow> do {
          p \<leftarrow> st h;
          if rtpSeqNo p = nextExpectedSeqNo b then Some (Some h, firstPacketFlag p, b)
          else
            (let timeThresholdHasBeenExceeded =
                   (if thresholdTime b = 0 then True
                    else let uSecondsSinceReceived =
                               i64 (i64 (i64 (tv_sec timeNow - tv_sec (timeReceived p)) * 1000000) +
                                    i64 (tv_usec timeNow - tv_usec (timeReceived p)))
                         in uSecondsSinceReceived > thresholdTime b)
             in if timeThresholdHasBeenExceeded
                then Some (Some h, True, b\<lparr>nextExpectedSeqNo := rtpSeqNo p\<rparr>)
                else Some (None, False, b))
        })"

definition releaseUsedPacket ::
  "nat \<Rightarrow> packet_store \<Rightarrow> ReorderingPacketBuffer \<Rightarrow> (packet_store \<times> ReorderingPacketBuffer) option" where
  "releaseUsedPacket packet st b = do {
     h \<leftarrow> headPacket b;
     hp \<leftarrow> st h;
     p \<leftarrow> st packet;
     let b1 = b\<lparr>nextExpectedSeqNo := uadd (nextExpectedSeqNo b) 1, headPacket := nextPacket hp\<rparr>;
     let b2 = (if headPacket b1 \<noteq> None then b1\<lparr>tailPacket := None\<rparr> else b1);
     Some (st(packet \<mapsto> p\<lparr>nextPacket := None\<rparr>), b2)
   }"

definition resetHaveSeenFirstPacket :: "ReorderingPacketBuffer \<Rightarrow> ReorderingPacketBuffer" where
  "resetHaveSeenFirstPacket b = b\<lparr>haveSeenFirstPacket := False\<rparr>"

text \<open>The walk of \<open>storePacket\<close> to the place of a packet that is neither first nor last.\<close>

datatype place = Place "nat option" "nat option" | Duplicate

partial_function (option) findPlace ::
  "packet_store \<Rightarrow> nat \<Rightarrow> nat option \<Rightarrow> nat option \<Rightarrow> place option" where
  "findPlace st seqNo beforePtr afterPtr =
     (if afterPtr = None then Some (Place beforePtr None)
      else do {
        a \<leftarrow> afterPtr;
        p \<leftarrow> st a;
        if seqNumLT (int seqNo) (int (rtpSeqNo p)) then Some (Place beforePtr (Some a))
        else if seqNo = rtpSeqNo p then Some Duplicate
        else findPlace st seqNo (Some a) (nextPacket p)
      })"

declare findPlace.simps [code]

definition storePacket ::
  "nat \<Rightarrow> packet_store \<Rightarrow> ReorderingPacketBuffer \<Rightarrow> (bool \<times> packet_store \<times> ReorderingPacketBuffer) option" where
  "storePacket packet st b = do {
     p0 \<leftarrow> st packet;
     let q = rtpSeqNo p0;
     let (p, b1) =
       (if \<not> haveSeenFirstPacket b
        then (p0\<lparr>firstPacketFlag := True\<rparr>, b\<lparr>nextExpectedSeqNo := q, haveSeenFirstPacket := True\<rparr>)
        else (p0, b));
     let st1 = st(packet \<mapsto> p);
     if seqNumLT (int q) (int (nextExpectedSeqNo b1)) then Some (False, st1, b1)
     else case tailPacket b1 of
       None \<Rightarrow>
         Some (True, st1(packet \<mapsto> p\<lparr>nextPacket := None\<rparr>), b1\<lparr>headPacket := Some packet, tailPacket := Some packet\<rparr>)
     | Some t \<Rightarrow> do {
         tp \<leftarrow> st1 t;
         if seqNumLT (int (rtpSeqNo tp)) (int q) then do {
           let st2 = st1(packet \<mapsto> p\<lparr>nextPacket := None\<rparr>);
           tp2 \<leftarrow> st2 t;
           Some (True, st2(t \<mapsto> tp2\<lparr>nextPacket := Some packet\<rparr>), b1\<lparr>tailPacket := Some packet\<rparr>)
         }
         else if q = rtpSeqNo tp then Some (False, st1, b1)
         else do {
           pl \<leftarrow> findPlace st1 q None (headPacket b1);
           case pl of
             Duplicate \<Rightarrow> Some (False, st1, b1)
           | Place before after \<Rightarrow>
               (let st2 = st1(packet \<mapsto> p\<lparr>nextPacket := after\<rparr>)
                in case before of
                     None \<Rightarrow> Some (True, st2, b1\<lparr>headPacket := Some packet\<rparr>)
                   | Some bp \<Rightarrow> do {
                       bpk \<leftarrow> st2 bp;
                       Some (True, st2(bp \<mapsto> bpk\<lparr>nextPacket := Some packet\<rparr>), b1)
                     })
         }
       }
   }"

section \<open>Offsets\<close>

definition pk_wf :: "BufferedPacket \<Rightarrow> bool" where
  "pk_wf p \<longleftrightarrow> pk_head p \<le> pk_tail p \<and> pk_tail p \<le> length (pk_buffer p) \<and> length (pk_buffer p) = maxPacketSize"

text \<open>The bytes a packet still holds.\<close>

definition payload :: "BufferedPacket \<Rightarrow> bytes" where
  "payload p = take (pk_tail p - pk_head p) (drop (pk_head p) (pk_buffer p))"

lemma new_wf [simp]: "pk_wf newBufferedPacket"
  by (simp add: pk_wf_def newBufferedPacket_def)

lemma wf_bounds:
  assumes "pk_wf p"
  shows "pk_head p \<le> pk_tail p" "pk_tail p \<le> 20000" "length (pk_buffer p) = 20000"
    "length (payload p) = pk_tail p - pk_head p" "dataSize p = length (payload p)"
  using assms by (auto simp: pk_wf_def maxPacketSize_def payload_def dataSize_def)

lemma packet_data_wf: "pk_wf p \<Longrightarrow> packet_data p = Some (drop (pk_head p) (pk_buffer p))"
  using wf_bounds [of p] by (simp add: packet_data_def)

lemma data_prefix: "pk_wf p \<Longrightarrow> take (length (payload p)) (drop (pk_head p) (pk_buffer p)) = payload p"
  using wf_bounds [of p] by (simp add: payload_def)

lemma skip_wf:
  assumes "pk_wf p" "n < 2 ^ 31"
  shows "pk_wf (skip n p) \<and> payload (skip n p) = drop n (payload p) \<and> pk_tail (skip n p) = pk_tail p"
proof -
  note wf = wf_bounds [OF assms(1)]
  have h: "u32add (pk_head p) n = pk_head p + n" using wf assms by (intro u32add_small) simp
  show ?thesis
  proof (cases "pk_head p + n > pk_tail p")
    case True
    then show ?thesis using wf h assms(1) by (simp add: skip_def Let_def pk_wf_def payload_def)
  next
    case False
    then show ?thesis using wf h assms(1)
      by (simp add: skip_def Let_def pk_wf_def payload_def drop_take drop_drop ac_simps)
  qed
qed

lemma removePadding_wf:
  assumes "pk_wf p" "n \<le> length (payload p)"
  shows "pk_wf (removePadding n p) \<and> payload (removePadding n p) = take (length (payload p) - n) (payload p)"
proof -
  note wf = wf_bounds [OF assms(1)]
  have n: "n \<le> pk_tail p - pk_head p" "n \<le> pk_tail p" using wf assms(2) by simp_all
  have r: "removePadding n p = p\<lparr>pk_tail := pk_tail p - n\<rparr>"
    using wf n by (simp add: removePadding_def Let_def)
  have tt: "take (l - n) (take l xs) = take (l - n) xs" for l and xs :: bytes by (simp add: min_def)
  have c: "pk_tail p - n - pk_head p = pk_tail p - pk_head p - n" by simp
  have "payload (removePadding n p) = take (length (payload p) - n) (payload p)"
    unfolding r wf(4) by (simp add: payload_def c tt del: diff_diff_left)
  moreover have "pk_wf (removePadding n p)" unfolding r using wf n assms(1) by (auto simp: pk_wf_def)
  ultimately show ?thesis by simp
qed

lemma fillInData_new:
  assumes "length input \<le> maxPacketSize"
  shows "\<exists>p. fillInData input newBufferedPacket = Some p \<and> pk_wf p \<and> payload p = input \<and> nextPacket p = None
    \<and> pk_head p = 0 \<and> firstPacketFlag p = False \<and> useCount p = 0"
  using assms by (auto simp: fillInData_def newBufferedPacket_def pk_wf_def payload_def maxPacketSize_def Let_def)

end
