(* ===== verification/Reorder.thy ===== *)
theory Reorder
  imports RtpPacket
begin

text \<open>
  What \<open>ReorderingPacketBuffer.storePacket\<close> promises, on the abstract view of the linked list: the
  list of its packets, in order of sequence number from the next one expected. The lemmas walk list
  segments of the packet store.
\<close>

section \<open>List segments\<close>

fun lseg :: "packet_store \<Rightarrow> nat option \<Rightarrow> nat list \<Rightarrow> nat option \<Rightarrow> bool" where
  "lseg st a [] b = (a = b)"
| "lseg st a (x # xs) b =
     (a = Some x \<and> (case st x of None \<Rightarrow> False | Some p \<Rightarrow> lseg st (nextPacket p) xs b))"

lemma lseg_append: "lseg st a (us @ vs) c \<longleftrightarrow> (\<exists>b. lseg st a us b \<and> lseg st b vs c)"
  by (induction us arbitrary: a) (auto split: option.split)

lemma lseg_frame [simp]: "x \<notin> set xs \<Longrightarrow> lseg (st(x \<mapsto> p)) a xs b = lseg st a xs b"
  by (induction xs arbitrary: a) (auto split: option.split)

lemma lseg_same_links:
  assumes "st x = Some p" "nextPacket p' = nextPacket p"
  shows "lseg (st(x \<mapsto> p')) a xs b = lseg st a xs b"
  using assms by (induction xs arbitrary: a) (auto split: option.split)

lemma lseg_None: "lseg st None xs b \<longleftrightarrow> xs = [] \<and> b = None"
  by (cases xs) auto

lemma lseg_head: "lseg st a xs None \<Longrightarrow> a = (if xs = [] then None else Some (hd xs))"
  by (cases xs) auto

text \<open>Linking a new packet \<open>x\<close> between \<open>us\<close> and \<open>vs\<close>.\<close>

lemma lseg_insert_front:
  assumes "lseg st a vs None" "x \<notin> set vs" "nextPacket p = a"
  shows "lseg (st(x \<mapsto> p)) (Some x) (x # vs) None"
  using assms by simp

lemma lseg_insert_after:
  assumes "lseg st a (us @ u # vs) None" "distinct (us @ u # vs)" "x \<notin> set (us @ u # vs)"
    and "nextPacket p = (if vs = [] then None else Some (hd vs))" "st u = Some up"
  shows "lseg (st(x \<mapsto> p, u \<mapsto> up\<lparr>nextPacket := Some x\<rparr>)) a (us @ u # x # vs) None"
proof -
  obtain b where b: "lseg st a us b" "lseg st b (u # vs) None" using assms(1) by (auto simp: lseg_append)
  then have vs: "lseg st (nextPacket up) vs None" "b = Some u" using assms(5) by auto
  then have "nextPacket p = nextPacket up" using lseg_head [OF vs(1)] assms(4) by simp
  then have "lseg (st(x \<mapsto> p, u \<mapsto> up\<lparr>nextPacket := Some x\<rparr>)) b (u # x # vs) None"
    using vs assms(2,3) by auto
  moreover have "lseg (st(x \<mapsto> p, u \<mapsto> up\<lparr>nextPacket := Some x\<rparr>)) a us b"
    using b(1) assms(2,3) by simp
  ultimately show ?thesis by (auto simp: lseg_append)
qed

section \<open>Order from the next expected number\<close>

definition off :: "nat \<Rightarrow> nat \<Rightarrow> nat" where
  "off n q = nat ((int q - int n) mod 65536)"

definition in_window :: "nat \<Rightarrow> nat \<Rightarrow> bool" where
  "in_window n q \<longleftrightarrow> q < 65536 \<and> off n q < 0x8000"

lemma off_inj: "p < 65536 \<Longrightarrow> q < 65536 \<Longrightarrow> off n p = off n q \<longleftrightarrow> p = q"
proof
  assume pq: "p < 65536" "q < 65536" "off n p = off n q"
  have "(int p - int n) mod 65536 = (int q - int n) mod 65536"
    using pq(3) by (simp add: off_def nat_eq_iff)
  then have "(int p - int n + int n) mod 65536 = (int q - int n + int n) mod 65536"
    by (rule mod_add_cong) (rule refl)
  then show "p = q" using pq by simp
qed simp

lemma off_diff:
  assumes "off n p \<le> off n q"
  shows "(int q - int p) mod 65536 = int (off n q - off n p)"
proof -
  have "(int q - int p) mod 65536 = ((int q - int n) mod 65536 - (int p - int n) mod 65536) mod 65536"
    by (simp add: mod_diff_eq)
  also have "\<dots> = (int (off n q) - int (off n p)) mod 65536" by (simp add: off_def)
  also have "\<dots> = int (off n q - off n p)"
  proof -
    have "off n q < 65536" by (simp add: off_def nat_less_iff)
    then show ?thesis using assms by (subst mod_pos_pos_trivial) (simp_all add: of_nat_diff)
  qed
  finally show ?thesis .
qed

lemma window_LT:
  assumes "in_window n p" "in_window n q"
  shows "seqNumLT (int p) (int q) \<longleftrightarrow> off n p < off n q"
proof -
  have b: "p < 65536" "q < 65536" "off n p < 0x8000" "off n q < 0x8000"
    using assms by (auto simp: in_window_def)
  show ?thesis
  proof (cases "off n p \<le> off n q")
    case True
    then show ?thesis using b off_diff [OF True] by (subst seqNumLT_circle) auto
  next
    case False
    then have "seqNumLT (int q) (int p)" using b off_diff [of n q p] by (subst seqNumLT_circle) auto
    then show ?thesis using seqNumLT_asym False by auto
  qed
qed

lemma expected_LT:
  assumes "n < 65536" "q < 65536" "off n q \<noteq> 0x8000"
  shows "seqNumLT (int q) (int n) \<longleftrightarrow> \<not> in_window n q"
proof -
  have o: "int (off n q) = (int q - int n) mod 65536" by (simp add: off_def)
  have z: "off n n = 0" by (simp add: off_def)
  have "(int n - int q) mod 65536 = (- (int q - int n)) mod 65536" by simp
  also have "\<dots> = (if off n q = 0 then 0 else 65536 - int (off n q))"
    unfolding o [symmetric] using o by (subst zmod_zminus1_eq_if) auto
  finally have d: "(int n - int q) mod 65536 = (if off n q = 0 then 0 else 65536 - int (off n q))" .
  have "off n q < 65536" by (simp add: off_def nat_less_iff)
  then show ?thesis
    using assms d by (subst seqNumLT_circle) (auto simp: in_window_def split: if_splits)
qed

section \<open>The walk\<close>

definition sq :: "packet_store \<Rightarrow> nat \<Rightarrow> nat" where
  "sq st a = (case st a of None \<Rightarrow> 0 | Some p \<Rightarrow> rtpSeqNo p)"

lemma findPlace_spec:
  assumes "lseg st after ys None" and "\<forall>y \<in> set ys. in_window n (sq st y)" and "in_window n q"
  shows "findPlace st q before after =
    (let us = takeWhile (\<lambda>a. off n (sq st a) < off n q) ys; vs = dropWhile (\<lambda>a. off n (sq st a) < off n q) ys
     in Some (if vs \<noteq> [] \<and> sq st (hd vs) = q then Duplicate
              else Place (if us = [] then before else Some (last us)) (if vs = [] then None else Some (hd vs))))"
  using assms
proof (induction ys arbitrary: before after)
  case Nil
  then show ?case by (simp add: findPlace.simps)
next
  case (Cons y ys)
  obtain p where p: "st y = Some p" "after = Some y" "lseg st (nextPacket p) ys None"
    using Cons.prems(1) by (auto split: option.splits)
  have s: "sq st y = rtpSeqNo p" using p by (simp add: sq_def)
  have w: "in_window n (rtpSeqNo p)" using Cons.prems(2) s by simp
  note lt = window_LT [OF Cons.prems(3) w]
  have b: "q < 65536" "rtpSeqNo p < 65536" using Cons.prems(3) w by (auto simp: in_window_def)
  consider "off n q < off n (rtpSeqNo p)" | "q = rtpSeqNo p" | "off n (rtpSeqNo p) < off n q"
    using off_inj [OF b, of n] by fastforce
  then show ?case
  proof cases
    case 1
    then have "q \<noteq> rtpSeqNo p" by auto
    then show ?thesis using 1 p s lt by (subst findPlace.simps) simp
  next
    case 2
    then show ?thesis using p s by (subst findPlace.simps) simp
  next
    case 3
    then have "q \<noteq> rtpSeqNo p" by auto
    then have "findPlace st q before after = findPlace st q (Some y) (nextPacket p)"
      using 3 p lt by (subst findPlace.simps) simp
    then show ?thesis using Cons.IH [OF p(3) _ Cons.prems(3), of "Some y"] Cons.prems(2) 3 s
      by (simp add: Let_def)
  qed
qed

section \<open>Storing a packet\<close>

definition stored :: "packet_store \<Rightarrow> ReorderingPacketBuffer \<Rightarrow> nat list \<Rightarrow> bool" where
  "stored st b xs \<longleftrightarrow>
     lseg st (headPacket b) xs None \<and> distinct xs \<and>
     tailPacket b = (if xs = [] then None else Some (last xs)) \<and>
     haveSeenFirstPacket b \<and> nextExpectedSeqNo b < 65536 \<and>
     (\<forall>x \<in> set xs. in_window (nextExpectedSeqNo b) (sq st x)) \<and>
     sorted_wrt (<) (map (\<lambda>x. off (nextExpectedSeqNo b) (sq st x)) xs)"

lemma insort_split:
  "insort_key f x xs = takeWhile (\<lambda>y. f y < f x) xs @ x # dropWhile (\<lambda>y. f y < f x) xs"
  for f :: "'a \<Rightarrow> nat"
  by (induction xs) auto

lemma strict_insort:
  fixes f :: "'a \<Rightarrow> nat"
  assumes "sorted_wrt (<) (map f xs)" "f x \<notin> f ` set xs"
  shows "sorted_wrt (<) (map f (insort_key f x xs))"
proof -
  have s: "sorted (map f xs)" "distinct (map f xs)" using assms(1) by (simp_all add: strict_sorted_iff)
  have "x \<notin> set xs" using assms(2) by auto
  then have "distinct (insort_key f x xs)" using s(2) by (simp add: distinct_insort distinct_map)
  moreover have "inj_on f (set (insort_key f x xs))"
    using s(2) assms(2) by (auto simp: set_insort_key distinct_map)
  ultimately show ?thesis using s(1) by (simp add: strict_sorted_iff sorted_insort_key distinct_map)
qed

lemma sorted_le_last:
  fixes f :: "'a \<Rightarrow> nat"
  assumes "sorted_wrt (<) (map f xs)" "x \<in> set xs"
  shows "f x \<le> f (last xs)"
  using assms by (induction xs) (auto simp: less_imp_le)

lemma lseg_mem: "lseg st a xs b \<Longrightarrow> x \<in> set xs \<Longrightarrow> \<exists>p. st x = Some p"
  by (induction xs arbitrary: a) (auto split: option.splits)

lemma sq_update: "st x = Some p \<Longrightarrow> rtpSeqNo p' = rtpSeqNo p \<Longrightarrow> sq (st(x \<mapsto> p')) = sq st"
  by (auto simp: sq_def fun_eq_iff)

lemma rtpSeqNo_link [simp]: "rtpSeqNo (p\<lparr>nextPacket := l\<rparr>) = rtpSeqNo p"
  by (simp add: rtpSeqNo_def)

lemma sq_links:
  assumes "st a = Some p" "st u = Some up"
  shows "sq (st(a \<mapsto> p\<lparr>nextPacket := l\<rparr>, u \<mapsto> up\<lparr>nextPacket := m\<rparr>)) = sq st"
  using assms by (auto simp: sq_def fun_eq_iff)

lemma dom_link: "st a = Some p \<Longrightarrow> dom (st(a \<mapsto> p')) = dom st"
  by auto

lemma dom_links: "st a = Some p \<Longrightarrow> st u = Some up \<Longrightarrow> dom (st(a \<mapsto> p', u \<mapsto> up')) = dom st"
  by auto

text \<open>All of a packet but its link and its first-packet flag.\<close>

definition content :: "packet_store \<Rightarrow> nat \<Rightarrow> BufferedPacket option" where
  "content st x = map_option (\<lambda>p. p\<lparr>nextPacket := None, firstPacketFlag := False\<rparr>) (st x)"

lemma content_link: "st a = Some p \<Longrightarrow> content (st(a \<mapsto> p\<lparr>nextPacket := l\<rparr>)) = content st"
  by (auto simp: content_def fun_eq_iff)

lemma content_links:
  "st a = Some p \<Longrightarrow> st u = Some up \<Longrightarrow>
     content (st(a \<mapsto> p\<lparr>nextPacket := l\<rparr>, u \<mapsto> up\<lparr>nextPacket := m\<rparr>)) = content st"
  by (auto simp: content_def fun_eq_iff)

lemma content_eqD:
  assumes "content st' = content st" "st a = Some p"
  shows "\<exists>p'. st' a = Some p' \<and> p' = p\<lparr>nextPacket := nextPacket p', firstPacketFlag := firstPacketFlag p'\<rparr>"
proof -
  have "content st' a = content st a" using assms(1) by simp
  then obtain p' where p': "st' a = Some p'"
    "p'\<lparr>nextPacket := None, firstPacketFlag := False\<rparr> = p\<lparr>nextPacket := None, firstPacketFlag := False\<rparr>"
    using assms(2) by (auto simp: content_def)
  have "p' = p'\<lparr>nextPacket := None, firstPacketFlag := False, nextPacket := nextPacket p', firstPacketFlag := firstPacketFlag p'\<rparr>"
    by simp
  also have "\<dots> = p\<lparr>nextPacket := nextPacket p', firstPacketFlag := firstPacketFlag p'\<rparr>" using p'(2) by simp
  finally show ?thesis using p'(1) by simp
qed

lemma storePacket_known:
  assumes "haveSeenFirstPacket b" "st a = Some p" "\<not> seqNumLT (int (rtpSeqNo p)) (int (nextExpectedSeqNo b))"
  shows "storePacket a st b =
    (case tailPacket b of
       None \<Rightarrow> Some (True, st(a \<mapsto> p\<lparr>nextPacket := None\<rparr>), b\<lparr>headPacket := Some a, tailPacket := Some a\<rparr>)
     | Some t \<Rightarrow> do {
         tp \<leftarrow> st t;
         if seqNumLT (int (rtpSeqNo tp)) (int (rtpSeqNo p)) then do {
           tp2 \<leftarrow> (st(a \<mapsto> p\<lparr>nextPacket := None\<rparr>)) t;
           Some (True, st(a \<mapsto> p\<lparr>nextPacket := None\<rparr>, t \<mapsto> tp2\<lparr>nextPacket := Some a\<rparr>), b\<lparr>tailPacket := Some a\<rparr>)
         }
         else if rtpSeqNo p = rtpSeqNo tp then Some (False, st, b)
         else do {
           pl \<leftarrow> findPlace st (rtpSeqNo p) None (headPacket b);
           case pl of
             Duplicate \<Rightarrow> Some (False, st, b)
           | Place before after \<Rightarrow>
               (case before of
                  None \<Rightarrow> Some (True, st(a \<mapsto> p\<lparr>nextPacket := after\<rparr>), b\<lparr>headPacket := Some a\<rparr>)
                | Some bp \<Rightarrow> do {
                    bpk \<leftarrow> (st(a \<mapsto> p\<lparr>nextPacket := after\<rparr>)) bp;
                    Some (True, st(a \<mapsto> p\<lparr>nextPacket := after\<rparr>, bp \<mapsto> bpk\<lparr>nextPacket := Some a\<rparr>), b)
                  })
         }
       })"
proof -
  have "st(a \<mapsto> p) = st" using assms(2) by auto
  then show ?thesis using assms
    by (cases "tailPacket b") (simp_all add: storePacket_def Let_def cong: place.case_cong option.case_cong if_cong)
qed

text \<open>
  The postcondition of storing the packet at \<open>a\<close>: it is inserted at its place, unless it lies
  before the window or its sequence number is there.
\<close>

definition inserted :: "nat \<Rightarrow> packet_store \<Rightarrow> ReorderingPacketBuffer \<Rightarrow> nat list \<Rightarrow>
    (bool \<times> packet_store \<times> ReorderingPacketBuffer) option \<Rightarrow> bool" where
  "inserted a st b xs r \<longleftrightarrow>
     (let n = nextExpectedSeqNo b; f = (\<lambda>x. off n (sq st x)) in
      case r of None \<Rightarrow> False
      | Some (ok, st', b') \<Rightarrow>
          nextExpectedSeqNo b' = n \<and> sq st' = sq st \<and> dom st' = dom st \<and> content st' = content st \<and>
          (ok \<longleftrightarrow> in_window n (sq st a) \<and> sq st a \<notin> sq st ` set xs) \<and>
          stored st' b' (if ok then insort_key f a xs else xs))"

lemma stored_off_inj:
  assumes "stored st b xs" "in_window (nextExpectedSeqNo b) q" "q \<notin> sq st ` set xs"
  shows "off (nextExpectedSeqNo b) q \<notin> (\<lambda>x. off (nextExpectedSeqNo b) (sq st x)) ` set xs"
proof
  assume "off (nextExpectedSeqNo b) q \<in> (\<lambda>x. off (nextExpectedSeqNo b) (sq st x)) ` set xs"
  then obtain x where x: "x \<in> set xs" "off (nextExpectedSeqNo b) (sq st x) = off (nextExpectedSeqNo b) q" by auto
  moreover have "in_window (nextExpectedSeqNo b) (sq st x)" using assms(1) x(1) by (auto simp: stored_def)
  ultimately have "sq st x = q" using assms(2) off_inj by (auto simp: in_window_def)
  then show False using x(1) assms(3) by auto
qed

lemma insertedI:
  fixes b st
  defines "f \<equiv> \<lambda>x. off (nextExpectedSeqNo b) (sq st x)"
  assumes inv: "stored st b xs" "a \<notin> set xs" and w: "in_window (nextExpectedSeqNo b) (sq st a)"
    and fresh: "sq st a \<notin> sq st ` set xs"
    and st': "sq st' = sq st" "nextExpectedSeqNo b' = nextExpectedSeqNo b" "haveSeenFirstPacket b'" "dom st' = dom st"
      "content st' = content st"
    and seg: "lseg st' (headPacket b') (insort_key f a xs) None"
    and tl: "tailPacket b' = Some (last (insort_key f a xs))"
  shows "inserted a st b xs (Some (True, st', b'))"
proof -
  have "f a \<notin> f ` set xs" unfolding f_def using stored_off_inj [OF inv(1) w fresh] .
  then have "sorted_wrt (<) (map f (insort_key f a xs))"
    using inv(1) by (intro strict_insort) (simp_all add: stored_def f_def)
  moreover have "insort_key f a xs \<noteq> []" by (simp add: insort_split)
  ultimately have "stored st' b' (insort_key f a xs)"
    using st' inv w seg tl by (auto simp: stored_def distinct_insort set_insort_key f_def)
  then show ?thesis using st' w fresh by (simp add: inserted_def f_def Let_def)
qed

lemma rejectedI:
  assumes "stored st b xs" "sq st a \<in> sq st ` set xs \<or> \<not> in_window (nextExpectedSeqNo b) (sq st a)"
  shows "inserted a st b xs (Some (False, st, b))"
  using assms by (auto simp: inserted_def Let_def)

lemma store_at_end:
  assumes inv: "stored st b xs" and a: "st a = Some p" "a \<notin> set xs" and xs: "xs \<noteq> []"
    and w: "in_window (nextExpectedSeqNo b) (rtpSeqNo p)" and tp: "st (last xs) = Some tp"
    and lt: "off (nextExpectedSeqNo b) (rtpSeqNo tp) < off (nextExpectedSeqNo b) (rtpSeqNo p)"
  shows "inserted a st b xs (Some (True,
    st(a \<mapsto> p\<lparr>nextPacket := None\<rparr>, last xs \<mapsto> tp\<lparr>nextPacket := Some a\<rparr>), b\<lparr>tailPacket := Some a\<rparr>))"
proof -
  let ?f = "\<lambda>x. off (nextExpectedSeqNo b) (sq st x)"
  have sa: "sq st a = rtpSeqNo p" "sq st (last xs) = rtpSeqNo tp" using a tp by (simp_all add: sq_def)
  have upto: "?f x < ?f a" if "x \<in> set xs" for x
  proof -
    have "?f x \<le> ?f (last xs)" using inv that by (intro sorted_le_last) (simp_all add: stored_def)
    then show ?thesis using lt sa by simp
  qed
  have "takeWhile (\<lambda>y. ?f y < ?f a) xs = xs" "dropWhile (\<lambda>y. ?f y < ?f a) xs = []"
    using upto by (simp_all add: takeWhile_eq_all_conv dropWhile_eq_Nil_conv)
  then have ins: "insort_key ?f a xs = xs @ [a]" by (simp add: insort_split)
  have split: "xs = butlast xs @ [last xs]" using xs by simp
  have "lseg (st(a \<mapsto> p\<lparr>nextPacket := None\<rparr>, last xs \<mapsto> tp\<lparr>nextPacket := Some a\<rparr>)) (headPacket b)
      (butlast xs @ last xs # a # []) None"
    by (rule lseg_insert_after) (use inv a tp split in \<open>simp_all add: stored_def\<close>)
  moreover have "butlast xs @ last xs # a # [] = xs @ [a]" using xs by simp
  ultimately have seg: "lseg (st(a \<mapsto> p\<lparr>nextPacket := None\<rparr>, last xs \<mapsto> tp\<lparr>nextPacket := Some a\<rparr>)) (headPacket b)
      (xs @ [a]) None" by simp
  have "sq st a \<notin> sq st ` set xs" using upto by fastforce
  then show ?thesis
    by (intro insertedI) (use inv a w sa seg ins sq_links [OF a(1) tp] dom_links [of st a p "last xs" tp, OF a(1) tp] content_links [of st a p "last xs" tp, OF a(1) tp] in \<open>simp_all add: stored_def\<close>)
qed

lemma store_inside:
  assumes inv: "stored st b xs" and a: "st a = Some p" "a \<notin> set xs"
    and w: "in_window (nextExpectedSeqNo b) (rtpSeqNo p)" and fresh: "sq st a \<notin> sq st ` set xs"
    and xs: "xs = us @ vs" "vs \<noteq> []" and ins: "insort_key (\<lambda>x. off (nextExpectedSeqNo b) (sq st x)) a xs = us @ a # vs"
  shows "us = [] \<Longrightarrow> inserted a st b xs (Some (True, st(a \<mapsto> p\<lparr>nextPacket := Some (hd vs)\<rparr>), b\<lparr>headPacket := Some a\<rparr>))"
    and "us \<noteq> [] \<Longrightarrow> st (last us) = Some up \<Longrightarrow>
      inserted a st b xs (Some (True, st(a \<mapsto> p\<lparr>nextPacket := Some (hd vs)\<rparr>, last us \<mapsto> up\<lparr>nextPacket := Some a\<rparr>), b))"
proof -
  have inv': "lseg st (headPacket b) xs None" "tailPacket b = Some (last vs)" "haveSeenFirstPacket b" "distinct xs"
    using inv xs by (auto simp: stored_def)
  have sa: "sq st a = rtpSeqNo p" using a by (simp add: sq_def)
  show "inserted a st b xs (Some (True, st(a \<mapsto> p\<lparr>nextPacket := Some (hd vs)\<rparr>), b\<lparr>headPacket := Some a\<rparr>))"
    if "us = []"
  proof -
    have "headPacket b = Some (hd vs)" using lseg_head [OF inv'(1)] xs that by simp
    then have "lseg (st(a \<mapsto> p\<lparr>nextPacket := Some (hd vs)\<rparr>)) (Some a) (a # vs) None"
      by (intro lseg_insert_front) (use inv' xs that a in simp_all)
    then show ?thesis
      by (intro insertedI) (use inv inv' a w sa fresh that xs ins dom_link [of st a p, OF a(1)] content_link [of st a p, OF a(1)] in \<open>simp_all add: sq_update\<close>)
  qed
  show "inserted a st b xs (Some (True, st(a \<mapsto> p\<lparr>nextPacket := Some (hd vs)\<rparr>, last us \<mapsto> up\<lparr>nextPacket := Some a\<rparr>), b))"
    if us: "us \<noteq> []" and up: "st (last us) = Some up"
  proof -
    have split: "butlast us @ last us # ys = us @ ys" for ys using us by simp
    have "lseg (st(a \<mapsto> p\<lparr>nextPacket := Some (hd vs)\<rparr>, last us \<mapsto> up\<lparr>nextPacket := Some a\<rparr>)) (headPacket b)
        (butlast us @ last us # a # vs) None"
      by (rule lseg_insert_after) (use inv' xs a up in \<open>simp_all only: split\<close>, simp_all)
    then show ?thesis unfolding split
      by (intro insertedI) (use inv inv' a w sa fresh up xs ins sq_links [OF a(1) up] dom_links [of st a p "last us" up, OF a(1) up] content_links [of st a p "last us" up, OF a(1) up] in simp_all)
  qed
qed

text \<open>The walk stops at a packet with the same number, when there is one.\<close>

lemma walk_hits:
  assumes inv: "stored st b (us @ vs)" and q: "q \<in> sq st ` set (us @ vs)" and "vs \<noteq> []"
    and us: "\<forall>x \<in> set us. off (nextExpectedSeqNo b) (sq st x) < off (nextExpectedSeqNo b) q"
    and vs: "\<not> off (nextExpectedSeqNo b) (sq st (hd vs)) < off (nextExpectedSeqNo b) q"
  shows "sq st (hd vs) = q"
proof -
  obtain x where x: "x \<in> set (us @ vs)" "sq st x = q" using q by auto
  then have "x \<in> set vs" using us by auto
  moreover have "sorted_wrt (<) (map (\<lambda>x. off (nextExpectedSeqNo b) (sq st x)) vs)"
    using inv by (simp add: stored_def sorted_wrt_append)
  ultimately show ?thesis using x vs assms(3) by (cases vs) auto
qed

lemma storePacket_correct:
  assumes inv: "stored st b xs" and a: "st a = Some p" "a \<notin> set xs"
    and q: "rtpSeqNo p < 65536" "off (nextExpectedSeqNo b) (rtpSeqNo p) \<noteq> 0x8000"
  shows "inserted a st b xs (storePacket a st b)"
proof -
  let ?n = "nextExpectedSeqNo b" and ?q = "rtpSeqNo p" and ?f = "\<lambda>x. off (nextExpectedSeqNo b) (sq st x)"
  have inv': "lseg st (headPacket b) xs None" "tailPacket b = (if xs = [] then None else Some (last xs))"
    "haveSeenFirstPacket b" "?n < 65536" "\<forall>x \<in> set xs. in_window ?n (sq st x)"
    using inv by (auto simp: stored_def)
  have sa: "sq st a = ?q" using a by (simp add: sq_def)
  note lt_n = expected_LT [OF inv'(4) q]
  consider "\<not> in_window ?n ?q" | "in_window ?n ?q" "xs = []" | "in_window ?n ?q" "xs \<noteq> []" by blast
  then show ?thesis
  proof cases
    case 1
    have "st(a \<mapsto> p) = st" using a(1) by auto
    then have "storePacket a st b = Some (False, st, b)"
      using a inv'(3) lt_n 1 by (simp add: storePacket_def Let_def)
    then show ?thesis using rejectedI [OF inv] 1 sa by simp
  next
    case 2
    then have s: "storePacket a st b =
        Some (True, st(a \<mapsto> p\<lparr>nextPacket := None\<rparr>), b\<lparr>headPacket := Some a, tailPacket := Some a\<rparr>)"
      using storePacket_known [of b st a p, OF inv'(3) a(1)] lt_n inv'(2) by simp
    show ?thesis unfolding s
      by (intro insertedI) (use 2 inv inv' a sa dom_link [of st a p, OF a(1)] content_link [of st a p, OF a(1)] in \<open>simp_all add: sq_update\<close>)
  next
    case 3
    obtain tp where tp: "st (last xs) = Some tp" using lseg_mem [OF inv'(1), of "last xs"] 3(2) by auto
    have stp: "sq st (last xs) = rtpSeqNo tp" using tp by (simp add: sq_def)
    have wt: "in_window ?n (rtpSeqNo tp)" using inv'(5) 3(2) stp by (metis last_in_set)
    have ta: "last xs \<noteq> a" using a(2) 3(2) by auto
    note known = storePacket_known [of b st a p, OF inv'(3) a(1)] and lt_t = window_LT [OF wt 3(1)]
    show ?thesis
    proof (cases "off ?n (rtpSeqNo tp) < off ?n ?q")
      case True
      then show ?thesis
        using store_at_end [OF inv a 3(2,1) tp True] known lt_n inv'(2) 3 tp ta lt_t by simp
    next
      case notlast: False
      define us where "us = takeWhile (\<lambda>y. ?f y < ?f a) xs"
      define vs where "vs = dropWhile (\<lambda>y. ?f y < ?f a) xs"
      have uv: "xs = us @ vs" by (simp add: us_def vs_def)
      have vs0: "vs \<noteq> []"
        using notlast 3(2) sa stp by (auto simp: vs_def dropWhile_eq_Nil_conv intro!: bexI [of _ "last xs"])
      have fp: "findPlace st ?q None (headPacket b) =
          Some (if sq st (hd vs) = ?q then Duplicate else Place (if us = [] then None else Some (last us)) (Some (hd vs)))"
        using findPlace_spec [OF inv'(1,5) 3(1), of None] vs0 unfolding us_def vs_def sa Let_def
        by (simp del: dropWhile_eq_Nil_conv)
      show ?thesis
      proof (cases "?q \<in> sq st ` set xs")
        case True
        have "storePacket a st b = Some (False, st, b)"
        proof (cases "?q = rtpSeqNo tp")
          case False
          have "\<forall>x \<in> set us. ?f x < off ?n ?q" using sa set_takeWhileD by (fastforce simp: us_def)
          moreover have "\<not> ?f (hd vs) < off ?n ?q"
            using vs0 hd_dropWhile [of "\<lambda>y. ?f y < ?f a" xs] sa by (simp add: vs_def)
          ultimately have "sq st (hd vs) = ?q" using walk_hits [of st b us vs ?q] inv uv True vs0 by simp
          then show ?thesis using known lt_n inv'(2) 3 tp notlast lt_t False fp by simp
        qed (use known lt_n inv'(2) 3 tp notlast lt_t in simp)
        then show ?thesis using rejectedI [OF inv] True sa by simp
      next
        case False
        have ins: "insort_key ?f a xs = us @ a # vs" by (simp add: insort_split us_def vs_def)
        have nt: "?q \<noteq> rtpSeqNo tp" using False stp 3(2) by (metis image_eqI last_in_set)
        have nh: "sq st (hd vs) \<noteq> ?q" using False hd_in_set [OF vs0] uv by (metis UnCI image_eqI set_append)
        have fr: "sq st a \<notin> sq st ` set xs" using False sa by simp
        note ins_lemmas = store_inside [OF inv a 3(1) fr uv vs0 ins]
        show ?thesis
        proof (cases "us = []")
          case True
          then show ?thesis using ins_lemmas(1) known lt_n inv'(2) 3 tp notlast lt_t nt nh fp by simp
        next
          case False
          then have uin: "last us \<in> set xs" using uv by simp
          then obtain up where up: "st (last us) = Some up" using lseg_mem [OF inv'(1)] by blast
          have "last us \<noteq> a" using uin a(2) by auto
          then show ?thesis using ins_lemmas(2) [OF False up] known lt_n inv'(2) 3 tp notlast lt_t nt nh fp False up
            by simp
        qed
      qed
    qed
  qed
qed



section \<open>Storing a run of packets\<close>

fun store_all :: "nat list \<Rightarrow> packet_store \<Rightarrow> ReorderingPacketBuffer \<Rightarrow> (packet_store \<times> ReorderingPacketBuffer) option" where
  "store_all [] st b = Some (st, b)"
| "store_all (a # as) st b = do { (_, st', b') \<leftarrow> storePacket a st b; store_all as st' b' }"

text \<open>The packets are there, with 16-bit numbers none of which is exactly half a cycle from \<open>n\<close>.\<close>

definition arrivals :: "nat \<Rightarrow> packet_store \<Rightarrow> nat list \<Rightarrow> bool" where
  "arrivals n st as \<longleftrightarrow> distinct as \<and>
     (\<forall>a \<in> set as. a \<in> dom st \<and> sq st a < 65536 \<and> off n (sq st a) \<noteq> 0x8000)"

lemma store_all_stored:
  assumes "stored st b xs" "arrivals (nextExpectedSeqNo b) st as" "set xs \<inter> set as = {}"
  shows "\<exists>st' b' ys. store_all as st b = Some (st', b') \<and> stored st' b' ys \<and> nextExpectedSeqNo b' = nextExpectedSeqNo b \<and>
    sq st' = sq st \<and>
    sq st ` set ys = sq st ` set xs \<union> {q \<in> sq st ` set as. in_window (nextExpectedSeqNo b) q}"
  using assms
proof (induction as arbitrary: st b xs)
  case Nil
  then show ?case by auto
next
  case (Cons a as)
  let ?n = "nextExpectedSeqNo b"
  obtain p where p: "st a = Some p" "rtpSeqNo p < 65536" "off ?n (rtpSeqNo p) \<noteq> 0x8000"
    using Cons.prems(2) by (auto simp: arrivals_def sq_def)
  have ins: "inserted a st b xs (storePacket a st b)"
    using storePacket_correct [OF Cons.prems(1) p(1) _ p(2,3)] Cons.prems(3) by simp
  then obtain ok st1 b1 where s: "storePacket a st b = Some (ok, st1, b1)" "nextExpectedSeqNo b1 = ?n" "sq st1 = sq st" "dom st1 = dom st" "content st1 = content st"
    "ok \<longleftrightarrow> in_window ?n (sq st a) \<and> sq st a \<notin> sq st ` set xs"
    "stored st1 b1 (if ok then insort_key (\<lambda>x. off ?n (sq st x)) a xs else xs)"
    by (auto simp: inserted_def Let_def split: option.splits)
  define xs1 where "xs1 = (if ok then insort_key (\<lambda>x. off ?n (sq st x)) a xs else xs)"
  have set1: "set xs1 = (if ok then insert a (set xs) else set xs)" by (simp add: xs1_def set_insort_key)
  have arr: "arrivals (nextExpectedSeqNo b1) st1 as"
    using Cons.prems(2) s(2-4) by (simp add: arrivals_def)
  have "set xs1 \<inter> set as = {}" using Cons.prems(2,3) set1 by (auto simp: arrivals_def)
  then obtain st' b' ys where ys: "store_all as st1 b1 = Some (st', b')" "stored st' b' ys"
    "nextExpectedSeqNo b' = ?n" "sq st' = sq st"
    "sq st ` set ys = sq st ` set xs1 \<union> {q \<in> sq st ` set as. in_window ?n q}"
    using Cons.IH [of st1 b1 xs1] s arr by (auto simp: xs1_def)
  moreover have "sq st ` set xs1 \<union> {q \<in> sq st ` set as. in_window ?n q}
      = sq st ` set xs \<union> {q \<in> sq st ` set (a # as). in_window ?n q}"
    using s(6) set1 Cons.prems(1) by (auto simp: stored_def)
  ultimately show ?case using s(1) by auto
qed

lemma store_first:
  assumes "st a = Some p" "rtpSeqNo p < 65536"
  shows "\<exists>st' b'. storePacket a st newReorderingPacketBuffer = Some (True, st', b') \<and> stored st' b' [a] \<and>
    nextExpectedSeqNo b' = rtpSeqNo p \<and> sq st' = sq st \<and> dom st' = dom st"
proof -
  let ?st' = "st(a \<mapsto> p\<lparr>firstPacketFlag := True, nextPacket := None\<rparr>)"
  let ?b' = "newReorderingPacketBuffer\<lparr>nextExpectedSeqNo := rtpSeqNo p, haveSeenFirstPacket := True,
    headPacket := Some a, tailPacket := Some a\<rparr>"
  have f: "rtpSeqNo (p\<lparr>firstPacketFlag := True, nextPacket := None\<rparr>) = rtpSeqNo p" by (simp add: rtpSeqNo_def)
  have s: "sq ?st' = sq st" using sq_update [of st a p, OF assms(1) f] .
  have "sq st a = rtpSeqNo p" using assms(1) by (simp add: sq_def)
  then have "stored ?st' ?b' [a]"
    unfolding stored_def s using assms by (simp add: in_window_def off_def)
  moreover have "storePacket a st newReorderingPacketBuffer = Some (True, ?st', ?b')"
    using assms by (simp add: storePacket_def newReorderingPacketBuffer_def Let_def)
  moreover have "dom ?st' = dom st" using assms(1) by auto
  ultimately show ?thesis using s by auto
qed

text \<open>C4. From an empty buffer, packets that arrive in any order, with duplicates and losses, leave the
  buffer holding each sequence number that is in the window of the first packet exactly once, in order.\<close>

theorem arrivals_end_up_in_order:
  assumes "st a = Some p" and "rtpSeqNo p < 65536" and "arrivals (rtpSeqNo p) st (a # as)"
  shows "\<exists>st' b' ys. store_all (a # as) st newReorderingPacketBuffer = Some (st', b') \<and>
    lseg st' (headPacket b') ys None \<and>
    sorted_wrt (\<lambda>x y. off (rtpSeqNo p) (sq st x) < off (rtpSeqNo p) (sq st y)) ys \<and>
    sq st ` set ys = {q \<in> sq st ` set (a # as). in_window (rtpSeqNo p) q}"
proof -
  obtain st1 b1 where s: "storePacket a st newReorderingPacketBuffer = Some (True, st1, b1)" "stored st1 b1 [a]"
    "nextExpectedSeqNo b1 = rtpSeqNo p" "sq st1 = sq st" "dom st1 = dom st"
    using store_first [of st a p] assms(1,2) by auto
  have arr: "arrivals (nextExpectedSeqNo b1) st1 as" "set [a] \<inter> set as = {}"
    using assms(3) s(3-5) by (simp_all add: arrivals_def)
  obtain st' b' ys where ys: "store_all as st1 b1 = Some (st', b')" "stored st' b' ys"
    "nextExpectedSeqNo b' = rtpSeqNo p" "sq st' = sq st"
    "sq st ` set ys = sq st ` set [a] \<union> {q \<in> sq st ` set as. in_window (rtpSeqNo p) q}"
    using store_all_stored [OF s(2) arr] unfolding s(3,4) by blast
  have "in_window (rtpSeqNo p) (sq st a)" using assms(1,2) by (simp add: sq_def in_window_def off_def)
  then have "sq st ` set ys = {q \<in> sq st ` set (a # as). in_window (rtpSeqNo p) q}" using ys(5) by auto
  moreover have "store_all (a # as) st newReorderingPacketBuffer = Some (st', b')" using s(1) ys(1) by simp
  ultimately show ?thesis using ys by (auto simp: stored_def sorted_wrt_map)
qed

lemma arrivals_end_up_in_order_witness:
  "let mk = (\<lambda>q. newBufferedPacket\<lparr>RTPSeqNo := q\<rparr>);
       st = [0 \<mapsto> mk 65534, 1 \<mapsto> mk 2, 2 \<mapsto> mk 65535, 3 \<mapsto> mk 2, 4 \<mapsto> mk 0, 5 \<mapsto> mk 65530]
   in \<exists>st' b' ys. store_all [0, 1, 2, 3, 4, 5] st newReorderingPacketBuffer = Some (st', b') \<and>
        lseg st' (headPacket b') ys None \<and>
        sorted_wrt (\<lambda>x y. off 65534 (sq st x) < off 65534 (sq st y)) ys \<and> sq st ` set ys = {65534, 65535, 0, 2}"
proof -
  let ?mk = "\<lambda>q. newBufferedPacket\<lparr>RTPSeqNo := q\<rparr>"
  let ?st = "[0 \<mapsto> ?mk 65534, 1 \<mapsto> ?mk 2, 2 \<mapsto> ?mk 65535, 3 \<mapsto> ?mk 2, 4 \<mapsto> ?mk 0, 5 \<mapsto> ?mk 65530] :: packet_store"
  have q: "rtpSeqNo (?mk 65534) = 65534" by (simp add: rtpSeqNo_def)
  have s: "sq ?st 0 = 65534" "sq ?st 1 = 2" "sq ?st 2 = 65535" "sq ?st 3 = 2" "sq ?st 4 = 0" "sq ?st 5 = 65530"
    by (simp_all add: sq_def rtpSeqNo_def)
  have arr: "arrivals (rtpSeqNo (?mk 65534)) ?st (0 # [1, 2, 3, 4, 5])"
    unfolding arrivals_def q by (simp add: sq_def rtpSeqNo_def off_def)
  have im: "{q' \<in> sq ?st ` set (0 # [1, 2, 3, 4, 5]). in_window 65534 q'} = {65534, 65535, 0, 2}"
    by (auto simp: sq_def rtpSeqNo_def in_window_def off_def)
  have z: "?st 0 = Some (?mk 65534)" "rtpSeqNo (?mk 65534) < 65536" by (simp_all add: rtpSeqNo_def)
  show ?thesis
    using arrivals_end_up_in_order [OF z arr] by (simp only: q im Let_def)
qed

section \<open>Releasing a packet breaks the tail\<close>

text \<open>
  \<open>releaseUsedPacket\<close> means to clear the tail when the list becomes empty, and tests for the
  opposite.
\<close>

lemma release_head:
  assumes "stored st b (x # xs)" "nextExpectedSeqNo b < 65535"
  shows "\<exists>px. st x = Some px \<and> releaseUsedPacket x st b = Some (st(x \<mapsto> px\<lparr>nextPacket := None\<rparr>),
      b\<lparr>nextExpectedSeqNo := nextExpectedSeqNo b + 1, headPacket := (if xs = [] then None else Some (hd xs)),
        tailPacket := (if xs = [] then Some x else None)\<rparr>)"
proof -
  obtain px where px: "st x = Some px" "headPacket b = Some x" "lseg st (nextPacket px) xs None" "tailPacket b = Some (last (x # xs))"
    using assms(1) by (auto simp: stored_def split: option.splits)
  moreover have "nextPacket px = (if xs = [] then None else Some (hd xs))" using lseg_head [OF px(3)] .
  ultimately show ?thesis using assms(2) by (auto simp: releaseUsedPacket_def Let_def)
qed

text \<open>A buffer that has lost its head: the last packet released or stored, \<open>t\<close>, is still its tail. A packet that comes after
  the tail is linked to it, out of reach of the head.\<close>

definition headless :: "nat \<Rightarrow> packet_store \<Rightarrow> ReorderingPacketBuffer \<Rightarrow> nat \<Rightarrow> bool" where
  "headless n st b t \<longleftrightarrow> headPacket b = None \<and> tailPacket b = Some t \<and> haveSeenFirstPacket b \<and> nextExpectedSeqNo b = n + 1 \<and>
     n < 65535 \<and> t \<in> dom st \<and> in_window n (sq st t)"

lemma after_expected:
  assumes "in_window n q" and "0 < off n q" and "n < 65535"
  shows "\<not> seqNumLT (int q) (int (n + 1))"
proof -
  have m: "int (off n q) = (int q - int n) mod 65536" by (simp add: off_def)
  have "(int q - int n - 1) mod 65536 = (int (off n q) - 1) mod 65536" unfolding m by (simp add: mod_diff_left_eq)
  also have "\<dots> = int (off n q) - 1" using assms(1,2) by (intro mod_pos_pos_trivial) (simp_all add: in_window_def)
  finally have o: "off (n + 1) q = off n q - 1" using assms(2) by (simp add: off_def algebra_simps)
  moreover have "in_window (n + 1) q" using o assms(1) unfolding in_window_def by linarith
  ultimately show ?thesis using expected_LT [of "n + 1" q] assms by (simp add: in_window_def)
qed

lemma headless_store:
  assumes "headless n st b t" and "z \<in> dom st" and "in_window n (sq st z)" and "off n (sq st t) < off n (sq st z)"
  shows "\<exists>st' b'. storePacket z st b = Some (True, st', b') \<and> headless n st' b' z \<and> sq st' = sq st \<and> dom st' = dom st"
proof -
  have b: "headPacket b = None" "tailPacket b = Some t" "haveSeenFirstPacket b" "nextExpectedSeqNo b = n + 1" "n < 65535" "in_window n (sq st t)"
    using assms(1) by (simp_all add: headless_def)
  obtain pt pz where p: "st t = Some pt" "st z = Some pz" "z \<noteq> t" using assms(1,2,4) by (auto simp: headless_def)
  then have q: "sq st t = rtpSeqNo pt" "sq st z = rtpSeqNo pz" by (simp_all add: sq_def)
  have "\<not> seqNumLT (int (rtpSeqNo pz)) (int (n + 1))" using after_expected [OF assms(3) _ b(5)] assms(4) q by simp
  moreover have "seqNumLT (int (rtpSeqNo pt)) (int (rtpSeqNo pz))" using window_LT [OF b(6) assms(3)] assms(4) q by simp
  ultimately have run: "storePacket z st b = Some (True, st(z \<mapsto> pz\<lparr>nextPacket := None\<rparr>, t \<mapsto> pt\<lparr>nextPacket := Some z\<rparr>), b\<lparr>tailPacket := Some z\<rparr>)"
    using b p by (simp add: storePacket_def Let_def)
  define st' where "st' = st(z \<mapsto> pz\<lparr>nextPacket := None\<rparr>, t \<mapsto> pt\<lparr>nextPacket := Some z\<rparr>)"
  have s: "sq st' = sq st" using p by (auto simp: st'_def sq_def rtpSeqNo_def fun_eq_iff)
  have d: "dom st' = dom st" using p by (auto simp: st'_def)
  have "headless n st' (b\<lparr>tailPacket := Some z\<rparr>) z" using b assms(2,3) s d by (auto simp: headless_def)
  then show ?thesis using run s d unfolding st'_def by blast
qed

lemma headless_store_all:
  assumes "headless n st b t" and "\<forall>a \<in> set zs. a \<in> dom st \<and> in_window n (sq st a)"
    and "sorted_wrt (\<lambda>a c. off n (sq st a) < off n (sq st c)) (t # zs)"
  shows "\<exists>st' b'. store_all zs st b = Some (st', b') \<and> headless n st' b' (last (t # zs)) \<and> sq st' = sq st \<and> dom st' = dom st"
  using assms
proof (induction zs arbitrary: st b t)
  case (Cons z zs)
  obtain st1 b1 where 1: "storePacket z st b = Some (True, st1, b1)" "headless n st1 b1 z" "sq st1 = sq st" "dom st1 = dom st"
    using headless_store [of n st b t z] Cons.prems by auto
  obtain st' b' where "store_all zs st1 b1 = Some (st', b')" "headless n st' b' (last (z # zs))" "sq st' = sq st1" "dom st' = dom st1"
    using Cons.IH [OF 1(2)] Cons.prems 1(3,4) by auto
  then show ?case using 1 by auto
qed simp



text \<open>A late packet: after 7 has been released and 8 and 10 have been stored, 9 becomes the head.\<close>

lemma late_packet_becomes_head:
  "let mk = \<lambda>q. newBufferedPacket\<lparr>RTPSeqNo := q\<rparr>; st = [0 \<mapsto> mk 7, 1 \<mapsto> mk 8, 2 \<mapsto> mk 10, 3 \<mapsto> mk 9];
       b = newReorderingPacketBuffer\<lparr>headPacket := Some 0, tailPacket := Some 0, haveSeenFirstPacket := True,
             nextExpectedSeqNo := 7\<rparr>
   in \<exists>st1 b1 st2 b2. releaseUsedPacket 0 st b = Some (st1, b1) \<and> store_all [1, 2, 3] st1 b1 = Some (st2, b2) \<and>
        headPacket b2 = Some 3"
  by (simp add: releaseUsedPacket_def storePacket_def newReorderingPacketBuffer_def newBufferedPacket_def rtpSeqNo_def seqNumLT_def
    findPlace.simps uadd_def Let_def)

text \<open>When packets still wait after a release, the next packet stored takes their place: the list then holds
  that packet alone and the waiting ones are lost.\<close>

theorem release_drops_waiting_packets:
  assumes "stored st b (x # y # ys)" and "nextExpectedSeqNo b < 65535" and "st z = Some pz" "z \<noteq> x"
    and "\<not> seqNumLT (int (rtpSeqNo pz)) (int (nextExpectedSeqNo b + 1))"
  shows "\<exists>st1 b1 st2 b2. releaseUsedPacket x st b = Some (st1, b1) \<and> storePacket z st1 b1 = Some (True, st2, b2) \<and>
    lseg st1 (headPacket b1) (y # ys) None \<and> lseg st2 (headPacket b2) [z] None"
proof -
  obtain px where px: "st x = Some px" "releaseUsedPacket x st b = Some (st(x \<mapsto> px\<lparr>nextPacket := None\<rparr>),
      b\<lparr>nextExpectedSeqNo := nextExpectedSeqNo b + 1, headPacket := Some y, tailPacket := None\<rparr>)"
    using release_head [OF assms(1,2)] by auto
  have "lseg st (Some y) (y # ys) None" "x \<notin> set (y # ys)" "haveSeenFirstPacket b"
    using assms(1) px(1) by (auto simp: stored_def split: option.splits)
  moreover from this have "lseg (st(x \<mapsto> px\<lparr>nextPacket := None\<rparr>)) (Some y) (y # ys) None"
    by (intro lseg_frame [THEN iffD2])
  ultimately show ?thesis using px assms by (simp add: storePacket_def Let_def del: lseg.simps(2)) simp
qed

lemma release_drops_waiting_packets_witness:
  "let st = [0 \<mapsto> newBufferedPacket\<lparr>RTPSeqNo := 7, nextPacket := Some 1\<rparr>, 1 \<mapsto> newBufferedPacket\<lparr>RTPSeqNo := 8\<rparr>,
             2 \<mapsto> newBufferedPacket\<lparr>RTPSeqNo := 9\<rparr>];
       b = newReorderingPacketBuffer\<lparr>headPacket := Some 0, tailPacket := Some 1, haveSeenFirstPacket := True,
             nextExpectedSeqNo := 7\<rparr>
   in \<exists>st1 b1 st2 b2. releaseUsedPacket 0 st b = Some (st1, b1) \<and> storePacket 2 st1 b1 = Some (True, st2, b2) \<and>
        lseg st1 (headPacket b1) [1] None \<and> lseg st2 (headPacket b2) [2] None"
  unfolding Let_def
  by (rule release_drops_waiting_packets [where pz = "newBufferedPacket\<lparr>RTPSeqNo := 9\<rparr>"])
    (simp_all add: stored_def newReorderingPacketBuffer_def newBufferedPacket_def sq_def rtpSeqNo_def in_window_def
      off_def seqNumLT_def)

end
