(* ===== verification/RtpStats.thy ===== *)
theory RtpStats
  imports GoFloat Binary
begin

text \<open>
  \<^verbatim>\<open>livemedia/rtp_reception_stats_linux_amd64.go\<close> and
  \<^verbatim>\<open>livemedia/rtp_transmission_stats.go\<close>: the statistics that RTCP reports are made of.

  The clock is an argument: \<open>timeNow\<close> is what \<open>Gettimeofday\<close> stored. The records of a table are
  reached through the table only, so the map of pointers is a map of records.
\<close>

section \<open>RTPReceptionStats\<close>

record RTPReceptionStats =
  rs_ssrc :: u32
  syncTimestamp :: u32
  totBytesReceivedHi :: u32
  totBytesReceivedLo :: u32
  lastReceivedSRNTPmsw :: u32
  lastReceivedSRNTPlsw :: u32
  baseExtSeqNumReceived :: u32
  totNumPacketsReceived :: u32
  highestExtSeqNumReceived :: u32
  previousPacketRTPTimestamp :: u32
  lastResetExtSeqNumReceived :: u32
  numPacketsReceivedSinceLastReset :: u32
  minInterPacketGapUS :: int
  maxInterPacketGapUS :: int
  lastTransit :: int
  syncTime :: timeval
  lastReceivedSRTime :: timeval
  lastPacketReceptionTime :: timeval
  totalInterPacketGaps :: timeval
  hasBeenSynchronized :: bool
  haveSeenInitialSequenceNumber :: bool
  rs_jitter :: float

text \<open>\<open>new(RTPReceptionStats)\<close>: every field has its zero value.\<close>

definition zero_stats :: RTPReceptionStats where
  "zero_stats =
     \<lparr>rs_ssrc = 0, syncTimestamp = 0, totBytesReceivedHi = 0, totBytesReceivedLo = 0,
      lastReceivedSRNTPmsw = 0, lastReceivedSRNTPlsw = 0, baseExtSeqNumReceived = 0,
      totNumPacketsReceived = 0, highestExtSeqNumReceived = 0, previousPacketRTPTimestamp = 0,
      lastResetExtSeqNumReceived = 0, numPacketsReceivedSinceLastReset = 0,
      minInterPacketGapUS = 0, maxInterPacketGapUS = 0, lastTransit = 0,
      syncTime = tv_zero, lastReceivedSRTime = tv_zero, lastPacketReceptionTime = tv_zero,
      totalInterPacketGaps = tv_zero, hasBeenSynchronized = False,
      haveSeenInitialSequenceNumber = False, rs_jitter = Fin 0\<rparr>"

definition stats_reset :: "RTPReceptionStats \<Rightarrow> RTPReceptionStats" where
  "stats_reset s =
     s\<lparr>numPacketsReceivedSinceLastReset := 0,
       lastResetExtSeqNumReceived := highestExtSeqNumReceived s\<rparr>"

definition stats_init :: "u32 \<Rightarrow> RTPReceptionStats \<Rightarrow> RTPReceptionStats" where
  "stats_init ssrc s =
     stats_reset
       (s\<lparr>rs_ssrc := ssrc, totNumPacketsReceived := 0, totBytesReceivedHi := 0,
          totBytesReceivedLo := 0, haveSeenInitialSequenceNumber := False, lastTransit := -1,
          previousPacketRTPTimestamp := 0, rs_jitter := Fin 0, lastReceivedSRNTPmsw := 0,
          lastReceivedSRNTPlsw := 0, lastReceivedSRTime := tv_zero,
          lastPacketReceptionTime := tv_zero, minInterPacketGapUS := 0x7FFFFFFF,
          maxInterPacketGapUS := 0, totalInterPacketGaps := tv_zero,
          hasBeenSynchronized := False, syncTime := tv_zero\<rparr>)"

definition initSeqNum :: "u32 \<Rightarrow> RTPReceptionStats \<Rightarrow> RTPReceptionStats" where
  "initSeqNum initialSeqNum s =
     s\<lparr>baseExtSeqNumReceived := 0x10000 OR initialSeqNum,
       highestExtSeqNumReceived := 0x10000 OR initialSeqNum,
       haveSeenInitialSequenceNumber := True\<rparr>"

definition newRTPReceptionStats :: "u32 \<Rightarrow> u32 \<Rightarrow> RTPReceptionStats" where
  "newRTPReceptionStats ssrc seqNum = initSeqNum seqNum (stats_init ssrc zero_stats)"

text \<open>\<open>noteIncomingPacket\<close>, in the order of its parts: the counters,\<close>

definition noteCounts :: "u32 \<Rightarrow> RTPReceptionStats \<Rightarrow> RTPReceptionStats" where
  "noteCounts packetSize s =
     (let lo = totBytesReceivedLo s + packetSize
      in s\<lparr>numPacketsReceivedSinceLastReset := numPacketsReceivedSinceLastReset s + 1,
           totNumPacketsReceived := totNumPacketsReceived s + 1,
           totBytesReceivedLo := lo,
           totBytesReceivedHi :=
             (if lo < totBytesReceivedLo s then totBytesReceivedHi s + 1 else totBytesReceivedHi s)\<rparr>)"

text \<open>the sequence number,\<close>

definition noteSeqNum :: "u32 \<Rightarrow> RTPReceptionStats \<Rightarrow> RTPReceptionStats" where
  "noteSeqNum seqNum s =
     (let oldSeqNum = highestExtSeqNumReceived s AND 0xFFFF;
          seqNumCycle = highestExtSeqNumReceived s AND 0xFFFF0000;
          seqNumDifference = seqNum - oldSeqNum
      in if seqNumLT (uint oldSeqNum) (uint seqNum) then
           (let cycle = (if seqNumDifference \<ge> 0x8000 then seqNumCycle + 0x10000 else seqNumCycle);
                newSeqNum = cycle OR seqNum
            in if newSeqNum > highestExtSeqNumReceived s
               then s\<lparr>highestExtSeqNumReceived := newSeqNum\<rparr> else s)
         else if totNumPacketsReceived s > 1 then
           (let cycle = (if seqNumDifference \<ge> 0x8000 then seqNumCycle - 0x10000 else seqNumCycle);
                newSeqNum = cycle OR seqNum
            in if newSeqNum < baseExtSeqNumReceived s
               then s\<lparr>baseExtSeqNumReceived := newSeqNum\<rparr> else s)
         else s)"

text \<open>the gap to the previous packet,\<close>

definition noteGap :: "timeval \<Rightarrow> RTPReceptionStats \<Rightarrow> RTPReceptionStats" where
  "noteGap timeNow s =
     (let lastT = lastPacketReceptionTime s;
          s1 = (if tv_sec lastT \<noteq> 0 \<or> tv_usec lastT \<noteq> 0 then
                  (let gap = i64 (i64 (i64 (i64 (tv_sec timeNow - tv_sec lastT) * 1000000) + tv_usec timeNow)
                               - tv_usec lastT);
                       t = totalInterPacketGaps s;
                       us = i64 (tv_usec t + gap)
                   in s\<lparr>maxInterPacketGapUS := (if gap > maxInterPacketGapUS s then gap else maxInterPacketGapUS s),
                        minInterPacketGapUS := (if gap < minInterPacketGapUS s then gap else minInterPacketGapUS s),
                        totalInterPacketGaps :=
                          (if us \<ge> 1000000 then \<lparr>tv_sec = i64 (tv_sec t + 1), tv_usec = us - 1000000\<rparr>
                           else t\<lparr>tv_usec := us\<rparr>)\<rparr>)
                else s)
      in s1\<lparr>lastPacketReceptionTime := timeNow\<rparr>)"

text \<open>the jitter (RFC 3550, A.8),\<close>

definition noteJitter :: "u32 \<Rightarrow> u32 \<Rightarrow> bool \<Rightarrow> timeval \<Rightarrow> RTPReceptionStats \<Rightarrow> RTPReceptionStats" where
  "noteJitter rtpTimestamp timestampFrequency useForJitterCalculation timeNow s =
     (if useForJitterCalculation \<and> rtpTimestamp \<noteq> previousPacketRTPTimestamp s then
        (let freq = uint timestampFrequency;
             whole = i64 (freq * tv_sec timeNow);
             arrival = i64 (whole + i64 (i64 (2 * freq) * tv_usec timeNow + 1000000) sdiv 2000000);
             transit = i64 (arrival - uint rtpTimestamp);
             lastT = (if lastTransit s = -1 then transit else lastTransit s);
             d0 = i64 (transit - lastT);
             d = (if d0 < 0 then i64 (- d0) else d0)
         in s\<lparr>lastTransit := transit,
              rs_jitter := fl_add F32 (rs_jitter s)
                (fl_mul F32 (Fin (1 / 16)) (fl_sub F32 (fl_of_int F32 d) (rs_jitter s)))\<rparr>)
      else s)"

text \<open>and the presentation time.\<close>

definition fl_million :: float where "fl_million = Fin 1000000"

definition notePresentation :: "u32 \<Rightarrow> u32 \<Rightarrow> timeval \<Rightarrow> RTPReceptionStats \<Rightarrow> timeval \<times> bool \<times> RTPReceptionStats" where
  "notePresentation rtpTimestamp timestampFrequency timeNow s =
     (let s1 = (if tv_sec (syncTime s) = 0 \<and> tv_usec (syncTime s) = 0
                then s\<lparr>syncTimestamp := rtpTimestamp, syncTime := timeNow\<rparr> else s);
          timestampDiff = rtpTimestamp - syncTimestamp s1;
          timeDiff = fl_div F32 (fl_of_int F32 (uint timestampDiff)) (fl_of_int F32 (uint timestampFrequency));
          (seconds, uSeconds) =
            (if fl_le (Fin 0) timeDiff then
               (let secs = fl_to_int64 timeDiff;
                    frac = fl_mul F32 (fl_sub F32 timeDiff (fl_of_int F32 secs)) fl_million;
                    seconds = i64 (tv_sec (syncTime s1) + secs);
                    uSeconds = i64 (tv_usec (syncTime s1) + fl_to_int64 frac)
                in if uSeconds \<ge> 1000000 then (i64 (seconds + 1), uSeconds - 1000000)
                   else (seconds, uSeconds))
             else
               (let timeDiff' = fl_neg timeDiff;
                    secs = fl_to_int64 timeDiff';
                    frac = fl_mul F32 (fl_sub F32 timeDiff' (fl_of_int F32 secs)) fl_million;
                    seconds = i64 (tv_sec (syncTime s1) - secs);
                    uSeconds = i64 (tv_usec (syncTime s1) - fl_to_int64 frac)
                in if uSeconds < 0 then (i64 (seconds - 1), uSeconds + 1000000)
                   else (seconds, uSeconds)));
          resultPresentationTime = \<lparr>tv_sec = seconds, tv_usec = uSeconds\<rparr>
      in (resultPresentationTime, hasBeenSynchronized s1,
          s1\<lparr>syncTimestamp := rtpTimestamp, syncTime := resultPresentationTime,
             previousPacketRTPTimestamp := rtpTimestamp\<rparr>))"

definition noteIncomingPacket ::
  "u32 \<Rightarrow> u32 \<Rightarrow> u32 \<Rightarrow> u32 \<Rightarrow> bool \<Rightarrow> timeval \<Rightarrow> RTPReceptionStats \<Rightarrow> timeval \<times> bool \<times> RTPReceptionStats" where
  "noteIncomingPacket seqNum rtpTimestamp timestampFrequency packetSize useForJitterCalculation timeNow s =
     (let s0 = (if \<not> haveSeenInitialSequenceNumber s then initSeqNum seqNum s else s);
          s1 = noteCounts packetSize s0;
          s2 = noteSeqNum seqNum s1;
          s3 = noteGap timeNow s2;
          s4 = noteJitter rtpTimestamp timestampFrequency useForJitterCalculation timeNow s3
      in notePresentation rtpTimestamp timestampFrequency timeNow s4)"

text \<open>\<open>ntpTimestampLSW * 15625\<close> is a \<open>uint32\<close> product: it wraps before the division.\<close>

definition stats_noteIncomingSR :: "u32 \<Rightarrow> u32 \<Rightarrow> u32 \<Rightarrow> timeval \<Rightarrow> RTPReceptionStats \<Rightarrow> RTPReceptionStats" where
  "stats_noteIncomingSR ntpTimestampMSW ntpTimestampLSW rtpTimestamp timeNow s =
     s\<lparr>lastReceivedSRNTPmsw := ntpTimestampMSW,
       lastReceivedSRNTPlsw := ntpTimestampLSW,
       lastReceivedSRTime := timeNow,
       syncTimestamp := rtpTimestamp,
       syncTime :=
         \<lparr>tv_sec = uint (ntpTimestampMSW - 0x83AA7E80),
          tv_usec = fl_to_int64 (fl_add F32 (fl_of_int F32 (uint ((ntpTimestampLSW * 15625) div 0x04000000)))
                                            (Fin (1 / 2)))\<rparr>,
       hasBeenSynchronized := True\<rparr>"

section \<open>RTPReceptionStatsDB\<close>

record RTPReceptionStatsDB =
  rdb_table :: "u32 \<rightharpoonup> RTPReceptionStats"
  rdb_totNumPacketsReceived :: u32
  numActiveSourcesSinceLastReset :: u32

definition newRTPReceptionStatsDB :: RTPReceptionStatsDB where
  "newRTPReceptionStatsDB =
     \<lparr>rdb_table = Map.empty, rdb_totNumPacketsReceived = 0, numActiveSourcesSinceLastReset = 0\<rparr>"

definition rdb_add :: "u32 \<Rightarrow> RTPReceptionStats \<Rightarrow> RTPReceptionStatsDB \<Rightarrow> RTPReceptionStatsDB" where
  "rdb_add ssrc s d = d\<lparr>rdb_table := (rdb_table d)(ssrc \<mapsto> s)\<rparr>"

definition rdb_lookup :: "RTPReceptionStatsDB \<Rightarrow> u32 \<Rightarrow> RTPReceptionStats option" where
  "rdb_lookup d ssrc = rdb_table d ssrc"

definition rdb_noteIncomingPacket ::
  "u32 \<Rightarrow> u32 \<Rightarrow> u32 \<Rightarrow> u32 \<Rightarrow> u32 \<Rightarrow> bool \<Rightarrow> timeval \<Rightarrow> RTPReceptionStatsDB \<Rightarrow>
     timeval \<times> bool \<times> RTPReceptionStatsDB" where
  "rdb_noteIncomingPacket ssrc seqNum rtpTimestamp timestampFrequency packetSize useForJitterCalculation timeNow d =
     (let d1 = d\<lparr>rdb_totNumPacketsReceived := rdb_totNumPacketsReceived d + 1\<rparr>;
          s = (case rdb_lookup d1 ssrc of None \<Rightarrow> newRTPReceptionStats ssrc seqNum | Some s \<Rightarrow> s);
          d2 = (if numPacketsReceivedSinceLastReset s = 0
                then d1\<lparr>numActiveSourcesSinceLastReset := numActiveSourcesSinceLastReset d1 + 1\<rparr> else d1);
          (pt, synced, s') = noteIncomingPacket seqNum rtpTimestamp timestampFrequency packetSize
                               useForJitterCalculation timeNow s
      in (pt, synced, rdb_add ssrc s' d2))"

definition rdb_noteIncomingSR :: "u32 \<Rightarrow> u32 \<Rightarrow> u32 \<Rightarrow> u32 \<Rightarrow> timeval \<Rightarrow> RTPReceptionStatsDB \<Rightarrow> RTPReceptionStatsDB" where
  "rdb_noteIncomingSR ssrc ntpTimestampMSW ntpTimestampLSW rtpTimestamp timeNow d =
     (let s = (case rdb_lookup d ssrc of None \<Rightarrow> newRTPReceptionStats ssrc 0 | Some s \<Rightarrow> s)
      in rdb_add ssrc (stats_noteIncomingSR ntpTimestampMSW ntpTimestampLSW rtpTimestamp timeNow s) d)"

section \<open>RTPTransmissionStats\<close>

text \<open>
  The sink's counters, read through the \<open>sink\<close> pointer, are arguments. \<open>newRTPTransmissionStats\<close>
  sets \<open>ssrc\<close> and \<open>sink\<close> only.
\<close>

record RTPTransmissionStats =
  ts_ssrc :: u32
  ts_jitter :: u32
  lastSRTime :: u32
  diffSRRRTime :: u32
  lastOctetCount :: u32
  lastPacketCount :: u32
  packetLossRatio :: u32
  totNumPacketsLost :: u32
  totalOctetCountLo :: u32
  totalOctetCountHi :: u32
  totalPacketCountLo :: u32
  totalPacketCountHi :: u32
  lastPacketNumReceived :: u32
  firstPacketNumReported :: u32
  oldLastPacketNumReceived :: u32
  oldTotNumPacketsLost :: u32
  lastFromAddress :: string
  atLeastTwoRRsHaveBeenReceived :: bool
  firstPacket :: bool
  timeCreated :: timeval
  ts_timeReceived :: timeval

definition newRTPTransmissionStats :: "u32 \<Rightarrow> RTPTransmissionStats" where
  "newRTPTransmissionStats ssrc =
     \<lparr>ts_ssrc = ssrc, ts_jitter = 0, lastSRTime = 0, diffSRRRTime = 0, lastOctetCount = 0,
      lastPacketCount = 0, packetLossRatio = 0, totNumPacketsLost = 0, totalOctetCountLo = 0,
      totalOctetCountHi = 0, totalPacketCountLo = 0, totalPacketCountHi = 0,
      lastPacketNumReceived = 0, firstPacketNumReported = 0, oldLastPacketNumReceived = 0,
      oldTotNumPacketsLost = 0, lastFromAddress = '''', atLeastTwoRRsHaveBeenReceived = False,
      firstPacket = False, timeCreated = tv_zero, ts_timeReceived = tv_zero\<rparr>"

definition noteIncomingRR ::
  "u64 \<Rightarrow> u64 \<Rightarrow> string \<Rightarrow> u32 \<Rightarrow> u32 \<Rightarrow> u32 \<Rightarrow> u32 \<Rightarrow> u32 \<Rightarrow> timeval \<Rightarrow> RTPTransmissionStats \<Rightarrow> RTPTransmissionStats" where
  "noteIncomingRR octetCount packetCount fromAddress lossStats lastPacketNum jitter lastSR diffSR timeNow s =
     (let s1 = (if firstPacket s then s\<lparr>firstPacket := False, firstPacketNumReported := lastPacketNum\<rparr>
                else s\<lparr>atLeastTwoRRsHaveBeenReceived := True,
                       oldLastPacketNumReceived := lastPacketNumReceived s,
                       oldTotNumPacketsLost := totNumPacketsLost s\<rparr>);
          s2 = s1\<lparr>ts_timeReceived := timeNow, lastFromAddress := fromAddress,
                  packetLossRatio := drop_bit 24 lossStats, totNumPacketsLost := lossStats AND 0xFFFFFF,
                  lastPacketNumReceived := lastPacketNum, ts_jitter := jitter,
                  lastSRTime := lastSR, diffSRRRTime := diffSR\<rparr>;
          newOctetCount = ucast octetCount;
          octetLo = totalOctetCountLo s2 + (newOctetCount - lastOctetCount s2);
          s3 = s2\<lparr>lastOctetCount := newOctetCount, totalOctetCountLo := octetLo,
                  totalOctetCountHi := (if octetLo < totalOctetCountLo s2 then totalOctetCountHi s2 + 1
                                        else totalOctetCountHi s2)\<rparr>;
          newPacketCount = ucast packetCount;
          packetLo = totalPacketCountLo s3 + (newPacketCount - lastPacketCount s3)
      in s3\<lparr>lastPacketCount := newPacketCount, totalPacketCountLo := packetLo,
            totalPacketCountHi := (if packetLo < totalPacketCountLo s3 then totalPacketCountHi s3 + 1
                                   else totalPacketCountHi s3)\<rparr>)"

type_synonym RTPTransmissionStatsDB = "u32 \<rightharpoonup> RTPTransmissionStats"

definition newRTPTransmissionStatsDB :: RTPTransmissionStatsDB where
  "newRTPTransmissionStatsDB = Map.empty"

definition tdb_add :: "u32 \<Rightarrow> RTPTransmissionStats \<Rightarrow> RTPTransmissionStatsDB \<Rightarrow> RTPTransmissionStatsDB" where
  "tdb_add ssrc s d = d(ssrc \<mapsto> s)"

definition tdb_lookup :: "RTPTransmissionStatsDB \<Rightarrow> u32 \<Rightarrow> RTPTransmissionStats option" where
  "tdb_lookup d ssrc = d ssrc"

definition tdb_noteIncomingRR ::
  "u64 \<Rightarrow> u64 \<Rightarrow> string \<Rightarrow> u32 \<Rightarrow> u32 \<Rightarrow> u32 \<Rightarrow> u32 \<Rightarrow> u32 \<Rightarrow> u32 \<Rightarrow> timeval \<Rightarrow>
     RTPTransmissionStatsDB \<Rightarrow> RTPTransmissionStatsDB" where
  "tdb_noteIncomingRR octetCount packetCount fromAddress ssrc lossStats lastPacketNum jitter lastSR diffSR timeNow d =
     (let s = (case tdb_lookup d ssrc of None \<Rightarrow> newRTPTransmissionStats ssrc | Some s \<Rightarrow> s)
      in tdb_add ssrc (noteIncomingRR octetCount packetCount fromAddress lossStats lastPacketNum jitter
                         lastSR diffSR timeNow s) d)"

section \<open>Sequence numbers\<close>

lemma uint_low16: "uint (h AND 0xFFFF :: u32) = uint h mod 65536"
proof -
  have "(0xFFFF :: u32) = mask 16" by (simp add: mask_eq_exp_minus_1)
  then have "h AND 0xFFFF = take_bit 16 h" by (simp add: take_bit_eq_mask)
  then show ?thesis by (simp add: take_bit_eq_mod uint_mod_distrib)
qed

lemma uint_high16: "uint (h AND 0xFFFF0000 :: u32) = uint h - uint h mod 65536"
proof -
  have m: "(0xFFFF0000 :: u32) = NOT 0xFFFF" by simp
  have "(h AND 0xFFFF) + (h AND NOT 0xFFFF) = (h AND 0xFFFF) OR (h AND NOT 0xFFFF)"
    by (rule disjunctive_add) (simp add: bit_simps)
  then have "h = (h AND 0xFFFF) + (h AND NOT 0xFFFF)" by (simp flip: bit.conj_disj_distrib)
  then have s: "h AND 0xFFFF0000 = h - (h AND 0xFFFF)" unfolding m by (simp add: eq_diff_eq ac_simps)
  have "h AND 0xFFFF \<le> h" by (simp add: word_and_le2)
  then show ?thesis unfolding s by (simp add: uint_sub_lem word_le_def uint_low16 [symmetric])
qed

lemma uint_join16:
  assumes "uint (c :: u32) mod 65536 = 0" and "uint q < 65536"
  shows "uint (c OR q) = uint c + uint q"
proof -
  have c0: "take_bit 16 c = 0"
    using assms(1) by (simp add: word_uint_eq_iff take_bit_eq_mod uint_mod_distrib)
  have q0: "take_bit 16 q = q"
    using assms(2) by (simp add: word_uint_eq_iff take_bit_eq_mod uint_mod_distrib)
  have d: "\<not> bit c n \<or> \<not> bit q n" for n
  proof (cases "n < 16")
    case True
    have "bit (take_bit 16 c) n = bit c n" using True by (simp add: bit_take_bit_iff)
    then show ?thesis using c0 by simp
  next
    case False
    have "bit (take_bit 16 q) n = False" using False by (simp add: bit_take_bit_iff)
    then show ?thesis using q0 by simp
  qed
  then have "c OR q = c + q" by (simp add: disjunctive_add)
  moreover have "uint c + uint q < 2 ^ 32"
  proof -
    have "uint c < 2 ^ 32" using uint_bounded [of c] by simp
    then have "uint c div 65536 < 65536" by simp
    moreover have "uint c = 65536 * (uint c div 65536)" using assms(1) div_mult_mod_eq [of "uint c" 65536] by simp
    ultimately have "uint c + uint q < 4294967296" using assms(2) by linarith
    then show ?thesis by simp
  qed
  ultimately show ?thesis by (simp add: uint_add_lem [THEN iffD1])
qed

definition seq_of :: "int \<Rightarrow> u32" where
  "seq_of e = word_of_int (e mod 65536)"

lemma uint_seq_of [simp]: "uint (seq_of e) = e mod 65536"
  by (simp add: seq_of_def uint_word_of_int)

lemma half_cycle:
  fixes H e :: int
  assumes "0 < e - H" "e - H < 32768"
  shows "H mod 65536 \<le> e mod 65536 \<Longrightarrow> e mod 65536 - H mod 65536 = e - H"
    and "e mod 65536 < H mod 65536 \<Longrightarrow> e mod 65536 - H mod 65536 + 65536 = e - H"
proof -
  have h: "H = 65536 * (H div 65536) + H mod 65536" and e: "e = 65536 * (e div 65536) + e mod 65536" by simp_all
  have b: "0 \<le> H mod 65536" "H mod 65536 < 65536" "0 \<le> e mod 65536" "e mod 65536 < 65536" by simp_all
  define k where "k = e div 65536 - H div 65536"
  have k: "e - H = 65536 * k + (e mod 65536 - H mod 65536)"
    unfolding k_def by (subst (1) h, subst (1) e) (simp add: algebra_simps)
  show "e mod 65536 - H mod 65536 = e - H" if "H mod 65536 \<le> e mod 65536"
  proof -
    have "\<not> 1 \<le> k" "\<not> k \<le> -1" using k b that assms by linarith+
    then show ?thesis using k by simp
  qed
  show "e mod 65536 - H mod 65536 + 65536 = e - H" if "e mod 65536 < H mod 65536"
  proof -
    have "\<not> 2 \<le> k" "\<not> k \<le> 0" using k b that assms by linarith+
    then have "k = 1" by linarith
    then show ?thesis using k by simp
  qed
qed

text \<open>
  A packet whose extended sequence number \<open>e\<close> is less than half a cycle away from the highest one
  so far moves \<open>highestExtSeqNumReceived\<close> to the larger of the two.
\<close>

lemma noteSeqNum_highest:
  assumes "0 \<le> e" "e < 2 ^ 32" and near: "\<bar>e - uint (highestExtSeqNumReceived s)\<bar> < 0x8000"
  shows "uint (highestExtSeqNumReceived (noteSeqNum (seq_of e) s)) = max (uint (highestExtSeqNumReceived s)) e"
proof -
  define H where "H = uint (highestExtSeqNumReceived s)"
  have H: "0 \<le> H" "H < 2 ^ 32" unfolding H_def using uint_bounded [of "highestExtSeqNumReceived s"] by simp_all
  let ?o = "H mod 65536" and ?q = "e mod 65536"
  have oq: "0 \<le> ?o" "?o < 65536" "0 \<le> ?q" "?q < 65536" by simp_all
  have mod_diff: "(?q - ?o) mod 65536 = (e - H) mod 65536" by (simp add: mod_simps)
  show ?thesis
  proof (cases "H < e")
    case True
    have "(e - H) mod 65536 = e - H" using near True H_def by (intro mod_pos_pos_trivial) auto
    then have lt: "seqNumLT ?o ?q"
      using near True oq mod_diff H_def by (subst seqNumLT_circle) auto
    define cycle where "cycle = (if seq_of e - (highestExtSeqNumReceived s AND 0xFFFF) \<ge> 0x8000
      then (highestExtSeqNumReceived s AND 0xFFFF0000) + 0x10000 else highestExtSeqNumReceived s AND 0xFFFF0000)"
    have diff: "uint (seq_of e - (highestExtSeqNumReceived s AND 0xFFFF)) =
      (if ?o \<le> ?q then ?q - ?o else ?q - ?o + 2 ^ 32)"
      using oq by (simp add: uint_sub_if' uint_low16 H_def)
    have near': "0 < e - H" "e - H < 32768" using near True H_def by simp_all
    note hc = half_cycle [OF near']
    have wrap: "(seq_of e - (highestExtSeqNumReceived s AND 0xFFFF) \<ge> 0x8000) \<longleftrightarrow> ?q < ?o"
    proof (cases "?o \<le> ?q")
      case True
      then have "uint (seq_of e - (highestExtSeqNumReceived s AND 0xFFFF)) < 0x8000"
        using diff hc(1) near' by simp
      then show ?thesis using True by (simp add: word_le_def)
    next
      case False
      then have "uint (seq_of e - (highestExtSeqNumReceived s AND 0xFFFF)) = ?q - ?o + 2 ^ 32"
        using diff by simp
      moreover have "?q - ?o + 4294967296 \<ge> 0x8000" using oq by linarith
      ultimately show ?thesis using False by (simp add: word_le_def)
    qed
    have cyc: "uint cycle = e - ?q"
    proof (cases "?q < ?o")
      case True
      have c0: "H - ?o + 65536 = e - ?q" using hc(2) [OF True] by linarith
      have "uint (highestExtSeqNumReceived s AND 0xFFFF0000) + uint (0x10000 :: u32) < 2 ^ 32"
        using c0 assms(2) oq by (simp add: uint_high16 H_def [symmetric])
      then show ?thesis using True wrap c0
        by (simp add: cycle_def uint_add_lem [THEN iffD1] uint_high16 H_def [symmetric])
    next
      case False
      then have "H - ?o = e - ?q" using hc(1) by linarith
      then show ?thesis using False wrap by (simp add: cycle_def uint_high16 H_def [symmetric])
    qed
    have "uint (cycle OR seq_of e) = e"
      using uint_join16 [of cycle "seq_of e"] cyc oq by (simp add: mod_diff_eq [symmetric])
    then show ?thesis
      using lt True by (simp add: noteSeqNum_def Let_def uint_low16 H_def [symmetric] cycle_def [symmetric]
          word_less_def)
  next
    case False
    have "\<not> seqNumLT ?o ?q"
    proof (cases "H = e")
      case True then show ?thesis by simp
    next
      case ne: False
      have "(e - H) mod 65536 = (e - H + 65536) mod 65536" by simp
      also have "\<dots> = e - H + 65536" using near False ne H_def by (intro mod_pos_pos_trivial) auto
      finally show ?thesis
        using near False ne oq mod_diff H_def by (subst seqNumLT_circle) auto
    qed
    then show ?thesis using False by (simp add: noteSeqNum_def Let_def uint_low16 H_def)
  qed
qed

section \<open>A stream of packets of one source\<close>

text \<open>
  A packet of the stream: its extended sequence number (which the receiver does not see: the code
  is given \<open>seq_of e\<close>), its timestamp, size, jitter flag and arrival time.
\<close>

type_synonym rtp_event = "int \<times> u32 \<times> u32 \<times> bool \<times> timeval"

fun note_event :: "u32 \<Rightarrow> rtp_event \<Rightarrow> RTPReceptionStats \<Rightarrow> RTPReceptionStats" where
  "note_event freq (e, ts, sz, jit, now) s =
     snd (snd (noteIncomingPacket (seq_of e) ts freq sz jit now s))"

text \<open>Each packet is less than half a cycle from the highest one before it.\<close>

fun near_stream :: "int \<Rightarrow> int list \<Rightarrow> bool" where
  "near_stream h [] = True"
| "near_stream h (e # es) = (0 \<le> e \<and> e < 2 ^ 32 \<and> \<bar>e - h\<bar> < 0x8000 \<and> near_stream (max h e) es)"

definition total_bytes :: "RTPReceptionStats \<Rightarrow> int" where
  "total_bytes s = uint (totBytesReceivedHi s) * 2 ^ 32 + uint (totBytesReceivedLo s)"

lemma seq_fields:
  "highestExtSeqNumReceived (snd (snd (notePresentation ts f now s))) = highestExtSeqNumReceived s"
  "baseExtSeqNumReceived (snd (snd (notePresentation ts f now s))) = baseExtSeqNumReceived s"
  "totNumPacketsReceived (snd (snd (notePresentation ts f now s))) = totNumPacketsReceived s"
  "haveSeenInitialSequenceNumber (snd (snd (notePresentation ts f now s))) = haveSeenInitialSequenceNumber s"
  "totBytesReceivedHi (snd (snd (notePresentation ts f now s))) = totBytesReceivedHi s"
  "totBytesReceivedLo (snd (snd (notePresentation ts f now s))) = totBytesReceivedLo s"
  "rs_ssrc (snd (snd (notePresentation ts f now s))) = rs_ssrc s"
  "lastResetExtSeqNumReceived (snd (snd (notePresentation ts f now s))) = lastResetExtSeqNumReceived s"
  "numPacketsReceivedSinceLastReset (snd (snd (notePresentation ts f now s))) = numPacketsReceivedSinceLastReset s"
  by (simp_all add: notePresentation_def Let_def split_def)

lemma seq_fields_jitter:
  "highestExtSeqNumReceived (noteJitter ts f u now s) = highestExtSeqNumReceived s"
  "baseExtSeqNumReceived (noteJitter ts f u now s) = baseExtSeqNumReceived s"
  "totNumPacketsReceived (noteJitter ts f u now s) = totNumPacketsReceived s"
  "haveSeenInitialSequenceNumber (noteJitter ts f u now s) = haveSeenInitialSequenceNumber s"
  "totBytesReceivedHi (noteJitter ts f u now s) = totBytesReceivedHi s"
  "totBytesReceivedLo (noteJitter ts f u now s) = totBytesReceivedLo s"
  "rs_ssrc (noteJitter ts f u now s) = rs_ssrc s"
  "lastResetExtSeqNumReceived (noteJitter ts f u now s) = lastResetExtSeqNumReceived s"
  "numPacketsReceivedSinceLastReset (noteJitter ts f u now s) = numPacketsReceivedSinceLastReset s"
  by (simp_all add: noteJitter_def Let_def)

lemma seq_fields_gap:
  "highestExtSeqNumReceived (noteGap now s) = highestExtSeqNumReceived s"
  "baseExtSeqNumReceived (noteGap now s) = baseExtSeqNumReceived s"
  "totNumPacketsReceived (noteGap now s) = totNumPacketsReceived s"
  "haveSeenInitialSequenceNumber (noteGap now s) = haveSeenInitialSequenceNumber s"
  "totBytesReceivedHi (noteGap now s) = totBytesReceivedHi s"
  "totBytesReceivedLo (noteGap now s) = totBytesReceivedLo s"
  "rs_ssrc (noteGap now s) = rs_ssrc s"
  "lastResetExtSeqNumReceived (noteGap now s) = lastResetExtSeqNumReceived s"
  "numPacketsReceivedSinceLastReset (noteGap now s) = numPacketsReceivedSinceLastReset s"
  by (simp_all add: noteGap_def Let_def)

lemma seq_fields_seq:
  "totNumPacketsReceived (noteSeqNum q s) = totNumPacketsReceived s"
  "haveSeenInitialSequenceNumber (noteSeqNum q s) = haveSeenInitialSequenceNumber s"
  "totBytesReceivedHi (noteSeqNum q s) = totBytesReceivedHi s"
  "totBytesReceivedLo (noteSeqNum q s) = totBytesReceivedLo s"
  "rs_ssrc (noteSeqNum q s) = rs_ssrc s"
  "lastResetExtSeqNumReceived (noteSeqNum q s) = lastResetExtSeqNumReceived s"
  "numPacketsReceivedSinceLastReset (noteSeqNum q s) = numPacketsReceivedSinceLastReset s"
  by (simp_all add: noteSeqNum_def Let_def)

lemma seq_fields_counts:
  "highestExtSeqNumReceived (noteCounts sz s) = highestExtSeqNumReceived s"
  "baseExtSeqNumReceived (noteCounts sz s) = baseExtSeqNumReceived s"
  "totNumPacketsReceived (noteCounts sz s) = totNumPacketsReceived s + 1"
  "haveSeenInitialSequenceNumber (noteCounts sz s) = haveSeenInitialSequenceNumber s"
  "rs_ssrc (noteCounts sz s) = rs_ssrc s"
  "lastResetExtSeqNumReceived (noteCounts sz s) = lastResetExtSeqNumReceived s"
  "numPacketsReceivedSinceLastReset (noteCounts sz s) = numPacketsReceivedSinceLastReset s + 1"
  by (simp_all add: noteCounts_def Let_def)

lemmas stats_fields = seq_fields seq_fields_jitter seq_fields_gap seq_fields_seq seq_fields_counts

lemma uint_carry:
  fixes hi lo sz :: u32
  shows "(uint (if lo + sz < lo then hi + 1 else hi) * 2 ^ 32 + uint (lo + sz)) mod 2 ^ 64
    = (uint hi * 2 ^ 32 + uint lo + uint sz) mod 2 ^ 64"
proof -
  have l: "0 \<le> uint lo" "uint lo < 4294967296" "0 \<le> uint sz" "uint sz < 4294967296"
    using uint_bounded [of lo] uint_bounded [of sz] by simp_all
  show ?thesis
  proof (cases "uint lo + uint sz < 4294967296")
    case True
    then have s: "uint (lo + sz) = uint lo + uint sz" by (simp add: uint_add_lem [THEN iffD1])
    then have "\<not> lo + sz < lo" using l by (simp add: word_less_def)
    then show ?thesis using s by (simp add: add.assoc)
  next
    case False
    then have s: "uint (lo + sz) = uint lo + uint sz - 4294967296"
      using l by (simp add: uint_plus_if')
    then have lt: "lo + sz < lo" using l by (simp add: word_less_def)
    have e: "(2 :: int) ^ 64 = 2 ^ 32 * 2 ^ 32" by simp
    have "uint (hi + 1) mod 2 ^ 32 = (uint hi + 1) mod 2 ^ 32" by (simp add: uint_word_ariths)
    then have "(uint (hi + 1) * 2 ^ 32) mod 2 ^ 64 = ((uint hi + 1) * 2 ^ 32) mod 2 ^ 64"
      unfolding e mod_mult_mult2 by (simp only:)
    then have "(uint (hi + 1) * 2 ^ 32 + uint (lo + sz)) mod 2 ^ 64
      = ((uint hi + 1) * 2 ^ 32 + uint (lo + sz)) mod 2 ^ 64"
      by (rule mod_add_cong) (rule refl)
    moreover have "(uint hi + 1) * 2 ^ 32 + (uint lo + uint sz - 4294967296)
      = uint hi * 2 ^ 32 + uint lo + uint sz" by simp
    ultimately show ?thesis unfolding s if_P [OF lt] by (simp only:)
  qed
qed

lemma noteCounts_bytes:
  "total_bytes (noteCounts sz s) mod 2 ^ 64 = (total_bytes s + uint sz) mod 2 ^ 64"
proof -
  have h: "totBytesReceivedHi (noteCounts sz s) = (if totBytesReceivedLo s + sz < totBytesReceivedLo s
      then totBytesReceivedHi s + 1 else totBytesReceivedHi s)"
    and l: "totBytesReceivedLo (noteCounts sz s) = totBytesReceivedLo s + sz"
    by (simp_all add: noteCounts_def Let_def)
  show ?thesis unfolding total_bytes_def h l by (rule uint_carry)
qed

lemma note_event_fields:
  assumes "haveSeenInitialSequenceNumber s"
  shows "highestExtSeqNumReceived (note_event freq (e, ts, sz, jit, now) s)
      = highestExtSeqNumReceived (noteSeqNum (seq_of e) (noteCounts sz s))"
    and "baseExtSeqNumReceived (note_event freq (e, ts, sz, jit, now) s)
      = baseExtSeqNumReceived (noteSeqNum (seq_of e) (noteCounts sz s))"
    and "totNumPacketsReceived (note_event freq (e, ts, sz, jit, now) s) = totNumPacketsReceived s + 1"
    and "haveSeenInitialSequenceNumber (note_event freq (e, ts, sz, jit, now) s)"
    and "total_bytes (note_event freq (e, ts, sz, jit, now) s) mod 2 ^ 64 = (total_bytes s + uint sz) mod 2 ^ 64"
    and "rs_ssrc (note_event freq (e, ts, sz, jit, now) s) = rs_ssrc s"
    and "lastResetExtSeqNumReceived (note_event freq (e, ts, sz, jit, now) s) = lastResetExtSeqNumReceived s"
proof -
  have "total_bytes (note_event freq (e, ts, sz, jit, now) s) = total_bytes (noteCounts sz s)"
    using assms by (simp add: noteIncomingPacket_def Let_def stats_fields total_bytes_def)
  then show "total_bytes (note_event freq (e, ts, sz, jit, now) s) mod 2 ^ 64 = (total_bytes s + uint sz) mod 2 ^ 64"
    using noteCounts_bytes by simp
qed (use assms in \<open>simp_all add: noteIncomingPacket_def Let_def stats_fields\<close>)

lemma stream_step:
  assumes "haveSeenInitialSequenceNumber s" "0 \<le> e" "e < 2 ^ 32"
    and "\<bar>e - uint (highestExtSeqNumReceived s)\<bar> < 0x8000"
  shows "uint (highestExtSeqNumReceived (note_event freq (e, ts, sz, jit, now) s))
    = max (uint (highestExtSeqNumReceived s)) e"
proof -
  have "\<bar>e - uint (highestExtSeqNumReceived (noteCounts sz s))\<bar> < 0x8000"
    using assms(4) by (simp add: stats_fields)
  from noteSeqNum_highest [OF assms(2,3) this] show ?thesis
    unfolding note_event_fields(1) [OF assms(1)] by (simp add: stats_fields)
qed

lemma stream_run:
  assumes "haveSeenInitialSequenceNumber s"
    and "near_stream (uint (highestExtSeqNumReceived s)) (map fst ps)"
  shows "uint (highestExtSeqNumReceived (fold (note_event freq) ps s))
      = fold max (map fst ps) (uint (highestExtSeqNumReceived s)) \<and>
    totNumPacketsReceived (fold (note_event freq) ps s) = totNumPacketsReceived s + of_nat (length ps) \<and>
    total_bytes (fold (note_event freq) ps s) mod 2 ^ 64
      = (total_bytes s + (\<Sum>p\<leftarrow>ps. uint (fst (snd (snd p))))) mod 2 ^ 64 \<and>
    lastResetExtSeqNumReceived (fold (note_event freq) ps s) = lastResetExtSeqNumReceived s \<and>
    rs_ssrc (fold (note_event freq) ps s) = rs_ssrc s"
  using assms
proof (induction ps arbitrary: s)
  case Nil
  then show ?case by simp
next
  case (Cons p ps)
  obtain e ts sz jit now where p: "p = (e, ts, sz, jit, now)" by (cases p) auto
  define s' where "s' = note_event freq p s"
  note fields = note_event_fields [OF Cons.prems(1), of freq e ts sz jit now]
  have near: "0 \<le> e" "e < 2 ^ 32" "\<bar>e - uint (highestExtSeqNumReceived s)\<bar> < 0x8000"
    "near_stream (max (uint (highestExtSeqNumReceived s)) e) (map fst ps)"
    using Cons.prems(2) p by simp_all
  have h: "uint (highestExtSeqNumReceived s') = max (uint (highestExtSeqNumReceived s)) e"
    unfolding s'_def p by (rule stream_step [OF Cons.prems(1) near(1-3)])
  have seen: "haveSeenInitialSequenceNumber s'" unfolding s'_def p by (rule fields(4))
  have ih: "uint (highestExtSeqNumReceived (fold (note_event freq) ps s'))
      = fold max (map fst ps) (uint (highestExtSeqNumReceived s')) \<and>
    totNumPacketsReceived (fold (note_event freq) ps s') = totNumPacketsReceived s' + of_nat (length ps) \<and>
    total_bytes (fold (note_event freq) ps s') mod 2 ^ 64
      = (total_bytes s' + (\<Sum>p\<leftarrow>ps. uint (fst (snd (snd p))))) mod 2 ^ 64 \<and>
    lastResetExtSeqNumReceived (fold (note_event freq) ps s') = lastResetExtSeqNumReceived s' \<and>
    rs_ssrc (fold (note_event freq) ps s') = rs_ssrc s'"
    by (rule Cons.IH [OF seen]) (simp only: h near(4))
  have b: "(total_bytes s' + (\<Sum>p\<leftarrow>ps. uint (fst (snd (snd p))))) mod 2 ^ 64
      = (total_bytes s + (\<Sum>p\<leftarrow>p # ps. uint (fst (snd (snd p))))) mod 2 ^ 64"
  proof -
    have "(total_bytes s' + (\<Sum>p\<leftarrow>ps. uint (fst (snd (snd p))))) mod 2 ^ 64
      = ((total_bytes s + uint sz) + (\<Sum>p\<leftarrow>ps. uint (fst (snd (snd p))))) mod 2 ^ 64"
      unfolding s'_def p by (rule mod_add_cong [OF fields(5)]) (rule refl)
    then show ?thesis by (simp only: p list.map sum_list.Cons fst_conv snd_conv add.assoc)
  qed
  have t: "totNumPacketsReceived s' = totNumPacketsReceived s + 1"
    "lastResetExtSeqNumReceived s' = lastResetExtSeqNumReceived s" "rs_ssrc s' = rs_ssrc s"
    unfolding s'_def p by (rule fields)+
  have f: "fold (note_event freq) (p # ps) s = fold (note_event freq) ps s'" by (simp add: s'_def)
  show ?case unfolding f using ih b t h by (simp add: p max.commute)
qed

lemma new_stats_fields [simp]:
  "haveSeenInitialSequenceNumber (newRTPReceptionStats ssrc q)"
  "highestExtSeqNumReceived (newRTPReceptionStats ssrc q) = 0x10000 OR q"
  "baseExtSeqNumReceived (newRTPReceptionStats ssrc q) = 0x10000 OR q"
  "totNumPacketsReceived (newRTPReceptionStats ssrc q) = 0"
  "total_bytes (newRTPReceptionStats ssrc q) = 0"
  "lastResetExtSeqNumReceived (newRTPReceptionStats ssrc q) = 0"
  "numPacketsReceivedSinceLastReset (newRTPReceptionStats ssrc q) = 0"
  "rs_ssrc (newRTPReceptionStats ssrc q) = ssrc"
  by (simp_all add: newRTPReceptionStats_def initSeqNum_def stats_init_def stats_reset_def zero_stats_def
      total_bytes_def)

lemma first_ext: "uint (0x10000 OR seq_of e) = 0x10000 + e mod 65536"
  using uint_join16 [of "0x10000" "seq_of e"] by simp

text \<open>C9. Whatever the order in which the packets of a source arrive, as long as each is less than
  half a cycle from the highest sequence number before it, the receiver's extended highest
  sequence number is the largest extended sequence number received, and its packet and byte counts are
  exact (modulo their widths).\<close>

theorem reception_tracks_extended_sequence:
  assumes "near_stream (0x10000 + e0 mod 65536) (map fst ps)"
  shows "uint (highestExtSeqNumReceived (fold (note_event freq) ps (newRTPReceptionStats ssrc (seq_of e0))))
      = fold max (map fst ps) (0x10000 + e0 mod 65536) \<and>
    totNumPacketsReceived (fold (note_event freq) ps (newRTPReceptionStats ssrc (seq_of e0)))
      = of_nat (length ps) \<and>
    total_bytes (fold (note_event freq) ps (newRTPReceptionStats ssrc (seq_of e0))) mod 2 ^ 64
      = (\<Sum>p\<leftarrow>ps. uint (fst (snd (snd p)))) mod 2 ^ 64"
  using stream_run [of "newRTPReceptionStats ssrc (seq_of e0)" ps freq] assms by (simp add: first_ext)

lemma reception_tracks_extended_sequence_witness:
  "let ps = map (\<lambda>e. (e, 0, 100, True, tv_zero)) [0x1FFFE, 0x20001, 0x1FFFF, 0x20000, 0x20002];
       s = fold (note_event 90000) ps (newRTPReceptionStats 7 (seq_of 0x1FFFE))
   in highestExtSeqNumReceived s = 0x20002 \<and> totNumPacketsReceived s = 5"
proof -
  have near: "near_stream (0x10000 + 0x1FFFE mod 65536)
     (map fst (map (\<lambda>e. (e, 0 :: u32, 100 :: u32, True, tv_zero)) [0x1FFFE, 0x20001, 0x1FFFF, 0x20000, 0x20002 :: int]))"
    by simp
  have m: "fold max [131070, 131073, 131071, 131072, 131074] 131070 = (131074 :: int)" by simp
  show ?thesis
    unfolding Let_def
    using reception_tracks_extended_sequence [OF near, of 90000 7]
    by (simp add: word_uint_eq_iff m del: fold.simps)
qed

text \<open>
  The other branch: an old packet, when at least one packet has been counted before it. The difference
  of the sequence numbers is unsigned, so a packet that is only reordered is taken for one of
  the previous cycle.
\<close>

lemma noteSeqNum_old:
  assumes "0 \<le> e" "e \<le> uint (highestExtSeqNumReceived s)" "uint (highestExtSeqNumReceived s) - e < 0x8000"
    and same: "e div 65536 = uint (highestExtSeqNumReceived s) div 65536" and "1 \<le> e div 65536"
    and "1 < totNumPacketsReceived s" and base: "uint (baseExtSeqNumReceived s) + 65536 > e" and "e mod 65536 < uint (highestExtSeqNumReceived s) mod 65536"
  shows "uint (baseExtSeqNumReceived (noteSeqNum (seq_of e) s)) = e - 65536"
proof -
  define H where "H = uint (highestExtSeqNumReceived s)"
  have H: "H < 2 ^ 32" unfolding H_def using uint_bounded [of "highestExtSeqNumReceived s"] by simp
  let ?o = "H mod 65536" and ?q = "e mod 65536"
  have eH: "H = 65536 * (H div 65536) + ?o" "e = 65536 * (e div 65536) + ?q" by simp_all
  have oq: "0 \<le> ?o" "?o < 65536" "0 \<le> ?q" "?q < 65536" by simp_all
  have lt: "?q < ?o" using assms H_def by simp
  have d: "H - e = ?o - ?q"
  proof -
    have "65536 * (e div 65536) = 65536 * (H div 65536)" using same H_def by simp
    then show ?thesis using eH by linarith
  qed
  have nlt: "\<not> seqNumLT ?o ?q" using lt d assms(3) H_def by (simp add: seqNumLT_def Let_def)
  have "uint (seq_of e - (highestExtSeqNumReceived s AND 0xFFFF)) = ?q - ?o + 2 ^ 32"
    using lt oq by (simp add: uint_sub_if' uint_low16 H_def)
  moreover have "?q - ?o + 4294967296 \<ge> 0x8000" using oq by linarith
  ultimately have wrap: "seq_of e - (highestExtSeqNumReceived s AND 0xFFFF) \<ge> 0x8000"
    by (simp add: word_le_def)
  define cycle where "cycle = (highestExtSeqNumReceived s AND 0xFFFF0000) - 0x10000"
  have c: "uint (highestExtSeqNumReceived s AND 0xFFFF0000) = H - ?o" by (simp add: uint_high16 H_def)
  have "65536 * 1 \<le> 65536 * (e div 65536)" using assms(5) by (intro mult_left_mono) simp_all
  then have ge: "65536 \<le> H - ?o" using d eH(2) by linarith
  have cyc: "uint cycle = H - ?o - 65536"
    using c ge uint_sub_lem [of "0x10000" "highestExtSeqNumReceived s AND 0xFFFF0000"]
    by (simp add: cycle_def)
  have cm: "uint cycle mod 65536 = 0"
  proof -
    define d where "d = H div 65536"
    have "H = 65536 * d + ?o" using eH(1) by (simp add: d_def)
    then have "uint cycle = 65536 * (d - 1)" using cyc by simp
    then show ?thesis by simp
  qed
  have new: "uint (cycle OR seq_of e) = e - 65536"
    using uint_join16 [OF cm, of "seq_of e"] oq cyc d by simp
  then have "cycle OR seq_of e < baseExtSeqNumReceived s" using base by (simp add: word_less_def)
  then show ?thesis
    using nlt wrap assms(6) new by (simp add: noteSeqNum_def Let_def uint_low16 H_def [symmetric] cycle_def)
qed

text \<open>One reordered packet makes the receiver believe that a whole cycle more was expected: after
  the packets \<open>n + 1\<close> and \<open>n\<close> the number of packets it expects is 65537.\<close>

theorem reordered_packet_inflates_expected:
  assumes "0 \<le> n" "n < 65535"
  shows "let s = fold (note_event freq) [(0x10000 + n + 1, t1, z1, j1, now1), (0x10000 + n, t2, z2, j2, now2)]
                 (newRTPReceptionStats ssrc (seq_of (n + 1)))
    in uint (highestExtSeqNumReceived s) - uint (baseExtSeqNumReceived s) = 65537 \<and>
       totNumPacketsReceived s = 2"
proof -
  define s where "s = fold (note_event freq) [(0x10000 + n + 1, t1, z1, j1, now1), (0x10000 + n, t2, z2, j2, now2)]
                 (newRTPReceptionStats ssrc (seq_of (n + 1)))"
  let ?e1 = "0x10000 + n + 1" and ?e2 = "0x10000 + n"
  define s0 where "s0 = newRTPReceptionStats ssrc (seq_of (n + 1))"
  define s1 where "s1 = note_event freq (?e1, t1, z1, j1, now1) s0"
  have h0: "uint (highestExtSeqNumReceived s0) = ?e1" "uint (baseExtSeqNumReceived s0) = ?e1"
    "haveSeenInitialSequenceNumber s0" "totNumPacketsReceived s0 = 0"
    using assms(1,2) by (simp_all add: s0_def first_ext)
  have h1: "uint (highestExtSeqNumReceived s1) = ?e1"
    unfolding s1_def using assms(1,2) h0 by (subst stream_step) simp_all
  have b1: "uint (baseExtSeqNumReceived s1) = ?e1"
  proof -
    have "\<not> (1 :: u32) < totNumPacketsReceived (noteCounts z1 s0)" using h0 by (simp add: stats_fields)
    then show ?thesis
      unfolding s1_def note_event_fields(2) [OF h0(3)] using h0 by (simp add: noteSeqNum_def Let_def stats_fields)
  qed
  have t1: "totNumPacketsReceived s1 = 1" "haveSeenInitialSequenceNumber s1"
    unfolding s1_def using note_event_fields [OF h0(3)] h0 by simp_all
  have dm: "?e1 div 65536 = 1" "?e2 div 65536 = 1" "?e1 mod 65536 = n + 1" "?e2 mod 65536 = n"
  proof -
    have e1: "?e1 = (n + 1) + 1 * 65536" and e2: "?e2 = n + 1 * 65536" by simp_all
    show "?e1 div 65536 = 1" "?e1 mod 65536 = n + 1"
      unfolding e1 div_mult_self1 [OF zero_neq_numeral [symmetric]] mod_mult_self1
      using assms(1,2) by simp_all
    show "?e2 div 65536 = 1" "?e2 mod 65536 = n"
      unfolding e2 div_mult_self1 [OF zero_neq_numeral [symmetric]] mod_mult_self1
      using assms(1,2) by simp_all
  qed
  have "s = note_event freq (?e2, t2, z2, j2, now2) s1" by (simp add: s_def s0_def s1_def)
  moreover have "uint (baseExtSeqNumReceived (noteSeqNum (seq_of ?e2) (noteCounts z2 s1))) = ?e2 - 65536"
    by (rule noteSeqNum_old) (use assms(1,2) h1 b1 t1 dm in \<open>simp_all add: stats_fields\<close>)
  moreover have "uint (highestExtSeqNumReceived (note_event freq (?e2, t2, z2, j2, now2) s1)) = ?e1"
    using assms(1,2) h1 t1 by (subst stream_step) simp_all
  ultimately show ?thesis
    unfolding s_def [symmetric] Let_def using note_event_fields [OF t1(2)] t1 by simp
qed

lemma reordered_packet_inflates_expected_witness:
  "uint (highestExtSeqNumReceived (fold (note_event 90000) [(0x10005, 0, 10, True, tv_zero), (0x10004, 0, 10, True, tv_zero)]
     (newRTPReceptionStats 1 (seq_of 5))))
   - uint (baseExtSeqNumReceived (fold (note_event 90000) [(0x10005, 0, 10, True, tv_zero), (0x10004, 0, 10, True, tv_zero)]
     (newRTPReceptionStats 1 (seq_of 5)))) = 65537"
  using reordered_packet_inflates_expected [of 4 90000 0 10 True tv_zero 0 10 True tv_zero 1]
  by (simp add: Let_def del: fold.simps)

end
