(* ===== verification/KeyedStore.thy ===== *)
theory KeyedStore
  imports GoPrelude
begin

text \<open>
  The contract of the tables of the program (statistics by SSRC, sessions by name or id, users by name,
  media sessions by stream name): a store with an operation to add a record under a key and one to
  look a key up. \<open>keyed_events\<close> adds an event handler that finds or creates the
  record of its key and updates it; its main fact is that the handlers of different keys do not
  interfere, whatever the interleaving of the events.
\<close>

locale keyed_store =
  fixes add :: "'k \<Rightarrow> 'v \<Rightarrow> 'db \<Rightarrow> 'db"
    and lookup :: "'db \<Rightarrow> 'k \<Rightarrow> 'v option"
  assumes lookup_add: "lookup (add k v d) k' = (if k' = k then Some v else lookup d k')"
begin

lemma lookup_add_same: "lookup (add k v d) k = Some v"
  by (simp add: lookup_add)

lemma lookup_add_other: "k' \<noteq> k \<Longrightarrow> lookup (add k v d) k' = lookup d k'"
  by (simp add: lookup_add)

lemma add_last_wins: "lookup (add k v (add k w d)) k' = lookup (add k v d) k'"
  by (simp add: lookup_add)

lemma lookup_fold_add:
  "lookup (fold (\<lambda>(k, v). add k v) kvs d) k
     = (case map_of (rev kvs) k of Some v \<Rightarrow> Some v | None \<Rightarrow> lookup d k)"
proof (induction kvs arbitrary: d)
  case (Cons kv kvs)
  then show ?case by (cases kv) (auto simp: lookup_add map_add_def split: option.split)
qed simp

end

text \<open>A store whose records can be deleted too.\<close>

locale deletable_store = keyed_store add lookup
  for add :: "'k \<Rightarrow> 'v \<Rightarrow> 'db \<Rightarrow> 'db" and lookup :: "'db \<Rightarrow> 'k \<Rightarrow> 'v option" +
  fixes del :: "'k \<Rightarrow> 'db \<Rightarrow> 'db"
  assumes lookup_del: "lookup (del k d) k' = (if k' = k then None else lookup d k')"
begin

lemma del_after_add: "lookup (del k (add k v d)) k' = lookup (del k d) k'"
  by (simp add: lookup_add lookup_del)

lemma del_idem: "lookup (del k (del k d)) k' = lookup (del k d) k'"
  by (simp add: lookup_del)

end

locale keyed_events = keyed_store add lookup
  for add :: "'k \<Rightarrow> 'v \<Rightarrow> 'db \<Rightarrow> 'db" and lookup :: "'db \<Rightarrow> 'k \<Rightarrow> 'v option" +
  fixes key :: "'e \<Rightarrow> 'k" and fresh :: "'e \<Rightarrow> 'v" and upd :: "'e \<Rightarrow> 'v \<Rightarrow> 'v" and step :: "'e \<Rightarrow> 'db \<Rightarrow> 'db"
  assumes lookup_step:
    "lookup (step e d) k =
       (if k = key e then Some (upd e (case lookup d k of None \<Rightarrow> fresh e | Some v \<Rightarrow> v)) else lookup d k)"
begin

lemma lookup_steps_present:
  "lookup d k = Some v \<Longrightarrow> lookup (fold step es d) k = Some (fold upd (filter (\<lambda>e. key e = k) es) v)"
  by (induction es arbitrary: d v) (auto simp: lookup_step)

lemma lookup_steps_absent:
  "lookup d k = None \<Longrightarrow>
     lookup (fold step es d) k =
       (case filter (\<lambda>e. key e = k) es of
          [] \<Rightarrow> None
        | e # es' \<Rightarrow> Some (fold upd (e # es') (fresh e)))"
  by (induction es arbitrary: d) (auto simp: lookup_step lookup_steps_present)

text \<open>Events of other keys can be left out.\<close>

lemma lookup_steps_project:
  assumes "lookup d k = None"
  shows "lookup (fold step es d) k = lookup (fold step (filter (\<lambda>e. key e = k) es) d) k"
  using assms by (simp add: lookup_steps_absent)

end

end
