(* ===== verification/RtpStatsDB.thy ===== *)
theory RtpStatsDB
  imports RtpStats KeyedStore
begin

text \<open>
  The two statistics data bases as keyed stores: \<open>RTPReceptionStatsDB\<close> under RTP packets and sender
  reports, \<open>RTPTransmissionStatsDB\<close> under receiver report blocks. The facts say that each source is
  accounted for by its own packets only.
\<close>

datatype reception_event =
    Packet u32 u32 u32 u32 u32 bool timeval
  | SenderReport u32 u32 u32 u32 timeval

fun event_ssrc :: "reception_event \<Rightarrow> u32" where
  "event_ssrc (Packet ssrc _ _ _ _ _ _) = ssrc"
| "event_ssrc (SenderReport ssrc _ _ _ _) = ssrc"

fun event_fresh :: "reception_event \<Rightarrow> RTPReceptionStats" where
  "event_fresh (Packet ssrc seqNum _ _ _ _ _) = newRTPReceptionStats ssrc seqNum"
| "event_fresh (SenderReport ssrc _ _ _ _) = newRTPReceptionStats ssrc 0"

fun event_upd :: "reception_event \<Rightarrow> RTPReceptionStats \<Rightarrow> RTPReceptionStats" where
  "event_upd (Packet _ q ts f sz j now) s = snd (snd (noteIncomingPacket q ts f sz j now s))"
| "event_upd (SenderReport _ msw lsw ts now) s = stats_noteIncomingSR msw lsw ts now s"

fun rdb_step :: "reception_event \<Rightarrow> RTPReceptionStatsDB \<Rightarrow> RTPReceptionStatsDB" where
  "rdb_step (Packet ssrc q ts f sz j now) d = snd (snd (rdb_noteIncomingPacket ssrc q ts f sz j now d))"
| "rdb_step (SenderReport ssrc msw lsw ts now) d = rdb_noteIncomingSR ssrc msw lsw ts now d"

interpretation rdb: keyed_store rdb_add rdb_lookup
  by unfold_locales (simp add: rdb_add_def rdb_lookup_def)

lemma rdb_lookup_step:
  "rdb_lookup (rdb_step e d) k =
     (if k = event_ssrc e
      then Some (event_upd e (case rdb_lookup d k of None \<Rightarrow> event_fresh e | Some v \<Rightarrow> v))
      else rdb_lookup d k)"
  by (cases e) (simp_all add: rdb_noteIncomingPacket_def rdb_noteIncomingSR_def rdb_add_def rdb_lookup_def
      Let_def split_def split: option.split)

interpretation rdb: keyed_events rdb_add rdb_lookup event_ssrc event_fresh event_upd rdb_step
  by unfold_locales (rule rdb_lookup_step)

text \<open>C31. The reception record of a source depends on the packets and sender reports of that source
  alone, in their order: the events of other sources, however interleaved, do not change it, and there is no
  record for a source that sent nothing.\<close>

theorem reception_db_demultiplexes:
  "rdb_lookup (fold rdb_step es newRTPReceptionStatsDB) ssrc =
     (case filter (\<lambda>e. event_ssrc e = ssrc) es of
        [] \<Rightarrow> None
      | e # es' \<Rightarrow> Some (fold event_upd (e # es') (event_fresh e)))"
  by (rule rdb.lookup_steps_absent) (simp add: rdb_lookup_def newRTPReceptionStatsDB_def)

text \<open>A receiver report block for the sink: the reporter's SSRC and the five words, the clock.\<close>

datatype rr_event = RRBlock string u32 u32 u32 u32 u32 u32 u64 u64 timeval

fun rr_ssrc :: "rr_event \<Rightarrow> u32" where
  "rr_ssrc (RRBlock _ ssrc _ _ _ _ _ _ _ _) = ssrc"

fun rr_upd :: "rr_event \<Rightarrow> RTPTransmissionStats \<Rightarrow> RTPTransmissionStats" where
  "rr_upd (RRBlock addr _ loss high jit lsr dlsr octets packets now) s =
     noteIncomingRR octets packets addr loss high jit lsr dlsr now s"

fun tdb_step :: "rr_event \<Rightarrow> RTPTransmissionStatsDB \<Rightarrow> RTPTransmissionStatsDB" where
  "tdb_step (RRBlock addr ssrc loss high jit lsr dlsr octets packets now) d =
     tdb_noteIncomingRR octets packets addr ssrc loss high jit lsr dlsr now d"

interpretation tdb: keyed_store tdb_add tdb_lookup
  by unfold_locales (simp add: tdb_add_def tdb_lookup_def)

lemma tdb_lookup_step:
  "tdb_lookup (tdb_step e d) k =
     (if k = rr_ssrc e
      then Some (rr_upd e (case tdb_lookup d k of None \<Rightarrow> newRTPTransmissionStats (rr_ssrc e) | Some v \<Rightarrow> v))
      else tdb_lookup d k)"
  by (cases e) (simp add: tdb_noteIncomingRR_def tdb_add_def tdb_lookup_def Let_def split: option.split)

interpretation tdb: keyed_events tdb_add tdb_lookup rr_ssrc "\<lambda>e. newRTPTransmissionStats (rr_ssrc e)" rr_upd tdb_step
  by unfold_locales (rule tdb_lookup_step)

section \<open>Sent octets per receiver\<close>

definition sent_octets :: "RTPTransmissionStats \<Rightarrow> int" where
  "sent_octets s = uint (totalOctetCountHi s) * 2 ^ 32 + uint (totalOctetCountLo s)"

definition sent_packets :: "RTPTransmissionStats \<Rightarrow> int" where
  "sent_packets s = uint (totalPacketCountHi s) * 2 ^ 32 + uint (totalPacketCountLo s)"

lemma rr_fields:
  fixes e
  assumes e: "e = RRBlock addr ssrc loss high jit lsr dlsr octets packets now"
  shows "lastOctetCount (rr_upd e s) = ucast octets"
    and "lastPacketCount (rr_upd e s) = ucast packets"
    and "totalOctetCountLo (rr_upd e s) = totalOctetCountLo s + (ucast octets - lastOctetCount s)"
    and "totalPacketCountLo (rr_upd e s) = totalPacketCountLo s + (ucast packets - lastPacketCount s)"
    and "totalOctetCountHi (rr_upd e s) =
      (if totalOctetCountLo s + (ucast octets - lastOctetCount s) < totalOctetCountLo s
       then totalOctetCountHi s + 1 else totalOctetCountHi s)"
    and "totalPacketCountHi (rr_upd e s) =
      (if totalPacketCountLo s + (ucast packets - lastPacketCount s) < totalPacketCountLo s
       then totalPacketCountHi s + 1 else totalPacketCountHi s)"
  by (simp_all add: e noteIncomingRR_def Let_def)

fun rr_octets :: "rr_event \<Rightarrow> u64" where
  "rr_octets (RRBlock _ _ _ _ _ _ _ octets _ _) = octets"

text \<open>The sink's counter grows by less than \<open>2 ^ 32\<close> between two reports.\<close>

fun steady :: "u64 \<Rightarrow> rr_event list \<Rightarrow> bool" where
  "steady c [] = True"
| "steady c (e # es) = (uint c \<le> uint (rr_octets e) \<and> uint (rr_octets e) < uint c + 2 ^ 32 \<and> steady (rr_octets e) es)"

lemma uint_ucast_diff:
  fixes a b :: u64
  assumes "uint b \<le> uint a" "uint a < uint b + 2 ^ 32"
  shows "uint (ucast a - ucast b :: u32) = uint a - uint b"
proof -
  have "uint (ucast a - ucast b :: u32) = (uint a mod 2 ^ 32 - uint b mod 2 ^ 32) mod 2 ^ 32"
    by (simp add: uint_word_ariths unsigned_ucast_eq take_bit_eq_mod)
  also have "\<dots> = (uint a - uint b) mod 2 ^ 32" by (simp only: mod_diff_eq)
  also have "\<dots> = uint a - uint b" using assms by (intro mod_pos_pos_trivial) simp_all
  finally show ?thesis .
qed

lemma rr_octets_step:
  fixes c :: u64
  assumes "lastOctetCount s = ucast c" "uint c \<le> uint (rr_octets e)" "uint (rr_octets e) < uint c + 2 ^ 32"
  shows "sent_octets (rr_upd e s) mod 2 ^ 64 = (sent_octets s + (uint (rr_octets e) - uint c)) mod 2 ^ 64"
    and "lastOctetCount (rr_upd e s) = ucast (rr_octets e)"
proof -
  obtain addr ssrc loss high jit lsr dlsr octets packets now
    where e: "e = RRBlock addr ssrc loss high jit lsr dlsr octets packets now" by (cases e)
  have o: "rr_octets e = octets" by (simp add: e)
  have d: "uint (ucast octets - ucast c :: u32) = uint octets - uint c"
    by (rule uint_ucast_diff) (use assms o in simp_all)
  show "sent_octets (rr_upd e s) mod 2 ^ 64 = (sent_octets s + (uint (rr_octets e) - uint c)) mod 2 ^ 64"
    unfolding sent_octets_def rr_fields(3,5) [OF e] assms(1) o d [symmetric] by (rule uint_carry)
  show "lastOctetCount (rr_upd e s) = ucast (rr_octets e)" unfolding o by (rule rr_fields(1) [OF e])
qed

text \<open>C33. However often a receiver reports, the octet count kept for it is what the sink has sent in all, at any size up to
  \<open>2 ^ 64\<close>, although the code keeps two 32-bit words: provided that the sink's counter does not go back, and grows by less than
  \<open>2 ^ 32\<close> octets before the first report and from each report to the next (\<open>steady\<close>). A longer gap is counted modulo \<open>2 ^ 32\<close>
  only.\<close>

theorem transmission_octets_exact:
  assumes "steady 0 (es @ [e])"
  shows "sent_octets (fold rr_upd (es @ [e]) (newRTPTransmissionStats ssrc)) mod 2 ^ 64 = uint (rr_octets e)"
proof -
  have gen: "sent_octets (fold rr_upd es s) mod 2 ^ 64 = (sent_octets s + (uint (rr_octets (last es)) - uint c)) mod 2 ^ 64"
    if "lastOctetCount s = ucast c" "steady c es" "es \<noteq> []" for c :: u64 and s and es :: "rr_event list"
    using that
  proof (induction es arbitrary: c s)
    case (Cons e es)
    have st: "uint c \<le> uint (rr_octets e)" "uint (rr_octets e) < uint c + 2 ^ 32" "steady (rr_octets e) es"
      using Cons.prems by auto
    note step = rr_octets_step [OF Cons.prems(1) st(1,2)]
    show ?case
    proof (cases "es = []")
      case True then show ?thesis using step(1) by simp
    next
      case False
      have "sent_octets (fold rr_upd es (rr_upd e s)) mod 2 ^ 64
        = (sent_octets (rr_upd e s) + (uint (rr_octets (last es)) - uint (rr_octets e))) mod 2 ^ 64"
        by (rule Cons.IH [OF step(2) st(3) False])
      also have "\<dots> = (sent_octets s + (uint (rr_octets e) - uint c) + (uint (rr_octets (last es)) - uint (rr_octets e))) mod 2 ^ 64"
        by (rule mod_add_cong [OF step(1) refl])
      finally show ?thesis using False by (simp add: algebra_simps)
    qed
  qed simp
  have "sent_octets (newRTPTransmissionStats ssrc) = 0" "lastOctetCount (newRTPTransmissionStats ssrc) = ucast (0 :: u64)"
    by (simp_all add: sent_octets_def newRTPTransmissionStats_def)
  moreover have "uint (rr_octets e) < 2 ^ 64" using uint_bounded [of "rr_octets e"] by simp
  ultimately show ?thesis using gen [of "newRTPTransmissionStats ssrc" 0 "es @ [e]"] assms by simp
qed

lemma transmission_octets_exact_witness:
  "let es = map (\<lambda>n. RRBlock '''' 1 0 0 0 0 0 n 0 tv_zero) [3000000000, 6000000000, 9000000000]
   in sent_octets (fold rr_upd es (newRTPTransmissionStats 1)) mod 2 ^ 64 = 9000000000"
  using transmission_octets_exact [of "map (\<lambda>n. RRBlock '''' 1 0 0 0 0 0 n 0 tv_zero) [3000000000, 6000000000]"
      "RRBlock '''' 1 0 0 0 0 0 9000000000 0 tv_zero" 1]
  by (simp add: Let_def del: fold.simps)

end
