(* ===== verification/RtpSource.thy ===== *)
theory RtpSource
  imports Reorder RtpStatsDB Framed
begin

text \<open>
  \<^verbatim>\<open>livemedia/multi_framed_rtp_source_linux_amd64.go\<close>, second part, with
  \<^verbatim>\<open>livemedia/rtp_source.go\<close> and \<^verbatim>\<open>livemedia/h264_video_rtp_source.go\<close>: the RTP receiver.

  \<open>networkReadStep\<close> is one turn of the outer loop of \<open>networkReadHandler\<close> up to the call of
  \<open>doGetNextFrame1\<close>: one read, the parse of the RTP header, statistics, and the reordering buffer.
  \<open>doGetNextFrame1\<close> delivers what is ready. The special header handler and the packet's
  \<open>nextEnclosedFrameProc\<close> are function values of the code; they are arguments here, instantiated
  by the H.264 functions at the end.
\<close>

section \<open>State\<close>

record RTPSource = FramedSource +
  ssrc :: u32
  lastReceivedSSRC :: u32
  rtpPayloadFormat :: u32
  timestampFrequency :: u32
  curPacketRTPSeqNum :: u32
  curPacketRTPTimestamp :: u32
  curPacketSyncUsingRTCP :: bool
  curPacketMarkerBit :: bool
  receptionStatsDB :: RTPReceptionStatsDB

record MultiFramedRTPSource = RTPSource +
  needDelivery :: bool
  areDoingNetworkReads :: bool
  currentPacketBeginsFrame :: bool
  currentPacketCompletesFrame :: bool
  packetLossInFragmentedFrame :: bool
  packetReadInProgress :: "nat option"
  reOrderingBuffer :: ReorderingPacketBuffer
  packets :: packet_store
  freshPacket :: nat

record H264VideoRTPSource = MultiFramedRTPSource +
  curPacketNALUnitType :: nat
  h264_currentPacketBeginsFrame :: bool
  h264_currentPacketCompletesFrame :: bool

definition initRTPSource ::
  "u32 \<Rightarrow> u32 \<Rightarrow> u32 \<Rightarrow> 'a RTPSource_scheme \<Rightarrow> 'a RTPSource_scheme" where
  "initRTPSource random32 payloadFormat frequency s =
     s\<lparr>lastReceivedSSRC := 0, rtpPayloadFormat := payloadFormat, timestampFrequency := frequency,
       ssrc := random32, curPacketSyncUsingRTCP := False, receptionStatsDB := newRTPReceptionStatsDB\<rparr>"

definition source_reset :: "'a MultiFramedRTPSource_scheme \<Rightarrow> 'a MultiFramedRTPSource_scheme" where
  "source_reset s =
     s\<lparr>packetLossInFragmentedFrame := False, currentPacketCompletesFrame := True,
       currentPacketBeginsFrame := True, areDoingNetworkReads := False, needDelivery := False\<rparr>"

definition initMultiFramedRTPSource ::
  "u32 \<Rightarrow> u32 \<Rightarrow> u32 \<Rightarrow> 'a MultiFramedRTPSource_scheme \<Rightarrow> 'a MultiFramedRTPSource_scheme" where
  "initMultiFramedRTPSource random32 payloadFormat frequency s =
     initRTPSource random32 payloadFormat frequency
       ((source_reset s)\<lparr>reOrderingBuffer := newReorderingPacketBuffer\<rparr>)"

definition newH264VideoRTPSource :: "u32 \<Rightarrow> u32 \<Rightarrow> u32 \<Rightarrow> H264VideoRTPSource" where
  "newH264VideoRTPSource random32 payloadFormat frequency =
     initMultiFramedRTPSource random32 payloadFormat frequency
       \<lparr>buffTo = [], maxSize = 0, frameSize = 0, numTruncatedBytes = 0, durationInMicroseconds = 0,
        isCurrentlyAwaitingData = False, presentationTime = tv_zero,
        ssrc = 0, lastReceivedSSRC = 0, rtpPayloadFormat = 0, timestampFrequency = 0,
        curPacketRTPSeqNum = 0, curPacketRTPTimestamp = 0, curPacketSyncUsingRTCP = False,
        curPacketMarkerBit = False, receptionStatsDB = newRTPReceptionStatsDB,
        needDelivery = False, areDoingNetworkReads = False, currentPacketBeginsFrame = False,
        currentPacketCompletesFrame = False, packetLossInFragmentedFrame = False,
        packetReadInProgress = None, reOrderingBuffer = newReorderingPacketBuffer,
        packets = Map.empty, freshPacket = 0,
        curPacketNALUnitType = 0, h264_currentPacketBeginsFrame = False,
        h264_currentPacketCompletesFrame = False\<rparr>"

definition source_doGetNextFrame :: "'a MultiFramedRTPSource_scheme \<Rightarrow> 'a MultiFramedRTPSource_scheme" where
  "source_doGetNextFrame s = s\<lparr>frameSize := 0\<rparr>"

section \<open>networkReadHandler\<close>

text \<open>
  The parse of the header on the packet that was read. \<open>Rejected\<close> is a \<open>break\<close> out of the inner loop;
  \<open>Parsed\<close> has the header word, the timestamp and the SSRC, and the packet with its window moved
  to the payload.
\<close>

datatype parse_result =
    Rejected BufferedPacket
  | Parsed u32 u32 u32 BufferedPacket

definition hdr_word :: "BufferedPacket \<Rightarrow> u32 option" where
  "hdr_word p = do { d \<leftarrow> packet_data p; Some (fst (Ntohl d)) }"

definition parseExtension :: "u32 \<Rightarrow> BufferedPacket \<Rightarrow> (bool \<times> BufferedPacket) option" where
  "parseExtension rtpHdr p =
     (if rtpHdr AND 0x10000000 \<noteq> 0 then
        if dataSize p < 4 then Some (False, p)
        else do {
          extHdr \<leftarrow> hdr_word p;
          let p1 = skip 4 p;
          let remExtSize = unat (4 * (extHdr AND 0xFFFF));
          if dataSize p1 < remExtSize then Some (False, p1)
          else Some (True, skip remExtSize p1)
        }
      else Some (True, p))"

definition parsePadding :: "u32 \<Rightarrow> BufferedPacket \<Rightarrow> (bool \<times> BufferedPacket) option" where
  "parsePadding rtpHdr p =
     (if rtpHdr AND 0x20000000 \<noteq> 0 then
        if dataSize p = 0 then Some (False, p)
        else do {
          d \<leftarrow> packet_data p;
          b \<leftarrow> idx d (dataSize p - 1);
          let numPaddingBytes = unat b;
          if dataSize p < numPaddingBytes then Some (False, p)
          else Some (True, removePadding numPaddingBytes p)
        }
      else Some (True, p))"

definition parseRTPHeader :: "u32 \<Rightarrow> BufferedPacket \<Rightarrow> parse_result option" where
  "parseRTPHeader payloadFormat p0 =
     (if dataSize p0 < 12 then Some (Rejected p0)
      else do {
        rtpHdr \<leftarrow> hdr_word p0;
        let p1 = skip 4 p0;
        rtpTimestamp \<leftarrow> hdr_word p1;
        let p2 = skip 4 p1;
        rtpSSRC \<leftarrow> hdr_word p2;
        let p3 = skip 4 p2;
        if rtpHdr AND 0xC0000000 \<noteq> 0x80000000 then Some (Rejected p3)
        else
          (let cc = unat (drop_bit 24 rtpHdr AND 0xF) in
           if dataSize p3 < cc then Some (Rejected p3)
           else do {
             (ok4, p4) \<leftarrow> parseExtension rtpHdr (skip (cc * 4) p3);
             if \<not> ok4 then Some (Rejected p4)
             else do {
               (ok5, p5) \<leftarrow> parsePadding rtpHdr p4;
               if \<not> ok5 then Some (Rejected p5)
               else if drop_bit 16 (rtpHdr AND 0x007F0000) \<noteq> payloadFormat then Some (Rejected p5)
               else Some (Parsed rtpHdr rtpTimestamp rtpSSRC p5)
             }
           })
      })"

definition packetIsUsableInJitterCalculation :: "BufferedPacket \<Rightarrow> bool" where
  "packetIsUsableInJitterCalculation p = True"

text \<open>
  One turn: \<open>input\<close> is what the interface read (\<open>None\<close>: an error), \<open>timeNow\<close> the clock. The result is
  whether the packet was put into the reordering buffer, and the new state.
\<close>

definition networkReadStep ::
  "bytes option \<Rightarrow> timeval \<Rightarrow> 'a MultiFramedRTPSource_scheme \<Rightarrow> (bool \<times> 'a MultiFramedRTPSource_scheme) option" where
  "networkReadStep input timeNow s =
     (let (a, st, b) =
            (case packetReadInProgress s of
               Some a \<Rightarrow> (a, packets s, reOrderingBuffer s)
             | None \<Rightarrow> getFreePacket (freshPacket s) (packets s) (reOrderingBuffer s));
          s1 = s\<lparr>packets := st, reOrderingBuffer := b, freshPacket := max (freshPacket s) (Suc a)\<rparr>
      in case input of
           None \<Rightarrow> Some (False, s1)
         | Some datagram \<Rightarrow> do {
             p \<leftarrow> st a;
             p0 \<leftarrow> fillInData datagram p;
             r \<leftarrow> parseRTPHeader (rtpPayloadFormat s1) p0;
             case r of
               Rejected p' \<Rightarrow> Some (False, s1\<lparr>packets := st(a \<mapsto> p')\<rparr>)
             | Parsed rtpHdr rtpTimestamp rtpSSRC p' \<Rightarrow> do {
                 let s2 = (if rtpSSRC \<noteq> lastReceivedSSRC s1
                           then s1\<lparr>lastReceivedSSRC := rtpSSRC,
                                   reOrderingBuffer := resetHaveSeenFirstPacket (reOrderingBuffer s1)\<rparr>
                           else s1);
                 let seqNo = rtpHdr AND 0xFFFF;
                 let (pt, synced, db) =
                   rdb_noteIncomingPacket rtpSSRC seqNo rtpTimestamp (timestampFrequency s2)
                     (word_of_nat (dataSize p')) (packetIsUsableInJitterCalculation p') timeNow (receptionStatsDB s2);
                 let p'' = assignMiscParams seqNo rtpTimestamp pt timeNow synced (rtpHdr AND 0x00800000 \<noteq> 0) p';
                 (ok, st', b') \<leftarrow> storePacket a (st(a \<mapsto> p'')) (reOrderingBuffer s2);
                 Some (ok, s2\<lparr>receptionStatsDB := db, packets := st', reOrderingBuffer := b'\<rparr>)
               }
           })"

section \<open>doGetNextFrame1\<close>

text \<open>
  The loop runs while \<open>needDelivery\<close>; \<open>clock k\<close> is the time of its \<open>k\<close>-th turn. The frames given to
  the client are listed: the buffer and the arguments of the \<open>afterGetting\<close> callback.
\<close>

type_synonym delivery = "bytes \<times> nat \<times> nat \<times> timeval"

partial_function (option) doGetNextFrame1_loop ::
  "(nat \<Rightarrow> 'a MultiFramedRTPSource_scheme \<Rightarrow> (nat \<times> bool \<times> 'a MultiFramedRTPSource_scheme) option) \<Rightarrow>
   ('a MultiFramedRTPSource_scheme \<Rightarrow> BufferedPacket \<Rightarrow> (bytes \<Rightarrow> nat \<Rightarrow> nat option) option) \<Rightarrow>
   (nat \<Rightarrow> timeval) \<Rightarrow> nat \<Rightarrow> 'a MultiFramedRTPSource_scheme \<Rightarrow> delivery list \<Rightarrow>
   ('a MultiFramedRTPSource_scheme \<times> delivery list) option" where
  "doGetNextFrame1_loop specialHeader frameProc clock k s out =
     (if \<not> needDelivery s then Some (s, out)
      else do {
        (next, packetLossPrecededThis, b1) \<leftarrow> getNextCompletedPacket (clock k) (packets s) (reOrderingBuffer s);
        let s1 = s\<lparr>reOrderingBuffer := b1\<rparr>;
        if next = None then Some (s1, out)
        else do {
          a \<leftarrow> next;
          let s2 = s1\<lparr>needDelivery := False\<rparr>;
          p \<leftarrow> packets s2 a;
          (processOK, s3) \<leftarrow>
            (if useCount p = 0 then do {
               (sz, ok, s3) \<leftarrow> specialHeader a s2;
               p1 \<leftarrow> packets s3 a;
               Some (ok, if ok then s3\<lparr>packets := (packets s3)(a \<mapsto> skip sz p1)\<rparr> else s3)
             } else Some (True, s2));
          if \<not> processOK then do {
            (st4, b4) \<leftarrow> releaseUsedPacket a (packets s3) (reOrderingBuffer s3);
            Some (s3\<lparr>packets := st4, reOrderingBuffer := b4, needDelivery := True\<rparr>, out)
          }
          else do {
            let s4 = (if currentPacketBeginsFrame s3 then s3\<lparr>packetLossInFragmentedFrame := False\<rparr>
                      else if packetLossPrecededThis then s3\<lparr>packetLossInFragmentedFrame := True\<rparr> else s3);
            if packetLossInFragmentedFrame s4 then do {
              (st5, b5) \<leftarrow> releaseUsedPacket a (packets s4) (reOrderingBuffer s4);
              Some (s4\<lparr>packets := st5, reOrderingBuffer := b5, needDelivery := True\<rparr>, out)
            }
            else do {
              p4 \<leftarrow> packets s4 a;
              (buff, info, p5) \<leftarrow> packet_use (frameProc s4 p4) (buffTo s4) (maxSize s4 mod 2 ^ 32) p4;
              let s5 = s4\<lparr>buffTo := buff, packets := (packets s4)(a \<mapsto> p5),
                          presentationTime := pi_presentationTime info,
                          numTruncatedBytes := bytesTruncated info,
                          curPacketRTPTimestamp := pi_rtpTimestamp info,
                          curPacketMarkerBit := pi_rtpMarkerBit info,
                          curPacketRTPSeqNum := pi_rtpSeqNo info,
                          curPacketSyncUsingRTCP := pi_hasBeenSyncedUsingRTCP info,
                          frameSize := uadd (frameSize s4) (bytesUsed info)\<rparr>;
              s6 \<leftarrow> (if \<not> hasUsableData p5 then do {
                         (st6, b6) \<leftarrow> releaseUsedPacket a (packets s5) (reOrderingBuffer s5);
                         Some (s5\<lparr>packets := st6, reOrderingBuffer := b6\<rparr>)
                       } else Some s5);
              if currentPacketCompletesFrame s6 then
                (let (s7, args) = afterGetting s6
                 in doGetNextFrame1_loop specialHeader frameProc clock (Suc k) s7 (out @ [(buffTo s7, args)]))
              else
                doGetNextFrame1_loop specialHeader frameProc clock (Suc k) (s6\<lparr>needDelivery := True\<rparr>) out
            }
          }
        }
      })"

declare doGetNextFrame1_loop.simps [code]

definition doGetNextFrame1 where
  "doGetNextFrame1 specialHeader frameProc clock s =
     doGetNextFrame1_loop specialHeader frameProc clock 0 (s\<lparr>needDelivery := True\<rparr>) []"

text \<open>A whole turn of \<open>networkReadHandler\<close>.\<close>

definition networkReadHandler_turn where
  "networkReadHandler_turn specialHeader frameProc input timeNow clock s = do {
     (_, s1) \<leftarrow> networkReadStep input timeNow s;
     doGetNextFrame1 specialHeader frameProc clock s1
   }"

section \<open>H264VideoRTPSource\<close>

text \<open>
  \<open>processSpecialHeader\<close> rewrites the FU header of the first fragment to the NAL header. Its size and
  its verdict, with the source.
\<close>

definition processSpecialHeader ::
  "nat \<Rightarrow> H264VideoRTPSource \<Rightarrow> (nat \<times> bool \<times> H264VideoRTPSource) option" where
  "processSpecialHeader a s = do {
     p \<leftarrow> packets s a;
     headerStart \<leftarrow> packet_data p;
     h0 \<leftarrow> idx headerStart 0;
     let t = unat (h0 AND 0x1F);
     let s1 = s\<lparr>curPacketNALUnitType := t\<rparr>;
     if t = 24 then Some (1, True, s1)
     else if t \<in> {25, 26, 27} then Some (3, True, s1)
     else if t \<in> {28, 29} then do {
       h1 \<leftarrow> idx headerStart 1;
       let endBit = h1 AND 0x40;
       if h1 AND 0x80 \<noteq> 0 then
         if dataSize p < 1 then Some (0, False, s1)
         else do {
           buf \<leftarrow> put (pk_buffer p) (pk_head p + 1) ((h0 AND 0xE0) + (h1 AND 0x1F));
           Some (1, True, s1\<lparr>packets := (packets s1)(a \<mapsto> p\<lparr>pk_buffer := buf\<rparr>),
                             h264_currentPacketBeginsFrame := True,
                             h264_currentPacketCompletesFrame := (endBit \<noteq> 0)\<rparr>)
         }
       else
         if dataSize p < 2 then Some (0, False, s1)
         else Some (2, True, s1\<lparr>h264_currentPacketBeginsFrame := False,
                                h264_currentPacketCompletesFrame := (endBit \<noteq> 0)\<rparr>)
     }
     else Some (0, True, s1\<lparr>h264_currentPacketBeginsFrame := True, h264_currentPacketCompletesFrame := True\<rparr>)
   }"

text \<open>\<open>H264BufferedPacket.nextEnclosedFrameSize\<close>, with the packet and the source it is bound to.\<close>

definition h264_nextEnclosedFrameSize :: "H264VideoRTPSource \<Rightarrow> BufferedPacket \<Rightarrow> bytes \<Rightarrow> nat \<Rightarrow> nat option" where
  "h264_nextEnclosedFrameSize s p buff sz = do {
     framePtr \<leftarrow> slice_from buff (pk_head p);
     let size' = u32sub (pk_tail p) (pk_head p);
     let t = curPacketNALUnitType s;
     let (known, need) = (if t \<in> {24, 25} then (True, 2) else if t = 26 then (True, 5)
                          else if t = 27 then (True, 6) else (False, 0));
     if \<not> known then Some size'
     else do {
       resultNALUSize \<leftarrow>
         (if size' \<ge> need then do {
            b0 \<leftarrow> idx framePtr 0;
            b1 \<leftarrow> idx framePtr 1;
            _ \<leftarrow> slice_from framePtr need;
            Some (unat (push_bit 8 (ucast b0 :: u32) OR ucast b1))
          } else Some 0);
       Some (if resultNALUSize \<le> size' then resultNALUSize else size')
     }
   }"

definition h264_doGetNextFrame1 where
  "h264_doGetNextFrame1 = doGetNextFrame1 processSpecialHeader (\<lambda>s p. Some (h264_nextEnclosedFrameSize s p))"

section \<open>The RTP wire format\<close>

text \<open>
  A datagram of RFC 3550, 5.1: the header word \<open>h\<close>, timestamp, SSRC, the CSRC list, the extension, the payload and
  the padding. \<open>rtp_ok\<close>: the fields of \<open>h\<close> agree with the parts.
\<close>

definition rtp_datagram :: "u32 \<Rightarrow> u32 \<Rightarrow> u32 \<Rightarrow> bytes \<Rightarrow> bytes \<Rightarrow> bytes \<Rightarrow> bytes \<Rightarrow> bytes" where
  "rtp_datagram h ts src csrc ext body padding =
     be32_enc h @ be32_enc ts @ be32_enc src @ csrc @ ext @ body @ padding"

definition ext_ok :: "u32 \<Rightarrow> bytes \<Rightarrow> bool" where
  "ext_ok h ext \<longleftrightarrow>
     (if h AND 0x10000000 \<noteq> 0
      then (case be32 ext of None \<Rightarrow> False | Some e \<Rightarrow> length ext = 4 + unat (4 * (e AND 0xFFFF)))
      else ext = [])"

definition padding_ok :: "u32 \<Rightarrow> bytes \<Rightarrow> bool" where
  "padding_ok h padding \<longleftrightarrow>
     (if h AND 0x20000000 \<noteq> 0 then padding \<noteq> [] \<and> unat (last padding) = length padding else padding = [])"

definition rtp_ok :: "u32 \<Rightarrow> bytes \<Rightarrow> bytes \<Rightarrow> bytes \<Rightarrow> bool" where
  "rtp_ok h csrc ext padding \<longleftrightarrow>
     h AND 0xC0000000 = 0x80000000 \<and> length csrc = 4 * unat (drop_bit 24 h AND 0xF) \<and>
     ext_ok h ext \<and> padding_ok h padding"

text \<open>A window: a well-formed packet and the bytes it holds.\<close>

definition holds :: "BufferedPacket \<Rightarrow> bytes \<Rightarrow> bool" where
  "holds p bs \<longleftrightarrow> pk_wf p \<and> payload p = bs"

lemma holds_size [simp]: "holds p bs \<Longrightarrow> dataSize p = length bs"
  using wf_bounds by (auto simp: holds_def)

lemma holds_bound: "holds p bs \<Longrightarrow> length bs \<le> 20000"
  using wf_bounds [of p] by (auto simp: holds_def)

lemma holds_prefix:
  assumes "holds p bs"
  shows "\<exists>d. packet_data p = Some d \<and> take (length bs) d = bs"
  using assms data_prefix packet_data_wf by (auto simp: holds_def)

lemma holds_word:
  assumes "holds p (be32_enc w @ bs)"
  shows "hdr_word p = Some w"
proof -
  obtain d where d: "packet_data p = Some d" "take (length (be32_enc w @ bs)) d = be32_enc w @ bs"
    using holds_prefix [OF assms] by blast
  have "take 4 d = take 4 (take (length (be32_enc w @ bs)) d)" by (simp add: c32.enc_length)
  also have "\<dots> = be32_enc w" unfolding d(2) by (simp add: c32.enc_length)
  finally show ?thesis using d(1) by (simp add: hdr_word_def Ntohl_prefix)
qed

lemma hdr_word_total: "holds p bs \<Longrightarrow> \<exists>w. hdr_word p = Some w"
  by (auto simp: hdr_word_def holds_def packet_data_wf)

lemma holds_skip: "holds p bs \<Longrightarrow> n < 2 ^ 31 \<Longrightarrow> holds (skip n p) (drop n bs)"
  using skip_wf by (auto simp: holds_def)

lemma holds_skip_word: "holds p (be32_enc w @ bs) \<Longrightarrow> holds (skip 4 p) bs"
  using holds_skip [of p "be32_enc w @ bs" 4] by (simp add: c32.enc_length)

lemma holds_skip_app: "holds p (xs @ bs) \<Longrightarrow> n = length xs \<Longrightarrow> holds (skip n p) bs"
  using holds_skip [of p "xs @ bs" n] holds_bound [of p "xs @ bs"] by simp

lemma holds_removePadding: "holds p (bs @ xs) \<Longrightarrow> holds (removePadding (length xs) p) bs"
  using removePadding_wf [of p "length xs"] by (simp add: holds_def)

lemma holds_new: "length input \<le> 20000 \<Longrightarrow> \<exists>p. fillInData input newBufferedPacket = Some p \<and> holds p input"
  using fillInData_new [of input] by (auto simp: holds_def maxPacketSize_def)

lemma unat_ext_small: "unat (4 * (e AND 0xFFFF) :: u32) < 2 ^ 31"
proof -
  have "e AND 0xFFFF \<le> (0xFFFF :: u32)" by (simp add: word_and_le1)
  then have "unat (e AND 0xFFFF) \<le> 0xFFFF" by (simp add: word_le_nat_alt)
  then show ?thesis by (simp add: unat_word_ariths take_bit_nat_eq_self)
qed

lemma parseExtension_total:
  assumes "holds p bs"
  shows "\<exists>ok p' bs'. parseExtension h p = Some (ok, p') \<and> holds p' bs'"
proof -
  obtain e where e: "hdr_word p = Some e" using hdr_word_total [OF assms] by blast
  have "holds (skip (unat (4 * (e AND 0xFFFF))) (skip 4 p)) (drop (unat (4 * (e AND 0xFFFF))) (drop 4 bs))"
    by (intro holds_skip assms unat_ext_small) simp
  moreover have "holds (skip 4 p) (drop 4 bs)" by (intro holds_skip assms) simp
  ultimately show ?thesis using assms e unfolding parseExtension_def Let_def by auto
qed

lemma parsePadding_total:
  assumes "holds p bs"
  shows "\<exists>ok p' bs'. parsePadding h p = Some (ok, p') \<and> holds p' bs'"
proof -
  obtain d where d: "packet_data p = Some d" "take (length bs) d = bs" using holds_prefix [OF assms] by blast
  have "length bs \<le> length d" using d(2) by (metis length_take min.cobounded1)
  moreover have "holds (removePadding n p) (take (length bs - n) bs)" if "\<not> length bs < n" for n
    using removePadding_wf [of p n] assms that by (auto simp: holds_def)
  ultimately show ?thesis
    using assms d unfolding parsePadding_def Let_def
    by (cases "bs = []") (auto simp: idx_def)
qed

lemma parseExtension_exact:
  assumes h: "holds p (ext @ bs)" and ok: "ext_ok h ext"
  shows "\<exists>p'. parseExtension h p = Some (True, p') \<and> holds p' bs"
proof (cases "h AND 0x10000000 \<noteq> 0")
  case True
  then obtain e where e: "be32 ext = Some e" "length ext = 4 + unat (4 * (e AND 0xFFFF))"
    using ok by (auto simp: ext_ok_def split: option.splits)
  obtain d where d: "packet_data p = Some d" "take (length (ext @ bs)) d = ext @ bs"
    using holds_prefix [OF h] by blast
  have "be32 d = Some e"
  proof -
    have "d = ext @ bs @ drop (length (ext @ bs)) d" using d(2) by (metis append_assoc append_take_drop_id)
    moreover have "be32 (ext @ xs) = Some e" for xs using e(1) by (cases ext rule: be32.cases) auto
    ultimately show ?thesis by metis
  qed
  then have w: "hdr_word p = Some e" using d(1) by (simp add: hdr_word_def Ntohl_def)
  have h1: "holds (skip 4 p) (drop 4 ext @ bs)" using holds_skip [OF h, of 4] e(2) by simp
  have "holds (skip (unat (4 * (e AND 0xFFFF))) (skip 4 p)) bs" by (rule holds_skip_app [OF h1]) (simp add: e(2))
  moreover have "\<not> dataSize p < 4" "\<not> dataSize (skip 4 p) < unat (4 * (e AND 0xFFFF))"
    using holds_size [OF h] holds_size [OF h1] e(2) by simp_all
  ultimately show ?thesis using True w by (simp add: parseExtension_def Let_def)
next
  case False
  then show ?thesis using h ok by (simp add: parseExtension_def ext_ok_def)
qed

lemma parsePadding_exact:
  assumes h: "holds p (bs @ padding)" and ok: "padding_ok h padding"
  shows "\<exists>p'. parsePadding h p = Some (True, p') \<and> holds p' bs"
proof (cases "h AND 0x20000000 \<noteq> 0")
  case True
  then have pad: "padding \<noteq> []" "unat (last padding) = length padding" using ok by (auto simp: padding_ok_def)
  obtain d where d: "packet_data p = Some d" "take (length (bs @ padding)) d = bs @ padding"
    using holds_prefix [OF h] by blast
  let ?n = "length (bs @ padding)"
  have n: "?n - 1 < ?n" "?n \<le> length d" using pad(1) d(2) by (auto simp: min_def dest: arg_cong [where f = length] split: if_splits)
  have "d ! (?n - 1) = (bs @ padding) ! (?n - 1)" using n(1) d(2) by (metis nth_take)
  also have "\<dots> = last padding" using pad(1) by (metis last_appendR last_conv_nth append_is_Nil_conv)
  finally have "idx d (?n - 1) = Some (last padding)" using n by simp
  then show ?thesis
    using True d(1) pad holds_size [OF h] holds_removePadding [OF h] by (simp add: parsePadding_def)
next
  case False
  then show ?thesis using h ok by (simp add: parsePadding_def padding_ok_def)
qed

text \<open>C32. No datagram makes the RTP header parser panic, and the packet it leaves has its offsets in order
  and inside the buffer.\<close>

theorem parseRTPHeader_total:
  assumes "length datagram \<le> maxPacketSize"
  shows "\<exists>p0 r. fillInData datagram newBufferedPacket = Some p0 \<and> parseRTPHeader pf p0 = Some r \<and>
    (case r of Rejected p \<Rightarrow> pk_wf p | Parsed h ts src p \<Rightarrow> pk_wf p)"
proof -
  obtain p0 where p0: "fillInData datagram newBufferedPacket = Some p0" "holds p0 datagram"
    using holds_new assms by (auto simp: maxPacketSize_def)
  let ?p1 = "skip 4 p0" and ?p2 = "skip 4 (skip 4 p0)" and ?p3 = "skip 4 (skip 4 (skip 4 p0))"
  have h1: "holds ?p1 (drop 4 datagram)" by (intro holds_skip p0) simp
  have h2: "holds ?p2 (drop 4 (drop 4 datagram))" by (intro holds_skip p0) simp_all
  have h3: "holds ?p3 (drop 4 (drop 4 (drop 4 datagram)))" by (intro holds_skip p0) simp_all
  obtain h ts src where w: "hdr_word p0 = Some h" "hdr_word ?p1 = Some ts" "hdr_word ?p2 = Some src"
    using hdr_word_total p0(2) h1 h2 by metis
  define cc where "cc = unat (drop_bit 24 h AND 0xF)"
  have "drop_bit 24 h AND 0xF \<le> (0xF :: u32)" by (simp add: word_and_le1)
  then have "cc \<le> 15" by (simp add: cc_def word_le_nat_alt)
  then have h4: "holds (skip (cc * 4) ?p3) (drop (cc * 4) (drop 4 (drop 4 (drop 4 datagram))))"
    by (intro holds_skip [OF h3]) simp
  obtain ok4 p4 bs4 where p4: "parseExtension h (skip (cc * 4) ?p3) = Some (ok4, p4)" "holds p4 bs4"
    using parseExtension_total [OF h4] by blast
  obtain ok5 p5 bs5 where p5: "parsePadding h p4 = Some (ok5, p5)" "holds p5 bs5"
    using parsePadding_total [OF p4(2)] by blast
  have wf: "pk_wf p0" "pk_wf ?p3" "pk_wf p4" "pk_wf p5" using p0 h3 p4 p5 by (auto simp: holds_def)
  have "\<exists>r. parseRTPHeader pf p0 = Some r \<and> (case r of Rejected p \<Rightarrow> pk_wf p | Parsed h ts src p \<Rightarrow> pk_wf p)"
    unfolding parseRTPHeader_def using w p4(1) p5(1) wf by (simp add: Let_def cc_def)
  then show ?thesis using p0(1) by auto
qed

lemma parseRTPHeader_total_witness:
  "\<exists>p0 r. fillInData (replicate 40 0xFF) newBufferedPacket = Some p0 \<and> parseRTPHeader 96 p0 = Some r"
  using parseRTPHeader_total [of "replicate 40 0xFF" 96] by (auto simp: maxPacketSize_def)

lemma parseRTPHeader_payload:
  assumes ok: "rtp_ok h csrc ext padding" and pt: "drop_bit 16 (h AND 0x007F0000) = pf"
    and len: "length (rtp_datagram h ts src csrc ext body padding) \<le> maxPacketSize"
  shows "\<exists>p0 p. fillInData (rtp_datagram h ts src csrc ext body padding) newBufferedPacket = Some p0 \<and>
    parseRTPHeader pf p0 = Some (Parsed h ts src p) \<and> pk_wf p \<and> payload p = body"
proof -
  obtain p0 where p0: "fillInData (rtp_datagram h ts src csrc ext body padding) newBufferedPacket = Some p0"
    "holds p0 (rtp_datagram h ts src csrc ext body padding)"
    using holds_new len by (auto simp: maxPacketSize_def)
  let ?p1 = "skip 4 p0" and ?p2 = "skip 4 (skip 4 p0)" and ?p3 = "skip 4 (skip 4 (skip 4 p0))"
  let ?cc = "unat (drop_bit 24 h AND 0xF)"
  have h0: "holds p0 (be32_enc h @ be32_enc ts @ be32_enc src @ csrc @ ext @ body @ padding)"
    using p0(2) by (simp add: rtp_datagram_def)
  have h1: "holds ?p1 (be32_enc ts @ be32_enc src @ csrc @ ext @ body @ padding)" by (rule holds_skip_word [OF h0])
  have h2: "holds ?p2 (be32_enc src @ csrc @ ext @ body @ padding)" by (rule holds_skip_word [OF h1])
  have h3: "holds ?p3 (csrc @ ext @ body @ padding)" by (rule holds_skip_word [OF h2])
  have cc: "?cc * 4 = length csrc" using ok by (simp add: rtp_ok_def)
  have h4: "holds (skip (?cc * 4) ?p3) (ext @ body @ padding)" by (rule holds_skip_app [OF h3 cc])
  obtain p4 where p4: "parseExtension h (skip (?cc * 4) ?p3) = Some (True, p4)" "holds p4 (body @ padding)"
    using parseExtension_exact [OF h4] ok by (auto simp: rtp_ok_def)
  obtain p5 where p5: "parsePadding h p4 = Some (True, p5)" "holds p5 body"
    using parsePadding_exact [OF p4(2)] ok by (auto simp: rtp_ok_def)
  have "\<not> dataSize p0 < 12" using holds_size [OF h0] by (simp add: c32.enc_length)
  moreover have "\<not> dataSize ?p3 < ?cc" using holds_size [OF h3] cc by simp
  ultimately have "parseRTPHeader pf p0 = Some (Parsed h ts src p5)"
    unfolding parseRTPHeader_def
    using holds_word [OF h0] holds_word [OF h1] holds_word [OF h2] p4(1) p5(1) ok pt
    by (simp add: Let_def rtp_ok_def)
  then show ?thesis using p0(1) p5(2) by (auto simp: holds_def)
qed

text \<open>C11. A well-formed RTP datagram with the right payload type is parsed to exactly its payload: the header, the CSRC
  list, the extension and the padding are removed and nothing else.\<close>

theorem parseRTPHeader_finds_payload:
  assumes ok: "rtp_ok h csrc ext padding" and pt: "drop_bit 16 (h AND 0x007F0000) = pf"
    and len: "length (rtp_datagram h ts src csrc ext body padding) \<le> maxPacketSize"
  shows "\<exists>p0 p. fillInData (rtp_datagram h ts src csrc ext body padding) newBufferedPacket = Some p0 \<and>
    parseRTPHeader pf p0 = Some (Parsed h ts src p) \<and> pk_wf p \<and> payload p = body"
  using assms by (rule parseRTPHeader_payload)

lemma parseRTPHeader_finds_payload_witness:
  "\<exists>p0 p. fillInData (rtp_datagram 0xB1E01234 1 2 [0, 0, 0, 9] [0, 0, 0, 1, 7, 7, 7, 7] [0x65, 1, 2] [0, 2]) newBufferedPacket
       = Some p0 \<and>
     parseRTPHeader 96 p0 = Some (Parsed 0xB1E01234 1 2 p) \<and> pk_wf p \<and> payload p = [0x65, 1, 2]"
proof (rule parseRTPHeader_finds_payload)
  show "rtp_ok 0xB1E01234 [0, 0, 0, 9] [0, 0, 0, 1, 7, 7, 7, 7] [0, 2]"
    unfolding rtp_ok_def ext_ok_def padding_ok_def by code_simp
  show "drop_bit 16 (0xB1E01234 AND 0x007F0000) = (96 :: u32)" by code_simp
qed (simp add: rtp_datagram_def c32.enc_length maxPacketSize_def)

section \<open>From the datagram to the reordering buffer\<close>

text \<open>
  A receiver in order: the list of waiting packets is well formed, the next address is fresh, no packet
  is being read.
\<close>

definition receiver_ok :: "'a MultiFramedRTPSource_scheme \<Rightarrow> nat list \<Rightarrow> bool" where
  "receiver_ok s xs \<longleftrightarrow>
     stored (packets s) (reOrderingBuffer s) xs \<and> packetReadInProgress s = None \<and>
     (savePacket (reOrderingBuffer s) = None \<or> \<not> savedPacketFree (reOrderingBuffer s)) \<and>
     (\<forall>a. freshPacket s \<le> a \<longrightarrow> packets s a = None)"

lemma getFreePacket_fresh:
  assumes "receiver_ok s xs"
  shows "\<exists>b'. getFreePacket (freshPacket s) (packets s) (reOrderingBuffer s)
      = (freshPacket s, (packets s)(freshPacket s \<mapsto> newBufferedPacket), b') \<and>
    headPacket b' = headPacket (reOrderingBuffer s) \<and> tailPacket b' = tailPacket (reOrderingBuffer s) \<and>
    haveSeenFirstPacket b' = haveSeenFirstPacket (reOrderingBuffer s) \<and>
    nextExpectedSeqNo b' = nextExpectedSeqNo (reOrderingBuffer s)"
  using assms by (auto simp: getFreePacket_def receiver_ok_def split: option.splits)

lemma stored_cong:
  assumes "stored st b xs" "x \<notin> set xs" and b': "headPacket b' = headPacket b" "tailPacket b' = tailPacket b"
    "haveSeenFirstPacket b' = haveSeenFirstPacket b" "nextExpectedSeqNo b' = nextExpectedSeqNo b"
  shows "stored (st(x \<mapsto> p)) b' xs"
proof -
  have q: "sq (st(x \<mapsto> p)) y = sq st y" if "y \<in> set xs" for y using that assms(2) by (auto simp: sq_def)
  then have m: "map (\<lambda>y. off (nextExpectedSeqNo b) (sq (st(x \<mapsto> p)) y)) xs
      = map (\<lambda>y. off (nextExpectedSeqNo b) (sq st y)) xs"
    by (intro map_cong) simp_all
  show ?thesis unfolding stored_def b' m using assms(1,2) q by (simp add: stored_def)
qed

lemma unat_seq16: "unat (h AND 0xFFFF :: u32) < 65536"
proof -
  have "h AND 0xFFFF \<le> (0xFFFF :: u32)" by (simp add: word_and_le1)
  then show ?thesis by (simp add: word_le_nat_alt)
qed

text \<open>C5. A well-formed RTP datagram of the known source is put at its place in the reordering buffer, with its
  payload, timestamp, marker and number, unless its number is before the window or is there already: then the
  buffer stays as it was. The step does not panic.\<close>

theorem datagram_reaches_its_place:
  assumes ok: "receiver_ok s xs" and wire: "rtp_ok h csrc ext padding"
    and pt: "drop_bit 16 (h AND 0x007F0000) = rtpPayloadFormat s"
    and src: "src = lastReceivedSSRC s"
    and len: "length (rtp_datagram h ts src csrc ext body padding) \<le> maxPacketSize"
    and away: "off (nextExpectedSeqNo (reOrderingBuffer s)) (unat (h AND 0xFFFF)) \<noteq> 0x8000"
  shows "let n = nextExpectedSeqNo (reOrderingBuffer s); a = freshPacket s; q = unat (h AND 0xFFFF) in
    \<exists>s' p ok. networkReadStep (Some (rtp_datagram h ts src csrc ext body padding)) now s = Some (ok, s') \<and>
      packets s' a = Some p \<and> payload p = body \<and> RTPSeqNo p = h AND 0xFFFF \<and> RTPTimestamp p = ts \<and>
      RTPMarkerBit p = (h AND 0x00800000 \<noteq> 0) \<and>
      (ok \<longleftrightarrow> in_window n q \<and> q \<notin> sq (packets s) ` set xs) \<and>
      stored (packets s') (reOrderingBuffer s') (if ok then insort_key (\<lambda>x. off n (sq (packets s') x)) a xs else xs)"
proof -
  let ?n = "nextExpectedSeqNo (reOrderingBuffer s)" and ?a = "freshPacket s"
  obtain b where b: "getFreePacket ?a (packets s) (reOrderingBuffer s) = (?a, (packets s)(?a \<mapsto> newBufferedPacket), b)"
    "headPacket b = headPacket (reOrderingBuffer s)" "tailPacket b = tailPacket (reOrderingBuffer s)"
    "haveSeenFirstPacket b = haveSeenFirstPacket (reOrderingBuffer s)" "nextExpectedSeqNo b = ?n"
    using getFreePacket_fresh [OF ok] by blast
  obtain p0 p' where p: "fillInData (rtp_datagram h ts src csrc ext body padding) newBufferedPacket = Some p0"
    "parseRTPHeader (rtpPayloadFormat s) p0 = Some (Parsed h ts src p')" "pk_wf p'" "payload p' = body"
    using parseRTPHeader_payload [OF wire pt len] by blast
  obtain pt' synced db where dbnote: "rdb_noteIncomingPacket src (h AND 0xFFFF) ts (timestampFrequency s)
      (word_of_nat (dataSize p')) True now (receptionStatsDB s) = (pt', synced, db)"
    by (metis surj_pair)
  define p'' where "p'' = assignMiscParams (h AND 0xFFFF) ts pt' now synced (h AND 0x00800000 \<noteq> 0) p'"
  have f: "payload p'' = body" "RTPSeqNo p'' = h AND 0xFFFF" "RTPTimestamp p'' = ts" "RTPMarkerBit p'' = (h AND 0x00800000 \<noteq> 0)"
    "rtpSeqNo p'' = unat (h AND 0xFFFF)"
    using p(4) by (simp_all add: p''_def assignMiscParams_def payload_def rtpSeqNo_def)
  let ?st = "(packets s)(?a \<mapsto> p'')"
  have st: "stored (packets s) (reOrderingBuffer s) xs" and none: "packets s ?a = None" and rip: "packetReadInProgress s = None"
    using ok by (auto simp: receiver_ok_def)
  have axs: "?a \<notin> set xs" using st none lseg_mem by (fastforce simp: stored_def)
  have st': "stored ?st b xs" by (rule stored_cong [OF st axs b(2-5)])
  have "inserted ?a ?st b xs (storePacket ?a ?st b)"
    by (rule storePacket_correct [where p = p'', OF st' _ axs]) (use f(5) unat_seq16 away b(5) in simp_all)
  then obtain ok' st1 b1 where r: "storePacket ?a ?st b = Some (ok', st1, b1)" "sq st1 = sq ?st" "content st1 = content ?st"
    "ok' \<longleftrightarrow> in_window ?n (sq ?st ?a) \<and> sq ?st ?a \<notin> sq ?st ` set xs"
    "stored st1 b1 (if ok' then insort_key (\<lambda>x. off ?n (sq ?st x)) ?a xs else xs)"
    using b(5) by (auto simp: inserted_def Let_def split: option.splits)
  obtain p1 where p1: "st1 ?a = Some p1" "p1 = p''\<lparr>nextPacket := nextPacket p1, firstPacketFlag := firstPacketFlag p1\<rparr>"
    using content_eqD [OF r(3), of ?a p''] by auto
  have f1: "payload p1 = body" "RTPSeqNo p1 = h AND 0xFFFF" "RTPTimestamp p1 = ts" "RTPMarkerBit p1 = (h AND 0x00800000 \<noteq> 0)"
    using f by (subst p1(2), simp add: payload_def)+
  have im: "sq ?st ?a = unat (h AND 0xFFFF)" "sq ?st ` set xs = sq (packets s) ` set xs"
    using f(5) axs by (simp add: sq_def, intro image_cong) (auto simp: sq_def)
  let ?s' = "s\<lparr>reOrderingBuffer := b1, freshPacket := max ?a (Suc ?a), receptionStatsDB := db, packets := st1\<rparr>"
  have step: "networkReadStep (Some (rtp_datagram h ts src csrc ext body padding)) now s = Some (ok', ?s')"
    using b(1) p(1,2) dbnote r(1) rip src
    by (simp add: networkReadStep_def Let_def packetIsUsableInJitterCalculation_def p''_def)
  have place: "ok' \<longleftrightarrow> in_window ?n (unat (h AND 0xFFFF)) \<and> unat (h AND 0xFFFF) \<notin> sq (packets s) ` set xs"
    using r(4) unfolding im .
  have after: "stored (packets ?s') (reOrderingBuffer ?s') (if ok' then insort_key (\<lambda>x. off ?n (sq (packets ?s') x)) ?a xs else xs)"
    using r(5) unfolding r(2) [symmetric] by (cases ok') simp_all
  have "packets ?s' ?a = Some p1" using p1(1) by simp
  with step place after f1 show ?thesis unfolding Let_def by blast
qed

lemma datagram_reaches_its_place_witness:
  "let p = newBufferedPacket\<lparr>RTPSeqNo := 0x1230\<rparr>;
       s = (newH264VideoRTPSource 0 96 90000)\<lparr>packets := [0 \<mapsto> p], freshPacket := 1, lastReceivedSSRC := 5,
             reOrderingBuffer := newReorderingPacketBuffer\<lparr>headPacket := Some 0, tailPacket := Some 0, savePacket := Some 0,
               haveSeenFirstPacket := True, nextExpectedSeqNo := 0x1230\<rparr>\<rparr>
   in \<exists>s' p' ok. networkReadStep (Some (rtp_datagram 0x80601232 9 5 [] [] [0x65, 1] [])) tv_zero s = Some (ok, s') \<and>
        packets s' 1 = Some p' \<and> payload p' = [0x65, 1] \<and> RTPSeqNo p' = 0x1232 \<and> ok"
proof -
  let ?p = "newBufferedPacket\<lparr>RTPSeqNo := 0x1230\<rparr>"
  let ?b = "newReorderingPacketBuffer\<lparr>headPacket := Some 0, tailPacket := Some 0, savePacket := Some 0,
               haveSeenFirstPacket := True, nextExpectedSeqNo := 0x1230\<rparr>"
  let ?s = "(newH264VideoRTPSource 0 96 90000)\<lparr>packets := [0 \<mapsto> ?p], freshPacket := 1, lastReceivedSSRC := 5,
             reOrderingBuffer := ?b\<rparr>"
  have sel: "packets ?s = [0 \<mapsto> ?p]" "reOrderingBuffer ?s = ?b" "freshPacket ?s = 1" "lastReceivedSSRC ?s = 5"
    "packetReadInProgress ?s = None" "rtpPayloadFormat ?s = 96"
    by (simp_all add: newH264VideoRTPSource_def initMultiFramedRTPSource_def initRTPSource_def source_reset_def)
  have seq: "sq [0 \<mapsto> ?p] 0 = 0x1230" by (simp add: sq_def rtpSeqNo_def)
  have bsel: "nextExpectedSeqNo ?b = 0x1230" by simp
  have ok: "receiver_ok ?s [0]"
    unfolding receiver_ok_def sel
    by (simp add: stored_def newReorderingPacketBuffer_def in_window_def off_def sq_def rtpSeqNo_def newBufferedPacket_def)
  have wire: "rtp_ok 0x80601232 [] [] []" unfolding rtp_ok_def ext_ok_def padding_ok_def by code_simp
  have pt: "drop_bit 16 (0x80601232 AND 0x007F0000) = rtpPayloadFormat ?s" unfolding sel by code_simp
  have q: "unat (0x80601232 AND 0xFFFF :: u32) = 0x1232" by code_simp
  have away: "off (nextExpectedSeqNo (reOrderingBuffer ?s)) (unat (0x80601232 AND 0xFFFF :: u32)) \<noteq> 0x8000"
    unfolding sel bsel q by (simp add: off_def)
  have win: "in_window 0x1230 0x1232" "0x1232 \<notin> sq [0 \<mapsto> ?p] ` set [0]"
    by (simp_all add: in_window_def off_def seq)
  have "length (rtp_datagram 0x80601232 9 5 [] [] [0x65, 1] []) \<le> maxPacketSize"
    by (simp add: rtp_datagram_def maxPacketSize_def c32.enc_length)
  from datagram_reaches_its_place [OF ok wire pt sel(4) [symmetric] this away, of tv_zero]
  show ?thesis
    unfolding Let_def sel bsel q using win by (auto simp: word_unat_eq_iff)
qed

section \<open>What the delivery loop does with a packet\<close>

text \<open>\<open>packet_use\<close> neither copies into the client's buffer nor moves the window.\<close>

lemma packet_use_plain:
  assumes "pk_wf p"
  shows "\<exists>info p'. packet_use None buff sz p = Some (buff, info, p') \<and> pk_head p' = pk_head p \<and> pk_tail p' = pk_tail p \<and>
    pk_buffer p' = pk_buffer p \<and> nextPacket p' = nextPacket p \<and> RTPSeqNo p' = RTPSeqNo p \<and> pi_rtpSeqNo info = RTPSeqNo p"
  using assms by (simp add: packet_use_def packet_data_wf getNextEnclosedFrameParameters_def nextEnclosedFrameSize_def Let_def)

text \<open>C35. The receiver never consumes a packet and never writes the client's buffer: with a packet that is
  due, a plain source reports one frame whose buffer is the client's own, untouched; afterwards
  the same packet is still at the head of the reordering buffer, due again.\<close>

theorem delivered_packet_is_not_consumed:
  fixes s :: "'a MultiFramedRTPSource_scheme"
  assumes "stored (packets s) (reOrderingBuffer s) (x # xs)" and "packets s x = Some p" and "pk_wf p" and "payload p \<noteq> []"
    and "rtpSeqNo p = nextExpectedSeqNo (reOrderingBuffer s)"
    and "currentPacketBeginsFrame s" "currentPacketCompletesFrame s"
  shows "\<exists>s' args p'. doGetNextFrame1 (\<lambda>_ s. Some (0, True, s)) (\<lambda>_ _. None) clock s = Some (s', [(buffTo s, args)]) \<and>
    curPacketRTPSeqNum s' = RTPSeqNo p \<and> reOrderingBuffer s' = reOrderingBuffer s \<and>
    packets s' x = Some p' \<and> payload p' = payload p \<and>
    getNextCompletedPacket now (packets s') (reOrderingBuffer s') = Some (Some x, firstPacketFlag p', reOrderingBuffer s')"
proof -
  let ?handler = "\<lambda>(_ :: nat) (s :: 'a MultiFramedRTPSource_scheme). Some (0 :: nat, True, s)"
  let ?s1 = "s\<lparr>needDelivery := True\<rparr>"
  have hd: "headPacket (reOrderingBuffer s) = Some x" using assms(1) by (simp add: stored_def)
  define p1 where "p1 = (if useCount p = 0 then skip 0 p else p)"
  have sk: "skip 0 p = p" using wf_bounds [OF assms(3)] by (simp add: skip_def)
  have p1: "p1 = p" by (simp add: p1_def sk)
  obtain info p' where u: "packet_use None (buffTo s) (maxSize s mod 4294967296) p = Some (buffTo s, info, p')"
    "pk_head p' = pk_head p" "pk_tail p' = pk_tail p" "pk_buffer p' = pk_buffer p" "nextPacket p' = nextPacket p"
    "RTPSeqNo p' = RTPSeqNo p" "pi_rtpSeqNo info = RTPSeqNo p"
    using packet_use_plain [OF assms(3)] by blast
  have usable: "hasUsableData p'"
    using assms(4) wf_bounds [OF assms(3)] u by (auto simp: hasUsableData_def)
  have nx: "getNextCompletedPacket t (packets s) (reOrderingBuffer s) = Some (Some x, firstPacketFlag p, reOrderingBuffer s)" for t
    using hd assms(2,5) by (simp add: getNextCompletedPacket_def)
  have same: "(packets s)(x \<mapsto> p) = packets s" using assms(2) by auto
  let ?s5 = "s\<lparr>needDelivery := False, packetLossInFragmentedFrame := False, buffTo := buffTo s,
    packets := (packets s)(x \<mapsto> p'), presentationTime := pi_presentationTime info, numTruncatedBytes := bytesTruncated info,
    curPacketRTPTimestamp := pi_rtpTimestamp info, curPacketMarkerBit := pi_rtpMarkerBit info,
    curPacketRTPSeqNum := pi_rtpSeqNo info, curPacketSyncUsingRTCP := pi_hasBeenSyncedUsingRTCP info,
    frameSize := uadd (frameSize s) (bytesUsed info), isCurrentlyAwaitingData := False\<rparr>"
  have stop: "doGetNextFrame1_loop h f clock k s'' out = Some (s'', out)" if "\<not> needDelivery s''"
    for h f k out and s'' :: "'a MultiFramedRTPSource_scheme"
    using that by (subst doGetNextFrame1_loop.simps) simp
  have "doGetNextFrame1 ?handler (\<lambda>_ _. None) clock s = Some (?s5, [(buffTo s, snd (afterGetting ?s5))])"
    unfolding doGetNextFrame1_def
    by (subst doGetNextFrame1_loop.simps)
      (simp add: nx assms(2,6,7) sk same u usable Let_def afterGetting_def stop)
  moreover have "payload p' = payload p" using u by (simp add: payload_def)
  moreover have "rtpSeqNo p' = rtpSeqNo p" using u by (simp add: rtpSeqNo_def)
  ultimately show ?thesis using u hd assms(5)
    by (intro exI [of _ ?s5] exI [of _ "snd (afterGetting ?s5)"] exI [of _ p'])
      (simp add: getNextCompletedPacket_def)
qed

text \<open>A receiver with one waiting packet, for the examples.\<close>

definition receiver_with :: "BufferedPacket \<Rightarrow> H264VideoRTPSource" where
  "receiver_with p =
     (newH264VideoRTPSource 0 96 90000)\<lparr>packets := [0 \<mapsto> p], freshPacket := 1,
       reOrderingBuffer := newReorderingPacketBuffer\<lparr>headPacket := Some 0, tailPacket := Some 0,
         savePacket := Some 0, haveSeenFirstPacket := True, nextExpectedSeqNo := rtpSeqNo p\<rparr>\<rparr>"

lemma receiver_with_simps [simp]:
  "packets (receiver_with p) = [0 \<mapsto> p]"
  "reOrderingBuffer (receiver_with p) = newReorderingPacketBuffer\<lparr>headPacket := Some 0, tailPacket := Some 0,
         savePacket := Some 0, haveSeenFirstPacket := True, nextExpectedSeqNo := rtpSeqNo p\<rparr>"
  "currentPacketBeginsFrame (receiver_with p)" "currentPacketCompletesFrame (receiver_with p)"
  "buffTo (receiver_with p) = []"
  by (simp_all add: receiver_with_def newH264VideoRTPSource_def initMultiFramedRTPSource_def initRTPSource_def
      source_reset_def)

lemma receiver_with_stored:
  "rtpSeqNo p < 65536 \<Longrightarrow> nextPacket p = None \<Longrightarrow> stored (packets (receiver_with p)) (reOrderingBuffer (receiver_with p)) [0]"
  by (simp add: stored_def in_window_def off_def sq_def)

lemma delivered_packet_is_not_consumed_witness:
  "let p = newBufferedPacket\<lparr>pk_tail := 3, RTPSeqNo := 7\<rparr>; s = receiver_with p
   in \<exists>s' args first. doGetNextFrame1 (\<lambda>_ s. Some (0, True, s)) (\<lambda>_ _. None) (\<lambda>_. tv_zero) s = Some (s', [([], args)]) \<and>
        curPacketRTPSeqNum s' = 7 \<and>
        getNextCompletedPacket tv_zero (packets s') (reOrderingBuffer s') = Some (Some 0, first, reOrderingBuffer s')"
proof -
  let ?p = "newBufferedPacket\<lparr>pk_tail := 3, RTPSeqNo := 7\<rparr>"
  have p: "pk_wf ?p" "payload ?p \<noteq> []" "rtpSeqNo ?p < 65536" "nextPacket ?p = None" "RTPSeqNo ?p = 7"
    by (simp_all add: pk_wf_def payload_def newBufferedPacket_def maxPacketSize_def rtpSeqNo_def)
  have "packets (receiver_with ?p) 0 = Some ?p" "rtpSeqNo ?p = nextExpectedSeqNo (reOrderingBuffer (receiver_with ?p))"
    by simp_all
  from delivered_packet_is_not_consumed [OF receiver_with_stored [OF p(3,4)] this(1) p(1,2) this(2) receiver_with_simps(3,4),
      of "\<lambda>_. tv_zero" tv_zero]
  show ?thesis unfolding Let_def receiver_with_simps(5) p(5)
    by - (elim exE conjE, intro exI conjI, assumption+)
qed

text \<open>
  \<open>h264_nextEnclosedFrameSize\<close> is given the data of the packet and skips its head in it a second time.
\<close>

lemma h264_frame_size_panics:
  assumes "pk_wf p" "10000 < pk_head p"
  shows "packet_use (Some (h264_nextEnclosedFrameSize s p)) buff sz p = None"
proof -
  have "\<not> pk_head p \<le> length (pk_buffer p) - pk_head p" using wf_bounds [OF assms(1)] assms(2) by simp
  then have "h264_nextEnclosedFrameSize s p (drop (pk_head p) (pk_buffer p)) (dataSize p) = None"
    by (simp add: h264_nextEnclosedFrameSize_def slice_from_def)
  then show ?thesis
    by (simp add: packet_use_def packet_data_wf [OF assms(1)] getNextEnclosedFrameParameters_def nextEnclosedFrameSize_def)
qed

text \<open>The special header of a packet of two bytes or more is accepted, and the window is not moved by it.\<close>

lemma special_header_window:
  assumes "packets s x = Some p" "pk_wf p" "2 \<le> length (payload p)"
  shows "\<exists>sz s3 p3. processSpecialHeader x s = Some (sz, True, s3) \<and> packets s3 x = Some p3 \<and> sz \<le> 3 \<and>
    pk_head p3 = pk_head p \<and> pk_tail p3 = pk_tail p \<and> length (pk_buffer p3) = length (pk_buffer p) \<and>
    reOrderingBuffer s3 = reOrderingBuffer s \<and> currentPacketBeginsFrame s3 = currentPacketBeginsFrame s"
proof -
  have wf: "pk_head p \<le> pk_tail p" "pk_tail p \<le> 20000" "length (pk_buffer p) = 20000" "\<not> dataSize p < 2" "0 < dataSize p"
    "pk_head p + 2 \<le> pk_tail p"
    using wf_bounds [OF assms(2)] assms(3) by simp_all
  define h0 where "h0 = pk_buffer p ! pk_head p"
  define h1 where "h1 = pk_buffer p ! (pk_head p + 1)"
  have d: "packet_data p = Some (drop (pk_head p) (pk_buffer p))" by (rule packet_data_wf [OF assms(2)])
  have i: "idx (drop (pk_head p) (pk_buffer p)) 0 = Some h0" "idx (drop (pk_head p) (pk_buffer p)) (Suc 0) = Some h1"
    using wf by (simp_all add: h0_def h1_def)
  have pt: "put (pk_buffer p) (Suc (pk_head p)) v = Some ((pk_buffer p)[Suc (pk_head p) := v])" for v
    using wf by (intro put_Some) simp
  define t where "t = unat (h0 AND 0x1F)"
  consider "t = 24" | "t \<in> {25, 26, 27}" | "t \<in> {28, 29}" "h1 AND 0x80 \<noteq> 0" | "t \<in> {28, 29}" "h1 AND 0x80 = 0"
    | "t \<notin> {24, 25, 26, 27, 28, 29}" by blast
  then show ?thesis
  proof cases
    case 3
    then have "t \<noteq> 24" "t \<notin> {25, 26, 27}" by auto
    then show ?thesis
      using 3 assms(1) unfolding processSpecialHeader_def by (simp add: Let_def d i pt wf(4,5) t_def [symmetric])
  next
    case 4
    then have "t \<noteq> 24" "t \<notin> {25, 26, 27}" by auto
    then show ?thesis
      using 4 assms(1) unfolding processSpecialHeader_def by (simp add: Let_def d i wf(4,5) t_def [symmetric])
  qed (use assms(1) in \<open>simp_all add: processSpecialHeader_def Let_def d i t_def [symmetric]\<close>)
qed

text \<open>A packet whose payload starts beyond byte 10000 of its buffer (a header extension of that length is
  enough) crashes the H.264 receiver when it is delivered.\<close>

theorem long_header_crashes_h264_receiver:
  assumes "stored (packets s) (reOrderingBuffer s) (x # xs)" and "packets s x = Some p" and "pk_wf p"
    and "2 \<le> length (payload p)" and "10000 < pk_head p" and "useCount p = 0"
    and "rtpSeqNo p = nextExpectedSeqNo (reOrderingBuffer s)"
    and "currentPacketBeginsFrame s" "currentPacketCompletesFrame s"
  shows "h264_doGetNextFrame1 clock s = None"
proof -
  have hd: "headPacket (reOrderingBuffer s) = Some x" using assms(1) by (simp add: stored_def)
  have nx: "getNextCompletedPacket t (packets s) (reOrderingBuffer s) = Some (Some x, firstPacketFlag p, reOrderingBuffer s)" for t
    using hd assms(2,7) by (simp add: getNextCompletedPacket_def)
  have wf: "pk_head p \<le> pk_tail p" "pk_tail p \<le> 20000" "length (pk_buffer p) = 20000" "2 \<le> dataSize p" "pk_head p + 2 \<le> pk_tail p"
    using wf_bounds [OF assms(3)] assms(4) by simp_all
  let ?s2 = "s\<lparr>needDelivery := False\<rparr>"
  obtain sz s3 p3 where h: "processSpecialHeader x ?s2 = Some (sz, True, s3)" "packets s3 x = Some p3" "sz \<le> 3"
    "pk_head p3 = pk_head p" "pk_tail p3 = pk_tail p" "length (pk_buffer p3) = 20000"
    "reOrderingBuffer s3 = reOrderingBuffer s" "currentPacketBeginsFrame s3"
    using special_header_window [of ?s2 x p] assms(2,3,4,8) wf(3) by auto
  have "pk_wf p3" using h wf by (simp add: pk_wf_def maxPacketSize_def)
  then have "pk_wf (skip sz p3)" using skip_wf [of p3 sz] h(3) by simp
  moreover have "10000 < pk_head (skip sz p3)" using h(3-5) assms(5) wf by (simp add: skip_def Let_def)
  ultimately have none: "packet_use (Some (h264_nextEnclosedFrameSize s4 (skip sz p3))) buff n (skip sz p3) = None" for s4 buff n
    by (rule h264_frame_size_panics)
  show ?thesis
    unfolding h264_doGetNextFrame1_def doGetNextFrame1_def
    by (subst doGetNextFrame1_loop.simps) (simp add: nx assms(2,6) h none)
qed

lemma long_header_crashes_h264_receiver_witness:
  "h264_doGetNextFrame1 (\<lambda>_. tv_zero) (receiver_with (newBufferedPacket\<lparr>pk_head := 10004, pk_tail := 10010, RTPSeqNo := 7\<rparr>)) = None"
proof -
  let ?p = "newBufferedPacket\<lparr>pk_head := 10004, pk_tail := 10010, RTPSeqNo := 7\<rparr>"
  have p: "pk_wf ?p" "2 \<le> length (payload ?p)" "10000 < pk_head ?p" "useCount ?p = 0" "rtpSeqNo ?p < 65536" "nextPacket ?p = None"
    by (simp_all add: pk_wf_def payload_def newBufferedPacket_def maxPacketSize_def rtpSeqNo_def)
  have "packets (receiver_with ?p) 0 = Some ?p" "rtpSeqNo ?p = nextExpectedSeqNo (reOrderingBuffer (receiver_with ?p))"
    by simp_all
  from long_header_crashes_h264_receiver [OF receiver_with_stored [OF p(5,6)] this(1) p(1-4) this(2) receiver_with_simps(3,4)]
  show ?thesis .
qed

end
