(* ===== verification/RtpInterface.thy ===== *)
theory RtpInterface
  imports Binary KeyedStore
begin

text \<open>
  \<^verbatim>\<open>livemedia/rtp_interface.go\<close> and the sending side of \<^verbatim>\<open>groupsock/groupsock.go\<close>: packets
  go out over UDP to the destinations of the group socket, and interleaved on RTSP connections (RFC 2326, 10.12).

  A connection (\<open>net.Conn\<close>) is a number, nil is \<open>None\<close>. What a write returns is decided by a
  function argument; the effects on connections are listed as \<open>net_event\<close>s. The list of
  \<open>tcpStreamRecord\<close>s is only reached from \<open>tcpStreams\<close>, so it is a list of (connection, channel).
\<close>

type_synonym conn = nat

datatype net_event =
    Wrote conn bytes
  | Closed conn
  | AltByte conn nat

section \<open>SocketDescriptor\<close>

datatype reading_state =
  awaitingDollar | awaitingStreamChannelID | awaitingSize1 | awaitingSize2 | awaitingPacketData

text \<open>\<open>subChannels\<close> maps a channel to the RTPInterface registered for it, here its identity.\<close>

record SocketDescriptor =
  tcpReadingState :: reading_state
  sd_streamChannelID :: nat
  sizeByte1 :: nat
  sd_socketNum :: conn
  altHandler :: bool
  subChannels :: "nat \<rightharpoonup> nat"

definition newSocketDescriptor :: "conn \<Rightarrow> SocketDescriptor" where
  "newSocketDescriptor socketNum =
     \<lparr>tcpReadingState = awaitingDollar, sd_streamChannelID = 0, sizeByte1 = 0, sd_socketNum = socketNum,
      altHandler = False, subChannels = Map.empty\<rparr>"

definition registerRTPInterface :: "nat \<Rightarrow> nat \<Rightarrow> SocketDescriptor \<Rightarrow> SocketDescriptor" where
  "registerRTPInterface streamChannelID rtpInterface s =
     s\<lparr>subChannels := (subChannels s)(streamChannelID \<mapsto> rtpInterface)\<rparr>"

definition lookupRTPInterface :: "SocketDescriptor \<Rightarrow> nat \<Rightarrow> nat option" where
  "lookupRTPInterface s streamChannelID = subChannels s streamChannelID"

definition deregisterRTPInterface :: "nat \<Rightarrow> SocketDescriptor \<Rightarrow> SocketDescriptor \<times> net_event list" where
  "deregisterRTPInterface streamChannelID s =
     (s\<lparr>subChannels := (subChannels s)(streamChannelID := None)\<rparr>,
      (if altHandler s then [AltByte (sd_socketNum s) 0xFE] else []) @ [Closed (sd_socketNum s)])"

definition sd_setServerRequestAlternativeByteHandler :: "bool \<Rightarrow> SocketDescriptor \<Rightarrow> SocketDescriptor" where
  "sd_setServerRequestAlternativeByteHandler handler s = s\<lparr>altHandler := handler\<rparr>"

text \<open>
  The \<open>switch\<close> of \<open>tcpReadHandler\<close> on one byte. What it stores in the interface of the channel
  (\<open>nextTCPReadSize\<close> and the channel) is the second component.
\<close>

definition tcp_switch :: "byte \<Rightarrow> SocketDescriptor \<Rightarrow> SocketDescriptor \<times> (nat \<times> nat \<times> nat) option \<times> net_event list" where
  "tcp_switch b s =
     (case tcpReadingState s of
        awaitingDollar \<Rightarrow>
          if b = 0x24 then (s\<lparr>tcpReadingState := awaitingStreamChannelID\<rparr>, None, [])
          else (s, None, if altHandler s \<and> b \<noteq> 0xFF \<and> b \<noteq> 0xFE then [AltByte (sd_socketNum s) (unat b)] else [])
      | awaitingStreamChannelID \<Rightarrow>
          if lookupRTPInterface s (unat b) \<noteq> None
          then (s\<lparr>sd_streamChannelID := unat b, tcpReadingState := awaitingSize1\<rparr>, None, [])
          else (s\<lparr>tcpReadingState := awaitingDollar\<rparr>, None, [])
      | awaitingSize1 \<Rightarrow> (s\<lparr>sizeByte1 := unat b, tcpReadingState := awaitingSize2\<rparr>, None, [])
      | awaitingSize2 \<Rightarrow>
          (let sz = sizeByte1 s * 256 + unat b
           in (s\<lparr>tcpReadingState := awaitingPacketData\<rparr>,
               map_option (\<lambda>i. (i, sz, sd_streamChannelID s)) (lookupRTPInterface s (sd_streamChannelID s)), []))
      | awaitingPacketData \<Rightarrow> (s\<lparr>tcpReadingState := awaitingDollar\<rparr>, None, []))"

text \<open>
  The reading loop: \<open>input\<close> is what can be read before a read fails. It never leaves the loop otherwise;
  in the state \<open>awaitingPacketData\<close> it does not read and does not end.
\<close>

partial_function (option) tcp_read_loop :: "reading_state \<Rightarrow> bytes \<Rightarrow> byte \<Rightarrow> byte option" where
  "tcp_read_loop st input buffer =
     (if st \<noteq> awaitingPacketData then
        if input = [] then Some buffer else tcp_read_loop st (tl input) (hd input)
      else tcp_read_loop st input buffer)"

declare tcp_read_loop.simps [code]

text \<open>The handler of a connection: the loop, the effects of the failed read, the switch, the deferred close.\<close>

definition tcpReadHandler ::
  "bytes \<Rightarrow> SocketDescriptor \<Rightarrow> (SocketDescriptor \<times> (nat \<times> nat \<times> nat) option \<times> net_event list) option" where
  "tcpReadHandler input s = do {
     b \<leftarrow> tcp_read_loop (tcpReadingState s) input 0;
     let onError = (if altHandler s then [AltByte (sd_socketNum s) 0xFF] else []);
     let (s', note, evs) = tcp_switch b s;
     Some (s', note, onError @ evs @ [Closed (sd_socketNum s)])
   }"

section \<open>RTPInterface\<close>

record RTPInterface =
  tcpStreams :: "(conn \<times> nat) list"
  socketDescriptors :: "conn \<rightharpoonup> SocketDescriptor"
  gs_dests :: "(string \<times> nat) list"
  if_id :: nat

definition newRTPInterface :: "nat \<Rightarrow> (string \<times> nat) list \<Rightarrow> RTPInterface" where
  "newRTPInterface ident dests =
     \<lparr>tcpStreams = [], socketDescriptors = Map.empty, gs_dests = dests, if_id = ident\<rparr>"

definition lookupSocketDescriptor :: "conn \<Rightarrow> RTPInterface \<Rightarrow> SocketDescriptor \<times> RTPInterface" where
  "lookupSocketDescriptor socketNum i =
     (case socketDescriptors i socketNum of
        Some d \<Rightarrow> (d, i)
      | None \<Rightarrow> (let d = newSocketDescriptor socketNum
                 in (d, i\<lparr>socketDescriptors := (socketDescriptors i)(socketNum \<mapsto> d)\<rparr>)))"

definition removeSocketDescriptor :: "conn \<Rightarrow> RTPInterface \<Rightarrow> RTPInterface" where
  "removeSocketDescriptor socketNum i = i\<lparr>socketDescriptors := (socketDescriptors i)(socketNum := None)\<rparr>"

definition if_setServerRequestAlternativeByteHandler :: "conn \<Rightarrow> bool \<Rightarrow> RTPInterface \<Rightarrow> RTPInterface" where
  "if_setServerRequestAlternativeByteHandler socketNum handler i =
     (let (d, i1) = lookupSocketDescriptor socketNum i
      in i1\<lparr>socketDescriptors := (socketDescriptors i1)(socketNum \<mapsto> sd_setServerRequestAlternativeByteHandler handler d)\<rparr>)"

definition addStreamSocket :: "conn option \<Rightarrow> nat \<Rightarrow> RTPInterface \<Rightarrow> RTPInterface" where
  "addStreamSocket socketNum streamChannelID i =
     (case socketNum of
        None \<Rightarrow> i
      | Some c \<Rightarrow>
          if (c, streamChannelID) \<in> set (tcpStreams i) then i
          else
            (let i1 = i\<lparr>tcpStreams := (c, streamChannelID) # tcpStreams i\<rparr>;
                 (d, i2) = lookupSocketDescriptor c i1
             in i2\<lparr>socketDescriptors :=
                    (socketDescriptors i2)(c \<mapsto> registerRTPInterface streamChannelID (if_id i2) d)\<rparr>))"

text \<open>The descriptor is taken out of the table first; its own change is not seen any more.\<close>

definition deregisterSocket :: "conn \<Rightarrow> nat \<Rightarrow> RTPInterface \<Rightarrow> RTPInterface \<times> net_event list" where
  "deregisterSocket socketNum streamChannelID i =
     (let (d, i1) = lookupSocketDescriptor socketNum i
      in (removeSocketDescriptor socketNum i1, snd (deregisterRTPInterface streamChannelID d)))"

text \<open>
  The loop of \<open>delStreamSocket\<close> over the rest of the list: at a match the record is kept, its \<open>next\<close> is
  cleared, and the loop goes on from the record after the next one (the loop variable is set
  to the next one, and the loop then takes its \<open>next\<close>; with no next record that dereferences nil). The result is what the
  list is from here on.
\<close>

fun del_walk :: "conn \<Rightarrow> nat \<Rightarrow> (conn \<times> nat) list \<Rightarrow> RTPInterface \<Rightarrow> net_event list \<Rightarrow>
    ((conn \<times> nat) list \<times> RTPInterface \<times> net_event list) option" where
  "del_walk c ch [] i evs = Some ([], i, evs)"
| "del_walk c ch [s] i evs = (if s = (c, ch) then None else Some ([s], i, evs))"
| "del_walk c ch (s # t # rest) i evs =
     (if s = (c, ch) then
        (let (i1, evs1) = deregisterSocket c ch i
         in do { (_, i2, evs2) \<leftarrow> del_walk c ch rest i1 (evs @ evs1); Some ([s], i2, evs2) })
      else do { (kept, i2, evs2) \<leftarrow> del_walk c ch (t # rest) i evs; Some (s # kept, i2, evs2) })"

definition delStreamSocket :: "conn \<Rightarrow> nat \<Rightarrow> RTPInterface \<Rightarrow> (RTPInterface \<times> net_event list) option" where
  "delStreamSocket socketNum streamChannelID i = do {
     (kept, i1, evs) \<leftarrow> del_walk socketNum streamChannelID (tcpStreams i) i [];
     Some (i1\<lparr>tcpStreams := kept\<rparr>, evs)
   }"

section \<open>Sending\<close>

text \<open>
  \<open>writes k\<close> says whether the \<open>k\<close>-th write succeeds. The four writes of a frame stop at the first error; the slice
  of the packet is taken after the header has been written.
\<close>

definition sendRTPOverTCP :: "(nat \<Rightarrow> bool) \<Rightarrow> conn \<Rightarrow> bytes \<Rightarrow> nat \<Rightarrow> nat \<Rightarrow> (bool \<times> net_event list) option" where
  "sendRTPOverTCP writes c packet packetSize streamChannelID =
     (let dollar = Wrote c [0x24];
          channel = Wrote c [word_of_nat streamChannelID];
          netSize = Wrote c [word_of_nat ((packetSize div 256) mod 256), word_of_nat (packetSize mod 256)]
      in if \<not> writes 0 then Some (False, [])
         else if \<not> writes 1 then Some (False, [dollar])
         else if \<not> writes 2 then Some (False, [dollar, channel])
         else do {
           p \<leftarrow> slice packet 0 packetSize;
           if \<not> writes 3 then Some (False, [dollar, channel, netSize])
           else Some (True, [dollar, channel, netSize, Wrote c p])
         })"

text \<open>\<open>GroupSock.Output\<close>: true when a datagram went out to some destination.\<close>

definition gs_write :: "(string \<times> nat \<Rightarrow> bool) \<Rightarrow> string \<times> nat \<Rightarrow> bytes \<Rightarrow> nat \<Rightarrow> bool option" where
  "gs_write resolves dest buffer bufferSize =
     (if \<not> resolves dest then Some False
      else do { _ \<leftarrow> slice buffer 0 bufferSize; Some True })"

fun Output :: "(string \<times> nat \<Rightarrow> bool) \<Rightarrow> (string \<times> nat) list \<Rightarrow> bytes \<Rightarrow> nat \<Rightarrow> bool option" where
  "Output resolves [] buffer bufferSize = Some False"
| "Output resolves (d # ds) buffer bufferSize = do {
     ok \<leftarrow> gs_write resolves d buffer bufferSize;
     rest \<leftarrow> Output resolves ds buffer bufferSize;
     Some (ok \<or> rest)
   }"

fun send_streams :: "(conn \<times> nat \<Rightarrow> nat \<Rightarrow> bool) \<Rightarrow> (conn \<times> nat) list \<Rightarrow> bytes \<Rightarrow> nat \<Rightarrow> net_event list option" where
  "send_streams writes [] packet packetSize = Some []"
| "send_streams writes (s # ss) packet packetSize = do {
     (_, evs) \<leftarrow> sendRTPOverTCP (writes s) (fst s) packet packetSize (snd s);
     rest \<leftarrow> send_streams writes ss packet packetSize;
     Some (evs @ rest)
   }"

definition sendPacket ::
  "(string \<times> nat \<Rightarrow> bool) \<Rightarrow> (conn \<times> nat \<Rightarrow> nat \<Rightarrow> bool) \<Rightarrow> bytes \<Rightarrow> nat \<Rightarrow> RTPInterface \<Rightarrow> (bool \<times> net_event list) option" where
  "sendPacket resolves writes packet packetSize i = do {
     success \<leftarrow> Output resolves (gs_dests i) packet packetSize;
     evs \<leftarrow> send_streams writes (tcpStreams i) packet packetSize;
     Some (success, evs)
   }"

section \<open>Interleaved frames\<close>

text \<open>The bytes a connection receives, and the RFC 2326 reading of a frame.\<close>

fun written :: "conn \<Rightarrow> net_event list \<Rightarrow> bytes" where
  "written c [] = []"
| "written c (Wrote d bs # evs) = (if d = c then bs @ written c evs else written c evs)"
| "written c (_ # evs) = written c evs"

lemma written_append [simp]: "written c (xs @ ys) = written c xs @ written c ys"
  by (induction c xs rule: written.induct) auto

fun deframe :: "bytes \<Rightarrow> (nat \<times> bytes \<times> bytes) option" where
  "deframe (d # ch # hi # lo # rest) =
     (let n = unat hi * 256 + unat lo
      in if d = 0x24 \<and> n \<le> length rest then Some (unat ch, take n rest, drop n rest) else None)"
| "deframe _ = None"

fun deframe_all :: "nat \<Rightarrow> bytes \<Rightarrow> (nat \<times> bytes) list option" where
  "deframe_all 0 bs = (if bs = [] then Some [] else None)"
| "deframe_all (Suc n) bs =
     (if bs = [] then Some []
      else case deframe bs of
        None \<Rightarrow> None
      | Some (ch, p, rest) \<Rightarrow> map_option (\<lambda>xs. (ch, p) # xs) (deframe_all n rest))"

lemma unat_of_nat_byte: "n < 256 \<Longrightarrow> unat (word_of_nat n :: byte) = n"
  by (simp add: unat_of_nat take_bit_nat_eq_self)

lemma frame_reads_back:
  assumes "sendRTPOverTCP writes c packet n ch = Some (True, evs)" "n < 65536" "ch < 256"
  shows "deframe (written c evs @ rest) = Some (ch, take n packet, rest)"
proof -
  have "evs = [Wrote c [0x24], Wrote c [word_of_nat ch],
      Wrote c [word_of_nat ((n div 256) mod 256), word_of_nat (n mod 256)], Wrote c (take n packet)]" "n \<le> length packet"
    using assms(1) by (auto simp: sendRTPOverTCP_def Let_def bind_simps slice_def split: if_splits)
  moreover have "n div 256 mod 256 = n div 256" using assms(2) by simp
  moreover have "n div 256 * 256 + n mod 256 = n" by simp
  ultimately show ?thesis using assms(2,3) by (simp add: unat_of_nat_byte Let_def)
qed

lemma deframe_all_more: "deframe_all k bs = Some xs \<Longrightarrow> deframe_all (Suc k) bs = Some xs"
proof (induction k arbitrary: bs xs)
  case 0
  then show ?case by (simp split: if_splits)
next
  case (Suc k)
  show ?case
  proof (cases "bs = []")
    case True
    then show ?thesis using Suc.prems by simp
  next
    case False
    then obtain ch p rest ys where d: "deframe bs = Some (ch, p, rest)" "deframe_all k rest = Some ys" "xs = (ch, p) # ys"
      using Suc.prems by (auto split: option.splits)
    have "deframe_all (Suc k) rest = Some ys" by (rule Suc.IH [OF d(2)])
    then show ?thesis using d False by (subst deframe_all.simps(2)) (simp del: deframe_all.simps)
  qed
qed

lemma send_streams_frames:
  assumes "send_streams (\<lambda>_ _. True) ss packet n = Some evs" "n < 65536" "\<forall>s \<in> set ss. snd s < 256"
  shows "deframe_all (length ss) (written c evs)
    = Some (map (\<lambda>s. (snd s, take n packet)) (filter (\<lambda>s. fst s = c) ss))"
  using assms
proof (induction ss arbitrary: evs)
  case Nil
  then show ?case by simp
next
  case (Cons s ss)
  obtain evs1 evs2 where e: "sendRTPOverTCP (\<lambda>_. True) (fst s) packet n (snd s) = Some (True, evs1)"
    "send_streams (\<lambda>_ _. True) ss packet n = Some evs2" "evs = evs1 @ evs2"
    using Cons.prems(1) by (auto simp: bind_simps sendRTPOverTCP_def Let_def)
  have ih: "deframe_all (length ss) (written c evs2) = Some (map (\<lambda>s. (snd s, take n packet)) (filter (\<lambda>s. fst s = c) ss))"
    using Cons.IH [OF e(2)] Cons.prems(2,3) by simp
  show ?case
  proof (cases "fst s = c")
    case True
    then have "deframe (written c evs1 @ written c evs2) = Some (snd s, take n packet, written c evs2)"
      using frame_reads_back [OF e(1)] Cons.prems by simp
    moreover have "written c evs1 \<noteq> []"
      using e(1) True by (auto simp: sendRTPOverTCP_def Let_def bind_simps)
    ultimately show ?thesis using ih e(3) True by simp
  next
    case False
    then have "written c evs1 = []"
      using e(1) by (auto simp: sendRTPOverTCP_def Let_def bind_simps)
    then show ?thesis using deframe_all_more [OF ih] e(3) False by simp
  qed
qed

text \<open>C14. What a connection receives when a packet is sent, if its writes succeed, is one RFC 2326 frame per
  channel it is registered for, in the order of the stream list, each with exactly the packet; nothing is
  written for the streams of other connections.\<close>

theorem interleaved_frames_read_back:
  assumes "sendPacket resolves (\<lambda>_ _. True) packet n i = Some (ok, evs)" and "n < 65536"
    and "\<forall>s \<in> set (tcpStreams i). snd s < 256"
  shows "deframe_all (length (tcpStreams i)) (written c evs)
    = Some (map (\<lambda>s. (snd s, take n packet)) (filter (\<lambda>s. fst s = c) (tcpStreams i)))"
proof -
  have "send_streams (\<lambda>_ _. True) (tcpStreams i) packet n = Some evs"
    using assms(1) by (auto simp: sendPacket_def bind_simps)
  then show ?thesis by (rule send_streams_frames) (use assms in auto)
qed

lemma interleaved_frames_read_back_witness:
  "let i = addStreamSocket (Some 7) 2 (addStreamSocket (Some 9) 1 (addStreamSocket (Some 7) 0 (newRTPInterface 1 [])))
   in \<exists>ok evs. sendPacket (\<lambda>_. True) (\<lambda>_ _. True) [1, 2, 3, 4] 3 i = Some (ok, evs) \<and>
        deframe_all 3 (written 7 evs) = Some [(2, [1, 2, 3]), (0, [1, 2, 3])]"
proof -
  define i where "i = addStreamSocket (Some 7) 2 (addStreamSocket (Some 9) 1 (addStreamSocket (Some 7) 0 (newRTPInterface 1 [])))"
  have i: "tcpStreams i = [(7, 2), (9, 1), (7, 0)]" "gs_dests i = []"
    by (simp_all add: i_def addStreamSocket_def newRTPInterface_def lookupSocketDescriptor_def Let_def)
  obtain evs where s: "sendPacket (\<lambda>_. True) (\<lambda>_ _. True) [1, 2, 3, 4] 3 i = Some (False, evs)"
    by (simp add: sendPacket_def i sendRTPOverTCP_def Let_def)
  have "deframe_all 3 (written 7 evs) = Some [(2, [1, 2, 3]), (0, [1, 2, 3])]"
    using interleaved_frames_read_back [OF s, of 7] unfolding i by (simp add: numeral_3_eq_3 del: deframe_all.simps)
  then show ?thesis unfolding Let_def i_def [symmetric] using s by blast
qed

section \<open>Receiving\<close>

text \<open>The switch alone is a correct reader of a frame header, byte by byte.\<close>

fun tcp_run :: "bytes \<Rightarrow> SocketDescriptor \<Rightarrow> SocketDescriptor \<times> (nat \<times> nat \<times> nat) option" where
  "tcp_run [] s = (s, None)"
| "tcp_run (b # bs) s =
     (let (s', note, _) = tcp_switch b s
      in if bs = [] then (s', note) else tcp_run bs s')"

text \<open>Fed with the four header bytes that \<open>sendRTPOverTCP\<close> writes, one by one, the framing state machine announces exactly the
  size of the packet to the interface registered for the channel, and waits for the packet.\<close>

theorem framing_switch_reads_header:
  assumes "tcpReadingState s = awaitingDollar" and "subChannels s ch = Some i" and "n < 65536" "ch < 256"
    and "sendRTPOverTCP (\<lambda>_. True) c packet n ch = Some (True, evs)"
  shows "\<exists>s'. tcp_run (take 4 (written c evs)) s = (s', Some (i, n, ch)) \<and> tcpReadingState s' = awaitingPacketData"
proof -
  have "written c evs = [0x24, word_of_nat ch, word_of_nat ((n div 256) mod 256), word_of_nat (n mod 256)] @ take n packet"
    using assms(5) by (auto simp: sendRTPOverTCP_def Let_def bind_simps slice_def split: if_splits)
  moreover have "n div 256 mod 256 = n div 256" using assms(3) by simp
  moreover have "n div 256 * 256 + n mod 256 = n" by simp
  ultimately show ?thesis
    using assms(1-4) by (simp add: tcp_switch_def unat_of_nat_byte lookupRTPInterface_def Let_def)
qed

lemma framing_switch_reads_header_witness:
  "\<exists>s'. tcp_run [0x24, 1, 2, 3] (registerRTPInterface 1 5 (newSocketDescriptor 9)) = (s', Some (5, 515, 1)) \<and>
     tcpReadingState s' = awaitingPacketData"
proof -
  obtain evs where e: "sendRTPOverTCP (\<lambda>_. True) 9 (replicate 515 0) 515 1 = Some (True, evs)"
    "take 4 (written 9 evs) = [0x24, 1, 2, 3]"
    by (simp add: sendRTPOverTCP_def Let_def)
  show ?thesis
    using framing_switch_reads_header [OF _ _ _ _ e(1), of "registerRTPInterface 1 5 (newSocketDescriptor 9)" 5]
    unfolding e(2) by (simp add: registerRTPInterface_def newSocketDescriptor_def)
qed

lemma read_loop_last:
  "st \<noteq> awaitingPacketData \<Longrightarrow> tcp_read_loop st input b = Some (last (b # input))"
proof (induction input arbitrary: b)
  case Nil
  then show ?case by (subst tcp_read_loop.simps) simp
next
  case (Cons x xs)
  then show ?case by (subst tcp_read_loop.simps) simp
qed

text \<open>The handler of an RTSP-over-TCP connection looks at the last byte only: whatever was received, it ends by closing the connection
  after one step of the state machine on the last byte, so no frame and no interleaved RTSP request is ever read.\<close>

theorem tcpReadHandler_sees_last_byte_only:
  assumes "tcpReadingState s \<noteq> awaitingPacketData"
  shows "tcpReadHandler (bs @ [b]) s = tcpReadHandler [b] s \<and>
    (\<exists>s' note evs. tcpReadHandler (bs @ [b]) s = Some (s', note, evs) \<and> last evs = Closed (sd_socketNum s))"
proof -
  have "tcp_read_loop (tcpReadingState s) (bs @ [b]) 0 = Some b" "tcp_read_loop (tcpReadingState s) [b] 0 = Some b"
    using read_loop_last [OF assms] by simp_all
  then show ?thesis by (simp add: tcpReadHandler_def Let_def split_def)
qed

lemma tcpReadHandler_sees_last_byte_only_witness:
  "tcpReadHandler [0x24, 0, 0, 2, 7, 8] (registerRTPInterface 0 5 (newSocketDescriptor 9))
     = tcpReadHandler [8] (registerRTPInterface 0 5 (newSocketDescriptor 9))"
  using tcpReadHandler_sees_last_byte_only
    [of "registerRTPInterface 0 5 (newSocketDescriptor 9)" "[0x24, 0, 0, 2, 7]" 8]
  by (simp add: registerRTPInterface_def newSocketDescriptor_def)

section \<open>Deleting a stream\<close>

lemma del_walk_oldest:
  "(c, ch) \<notin> set ss \<Longrightarrow> del_walk c ch (ss @ [(c, ch)]) i evs = None"
proof (induction ss arbitrary: i evs)
  case (Cons s ss)
  then show ?case by (cases ss) auto
qed simp

text \<open>It panics just when the stream is the one that was added first.\<close>

lemma del_walk_panics: "distinct ss \<Longrightarrow> del_walk c ch ss i evs = None \<longleftrightarrow> ss \<noteq> [] \<and> last ss = (c, ch)"
proof (induction c ch ss i evs rule: del_walk.induct)
  case (3 c ch s t rest i evs)
  show ?case
  proof (cases "s = (c, ch)")
    case True
    obtain i1 evs1 where d: "deregisterSocket c ch i = (i1, evs1)" by fastforce
    have no: "(c, ch) \<notin> set (t # rest)" using 3(3) True by auto
    then have "del_walk c ch rest i1 (evs @ evs1) \<noteq> None"
      using 3(1) [OF True d [symmetric] refl] 3(3) by (auto dest: last_in_set)
    moreover have "last (s # t # rest) \<noteq> (c, ch)" using no last_in_set [of "t # rest"] by auto
    ultimately show ?thesis using True d by (auto split: Option.bind_splits)
  next
    case False
    then show ?thesis using 3(2) [OF False] 3(3) by (auto split: Option.bind_splits)
  qed
qed auto

lemma delStreamSocket_panics:
  "distinct (tcpStreams i) \<Longrightarrow> delStreamSocket c ch i = None \<longleftrightarrow> tcpStreams i \<noteq> [] \<and> last (tcpStreams i) = (c, ch)"
  using del_walk_panics [of "tcpStreams i" c ch i "[]"] by (auto simp: delStreamSocket_def split: Option.bind_splits)

lemma del_walk_keeps:
  "(c, ch) \<notin> set ss \<Longrightarrow> del_walk c ch (ss @ [(c, ch)] @ t # ts) i evs = Some (kept, i', evs') \<Longrightarrow> kept = ss @ [(c, ch)]"
proof (induction ss arbitrary: i evs kept i' evs')
  case Nil
  then show ?case by (auto simp: split_def Let_def bind_simps)
next
  case (Cons s ss)
  then show ?case by (cases ss) (auto simp: bind_simps)
qed

text \<open>Deleting a stream never deletes it: for the stream added first the server crashes (nil dereference), for any other one the
  stream stays in the list, with its connection closed, and the streams added before it are lost.\<close>

theorem delStreamSocket_never_deletes:
  assumes "distinct (tcpStreams i)" and "tcpStreams i = ss @ [(c, ch)] @ ts"
  shows "if ts = [] then delStreamSocket c ch i = None
    else (\<forall>i' evs. delStreamSocket c ch i = Some (i', evs) \<longrightarrow> tcpStreams i' = ss @ [(c, ch)])"
proof -
  have n: "(c, ch) \<notin> set ss" using assms by simp
  show ?thesis
  proof (cases ts)
    case Nil
    then show ?thesis using del_walk_oldest [OF n] assms(2) by (simp add: delStreamSocket_def)
  next
    case (Cons t ts')
    then show ?thesis using del_walk_keeps [OF n, of t ts'] assms(2) by (auto simp: delStreamSocket_def bind_simps)
  qed
qed

lemma delStreamSocket_never_deletes_witness:
  "delStreamSocket 7 0 (addStreamSocket (Some 7) 0 (newRTPInterface 1 [])) = None"
  using delStreamSocket_never_deletes [of "addStreamSocket (Some 7) 0 (newRTPInterface 1 [])" "[]" 7 0 "[]"]
  by (simp add: addStreamSocket_def newRTPInterface_def lookupSocketDescriptor_def Let_def)

section \<open>The tables as keyed stores\<close>

interpretation sds: deletable_store
  "\<lambda>c d i. i\<lparr>socketDescriptors := (socketDescriptors i)(c \<mapsto> d)\<rparr>" socketDescriptors removeSocketDescriptor
  by unfold_locales (auto simp: removeSocketDescriptor_def)

interpretation chans: keyed_store registerRTPInterface lookupRTPInterface
  by unfold_locales (simp add: registerRTPInterface_def lookupRTPInterface_def)

end
