(* ===== verification/GoString.thy ===== *)
theory GoString
  imports GoPrelude "HOL-Library.Sublist"
begin

text \<open>
  Go strings, and what the sources use of \<open>strings\<close> and \<open>fmt\<close>. A string is the list of its bytes, as characters.

  \<open>EqualFold\<close> compares without regard to case: ASCII letters, and the two other letters of Unicode that fold to ASCII
  ones (the long s and the Kelvin sign, in UTF-8). Other bytes above 127 are compared as they are. \<open>TrimSpace\<close> and the
  scanning of numbers take the ASCII white space.
\<close>

section \<open>Decimal printing\<close>

definition digit :: "nat \<Rightarrow> char" where
  "digit d = char_of (48 + d)"

text \<open>\<open>%d\<close> of a number that is not negative.\<close>

fun show_nat :: "nat \<Rightarrow> string" where
  "show_nat n = (if n < 10 then [digit n] else show_nat (n div 10) @ [digit (n mod 10)])"

declare show_nat.simps [simp del]

text \<open>\<open>%0nd\<close> of a number that is not negative.\<close>

definition show_padded :: "nat \<Rightarrow> nat \<Rightarrow> string" where
  "show_padded w n = (let s = show_nat n in replicate (w - length s) CHR ''0'' @ s)"

text \<open>\<open>%d\<close> of any number.\<close>

definition show_int :: "int \<Rightarrow> string" where
  "show_int i = (if i < 0 then CHR ''-'' # show_nat (nat (- i)) else show_nat (nat i))"

text \<open>The value of a string of digits.\<close>

definition digit_value :: "char \<Rightarrow> nat" where
  "digit_value c = of_char c - 48"

definition is_digit :: "char \<Rightarrow> bool" where
  "is_digit c \<longleftrightarrow> 48 \<le> (of_char c :: nat) \<and> (of_char c :: nat) \<le> 57"

definition read_nat :: "string \<Rightarrow> nat" where
  "read_nat s = foldl (\<lambda>n c. 10 * n + digit_value c) 0 s"

lemma digit_value_digit [simp]: "d < 10 \<Longrightarrow> digit_value (digit d) = d"
  by (simp add: digit_value_def digit_def)

lemma is_digit_digit [simp]: "d < 10 \<Longrightarrow> is_digit (digit d)"
  by (simp add: is_digit_def digit_def)

lemma read_show_nat [simp]: "read_nat (show_nat n) = n"
proof (induction n rule: show_nat.induct)
  case (1 n)
  show ?case
  proof (cases "n < 10")
    case True
    then show ?thesis by (subst show_nat.simps) (simp add: read_nat_def)
  next
    case False
    then have "read_nat (show_nat (n div 10)) = n div 10" by (rule 1)
    then show ?thesis using False by (subst show_nat.simps) (simp add: read_nat_def)
  qed
qed

lemma show_nat_digits: "\<forall>c \<in> set (show_nat n). is_digit c"
proof (induction n rule: show_nat.induct)
  case (1 n)
  then show ?case by (subst show_nat.simps) auto
qed

lemma show_nat_nonempty: "show_nat n \<noteq> []"
  by (subst show_nat.simps) simp

section \<open>Characters and case\<close>

definition cr :: char where "cr = CHR 0x0D"
definition lf :: char where "lf = CHR 0x0A"
definition crlf :: string where "crlf = [cr, lf]"

text \<open>\<open>string(b)\<close> for a byte: the UTF-8 encoding of the character with that number.\<close>

definition rune_str :: "char \<Rightarrow> string" where
  "rune_str c =
     (let n = of_char c :: nat
      in if n < 128 then [c] else [char_of (192 + n div 64), char_of (128 + n mod 64)])"

definition runes :: "string \<Rightarrow> string" where
  "runes s = concat (map rune_str s)"

definition lower :: "char \<Rightarrow> char" where
  "lower c = (let n = of_char c :: nat in if 65 \<le> n \<and> n \<le> 90 then char_of (n + 32) else c)"

fun fold_case :: "string \<Rightarrow> string" where
  "fold_case (a # b # c # r) =
     (if a = CHR 0xE2 \<and> b = CHR 0x84 \<and> c = CHR 0xAA then CHR ''k'' # fold_case r
      else if a = CHR 0xC5 \<and> b = CHR 0xBF then CHR ''s'' # fold_case (c # r)
      else lower a # fold_case (b # c # r))"
| "fold_case [a, b] = (if a = CHR 0xC5 \<and> b = CHR 0xBF then ''s'' else [lower a, lower b])"
| "fold_case [a] = [lower a]"
| "fold_case [] = []"

definition EqualFold :: "string \<Rightarrow> string \<Rightarrow> bool" where
  "EqualFold s t \<longleftrightarrow> fold_case s = fold_case t"

lemma EqualFold_refl [simp]: "EqualFold s s"
  by (simp add: EqualFold_def)

section \<open>Searching\<close>

text \<open>\<open>strings.Index\<close>: \<open>None\<close> is -1.\<close>

fun Index :: "string \<Rightarrow> string \<Rightarrow> nat option" where
  "Index s t =
     (if prefix t s then Some 0
      else case s of [] \<Rightarrow> None | _ # r \<Rightarrow> map_option Suc (Index r t))"

declare Index.simps [simp del]

text \<open>\<open>strings.Split\<close> at a one-character separator: there is always a last part.\<close>

fun Split :: "string \<Rightarrow> char \<Rightarrow> string list" where
  "Split [] d = [[]]"
| "Split (c # s) d = (if c = d then [] # Split s d else (case Split s d of [] \<Rightarrow> [[c]] | p # ps \<Rightarrow> (c # p) # ps))"

definition ascii_space :: "char \<Rightarrow> bool" where
  "ascii_space c \<longleftrightarrow> c = CHR '' '' \<or> (let n = of_char c :: nat in 9 \<le> n \<and> n \<le> 13)"

definition TrimSpace :: "string \<Rightarrow> string" where
  "TrimSpace s = rev (dropWhile ascii_space (rev (dropWhile ascii_space s)))"

lemma Index_here: "prefix t s \<Longrightarrow> Index s t = Some 0"
  by (subst Index.simps) simp

lemma Split_plain: "d \<notin> set s \<Longrightarrow> Split s d = [s]"
  by (induction s) auto

lemma Split_append: "d \<notin> set s \<Longrightarrow> Split (s @ d # t) d = s # Split t d"
  by (induction s) auto

lemma Split_nonempty: "Split s d \<noteq> []"
  by (induction s) (auto split: list.splits)

section \<open>Sscanf\<close>

text \<open>Literal text, and \<open>%d\<close> for an unsigned number of 64 bits; each returns what is left of the input.\<close>

definition scan_lit :: "string \<Rightarrow> string \<Rightarrow> string option" where
  "scan_lit lit s = (if prefix lit s then Some (drop (length lit) s) else None)"

fun skip_space :: "string \<Rightarrow> string" where
  "skip_space (c # s) =
     (if c = CHR '' '' \<or> c = CHR 0x09 \<or> c = CHR 0x0B \<or> c = CHR 0x0C \<or> c = CHR 0x0D \<and> (s = [] \<or> hd s \<noteq> CHR 0x0A)
      then skip_space s else c # s)"
| "skip_space [] = []"

definition scan_uint :: "string \<Rightarrow> (nat \<times> string) option" where
  "scan_uint s =
     (let t = skip_space s; ds = takeWhile is_digit t
      in if ds = [] \<or> read_nat ds \<ge> 2 ^ 64 then None else Some (read_nat ds, dropWhile is_digit t))"

lemma scan_lit_append [simp]: "scan_lit lit (lit @ s) = Some s"
  by (simp add: scan_lit_def)

lemma skip_space_digit: "is_digit c \<Longrightarrow> skip_space (c # s) = c # s"
  by (auto simp: is_digit_def)

lemma scan_uint_show:
  assumes "n < 2 ^ 64" and "rest = [] \<or> \<not> is_digit (hd rest)"
  shows "scan_uint (show_nat n @ rest) = Some (n, rest)"
proof -
  obtain c ds where s: "show_nat n = c # ds" using show_nat_nonempty [of n] by (cases "show_nat n") auto
  have d: "\<forall>x \<in> set (show_nat n). is_digit x" by (rule show_nat_digits)
  have "skip_space (show_nat n @ rest) = show_nat n @ rest" using d s by (simp add: skip_space_digit del: skip_space.simps)
  moreover have "takeWhile is_digit (show_nat n @ rest) = show_nat n" "dropWhile is_digit (show_nat n @ rest) = rest"
    using d assms(2) by (cases rest; simp)+
  ultimately show ?thesis using assms(1) by (simp add: scan_uint_def show_nat_nonempty)
qed

end
