(* ===== verification/RtpSink.thy ===== *)
theory RtpSink
  imports RtpStatsDB GoString
begin

text \<open>
  \<^verbatim>\<open>livemedia/rtp_sink.go\<close>: the counters and the timestamp clock of an RTP sender, and its
  \<open>a=rtpmap\<close> line. The interface of the sink is modelled in RtpInterface.
\<close>

section \<open>RTPSink\<close>

record RTPSink =
  seqNo :: u32
  sink_ssrc :: u32
  octetCount :: u64
  packetCount :: u64
  totalOctetCount :: u64
  timestampBase :: u32
  rtpPayloadType :: u32
  rtpTimestampFrequency :: u32
  rtpPayloadFormatName :: string
  enableRTCPReports :: bool
  nextTimestampHasBeenPreset :: bool
  transmissionStatsDB :: RTPTransmissionStatsDB

text \<open>The random numbers of \<open>groupsock\<close> are arguments.\<close>

definition InitRTPSink :: "u32 \<Rightarrow> u32 \<Rightarrow> u32 \<Rightarrow> u32 \<Rightarrow> u32 \<Rightarrow> string \<Rightarrow> RTPSink" where
  "InitRTPSink random16 random32 random32' payloadType frequency formatName =
     \<lparr>seqNo = random16, sink_ssrc = random32, octetCount = 0, packetCount = 0, totalOctetCount = 0,
      timestampBase = random32', rtpPayloadType = payloadType, rtpTimestampFrequency = frequency,
      rtpPayloadFormatName = formatName, enableRTCPReports = True, nextTimestampHasBeenPreset = False,
      transmissionStatsDB = newRTPTransmissionStatsDB\<rparr>"

definition rtpmapLine :: "'a RTPSink_scheme \<Rightarrow> string" where
  "rtpmapLine s =
     (if rtpPayloadType s \<ge> 96
      then ''a=rtpmap:'' @ show_nat (unat (rtpPayloadType s)) @ '' '' @ rtpPayloadFormatName s @ ''/'' @
           show_nat (unat (rtpTimestampFrequency s)) @ crlf
      else [])"

text \<open>
  The constants are \<open>uint32\<close> here (their type is that of the operand they meet), so every operation is on
  32 bits.
\<close>

definition timestampIncrement :: "'a RTPSink_scheme \<Rightarrow> timeval \<Rightarrow> u32" where
  "timestampIncrement s tv =
     rtpTimestampFrequency s * word_of_int (tv_sec tv) +
     (2 * rtpTimestampFrequency s * word_of_int (tv_usec tv) + 1000000) div 2000000"

definition convertToRTPTimestamp :: "timeval \<Rightarrow> 'a RTPSink_scheme \<Rightarrow> u32 \<times> 'a RTPSink_scheme" where
  "convertToRTPTimestamp tv s =
     (let inc = timestampIncrement s tv;
          s1 = (if nextTimestampHasBeenPreset s
                then s\<lparr>timestampBase := timestampBase s - inc, nextTimestampHasBeenPreset := False\<rparr> else s)
      in (timestampBase s1 + inc, s1))"

definition presetNextTimestamp :: "timeval \<Rightarrow> 'a RTPSink_scheme \<Rightarrow> u32 \<times> 'a RTPSink_scheme" where
  "presetNextTimestamp timeNow s =
     (let (tsNow, s1) = convertToRTPTimestamp timeNow s
      in (tsNow, s1\<lparr>timestampBase := tsNow, nextTimestampHasBeenPreset := True\<rparr>))"

section \<open>The timestamp clock\<close>

text \<open>After a preset, the first packet is stamped with exactly the preset value, and the timestamps that
  follow differ from it by the difference of their clock increments, whatever the base was.\<close>

theorem preset_timestamp_is_used:
  assumes "presetNextTimestamp now0 s = (ts0, s1)" and "convertToRTPTimestamp now1 s1 = (ts1, s2)"
    and "convertToRTPTimestamp now2 s2 = (ts2, s3)"
  shows "ts1 = ts0 \<and> ts2 = ts0 + (timestampIncrement s now2 - timestampIncrement s now1)"
  using assms
  by (auto simp: presetNextTimestamp_def convertToRTPTimestamp_def timestampIncrement_def Let_def split: if_splits)

lemma preset_timestamp_is_used_witness:
  "let s = InitRTPSink 1 2 3000 96 90000 ''H264'';
       (ts0, s1) = presetNextTimestamp \<lparr>tv_sec = 1000, tv_usec = 0\<rparr> s;
       (ts1, s2) = convertToRTPTimestamp \<lparr>tv_sec = 1007, tv_usec = 0\<rparr> s1;
       (ts2, s3) = convertToRTPTimestamp \<lparr>tv_sec = 1009, tv_usec = 0\<rparr> s2
   in ts1 = ts0 \<and> ts2 = ts0 + 180000"
proof -
  let ?s = "InitRTPSink 1 2 3000 96 90000 ''H264''"
  obtain ts0 s1 where 0: "presetNextTimestamp \<lparr>tv_sec = 1000, tv_usec = 0\<rparr> ?s = (ts0, s1)" by (metis surj_pair)
  obtain ts1 s2 where 1: "convertToRTPTimestamp \<lparr>tv_sec = 1007, tv_usec = 0\<rparr> s1 = (ts1, s2)" by (metis surj_pair)
  obtain ts2 s3 where 2: "convertToRTPTimestamp \<lparr>tv_sec = 1009, tv_usec = 0\<rparr> s2 = (ts2, s3)" by (metis surj_pair)
  have "timestampIncrement ?s \<lparr>tv_sec = 1009, tv_usec = 0\<rparr> - timestampIncrement ?s \<lparr>tv_sec = 1007, tv_usec = 0\<rparr> = 180000"
    by (simp add: timestampIncrement_def InitRTPSink_def)
  then show ?thesis using preset_timestamp_is_used [OF 0 1 2] 0 1 2 by (simp add: Let_def)
qed

text \<open>The part of a timestamp that comes from the microseconds never exceeds 2147 ticks: the product wraps at 32
  bits before the division, so at 90 kHz the clock runs through the first 24 ms of a second and jumps back.\<close>

theorem timestamp_fraction_is_cut:
  "timestampIncrement s tv - rtpTimestampFrequency s * word_of_int (tv_sec tv) \<le> 2147"
proof -
  have "(x :: u32) div 2000000 \<le> 2147" for x
  proof -
    have "unat x < 4294967296" using unsigned_less [of x] by simp
    then have "unat x div 2000000 \<le> 2147" by simp
    then show ?thesis by (simp add: word_le_nat_alt unat_div)
  qed
  then show ?thesis by (simp add: timestampIncrement_def)
qed

end
