(* ===== verification/Rtcp.thy ===== *)
theory Rtcp
  imports RtpSource RtpSink OutBuffer
begin

text \<open>
  \<^verbatim>\<open>livemedia/rtcp_linux_amd64.go\<close> and \<^verbatim>\<open>livemedia/rtcp_from_spec.go\<close>: RTCP.

  \<open>processIncomingReport\<close> reads a compound packet and updates the statistics of the source and of the sink;
  the calls of the handlers are listed as events. The builders append to the output buffer. The
  sending interface is modelled by the datagram it is given (RtpInterface models what it does with it). The
  clock is an argument, \<open>timeNow\<close>, the same for all readings within one call. The iteration order over the map
  of reception statistics, which Go leaves open, is an argument too, a list of SSRCs.
\<close>

section \<open>State\<close>

definition RTCP_PT_SR :: u32 where "RTCP_PT_SR = 200"
definition RTCP_PT_RR :: u32 where "RTCP_PT_RR = 201"
definition RTCP_PT_SDES :: u32 where "RTCP_PT_SDES = 202"
definition RTCP_PT_BYE :: u32 where "RTCP_PT_BYE = 203"
definition IP_UDP_HDR_SIZE :: nat where "IP_UDP_HDR_SIZE = 28"
definition maxRTCPPacketSize :: nat where "maxRTCPPacketSize = 1450"
definition preferredPacketSize :: nat where "preferredPacketSize = 1000"

lemmas rtcp_consts = RTCP_PT_SR_def RTCP_PT_RR_def RTCP_PT_SDES_def RTCP_PT_BYE_def

datatype packet_type = PACKET_UNKNOWN_TYPE | PACKET_RTCP_REPORT | PACKET_BYE

datatype event_type = eventUnknown | eventReport | eventBye

record RTCPInstance =
  typeOfEvent :: event_type
  lastSentSize :: nat
  totSessionBW :: nat
  numMembers :: nat
  lastPacketSentSize :: nat
  avgRTCPSize :: float
  haveJustSentPacket :: bool
  prevReportTime :: int
  nextReportTime :: int
  inBuf :: bytes
  CNAME :: bytes
  rtcp_Sink :: "RTPSink option"
  rtcp_Source :: "RTPSource option"
  outBuf :: OutPacketBuffer
  byeHandlerTask :: bool
  SRHandlerTask :: bool
  RRHandlerTask :: bool
  byeHandlerClientData :: bool

definition newSDESItem :: "nat \<Rightarrow> string \<Rightarrow> bytes" where
  "newSDESItem tag value =
     (let len = (if length value > 0xFF then 0xFF else length value)
      in [word_of_nat tag, word_of_nat len])"

definition totalSize :: "bytes \<Rightarrow> nat option" where
  "totalSize data = do { l \<leftarrow> idx data 1; Some (2 + unat l) }"

definition dTimeNow :: "timeval \<Rightarrow> int" where
  "dTimeNow timeNow = i64 (tv_sec timeNow + tv_usec timeNow sdiv 1000000)"

text \<open>The first part of \<open>newRTCPInstance\<close>: the instance before its first \<open>onExpire\<close>.\<close>

definition makeRTCPInstance ::
  "timeval \<Rightarrow> nat \<Rightarrow> string \<Rightarrow> RTPSink option \<Rightarrow> RTPSource option \<Rightarrow> RTCPInstance option" where
  "makeRTCPInstance timeNow bandwidth cname sink source = do {
     out \<leftarrow> newOutPacketBuffer maxRTCPPacketSize preferredPacketSize maxRTCPPacketSize;
     Some \<lparr>typeOfEvent = eventReport, lastSentSize = 0,
           totSessionBW = (if bandwidth = 0 then 1 else bandwidth), numMembers = 0, lastPacketSentSize = 0,
           avgRTCPSize = Fin 0, haveJustSentPacket = False, prevReportTime = dTimeNow timeNow,
           nextReportTime = dTimeNow timeNow, inBuf = replicate maxRTCPPacketSize 0,
           CNAME = newSDESItem 1 cname, rtcp_Sink = sink, rtcp_Source = source, outBuf = out,
           byeHandlerTask = False, SRHandlerTask = False, RRHandlerTask = False, byeHandlerClientData = False\<rparr>
   }"

definition SetByeHandler :: "bool \<Rightarrow> bool \<Rightarrow> RTCPInstance \<Rightarrow> RTCPInstance" where
  "SetByeHandler handlerTask clientData r = r\<lparr>byeHandlerTask := handlerTask, byeHandlerClientData := clientData\<rparr>"

definition setSRHandler :: "bool \<Rightarrow> RTCPInstance \<Rightarrow> RTCPInstance" where
  "setSRHandler handlerTask r = r\<lparr>SRHandlerTask := handlerTask\<rparr>"

definition setRRHandler :: "bool \<Rightarrow> RTCPInstance \<Rightarrow> RTCPInstance" where
  "setRRHandler handlerTask r = r\<lparr>RRHandlerTask := handlerTask\<rparr>"

section \<open>Incoming reports\<close>

datatype rtcp_event = CallSRHandler | CallRRHandler | CallByeHandler

text \<open>\<open>Ntohl\<close> of the packet, whose error the code drops, and the advance by four bytes.\<close>

definition readWord :: "bytes \<times> nat \<Rightarrow> (u32 \<times> bytes \<times> nat) option" where
  "readWord pk = do { pk' \<leftarrow> ADVANCE (fst pk) (snd pk) 4; Some (fst (Ntohl (fst pk)), pk') }"

fun reportBlocks :: "timeval \<Rightarrow> u32 \<Rightarrow> nat \<Rightarrow> bytes \<times> nat \<Rightarrow> RTPSink \<Rightarrow> ((bytes \<times> nat) \<times> RTPSink) option" where
  "reportBlocks timeNow reporter 0 pk sink = Some (pk, sink)"
| "reportBlocks timeNow reporter (Suc n) pk sink = do {
     (senderSSRC, pk1) \<leftarrow> readWord pk;
     if senderSSRC = sink_ssrc sink then do {
       (lossStats, pk2) \<leftarrow> readWord pk1;
       (highestReceived, pk3) \<leftarrow> readWord pk2;
       (jitter, pk4) \<leftarrow> readWord pk3;
       (timeLastSR, pk5) \<leftarrow> readWord pk4;
       (timeSinceLastSR, pk6) \<leftarrow> readWord pk5;
       reportBlocks timeNow reporter n pk6
         (sink\<lparr>transmissionStatsDB :=
            tdb_noteIncomingRR (octetCount sink) (packetCount sink) [] reporter lossStats highestReceived jitter
              timeLastSR timeSinceLastSR timeNow (transmissionStatsDB sink)\<rparr>)
     }
     else do {
       pk2 \<leftarrow> ADVANCE (fst pk1) (snd pk1) 20;
       reportBlocks timeNow reporter n pk2 sink
     }
   }"

text \<open>The sender information of an SR, when there is room for it.\<close>

definition senderInfo ::
  "timeval \<Rightarrow> u32 \<Rightarrow> nat \<Rightarrow> bytes \<times> nat \<Rightarrow> RTCPInstance \<Rightarrow> (nat \<times> (bytes \<times> nat) \<times> RTCPInstance \<times> rtcp_event list) option" where
  "senderInfo timeNow reporter len pk r =
     (if len \<ge> 20 then do {
        (ntpMsw, pk1) \<leftarrow> readWord pk;
        (ntpLsw, pk2) \<leftarrow> readWord pk1;
        (rtpTimestamp, pk3) \<leftarrow> readWord pk2;
        let r1 = (case rtcp_Source r of
                    None \<Rightarrow> r
                  | Some src \<Rightarrow>
                      r\<lparr>rtcp_Source := Some (src\<lparr>receptionStatsDB :=
                          rdb_noteIncomingSR reporter ntpMsw ntpLsw rtpTimestamp timeNow (receptionStatsDB src)\<rparr>)\<rparr>);
        pk4 \<leftarrow> ADVANCE (fst pk3) (snd pk3) 8;
        Some (len - 20, pk4, r1, if SRHandlerTask r then [CallSRHandler] else [])
      }
      else Some (len, pk, r, []))"

definition reportPart ::
  "timeval \<Rightarrow> u32 \<Rightarrow> u32 \<Rightarrow> u32 \<Rightarrow> nat \<Rightarrow> bytes \<times> nat \<Rightarrow> RTCPInstance \<Rightarrow>
     (bool \<times> nat \<times> (bytes \<times> nat) \<times> RTCPInstance \<times> rtcp_event list) option" where
  "reportPart timeNow reporter pt rc len pk r =
     (let reportBlocksSize = unat (rc * (6 * 4)) in
      if len \<ge> reportBlocksSize then do {
        (pk1, r1) \<leftarrow>
          (case rtcp_Sink r of
             Some sink \<Rightarrow> do {
               (pk1, sink1) \<leftarrow> reportBlocks timeNow reporter (unat rc) pk sink;
               Some (pk1, r\<lparr>rtcp_Sink := Some sink1\<rparr>)
             }
           | None \<Rightarrow> do { pk1 \<leftarrow> ADVANCE (fst pk) (snd pk) reportBlocksSize; Some (pk1, r) });
        Some (True, len - reportBlocksSize, pk1, r1,
              if pt = RTCP_PT_RR \<and> RRHandlerTask r then [CallRRHandler] else [])
      }
      else Some (False, len, pk, r, []))"

text \<open>
  One subpacket after its header and SSRC: whether it is valid, the type it gives the packet, whether it is a
  BYE, the rest.
\<close>

definition subPacket ::
  "timeval \<Rightarrow> u32 \<Rightarrow> u32 \<Rightarrow> u32 \<Rightarrow> nat \<Rightarrow> bytes \<times> nat \<Rightarrow> RTCPInstance \<Rightarrow>
     (bool \<times> packet_type option \<times> bool \<times> nat \<times> (bytes \<times> nat) \<times> RTCPInstance \<times> rtcp_event list) option" where
  "subPacket timeNow reporter pt rc len pk r =
     (if pt = RTCP_PT_SR \<or> pt = RTCP_PT_RR then do {
        (len1, pk1, r1, ev1) \<leftarrow>
          (if pt = RTCP_PT_SR then senderInfo timeNow reporter len pk r else Some (len, pk, r, []));
        (ok, len2, pk2, r2, ev2) \<leftarrow> reportPart timeNow reporter pt rc len1 pk1 r1;
        Some (ok, if ok then Some PACKET_RTCP_REPORT else None, False, len2, pk2, r2, ev1 @ ev2)
      }
      else if pt = RTCP_PT_BYE then Some (True, Some PACKET_BYE, True, len, pk, r, [])
      else Some (True, None, False, len, pk, r, []))"

record report_state =
  rs_type :: packet_type
  rs_sender :: u32
  rs_bye :: bool
  rs_inst :: RTCPInstance
  rs_events :: "rtcp_event list"

text \<open>The loop over the subpackets. The result says whether the whole packet was valid.\<close>

partial_function (option) reportLoop ::
  "timeval \<Rightarrow> u32 \<Rightarrow> bytes \<times> nat \<Rightarrow> report_state \<Rightarrow> (bool \<times> report_state) option" where
  "reportLoop timeNow rtcpHdr pk s = do {
     let rc = drop_bit 24 rtcpHdr AND 0x1F;
     let pt = drop_bit 16 rtcpHdr AND 0xFF;
     let len = unat (4 * (rtcpHdr AND 0xFFFF));
     pk1 \<leftarrow> ADVANCE (fst pk) (snd pk) 4;
     if len > snd pk1 then Some (False, s)
     else if len < 4 then Some (False, s)
     else do {
       (sender, pk2) \<leftarrow> readWord pk1;
       (ok, ty, bye, len2, pk3, r3, ev) \<leftarrow> subPacket timeNow sender pt rc (len - 4) pk2 (rs_inst s);
       let s1 = s\<lparr>rs_sender := sender, rs_inst := r3, rs_events := rs_events s @ ev,
                  rs_type := (case ty of None \<Rightarrow> rs_type s | Some t \<Rightarrow> t), rs_bye := (rs_bye s \<or> bye)\<rparr>;
       if \<not> ok then Some (False, s1)
       else do {
         pk4 \<leftarrow> ADVANCE (fst pk3) (snd pk3) len2;
         if snd pk4 = 0 then Some (True, s1)
         else if snd pk4 < 4 then Some (False, s1)
         else
           (let hdr = fst (Ntohl (fst pk4)) in
            if hdr AND 0xC0000000 \<noteq> 0x80000000 then Some (False, s1)
            else reportLoop timeNow hdr pk4 s1)
       }
     }
   }"

declare reportLoop.simps [code]

text \<open>
  The result: whether the packet was accepted, the new instance and the calls. Everything noted before a
  packet is rejected stays noted. \<open>OnReceive\<close> is empty. The bye handler is called with the client data,
  which must be a media subsession.
\<close>

definition processIncomingReport ::
  "timeval \<Rightarrow> nat \<Rightarrow> RTCPInstance \<Rightarrow> (bool \<times> RTCPInstance \<times> rtcp_event list) option" where
  "processIncomingReport timeNow sz r = do {
     pkt \<leftarrow> slice (inBuf r) 0 sz;
     if sz < 4 then Some (False, r, [])
     else
       (let rtcpHdr = fst (Ntohl pkt) in
        if rtcpHdr AND 0xE0FE0000 \<noteq> (0x80000000 OR push_bit 16 RTCP_PT_SR) then Some (False, r, [])
        else do {
          (ok, s) \<leftarrow> reportLoop timeNow rtcpHdr (pkt, sz)
             \<lparr>rs_type = PACKET_UNKNOWN_TYPE, rs_sender = 0, rs_bye = False, rs_inst = r, rs_events = []\<rparr>;
          if \<not> ok then Some (False, rs_inst s, rs_events s)
          else if rs_bye s \<and> byeHandlerTask (rs_inst s)
               then (if byeHandlerClientData (rs_inst s)
                     then Some (True, rs_inst s, rs_events s @ [CallByeHandler]) else None)
               else Some (True, rs_inst s, rs_events s)
        })
   }"

text \<open>\<open>incomingReportHandler\<close>: the reads until one fails, each into the same buffer.\<close>

fun incomingReportHandler :: "timeval \<Rightarrow> bytes list \<Rightarrow> RTCPInstance \<Rightarrow> (RTCPInstance \<times> rtcp_event list) option" where
  "incomingReportHandler timeNow [] r = Some (r, [])"
| "incomingReportHandler timeNow (d # ds) r = do {
     let n = min (length d) (length (inBuf r));
     (_, r1, ev1) \<leftarrow> processIncomingReport timeNow n (r\<lparr>inBuf := copy_at (inBuf r) 0 d\<rparr>);
     (r2, ev2) \<leftarrow> incomingReportHandler timeNow ds r1;
     Some (r2, ev1 @ ev2)
   }"

section \<open>Outgoing reports\<close>

definition out_word :: "u32 \<Rightarrow> RTCPInstance \<Rightarrow> RTCPInstance option" where
  "out_word w r = do { b \<leftarrow> enqueueWord w (outBuf r); Some (r\<lparr>outBuf := b\<rparr>) }"

fun out_words :: "u32 list \<Rightarrow> RTCPInstance \<Rightarrow> RTCPInstance option" where
  "out_words [] r = Some r"
| "out_words (w # ws) r = do { r1 \<leftarrow> out_word w r; out_words ws r1 }"

definition numReportingSources :: "RTCPInstance \<Rightarrow> u32" where
  "numReportingSources r =
     (case rtcp_Source r of
        None \<Rightarrow> 0
      | Some src \<Rightarrow> (let n = numActiveSourcesSinceLastReset (receptionStatsDB src) in if n \<ge> 32 then 32 else n))"

definition enqueueCommonReportPrefix :: "u32 \<Rightarrow> u32 \<Rightarrow> u32 \<Rightarrow> RTCPInstance \<Rightarrow> RTCPInstance option" where
  "enqueueCommonReportPrefix packetType own numExtraWords r =
     (let n = numReportingSources r;
          rtcpHdr = 0x80000000 OR push_bit 24 n OR push_bit 16 packetType OR (1 + numExtraWords + 6 * n)
      in do { r1 \<leftarrow> out_word rtcpHdr r; out_word own r1 })"

definition lostField :: "RTPReceptionStats \<Rightarrow> int" where
  "lostField stats =
     (let totNumExpected = highestExtSeqNumReceived stats - baseExtSeqNumReceived stats;
          totNumLost = uint (totNumExpected - totNumPacketsReceived stats)
      in if totNumLost > 0x007FFFFF then 0x007FFFFF
         else if totNumLost < 0 then
           (if totNumLost < - 0x00800000 then 0x00800000 else totNumLost) AND 0x00FFFFFF
         else totNumLost)"

definition lossFraction :: "RTPReceptionStats \<Rightarrow> u32" where
  "lossFraction stats =
     (let numExpectedSinceLastReset = highestExtSeqNumReceived stats - lastResetExtSeqNumReceived stats;
          numLostSinceLastReset = numExpectedSinceLastReset - numPacketsReceivedSinceLastReset stats
      in if numExpectedSinceLastReset = 0 \<or> numLostSinceLastReset < 0 then 0
         else push_bit 8 numLostSinceLastReset div numExpectedSinceLastReset)"

definition lastSRField :: "RTPReceptionStats \<Rightarrow> u32" where
  "lastSRField stats =
     push_bit 16 (lastReceivedSRNTPmsw stats AND 0xFFFF) OR drop_bit 16 (lastReceivedSRNTPlsw stats)"

definition delayField :: "timeval \<Rightarrow> RTPReceptionStats \<Rightarrow> u32" where
  "delayField timeNow stats =
     (let lsrTime = lastReceivedSRTime stats;
          t = (if tv_usec timeNow < tv_usec lsrTime
               then \<lparr>tv_sec = tv_sec timeNow - 1, tv_usec = tv_usec timeNow + 1000000\<rparr> else timeNow);
          sec = i64 (tv_sec t - tv_sec lsrTime);
          usec = i64 (tv_usec t - tv_usec lsrTime)
      in if lastSRField stats \<noteq> 0
         then word_of_int (i64 (push_bit 16 sec) OR (((push_bit 11 usec + 15625) sdiv 31250) AND 0xFFFF))
         else 0)"

definition reportBlock :: "timeval \<Rightarrow> RTPReceptionStats \<Rightarrow> u32 list" where
  "reportBlock timeNow stats =
     [rs_ssrc stats,
      push_bit 24 (lossFraction stats) OR word_of_int (lostField stats),
      highestExtSeqNumReceived stats,
      fl_to_uint32 (rs_jitter stats),
      lastSRField stats,
      delayField timeNow stats]"

definition enqueueReportBlock :: "timeval \<Rightarrow> RTPReceptionStats \<Rightarrow> RTCPInstance \<Rightarrow> RTCPInstance option" where
  "enqueueReportBlock timeNow stats r = out_words (reportBlock timeNow stats) r"

fun enqueueReportBlocks :: "timeval \<Rightarrow> u32 list \<Rightarrow> RTPReceptionStatsDB \<Rightarrow> RTCPInstance \<Rightarrow> RTCPInstance option" where
  "enqueueReportBlocks timeNow [] db r = Some r"
| "enqueueReportBlocks timeNow (k # ks) db r = do {
     stats \<leftarrow> rdb_lookup db k;
     r1 \<leftarrow> enqueueReportBlock timeNow stats r;
     enqueueReportBlocks timeNow ks db r1
   }"

definition enqueueCommonReportSuffix :: "timeval \<Rightarrow> u32 list \<Rightarrow> RTCPInstance \<Rightarrow> RTCPInstance option" where
  "enqueueCommonReportSuffix timeNow order r =
     (case rtcp_Source r of
        None \<Rightarrow> Some r
      | Some src \<Rightarrow> enqueueReportBlocks timeNow order (receptionStatsDB src) r)"

text \<open>\<open>addSR\<close> of an instance without a sink dereferences nil.\<close>

definition senderWords :: "timeval \<Rightarrow> RTPSink \<Rightarrow> u32 list \<times> RTPSink" where
  "senderWords timeNow sink =
     (let fractionalPart = fl_mul F32 (fl_of_int F32 (tv_usec timeNow sdiv 15625)) (Fin 0x04000000);
          (rtpTimestamp, sink1) = convertToRTPTimestamp timeNow sink
      in ([word_of_int (i64 (tv_sec timeNow + 0x83AA7E80)),
           fl_to_uint32 (fl_add F32 fractionalPart (Fin (1 / 2))),
           rtpTimestamp, ucast (packetCount sink1), ucast (octetCount sink1)], sink1))"

definition addSR :: "timeval \<Rightarrow> u32 list \<Rightarrow> RTCPInstance \<Rightarrow> RTCPInstance option" where
  "addSR timeNow order r = do {
     sink \<leftarrow> rtcp_Sink r;
     r1 \<leftarrow> enqueueCommonReportPrefix RTCP_PT_SR (sink_ssrc sink) 5 r;
     let (ws, sink1) = senderWords timeNow sink;
     r2 \<leftarrow> out_words ws (r1\<lparr>rtcp_Sink := Some sink1\<rparr>);
     enqueueCommonReportSuffix timeNow order r2
   }"

definition addRR :: "timeval \<Rightarrow> u32 list \<Rightarrow> RTCPInstance \<Rightarrow> RTCPInstance option" where
  "addRR timeNow order r = do {
     src \<leftarrow> rtcp_Source r;
     r1 \<leftarrow> enqueueCommonReportPrefix RTCP_PT_RR (ssrc src) 0 r;
     enqueueCommonReportSuffix timeNow order r1
   }"

definition addReport :: "timeval \<Rightarrow> u32 list \<Rightarrow> RTCPInstance \<Rightarrow> (bool \<times> RTCPInstance) option" where
  "addReport timeNow order r =
     (case rtcp_Sink r of
        Some sink \<Rightarrow>
          if \<not> enableRTCPReports sink then Some (False, r)
          else if nextTimestampHasBeenPreset sink then Some (False, r)
          else do { r1 \<leftarrow> addSR timeNow order r; Some (True, r1) }
      | None \<Rightarrow>
          if rtcp_Source r \<noteq> None then do { r1 \<leftarrow> addRR timeNow order r; Some (True, r1) }
          else Some (True, r))"

definition out_own_ssrc :: "RTCPInstance \<Rightarrow> RTCPInstance option" where
  "out_own_ssrc r =
     (case rtcp_Source r of
        Some src \<Rightarrow> out_word (ssrc src) r
      | None \<Rightarrow> (case rtcp_Sink r of Some sink \<Rightarrow> out_word (sink_ssrc sink) r | None \<Rightarrow> Some r))"

definition addSDES :: "RTCPInstance \<Rightarrow> RTCPInstance option" where
  "addSDES r = do {
     cnameSize \<leftarrow> totalSize (CNAME r);
     let numBytes = 4 + cnameSize + 1;
     let num4ByteWords = (numBytes + 3) div 4;
     r1 \<leftarrow> out_word (0x81000000 OR push_bit 16 RTCP_PT_SDES OR word_of_nat num4ByteWords) r;
     r2 \<leftarrow> out_own_ssrc r1;
     b \<leftarrow> enqueue (CNAME r2) cnameSize (outBuf r2);
     Some (r2\<lparr>outBuf := b\<rparr>)
   }"

definition addBYE :: "RTCPInstance \<Rightarrow> RTCPInstance option" where
  "addBYE r = do {
     r1 \<leftarrow> out_word (0x81000000 OR push_bit 16 RTCP_PT_BYE OR 1) r;
     out_own_ssrc r1
   }"

text \<open>The datagram that goes to the interface, and the instance.\<close>

definition sendBuiltPacket :: "RTCPInstance \<Rightarrow> (bytes \<times> RTCPInstance) option" where
  "sendBuiltPacket r = do {
     let reportSize = curPacketSize (outBuf r);
     p \<leftarrow> OutBuffer.packet (outBuf r);
     d \<leftarrow> slice p 0 reportSize;
     Some (d, r\<lparr>outBuf := resetOffset (outBuf r), lastSentSize := IP_UDP_HDR_SIZE + reportSize,
                haveJustSentPacket := True, lastPacketSentSize := reportSize\<rparr>)
   }"

definition sendReport :: "timeval \<Rightarrow> u32 list \<Rightarrow> RTCPInstance \<Rightarrow> (bytes \<times> RTCPInstance) option" where
  "sendReport timeNow order r = do {
     (_, r1) \<leftarrow> addReport timeNow order r;
     r2 \<leftarrow> addSDES r1;
     sendBuiltPacket r2
   }"

definition sendBye :: "timeval \<Rightarrow> u32 list \<Rightarrow> RTCPInstance \<Rightarrow> (bytes \<times> RTCPInstance) option" where
  "sendBye timeNow order r = do {
     (_, r1) \<leftarrow> addReport timeNow order r;
     r2 \<leftarrow> addBYE r1;
     sendBuiltPacket r2
   }"

section \<open>The schedule\<close>

text \<open>\<open>random\<close> is what \<open>drand48\<close> returns: an \<open>int32\<close> that is not negative.\<close>

definition rtcpInterval :: "int \<Rightarrow> float \<Rightarrow> float \<Rightarrow> float \<Rightarrow> float \<Rightarrow> float \<Rightarrow> float" where
  "rtcpInterval random members senders weSent rtcpBW0 avgSize =
     (let (rtcpBW, n) =
            (if fl_lt (Fin 0) senders \<and> fl_lt senders (fl_mul F64 members (Fin (1 / 4))) then
               if weSent \<noteq> Fin 0 then (fl_mul F64 rtcpBW0 (Fin (1 / 4)), senders)
               else (fl_mul F64 rtcpBW0 (Fin (3 / 4)), fl_sub F64 members senders)
             else (rtcpBW0, members));
          t0 = fl_div F64 (fl_mul F64 avgSize n) rtcpBW;
          t1 = (if fl_lt t0 (Fin 5) then Fin 5 else t0);
          t2 = fl_mul F64 t1 (fl_add F64 (fl_of_int F64 random) (Fin (1 / 2)))
      in fl_div F64 t2 (rnd F64 (271828 / 100000 - 3 / 2)))"

text \<open>The new instance and the length of the sleep in nanoseconds, before \<open>onExpire\<close> is run again.\<close>

definition schedule :: "timeval \<Rightarrow> int \<Rightarrow> RTCPInstance \<Rightarrow> int \<times> RTCPInstance" where
  "schedule timeNow nextTime r =
     (let d = i64 (nextTime - dTimeNow timeNow);
          secondsToDelay = (if d < 0 then 0 else d);
          usToGo = i64 (secondsToDelay * 1000000000)
      in (i64 (usToGo * 1000), r\<lparr>nextReportTime := nextTime\<rparr>))"

text \<open>The datagram sent, if any, the sleep, if the task goes on, and the instance. The random numbers are
  those of the first and of the second call of \<open>rtcpInterval\<close>.\<close>

definition OnExpire ::
  "timeval \<Rightarrow> u32 list \<Rightarrow> int \<Rightarrow> int \<Rightarrow> float \<Rightarrow> float \<Rightarrow> float \<Rightarrow> float \<Rightarrow> float \<Rightarrow> float \<Rightarrow> float \<Rightarrow> RTCPInstance \<Rightarrow>
     (bytes option \<times> int option \<times> RTCPInstance) option" where
  "OnExpire timeNow order random random' members senders weSent rtcpBW avgSize tc tp r =
     (case typeOfEvent r of
        eventReport \<Rightarrow>
          (let t = rtcpInterval random members senders weSent rtcpBW avgSize;
               tn = fl_add F64 tp t
           in if fl_le tn tc then do {
                (d, r1) \<leftarrow> sendReport timeNow order r;
                let avg' = fl_add F64 (fl_mul F64 (Fin (1 / 16)) (fl_of_int F64 (int (lastSentSize r1))))
                                      (fl_mul F64 (Fin (15 / 16)) avgSize);
                let t' = rtcpInterval random' members senders weSent rtcpBW avg';
                let (sleep, r2) = schedule timeNow (fl_to_int64 (fl_add F64 t' tc)) r1;
                Some (Some d, Some sleep, r2)
              }
              else (let (sleep, r1) = schedule timeNow (fl_to_int64 tn) r in Some (None, Some sleep, r1)))
      | _ \<Rightarrow> Some (None, None, r))"

definition onExpire :: "timeval \<Rightarrow> u32 list \<Rightarrow> int \<Rightarrow> int \<Rightarrow> RTCPInstance \<Rightarrow> (bytes option \<times> int option \<times> RTCPInstance) option" where
  "onExpire timeNow order random random' r =
     (let rtcpBW = fl_div F64 (fl_mul F64 (fl_mul F64 (rnd F64 (5 / 100)) (fl_of_int F64 (int (totSessionBW r)))) (Fin 1024)) (Fin 8);
          senders = (if rtcp_Sink r \<noteq> None then Fin 1 else Fin 0)
      in OnExpire timeNow order random random' (fl_of_int F64 (int (numMembers r))) senders senders rtcpBW (avgRTCPSize r)
           (fl_of_int F64 (dTimeNow timeNow)) (fl_of_int F64 (prevReportTime r)) r)"

text \<open>
  The whole of \<open>newRTCPInstance\<close>: it runs \<open>onExpire\<close> itself, and so it returns only after the sleep of \<open>schedule\<close>. The
  result is the report that it sends, if it sends one, the length of the sleep in nanoseconds, and the instance.
\<close>

definition newRTCPInstance ::
  "timeval \<Rightarrow> u32 list \<Rightarrow> int \<Rightarrow> int \<Rightarrow> nat \<Rightarrow> string \<Rightarrow> RTPSink option \<Rightarrow> RTPSource option \<Rightarrow>
     (bytes option \<times> int option \<times> RTCPInstance) option" where
  "newRTCPInstance timeNow order random random' bandwidth cname sink source = do {
     r \<leftarrow> makeRTCPInstance timeNow bandwidth cname sink source;
     onExpire timeNow order random random' r
   }"

end
