(* ===== verification/RtcpReport.thy ===== *)
theory RtcpReport
  imports Rtcp
begin

text \<open>
  The facts about \<open>Rtcp\<close>: the parser accepts no input it could panic on, the reports built by one instance
  are what another one reads, and what goes wrong with the counts, the loss field and the SDES chunk.
\<close>

section \<open>Reading\<close>

lemma readWord_ok [simp]:
  "4 \<le> length d \<Longrightarrow> readWord (d, length d) = Some (fst (Ntohl d), drop 4 d, length d - 4)"
  by (simp add: readWord_def)

lemma readWord_ok':
  "4 \<le> length d \<Longrightarrow> n = length d \<Longrightarrow> readWord (d, n) = Some (fst (Ntohl d), drop 4 d, length d - 4)"
  by simp

lemma ADVANCE_ok:
  "n \<le> length d \<Longrightarrow> m = length d \<Longrightarrow> ADVANCE d m n = Some (drop n d, length d - n)"
  by simp

text \<open>What is left of a packet after a step: a suffix with its length.\<close>

definition rest_of :: "nat \<Rightarrow> bytes \<Rightarrow> bytes \<times> nat" where
  "rest_of k d = (drop k d, length d - k)"

lemma readWord_rest: "k + 4 \<le> length d \<Longrightarrow> readWord (rest_of k d) = Some (fst (Ntohl (drop k d)), rest_of (k + 4) d)"
  by (simp add: rest_of_def readWord_ok' drop_drop add.commute)

lemma ADVANCE_rest: "k + n \<le> length d \<Longrightarrow> ADVANCE (fst (rest_of k d)) (snd (rest_of k d)) n = Some (rest_of (k + n) d)"
  by (simp add: rest_of_def ADVANCE_ok drop_drop add.commute)

lemma rest_of_0: "rest_of 0 d = (d, length d)"
  by (simp add: rest_of_def)

lemma snd_rest_of: "snd (rest_of k d) = length d - k"
  by (simp add: rest_of_def)

lemma fst_rest_of: "fst (rest_of k d) = drop k d"
  by (simp add: rest_of_def)

lemmas reading = readWord_rest ADVANCE_rest

lemma reportBlocks_total:
  "k + 24 * n \<le> length d \<Longrightarrow>
    \<exists>sink'. reportBlocks now reporter n (rest_of k d) sink = Some (rest_of (k + 24 * n) d, sink') \<and>
      sink' = sink\<lparr>transmissionStatsDB := transmissionStatsDB sink'\<rparr>"
proof (induction n arbitrary: k sink)
  case 0
  then show ?case by simp
next
  case (Suc n)
  have ih: "\<exists>sink''. reportBlocks now reporter n (rest_of (k + 24) d) s = Some (rest_of (k + 24 + 24 * n) d, sink'') \<and>
      sink'' = s\<lparr>transmissionStatsDB := transmissionStatsDB sink''\<rparr>" for s
    by (rule Suc.IH) (use Suc.prems in simp)
  have eq: "rest_of (k + 24 + 24 * n) d = rest_of (k + 24 * Suc n) d" by (simp add: add_ac)
  show ?case
  proof (cases "fst (Ntohl (drop k d)) = sink_ssrc sink")
    case True
    define sink1 where "sink1 = sink\<lparr>transmissionStatsDB :=
      tdb_noteIncomingRR (octetCount sink) (packetCount sink) [] reporter (fst (Ntohl (drop (k + 4) d)))
        (fst (Ntohl (drop (k + 8) d))) (fst (Ntohl (drop (k + 12) d))) (fst (Ntohl (drop (k + 16) d)))
        (fst (Ntohl (drop (k + 20) d))) now (transmissionStatsDB sink)\<rparr>"
    obtain s'' where s'': "reportBlocks now reporter n (rest_of (k + 24) d) sink1 = Some (rest_of (k + 24 * Suc n) d, s'')"
      "s'' = sink1\<lparr>transmissionStatsDB := transmissionStatsDB s''\<rparr>"
      using ih [of sink1] unfolding eq by (elim exE conjE)
    have "reportBlocks now reporter (Suc n) (rest_of k d) sink = Some (rest_of (k + 24 * Suc n) d, s'')"
      using Suc.prems True s''(1) by (simp add: reading sink1_def ac_simps)
    moreover have "s'' = sink\<lparr>transmissionStatsDB := transmissionStatsDB s''\<rparr>"
      by (subst s''(2)) (simp add: sink1_def)
    ultimately show ?thesis by blast
  next
    case False
    then show ?thesis using Suc.prems ih [of sink] unfolding eq by (simp add: reading ac_simps)
  qed
qed

lemma report_size: "rc < 32 \<Longrightarrow> unat ((rc :: u32) * (6 * 4)) = 24 * unat rc"
  by (simp add: unat_word_ariths word_less_nat_alt)

lemma rc_small: "drop_bit 24 (h :: u32) AND 0x1F < 32"
  by (rule order.strict_trans1 [OF word_and_le1]) simp

text \<open>Only the two statistics change.\<close>

definition same_but_stats :: "RTCPInstance \<Rightarrow> RTCPInstance \<Rightarrow> bool" where
  "same_but_stats r r' \<longleftrightarrow>
     r' = r\<lparr>rtcp_Sink := map_option (\<lambda>s. s\<lparr>transmissionStatsDB := transmissionStatsDB (the (rtcp_Sink r'))\<rparr>) (rtcp_Sink r),
            rtcp_Source := map_option (\<lambda>s. s\<lparr>receptionStatsDB := receptionStatsDB (the (rtcp_Source r'))\<rparr>) (rtcp_Source r)\<rparr>"

lemma same_refl [simp]: "same_but_stats r r"
  by (cases "rtcp_Sink r"; cases "rtcp_Source r") (simp_all add: same_but_stats_def)

lemma same_trans:
  assumes "same_but_stats r r1" "same_but_stats r1 r2"
  shows "same_but_stats r r2"
proof -
  have 1: "r1 = r\<lparr>rtcp_Sink := map_option (\<lambda>s. s\<lparr>transmissionStatsDB := transmissionStatsDB (the (rtcp_Sink r1))\<rparr>) (rtcp_Sink r),
            rtcp_Source := map_option (\<lambda>s. s\<lparr>receptionStatsDB := receptionStatsDB (the (rtcp_Source r1))\<rparr>) (rtcp_Source r)\<rparr>"
    using assms(1) unfolding same_but_stats_def .
  have 2: "r2 = r1\<lparr>rtcp_Sink := map_option (\<lambda>s. s\<lparr>transmissionStatsDB := transmissionStatsDB (the (rtcp_Sink r2))\<rparr>) (rtcp_Sink r1),
            rtcp_Source := map_option (\<lambda>s. s\<lparr>receptionStatsDB := receptionStatsDB (the (rtcp_Source r2))\<rparr>) (rtcp_Source r1)\<rparr>"
    using assms(2) unfolding same_but_stats_def .
  have s: "rtcp_Sink r1 = map_option (\<lambda>s. s\<lparr>transmissionStatsDB := transmissionStatsDB (the (rtcp_Sink r1))\<rparr>) (rtcp_Sink r)"
    "rtcp_Source r1 = map_option (\<lambda>s. s\<lparr>receptionStatsDB := receptionStatsDB (the (rtcp_Source r1))\<rparr>) (rtcp_Source r)"
    by (subst 1, simp)+
  show ?thesis unfolding same_but_stats_def
    by (rule trans [OF 2], subst 1, subst s(1), subst s(2)) (simp add: option.map_comp o_def)
qed


lemma senderInfo_total:
  assumes "k + len \<le> length d"
  shows "\<exists>len' k' r' ev. senderInfo now reporter len (rest_of k d) r = Some (len', rest_of k' d, r', ev) \<and>
    k' + len' \<le> length d \<and> k \<le> k' \<and> same_but_stats r r'"
proof (cases "len \<ge> 20")
  case True
  then have k: "k + 20 \<le> length d" "k + 20 + (len - 20) \<le> length d" using assms by simp_all
  define r' where "r' = (case rtcp_Source r of
      None \<Rightarrow> r
    | Some src \<Rightarrow> r\<lparr>rtcp_Source := Some (src\<lparr>receptionStatsDB :=
        rdb_noteIncomingSR reporter (fst (Ntohl (drop k d))) (fst (Ntohl (drop (k + 4) d)))
          (fst (Ntohl (drop (k + 8) d))) now (receptionStatsDB src)\<rparr>)\<rparr>)"
  have "senderInfo now reporter len (rest_of k d) r =
      Some (len - 20, rest_of (k + 20) d, r', if SRHandlerTask r then [CallSRHandler] else [])"
    using True k(1) by (simp add: senderInfo_def reading r'_def ac_simps)
  moreover have "same_but_stats r r'"
    unfolding r'_def by (cases "rtcp_Source r"; cases "rtcp_Sink r") (simp_all add: same_but_stats_def)
  ultimately have e: "\<exists>r' ev. senderInfo now reporter len (rest_of k d) r = Some (len - 20, rest_of (k + 20) d, r', ev) \<and>
      same_but_stats r r'" by blast
  show ?thesis using e k(2) by (meson le_add1)
next
  case False
  then show ?thesis using assms by (auto simp: senderInfo_def)
qed

lemma reportPart_total:
  assumes "k + len \<le> length d" and "rc < 32"
  shows "\<exists>ok len' k' r' ev. reportPart now reporter pt rc len (rest_of k d) r = Some (ok, len', rest_of k' d, r', ev) \<and>
    k' + len' \<le> length d \<and> k \<le> k' \<and> same_but_stats r r'"
proof (cases "len \<ge> unat (rc * (6 * 4))")
  case True
  let ?k = "k + 24 * unat rc"
  have k: "?k + (len - 24 * unat rc) \<le> length d" "?k \<le> length d"
    using True assms report_size [OF assms(2)] by simp_all
  have "\<exists>r' ev. reportPart now reporter pt rc len (rest_of k d) r = Some (True, len - 24 * unat rc, rest_of ?k d, r', ev) \<and>
      same_but_stats r r'"
  proof (cases "rtcp_Sink r")
    case None
    then show ?thesis
      using True k(2) report_size [OF assms(2)] by (simp add: reportPart_def Let_def reading)
  next
    case (Some sink)
    obtain sink' where s: "reportBlocks now reporter (unat rc) (rest_of k d) sink = Some (rest_of ?k d, sink')"
      "sink' = sink\<lparr>transmissionStatsDB := transmissionStatsDB sink'\<rparr>"
      using reportBlocks_total [OF k(2), of now reporter sink] by (elim exE conjE)
    have "same_but_stats r (r\<lparr>rtcp_Sink := Some sink'\<rparr>)"
      using Some s(2) by (cases "rtcp_Source r") (simp_all add: same_but_stats_def)
    then show ?thesis
      using True Some s(1) report_size [OF assms(2)] by (simp add: reportPart_def Let_def)
  qed
  then show ?thesis using k(1) by (meson le_add1)
next
  case False
  then show ?thesis using assms(1) by (auto simp: reportPart_def Let_def)
qed

lemma subPacket_total:
  assumes "k + len \<le> length d" and "rc < 32"
  shows "\<exists>ok ty bye len' k' r' ev. subPacket now reporter pt rc len (rest_of k d) r =
    Some (ok, ty, bye, len', rest_of k' d, r', ev) \<and> k' + len' \<le> length d \<and> k \<le> k' \<and> same_but_stats r r'"
proof (cases "pt = RTCP_PT_SR \<or> pt = RTCP_PT_RR")
  case True
  obtain len1 k1 r1 ev1 where 1:
    "(if pt = RTCP_PT_SR then senderInfo now reporter len (rest_of k d) r else Some (len, rest_of k d, r, [])) =
      Some (len1, rest_of k1 d, r1, ev1)" "k1 + len1 \<le> length d" "k \<le> k1" "same_but_stats r r1"
  proof (cases "pt = RTCP_PT_SR")
    case True
    then show ?thesis using senderInfo_total [OF assms(1), of now reporter r] that by auto
  next
    case False
    then show ?thesis using assms(1) that [of len k r "[]"] by simp
  qed
  obtain ok len2 k2 r2 ev2 where 2: "reportPart now reporter pt rc len1 (rest_of k1 d) r1 = Some (ok, len2, rest_of k2 d, r2, ev2)"
    "k2 + len2 \<le> length d" "k1 \<le> k2" "same_but_stats r1 r2"
    using reportPart_total [OF 1(2) assms(2), of now reporter pt r1] by (elim exE conjE)
  from 1(3,4) 2(3,4) have "same_but_stats r r2" "k \<le> k2" using 1(3,4) 2(3,4) by (auto intro: same_trans)
  have "subPacket now reporter pt rc len (rest_of k d) r =
      Some (ok, if ok then Some PACKET_RTCP_REPORT else None, False, len2, rest_of k2 d, r2, ev1 @ ev2)"
    using True 1(1) 2(1) by (simp add: subPacket_def)
  with \<open>same_but_stats r r2\<close> \<open>k \<le> k2\<close> 2(2) show ?thesis by blast
next
  case False
  then show ?thesis using assms(1) by (auto simp: subPacket_def)
qed


lemma same_fields:
  assumes "same_but_stats r r'"
  shows "byeHandlerTask r' = byeHandlerTask r \<and> byeHandlerClientData r' = byeHandlerClientData r \<and>
    outBuf r' = outBuf r \<and> inBuf r' = inBuf r \<and> CNAME r' = CNAME r \<and> nextReportTime r' = nextReportTime r"
  using assms unfolding same_but_stats_def by (rule ssubst) simp

section \<open>No packet crashes the parser\<close>

lemma reportLoop_total:
  "k + 4 \<le> length d \<Longrightarrow>
    \<exists>ok s'. reportLoop now hdr (rest_of k d) s = Some (ok, s') \<and> same_but_stats (rs_inst s) (rs_inst s')"
proof (induction "length d - k" arbitrary: k hdr s rule: less_induct)
  case less
  let ?rc = "drop_bit 24 hdr AND 0x1F" and ?pt = "drop_bit 16 hdr AND 0xFF"
  let ?len = "unat (4 * (hdr AND 0xFFFF))"
  have adv: "ADVANCE (drop k d) (length d - k) 4 = Some (rest_of (k + 4) d)"
    using less.prems ADVANCE_rest [of k 4 d] by (simp only: fst_rest_of snd_rest_of)
  consider "?len > length d - (k + 4)" | "?len \<le> length d - (k + 4)" "?len < 4" | "?len \<le> length d - (k + 4)" "4 \<le> ?len"
    by linarith
  then show ?case
  proof cases
    case 1
    then show ?thesis by (subst reportLoop.simps) (simp add: adv Let_def fst_rest_of snd_rest_of ex_bool_eq)
  next
    case 2
    then show ?thesis by (subst reportLoop.simps) (simp add: adv Let_def fst_rest_of snd_rest_of ex_bool_eq)
  next
    case 3
    define sender where "sender = fst (Ntohl (drop (k + 4) d))"
    have k8: "k + 8 \<le> length d" and room: "k + 8 + (?len - 4) \<le> length d" using 3 less.prems by linarith+
    have rd: "readWord (rest_of (k + 4) d) = Some (sender, rest_of (k + 8) d)"
      using k8 by (simp add: reading sender_def add.assoc)
    obtain ok ty bye len2 k2 r2 ev where sp:
      "subPacket now sender ?pt ?rc (?len - 4) (rest_of (k + 8) d) (rs_inst s) = Some (ok, ty, bye, len2, rest_of k2 d, r2, ev)"
      "k2 + len2 \<le> length d" "k + 8 \<le> k2" "same_but_stats (rs_inst s) r2"
      using subPacket_total [OF room rc_small, of now sender ?pt hdr "rs_inst s"] by (elim exE conjE)
    define s1 where "s1 = s\<lparr>rs_sender := sender, rs_inst := r2, rs_events := rs_events s @ ev,
                  rs_type := (case ty of None \<Rightarrow> rs_type s | Some t \<Rightarrow> t), rs_bye := (rs_bye s \<or> bye)\<rparr>"
    have inst: "rs_inst s1 = r2" by (simp add: s1_def)
    have adv2: "ADVANCE (drop k2 d) (length d - k2) len2 = Some (rest_of (k2 + len2) d)"
      using sp(2) ADVANCE_rest [of k2 len2 d] by (simp only: fst_rest_of snd_rest_of)
    let ?hdr = "fst (Ntohl (drop (k2 + len2) d))"
    have step: "reportLoop now hdr (rest_of k d) s =
      (if \<not> ok then Some (False, s1)
       else if length d - (k2 + len2) = 0 then Some (True, s1)
       else if length d - (k2 + len2) < 4 then Some (False, s1)
       else if ?hdr AND 0xC0000000 \<noteq> 0x80000000 then Some (False, s1)
       else reportLoop now ?hdr (rest_of (k2 + len2) d) s1)"
      using 3 by (subst reportLoop.simps)
        (simp add: adv rd sp(1) adv2 s1_def [symmetric] Let_def snd_rest_of fst_rest_of)
    have "\<exists>ok s'. reportLoop now ?hdr (rest_of (k2 + len2) d) s1 = Some (ok, s') \<and> same_but_stats r2 (rs_inst s')"
      if "\<not> length d - (k2 + len2) < 4"
      unfolding inst [symmetric] by (rule less.hyps) (use that sp(3) less.prems in linarith)+
    then show ?thesis unfolding step using sp(4) inst by (auto intro: same_trans)
  qed
qed

lemma processIncomingReport_total:
  assumes "n \<le> length (inBuf r)" and "byeHandlerTask r \<longrightarrow> byeHandlerClientData r"
  shows "\<exists>ok r' ev. processIncomingReport now n r = Some (ok, r', ev) \<and> same_but_stats r r'"
proof -
  let ?d = "take n (inBuf r)"
  have sl: "slice (inBuf r) 0 n = Some ?d" and l: "length ?d = n" using assms(1) by simp_all
  show ?thesis
  proof (cases "n < 4 \<or> fst (Ntohl ?d) AND 0xE0FE0000 \<noteq> (0x80000000 OR push_bit 16 RTCP_PT_SR)")
    case True
    then show ?thesis using assms(1) by (auto simp: processIncomingReport_def Let_def)
  next
    case False
    let ?s = "\<lparr>rs_type = PACKET_UNKNOWN_TYPE, rs_sender = 0, rs_bye = False, rs_inst = r, rs_events = []\<rparr>"
    have "0 + 4 \<le> length ?d" using False l by simp
    from reportLoop_total [OF this, of now "fst (Ntohl ?d)" ?s]
    obtain ok s where s: "reportLoop now (fst (Ntohl ?d)) (rest_of 0 ?d) ?s = Some (ok, s)"
      "same_but_stats (rs_inst ?s) (rs_inst s)"
      by (elim exE conjE)
    have "rest_of 0 ?d = (?d, n)" using l by (simp add: rest_of_def)
    moreover have "byeHandlerTask (rs_inst s) = byeHandlerTask r" "byeHandlerClientData (rs_inst s) = byeHandlerClientData r"
      using same_fields [OF s(2)] by simp_all
    ultimately show ?thesis using False s assms by (auto simp: processIncomingReport_def sl)
  qed
qed


section \<open>What the builders write\<close>

lemma out_words_putWords:
  "out_words ws r = map_option (\<lambda>b. r\<lparr>outBuf := b\<rparr>) (putWords enqueueWord ws (outBuf r))"
proof (induction ws arbitrary: r)
  case (Cons w ws)
  then show ?case by (cases "enqueueWord w (outBuf r)") (simp_all add: out_word_def)
qed simp

lemma out_words_append: "out_words (xs @ ys) r = do { r1 \<leftarrow> out_words xs r; out_words ys r1 }"
  by (induction xs arbitrary: r) (auto simp: out_word_def split: Option.bind_splits)

lemma out_words_content:
  assumes "buff_wf (outBuf r)" and "4 * length ws \<le> room (outBuf r)"
  shows "\<exists>b. out_words ws r = Some (r\<lparr>outBuf := b\<rparr>) \<and> buff_wf b \<and>
    content b = content (outBuf r) @ words_enc ws \<and> room b = room (outBuf r) - 4 * length ws"
  using ob.putWords_ok [OF assms] by (auto simp: out_words_putWords)

text \<open>The statistics that the report blocks are made of.\<close>

definition stats_of :: "RTPReceptionStatsDB \<Rightarrow> u32 list \<Rightarrow> RTPReceptionStats list" where
  "stats_of db order = map (\<lambda>k. the (rdb_lookup db k)) order"

lemma length_stats_of [simp]: "length (stats_of db order) = length order"
  by (simp add: stats_of_def)

lemma enqueueReportBlocks_words:
  "\<forall>k \<in> set order. rdb_lookup db k \<noteq> None \<Longrightarrow>
    enqueueReportBlocks now order db = out_words (concat (map (reportBlock now) (stats_of db order)))"
proof (induction order)
  case Nil
  show ?case by (rule ext) (simp add: stats_of_def)
next
  case (Cons k order)
  then obtain st where "rdb_lookup db k = Some st" by auto
  with Cons show ?case by (intro ext) (simp add: enqueueReportBlock_def out_words_append stats_of_def)
qed

lemma length_reportBlock [simp]: "length (reportBlock now stats) = 6"
  by (simp add: reportBlock_def)

lemma length_blocks [simp]: "length (concat (map (reportBlock now) xs)) = 6 * length xs"
  by (induction xs) simp_all

definition report_header :: "u32 \<Rightarrow> u32 \<Rightarrow> u32 \<Rightarrow> u32" where
  "report_header n pt extra = 0x80000000 OR push_bit 24 n OR push_bit 16 pt OR (1 + extra + 6 * n)"

definition rr_words :: "timeval \<Rightarrow> RTPSource \<Rightarrow> u32 \<Rightarrow> u32 list \<Rightarrow> u32 list" where
  "rr_words now src n order =
     report_header n RTCP_PT_RR 0 # ssrc src # concat (map (reportBlock now) (stats_of (receptionStatsDB src) order))"

lemma addRR_words:
  assumes "rtcp_Source r = Some src" and "\<forall>k \<in> set order. rdb_lookup (receptionStatsDB src) k \<noteq> None"
  shows "addRR now order r = out_words (rr_words now src (numReportingSources r) order) r"
  using assms
  by (cases "enqueueWord (report_header (numReportingSources r) RTCP_PT_RR 0) (outBuf r)")
    (auto simp: addRR_def enqueueCommonReportPrefix_def enqueueCommonReportSuffix_def Let_def report_header_def
      enqueueReportBlocks_words rr_words_def out_word_def split: Option.bind_splits)

lemma sendBuiltPacket_content:
  assumes "buff_wf (outBuf r)"
  shows "\<exists>r'. sendBuiltPacket r = Some (content (outBuf r), r') \<and> lastSentSize r' = 28 + curOffset (outBuf r)"
proof -
  have "packetStart (outBuf r) \<le> length (buff (outBuf r))"
    "curOffset (outBuf r) \<le> length (drop (packetStart (outBuf r)) (buff (outBuf r)))"
    using assms by (auto simp: buff_wf_def)
  then show ?thesis
    by (simp add: sendBuiltPacket_def packet_def curPacketSize_def content_def IP_UDP_HDR_SIZE_def Let_def)
qed

lemma sendBye_content:
  assumes "rtcp_Source r = Some src" and "rtcp_Sink r = None"
    and "\<forall>k \<in> set order. rdb_lookup (receptionStatsDB src) k \<noteq> None"
    and "buff_wf (outBuf r)" and "content (outBuf r) = []" and "16 + 24 * length order \<le> room (outBuf r)"
  shows "\<exists>r'. sendBye now order r =
    Some (words_enc (rr_words now src (numReportingSources r) order @ [0x81CB0001, ssrc src]), r')"
proof -
  let ?ws = "rr_words now src (numReportingSources r) order"
  have hdr: "0x81000000 OR push_bit 16 RTCP_PT_BYE OR 1 = (0x81CB0001 :: u32)" by (simp add: rtcp_consts)
  have l: "length ?ws = 2 + 6 * length order" by (simp add: rr_words_def)
  obtain b where b: "out_words ?ws r = Some (r\<lparr>outBuf := b\<rparr>)" "buff_wf b" "content b = words_enc ?ws"
    "room b = room (outBuf r) - 4 * length ?ws"
    using out_words_content [OF assms(4), of ?ws] assms(5,6) l by auto
  have "4 * length [0x81CB0001, ssrc src] \<le> room (outBuf (r\<lparr>outBuf := b\<rparr>))" using b(4) assms(6) l by simp
  from out_words_content [OF _ this] b(2)
  obtain b2 where b2: "out_words [0x81CB0001, ssrc src] (r\<lparr>outBuf := b\<rparr>) = Some (r\<lparr>outBuf := b2\<rparr>)" "buff_wf b2"
    "content b2 = words_enc ?ws @ words_enc [0x81CB0001, ssrc src]"
    using b(3) by auto
  have bye: "addBYE (r\<lparr>outBuf := b\<rparr>) = Some (r\<lparr>outBuf := b2\<rparr>)"
    using b2(1) assms(1) unfolding addBYE_def hdr
    by (auto simp: out_own_ssrc_def out_word_def split: Option.bind_splits)
  have rep: "addReport now order r = Some (True, r\<lparr>outBuf := b\<rparr>)"
    using assms(1,2) b(1) by (simp add: addReport_def addRR_words [OF assms(1,3)])
  show ?thesis
    using sendBuiltPacket_content [of "r\<lparr>outBuf := b2\<rparr>"] b2(2,3) by (auto simp: sendBye_def rep bye)
qed


section \<open>Reading a report back\<close>

lemma readWord_enc: "n = 4 + length r \<Longrightarrow> readWord (be32_enc w @ r, n) = Some (w, r, length r)"
  by (simp add: readWord_def ADVANCE_def usub_def codec c32.enc_length)

text \<open>What a report block about the sink's own transmission does to the sink.\<close>

definition note_block :: "timeval \<Rightarrow> u32 \<Rightarrow> u32 list \<Rightarrow> RTPSink \<Rightarrow> RTPSink" where
  "note_block now reporter ws sink =
     (if ws ! 0 = sink_ssrc sink
      then sink\<lparr>transmissionStatsDB :=
             tdb_noteIncomingRR (octetCount sink) (packetCount sink) [] reporter (ws ! 1) (ws ! 2) (ws ! 3) (ws ! 4)
               (ws ! 5) now (transmissionStatsDB sink)\<rparr>
      else sink)"

lemma six_words:
  assumes "length b = 6"
  obtains a0 a1 a2 a3 a4 a5 where "b = [a0, a1, a2, a3, a4, a5]"
  using assms by (auto simp: numeral_eq_Suc length_Suc_conv)

lemma reportBlocks_reads:
  "\<forall>b \<in> set bs. length b = 6 \<Longrightarrow> n = 24 * length bs + length rest \<Longrightarrow>
    reportBlocks now reporter (length bs) (words_enc (concat bs) @ rest, n) sink =
      Some ((rest, length rest), fold (note_block now reporter) bs sink)"
proof (induction bs arbitrary: sink n)
  case (Cons b bs)
  then have "length b = 6" by simp
  then obtain a0 a1 a2 a3 a4 a5 where b: "b = [a0, a1, a2, a3, a4, a5]" by (rule six_words)
  let ?r = "words_enc (concat bs) @ rest"
  have l: "length (concat bs) = 6 * length bs" using Cons.prems(1) by (induction bs) simp_all
  have ih: "reportBlocks now reporter (length bs) (?r, length ?r) s =
      Some ((rest, length rest), fold (note_block now reporter) bs s)" for s
    by (rule Cons.IH) (use Cons.prems l in simp_all)
  have adv: "ADVANCE (be32_enc a1 @ be32_enc a2 @ be32_enc a3 @ be32_enc a4 @ be32_enc a5 @ ?r) (20 + length ?r) 20 =
      Some (?r, length ?r)"
    by (simp add: ADVANCE_def usub_def c32.enc_length)
  have nb: "note_block now reporter [a0, a1, a2, a3, a4, a5] sink =
      (if a0 = sink_ssrc sink
       then sink\<lparr>transmissionStatsDB := tdb_noteIncomingRR (octetCount sink) (packetCount sink) [] reporter a1 a2 a3 a4 a5
              now (transmissionStatsDB sink)\<rparr> else sink)"
    by (simp add: note_block_def)
  show ?case
    using ih Cons.prems(2) l adv unfolding b
    by (simp add: readWord_enc c32.enc_length nb)
qed simp

lemma report_header_fields:
  assumes "k < 32"
  shows "drop_bit 24 (report_header (word_of_nat k) RTCP_PT_RR 0) AND 0x1F = (word_of_nat k :: u32)"
    and "drop_bit 16 (report_header (word_of_nat k) RTCP_PT_RR 0) AND 0xFF = RTCP_PT_RR"
    and "unat (4 * (report_header (word_of_nat k) RTCP_PT_RR 0 AND 0xFFFF)) = 4 + 24 * k"
    and "report_header (word_of_nat k) RTCP_PT_RR 0 AND 0xE0FE0000 = 0x80000000 OR push_bit 16 RTCP_PT_SR"
proof -
  have "list_all (\<lambda>k. let h = report_header (word_of_nat k) RTCP_PT_RR 0 in
      drop_bit 24 h AND 0x1F = (word_of_nat k :: u32) \<and> drop_bit 16 h AND 0xFF = RTCP_PT_RR \<and>
      unat (4 * (h AND 0xFFFF)) = 4 + 24 * k \<and> h AND 0xE0FE0000 = 0x80000000 OR push_bit 16 RTCP_PT_SR) [0..<32]"
    by code_simp
  then have "let h = report_header (word_of_nat k) RTCP_PT_RR 0 in
      drop_bit 24 h AND 0x1F = (word_of_nat k :: u32) \<and> drop_bit 16 h AND 0xFF = RTCP_PT_RR \<and>
      unat (4 * (h AND 0xFFFF)) = 4 + 24 * k \<and> h AND 0xE0FE0000 = 0x80000000 OR push_bit 16 RTCP_PT_SR"
    using assms by (simp only: list_all_iff set_upt) simp
  then show "drop_bit 24 (report_header (word_of_nat k) RTCP_PT_RR 0) AND 0x1F = (word_of_nat k :: u32)"
    and "drop_bit 16 (report_header (word_of_nat k) RTCP_PT_RR 0) AND 0xFF = RTCP_PT_RR"
    and "unat (4 * (report_header (word_of_nat k) RTCP_PT_RR 0 AND 0xFFFF)) = 4 + 24 * k"
    and "report_header (word_of_nat k) RTCP_PT_RR 0 AND 0xE0FE0000 = 0x80000000 OR push_bit 16 RTCP_PT_SR"
    by (simp_all only: Let_def)
qed


lemma sink_unset [simp]: "rtcp_Sink r = None \<Longrightarrow> r\<lparr>rtcp_Sink := None\<rparr> = r"
  by (cases r) simp

definition after_rr :: "timeval \<Rightarrow> u32 \<Rightarrow> u32 list list \<Rightarrow> report_state \<Rightarrow> report_state" where
  "after_rr now own bs s =
     s\<lparr>rs_sender := own,
       rs_inst := (rs_inst s)\<lparr>rtcp_Sink := map_option (fold (note_block now own) bs) (rtcp_Sink (rs_inst s))\<rparr>,
       rs_events := rs_events s @ (if RRHandlerTask (rs_inst s) then [CallRRHandler] else []),
       rs_type := PACKET_RTCP_REPORT\<rparr>"

lemma reportLoop_rr:
  assumes "length bs < 32" and "\<forall>b \<in> set bs. length b = 6" and "n = 8 + 24 * length bs + length rest"
  shows "reportLoop now (report_header (word_of_nat (length bs)) RTCP_PT_RR 0)
      (be32_enc (report_header (word_of_nat (length bs)) RTCP_PT_RR 0) @ be32_enc own @ words_enc (concat bs) @ rest, n) s =
    (if length rest = 0 then Some (True, after_rr now own bs s)
     else if length rest < 4 then Some (False, after_rr now own bs s)
     else if fst (Ntohl rest) AND 0xC0000000 \<noteq> 0x80000000 then Some (False, after_rr now own bs s)
     else reportLoop now (fst (Ntohl rest)) (rest, length rest) (after_rr now own bs s))"
proof -
  let ?h = "report_header (word_of_nat (length bs)) RTCP_PT_RR 0"
  let ?q = "words_enc (concat bs) @ rest"
  note h = report_header_fields [OF assms(1)]
  have l: "length (concat bs) = 6 * length bs" using assms(2) by (induction bs) simp_all
  have a4: "ADVANCE (be32_enc ?h @ be32_enc own @ ?q) (8 + 24 * length bs + length rest) 4 =
      Some (be32_enc own @ ?q, 4 + 24 * length bs + length rest)"
    by (simp add: ADVANCE_def usub_def c32.enc_length)
  have rd: "readWord (be32_enc own @ ?q, 4 + 24 * length bs + length rest) = Some (own, ?q, 24 * length bs + length rest)"
    using readWord_enc [of "4 + 24 * length bs + length rest" ?q own] l by simp
  have k: "unat (word_of_nat (length bs) :: u32) = length bs" using assms(1) by (simp add: unat_of_nat)
  have size: "unat ((word_of_nat (length bs) :: u32) * (6 * 4)) = 24 * length bs"
    using report_size [of "word_of_nat (length bs)"] assms(1) k by (simp add: word_less_nat_alt)
  have ne: "RTCP_PT_RR \<noteq> RTCP_PT_SR" by (simp add: rtcp_consts)
  have sub: "subPacket now own RTCP_PT_RR (word_of_nat (length bs)) (24 * length bs) (?q, length ?q) (rs_inst s) =
      Some (True, Some PACKET_RTCP_REPORT, False, 0, (rest, length rest), rs_inst (after_rr now own bs s),
        if RRHandlerTask (rs_inst s) then [CallRRHandler] else [])"
  proof (cases "rtcp_Sink (rs_inst s)")
    case None
    have "ADVANCE ?q (length ?q) (24 * length bs) = Some (rest, length rest)"
      using l by (simp add: ADVANCE_def usub_def)
    then show ?thesis
      using None size ne by (simp add: subPacket_def reportPart_def Let_def after_rr_def)
  next
    case (Some sink)
    have "reportBlocks now own (length bs) (?q, length ?q) sink = Some ((rest, length rest), fold (note_block now own) bs sink)"
      by (rule reportBlocks_reads [OF assms(2)]) (use l in simp)
    then show ?thesis
      using Some size ne k by (simp add: subPacket_def reportPart_def Let_def after_rr_def)
  qed
  have ar: "s\<lparr>rs_sender := own, rs_inst := rs_inst (after_rr now own bs s),
        rs_events := rs_events s @ (if RRHandlerTask (rs_inst s) then [CallRRHandler] else []),
        rs_type := PACKET_RTCP_REPORT, rs_bye := rs_bye s\<rparr> = after_rr now own bs s"
    by (simp add: after_rr_def)
  have ab: "after_rr now own bs s\<lparr>rs_bye := rs_bye s\<rparr> = after_rr now own bs s"
    by (simp add: after_rr_def)
  have z: "ADVANCE rest (length rest) 0 = Some (rest, length rest)" by (simp add: ADVANCE_def usub_def)
  show ?thesis
    using l sub ar unfolding assms(3)
    by (subst reportLoop.simps) (simp add: h a4 rd z ab Let_def)
qed

lemma reportLoop_bye:
  "reportLoop now 0x81CB0001 (be32_enc 0x81CB0001 @ be32_enc own, 8) s =
    Some (True, s\<lparr>rs_sender := own, rs_type := PACKET_BYE, rs_bye := True\<rparr>)"
proof -
  have a4: "ADVANCE (be32_enc 0x81CB0001 @ be32_enc own) 8 4 = Some (be32_enc own, 4)"
    by (simp add: ADVANCE_def usub_def c32.enc_length)
  have rd: "readWord (be32_enc own, 4) = Some (own, [], 0)" using readWord_enc [of 4 "[]" own] by simp
  show ?thesis
    by (subst reportLoop.simps) (simp add: a4 rd Let_def subPacket_def rtcp_consts)
qed

lemma reportLoop_long:
  "unat (4 * (h AND 0xFFFF)) > length rest \<Longrightarrow>
    reportLoop now h (be32_enc h @ rest, 4 + length rest) s = Some (False, s)"
  by (subst reportLoop.simps) (simp add: ADVANCE_def usub_def c32.enc_length Let_def)


text \<open>The statistics of the reader after the blocks of a report from \<open>own\<close>.\<close>

definition noted :: "timeval \<Rightarrow> u32 \<Rightarrow> u32 list list \<Rightarrow> RTCPInstance \<Rightarrow> RTCPInstance" where
  "noted now own bs p = p\<lparr>rtcp_Sink := map_option (fold (note_block now own) bs) (rtcp_Sink p)\<rparr>"

definition rr_events :: "RTCPInstance \<Rightarrow> rtcp_event list" where
  "rr_events p = (if RRHandlerTask p then [CallRRHandler] else [])"

lemma blocks_six: "\<forall>b \<in> set (map (reportBlock now) xs). length b = 6"
  by simp

text \<open>A packet that begins with a receiver report of \<open>bs\<close>, in the reader's buffer.\<close>

lemma process_rr:
  assumes "take (length d) (inBuf p) = d"
    and "d = words_enc (report_header (word_of_nat (length bs)) RTCP_PT_RR 0 # own # concat bs) @ rest"
    and "length bs < 32" and "\<forall>b \<in> set bs. length b = 6"
  shows "processIncomingReport now (length d) p =
    (let s = \<lparr>rs_type = PACKET_RTCP_REPORT, rs_sender = own, rs_bye = False, rs_inst = noted now own bs p, rs_events = rr_events p\<rparr>
     in do {
       (ok, s') \<leftarrow> (if length rest = 0 then Some (True, s)
                     else if length rest < 4 then Some (False, s)
                     else if fst (Ntohl rest) AND 0xC0000000 \<noteq> 0x80000000 then Some (False, s)
                     else reportLoop now (fst (Ntohl rest)) (rest, length rest) s);
       if \<not> ok then Some (False, rs_inst s', rs_events s')
       else if rs_bye s' \<and> byeHandlerTask (rs_inst s')
            then (if byeHandlerClientData (rs_inst s') then Some (True, rs_inst s', rs_events s' @ [CallByeHandler]) else None)
            else Some (True, rs_inst s', rs_events s')
     })"
proof -
  let ?h = "report_header (word_of_nat (length bs)) RTCP_PT_RR 0"
  let ?s0 = "\<lparr>rs_type = PACKET_UNKNOWN_TYPE, rs_sender = 0, rs_bye = False, rs_inst = p, rs_events = []\<rparr>"
  have l: "length (concat bs) = 6 * length bs" using assms(4) by (induction bs) simp_all
  have d: "d = be32_enc ?h @ be32_enc own @ words_enc (concat bs) @ rest" using assms(2) by simp
  have ld: "length d = 8 + 24 * length bs + length rest" using l by (simp add: d c32.enc_length)
  have l4: "\<not> length d < 4" using ld by simp
  have sl: "slice (inBuf p) 0 (length d) = Some d"
    using assms(1) by (metis slice_Some drop0 diff_zero le0 length_take min.cobounded1)
  have hd: "fst (Ntohl d) = ?h" by (simp add: d codec)
  have s: "after_rr now own bs ?s0 =
     \<lparr>rs_type = PACKET_RTCP_REPORT, rs_sender = own, rs_bye = False, rs_inst = noted now own bs p, rs_events = rr_events p\<rparr>"
    by (simp add: after_rr_def noted_def rr_events_def)
  have "processIncomingReport now (length d) p = do {
       (ok, s') \<leftarrow> reportLoop now ?h (d, length d) ?s0;
       if \<not> ok then Some (False, rs_inst s', rs_events s')
       else if rs_bye s' \<and> byeHandlerTask (rs_inst s')
            then (if byeHandlerClientData (rs_inst s') then Some (True, rs_inst s', rs_events s' @ [CallByeHandler]) else None)
            else Some (True, rs_inst s', rs_events s')
     }"
    using l4 report_header_fields(4) [OF assms(3)] by (simp add: processIncomingReport_def sl hd Let_def)
  also have "reportLoop now ?h (d, length d) ?s0 = reportLoop now ?h (be32_enc ?h @ be32_enc own @ words_enc (concat bs) @ rest, length d) ?s0"
    by (simp only: d)
  finally show ?thesis unfolding reportLoop_rr [OF assms(3,4) ld] s Let_def .
qed


section \<open>Round trips\<close>

lemma bye_report_read:
  assumes "rtcp_Source r = Some src" and "rtcp_Sink r = None"
    and order: "\<forall>k \<in> set order. rdb_lookup (receptionStatsDB src) k \<noteq> None"
    and count: "length order < 32" "numActiveSourcesSinceLastReset (receptionStatsDB src) = word_of_nat (length order)"
    and "buff_wf (outBuf r)" and "content (outBuf r) = []" and "16 + 24 * length order \<le> room (outBuf r)"
    and sent: "sendBye now order r = Some (d, r1)" and rcvd: "take (length d) (inBuf p) = d"
    and bye: "byeHandlerTask p \<longrightarrow> byeHandlerClientData p"
  shows "processIncomingReport now' (length d) p =
    Some (True, noted now' (ssrc src) (map (reportBlock now) (stats_of (receptionStatsDB src) order)) p,
          rr_events p @ (if byeHandlerTask p then [CallByeHandler] else []))"
proof -
  let ?bs = "map (reportBlock now) (stats_of (receptionStatsDB src) order)"
  let ?bye = "words_enc [0x81CB0001, ssrc src]"
  have n: "numReportingSources r = word_of_nat (length order)"
  proof -
    have "\<not> (word_of_nat (length order) :: u32) \<ge> 32"
      using count(1) by (simp add: word_le_nat_alt unat_of_nat)
    then show ?thesis using assms(1) count(2) by (simp add: numReportingSources_def Let_def)
  qed
  have d: "d = words_enc (report_header (word_of_nat (length ?bs)) RTCP_PT_RR 0 # ssrc src # concat ?bs) @ ?bye"
    using sendBye_content [OF assms(1,2) order assms(6-8), of now] sent n by (simp add: rr_words_def)
  have l8: "length ?bye = 8" by (simp add: c32.enc_length)
  have hd: "fst (Ntohl ?bye) = 0x81CB0001" by (simp add: codec)
  have bye2: "reportLoop now' 0x81CB0001 (?bye, 8) s =
      Some (True, s\<lparr>rs_sender := ssrc src, rs_type := PACKET_BYE, rs_bye := True\<rparr>)" for s
    using reportLoop_bye [of now' "ssrc src" s] by simp
  have c: "length ?bs < 32" using count(1) by simp
  show ?thesis
    unfolding process_rr [OF rcvd d c blocks_six] l8 hd
    using bye bye2 by (simp add: noted_def)
qed


text \<open>\<open>enqueue\<close> of fewer bytes than it is told: the cursor moves over whatever was there.\<close>

lemma enqueue_short:
  assumes "buff_wf b" and "length xs \<le> n" and "n \<le> room b"
  shows "\<exists>b' tl. enqueue xs n b = Some b' \<and> buff_wf b' \<and> content b' = content b @ xs @ tl \<and> length tl = n - length xs \<and>
    curOffset b' = curOffset b + n"
proof -
  let ?p = "packetStart b + curOffset b"
  let ?b = "increment n (b\<lparr>buff := copy_at (buff b) ?p xs\<rparr>)"
  have len: "length (buff b) = limit b" "?p + n \<le> limit b" "limit b < 2 ^ 63" using assms by (auto simp: buff_wf_def room_def)
  have av: "\<not> n > totalBytesAvailable b" using assms by (simp add: available_room)
  have e: "enqueue xs n b = Some ?b" using av len by (simp add: enqueue_def curPtr_def)
  have wf: "buff_wf ?b" using len by (simp add: buff_wf_def increment_def)
  have c: "take (curOffset b + length xs) (content ?b) = content b @ xs"
  proof -
    have a: "take (curOffset b + length xs) (content ?b) =
        take (curOffset b + length xs) (drop (packetStart b) (copy_at (buff b) ?p xs))"
      using assms(2) len by (simp add: content_def increment_def min_def)
    have b: "drop (packetStart b) (copy_at (buff b) ?p xs) = content b @ drop ?p (copy_at (buff b) ?p xs)"
    proof -
      have "drop (curOffset b) (drop (packetStart b) (copy_at (buff b) ?p xs)) = drop ?p (copy_at (buff b) ?p xs)"
        by (simp add: add.commute)
      moreover have "take (curOffset b) (drop (packetStart b) (copy_at (buff b) ?p xs)) = content b"
        using len by (simp add: take_drop content_def add.commute)
      ultimately show ?thesis by (metis append_take_drop_id)
    qed
    have l: "length (content b) = curOffset b" using assms(1) by (rule length_content)
    have "take (length xs) (drop ?p (copy_at (buff b) ?p xs)) = xs"
      by (rule slice_copy_at) (use assms(2) len in simp)
    then show ?thesis unfolding a b using l by simp
  qed
  have "content ?b = (content b @ xs) @ drop (curOffset b + length xs) (content ?b)"
    using c by (metis append_take_drop_id)
  moreover have "length (content ?b) = curOffset b + n" using length_content [OF wf] len by (simp add: increment_def)
  ultimately show ?thesis using e wf len by (intro exI conjI) (auto simp: increment_def)
qed

lemma addSDES_content:
  assumes "buff_wf (outBuf r)" and "rtcp_Source r = Some src" and "CNAME r = newSDESItem 1 name"
    and "265 \<le> room (outBuf r)"
  shows "\<exists>b tl W. addSDES r = Some (r\<lparr>outBuf := b\<rparr>) \<and> buff_wf b \<and> W \<le> 66 \<and>
    content b = content (outBuf r) @ words_enc [0x81CA0000 OR word_of_nat W, ssrc src] @ tl \<and>
    length tl + 4 < 4 * W"
proof -
  obtain m where m: "totalSize (CNAME r) = Some m" "2 \<le> m" "m \<le> 257"
    unfolding assms(3) by (auto simp: newSDESItem_def totalSize_def Let_def unat_of_nat)
  define W where "W = (4 + m + 1 + 3) div 4"
  have lc: "length (CNAME r) = 2" by (simp add: assms(3) newSDESItem_def Let_def)
  have hdr: "0x81000000 OR push_bit 16 RTCP_PT_SDES OR word_of_nat W = (0x81CA0000 OR word_of_nat W :: u32)"
    unfolding or.assoc [symmetric] by (simp add: rtcp_consts)
  let ?ws = "[0x81CA0000 OR word_of_nat W, ssrc src]"
  have "4 * length ?ws \<le> room (outBuf r)" using assms(4) by simp
  from out_words_content [OF assms(1) this]
  obtain b where b: "out_words ?ws r = Some (r\<lparr>outBuf := b\<rparr>)" "buff_wf b" "content b = content (outBuf r) @ words_enc ?ws"
    "room b = room (outBuf r) - 8" by auto
  have "length (CNAME r) \<le> m" "m \<le> room b" using lc b(4) assms(4) m by auto
  from enqueue_short [OF b(2) this]
  obtain b2 tl where b2: "enqueue (CNAME r) m b = Some b2" "buff_wf b2" "content b2 = content b @ CNAME r @ tl"
    "length tl = m - 2" using lc by auto
  obtain r1 where r1: "out_word (0x81CA0000 OR word_of_nat W) r = Some r1" "out_word (ssrc src) r1 = Some (r\<lparr>outBuf := b\<rparr>)"
    using b(1) by (auto split: Option.bind_splits)
  have "rtcp_Source r1 = Some src" using r1(1) assms(2) by (auto simp: out_word_def split: Option.bind_splits)
  then have "addSDES r = Some (r\<lparr>outBuf := b2\<rparr>)"
    using r1 b2(1) m(1) hdr by (simp add: addSDES_def out_own_ssrc_def W_def)
  moreover have "W \<le> 66" using m(3) by (simp add: W_def)
  moreover have "length (CNAME r @ tl) + 4 < 4 * W" using b2(4) lc m(2) by (simp add: W_def)
  moreover have "content b2 = content (outBuf r) @ words_enc ?ws @ CNAME r @ tl" using b2(3) b(3) by simp
  ultimately show ?thesis using b2(2) by blast
qed


lemma report_read:
  assumes "rtcp_Source r = Some src" and "rtcp_Sink r = None" and "CNAME r = newSDESItem 1 name"
    and order: "\<forall>k \<in> set order. rdb_lookup (receptionStatsDB src) k \<noteq> None"
    and count: "length order < 32" "numActiveSourcesSinceLastReset (receptionStatsDB src) = word_of_nat (length order)"
    and "buff_wf (outBuf r)" and "content (outBuf r) = []" and "273 + 24 * length order \<le> room (outBuf r)"
    and sent: "sendReport now order r = Some (d, r1)" and rcvd: "take (length d) (inBuf p) = d"
  shows "processIncomingReport now' (length d) p =
    Some (False, noted now' (ssrc src) (map (reportBlock now) (stats_of (receptionStatsDB src) order)) p, rr_events p)"
proof -
  let ?bs = "map (reportBlock now) (stats_of (receptionStatsDB src) order)"
  have n: "numReportingSources r = word_of_nat (length order)"
  proof -
    have "\<not> (word_of_nat (length order) :: u32) \<ge> 32"
      using count(1) by (simp add: word_le_nat_alt unat_of_nat)
    then show ?thesis using assms(1) count(2) by (simp add: numReportingSources_def Let_def)
  qed
  let ?ws = "rr_words now src (word_of_nat (length order)) order"
  have l: "length ?ws = 2 + 6 * length order" by (simp add: rr_words_def)
  obtain b where b: "out_words ?ws r = Some (r\<lparr>outBuf := b\<rparr>)" "buff_wf b" "content b = words_enc ?ws"
    "room b = room (outBuf r) - 4 * length ?ws"
    using out_words_content [OF assms(7), of ?ws] assms(8,9) l by auto
  have rep: "addReport now order r = Some (True, r\<lparr>outBuf := b\<rparr>)"
    using assms(1,2) b(1) by (simp add: addReport_def addRR_words [OF assms(1) order] n)
  let ?r = "r\<lparr>outBuf := b\<rparr>"
  have wf: "buff_wf (outBuf ?r)" and src: "rtcp_Source ?r = Some src" and cn: "CNAME ?r = newSDESItem 1 name"
    and rm: "265 \<le> room (outBuf ?r)"
    using b(2,4) assms(1,3,9) l by simp_all
  obtain b2 tl W where sd: "addSDES ?r = Some (?r\<lparr>outBuf := b2\<rparr>)" "buff_wf b2" "W \<le> 66"
    "content b2 = content b @ words_enc [0x81CA0000 OR word_of_nat W, ssrc src] @ tl" "length tl + 4 < 4 * W"
    using addSDES_content [OF wf src cn rm] by auto
  define rest where "rest = be32_enc (0x81CA0000 OR word_of_nat W) @ be32_enc (ssrc src) @ tl"
  have d: "d = words_enc (report_header (word_of_nat (length ?bs)) RTCP_PT_RR 0 # ssrc src # concat ?bs) @ rest"
    using sendBuiltPacket_content [of "?r\<lparr>outBuf := b2\<rparr>"] sent sd b(3)
    by (auto simp: sendReport_def rep rest_def rr_words_def)
  have "list_all (\<lambda>W. unat (4 * ((0x81CA0000 OR word_of_nat W :: u32) AND 0xFFFF)) = 4 * W \<and>
      (0x81CA0000 OR word_of_nat W :: u32) AND 0xC0000000 = 0x80000000) [0..<67]" by code_simp
  then have W: "unat (4 * ((0x81CA0000 OR word_of_nat W :: u32) AND 0xFFFF)) = 4 * W"
    "(0x81CA0000 OR word_of_nat W :: u32) AND 0xC0000000 = 0x80000000"
    using sd(3) by (auto simp only: list_all_iff set_upt atLeastLessThan_iff) simp_all
  have hd: "fst (Ntohl rest) = 0x81CA0000 OR word_of_nat W" by (simp add: rest_def codec)
  have lr: "\<not> length rest = 0" "\<not> length rest < 4" by (simp_all add: rest_def c32.enc_length)
  have long: "reportLoop now' (0x81CA0000 OR word_of_nat W) (rest, length rest) s = Some (False, s)" for s
  proof -
    have r: "rest = be32_enc (0x81CA0000 OR word_of_nat W) @ (be32_enc (ssrc src) @ tl)" by (simp add: rest_def)
    have "length rest = 4 + length (be32_enc (ssrc src) @ tl)" by (simp add: r c32.enc_length)
    then show ?thesis using reportLoop_long [of "be32_enc (ssrc src) @ tl" "0x81CA0000 OR word_of_nat W" now' s] W(1) sd(5)
      unfolding r [symmetric] by (simp add: c32.enc_length)
  qed
  have c: "length ?bs < 32" using count(1) by simp
  show ?thesis
    unfolding process_rr [OF rcvd d c blocks_six] Let_def hd if_not_P [OF lr(1)] if_not_P [OF lr(2)] W(2)
    by (simp add: long)
qed


section \<open>Sender reports\<close>

definition sr_header :: u32 where "sr_header = 0x80C80006"

definition sr_noted :: "timeval \<Rightarrow> u32 \<Rightarrow> u32 \<Rightarrow> u32 \<Rightarrow> u32 \<Rightarrow> RTCPInstance \<Rightarrow> RTCPInstance" where
  "sr_noted now own msw lsw ts p =
     p\<lparr>rtcp_Source := map_option (\<lambda>src. src\<lparr>receptionStatsDB :=
         rdb_noteIncomingSR own msw lsw ts now (receptionStatsDB src)\<rparr>) (rtcp_Source p)\<rparr>"

lemma instance_same [simp]:
  "rtcp_Source r = None \<Longrightarrow> r\<lparr>rtcp_Source := None\<rparr> = r"
  "rtcp_Sink r = Some s \<Longrightarrow> r\<lparr>rtcp_Sink := Some s\<rparr> = r"
  by (cases r, simp)+

lemma sr_header_fields:
  "drop_bit 24 sr_header AND 0x1F = 0" "drop_bit 16 sr_header AND 0xFF = RTCP_PT_SR"
  "unat (4 * (sr_header AND 0xFFFF)) = 24"
  "sr_header AND 0xE0FE0000 = 0x80000000 OR push_bit 16 RTCP_PT_SR"
  by (simp_all add: sr_header_def rtcp_consts)

lemma reportLoop_sr:
  assumes "n = 28 + length rest"
  shows "reportLoop now sr_header (words_enc [sr_header, own, msw, lsw, ts, pc, oc] @ rest, n) s =
    (let s1 = s\<lparr>rs_sender := own, rs_inst := sr_noted now own msw lsw ts (rs_inst s),
                rs_events := rs_events s @ (if SRHandlerTask (rs_inst s) then [CallSRHandler] else []),
                rs_type := PACKET_RTCP_REPORT\<rparr>
     in if length rest = 0 then Some (True, s1)
        else if length rest < 4 then Some (False, s1)
        else if fst (Ntohl rest) AND 0xC0000000 \<noteq> 0x80000000 then Some (False, s1)
        else reportLoop now (fst (Ntohl rest)) (rest, length rest) s1)"
proof -
  let ?tail = "be32_enc pc @ be32_enc oc @ rest"
  let ?p = "be32_enc msw @ be32_enc lsw @ be32_enc ts @ ?tail"
  have a4: "ADVANCE (be32_enc sr_header @ be32_enc own @ ?p) (28 + length rest) 4 = Some (be32_enc own @ ?p, 24 + length rest)"
    by (simp add: ADVANCE_def usub_def c32.enc_length)
  have rd: "readWord (be32_enc own @ ?p, 24 + length rest) = Some (own, ?p, 20 + length rest)"
    using readWord_enc [of "24 + length rest" ?p own] by (simp add: c32.enc_length)
  have a8: "ADVANCE ?tail (8 + length rest) 8 = Some (rest, length rest)"
    by (simp add: ADVANCE_def usub_def c32.enc_length)
  have z: "ADVANCE rest (length rest) 0 = Some (rest, length rest)" by (simp add: ADVANCE_def usub_def)
  have src: "(case rtcp_Source r of None \<Rightarrow> r
      | Some src \<Rightarrow> r\<lparr>rtcp_Source := Some (src\<lparr>receptionStatsDB := rdb_noteIncomingSR own msw lsw ts now (receptionStatsDB src)\<rparr>)\<rparr>) =
      sr_noted now own msw lsw ts r" for r
    by (cases "rtcp_Source r") (simp_all add: sr_noted_def)
  have info: "senderInfo now own 20 (?p, 20 + length rest) (rs_inst s) =
      Some (0, (rest, length rest), sr_noted now own msw lsw ts (rs_inst s), if SRHandlerTask (rs_inst s) then [CallSRHandler] else [])"
    by (simp add: senderInfo_def readWord_enc c32.enc_length a8 src)
  have part: "reportPart now own RTCP_PT_SR 0 0 (rest, length rest) r = Some (True, 0, (rest, length rest), r, [])" for r
    by (cases "rtcp_Sink r") (simp_all add: reportPart_def rtcp_consts z)
  have sub: "subPacket now own RTCP_PT_SR 0 20 (?p, 20 + length rest) (rs_inst s) =
      Some (True, Some PACKET_RTCP_REPORT, False, 0, (rest, length rest), sr_noted now own msw lsw ts (rs_inst s),
        if SRHandlerTask (rs_inst s) then [CallSRHandler] else [])"
    by (simp add: subPacket_def info part)
  have bye: "s\<lparr>rs_sender := own, rs_inst := sr_noted now own msw lsw ts (rs_inst s),
                rs_events := rs_events s @ ev, rs_type := PACKET_RTCP_REPORT, rs_bye := rs_bye s\<rparr> =
      s\<lparr>rs_sender := own, rs_inst := sr_noted now own msw lsw ts (rs_inst s),
                rs_events := rs_events s @ ev, rs_type := PACKET_RTCP_REPORT\<rparr>" for ev
    by simp
  show ?thesis
    unfolding assms
    by (subst reportLoop.simps) (simp add: sr_header_fields a4 rd sub z Let_def)
qed

text \<open>The words of a sender report for a sink that has no source beside it.\<close>

lemma addSR_words:
  assumes "rtcp_Sink r = Some sink" and "rtcp_Source r = None"
  shows "addSR now order r =
    out_words (sr_header # sink_ssrc sink # fst (senderWords now sink)) (r\<lparr>rtcp_Sink := Some (snd (senderWords now sink))\<rparr>)"
proof -
  have h: "0x80000000 OR push_bit 24 0 OR push_bit 16 RTCP_PT_SR OR (1 + 5 + 6 * 0) = sr_header"
    by (simp add: rtcp_consts sr_header_def)
  obtain ws sink1 where sw: "senderWords now sink = (ws, sink1)" by (cases "senderWords now sink")
  have p: "enqueueCommonReportPrefix RTCP_PT_SR (sink_ssrc sink) 5 r = out_words [sr_header, sink_ssrc sink] r"
    using h assms(2)
    by (cases "out_word sr_header r") (simp_all add: enqueueCommonReportPrefix_def numReportingSources_def Let_def
        split: Option.bind_splits)
  have sfx: "enqueueCommonReportSuffix now order r' = Some r'" if "rtcp_Source r' = None" for r'
    using that by (simp add: enqueueCommonReportSuffix_def)
  have app: "putWords enqueueWord (sr_header # sink_ssrc sink # ws) (outBuf r) =
      Option.bind (putWords enqueueWord [sr_header, sink_ssrc sink] (outBuf r)) (putWords enqueueWord ws)"
    using putWords_append [of enqueueWord "[sr_header, sink_ssrc sink]" ws "outBuf r"] by (simp only: append_Cons append_Nil)
  show ?thesis
  proof (cases "putWords enqueueWord [sr_header, sink_ssrc sink] (outBuf r)")
    case None
    then show ?thesis using assms(1)
      by (simp add: addSR_def p sw out_words_putWords app del: putWords.simps out_words.simps)
  next
    case (Some b)
    then show ?thesis using assms
      by (cases "putWords enqueueWord ws b")
        (simp_all add: addSR_def p sw out_words_putWords app sfx del: putWords.simps out_words.simps)
  qed
qed

lemma sender_bye_content:
  assumes "rtcp_Sink r = Some sink" and "rtcp_Source r = None"
    and "enableRTCPReports sink" and "\<not> nextTimestampHasBeenPreset sink"
    and "buff_wf (outBuf r)" and "content (outBuf r) = []" and "36 \<le> room (outBuf r)"
    and words: "fst (senderWords now sink) = [msw, lsw, ts, pc, oc]"
  shows "\<exists>r1. sendBye now order r =
    Some (words_enc [sr_header, sink_ssrc sink, msw, lsw, ts, pc, oc] @ words_enc [0x81CB0001, sink_ssrc sink], r1)"
proof -
  let ?sink = "snd (senderWords now sink)"
  let ?ws = "sr_header # sink_ssrc sink # [msw, lsw, ts, pc, oc]"
  let ?r = "r\<lparr>rtcp_Sink := Some ?sink\<rparr>"
  have ssrc: "sink_ssrc ?sink = sink_ssrc sink"
    by (simp add: senderWords_def convertToRTPTimestamp_def Let_def split_def)
  obtain b where b: "out_words ?ws ?r = Some (?r\<lparr>outBuf := b\<rparr>)" "buff_wf b" "content b = words_enc ?ws"
    "room b = room (outBuf r) - 28"
    using out_words_content [of ?r ?ws] assms(5,6,7) by auto
  have rep: "addReport now order r = Some (True, ?r\<lparr>outBuf := b\<rparr>)"
    using assms(1-4) b(1) by (simp add: addReport_def addSR_words [OF assms(1,2)] words del: out_words.simps)
  have "4 * length [0x81CB0001, sink_ssrc sink] \<le> room (outBuf (?r\<lparr>outBuf := b\<rparr>))" using b(4) assms(7) by simp
  from out_words_content [OF _ this] b(2)
  obtain b2 where b2: "out_words [0x81CB0001, sink_ssrc sink] (?r\<lparr>outBuf := b\<rparr>) = Some (?r\<lparr>outBuf := b2\<rparr>)" "buff_wf b2"
    "content b2 = words_enc ?ws @ words_enc [0x81CB0001, sink_ssrc sink]"
    using b(3) by auto
  have hdr: "0x81000000 OR push_bit 16 RTCP_PT_BYE OR 1 = (0x81CB0001 :: u32)" by (simp add: rtcp_consts)
  have bye1: "addBYE (?r\<lparr>outBuf := b\<rparr>) = Some (?r\<lparr>outBuf := b2\<rparr>)"
    using b2(1) assms(2) ssrc unfolding addBYE_def hdr
    by (auto simp: out_own_ssrc_def out_word_def split: Option.bind_splits)
  show ?thesis
    using sendBuiltPacket_content [of "?r\<lparr>outBuf := b2\<rparr>"] b2(2,3) by (auto simp: sendBye_def rep bye1)
qed

lemma sender_bye_read:
  assumes "rtcp_Sink r = Some sink" and "rtcp_Source r = None"
    and "enableRTCPReports sink" and "\<not> nextTimestampHasBeenPreset sink"
    and "buff_wf (outBuf r)" and "content (outBuf r) = []" and "36 \<le> room (outBuf r)"
    and sent: "sendBye now order r = Some (d, r1)" and rcvd: "take (length d) (inBuf p) = d"
    and bye: "byeHandlerTask p \<longrightarrow> byeHandlerClientData p"
    and words: "fst (senderWords now sink) = [msw, lsw, ts, pc, oc]"
  shows "processIncomingReport now' (length d) p =
    Some (True, sr_noted now' (sink_ssrc sink) msw lsw ts p,
      (if SRHandlerTask p then [CallSRHandler] else []) @ (if byeHandlerTask p then [CallByeHandler] else []))"
proof -
  let ?ws = "sr_header # sink_ssrc sink # [msw, lsw, ts, pc, oc]"
  let ?bye = "words_enc [0x81CB0001, sink_ssrc sink]"
  have d: "d = words_enc ?ws @ ?bye"
    using sender_bye_content [OF assms(1-7) words, of order] sent by auto
  have ld: "length d = 36" by (simp add: d c32.enc_length)
  have sl: "slice (inBuf p) 0 36 = Some d"
    using rcvd ld by (metis slice_Some drop0 diff_zero le0 length_take min.cobounded1)
  have hd: "fst (Ntohl d) = sr_header" "fst (Ntohl ?bye) = 0x81CB0001" by (simp_all add: d codec)
  have l8: "length ?bye = 8" by (simp add: c32.enc_length)
  have bye2: "reportLoop now' 0x81CB0001 (?bye, 8) s =
      Some (True, s\<lparr>rs_sender := sink_ssrc sink, rs_type := PACKET_BYE, rs_bye := True\<rparr>)" for s
    using reportLoop_bye [of now' "sink_ssrc sink" s] by simp
  let ?s0 = "\<lparr>rs_type = PACKET_UNKNOWN_TYPE, rs_sender = 0, rs_bye = False, rs_inst = p, rs_events = []\<rparr>"
  have n: "36 = 28 + length ?bye" unfolding l8 by simp
  have loop: "reportLoop now' sr_header (d, 36) ?s0 = Some (True,
      \<lparr>rs_type = PACKET_BYE, rs_sender = sink_ssrc sink, rs_bye = True, rs_inst = sr_noted now' (sink_ssrc sink) msw lsw ts p,
       rs_events = (if SRHandlerTask p then [CallSRHandler] else [])\<rparr>)"
    unfolding d reportLoop_sr [OF n, of now' "sink_ssrc sink" msw lsw ts pc oc ?s0] Let_def l8 hd(2) bye2 by simp
  show ?thesis
    using bye by (simp add: processIncomingReport_def ld sl hd(1) Let_def loop sr_header_fields(4) sr_noted_def)
qed

section \<open>The loss field\<close>

lemma in_order_step:
  assumes "haveSeenInitialSequenceNumber s" and h: "uint (highestExtSeqNumReceived s) = e" and "0 \<le> e" "e + 1 < 2 ^ 32"
  shows "baseExtSeqNumReceived (note_event freq (e + 1, ts, sz, jit, now) s) = baseExtSeqNumReceived s"
proof -
  have lt: "seqNumLT (e mod 65536) ((e + 1) mod 65536)"
    by (subst seqNumLT_circle) (simp_all add: mod_diff_eq)
  have "baseExtSeqNumReceived (noteSeqNum (seq_of (e + 1)) s') = baseExtSeqNumReceived s'"
    if "uint (highestExtSeqNumReceived s') = e" for s'
    using lt that by (simp add: noteSeqNum_def Let_def uint_low16)
  then show ?thesis
    unfolding note_event_fields(2) [OF assms(1)] using h by (simp add: stats_fields)
qed

text \<open>Consecutive packets from \<open>e\<close> on.\<close>

definition in_order :: "int \<Rightarrow> (u32 \<times> u32 \<times> bool \<times> timeval) list \<Rightarrow> rtp_event list" where
  "in_order e ps = map (\<lambda>(i, p). (e + int i, p)) (enumerate 0 ps)"

lemma in_order_run:
  "haveSeenInitialSequenceNumber s \<Longrightarrow> uint (highestExtSeqNumReceived s) + 1 = e \<Longrightarrow> e + int (length ps) \<le> 2 ^ 32 \<Longrightarrow>
    (let s' = fold (note_event freq) (map (\<lambda>(i, p). (e + int i, p)) (enumerate 0 ps)) s
     in uint (highestExtSeqNumReceived s') = e + int (length ps) - 1 \<and> baseExtSeqNumReceived s' = baseExtSeqNumReceived s \<and>
        totNumPacketsReceived s' = totNumPacketsReceived s + of_nat (length ps))"
proof (induction ps arbitrary: s e)
  case (Cons p ps)
  obtain ts sz jit now where p: "p = (ts, sz, jit, now)" by (cases p) auto
  let ?s = "note_event freq (e, p) s"
  have e: "0 \<le> e - 1" "e - 1 + 1 < 2 ^ 32" "0 \<le> e" "e < 2 ^ 32" "\<bar>e - uint (highestExtSeqNumReceived s)\<bar> < 0x8000"
    using Cons.prems uint_bounded [of "highestExtSeqNumReceived s"] by auto
  have h: "uint (highestExtSeqNumReceived ?s) = e"
    unfolding p stream_step [OF Cons.prems(1) e(3-5)] using Cons.prems(2) by simp
  have b: "baseExtSeqNumReceived ?s = baseExtSeqNumReceived s"
    using in_order_step [OF Cons.prems(1) _ e(1,2), of freq ts sz jit now] Cons.prems(2) p by simp
  have f: "haveSeenInitialSequenceNumber ?s" "totNumPacketsReceived ?s = totNumPacketsReceived s + 1"
    unfolding p by (rule note_event_fields [OF Cons.prems(1)])+
  have sh: "map (\<lambda>(i, p). (e + int i, p)) (enumerate 0 (p # ps)) =
      (e, p) # map (\<lambda>(i, p). (e + 1 + int i, p)) (enumerate 0 ps)"
    by (simp add: enumerate_Suc_eq [of 0] split_def o_def)
  have "uint (highestExtSeqNumReceived ?s) + 1 = e + 1" "e + 1 + int (length ps) \<le> 2 ^ 32"
    using h Cons.prems(3) by simp_all
  note ih = Cons.IH [OF f(1) this]
  show ?case unfolding sh using ih b f(2) by (simp add: Let_def ac_simps)
qed simp

lemma in_order_lost:
  assumes "ps \<noteq> []" and "0 \<le> e0" "e0 < 65536" and "0x10000 + e0 + int (length ps) \<le> 2 ^ 32"
    and s: "s = fold (note_event freq) (in_order (0x10000 + e0) ps) (newRTPReceptionStats own (seq_of e0))"
  shows "uint (highestExtSeqNumReceived s) = 0x10000 + e0 + int (length ps) - 1" and
    "totNumPacketsReceived s = of_nat (length ps)" and "lostField s = 0x7FFFFF"
proof -
  obtain p ps' where ps: "ps = p # ps'" using assms(1) by (cases ps) auto
  obtain ts sz jit now where p: "p = (ts, sz, jit, now)" by (cases p) auto
  let ?e = "0x10000 + e0" and ?n = "newRTPReceptionStats own (seq_of e0)"
  let ?s = "note_event freq (?e, p) ?n"
  have hn: "uint (highestExtSeqNumReceived ?n) = ?e" using first_ext [of e0] assms(2,3) by simp
  have sq: "seq_of ?e = seq_of e0" by (simp add: seq_of_def)
  have e: "0 \<le> ?e" "?e < 2 ^ 32" "\<bar>?e - uint (highestExtSeqNumReceived ?n)\<bar> < 0x8000"
    using assms(2,3) hn by simp_all
  have seen: "haveSeenInitialSequenceNumber ?n" by simp
  have h: "uint (highestExtSeqNumReceived ?s) = ?e"
    unfolding p stream_step [OF seen e] using hn by simp
  have b: "baseExtSeqNumReceived ?s = 0x10000 OR seq_of e0"
  proof -
    have "baseExtSeqNumReceived (noteSeqNum (seq_of ?e) (noteCounts sz ?n)) = baseExtSeqNumReceived ?n"
      using hn assms(2,3) by (simp add: noteSeqNum_def Let_def stats_fields uint_low16)
    then show ?thesis unfolding p note_event_fields(2) [OF seen] by simp
  qed
  have f: "haveSeenInitialSequenceNumber ?s" "totNumPacketsReceived ?s = 1"
    unfolding p using note_event_fields [OF seen, of freq ?e ts sz jit now] by simp_all
  have sh: "in_order ?e ps = (?e, p) # map (\<lambda>(i, p). (?e + 1 + int i, p)) (enumerate 0 ps')"
    by (simp add: in_order_def ps enumerate_Suc_eq [of 0] split_def o_def)
  have "uint (highestExtSeqNumReceived ?s) + 1 = ?e + 1" "?e + 1 + int (length ps') \<le> 2 ^ 32"
    using h assms(4) by (simp_all add: ps)
  from in_order_run [OF f(1) this, of freq]
  have r: "uint (highestExtSeqNumReceived s) = ?e + 1 + int (length ps') - 1"
    "baseExtSeqNumReceived s = 0x10000 OR seq_of e0" "totNumPacketsReceived s = 1 + of_nat (length ps')"
    unfolding s sh b f(2) by (simp_all add: Let_def b f(2))
  show hi: "uint (highestExtSeqNumReceived s) = 0x10000 + e0 + int (length ps) - 1"
    and tot: "totNumPacketsReceived s = of_nat (length ps)" using r by (simp_all add: ps)
  have "highestExtSeqNumReceived s = word_of_int (?e + int (length ps'))"
    using r(1) by (metis add_diff_cancel_left' add.commute diff_add_eq word_of_int_uint)
  moreover have "(0x10000 OR seq_of e0 :: u32) = word_of_int ?e"
    using first_ext [of e0] assms(2,3) by (metis mod_pos_pos_trivial word_of_int_uint)
  ultimately have "highestExtSeqNumReceived s - baseExtSeqNumReceived s = of_nat (length ps')"
    unfolding r(2) by simp
  then have "highestExtSeqNumReceived s - baseExtSeqNumReceived s - totNumPacketsReceived s = - 1"
    unfolding r(3) by simp
  moreover have "uint (- 1 :: u32) = 4294967295" by code_simp
  ultimately show "lostField s = 0x7FFFFF" by (simp add: lostField_def Let_def)
qed


section \<open>Properties\<close>

text \<open>C10. Whatever bytes arrive as an RTCP packet, the parser ends without a panic, and nothing of the instance
  changes but the statistics of its source and its sink (when a BYE handler is set, with its client data).\<close>

theorem incoming_report_never_crashes:
  assumes "n \<le> length (inBuf r)" and "byeHandlerTask r \<longrightarrow> byeHandlerClientData r"
  shows "\<exists>ok r' ev. processIncomingReport now n r = Some (ok, r', ev) \<and> same_but_stats r r'"
  using assms by (rule processIncomingReport_total)

lemma rtcp_instance_new:
  "\<exists>r. makeRTCPInstance now bw name snk src = Some r \<and> buff_wf (outBuf r) \<and> content (outBuf r) = [] \<and>
     room (outBuf r) = 1450 \<and> length (inBuf r) = 1450 \<and> rtcp_Sink r = snk \<and> rtcp_Source r = src \<and>
     CNAME r = newSDESItem 1 name \<and> \<not> byeHandlerTask r \<and> \<not> RRHandlerTask r \<and> \<not> SRHandlerTask r"
proof -
  obtain b where b: "newOutPacketBuffer maxRTCPPacketSize preferredPacketSize maxRTCPPacketSize = Some b"
    by (auto simp: newOutPacketBuffer_def maxRTCPPacketSize_def Let_def)
  have "limit b = 1450" using b
    by (auto simp: newOutPacketBuffer_def maxRTCPPacketSize_def Let_def resetOverflowData_def resetPacketStart_def
        resetOffset_def)
  moreover have "maxRTCPPacketSize + maxRTCPPacketSize < 2 ^ 63" by (simp add: maxRTCPPacketSize_def)
  ultimately show ?thesis using newOutPacketBuffer_wf [OF b]
    by (simp add: makeRTCPInstance_def b) (simp add: maxRTCPPacketSize_def)
qed

lemma incoming_report_never_crashes_witness:
  "\<exists>r ok r' ev. makeRTCPInstance tv_zero 500 ''a'' None None = Some r \<and>
     processIncomingReport tv_zero 6 (r\<lparr>inBuf := copy_at (inBuf r) 0 [0x80, 0xC9, 0, 1, 7, 7]\<rparr>) = Some (ok, r', ev)"
proof -
  obtain r where r: "makeRTCPInstance tv_zero 500 ''a'' None None = Some r" "length (inBuf r) = 1450" "\<not> byeHandlerTask r"
    using rtcp_instance_new [of tv_zero 500 "''a''" None None] by auto
  then show ?thesis
    using incoming_report_never_crashes [of 6 "r\<lparr>inBuf := copy_at (inBuf r) 0 [0x80, 0xC9, 0, 1, 7, 7]\<rparr>" tv_zero] by auto
qed

text \<open>C7. A receiver's goodbye, a receiver report with a block per source and a BYE, is read by its peer as it was
  written: each block about the peer's own stream is noted in the statistics of its sink with the six values of
  the block, the others are skipped, and the BYE handler is called.\<close>

theorem receiver_goodbye_is_read:
  assumes "rtcp_Source r = Some src" and "rtcp_Sink r = None"
    and "\<forall>k \<in> set order. rdb_lookup (receptionStatsDB src) k \<noteq> None"
    and "length order < 32" "numActiveSourcesSinceLastReset (receptionStatsDB src) = word_of_nat (length order)"
    and "buff_wf (outBuf r)" and "content (outBuf r) = []" and "16 + 24 * length order \<le> room (outBuf r)"
    and "sendBye now order r = Some (d, r1)" and "take (length d) (inBuf p) = d"
    and "byeHandlerTask p \<longrightarrow> byeHandlerClientData p"
  shows "processIncomingReport now' (length d) p =
    Some (True, noted now' (ssrc src) (map (reportBlock now) (stats_of (receptionStatsDB src) order)) p,
          rr_events p @ (if byeHandlerTask p then [CallByeHandler] else []))"
  using assms by (rule bye_report_read)

text \<open>A receiver that has had one packet from source 5.\<close>

definition one_source :: RTPSource where
  "one_source = RTPSource.truncate ((newH264VideoRTPSource 7 96 90000)\<lparr>receptionStatsDB :=
     snd (snd (rdb_noteIncomingPacket 5 100 3000 90000 1000 True \<lparr>tv_sec = 10, tv_usec = 0\<rparr> newRTPReceptionStatsDB))\<rparr>)"

lemma one_source_facts:
  "ssrc one_source = 7" "numActiveSourcesSinceLastReset (receptionStatsDB one_source) = 1"
  "rdb_lookup (receptionStatsDB one_source) 5 \<noteq> None"
  by (simp_all add: one_source_def RTPSource.truncate_def newH264VideoRTPSource_def initMultiFramedRTPSource_def
      initRTPSource_def source_reset_def rdb_noteIncomingPacket_def rdb_lookup_def rdb_add_def
      newRTPReceptionStatsDB_def Let_def split_def)

lemma receiver_goodbye_is_read_witness:
  "\<exists>r p d r1. makeRTCPInstance tv_zero 500 ''a'' None (Some one_source) = Some r \<and>
     sendBye tv_zero [5] r = Some (d, r1) \<and> length d = 40 \<and>
     makeRTCPInstance tv_zero 500 ''b'' (Some (InitRTPSink 1 5 3 96 90000 ''H264'')) None = Some p \<and>
     processIncomingReport tv_zero 40 (p\<lparr>inBuf := copy_at (inBuf p) 0 d\<rparr>) =
       Some (True, noted tv_zero 7 (map (reportBlock tv_zero) (stats_of (receptionStatsDB one_source) [5]))
         (p\<lparr>inBuf := copy_at (inBuf p) 0 d\<rparr>), [])"
proof -
  obtain r where r: "makeRTCPInstance tv_zero 500 ''a'' None (Some one_source) = Some r" "buff_wf (outBuf r)"
    "content (outBuf r) = []" "room (outBuf r) = 1450" "rtcp_Source r = Some one_source" "rtcp_Sink r = None"
    using rtcp_instance_new [of tv_zero 500 "''a''" None "Some one_source"] by auto
  let ?snk = "Some (InitRTPSink 1 5 3 96 90000 ''H264'')"
  obtain p where p: "makeRTCPInstance tv_zero 500 ''b'' ?snk None = Some p" "length (inBuf p) = 1450"
    "\<not> byeHandlerTask p" "\<not> RRHandlerTask p"
    using rtcp_instance_new [of tv_zero 500 "''b''" ?snk None] by auto
  have ks: "\<forall>k \<in> set [5]. rdb_lookup (receptionStatsDB one_source) k \<noteq> None" using one_source_facts(3) by simp
  have n: "length [5 :: u32] < 32" "numActiveSourcesSinceLastReset (receptionStatsDB one_source) = word_of_nat (length [5 :: u32])"
    using one_source_facts(2) by simp_all
  have rm: "16 + 24 * length [5 :: u32] \<le> room (outBuf r)" using r(4) by simp
  obtain d r1 where d: "sendBye tv_zero [5] r = Some (d, r1)" "length d = 40"
    using sendBye_content [OF r(5,6) ks r(2,3) rm, of tv_zero] by (auto simp: rr_words_def c32.enc_length)
  let ?p = "p\<lparr>inBuf := copy_at (inBuf p) 0 d\<rparr>"
  have rc: "take (length d) (inBuf ?p) = d" using d(2) p(2) take_copy_at_0 [of d "inBuf p"] by simp
  have "byeHandlerTask ?p \<longrightarrow> byeHandlerClientData ?p" using p(3) by simp
  from receiver_goodbye_is_read [OF r(5,6) ks n r(2,3) rm d(1) rc this, of tv_zero]
  show ?thesis using r(1) d p one_source_facts(1) by (intro exI conjI) (auto simp: rr_events_def)
qed


text \<open>C37. A regular report, a receiver report and the SDES chunk with the name, is noted block by block by the peer, and
  then always rejected as a bad packet: the SDES header announces the padded chunk, the code appends neither the
  END item nor the padding, so the announced length is larger than what is left of the packet (a defect).\<close>

theorem receiver_report_is_noted_and_rejected:
  assumes "rtcp_Source r = Some src" and "rtcp_Sink r = None" and "CNAME r = newSDESItem 1 name"
    and "\<forall>k \<in> set order. rdb_lookup (receptionStatsDB src) k \<noteq> None"
    and "length order < 32" "numActiveSourcesSinceLastReset (receptionStatsDB src) = word_of_nat (length order)"
    and "buff_wf (outBuf r)" and "content (outBuf r) = []" and "273 + 24 * length order \<le> room (outBuf r)"
    and "sendReport now order r = Some (d, r1)" and "take (length d) (inBuf p) = d"
  shows "processIncomingReport now' (length d) p =
    Some (False, noted now' (ssrc src) (map (reportBlock now) (stats_of (receptionStatsDB src) order)) p, rr_events p)"
  using assms by (rule report_read)

lemma sendReport_some:
  assumes "rtcp_Source r = Some src" and "rtcp_Sink r = None" and "CNAME r = newSDESItem 1 name"
    and "\<forall>k \<in> set order. rdb_lookup (receptionStatsDB src) k \<noteq> None"
    and "buff_wf (outBuf r)" and "273 + 24 * length order \<le> room (outBuf r)"
  shows "\<exists>d r1. sendReport now order r = Some (d, r1) \<and> length d \<le> curOffset (outBuf r) + 281 + 24 * length order"
proof -
  let ?ws = "rr_words now src (numReportingSources r) order"
  have l: "length ?ws = 2 + 6 * length order" by (simp add: rr_words_def)
  obtain b where b: "out_words ?ws r = Some (r\<lparr>outBuf := b\<rparr>)" "buff_wf b" "content b = content (outBuf r) @ words_enc ?ws"
    "room b = room (outBuf r) - 4 * length ?ws"
    using out_words_content [OF assms(5), of ?ws] assms(6) l by auto
  have rep: "addReport now order r = Some (True, r\<lparr>outBuf := b\<rparr>)"
    using assms(1,2) b(1) by (simp add: addReport_def addRR_words [OF assms(1,4)])
  let ?r = "r\<lparr>outBuf := b\<rparr>"
  have wf: "buff_wf (outBuf ?r)" and src: "rtcp_Source ?r = Some src" and cn: "CNAME ?r = newSDESItem 1 name"
    and rm: "265 \<le> room (outBuf ?r)"
    using b(2,4) assms(1,3,6) l by simp_all
  obtain b2 tl W where sd: "addSDES (r\<lparr>outBuf := b\<rparr>) = Some (r\<lparr>outBuf := b2\<rparr>)" "buff_wf b2" "W \<le> 66"
    "content b2 = content b @ words_enc [0x81CA0000 OR word_of_nat W, ssrc src] @ tl" "length tl + 4 < 4 * W"
    using addSDES_content [OF wf src cn rm] by auto
  show ?thesis
    using sendBuiltPacket_content [of "r\<lparr>outBuf := b2\<rparr>"] sd b(3) l length_content [OF assms(5)]
    by (auto simp: sendReport_def rep c32.enc_length)
qed

text \<open>Two instances of the library, a receiver and a sender, and a datagram from one in the buffer of the other.\<close>

lemma rtcp_pair:
  obtains r p where "makeRTCPInstance tv_zero 500 ''a'' None (Some one_source) = Some r" "buff_wf (outBuf r)"
    "content (outBuf r) = []" "room (outBuf r) = 1450" "rtcp_Source r = Some one_source" "rtcp_Sink r = None"
    "CNAME r = newSDESItem 1 ''a''" "curOffset (outBuf r) = 0"
    "makeRTCPInstance tv_zero 500 ''b'' (Some (InitRTPSink 1 5 3 96 90000 ''H264'')) None = Some p"
    "length (inBuf p) = 1450" "\<not> byeHandlerTask p" "\<not> RRHandlerTask p"
proof -
  let ?snk = "Some (InitRTPSink 1 5 3 96 90000 ''H264'')"
  obtain r where r: "makeRTCPInstance tv_zero 500 ''a'' None (Some one_source) = Some r" "buff_wf (outBuf r)"
    "content (outBuf r) = []" "room (outBuf r) = 1450" "rtcp_Source r = Some one_source" "rtcp_Sink r = None"
    "CNAME r = newSDESItem 1 ''a''"
    using rtcp_instance_new [of tv_zero 500 "''a''" None "Some one_source"] by auto
  have "curOffset (outBuf r) = 0" using length_content [OF r(2)] r(3) by simp
  moreover obtain p where "makeRTCPInstance tv_zero 500 ''b'' ?snk None = Some p" "length (inBuf p) = 1450"
    "\<not> byeHandlerTask p" "\<not> RRHandlerTask p"
    using rtcp_instance_new [of tv_zero 500 "''b''" ?snk None] by auto
  ultimately show ?thesis using r that by blast
qed

lemma receiver_report_is_noted_and_rejected_witness:
  "\<exists>r p d r1 p' ev. makeRTCPInstance tv_zero 500 ''a'' None (Some one_source) = Some r \<and>
     sendReport tv_zero [5] r = Some (d, r1) \<and>
     makeRTCPInstance tv_zero 500 ''b'' (Some (InitRTPSink 1 5 3 96 90000 ''H264'')) None = Some p \<and>
     processIncomingReport tv_zero (length d) (p\<lparr>inBuf := copy_at (inBuf p) 0 d\<rparr>) = Some (False, p', ev)"
proof -
  obtain r p where r: "makeRTCPInstance tv_zero 500 ''a'' None (Some one_source) = Some r" "buff_wf (outBuf r)"
    "content (outBuf r) = []" "room (outBuf r) = 1450" "rtcp_Source r = Some one_source" "rtcp_Sink r = None"
    "CNAME r = newSDESItem 1 ''a''" "curOffset (outBuf r) = 0"
    and p: "makeRTCPInstance tv_zero 500 ''b'' (Some (InitRTPSink 1 5 3 96 90000 ''H264'')) None = Some p"
    "length (inBuf p) = 1450" by (rule rtcp_pair)
  have ks: "\<forall>k \<in> set [5]. rdb_lookup (receptionStatsDB one_source) k \<noteq> None" using one_source_facts(3) by simp
  have n: "length [5 :: u32] < 32" "numActiveSourcesSinceLastReset (receptionStatsDB one_source) = word_of_nat (length [5 :: u32])"
    using one_source_facts(2) by simp_all
  have rm: "273 + 24 * length [5 :: u32] \<le> room (outBuf r)" using r(4) by simp
  obtain d r1 where d: "sendReport tv_zero [5] r = Some (d, r1)" "length d \<le> 1450"
    using sendReport_some [OF r(5,6,7) ks r(2) rm, of tv_zero] r(8) by auto
  have "take (length d) (inBuf (p\<lparr>inBuf := copy_at (inBuf p) 0 d\<rparr>)) = d"
    using d(2) p(2) take_copy_at_0 [of d "inBuf p"] by simp
  from receiver_report_is_noted_and_rejected [OF r(5,6,7) ks n r(2,3) rm d(1) this, of tv_zero]
  show ?thesis using r(1) d(1) p(1) by blast
qed

text \<open>C13. A sender's goodbye, a sender report and a BYE, is read by its peer as it was written: the reception
  statistics of the sender note its NTP and RTP timestamps, and the handlers are called.\<close>

theorem sender_goodbye_is_read:
  assumes "rtcp_Sink r = Some sink" and "rtcp_Source r = None"
    and "enableRTCPReports sink" and "\<not> nextTimestampHasBeenPreset sink"
    and "buff_wf (outBuf r)" and "content (outBuf r) = []" and "36 \<le> room (outBuf r)"
    and "sendBye now order r = Some (d, r1)" and "take (length d) (inBuf p) = d"
    and "byeHandlerTask p \<longrightarrow> byeHandlerClientData p"
    and "fst (senderWords now sink) = [msw, lsw, ts, pc, oc]"
  shows "processIncomingReport now' (length d) p =
    Some (True, sr_noted now' (sink_ssrc sink) msw lsw ts p,
      (if SRHandlerTask p then [CallSRHandler] else []) @ (if byeHandlerTask p then [CallByeHandler] else []))"
  using assms by (rule sender_bye_read)


lemma sender_goodbye_is_read_witness:
  "let sink = InitRTPSink 1 5 3 96 90000 ''H264''; now = \<lparr>tv_sec = 1000, tv_usec = 0\<rparr>
   in \<exists>r p d r1 p' ev. makeRTCPInstance now 500 ''b'' (Some sink) None = Some r \<and> sendBye now [] r = Some (d, r1) \<and>
     makeRTCPInstance now 500 ''a'' None (Some one_source) = Some p \<and>
     processIncomingReport now (length d) (p\<lparr>inBuf := copy_at (inBuf p) 0 d\<rparr>) = Some (True, p', ev)"
proof -
  let ?sink = "InitRTPSink 1 5 3 96 90000 ''H264''" and ?now = "\<lparr>tv_sec = 1000, tv_usec = 0\<rparr>"
  obtain r where r: "makeRTCPInstance ?now 500 ''b'' (Some ?sink) None = Some r" "rtcp_Sink r = Some ?sink" "rtcp_Source r = None"
    "buff_wf (outBuf r)" "content (outBuf r) = []" "room (outBuf r) = 1450"
    using rtcp_instance_new [of ?now 500 "''b''" "Some ?sink" None] by auto
  obtain p where p: "makeRTCPInstance ?now 500 ''a'' None (Some one_source) = Some p" "length (inBuf p) = 1450" "\<not> byeHandlerTask p"
    using rtcp_instance_new [of ?now 500 "''a''" None "Some one_source"] by auto
  have en: "enableRTCPReports ?sink" "\<not> nextTimestampHasBeenPreset ?sink" by (simp_all add: InitRTPSink_def)
  have rm: "36 \<le> room (outBuf r)" using r(6) by simp
  obtain msw lsw ts pc oc where w: "fst (senderWords ?now ?sink) = [msw, lsw, ts, pc, oc]"
    by (simp add: senderWords_def Let_def split_def)
  obtain d r1 where d: "sendBye ?now [] r = Some (d, r1)" "length d = 36"
    using sender_bye_content [OF r(2,3) en r(4,5) rm w, of "[]"] by (auto simp: c32.enc_length)
  let ?p = "p\<lparr>inBuf := copy_at (inBuf p) 0 d\<rparr>"
  have "take (length d) (inBuf ?p) = d" "byeHandlerTask ?p \<longrightarrow> byeHandlerClientData ?p"
    using d(2) p(2,3) take_copy_at_0 [of d "inBuf p"] by simp_all
  from sender_goodbye_is_read [OF r(2,3) en r(4,5) rm d(1) this w, of ?now]
  show ?thesis using r(1) d(1) p(1) by (auto simp: Let_def)
qed

text \<open>A source known from its sender report alone makes the receiver's report malformed: the header counts the
  sources that sent packets (none), the report carries a block for every source in the table, so the peer
  takes the block for the next subpacket and rejects the packet, BYE included (a defect).\<close>

theorem sr_only_source_breaks_report:
  assumes "rtcp_Source r = Some src" and "rtcp_Sink r = None"
    and db: "receptionStatsDB src = rdb_noteIncomingSR k msw lsw ts t newRTPReceptionStatsDB"
    and "buff_wf (outBuf r)" and "content (outBuf r) = []" and "40 \<le> room (outBuf r)"
    and "sendBye now [k] r = Some (d, r1)" and "take (length d) (inBuf p) = d"
    and "k AND 0xC0000000 \<noteq> 0x80000000"
  shows "processIncomingReport now' (length d) p = Some (False, noted now' (ssrc src) [] p, rr_events p)"
proof -
  have ks: "\<forall>q \<in> set [k]. rdb_lookup (receptionStatsDB src) q \<noteq> None"
    by (simp add: db rdb_noteIncomingSR_def rdb_lookup_def rdb_add_def Let_def)
  have n: "numReportingSources r = 0"
    using assms(1) by (simp add: numReportingSources_def db rdb_noteIncomingSR_def rdb_add_def newRTPReceptionStatsDB_def Let_def)
  obtain st where st: "stats_of (receptionStatsDB src) [k] = [st]" "rs_ssrc st = k"
    by (simp add: db stats_of_def rdb_noteIncomingSR_def rdb_lookup_def rdb_add_def newRTPReceptionStatsDB_def
        stats_noteIncomingSR_def Let_def)
  have "16 + 24 * length [k] \<le> room (outBuf r)" using assms(6) by simp
  note sent = sendBye_content [OF assms(1,2) ks assms(4,5) this, of now]
  define rest where "rest = words_enc (reportBlock now st @ [0x81CB0001, ssrc src])"
  have d: "d = words_enc (report_header (word_of_nat (length ([] :: u32 list list))) RTCP_PT_RR 0 # ssrc src # concat []) @ rest"
    using sent assms(7) n st(1) by (simp add: rr_words_def rest_def)
  obtain a b c e f where blk: "reportBlock now st = [k, a, b, c, e, f]" using st(2) by (simp add: reportBlock_def)
  have h: "fst (Ntohl rest) = k" by (simp add: rest_def blk codec)
  have l: "length rest = 32" by (simp add: rest_def blk c32.enc_length)
  have e: "length ([] :: u32 list list) < 32" "\<forall>b \<in> set ([] :: u32 list list). length b = 6" by simp_all
  show ?thesis
    unfolding process_rr [OF assms(8) d e] h l using assms(9) by (simp add: Let_def)
qed

lemma sr_only_source_breaks_report_witness:
  "let src = one_source\<lparr>receptionStatsDB := rdb_noteIncomingSR 5 1 2 3 tv_zero newRTPReceptionStatsDB\<rparr>
   in \<exists>r d r1 p p' ev. makeRTCPInstance tv_zero 500 ''a'' None (Some src) = Some r \<and> sendBye tv_zero [5] r = Some (d, r1) \<and>
     makeRTCPInstance tv_zero 500 ''b'' None None = Some p \<and>
     processIncomingReport tv_zero (length d) (p\<lparr>inBuf := copy_at (inBuf p) 0 d\<rparr>) = Some (False, p', ev)"
proof -
  let ?src = "one_source\<lparr>receptionStatsDB := rdb_noteIncomingSR 5 1 2 3 tv_zero newRTPReceptionStatsDB\<rparr>"
  have db: "receptionStatsDB ?src = rdb_noteIncomingSR 5 1 2 3 tv_zero newRTPReceptionStatsDB" by simp
  obtain r where r: "makeRTCPInstance tv_zero 500 ''a'' None (Some ?src) = Some r" "rtcp_Sink r = None" "rtcp_Source r = Some ?src"
    "buff_wf (outBuf r)" "content (outBuf r) = []" "room (outBuf r) = 1450"
    using rtcp_instance_new [of tv_zero 500 "''a''" None "Some ?src"] by auto
  obtain p where p: "makeRTCPInstance tv_zero 500 ''b'' None None = Some p" "length (inBuf p) = 1450"
    using rtcp_instance_new [of tv_zero 500 "''b''" None None] by auto
  have ks: "\<forall>q \<in> set [5]. rdb_lookup (receptionStatsDB ?src) q \<noteq> None"
    by (simp add: rdb_noteIncomingSR_def rdb_lookup_def rdb_add_def Let_def)
  have rm: "16 + 24 * length [5 :: u32] \<le> room (outBuf r)" "40 \<le> room (outBuf r)" using r(6) by simp_all
  obtain d r1 where d: "sendBye tv_zero [5] r = Some (d, r1)" "length d = 40"
    using sendBye_content [OF r(3,2) ks r(4,5) rm(1), of tv_zero] by (auto simp: rr_words_def c32.enc_length)
  have "take (length d) (inBuf (p\<lparr>inBuf := copy_at (inBuf p) 0 d\<rparr>)) = d" "5 AND 0xC0000000 \<noteq> (0x80000000 :: u32)"
    using d(2) p(2) take_copy_at_0 [of d "inBuf p"] by simp_all
  from sr_only_source_breaks_report [OF r(3,2) db r(4,5) rm(2) d(1) this, of tv_zero]
  show ?thesis using r(1) d(1) p(1) by (auto simp: Let_def)
qed

text \<open>C28. A receiver that lost nothing reports the largest loss there is: after any number of packets in order, the
  cumulative number of packets lost is -1 in 32 bits, which the report clamps to 0x7FFFFF (a defect).\<close>

theorem lossless_reception_reports_maximal_loss:
  assumes "ps \<noteq> []" and "0 \<le> e0" "e0 < 65536" and "0x10000 + e0 + int (length ps) \<le> 2 ^ 32"
  shows "lostField (fold (note_event freq) (in_order (0x10000 + e0) ps) (newRTPReceptionStats own (seq_of e0))) = 0x7FFFFF"
  using in_order_lost(3) [OF assms refl] .

lemma lossless_reception_reports_maximal_loss_witness:
  "lostField (fold (note_event 90000) (in_order 0x10064 (replicate 9 (3000, 1000, True, tv_zero)))
     (newRTPReceptionStats 5 (seq_of 100))) = 0x7FFFFF"
  using lossless_reception_reports_maximal_loss [of "replicate 9 (3000, 1000, True, tv_zero)" 100 90000 5] by simp

end
