(* ===== verification/MultiFramedSink.thy ===== *)
theory MultiFramedSink
  imports RtpSink OutBuffer Fragmenter
begin

text \<open>
  \<^verbatim>\<open>livemedia/multi_framed_rtp_sink_linux_amd64.go\<close>, the sink part of
  \<^verbatim>\<open>livemedia/h264_video_rtp_sink.go\<close> and the playing state of \<^verbatim>\<open>livemedia/media_sink.go\<close>:
  how frames are packed into RTP packets.

  In the code the functions call each other and the source without end: \<open>buildAndSendPacket\<close> packs a frame, the
  source calls \<open>afterGettingFrame\<close>, which sends the packet, sleeps and builds the next one. Here each function returns
  its last call as a \<open>sink_call\<close>, with the datagrams it sent, so that the caller of the model composes the
  calls. The two methods that a payload format overrides (\<open>rtpSink.doSpecialFrameHandling\<close> and
  \<open>rtpSink.frameCanAppearAfterPacketStart\<close>) are arguments. The clock is an argument, read once per function.
  \<open>rtpInterface.sendPacket\<close> is modelled in RtpInterface; here it is the datagram that is passed to it.
\<close>

section \<open>State\<close>

definition rtpHeaderSize :: nat where "rtpHeaderSize = 12"

record MultiFramedRTPSink = RTPSink +
  haveSource :: bool
  sinkBuf :: OutPacketBuffer
  nextSendTime :: timeval
  noFramesLeft :: bool
  isFirstPacket :: bool
  currentTimestamp :: u32
  ourMaxPacketSize :: nat
  timestampPosition :: nat
  specialHeaderSize :: nat
  numFramesUsedSoFar :: nat
  specialHeaderPosition :: nat
  curFragmentationOffset :: nat
  curFrameSpecificHeaderSize :: nat
  totalFrameSpecificHeaderSizes :: nat
  curFrameSpecificHeaderPosition :: nat
  previousFrameEndedFragmentation :: bool

datatype sink_call =
    GetFrame bytes nat
  | GotFrame nat nat timeval
  | PackFrame
  | SendNext int
  | SourceClosure
  | NoSource

definition setPacketSizes :: "nat \<Rightarrow> nat \<Rightarrow> 'a MultiFramedRTPSink_scheme \<Rightarrow> 'a MultiFramedRTPSink_scheme option" where
  "setPacketSizes preferredSize maxSz s = do {
     b \<leftarrow> newOutPacketBuffer OutPacketBufferMaxSize preferredSize maxSz;
     Some (s\<lparr>sinkBuf := b, ourMaxPacketSize := maxSz\<rparr>)
   }"

text \<open>The default methods.\<close>

definition SpecialHeaderSize :: nat where "SpecialHeaderSize = 0"
definition frameSpecificHeaderSize :: nat where "frameSpecificHeaderSize = 0"
definition allowOtherFramesAfterLastFragment :: bool where "allowOtherFramesAfterLastFragment = False"

definition frameCanAppearAfterPacketStart :: "bytes \<Rightarrow> nat \<Rightarrow> bool" where
  "frameCanAppearAfterPacketStart frameStart numBytesInFrame = True"

definition computeOverflowForNewFrame :: "nat \<Rightarrow> 'a MultiFramedRTPSink_scheme \<Rightarrow> nat" where
  "computeOverflowForNewFrame newFrameSize s = numOverflowBytes newFrameSize (sinkBuf s)"

definition isFirstFrameInPacket :: "'a MultiFramedRTPSink_scheme \<Rightarrow> bool" where
  "isFirstFrameInPacket s \<longleftrightarrow> numFramesUsedSoFar s = 0"

definition sink_isTooBigForAPacket :: "nat \<Rightarrow> 'a MultiFramedRTPSink_scheme \<Rightarrow> bool" where
  "sink_isTooBigForAPacket numBytes s =
     isTooBigForAPacket (numBytes + (rtpHeaderSize + SpecialHeaderSize + frameSpecificHeaderSize)) (sinkBuf s)"

definition setTimestamp :: "timeval \<Rightarrow> 'a MultiFramedRTPSink_scheme \<Rightarrow> 'a MultiFramedRTPSink_scheme option" where
  "setTimestamp framePresentationTime s =
     (let (ts, s1) = convertToRTPTimestamp framePresentationTime s;
          s2 = s1\<lparr>currentTimestamp := ts\<rparr>
      in do { b \<leftarrow> insertWord ts (timestampPosition s2) (sinkBuf s2); Some (s2\<lparr>sinkBuf := b\<rparr>) })"

definition setMarkerBit :: "'a MultiFramedRTPSink_scheme \<Rightarrow> 'a MultiFramedRTPSink_scheme option" where
  "setMarkerBit s = do {
     rtpHdr \<leftarrow> extractWord 0 (sinkBuf s);
     b \<leftarrow> insertWord (rtpHdr OR 0x00800000) 0 (sinkBuf s);
     Some (s\<lparr>sinkBuf := b\<rparr>)
   }"

definition doSpecialFrameHandling ::
  "nat \<Rightarrow> nat \<Rightarrow> nat \<Rightarrow> bytes \<Rightarrow> timeval \<Rightarrow> 'a MultiFramedRTPSink_scheme \<Rightarrow> 'a MultiFramedRTPSink_scheme option" where
  "doSpecialFrameHandling fragmentationOffset numBytesInFrame numRemainingBytes frameStart framePresentationTime s =
     (if isFirstFrameInPacket s then setTimestamp framePresentationTime s else Some s)"

section \<open>Building a packet\<close>

definition packFrame :: "'a MultiFramedRTPSink_scheme \<Rightarrow> (sink_call \<times> 'a MultiFramedRTPSink_scheme) option" where
  "packFrame s =
     (if haveOverflowData (sinkBuf s) then do {
        b \<leftarrow> useOverflowData (sinkBuf s);
        Some (GotFrame (overflowDataSize (sinkBuf s)) (overflowDurationInMicroseconds (sinkBuf s))
                (overflowPresentationTime (sinkBuf s)), s\<lparr>sinkBuf := b\<rparr>)
      }
      else if \<not> haveSource s then Some (NoSource, s)
      else
        (let b = buf_skipBytes frameSpecificHeaderSize (sinkBuf s);
             s1 = s\<lparr>curFrameSpecificHeaderPosition := curPacketSize (sinkBuf s),
                    curFrameSpecificHeaderSize := frameSpecificHeaderSize, sinkBuf := b,
                    totalFrameSpecificHeaderSizes := totalFrameSpecificHeaderSizes s + frameSpecificHeaderSize\<rparr>
         in do { to \<leftarrow> curPtr b; Some (GetFrame to (totalBytesAvailable b), s1) }))"

definition rtpHeaderWord :: "'a MultiFramedRTPSink_scheme \<Rightarrow> u32" where
  "rtpHeaderWord s = 0x80000000 OR push_bit 16 (rtpPayloadType s) OR seqNo s"

definition buildAndSendPacket ::
  "bool \<Rightarrow> 'a MultiFramedRTPSink_scheme \<Rightarrow> (sink_call \<times> 'a MultiFramedRTPSink_scheme) option" where
  "buildAndSendPacket first s = do {
     b1 \<leftarrow> enqueueWord (rtpHeaderWord s) (sinkBuf s);
     let b2 = buf_skipBytes 4 b1;
     b3 \<leftarrow> enqueueWord (sink_ssrc s) b2;
     let b4 = buf_skipBytes SpecialHeaderSize b3;
     packFrame
       (s\<lparr>isFirstPacket := first, timestampPosition := curPacketSize b1, specialHeaderPosition := curPacketSize b3,
          specialHeaderSize := SpecialHeaderSize, sinkBuf := b4, noFramesLeft := False, numFramesUsedSoFar := 0,
          totalFrameSpecificHeaderSizes := 0\<rparr>)
   }"

definition sendNext :: "'a MultiFramedRTPSink_scheme \<Rightarrow> (sink_call \<times> 'a MultiFramedRTPSink_scheme) option" where
  "sendNext s = buildAndSendPacket False s"

definition multiFramedPlaying :: "'a MultiFramedRTPSink_scheme \<Rightarrow> (sink_call \<times> 'a MultiFramedRTPSink_scheme) option" where
  "multiFramedPlaying s = buildAndSendPacket True s"

section \<open>Sending it\<close>

text \<open>The time to wait, in microseconds.\<close>

definition uSecondsToGo :: "timeval \<Rightarrow> 'a MultiFramedRTPSink_scheme \<Rightarrow> int" where
  "uSecondsToGo timeNow s =
     (let secsDiff = i64 (tv_sec (nextSendTime s) - tv_sec timeNow);
          us = i64 (i64 (secsDiff * 1000000) + i64 (tv_usec (nextSendTime s) - tv_usec timeNow))
      in if us < 0 \<or> secsDiff < 0 then 0 else us)"

definition sendPacketIfNecessary ::
  "timeval \<Rightarrow> 'a MultiFramedRTPSink_scheme \<Rightarrow> (bytes list \<times> sink_call \<times> 'a MultiFramedRTPSink_scheme) option" where
  "sendPacketIfNecessary timeNow s = do {
     (out, s1) \<leftarrow>
       (if numFramesUsedSoFar s > 0 then do {
          p \<leftarrow> OutBuffer.packet (sinkBuf s);
          d \<leftarrow> slice p 0 (curPacketSize (sinkBuf s));
          let n = (word_of_nat (curPacketSize (sinkBuf s)) :: u64);
          Some ([d], s\<lparr>packetCount := packetCount s + 1, totalOctetCount := totalOctetCount s + n,
                     octetCount := octetCount s + (n - word_of_nat rtpHeaderSize - word_of_nat (specialHeaderSize s)
                                     - word_of_nat (totalFrameSpecificHeaderSizes s)),
                     seqNo := seqNo s + 1\<rparr>)
        }
        else Some ([], s));
     let b = sinkBuf s1;
     let b1 = (if haveOverflowData b \<and> totalBytesAvailable b > totalBufferSize b div 2
               then adjustPacketStart
                      (usub (curPacketSize b) (rtpHeaderSize + specialHeaderSize s1 + frameSpecificHeaderSize)) b
               else resetPacketStart b);
     let s2 = s1\<lparr>sinkBuf := resetOffset b1, numFramesUsedSoFar := 0\<rparr>;
     Some (out, if noFramesLeft s2 then SourceClosure else SendNext (uSecondsToGo timeNow s2), s2)
   }"

definition ourHandlerClosure ::
  "timeval \<Rightarrow> 'a MultiFramedRTPSink_scheme \<Rightarrow> (bytes list \<times> sink_call \<times> 'a MultiFramedRTPSink_scheme) option" where
  "ourHandlerClosure timeNow s = sendPacketIfNecessary timeNow (s\<lparr>noFramesLeft := True\<rparr>)"

section \<open>A frame has arrived\<close>

text \<open>
  How much of the frame goes into the packet, what overflows, and the state. \<open>numFrameBytesToUse\<close> is an
  unsigned number: the subtraction of the overflow can wrap.
\<close>

definition frameBytesToUse ::
  "nat \<Rightarrow> nat \<Rightarrow> timeval \<Rightarrow> nat \<Rightarrow> 'a MultiFramedRTPSink_scheme \<Rightarrow> nat \<times> nat \<times> 'a MultiFramedRTPSink_scheme" where
  "frameBytesToUse frameSz dur pt n s =
     (if n > 0 then
        if wouldOverflow frameSz (sinkBuf s) then
          (let (n1, overflowBytes, s1) =
                 (if sink_isTooBigForAPacket frameSz s \<and> (numFramesUsedSoFar s = 0 \<or> allowOtherFramesAfterLastFragment)
                  then (let ov = computeOverflowForNewFrame frameSz s; n1 = usub n ov
                        in (n1, ov, s\<lparr>curFragmentationOffset := uadd (curFragmentationOffset s) n1\<rparr>))
                  else (0, frameSz, s))
           in (n1, overflowBytes,
               s1\<lparr>sinkBuf := setOverflowData (uadd (curPacketSize (sinkBuf s1)) n1) overflowBytes dur pt (sinkBuf s1)\<rparr>))
        else if curFragmentationOffset s > 0
             then (n, 0, s\<lparr>curFragmentationOffset := 0, previousFrameEndedFragmentation := True\<rparr>)
             else (n, 0, s)
      else (n, 0, s))"

definition advanceSendTime :: "nat \<Rightarrow> timeval \<Rightarrow> timeval" where
  "advanceSendTime dur t =
     (let us = i64 (tv_usec t + int dur)
      in \<lparr>tv_sec = i64 (tv_sec t + us sdiv 1000000), tv_usec = us smod 1000000\<rparr>)"

text \<open>The clock is read twice: for the start of the stream, and again when the packet has been sent.\<close>

definition afterGettingFrame ::
  "(nat \<Rightarrow> nat \<Rightarrow> nat \<Rightarrow> bytes \<Rightarrow> timeval \<Rightarrow> 'a MultiFramedRTPSink_scheme \<Rightarrow> 'a MultiFramedRTPSink_scheme option) \<Rightarrow>
   (bytes \<Rightarrow> nat \<Rightarrow> bool) \<Rightarrow> timeval \<times> timeval \<Rightarrow> nat \<Rightarrow> nat \<Rightarrow> timeval \<Rightarrow> 'a MultiFramedRTPSink_scheme \<Rightarrow>
     (bytes list \<times> sink_call \<times> 'a MultiFramedRTPSink_scheme) option" where
  "afterGettingFrame special canAppear timeNow frameSz dur pt s = do {
     let s1 = (if isFirstPacket s then s\<lparr>nextSendTime := fst timeNow\<rparr> else s);
     let fragOffset = curFragmentationOffset s1;
     (n, s2) \<leftarrow>
       (if numFramesUsedSoFar s1 > 0 \<and> previousFrameEndedFragmentation s1 \<and> \<not> allowOtherFramesAfterLastFragment then do {
          cp \<leftarrow> curPtr (sinkBuf s1);
          Some (if \<not> canAppear cp frameSz
                then (0, s1\<lparr>sinkBuf := setOverflowData (curPacketSize (sinkBuf s1)) frameSz dur pt (sinkBuf s1)\<rparr>)
                else (frameSz, s1))
        }
        else Some (frameSz, s1));
     let (n1, overflowBytes, s3) = frameBytesToUse frameSz dur pt n (s2\<lparr>previousFrameEndedFragmentation := False\<rparr>);
     if n1 = 0 \<and> frameSz > 0 then sendPacketIfNecessary (snd timeNow) s3
     else do {
       frameStart \<leftarrow> curPtr (sinkBuf s3);
       s4 \<leftarrow> special fragOffset n1 overflowBytes frameStart pt (s3\<lparr>sinkBuf := increment n1 (sinkBuf s3)\<rparr>);
       let s5 = s4\<lparr>numFramesUsedSoFar := numFramesUsedSoFar s4 + 1\<rparr>;
       let s6 = (if overflowBytes = 0 then s5\<lparr>nextSendTime := advanceSendTime dur (nextSendTime s5)\<rparr> else s5);
       ready \<leftarrow>
         (if isPreferredSize (sinkBuf s6) \<or> wouldOverflow n1 (sinkBuf s6) \<or>
             previousFrameEndedFragmentation s6 \<and> \<not> allowOtherFramesAfterLastFragment
          then Some True
          else do { cp \<leftarrow> curPtr (sinkBuf s6); Some (\<not> canAppear cp frameSz) });
       if ready then sendPacketIfNecessary (snd timeNow) s6 else Some ([], PackFrame, s6)
     }
   }"

section \<open>H264VideoRTPSink\<close>

text \<open>
  \<open>framer\<close> is the input source of the fragmenter: \<open>Some m\<close> for an \<open>H264VideoStreamFramer\<close> with
  \<open>pictureEndMarker = m\<close>, \<open>None\<close> for any other source, on which the type assertion panics.
\<close>

record H264VideoRTPSink = MultiFramedRTPSink +
  ourFragmenter :: "H264FUAFragmenter option"
  framer :: "bool option"

definition newMultiFramedRTPSink ::
  "u32 \<Rightarrow> u32 \<Rightarrow> u32 \<Rightarrow> u32 \<Rightarrow> u32 \<Rightarrow> string \<Rightarrow> MultiFramedRTPSink option" where
  "newMultiFramedRTPSink random16 random32 random32' payloadType frequency formatName = do {
     b \<leftarrow> newOutPacketBuffer OutPacketBufferMaxSize 1000 1448;
     Some (RTPSink.extend (InitRTPSink random16 random32 random32' payloadType frequency formatName)
             (MultiFramedRTPSink.fields False b tv_zero False False 0 1448 0 0 0 0 0 0 0 0 False))
   }"

definition newH264VideoRTPSink :: "u32 \<Rightarrow> u32 \<Rightarrow> u32 \<Rightarrow> u32 \<Rightarrow> H264VideoRTPSink option" where
  "newH264VideoRTPSink random16 random32 random32' payloadType = do {
     s \<leftarrow> newMultiFramedRTPSink random16 random32 random32' payloadType 90000 ''H264'';
     Some (MultiFramedRTPSink.extend s (H264VideoRTPSink.fields None None))
   }"

definition h264_frameCanAppearAfterPacketStart :: "bytes \<Rightarrow> nat \<Rightarrow> bool" where
  "h264_frameCanAppearAfterPacketStart frameStart numBytesInFrame = False"

definition h264_doSpecialFrameHandling ::
  "nat \<Rightarrow> nat \<Rightarrow> nat \<Rightarrow> bytes \<Rightarrow> timeval \<Rightarrow> H264VideoRTPSink \<Rightarrow> H264VideoRTPSink option" where
  "h264_doSpecialFrameHandling fragmentationOffset numBytesInFrame numRemainingBytes frameStart pt s = do {
     s1 \<leftarrow>
       (case ourFragmenter s of
          None \<Rightarrow> Some s
        | Some f \<Rightarrow> do {
            pictureEndMarker \<leftarrow> framer s;
            if lastFragmentCompletedNALUnit f \<and> pictureEndMarker
            then do { s' \<leftarrow> setMarkerBit s; Some (s'\<lparr>framer := Some False\<rparr>) }
            else Some s
          });
     setTimestamp pt s1
   }"

definition ContinuePlaying :: "H264VideoRTPSink \<Rightarrow> (sink_call \<times> H264VideoRTPSink) option" where
  "ContinuePlaying s =
     multiFramedPlaying
       (s\<lparr>ourFragmenter := Some (case ourFragmenter s of
                              None \<Rightarrow> newH264FUAFragmenter OutPacketBufferMaxSize (usub (ourMaxPacketSize s) 12)
                            | Some f \<Rightarrow> f),
         haveSource := True\<rparr>)"

text \<open>\<open>MediaSink.StartPlaying\<close> with a framer whose marker is \<open>m\<close>, and \<open>StopPlaying\<close>, for the H.264 sink: its
  source is the fragmenter.\<close>

definition StartPlaying :: "bool \<Rightarrow> H264VideoRTPSink \<Rightarrow> (bool \<times> sink_call \<times> H264VideoRTPSink) option" where
  "StartPlaying m s =
     (if haveSource s then Some (False, NoSource, s)
      else do { (call, s1) \<leftarrow> ContinuePlaying (s\<lparr>haveSource := True, framer := Some m\<rparr>); Some (True, call, s1) })"

definition StopPlaying :: "H264VideoRTPSink \<Rightarrow> H264VideoRTPSink" where
  "StopPlaying s =
     s\<lparr>ourFragmenter := (if haveSource s then map_option (stopGettingFrames doStopGettingFrames) (ourFragmenter s)
                         else ourFragmenter s),
       haveSource := False\<rparr>"

text \<open>
  The frame that the fragmenter has put into its \<open>buffTo\<close>, the slice of the packet buffer that it was given.
\<close>

definition deliver ::
  "timeval \<times> timeval \<Rightarrow> H264FUAFragmenter \<Rightarrow> H264VideoRTPSink \<Rightarrow> (bytes list \<times> sink_call \<times> H264VideoRTPSink) option" where
  "deliver timeNow f s =
     (let b = sinkBuf s
      in afterGettingFrame h264_doSpecialFrameHandling h264_frameCanAppearAfterPacketStart timeNow
           (frameSize f) (durationInMicroseconds f) (presentationTime f)
           (s\<lparr>ourFragmenter := Some f,
              sinkBuf := b\<lparr>buff := copy_at (buff b) (packetStart b + curOffset b) (buffTo f)\<rparr>\<rparr>))"

end
