(* ===== verification/H264Sink.thy ===== *)
theory H264Sink
  imports MultiFramedSink
begin

text \<open>
  What \<open>MultiFramedSink\<close> puts on the wire. The contract between the sink and a payload format that allows one
  frame per packet is the locale \<open>single_frame_format\<close>: under it each frame becomes one datagram. The H.264 sink
  provides it; with the fragmenter, a NAL unit becomes the RTP packets of its FU-A fragments.
\<close>

section \<open>The packet buffer between two packets\<close>

text \<open>An RTP packet without CSRC list: the header word with or without the marker bit, timestamp, SSRC, payload.\<close>

definition rtp_wire :: "u32 \<Rightarrow> bool \<Rightarrow> u32 \<Rightarrow> u32 \<Rightarrow> bytes \<Rightarrow> bytes" where
  "rtp_wire hdr m ts own pl =
     be32_enc (if m then hdr OR 0x00800000 else hdr) @ be32_enc ts @ be32_enc own @ pl"

definition sink_ok :: "nat \<Rightarrow> 'a MultiFramedRTPSink_scheme \<Rightarrow> bool" where
  "sink_ok M s \<longleftrightarrow>
     buff_wf (sinkBuf s) \<and> packetStart (sinkBuf s) = 0 \<and> OutBuffer.maxPacketSize (sinkBuf s) = M \<and> M \<le> limit (sinkBuf s) \<and>
     overflowDataSize (sinkBuf s) = 0 \<and> 12 \<le> M \<and> haveSource s \<and> curFragmentationOffset s = 0 \<and>
     \<not> previousFrameEndedFragmentation s \<and> \<not> nextTimestampHasBeenPreset s"

definition sink_ready :: "nat \<Rightarrow> 'a MultiFramedRTPSink_scheme \<Rightarrow> bool" where
  "sink_ready M s \<longleftrightarrow> sink_ok M s \<and> curOffset (sinkBuf s) = 0"

text \<open>After \<open>buildAndSendPacket\<close>: the header is in place, the timestamp still missing.\<close>

definition sink_waiting :: "nat \<Rightarrow> 'a MultiFramedRTPSink_scheme \<Rightarrow> bool" where
  "sink_waiting M s \<longleftrightarrow>
     sink_ok M s \<and> curOffset (sinkBuf s) = 12 \<and> timestampPosition s = 4 \<and> numFramesUsedSoFar s = 0 \<and>
     specialHeaderSize s = 0 \<and> totalFrameSpecificHeaderSizes s = 0 \<and> \<not> noFramesLeft s \<and>
     take 4 (buff (sinkBuf s)) = be32_enc (rtpHeaderWord s) \<and>
     take 4 (drop 8 (buff (sinkBuf s))) = be32_enc (sink_ssrc s)"

lemma enqueueWord_explicit:
  assumes "buff_wf b" and "4 \<le> room b"
  shows "enqueueWord w b = Some (b\<lparr>curOffset := curOffset b + 4,
    buff := copy_at (buff b) (packetStart b + curOffset b) (be32_enc w)\<rparr>)"
  using assms by (simp add: enqueueWord_def enqueue_def available_room curPtr_def increment_def buff_wf_def room_def)

lemma buf_skipBytes_explicit:
  assumes "buff_wf b" and "n \<le> room b"
  shows "buf_skipBytes n b = b\<lparr>curOffset := curOffset b + n\<rparr>"
proof -
  have "curOffset b + n < 2 ^ 64" using assms by (auto simp: buff_wf_def room_def)
  then show ?thesis using assms by (simp add: buf_skipBytes_def available_room increment_def)
qed

lemma header_bytes:
  assumes "12 \<le> length xs" and "length a = 4" and "length c = 4"
  shows "copy_at (copy_at xs 0 a) 8 c = a @ take 4 (drop 4 xs) @ c @ drop 12 xs"
  using assms by (intro nth_equalityI) (auto simp: nth_copy_at nth_append)

lemma buildAndSendPacket_waits:
  assumes "sink_ready M s"
  shows "\<exists>to s'. buildAndSendPacket first s = Some (GetFrame to (limit (sinkBuf s') - 12), s') \<and>
    length to = limit (sinkBuf s') - 12 \<and> sink_waiting M s' \<and> seqNo s' = seqNo s \<and> sink_ssrc s' = sink_ssrc s \<and>
    rtpPayloadType s' = rtpPayloadType s \<and> timestampBase s' = timestampBase s \<and>
    rtpTimestampFrequency s' = rtpTimestampFrequency s \<and> octetCount s' = octetCount s \<and> packetCount s' = packetCount s \<and>
    limit (sinkBuf s') = limit (sinkBuf s) \<and> MultiFramedRTPSink.more s' = MultiFramedRTPSink.more s"
proof -
  let ?b = "sinkBuf s"
  have r: "buff_wf ?b" "packetStart ?b = 0" "OutBuffer.maxPacketSize ?b = M" "M \<le> limit ?b" "overflowDataSize ?b = 0" "12 \<le> M"
    "curOffset ?b = 0" "haveSource s" "curFragmentationOffset s = 0" "\<not> previousFrameEndedFragmentation s"
    "\<not> nextTimestampHasBeenPreset s"
    using assms by (auto simp: sink_ready_def sink_ok_def)
  have len: "length (buff ?b) = limit ?b" "limit ?b < 2 ^ 63" using r(1) by (auto simp: buff_wf_def)
  let ?h = "be32_enc (rtpHeaderWord s)" and ?c = "be32_enc (sink_ssrc s)"
  let ?b1 = "?b\<lparr>buff := copy_at (buff ?b) 0 ?h, curOffset := 4\<rparr>"
  let ?b2 = "?b\<lparr>buff := copy_at (buff ?b) 0 ?h, curOffset := 8\<rparr>"
  let ?b3 = "?b\<lparr>buff := copy_at (copy_at (buff ?b) 0 ?h) 8 ?c, curOffset := 12\<rparr>"
  have e1: "enqueueWord (rtpHeaderWord s) ?b = Some ?b1"
    using enqueueWord_explicit [of ?b] r len by (simp add: room_def)
  have e2: "buf_skipBytes 4 ?b1 = ?b2"
    using buf_skipBytes_explicit [of ?b1 4] r len by (simp add: room_def buff_wf_def)
  have e3: "enqueueWord (sink_ssrc s) ?b2 = Some ?b3"
    using enqueueWord_explicit [of ?b2] r len by (simp add: room_def buff_wf_def)
  have e4: "buf_skipBytes 0 ?b3 = ?b3"
    using buf_skipBytes_explicit [of ?b3 0] r len by (simp add: room_def buff_wf_def)
  have hb: "copy_at (copy_at (buff ?b) 0 ?h) 8 ?c = ?h @ take 4 (drop 4 (buff ?b)) @ ?c @ drop 12 (buff ?b)"
    using r len by (intro header_bytes) (simp_all add: c32.enc_length)
  let ?s = "s\<lparr>isFirstPacket := first, timestampPosition := 4, specialHeaderPosition := 12,
          specialHeaderSize := 0, sinkBuf := ?b3, noFramesLeft := False, numFramesUsedSoFar := 0,
          totalFrameSpecificHeaderSizes := 0, curFrameSpecificHeaderPosition := 12, curFrameSpecificHeaderSize := 0\<rparr>"
  have "buildAndSendPacket first s = Some (GetFrame (drop 12 (buff ?b3)) (limit ?b - 12), ?s)"
    using r len
    by (simp add: buildAndSendPacket_def e1 e2 e3 e4 SpecialHeaderSize_def packFrame_def haveOverflowData_def
        frameSpecificHeaderSize_def curPacketSize_def curPtr_def totalBytesAvailable_def)
  moreover have "sink_waiting M ?s"
    using r len unfolding hb
    by (auto simp: sink_waiting_def sink_ok_def buff_wf_def rtpHeaderWord_def c32.enc_length)
  ultimately show ?thesis using len r by (intro exI [of _ "drop 12 (buff ?b3)"] exI [of _ ?s]) simp
qed


section \<open>One frame, one datagram\<close>

definition stamp :: "u32 \<Rightarrow> bool \<Rightarrow> u32 \<Rightarrow> OutPacketBuffer \<Rightarrow> OutPacketBuffer" where
  "stamp w m ts b =
     b\<lparr>buff := be32_enc (if m then w OR 0x00800000 else w) @ be32_enc ts @ drop 8 (buff b)\<rparr>"

definition rtp_time :: "'a RTPSink_scheme \<Rightarrow> timeval \<Rightarrow> u32" where
  "rtp_time s pt = timestampBase s + timestampIncrement s pt"

lemma afterGettingFrame_fits:
  assumes "s1 = (if isFirstPacket s then s\<lparr>nextSendTime := fst now\<rparr> else s)" and "numFramesUsedSoFar s1 = 0"
    and "frameBytesToUse n dur pt n (s1\<lparr>previousFrameEndedFragmentation := False\<rparr>) = (n, 0, s3)"
    and "curPtr (sinkBuf s3) = Some cp"
    and "special (curFragmentationOffset s1) n 0 cp pt (s3\<lparr>sinkBuf := increment n (sinkBuf s3)\<rparr>) = Some s4"
    and "curPtr (sinkBuf s4) = Some cp'" and "\<not> canAppear cp' n"
  shows "afterGettingFrame special canAppear now n dur pt s =
    sendPacketIfNecessary (snd now)
      (s4\<lparr>numFramesUsedSoFar := numFramesUsedSoFar s4 + 1, nextSendTime := advanceSendTime dur (nextSendTime s4)\<rparr>)"
  unfolding afterGettingFrame_def Let_def assms(1) [symmetric] using assms(2-) by (cases "n = 0") simp_all

text \<open>
  The two methods of a payload format of one frame per packet: the timestamp is always written, the marker
  bit when \<open>mark\<close> says so, and the format's own fields (\<open>more\<close>) become \<open>upd\<close>.
\<close>

lemma send_one:
  assumes "numFramesUsedSoFar s = 1" and "OutBuffer.packet (sinkBuf s) = Some p" and "slice p 0 (curOffset (sinkBuf s)) = Some d"
    and "overflowDataSize (sinkBuf s) = 0" and "\<not> noFramesLeft s" and "specialHeaderSize s = 0"
    and "totalFrameSpecificHeaderSizes s = 0" and "curOffset (sinkBuf s) = 12 + n"
  shows "\<exists>us. sendPacketIfNecessary now s = Some ([d], SendNext us,
    s\<lparr>packetCount := packetCount s + 1, totalOctetCount := totalOctetCount s + word_of_nat (12 + n),
      octetCount := octetCount s + word_of_nat n, seqNo := seqNo s + 1,
      sinkBuf := (sinkBuf s)\<lparr>packetStart := 0, curOffset := 0\<rparr>, numFramesUsedSoFar := 0\<rparr>)"
  using assms
  by (simp add: Let_def sendPacketIfNecessary_def curPacketSize_def haveOverflowData_def resetPacketStart_def resetOffset_def
      rtpHeaderSize_def)

locale single_frame_format =
  fixes special :: "nat \<Rightarrow> nat \<Rightarrow> nat \<Rightarrow> bytes \<Rightarrow> timeval \<Rightarrow> 'a MultiFramedRTPSink_scheme \<Rightarrow> 'a MultiFramedRTPSink_scheme option"
    and canAppear :: "bytes \<Rightarrow> nat \<Rightarrow> bool"
    and ok :: "'a MultiFramedRTPSink_scheme \<Rightarrow> bool"
    and mark :: "'a MultiFramedRTPSink_scheme \<Rightarrow> bool"
    and upd :: "'a MultiFramedRTPSink_scheme \<Rightarrow> 'a"
  assumes never: "\<not> canAppear b n"
    and own_fields: "MultiFramedRTPSink.more s = MultiFramedRTPSink.more s' \<Longrightarrow> ok s = ok s' \<and> mark s = mark s' \<and> upd s = upd s'"
    and special_stamps: "buff_wf (sinkBuf s) \<Longrightarrow> packetStart (sinkBuf s) = 0 \<Longrightarrow> 12 \<le> curOffset (sinkBuf s) \<Longrightarrow>
      timestampPosition s = 4 \<Longrightarrow> \<not> nextTimestampHasBeenPreset s \<Longrightarrow> ok s \<Longrightarrow>
      take 4 (buff (sinkBuf s)) = be32_enc w \<Longrightarrow>
      special off n ov start pt s =
        Some (s\<lparr>sinkBuf := stamp w (mark s) (rtp_time s pt) (sinkBuf s),
                currentTimestamp := rtp_time s pt, MultiFramedRTPSink.more := upd s\<rparr>)"
begin

lemma frame_is_sent:
  assumes wait: "sink_waiting M s" and n: "12 + n \<le> M" and ok: "ok s"
    and data: "take n (drop 12 (buff (sinkBuf s))) = data"
  shows "\<exists>us s'. afterGettingFrame special canAppear now n dur pt s =
      Some ([rtp_wire (rtpHeaderWord s) (mark s) (rtp_time s pt) (sink_ssrc s) data], SendNext us, s') \<and>
    sink_ready M s' \<and> seqNo s' = seqNo s + 1 \<and> sink_ssrc s' = sink_ssrc s \<and>
    rtpPayloadType s' = rtpPayloadType s \<and> timestampBase s' = timestampBase s \<and>
    rtpTimestampFrequency s' = rtpTimestampFrequency s \<and> octetCount s' = octetCount s + word_of_nat n \<and>
    packetCount s' = packetCount s + 1 \<and> limit (sinkBuf s') = limit (sinkBuf s) \<and>
    MultiFramedRTPSink.more s' = upd s"
proof -
  let ?b = "sinkBuf s" and ?w = "rtpHeaderWord s" and ?m = "mark s" and ?ts = "rtp_time s pt"
  have r: "buff_wf ?b" "packetStart ?b = 0" "OutBuffer.maxPacketSize ?b = M" "M \<le> limit ?b" "overflowDataSize ?b = 0" "12 \<le> M"
    "curOffset ?b = 12" "haveSource s" "curFragmentationOffset s = 0" "\<not> previousFrameEndedFragmentation s"
    "\<not> nextTimestampHasBeenPreset s" "timestampPosition s = 4" "numFramesUsedSoFar s = 0" "specialHeaderSize s = 0"
    "totalFrameSpecificHeaderSizes s = 0" "\<not> noFramesLeft s" "take 4 (buff ?b) = be32_enc ?w"
    "take 4 (drop 8 (buff ?b)) = be32_enc (sink_ssrc s)"
    using wait by (auto simp: sink_waiting_def sink_ok_def)
  have len: "length (buff ?b) = limit ?b" "limit ?b < 2 ^ 63" using r(1) by (auto simp: buff_wf_def)
  have fit: "12 + n \<le> limit ?b" using n r(4) by simp
  define t where "t = (if isFirstPacket s then fst now else nextSendTime s)"
  let ?s1 = "s\<lparr>nextSendTime := t\<rparr>"
  have first: "(if isFirstPacket s then s\<lparr>nextSendTime := fst now\<rparr> else s) = ?s1" by (simp add: t_def)
  have no: "\<not> wouldOverflow n ?b" using r(3,7) n fit len by (simp add: wouldOverflow_def)
  let ?b2 = "?b\<lparr>curOffset := 12 + n\<rparr>"
  have inc: "increment n ?b = ?b2" using r(7) fit len by (simp add: increment_def)
  have s1: "sinkBuf ?s1 = ?b" "numFramesUsedSoFar ?s1 = 0" "curFragmentationOffset ?s1 = 0"
    "?s1\<lparr>previousFrameEndedFragmentation := False\<rparr> = ?s1"
    using r by simp_all
  have use: "frameBytesToUse n dur pt n ?s1 = (n, 0, ?s1)"
    using no r(9) by (simp add: frameBytesToUse_def)
  let ?s2 = "?s1\<lparr>sinkBuf := ?b2\<rparr>"
  have wf2: "buff_wf ?b2" using len fit r(2) by (simp add: buff_wf_def)
  have sp: "special x n y st pt ?s2 = Some (?s2\<lparr>sinkBuf := stamp ?w ?m ?ts ?b2, currentTimestamp := ?ts,
      MultiFramedRTPSink.more := upd s\<rparr>)" for x y st
  proof -
    have own: "ok ?s2 = ok s \<and> mark ?s2 = mark s \<and> upd ?s2 = upd s" by (rule own_fields) simp
    have "rtp_time ?s2 pt = ?ts" by (simp add: rtp_time_def timestampIncrement_def)
    moreover have "buff_wf (sinkBuf ?s2)" "packetStart (sinkBuf ?s2) = 0" "12 \<le> curOffset (sinkBuf ?s2)"
      "timestampPosition ?s2 = 4" "\<not> nextTimestampHasBeenPreset ?s2" "ok ?s2"
      "take 4 (buff (sinkBuf ?s2)) = be32_enc ?w"
      using wf2 r ok own by simp_all
    note special_stamps [OF this, of x n y st pt]
    ultimately show ?thesis using own by simp
  qed
  let ?s3 = "?s2\<lparr>sinkBuf := stamp ?w ?m ?ts ?b2, currentTimestamp := ?ts,
      MultiFramedRTPSink.more := upd s\<rparr>"
  let ?s4 = "?s3\<lparr>numFramesUsedSoFar := 1, nextSendTime := advanceSendTime dur (nextSendTime ?s3)\<rparr>"
  let ?x = "be32_enc (if ?m then ?w OR 0x00800000 else ?w) @ be32_enc ?ts @ drop 8 (buff ?b)"
  have lx: "length ?x = limit ?b" using len fit by (simp add: c32.enc_length)
  have cp: "curPtr (stamp ?w ?m ?ts ?b2) = Some (drop (12 + n) ?x)"
    using lx fit r(2) by (simp add: curPtr_def stamp_def c32.enc_length)
  have cp1: "curPtr ?b = Some (drop 12 (buff ?b))" using r len fit by (simp add: curPtr_def)
  have d8: "drop 8 (buff ?b) = be32_enc (sink_ssrc s) @ drop 12 (buff ?b)"
  proof -
    have "drop 8 (buff ?b) = take 4 (drop 8 (buff ?b)) @ drop 4 (drop 8 (buff ?b))" by (rule append_take_drop_id [symmetric])
    then show ?thesis using r(18) by simp
  qed
  have dg: "take (12 + n) ?x = rtp_wire ?w ?m ?ts (sink_ssrc s) data"
    unfolding d8 rtp_wire_def using data by (simp add: c32.enc_length)
  have sl: "slice ?x 0 (12 + n) = Some (rtp_wire ?w ?m ?ts (sink_ssrc s) data)"
    unfolding slice_def lx drop_0 diff_zero dg using fit by simp
  have b4: "sinkBuf ?s4 = stamp ?w ?m ?ts ?b2" "buff (stamp ?w ?m ?ts ?b2) = ?x" "packetStart (stamp ?w ?m ?ts ?b2) = 0"
    "curOffset (stamp ?w ?m ?ts ?b2) = 12 + n" "overflowDataSize (stamp ?w ?m ?ts ?b2) = 0"
    using r by (simp_all add: stamp_def)
  have pk: "OutBuffer.packet (sinkBuf ?s4) = Some ?x" unfolding b4(1) OutBuffer.packet_def b4(2,3) by simp
  have sl': "slice ?x 0 (curOffset (sinkBuf ?s4)) = Some (rtp_wire ?w ?m ?ts (sink_ssrc s) data)" unfolding b4(1,4) sl ..
  have send: "\<exists>us. sendPacketIfNecessary (snd now) ?s4 = Some ([rtp_wire ?w ?m ?ts (sink_ssrc s) data], SendNext us,
    ?s4\<lparr>packetCount := packetCount ?s4 + 1, totalOctetCount := totalOctetCount ?s4 + word_of_nat (12 + n),
      octetCount := octetCount ?s4 + word_of_nat n, seqNo := seqNo ?s4 + 1,
      sinkBuf := (sinkBuf ?s4)\<lparr>packetStart := 0, curOffset := 0\<rparr>, numFramesUsedSoFar := 0\<rparr>)"
    by (rule send_one [OF _ pk sl']) (use r b4 in simp_all)
  have all: "afterGettingFrame special canAppear now n dur pt s = sendPacketIfNecessary (snd now) ?s4"
  proof -
    have "frameBytesToUse n dur pt n (?s1\<lparr>previousFrameEndedFragmentation := False\<rparr>) = (n, 0, ?s1)"
      unfolding s1(4) by (rule use)
    moreover have "curPtr (sinkBuf ?s1) = Some (drop 12 (buff ?b))" unfolding s1(1) by (rule cp1)
    moreover have "special (curFragmentationOffset ?s1) n 0 (drop 12 (buff ?b)) pt
        (?s1\<lparr>sinkBuf := increment n (sinkBuf ?s1)\<rparr>) = Some ?s3"
      unfolding s1(1,3) inc by (rule sp)
    moreover have "curPtr (sinkBuf ?s3) = Some (drop (12 + n) ?x)" using cp by simp
    ultimately have "afterGettingFrame special canAppear now n dur pt s =
      sendPacketIfNecessary (snd now) (?s3\<lparr>numFramesUsedSoFar := numFramesUsedSoFar ?s3 + 1,
        nextSendTime := advanceSendTime dur (nextSendTime ?s3)\<rparr>)"
      by (rule afterGettingFrame_fits [OF first [symmetric] s1(2)]) (rule never)
    moreover have "numFramesUsedSoFar ?s3 + 1 = 1" using s1(2) by simp
    ultimately show ?thesis by (simp only:)
  qed
  show ?thesis
    unfolding all using send lx r len
    by (elim exE) (rule exI, rule exI, rule conjI, assumption, auto simp: sink_ready_def sink_ok_def buff_wf_def stamp_def)
qed

end


section \<open>The H.264 sink is such a format\<close>

definition h264_ok :: "H264VideoRTPSink \<Rightarrow> bool" where
  "h264_ok s \<longleftrightarrow> ourFragmenter s \<noteq> None \<and> framer s \<noteq> None"

definition h264_mark :: "H264VideoRTPSink \<Rightarrow> bool" where
  "h264_mark s \<longleftrightarrow> lastFragmentCompletedNALUnit (the (ourFragmenter s)) \<and> framer s = Some True"

definition h264_marked :: "H264VideoRTPSink \<Rightarrow> H264VideoRTPSink" where
  "h264_marked s = (if h264_mark s then s\<lparr>framer := Some False\<rparr> else s)"

lemma insert_first:
  assumes "buff_wf b" and "packetStart b = 0" and "4 \<le> curOffset b"
  shows "insertWord w 0 b = Some (b\<lparr>buff := be32_enc w @ drop 4 (buff b)\<rparr>)"
proof -
  have "4 \<le> limit b" "length (buff b) = limit b" using assms by (auto simp: buff_wf_def)
  then show ?thesis using assms by (simp add: insertWord_def buf_insert_def c32.enc_length copy_at_def)
qed

lemma insert_second:
  assumes "buff_wf b" and "packetStart b = 0" and "8 \<le> curOffset b"
  shows "insertWord w 4 b = Some (b\<lparr>buff := take 4 (buff b) @ be32_enc w @ drop 8 (buff b)\<rparr>)"
proof -
  have "8 \<le> limit b" "length (buff b) = limit b" using assms by (auto simp: buff_wf_def)
  then show ?thesis using assms by (simp add: insertWord_def buf_insert_def c32.enc_length copy_at_def)
qed

lemma extract_first:
  assumes "buff_wf b" and "packetStart b = 0" and "4 \<le> curOffset b" and "take 4 (buff b) = be32_enc w"
  shows "extractWord 0 b = Some w"
proof -
  have "take 4 (content b) = be32_enc w" using assms by (simp add: content_def min_def)
  then show ?thesis using extractWord_content [OF assms(1), of 0] assms(3) by (simp add: c32.dec_prefix)
qed

lemma setTimestamp_stamps:
  assumes "buff_wf b" and "packetStart b = 0" and "8 \<le> curOffset b" and "sinkBuf s = b"
    and "timestampPosition s = 4" and "\<not> nextTimestampHasBeenPreset s" and "take 4 (buff b) = be32_enc w"
  shows "setTimestamp pt s = Some (s\<lparr>currentTimestamp := rtp_time s pt, sinkBuf := stamp w False (rtp_time s pt) b\<rparr>)"
  using assms by (simp add: setTimestamp_def convertToRTPTimestamp_def rtp_time_def insert_second stamp_def)

lemma setMarkerBit_stamps:
  assumes "buff_wf b" and "packetStart b = 0" and "8 \<le> curOffset b" and "sinkBuf s = b" and "take 4 (buff b) = be32_enc w"
  shows "setMarkerBit s = Some (s\<lparr>sinkBuf := b\<lparr>buff := be32_enc (w OR 0x00800000) @ drop 4 (buff b)\<rparr>\<rparr>)"
  using assms extract_first [of b w] by (simp add: setMarkerBit_def insert_first)

lemma h264_special_stamps:
  assumes "buff_wf (sinkBuf s)" and "packetStart (sinkBuf s) = 0" and "12 \<le> curOffset (sinkBuf s)"
    and "timestampPosition s = 4" and "\<not> nextTimestampHasBeenPreset s" and ok: "h264_ok s"
    and w: "take 4 (buff (sinkBuf s)) = be32_enc w"
  shows "h264_doSpecialFrameHandling off n ov start pt s =
    Some (s\<lparr>sinkBuf := stamp w (h264_mark s) (rtp_time s pt) (sinkBuf s), currentTimestamp := rtp_time s pt,
            MultiFramedRTPSink.more := MultiFramedRTPSink.more (h264_marked s)\<rparr>)"
proof -
  obtain f m where fm: "ourFragmenter s = Some f" "framer s = Some m" using ok by (auto simp: h264_ok_def)
  let ?b = "sinkBuf s"
  have c8: "8 \<le> curOffset ?b" using assms(3) by simp
  show ?thesis
  proof (cases "h264_mark s")
    case False
    then have "h264_doSpecialFrameHandling off n ov start pt s = setTimestamp pt s"
      using fm by (auto simp: h264_doSpecialFrameHandling_def h264_mark_def)
    also have "\<dots> = Some (s\<lparr>currentTimestamp := rtp_time s pt, sinkBuf := stamp w False (rtp_time s pt) ?b\<rparr>)"
      by (rule setTimestamp_stamps [OF assms(1,2) c8 refl assms(4,5) w])
    finally show ?thesis using False by (simp add: h264_marked_def)
  next
    case True
    let ?b1 = "?b\<lparr>buff := be32_enc (w OR 0x00800000) @ drop 4 (buff ?b)\<rparr>"
    let ?s1 = "s\<lparr>sinkBuf := ?b1, framer := Some False\<rparr>"
    have "12 \<le> limit ?b" "length (buff ?b) = limit ?b" using assms(1-3) by (auto simp: buff_wf_def)
    then have wf1: "buff_wf ?b1" "packetStart ?b1 = 0" "8 \<le> curOffset ?b1" using assms(1-3) by (auto simp: buff_wf_def c32.enc_length)
    have "h264_doSpecialFrameHandling off n ov start pt s = setTimestamp pt ?s1"
      using True fm setMarkerBit_stamps [OF assms(1,2) c8 refl w]
      by (simp add: h264_doSpecialFrameHandling_def h264_mark_def)
    also have "\<dots> = Some (?s1\<lparr>currentTimestamp := rtp_time ?s1 pt, sinkBuf := stamp (w OR 0x00800000) False (rtp_time ?s1 pt) ?b1\<rparr>)"
      by (rule setTimestamp_stamps [OF wf1]) (use assms(4,5) in \<open>simp_all add: c32.enc_length\<close>)
    also have "rtp_time ?s1 pt = rtp_time s pt" by (simp add: rtp_time_def timestampIncrement_def)
    also have "stamp (w OR 0x00800000) False (rtp_time s pt) ?b1 = stamp w True (rtp_time s pt) ?b"
      by (simp add: stamp_def c32.enc_length)
    finally show ?thesis using True by (simp add: h264_marked_def) (cases s, simp)
  qed
qed

lemma h264_own_fields:
  "MultiFramedRTPSink.more s = MultiFramedRTPSink.more s' \<Longrightarrow>
    h264_ok s = h264_ok s' \<and> h264_mark s = h264_mark s' \<and>
    MultiFramedRTPSink.more (h264_marked s) = MultiFramedRTPSink.more (h264_marked s')"
  by (cases s, cases s') (simp add: h264_ok_def h264_mark_def h264_marked_def)

interpretation h264: single_frame_format h264_doSpecialFrameHandling h264_frameCanAppearAfterPacketStart
  h264_ok h264_mark "\<lambda>s. MultiFramedRTPSink.more (h264_marked s)"
  by unfold_locales
    (simp add: h264_frameCanAppearAfterPacketStart_def, rule h264_own_fields, assumption, rule h264_special_stamps)


section \<open>A NAL unit on the wire\<close>

text \<open>What stays the same while packets go out.\<close>

definition same_stream :: "'a MultiFramedRTPSink_scheme \<Rightarrow> 'a MultiFramedRTPSink_scheme \<Rightarrow> bool" where
  "same_stream s s' \<longleftrightarrow>
     sink_ssrc s' = sink_ssrc s \<and> rtpPayloadType s' = rtpPayloadType s \<and> timestampBase s' = timestampBase s \<and>
     rtpTimestampFrequency s' = rtpTimestampFrequency s \<and> limit (sinkBuf s') = limit (sinkBuf s)"

lemma same_stream_refl [simp]: "same_stream s s"
  by (simp add: same_stream_def)

lemma same_stream_trans: "same_stream s t \<Longrightarrow> same_stream t u \<Longrightarrow> same_stream s u"
  by (simp add: same_stream_def)

lemma same_stream_time: "same_stream s s' \<Longrightarrow> rtp_time s' pt = rtp_time s pt"
  by (simp add: same_stream_def rtp_time_def timestampIncrement_def)

lemma deliver_sends:
  assumes wait: "sink_waiting (k + 12) s" and m: "framer s = Some m"
    and frag: "take (frameSize f) (buffTo f) = frag" "frameSize f = length frag" "length frag \<le> k"
    and room: "length frag \<le> length (buffTo f)" "length (buffTo f) \<le> limit (sinkBuf s) - 12"
  shows "\<exists>us s'. deliver now f s =
      Some ([rtp_wire (rtpHeaderWord s) (lastFragmentCompletedNALUnit f \<and> m) (rtp_time s (presentationTime f)) (sink_ssrc s) frag],
            SendNext us, s') \<and>
    sink_ready (k + 12) s' \<and> same_stream s s' \<and> seqNo s' = seqNo s + 1 \<and> packetCount s' = packetCount s + 1 \<and>
    octetCount s' = octetCount s + word_of_nat (length frag) \<and> ourFragmenter s' = Some f \<and>
    framer s' = Some (m \<and> \<not> lastFragmentCompletedNALUnit f)"
proof -
  let ?b = "sinkBuf s"
  let ?s = "s\<lparr>ourFragmenter := Some f, sinkBuf := ?b\<lparr>buff := copy_at (buff ?b) 12 (buffTo f)\<rparr>\<rparr>"
  have r: "buff_wf ?b" "packetStart ?b = 0" "curOffset ?b = 12" "k + 12 \<le> limit ?b"
    using wait by (auto simp: sink_waiting_def sink_ok_def)
  have len: "length (buff ?b) = limit ?b" using r(1) by (auto simp: buff_wf_def)
  have hdr: "take 4 (drop 8 (copy_at (buff ?b) 12 (buffTo f))) = take 4 (drop 8 (buff ?b))"
    using len r(4) by (intro nth_equalityI) (auto simp: nth_copy_at)
  have wait': "sink_waiting (k + 12) ?s"
    using wait len r(4) hdr by (auto simp: sink_waiting_def sink_ok_def buff_wf_def rtpHeaderWord_def)
  have data: "take (frameSize f) (drop 12 (buff (sinkBuf ?s))) = frag"
  proof -
    have "take (frameSize f) (drop 12 (copy_at (buff ?b) 12 (buffTo f))) = take (frameSize f) (buffTo f)"
      using len r(4) frag(2) room by (intro nth_equalityI) (auto simp: nth_copy_at)
    then show ?thesis using frag(1) by simp
  qed
  have n: "12 + frameSize f \<le> k + 12" using frag(2,3) by simp
  have ok: "h264_ok ?s" using m by (simp add: h264_ok_def)
  have mk: "h264_mark ?s \<longleftrightarrow> lastFragmentCompletedNALUnit f \<and> m" using m by (simp add: h264_mark_def)
  have hw: "rtpHeaderWord ?s = rtpHeaderWord s" "rtp_time ?s t = rtp_time s t" for t
    by (simp_all add: rtpHeaderWord_def rtp_time_def timestampIncrement_def)
  have eq: "deliver now f s = afterGettingFrame h264_doSpecialFrameHandling h264_frameCanAppearAfterPacketStart now
      (frameSize f) (durationInMicroseconds f) (presentationTime f) ?s"
    using r by (simp add: deliver_def Let_def)
  obtain us s' where s': "deliver now f s =
      Some ([rtp_wire (rtpHeaderWord s) (lastFragmentCompletedNALUnit f \<and> m) (rtp_time s (presentationTime f)) (sink_ssrc s) frag],
            SendNext us, s')"
    "sink_ready (k + 12) s'" "seqNo s' = seqNo s + 1" "sink_ssrc s' = sink_ssrc s"
    "rtpPayloadType s' = rtpPayloadType s" "timestampBase s' = timestampBase s"
    "rtpTimestampFrequency s' = rtpTimestampFrequency s" "octetCount s' = octetCount s + word_of_nat (frameSize f)"
    "packetCount s' = packetCount s + 1" "limit (sinkBuf s') = limit ?b"
    "MultiFramedRTPSink.more s' = MultiFramedRTPSink.more (h264_marked ?s)"
    using h264.frame_is_sent [OF wait' n ok data, of now "durationInMicroseconds f" "presentationTime f"]
    unfolding eq [symmetric] mk hw by auto
  have "ourFragmenter s' = ourFragmenter (h264_marked ?s) \<and> framer s' = framer (h264_marked ?s)"
    using s'(11) by (cases s', cases "h264_marked ?s") simp
  then have "ourFragmenter s' = Some f" "framer s' = Some (m \<and> \<not> lastFragmentCompletedNALUnit f)"
    using m mk by (auto simp: h264_marked_def)
  then show ?thesis using s' frag(2) by (auto simp: same_stream_def)
qed

text \<open>
  The composition of sink, fragmenter and framer: after each packet the sink sleeps and asks for the next
  frame, until the fragmenter needs a NAL unit from the framer. \<open>now\<close> is the clock: what it gives in each round.
\<close>

fun h264_drain :: "nat \<Rightarrow> (nat \<Rightarrow> timeval \<times> timeval) \<Rightarrow> H264VideoRTPSink \<Rightarrow> (bytes list \<times> H264VideoRTPSink) option" where
  "h264_drain 0 now s = None"
| "h264_drain (Suc n) now s = do {
     (call, s1) \<leftarrow> sendNext s;
     case call of
       GetFrame to sz \<Rightarrow> do {
         f \<leftarrow> ourFragmenter s1;
         act \<leftarrow> GetNextFrame fua_doGetNextFrame to sz f;
         case act of
           ReadInput cap f1 \<Rightarrow> Some ([], s1\<lparr>ourFragmenter := Some f1\<rparr>)
         | Delivered f1 \<Rightarrow> do {
             (out, call', s2) \<leftarrow> deliver (now n) f1 s1;
             case call' of
               SendNext _ \<Rightarrow> do { (out', s3) \<leftarrow> h264_drain n now s2; Some (out @ out', s3) }
             | _ \<Rightarrow> None
           }
       }
     | _ \<Rightarrow> None
   }"

text \<open>The framer has a NAL unit for the waiting fragmenter, the last one of a picture or not.\<close>

definition h264_nal ::
  "(nat \<Rightarrow> timeval \<times> timeval) \<Rightarrow> bytes \<Rightarrow> nat \<Rightarrow> timeval \<Rightarrow> bool \<Rightarrow> H264VideoRTPSink \<Rightarrow> (bytes list \<times> H264VideoRTPSink) option" where
  "h264_nal now nal dur pt ends s = do {
     f \<leftarrow> ourFragmenter s;
     act \<leftarrow> fua_afterGettingFrame nal dur pt f;
     case act of
       ReadInput _ _ \<Rightarrow> None
     | Delivered f1 \<Rightarrow> do {
         (out, call, s1) \<leftarrow> deliver (now (length nal + 1)) f1 (s\<lparr>framer := Some ends\<rparr>);
         case call of
           SendNext _ \<Rightarrow> do { (out', s2) \<leftarrow> h264_drain (length nal + 1) now s1; Some (out @ out', s2) }
         | _ \<Rightarrow> None
       }
   }"

text \<open>The sink has built its header, the fragmenter waits for a NAL unit.\<close>

definition h264_input :: "nat \<Rightarrow> nat \<Rightarrow> H264VideoRTPSink \<Rightarrow> bool" where
  "h264_input k cap s \<longleftrightarrow>
     sink_waiting (k + 12) s \<and> framer s \<noteq> None \<and>
     (\<exists>f to f1. ourFragmenter s = Some f1 \<and> fua_idle k f \<and> inputBufferSize f = cap + 1 \<and>
        length to = limit (sinkBuf s) - 12 \<and>
        GetNextFrame fua_doGetNextFrame to (limit (sinkBuf s) - 12) f = Some (ReadInput cap f1))"

fun rtp_wires :: "u32 \<Rightarrow> u32 \<Rightarrow> bool \<Rightarrow> u32 \<Rightarrow> u32 \<Rightarrow> bytes list \<Rightarrow> bytes list" where
  "rtp_wires pt q m ts own [] = []"
| "rtp_wires pt q m ts own (p # ps) =
     rtp_wire (0x80000000 OR push_bit 16 pt OR q) (m \<and> ps = []) ts own p # rtp_wires pt (q + 1) m ts own ps"


lemma more_fields:
  "MultiFramedRTPSink.more s' = MultiFramedRTPSink.more s \<Longrightarrow> ourFragmenter s' = ourFragmenter s \<and> framer s' = framer s"
  by (cases s', cases s) simp

lemma sendNext_waits:
  assumes "sink_ready (k + 12) s"
  shows "\<exists>to s'. sendNext s = Some (GetFrame to (limit (sinkBuf s) - 12), s') \<and> length to = limit (sinkBuf s) - 12 \<and>
    k + 12 \<le> limit (sinkBuf s) \<and>
    sink_waiting (k + 12) s' \<and> same_stream s s' \<and> seqNo s' = seqNo s \<and> octetCount s' = octetCount s \<and>
    packetCount s' = packetCount s \<and> ourFragmenter s' = ourFragmenter s \<and> framer s' = framer s"
proof -
  obtain to s' where s': "buildAndSendPacket False s = Some (GetFrame to (limit (sinkBuf s') - 12), s')"
    "length to = limit (sinkBuf s') - 12" "sink_waiting (k + 12) s'" "seqNo s' = seqNo s" "sink_ssrc s' = sink_ssrc s"
    "rtpPayloadType s' = rtpPayloadType s" "timestampBase s' = timestampBase s"
    "rtpTimestampFrequency s' = rtpTimestampFrequency s" "octetCount s' = octetCount s" "packetCount s' = packetCount s"
    "limit (sinkBuf s') = limit (sinkBuf s)" "MultiFramedRTPSink.more s' = MultiFramedRTPSink.more s"
    using buildAndSendPacket_waits [OF assms, of False] by auto
  have "k + 12 \<le> limit (sinkBuf s)" using assms by (auto simp: sink_ready_def sink_ok_def)
  then show ?thesis using s' more_fields [OF s'(12)]
    by (intro exI [of _ to] exI [of _ s']) (simp add: sendNext_def same_stream_def)
qed

lemma h264_drain_idle:
  assumes "sink_ready (k + 12) s" and "ourFragmenter s = Some f" and "fua_idle k f" and "inputBufferSize f = cap + 1"
    and "framer s = Some m"
  shows "\<exists>s'. h264_drain (Suc n) now s = Some ([], s') \<and> h264_input k cap s' \<and> same_stream s s' \<and> seqNo s' = seqNo s \<and>
    octetCount s' = octetCount s \<and> packetCount s' = packetCount s"
proof -
  obtain to s1 where s1: "sendNext s = Some (GetFrame to (limit (sinkBuf s) - 12), s1)" "length to = limit (sinkBuf s) - 12"
    "sink_waiting (k + 12) s1" "same_stream s s1" "seqNo s1 = seqNo s" "octetCount s1 = octetCount s"
    "packetCount s1 = packetCount s" "ourFragmenter s1 = Some f" "framer s1 = Some m"
    using sendNext_waits [OF assms(1)] assms(2,5) by auto
  let ?f1 = "f\<lparr>buffTo := to, maxSize := limit (sinkBuf s) - 12, isCurrentlyAwaitingData := True\<rparr>"
  have i: "numValidDataBytes f = 1" "\<not> isCurrentlyAwaitingData f" "length (inputBuffer f) = cap + 1"
    using assms(3,4) by (auto simp: fua_idle_def)
  have g: "GetNextFrame fua_doGetNextFrame to (limit (sinkBuf s) - 12) f = Some (ReadInput cap ?f1)"
    using i assms(4) by (simp add: GetNextFrame_def fua_doGetNextFrame_def)
  let ?s2 = "s1\<lparr>ourFragmenter := Some ?f1\<rparr>"
  have lim: "limit (sinkBuf s1) = limit (sinkBuf s)" using s1(4) by (simp add: same_stream_def)
  have "h264_drain (Suc n) now s = Some ([], ?s2)" using s1(1,8) g by simp
  moreover have "h264_input k cap ?s2"
  proof -
    have "sink_waiting (k + 12) ?s2" using s1(3) by (simp add: sink_waiting_def sink_ok_def rtpHeaderWord_def)
    then show ?thesis using g s1(2,9) assms(3,4) lim by (auto simp: h264_input_def)
  qed
  moreover have "same_stream s ?s2" using s1(4) by (simp add: same_stream_def)
  ultimately show ?thesis using s1(5-7) by (intro exI [of _ ?s2]) simp
qed

lemma drain_step:
  assumes "sink_ready (k + 12) s" and "ourFragmenter s = Some f" and "framer s = Some m"
    and pull: "\<forall>to. length to = limit (sinkBuf s) - 12 \<longrightarrow> (\<exists>f'. GetNextFrame fua_doGetNextFrame to (limit (sinkBuf s) - 12) f = Some (Delivered f') \<and>
        take (frameSize f') (buffTo f') = frag \<and> frameSize f' = length frag \<and> length frag \<le> k \<and>
        length (buffTo f') = length to \<and> presentationTime f' = pt \<and> lastFragmentCompletedNALUnit f' = l \<and> Q f')"
  shows "\<exists>f' s'. sink_ready (k + 12) s' \<and> same_stream s s' \<and> seqNo s' = seqNo s + 1 \<and> packetCount s' = packetCount s + 1 \<and>
      octetCount s' = octetCount s + word_of_nat (length frag) \<and> ourFragmenter s' = Some f' \<and> Q f' \<and> presentationTime f' = pt \<and>
      framer s' = Some (m \<and> \<not> l) \<and>
      (\<forall>out s''. h264_drain n now s' = Some (out, s'') \<longrightarrow>
         h264_drain (Suc n) now s =
           Some (rtp_wire (rtpHeaderWord s) (l \<and> m) (rtp_time s pt) (sink_ssrc s) frag # out, s''))"
proof -
  obtain to s1 where s1: "sendNext s = Some (GetFrame to (limit (sinkBuf s) - 12), s1)" "length to = limit (sinkBuf s) - 12"
    "k + 12 \<le> limit (sinkBuf s)" "sink_waiting (k + 12) s1" "same_stream s s1" "seqNo s1 = seqNo s"
    "octetCount s1 = octetCount s" "packetCount s1 = packetCount s" "ourFragmenter s1 = Some f" "framer s1 = Some m"
    using sendNext_waits [OF assms(1)] assms(2,3) by auto
  obtain f' where f': "GetNextFrame fua_doGetNextFrame to (limit (sinkBuf s) - 12) f = Some (Delivered f')"
    "take (frameSize f') (buffTo f') = frag" "frameSize f' = length frag" "length frag \<le> k"
    "length (buffTo f') = length to" "presentationTime f' = pt" "lastFragmentCompletedNALUnit f' = l" "Q f'"
    using pull [rule_format, OF s1(2)] by blast
  have lim: "limit (sinkBuf s1) = limit (sinkBuf s)" using s1(5) by (simp add: same_stream_def)
  have room: "length frag \<le> length (buffTo f')" "length (buffTo f') \<le> limit (sinkBuf s1) - 12"
    using f'(4,5) s1(2,3) lim by simp_all
  obtain us s' where d: "deliver (now n) f' s1 =
      Some ([rtp_wire (rtpHeaderWord s1) (l \<and> m) (rtp_time s1 pt) (sink_ssrc s1) frag], SendNext us, s')"
    "sink_ready (k + 12) s'" "same_stream s1 s'" "seqNo s' = seqNo s1 + 1" "packetCount s' = packetCount s1 + 1"
    "octetCount s' = octetCount s1 + word_of_nat (length frag)" "ourFragmenter s' = Some f'" "framer s' = Some (m \<and> \<not> l)"
    using deliver_sends [OF s1(4,10) f'(2,3,4) room, of "now n"] f'(6,7) by auto
  have same: "rtpHeaderWord s1 = rtpHeaderWord s" "rtp_time s1 pt = rtp_time s pt" "sink_ssrc s1 = sink_ssrc s"
    using s1(5,6) same_stream_time [OF s1(5)] by (simp_all add: same_stream_def rtpHeaderWord_def)
  have "h264_drain (Suc n) now s =
      Some (rtp_wire (rtpHeaderWord s) (l \<and> m) (rtp_time s pt) (sink_ssrc s) frag # out, s'')"
    if "h264_drain n now s' = Some (out, s'')" for out s''
    using s1(1,9) f'(1) d(1) same that by simp
  then show ?thesis using d(2,4-8) f'(6,8) s1(6-8) same_stream_trans [OF s1(5) d(3)]
    by (intro exI [of _ f'] exI [of _ s']) simp
qed

lemma h264_drain_mid:
  assumes "sink_ready (k + 12) s" and "ourFragmenter s = Some f" and "framer s = Some m"
    and "fua_mid k h rest f" and "4 \<le> k" and "length rest < n" and "inputBufferSize f = cap + 1" and "presentationTime f = pt"
  shows "\<exists>s'. h264_drain (Suc n) now s =
      Some (rtp_wires (rtpPayloadType s) (seqNo s) m (rtp_time s pt) (sink_ssrc s) (fu_rest k h rest), s') \<and>
    h264_input k cap s' \<and> same_stream s s' \<and> seqNo s' = seqNo s + word_of_nat (length (fu_rest k h rest)) \<and>
    packetCount s' = packetCount s + word_of_nat (length (fu_rest k h rest)) \<and>
    octetCount s' = octetCount s + word_of_nat (sum_list (map length (fu_rest k h rest)))"
  using assms
proof (induction n arbitrary: rest f s)
  case (Suc n)
  have kl: "k \<le> limit (sinkBuf s) - 12" using Suc.prems(1,5) by (auto simp: sink_ready_def sink_ok_def)
  have hw: "rtpHeaderWord s = 0x80000000 OR push_bit 16 (rtpPayloadType s) OR seqNo s" by (simp add: rtpHeaderWord_def)
  show ?case
  proof (cases "length rest \<le> k - 2")
    case True
    have "\<forall>to. length to = limit (sinkBuf s) - 12 \<longrightarrow>
        (\<exists>f'. GetNextFrame fua_doGetNextFrame to (limit (sinkBuf s) - 12) f = Some (Delivered f') \<and>
        take (frameSize f') (buffTo f') = [fu_indicator h, (h AND 0x1F) OR 0x40] @ rest \<and>
        frameSize f' = length ([fu_indicator h, (h AND 0x1F) OR 0x40] @ rest) \<and>
        length ([fu_indicator h, (h AND 0x1F) OR 0x40] @ rest) \<le> k \<and> length (buffTo f') = length to \<and>
        presentationTime f' = pt \<and> lastFragmentCompletedNALUnit f' = True \<and> (fua_idle k f' \<and> inputBufferSize f' = cap + 1))"
      (is "\<forall>to. _ \<longrightarrow> (\<exists>f'. ?P to f')")
    proof (intro allI impI)
      fix to :: bytes
      assume to: "length to = limit (sinkBuf s) - 12"
      then have "k \<le> length to" using kl by simp
      from pull_last [OF Suc.prems(4,5) kl this True] show "\<exists>f'. ?P to f'"
        using Suc.prems(5,7,8) True by auto
    qed
    from drain_step [OF Suc.prems(1-3) this, of "Suc n" now]
    obtain f' s' where s': "sink_ready (k + 12) s'" "same_stream s s'" "seqNo s' = seqNo s + 1" "packetCount s' = packetCount s + 1"
      "octetCount s' = octetCount s + word_of_nat (length ([fu_indicator h, (h AND 0x1F) OR 0x40] @ rest))"
      "ourFragmenter s' = Some f'" "fua_idle k f'" "inputBufferSize f' = cap + 1" "framer s' = Some (m \<and> \<not> True)"
      "\<forall>out s''. h264_drain (Suc n) now s' = Some (out, s'') \<longrightarrow> h264_drain (Suc (Suc n)) now s =
         Some (rtp_wire (rtpHeaderWord s) (True \<and> m) (rtp_time s pt) (sink_ssrc s) ([fu_indicator h, (h AND 0x1F) OR 0x40] @ rest) # out, s'')"
      by (elim exE conjE)
    obtain s'' where s'': "h264_drain (Suc n) now s' = Some ([], s'')" "h264_input k cap s''" "same_stream s' s''" "seqNo s'' = seqNo s'"
      "octetCount s'' = octetCount s'" "packetCount s'' = packetCount s'"
      using h264_drain_idle [OF s'(1,6-9)] by blast
    have fr: "fu_rest k h rest = [[fu_indicator h, (h AND 0x1F) OR 0x40] @ rest]" using True by (subst fu_rest.simps) simp
    show ?thesis
      using s'(10) [rule_format, OF s''(1)] s''(2,4-6) s'(3-5) same_stream_trans [OF s'(2) s''(3)]
      unfolding fr hw by (intro exI [of _ s'']) simp
  next
    case False
    then have lt: "k - 2 < length rest" by simp
    have "\<forall>to. length to = limit (sinkBuf s) - 12 \<longrightarrow>
        (\<exists>f'. GetNextFrame fua_doGetNextFrame to (limit (sinkBuf s) - 12) f = Some (Delivered f') \<and>
        take (frameSize f') (buffTo f') = [fu_indicator h, h AND 0x1F] @ take (k - 2) rest \<and>
        frameSize f' = length ([fu_indicator h, h AND 0x1F] @ take (k - 2) rest) \<and>
        length ([fu_indicator h, h AND 0x1F] @ take (k - 2) rest) \<le> k \<and> length (buffTo f') = length to \<and>
        presentationTime f' = pt \<and> lastFragmentCompletedNALUnit f' = False \<and>
        (fua_mid k h (drop (k - 2) rest) f' \<and> inputBufferSize f' = cap + 1))"
      (is "\<forall>to. _ \<longrightarrow> (\<exists>f'. ?P to f')")
    proof (intro allI impI)
      fix to :: bytes
      assume to: "length to = limit (sinkBuf s) - 12"
      then have "k \<le> length to" using kl by simp
      from pull_more [OF Suc.prems(4,5) kl this lt] show "\<exists>f'. ?P to f'"
        using Suc.prems(5,7,8) lt by (auto simp: min_def)
    qed
    from drain_step [OF Suc.prems(1-3) this, of "Suc n" now]
    obtain f' s' where s': "sink_ready (k + 12) s'" "same_stream s s'" "seqNo s' = seqNo s + 1" "packetCount s' = packetCount s + 1"
      "octetCount s' = octetCount s + word_of_nat (length ([fu_indicator h, h AND 0x1F] @ take (k - 2) rest))"
      "ourFragmenter s' = Some f'" "fua_mid k h (drop (k - 2) rest) f'" "inputBufferSize f' = cap + 1" "presentationTime f' = pt"
      "framer s' = Some (m \<and> \<not> False)"
      "\<forall>out s''. h264_drain (Suc n) now s' = Some (out, s'') \<longrightarrow> h264_drain (Suc (Suc n)) now s =
         Some (rtp_wire (rtpHeaderWord s) (False \<and> m) (rtp_time s pt) (sink_ssrc s) ([fu_indicator h, h AND 0x1F] @ take (k - 2) rest) # out, s'')"
      by (elim exE conjE)
    have fm: "framer s' = Some m" using s'(10) by simp
    have "length (drop (k - 2) rest) < n" using Suc.prems(5,6) lt by simp
    from Suc.IH [OF s'(1,6) fm s'(7) Suc.prems(5) this s'(8,9)]
    obtain s'' where s'': "h264_drain (Suc n) now s' =
        Some (rtp_wires (rtpPayloadType s') (seqNo s') m (rtp_time s' pt) (sink_ssrc s') (fu_rest k h (drop (k - 2) rest)), s'')"
      "h264_input k cap s''" "same_stream s' s''" "seqNo s'' = seqNo s' + word_of_nat (length (fu_rest k h (drop (k - 2) rest)))"
      "packetCount s'' = packetCount s' + word_of_nat (length (fu_rest k h (drop (k - 2) rest)))"
      "octetCount s'' = octetCount s' + word_of_nat (sum_list (map length (fu_rest k h (drop (k - 2) rest))))"
      by blast
    have fr: "fu_rest k h rest = ([fu_indicator h, h AND 0x1F] @ take (k - 2) rest) # fu_rest k h (drop (k - 2) rest)"
      using lt Suc.prems(5) by (subst fu_rest.simps) auto
    have st: "rtpPayloadType s' = rtpPayloadType s" "sink_ssrc s' = sink_ssrc s" "rtp_time s' pt = rtp_time s pt"
      using s'(2) same_stream_time [OF s'(2)] by (simp_all add: same_stream_def)
    show ?thesis
      using s'(11) [rule_format, OF s''(1)] s''(2,4-6) s'(3-5) same_stream_trans [OF s'(2) s''(3)] st fu_rest_nonempty
      unfolding fr hw by (intro exI [of _ s'']) (simp add: add_ac)
  qed
qed simp


lemma rtp_wires_length [simp]: "length (rtp_wires pt q m ts own ps) = length ps"
  by (induction ps arbitrary: q) simp_all

lemma h264_nal_sends:
  assumes "h264_input k cap s" and "4 \<le> k" and "nal \<noteq> []" and "length nal \<le> cap"
  shows "\<exists>s'. h264_nal now nal dur pt ends s =
      Some (rtp_wires (rtpPayloadType s) (seqNo s) ends (rtp_time s pt) (sink_ssrc s) (fua_packets k nal), s') \<and>
    h264_input k cap s' \<and> same_stream s s' \<and> seqNo s' = seqNo s + word_of_nat (length (fua_packets k nal)) \<and>
    packetCount s' = packetCount s + word_of_nat (length (fua_packets k nal)) \<and>
    octetCount s' = octetCount s + word_of_nat (sum_list (map length (fua_packets k nal)))"
proof -
  obtain h p where nal: "nal = h # p" using assms(3) by (cases nal) auto
  obtain f to f1 where f: "ourFragmenter s = Some f1" "fua_idle k f" "inputBufferSize f = cap + 1"
    "length to = limit (sinkBuf s) - 12"
    "GetNextFrame fua_doGetNextFrame to (limit (sinkBuf s) - 12) f = Some (ReadInput cap f1)"
    and wait: "sink_waiting (k + 12) s" using assms(1) by (auto simp: h264_input_def)
  have kl: "k \<le> limit (sinkBuf s) - 12" using wait by (auto simp: sink_waiting_def sink_ok_def)
  then have kt: "k \<le> length to" using f(4) by simp
  have fit: "length nal + 1 \<le> inputBufferSize f" using f(3) assms(4) by simp
  obtain f1' f' where f': "GetNextFrame fua_doGetNextFrame to (limit (sinkBuf s) - 12) f = Some (ReadInput (inputBufferSize f - 1) f1')"
    "fua_afterGettingFrame nal dur pt f1' = Some (Delivered f')"
    "if length nal \<le> k
     then take (frameSize f') (buffTo f') = nal \<and> lastFragmentCompletedNALUnit f' \<and> fua_idle k f'
     else take (frameSize f') (buffTo f') = [fu_indicator h, 0x80 OR (h AND 0x1F)] @ take (k - 2) p \<and>
       \<not> lastFragmentCompletedNALUnit f' \<and> fua_mid k h (drop (k - 2) p) f'"
    "frameSize f' = min k (length nal)" "length (buffTo f') = length to" "presentationTime f' = pt"
    "inputBufferSize f' = inputBufferSize f"
    using pull_first [OF f(2) assms(2) kl kt nal fit, of dur pt] by (elim exE conjE)
  have f1: "f1' = f1" using f'(1) f(5) by simp
  let ?s = "s\<lparr>framer := Some ends\<rparr>"
  have wait': "sink_waiting (k + 12) ?s" using wait by (simp add: sink_waiting_def sink_ok_def rtpHeaderWord_def)
  have base: "rtpHeaderWord ?s = 0x80000000 OR push_bit 16 (rtpPayloadType s) OR seqNo s" "rtp_time ?s pt = rtp_time s pt"
    "same_stream s ?s"
    by (simp_all add: rtpHeaderWord_def rtp_time_def timestampIncrement_def same_stream_def)
  define l where "l = (length nal \<le> k)"
  define frag where "frag = (if l then nal else [fu_indicator h, 0x80 OR (h AND 0x1F)] @ take (k - 2) p)"
  have fr: "take (frameSize f') (buffTo f') = frag" "lastFragmentCompletedNALUnit f' = l"
    using f'(3) by (auto simp: frag_def l_def split: if_splits)
  have size: "frameSize f' = length frag" "length frag \<le> k"
    using f'(4) assms(2) nal by (auto simp: frag_def l_def min_def)
  have room: "length frag \<le> length (buffTo f')" "length (buffTo f') \<le> limit (sinkBuf ?s) - 12"
    using size(2) f'(5) f(4) kt by simp_all
  obtain us s1 where s1: "deliver (now (length nal + 1)) f' ?s = Some ([rtp_wire (0x80000000 OR push_bit 16 (rtpPayloadType s) OR seqNo s)
      (l \<and> ends) (rtp_time s pt) (sink_ssrc s) frag], SendNext us, s1)"
    "sink_ready (k + 12) s1" "same_stream ?s s1" "seqNo s1 = seqNo s + 1" "packetCount s1 = packetCount s + 1"
    "octetCount s1 = octetCount s + word_of_nat (length frag)" "ourFragmenter s1 = Some f'" "framer s1 = Some (ends \<and> \<not> l)"
    using deliver_sends [OF wait' _ fr(1) size room, of ends "now (length nal + 1)"] fr(2) f'(6) base by auto
  have nalstep: "h264_nal now nal dur pt ends s = Some (rtp_wire (0x80000000 OR push_bit 16 (rtpPayloadType s) OR seqNo s)
      (l \<and> ends) (rtp_time s pt) (sink_ssrc s) frag # out, s2)"
    if "h264_drain (length nal + 1) now s1 = Some (out, s2)" for out s2
    using f(1) f'(2) s1(1) that unfolding f1 by (simp add: h264_nal_def del: h264_drain.simps)
  have st: "rtpPayloadType s1 = rtpPayloadType s" "sink_ssrc s1 = sink_ssrc s" "rtp_time s1 pt = rtp_time s pt" "same_stream s s1"
    using same_stream_trans [OF base(3) s1(3)] same_stream_time [of s s1 pt] by (auto simp: same_stream_def)
  have cap: "inputBufferSize f' = cap + 1" using f'(7) f(3) by simp
  show ?thesis
  proof (cases l)
    case True
    then have idle: "fua_idle k f'" using f'(3) by (simp add: l_def)
    obtain s2 where s2: "h264_drain (Suc (length nal)) now s1 = Some ([], s2)" "h264_input k cap s2" "same_stream s1 s2"
      "seqNo s2 = seqNo s1" "octetCount s2 = octetCount s1" "packetCount s2 = packetCount s1"
      using h264_drain_idle [OF s1(2,7) idle cap s1(8)] by blast
    have "fua_packets k nal = [frag]" using True nal by (simp add: fua_packets_def frag_def l_def)
    then show ?thesis using nalstep [of "[]" s2] s2 s1(4-6) True same_stream_trans [OF st(4) s2(3)]
      by (intro exI [of _ s2]) simp
  next
    case False
    then have mid: "fua_mid k h (drop (k - 2) p) f'" using f'(3) by (simp add: l_def)
    have fm: "framer s1 = Some ends" using s1(8) False by simp
    have "length (drop (k - 2) p) < length nal" using nal by simp
    from h264_drain_mid [OF s1(2,7) fm mid assms(2) this cap f'(6), of now]
    obtain s2 where s2: "h264_drain (Suc (length nal)) now s1 =
        Some (rtp_wires (rtpPayloadType s1) (seqNo s1) ends (rtp_time s1 pt) (sink_ssrc s1) (fu_rest k h (drop (k - 2) p)), s2)"
      "h264_input k cap s2" "same_stream s1 s2" "seqNo s2 = seqNo s1 + word_of_nat (length (fu_rest k h (drop (k - 2) p)))"
      "packetCount s2 = packetCount s1 + word_of_nat (length (fu_rest k h (drop (k - 2) p)))"
      "octetCount s2 = octetCount s1 + word_of_nat (sum_list (map length (fu_rest k h (drop (k - 2) p))))"
      by blast
    have "fua_packets k nal = frag # fu_rest k h (drop (k - 2) p)"
      using False nal by (simp add: fua_packets_def frag_def l_def)
    then show ?thesis
      using nalstep [of _ s2] s2 s1(4-6) False same_stream_trans [OF st(4) s2(3)] fu_rest_nonempty st(1-3)
      by (intro exI [of _ s2]) (simp add: add_ac)
  qed
qed

text \<open>C3. An H.264 sink that waits for input turns a NAL unit into the RTP packets of its FU-A fragments, in order: version 2,
  its payload type, consecutive sequence numbers, one timestamp, its SSRC, the marker bit on the last packet of
  a picture only; it is then waiting again, and its packet and octet counts are those of what it sent.\<close>

theorem nal_unit_becomes_rtp_packets:
  assumes "h264_input k cap s" and "4 \<le> k" and "nal \<noteq> []" and "length nal \<le> cap"
  shows "\<exists>s'. h264_nal now nal dur pt ends s =
      Some (rtp_wires (rtpPayloadType s) (seqNo s) ends (rtp_time s pt) (sink_ssrc s) (fua_packets k nal), s') \<and>
    h264_input k cap s' \<and> same_stream s s' \<and> seqNo s' = seqNo s + word_of_nat (length (fua_packets k nal)) \<and>
    packetCount s' = packetCount s + word_of_nat (length (fua_packets k nal)) \<and>
    octetCount s' = octetCount s + word_of_nat (sum_list (map length (fua_packets k nal)))"
  using assms by (rule h264_nal_sends)


text \<open>The sink that the server makes, once it plays: it waits for a NAL unit of at most 2000000 bytes.\<close>

lemma new_sink_waits:
  "\<exists>s0 to sz s1 f1. newH264VideoRTPSink r16 r32 r32' pt = Some s0 \<and> StartPlaying m s0 = Some (True, GetFrame to sz, s1) \<and>
     GetNextFrame fua_doGetNextFrame to sz (the (ourFragmenter s1)) = Some (ReadInput 2000000 f1) \<and>
     h264_input 1436 2000000 (s1\<lparr>ourFragmenter := Some f1\<rparr>) \<and> seqNo s1 = r16 \<and> sink_ssrc s1 = r32 \<and> rtpPayloadType s1 = pt \<and>
     timestampBase s1 = r32' \<and> rtpTimestampFrequency s1 = 90000"
proof -
  obtain b where b: "newOutPacketBuffer OutPacketBufferMaxSize 1000 1448 = Some b"
    by (auto simp: newOutPacketBuffer_def Let_def)
  have bf: "packetStart b = 0" "OutBuffer.maxPacketSize b = 1448" "limit b = 2001136" "overflowDataSize b = 0" "curOffset b = 0"
    using b by (auto simp: newOutPacketBuffer_def OutPacketBufferMaxSize_def Let_def resetOverflowData_def resetPacketStart_def
        resetOffset_def)
  have "OutPacketBufferMaxSize + 1448 < 2 ^ 63" by (simp add: OutPacketBufferMaxSize_def)
  from newOutPacketBuffer_wf [OF b this] have wf: "buff_wf b" by simp
  define s where "s = MultiFramedRTPSink.extend (RTPSink.extend (InitRTPSink r16 r32 r32' pt 90000 ''H264'')
      (MultiFramedRTPSink.fields False b tv_zero False False 0 1448 0 0 0 0 0 0 0 0 False)) (H264VideoRTPSink.fields None None)"
  have new: "newH264VideoRTPSink r16 r32 r32' pt = Some s"
    by (simp add: newH264VideoRTPSink_def newMultiFramedRTPSink_def b s_def)
  have sf: "sinkBuf s = b" "\<not> haveSource s" "curFragmentationOffset s = 0" "\<not> previousFrameEndedFragmentation s"
    "\<not> nextTimestampHasBeenPreset s" "ourFragmenter s = None" "ourMaxPacketSize s = 1448" "seqNo s = r16" "sink_ssrc s = r32"
    "rtpPayloadType s = pt" "timestampBase s = r32'" "rtpTimestampFrequency s = 90000"
    by (simp_all add: s_def RTPSink.defs MultiFramedRTPSink.defs H264VideoRTPSink.defs InitRTPSink_def)
  define f where "f = newH264FUAFragmenter OutPacketBufferMaxSize 1436"
  have idle: "fua_idle 1436 f" "inputBufferSize f = 2000000 + 1" "numValidDataBytes f = 1" "\<not> isCurrentlyAwaitingData f"
    "length (inputBuffer f) = 2000001"
    by (simp_all add: f_def fua_idle_def newH264FUAFragmenter_def OutPacketBufferMaxSize_def)
  let ?s = "s\<lparr>framer := Some m, ourFragmenter := Some f, haveSource := True\<rparr>"
  have ready: "sink_ready 1448 ?s" using sf wf bf by (simp add: sink_ready_def sink_ok_def)
  obtain to s1 where s1: "buildAndSendPacket True ?s = Some (GetFrame to (limit (sinkBuf s1) - 12), s1)"
    "length to = limit (sinkBuf s1) - 12" "sink_waiting 1448 s1" "seqNo s1 = r16" "sink_ssrc s1 = r32"
    "rtpPayloadType s1 = pt" "timestampBase s1 = r32'" "rtpTimestampFrequency s1 = 90000"
    "MultiFramedRTPSink.more s1 = MultiFramedRTPSink.more ?s" "limit (sinkBuf s1) = limit b"
    using buildAndSendPacket_waits [OF ready, of True] sf by auto
  have m1: "ourFragmenter s1 = Some f" "framer s1 = Some m" using more_fields [OF s1(9)] by simp_all
  let ?f1 = "f\<lparr>buffTo := to, maxSize := limit (sinkBuf s1) - 12, isCurrentlyAwaitingData := True\<rparr>"
  have g: "GetNextFrame fua_doGetNextFrame to (limit (sinkBuf s1) - 12) f = Some (ReadInput 2000000 ?f1)"
    using idle by (simp add: GetNextFrame_def fua_doGetNextFrame_def)
  have start: "StartPlaying m s = Some (True, GetFrame to (limit (sinkBuf s1) - 12), s1)"
    using s1(1) sf by (simp add: StartPlaying_def ContinuePlaying_def multiFramedPlaying_def f_def)
  have inp: "h264_input 1436 2000000 (s1\<lparr>ourFragmenter := Some ?f1\<rparr>)"
    using s1(2,3) g idle m1 by (auto simp: h264_input_def sink_waiting_def sink_ok_def rtpHeaderWord_def)
  show ?thesis
    by (intro exI [of _ s] exI [of _ to] exI [of _ "limit (sinkBuf s1) - 12"] exI [of _ s1] exI [of _ ?f1])
      (use new start g inp m1 s1(4-8) in simp)
qed

lemma nal_unit_becomes_rtp_packets_witness:
  "\<exists>s0 to sz s1 f1 s2. newH264VideoRTPSink 7 9 1000 96 = Some s0 \<and> StartPlaying False s0 = Some (True, GetFrame to sz, s1) \<and>
     GetNextFrame fua_doGetNextFrame to sz (the (ourFragmenter s1)) = Some (ReadInput 2000000 f1) \<and>
     h264_nal (\<lambda>_. (tv_zero, tv_zero)) [0x65, 1, 2] 0 tv_zero True (s1\<lparr>ourFragmenter := Some f1\<rparr>) =
       Some ([rtp_wire 0x80600007 True 1000 9 [0x65, 1, 2]], s2)"
proof -
  obtain s0 to sz s1 f1 where s: "newH264VideoRTPSink 7 9 1000 96 = Some s0" "StartPlaying False s0 = Some (True, GetFrame to sz, s1)"
    "GetNextFrame fua_doGetNextFrame to sz (the (ourFragmenter s1)) = Some (ReadInput 2000000 f1)"
    "h264_input 1436 2000000 (s1\<lparr>ourFragmenter := Some f1\<rparr>)" "seqNo s1 = 7" "sink_ssrc s1 = 9" "rtpPayloadType s1 = 96"
    "timestampBase s1 = 1000" "rtpTimestampFrequency s1 = 90000"
    using new_sink_waits [of 7 9 1000 96 False] by blast
  let ?s = "s1\<lparr>ourFragmenter := Some f1\<rparr>"
  have t: "rtp_time ?s tv_zero = 1000" using s by (simp add: rtp_time_def timestampIncrement_def tv_zero_def)
  have p: "fua_packets 1436 [0x65, 1, 2] = [[0x65, 1, 2 :: byte]]" by (simp add: fua_packets_def)
  show ?thesis
    using nal_unit_becomes_rtp_packets [OF s(4), of "[0x65, 1, 2]" "\<lambda>_. (tv_zero, tv_zero)" 0 tv_zero True] s t unfolding p by auto
qed

section \<open>Sequence numbers beyond 16 bits\<close>

lemma header_carry:
  assumes "q < 65536"
  shows "0x80000000 OR push_bit 16 pt OR (65536 + q) = (0x80000000 OR push_bit 16 (pt OR 1) OR q :: u32)"
proof -
  have d: "65536 + q = 65536 OR q"
  proof (rule disjunctive_add [of "65536 :: u32" q])
    fix n
    have "unat q < 2 ^ 16" using assms by (simp add: word_less_nat_alt)
    then have "unat (take_bit 16 q) = unat q" by (simp add: unsigned_take_bit_eq take_bit_nat_eq_self)
    then have "q = take_bit 16 q" by (simp add: word_unat_eq_iff)
    then have "n = 16 \<Longrightarrow> \<not> bit q n" by (metis bit_take_bit_iff less_irrefl)
    moreover have "bit (2 ^ 16 :: u32) n \<longleftrightarrow> n = 16" by (auto simp only: bit_exp_iff) simp_all
    ultimately show "\<not> bit (65536 :: u32) n \<or> \<not> bit q n" by auto
  qed
  have "push_bit 16 (pt OR 1) = push_bit 16 pt OR (65536 :: u32)" by (simp add: push_bit_or)
  then show ?thesis unfolding d by (simp add: ac_simps)
qed

text \<open>C34. The sequence number is a 32-bit counter that is put into the header without a mask: once it has passed 65535, at most
  65536 packets after the start, every packet has the low bit of its payload type set, 97 for the 96 that the
  session description announces (a defect).\<close>

theorem seqno_overflow_changes_payload_type:
  assumes "sink_ready M s" and "seqNo s = 65536 + q" and "q < 65536"
  shows "\<exists>to sz s'. sendNext s = Some (GetFrame to sz, s') \<and>
    take 4 (buff (sinkBuf s')) = be32_enc (0x80000000 OR push_bit 16 (rtpPayloadType s OR 1) OR q)"
proof -
  obtain to s' where s': "buildAndSendPacket False s = Some (GetFrame to (limit (sinkBuf s') - 12), s')" "sink_waiting M s'"
    "seqNo s' = seqNo s" "rtpPayloadType s' = rtpPayloadType s"
    using buildAndSendPacket_waits [OF assms(1), of False] by blast
  have "take 4 (buff (sinkBuf s')) = be32_enc (rtpHeaderWord s')" using s'(2) by (simp add: sink_waiting_def)
  then show ?thesis using s' assms(2) header_carry [OF assms(3)] by (auto simp: sendNext_def rtpHeaderWord_def)
qed


lemma seqno_overflow_changes_payload_type_witness:
  "\<exists>s to sz s'. seqNo s = 65541 \<and> rtpPayloadType s = 96 \<and> sendNext s = Some (GetFrame to sz, (s' :: MultiFramedRTPSink)) \<and>
     take 4 (buff (sinkBuf s')) = be32_enc 0x80610005"
proof -
  obtain b where b: "newOutPacketBuffer 1448 1000 1448 = Some b" by (auto simp: newOutPacketBuffer_def)
  have bf: "packetStart b = 0" "OutBuffer.maxPacketSize b = 1448" "limit b = 1448" "overflowDataSize b = 0" "curOffset b = 0"
    using b by (auto simp: newOutPacketBuffer_def Let_def resetOverflowData_def resetPacketStart_def resetOffset_def)
  have wf: "buff_wf b" using newOutPacketBuffer_wf [OF b] by simp
  define s where "s = RTPSink.extend (InitRTPSink 65541 9 1 96 90000 ''H264'')
      (MultiFramedRTPSink.fields True b tv_zero False False 0 1448 0 0 0 0 0 0 0 0 False)"
  have sf: "sinkBuf s = b" "haveSource s" "curFragmentationOffset s = 0" "\<not> previousFrameEndedFragmentation s"
    "\<not> nextTimestampHasBeenPreset s" "seqNo s = 65536 + 5" "rtpPayloadType s = 96"
    by (simp_all add: s_def RTPSink.defs MultiFramedRTPSink.defs InitRTPSink_def)
  have ready: "sink_ready 1448 s" using sf wf bf by (simp add: sink_ready_def sink_ok_def)
  from seqno_overflow_changes_payload_type [OF ready sf(6)] sf(7) show ?thesis
    by (intro exI [of _ s]) (auto simp: sf(6))
qed

end
