(* ===== verification/EndToEnd.thy ===== *)
theory EndToEnd
  imports RtpSource H264Sink
begin

text \<open>
  Sender and receiver together: what the H.264 sink sends is what the header parser of the receiver takes apart.
\<close>

lemma wire_datagram:
  "rtp_wire h m ts own pl = rtp_datagram (if m then h OR 0x00800000 else h) ts own [] [] pl []"
  by (simp add: rtp_wire_def rtp_datagram_def)

definition rtp_header :: "u32 \<Rightarrow> u32 \<Rightarrow> bool \<Rightarrow> u32" where
  "rtp_header pt q m = (if m then (0x80000000 OR push_bit 16 pt OR q) OR 0x00800000 else 0x80000000 OR push_bit 16 pt OR q)"

lemma small_bits: "(x :: u32) < 2 ^ n \<Longrightarrow> n \<le> k \<Longrightarrow> n < 32 \<Longrightarrow> \<not> bit x k"
proof -
  assume "x < 2 ^ n" "n \<le> k" "n < 32"
  then have "x AND mask n = x" by (simp add: less_mask_eq)
  then have "bit x k = bit (x AND mask n) k" by simp
  then show ?thesis using \<open>n \<le> k\<close> by (simp add: bit_simps)
qed

lemma header_fields:
  assumes "pt < 128" and "q < 65536"
  shows "drop_bit 16 (rtp_header pt q m AND 0x007F0000) = pt"
    and "rtp_header pt q m AND 0xFFFF = q"
    and "rtp_header pt q m AND 0x00800000 \<noteq> 0 \<longleftrightarrow> m"
    and "rtp_header pt q m AND 0xF0000000 = 0x80000000"
    and "rtp_header pt q m AND 0x0F000000 = 0"
proof -
  have pt: "\<not> bit pt k" if "7 \<le> k" for k using small_bits [of pt 7 k] assms(1) that by simp
  have pt': "k < 23" if "bit pt (k - 16)" for k
  proof (rule ccontr)
    assume "\<not> k < 23"
    then have "7 \<le> k - 16" by simp
    then show False using pt that by blast
  qed
  have q: "\<not> bit q k" if "16 \<le> k" for k using small_bits [of q 16 k] assms(2) that by simp
  have q': "k < 16" if "bit q k" for k
  proof (rule ccontr)
    assume "\<not> k < 16"
    then have "16 \<le> k" by simp
    then show False using q that by blast
  qed
  have n: "(0x80000000 :: u32) = push_bit 31 1" "(0x007F0000 :: u32) = push_bit 16 (mask 7)" "(0xFFFF :: u32) = mask 16"
    "(0x00800000 :: u32) = push_bit 23 1" "(0xF0000000 :: u32) = push_bit 28 (mask 4)" "(0x0F000000 :: u32) = push_bit 24 (mask 4)"
    by (simp_all add: mask_eq_exp_minus_1)
  have b: "bit (0x80000000 :: u32) k \<longleftrightarrow> k = 31" "bit (0x007F0000 :: u32) k \<longleftrightarrow> 16 \<le> k \<and> k < 23"
    "bit (0xFFFF :: u32) k \<longleftrightarrow> k < 16" "bit (0x00800000 :: u32) k \<longleftrightarrow> k = 23"
    "bit (0xF0000000 :: u32) k \<longleftrightarrow> 28 \<le> k \<and> k < 32" "bit (0x0F000000 :: u32) k \<longleftrightarrow> 24 \<le> k \<and> k < 28" for k
    by (simp_all only: n bit_push_bit_iff bit_mask_iff bit_1_iff) auto
  have "rtp_header pt q m AND 0x007F0000 = push_bit 16 pt"
    by (rule bit_word_eqI) (auto simp: rtp_header_def b bit_simps pt q simp del: bit_numeral_word_iff dest: pt')
  moreover have "drop_bit 16 (push_bit 16 pt) = pt"
  proof (rule bit_word_eqI)
    fix n
    assume "n < LENGTH(32)"
    then show "bit (drop_bit 16 (push_bit 16 pt)) n = bit pt n"
      using pt [of n] by (cases "7 \<le> n") (auto simp: bit_simps)
  qed
  ultimately show "drop_bit 16 (rtp_header pt q m AND 0x007F0000) = pt" by simp
  show "rtp_header pt q m AND 0xFFFF = q"
    by (rule bit_word_eqI) (auto simp: rtp_header_def b bit_simps pt q simp del: bit_numeral_word_iff dest: q')
  show "rtp_header pt q m AND 0xF0000000 = 0x80000000"
    by (rule bit_word_eqI) (auto simp: rtp_header_def b bit_simps pt q simp del: bit_numeral_word_iff)
  show "rtp_header pt q m AND 0x0F000000 = 0"
    by (rule bit_word_eqI) (auto simp: rtp_header_def b bit_simps pt q simp del: bit_numeral_word_iff)
  have "rtp_header pt q m AND 0x00800000 = (if m then 0x00800000 else 0)"
    by (rule bit_word_eqI) (auto simp: rtp_header_def b bit_simps pt q simp del: bit_numeral_word_iff)
  then show "rtp_header pt q m AND 0x00800000 \<noteq> 0 \<longleftrightarrow> m" by simp
qed

definition receive :: "u32 \<Rightarrow> bytes \<Rightarrow> parse_result option" where
  "receive pf d = (case fillInData d newBufferedPacket of None \<Rightarrow> None | Some p \<Rightarrow> parseRTPHeader pf p)"

definition carries :: "u32 \<Rightarrow> u32 \<Rightarrow> bool \<Rightarrow> u32 \<Rightarrow> u32 \<Rightarrow> bytes \<Rightarrow> bytes \<Rightarrow> bool" where
  "carries pf q m ts own body d \<longleftrightarrow> (\<exists>h p. receive pf d = Some (Parsed h ts own p) \<and> payload p = body \<and> h AND 0xFFFF = q \<and>
     (h AND 0x00800000 \<noteq> 0 \<longleftrightarrow> m))"

lemma rtp_wire_is_received:
  assumes "pt < 128" and "q < 65536" and "length body + 12 \<le> RtpPacket.maxPacketSize"
  shows "carries pt q m ts own body (rtp_wire (0x80000000 OR push_bit 16 pt OR q) m ts own body)"
proof -
  let ?h = "rtp_header pt q m"
  note f = header_fields [OF assms(1,2), of m]
  have m: "?h AND 0xC0000000 = (?h AND 0xF0000000) AND 0xC0000000" "?h AND 0x10000000 = (?h AND 0xF0000000) AND 0x10000000"
    "?h AND 0x20000000 = (?h AND 0xF0000000) AND 0x20000000" "drop_bit 24 ?h AND 0xF = drop_bit 24 (?h AND 0x0F000000)"
    by (simp_all add: and.assoc drop_bit_and)
  then have ok: "rtp_ok ?h [] [] []"
    unfolding rtp_ok_def ext_ok_def padding_ok_def m f(4,5) by simp
  have d: "rtp_wire (0x80000000 OR push_bit 16 pt OR q) m ts own body = rtp_datagram ?h ts own [] [] body []"
    by (simp add: wire_datagram rtp_header_def)
  have "length (rtp_datagram ?h ts own [] [] body []) \<le> RtpPacket.maxPacketSize"
    using assms(3) by (simp add: rtp_datagram_def c32.enc_length)
  from parseRTPHeader_payload [OF ok f(1) this]
  show ?thesis unfolding carries_def receive_def d using f(2,3) by (elim exE conjE, intro exI conjI) auto
qed

lemma fua_packets_length: "2 < k \<Longrightarrow> x \<in> set (fua_packets k nal) \<Longrightarrow> length x \<le> k"
  using fua_packets_small [of k] by (cases nal) (auto simp: fua_packets_def split: if_splits)

lemma rtp_wires_are_received:
  assumes "pt < 128" and "unat q + length ps \<le> 65536" and "\<forall>x \<in> set ps. length x + 12 \<le> RtpPacket.maxPacketSize"
  shows "\<forall>i < length ps. carries pt (q + word_of_nat i) (m \<and> Suc i = length ps) ts own (ps ! i) (rtp_wires pt q m ts own ps ! i)"
  using assms
proof (induction ps arbitrary: q)
  case (Cons x ps)
  have q: "q < 65536" using Cons.prems(2) by (simp add: word_less_nat_alt)
  have first: "carries pt q (m \<and> ps = []) ts own x (rtp_wire (0x80000000 OR push_bit 16 pt OR q) (m \<and> ps = []) ts own x)"
    using rtp_wire_is_received [OF assms(1) q] Cons.prems(3) by simp
  have "unat (q + 1) = unat q + 1" using q by (intro unat_add_lem [THEN iffD1, THEN trans]) (simp_all add: word_less_nat_alt)
  then have "unat (q + 1) + length ps \<le> 65536" using Cons.prems(2) by simp
  note rest = Cons.IH [OF assms(1) this]
  show ?case
  proof (intro allI impI)
    fix i
    assume "i < length (x # ps)"
    then show "carries pt (q + word_of_nat i) (m \<and> Suc i = length (x # ps)) ts own ((x # ps) ! i) (rtp_wires pt q m ts own (x # ps) ! i)"
      using first rest Cons.prems(3) by (cases i) (simp_all add: add_ac)
  qed
qed simp

text \<open>C1. Every NAL unit that the H.264 sink is given reaches the other side: parsed by the receiver of the same payload
  type, the datagrams sent carry the FU-A fragments of the NAL unit in order, with consecutive sequence
  numbers, the timestamp of the picture and the SSRC of the sink, and the marker bit is found on the last one of a
  picture only, as long as the number does not pass 65535.\<close>

theorem sent_nal_unit_is_received:
  assumes "h264_input k cap s" and "4 \<le> k" and "k + 12 \<le> RtpPacket.maxPacketSize" and "nal \<noteq> []" and "length nal \<le> cap"
    and "rtpPayloadType s < 128" and "unat (seqNo s) + length (fua_packets k nal) \<le> 65536"
  shows "\<exists>ds s'. h264_nal now nal dur pt ends s = Some (ds, s') \<and> length ds = length (fua_packets k nal) \<and>
    (\<forall>i < length ds. carries (rtpPayloadType s) (seqNo s + word_of_nat i) (ends \<and> Suc i = length ds) (rtp_time s pt) (sink_ssrc s)
       (fua_packets k nal ! i) (ds ! i))"
proof -
  have "\<forall>x \<in> set (fua_packets k nal). length x + 12 \<le> RtpPacket.maxPacketSize"
    using fua_packets_length [of k _ nal] assms(2,3) by fastforce
  note got = rtp_wires_are_received [OF assms(6,7) this, of ends "rtp_time s pt" "sink_ssrc s"]
  obtain s' where "h264_nal now nal dur pt ends s =
      Some (rtp_wires (rtpPayloadType s) (seqNo s) ends (rtp_time s pt) (sink_ssrc s) (fua_packets k nal), s')"
    using h264_nal_sends [OF assms(1,2,4,5), of now dur pt ends] by blast
  then show ?thesis using got
    by (intro exI [of _ "rtp_wires (rtpPayloadType s) (seqNo s) ends (rtp_time s pt) (sink_ssrc s) (fua_packets k nal)"] exI [of _ s'])
      simp
qed

lemma sent_nal_unit_is_received_witness:
  "\<exists>s1 d s2. h264_nal (\<lambda>_. (tv_zero, tv_zero)) [0x65, 1, 2] 0 tv_zero True s1 = Some ([d], s2) \<and> carries 96 7 True 1000 9 [0x65, 1, 2] d"
proof -
  obtain s0 to sz s1 f1 where s: "h264_input 1436 2000000 (s1\<lparr>ourFragmenter := Some f1\<rparr>)" "seqNo s1 = 7" "sink_ssrc s1 = 9"
    "rtpPayloadType s1 = 96" "timestampBase s1 = 1000" "rtpTimestampFrequency s1 = 90000"
    using new_sink_waits [of 7 9 1000 96 False] by blast
  let ?s = "s1\<lparr>ourFragmenter := Some f1\<rparr>"
  have frag: "fua_packets 1436 [0x65, 1, 2] = [[0x65, 1, 2]]" by (simp add: fua_packets_def)
  have "rtp_time ?s tv_zero = 1000" using s by (simp add: rtp_time_def timestampIncrement_def tv_zero_def)
  moreover have "\<exists>ds s'. h264_nal (\<lambda>_. (tv_zero, tv_zero)) [0x65, 1, 2] 0 tv_zero True ?s = Some (ds, s') \<and> length ds = length (fua_packets 1436 [0x65, 1, 2]) \<and>
      (\<forall>i < length ds. carries (rtpPayloadType ?s) (seqNo ?s + word_of_nat i) (True \<and> Suc i = length ds) (rtp_time ?s tv_zero)
         (sink_ssrc ?s) (fua_packets 1436 [0x65, 1, 2] ! i) (ds ! i))"
    by (rule sent_nal_unit_is_received [OF s(1)]) (simp_all add: s RtpPacket.maxPacketSize_def frag)
  ultimately show ?thesis using s unfolding frag by (intro exI [of _ ?s]) (auto simp: length_Suc_conv)
qed

end
