(* ===== verification/StreamParser.thy ===== *)
theory StreamParser
  imports Framed Binary GoFloat
begin

text \<open>
  \<^verbatim>\<open>livemedia/stream_parser.go\<close>, \<^verbatim>\<open>livemedia/mpeg_video_stream_parser.go\<close> and
  \<^verbatim>\<open>livemedia/byte_stream_file_source_linux_amd64.go\<close>: reading an elementary stream from a file through
  two banks of memory.

  An operation of the parser ends in one of four ways: it is \<open>Ready\<close> with a value; the bytes it needs are not there and
  it asks the source to read (\<open>MustRead off n\<close>: at most \<open>n\<close> bytes to offset \<open>off\<close> of the current
  bank); the stream has ended (\<open>AtEnd\<close>, the error "EOF"); or it panics (\<open>Crash\<close>). In the code the source
  calls back \<open>afterGettingBytes\<close>, which restores the saved position and starts parsing again; the abandoned call
  returns an error, and only its state matters. \<open>curBank\<close> is always the bank of \<open>curBankNum\<close>. The slices
  \<open>buffTo\<close>, \<open>saveTo\<close> and \<open>startOfFrame\<close> are one slice, set by \<open>registerReadInterest\<close>
  and never moved: the field \<open>frameBuf\<close>.
\<close>

definition bankSize :: nat where "bankSize = 150000"

datatype ('a, 's) scan = Ready 'a 's | MustRead nat nat 's | AtEnd 's | Crash

definition scan_bind :: "('a, 's) scan \<Rightarrow> ('a \<Rightarrow> 's \<Rightarrow> ('b, 's) scan) \<Rightarrow> ('b, 's) scan" where
  "scan_bind m k =
     (case m of Ready a s \<Rightarrow> k a s | MustRead off n s \<Rightarrow> MustRead off n s | AtEnd s \<Rightarrow> AtEnd s | Crash \<Rightarrow> Crash)"

lemma scan_bind_simps [simp]:
  "scan_bind (Ready a s) k = k a s" "scan_bind (MustRead off n s) k = MustRead off n s"
  "scan_bind (AtEnd s) k = AtEnd s" "scan_bind Crash k = Crash"
  by (simp_all add: scan_bind_def)

lemma scan_bind_Ready [simp]:
  "scan_bind m k = Ready b s \<longleftrightarrow> (\<exists>a t. m = Ready a t \<and> k a t = Ready b s)"
  by (cases m) auto

lemma scan_bind_cong [fundef_cong]:
  "m = m' \<Longrightarrow> (\<And>a s. m' = Ready a s \<Longrightarrow> k a s = k' a s) \<Longrightarrow> scan_bind m k = scan_bind m' k'"
  by (cases m') simp_all

definition or_crash :: "'s option \<Rightarrow> (unit, 's) scan" where
  "or_crash m = (case m of Some s \<Rightarrow> Ready () s | None \<Rightarrow> Crash)"

lemma or_crash_simps [simp]: "or_crash (Some s) = Ready () s" "or_crash None = Crash"
  by (simp_all add: or_crash_def)

lemma or_crash_Ready [simp]: "or_crash m = Ready u s \<longleftrightarrow> m = Some s"
  by (cases m) auto

section \<open>StreamParser\<close>

record StreamParser =
  curBankNum :: nat
  curParserIndex :: nat
  saveParserIndex :: nat
  totNumValidBytes :: nat
  savedParserIndex :: nat
  remainingUnparsedBits :: nat
  savedRemainingUnparsedBits :: nat
  haveSeenEOF :: bool
  bank0 :: bytes
  bank1 :: bytes
  lastSeenPresentationTime :: timeval

definition initStreamParser :: "'a StreamParser_scheme \<Rightarrow> 'a StreamParser_scheme" where
  "initStreamParser p = p\<lparr>bank0 := replicate bankSize 0, bank1 := replicate bankSize 0\<rparr>"

definition curBank :: "'a StreamParser_scheme \<Rightarrow> bytes" where
  "curBank p = (if curBankNum p = 0 then bank0 p else bank1 p)"

definition set_curBank :: "bytes \<Rightarrow> 'a StreamParser_scheme \<Rightarrow> 'a StreamParser_scheme" where
  "set_curBank b p = (if curBankNum p = 0 then p\<lparr>bank0 := b\<rparr> else p\<lparr>bank1 := b\<rparr>)"

definition restore :: "'a StreamParser_scheme \<Rightarrow> 'a StreamParser_scheme" where
  "restore p = p\<lparr>curParserIndex := savedParserIndex p, remainingUnparsedBits := savedRemainingUnparsedBits p\<rparr>"

definition nextToParse :: "'a StreamParser_scheme \<Rightarrow> bytes option" where
  "nextToParse p = slice_from (curBank p) (curParserIndex p)"

definition curOffset :: "'a StreamParser_scheme \<Rightarrow> nat" where
  "curOffset p = curParserIndex p"

definition saveParserState :: "'a StreamParser_scheme \<Rightarrow> 'a StreamParser_scheme" where
  "saveParserState p = p\<lparr>savedParserIndex := curParserIndex p, savedRemainingUnparsedBits := remainingUnparsedBits p\<rparr>"

text \<open>The change of banks: what is not yet parsed is copied to the other one.\<close>

definition switchBank :: "'a StreamParser_scheme \<Rightarrow> 'a StreamParser_scheme option" where
  "switchBank p =
     (let numBytesToSave = usub (totNumValidBytes p) (savedParserIndex p) in do {
        from \<leftarrow> slice_from (curBank p) (saveParserIndex p);
        saved \<leftarrow> slice from 0 numBytesToSave;
        let p1 = p\<lparr>curBankNum := (curBankNum p + 1) mod 2\<rparr>;
        Some ((set_curBank (copy_at (curBank p1) 0 saved) p1)
          \<lparr>curParserIndex := usub (curParserIndex p) (savedParserIndex p), savedParserIndex := 0,
           totNumValidBytes := numBytesToSave\<rparr>)
      })"

definition ensureValidBytes1 :: "nat \<Rightarrow> nat \<Rightarrow> 'a StreamParser_scheme \<Rightarrow> (unit, 'a StreamParser_scheme) scan" where
  "ensureValidBytes1 maxInputFrameSize numBytesNeeded0 p =
     (let numBytesNeeded = (if maxInputFrameSize > numBytesNeeded0 then maxInputFrameSize else numBytesNeeded0)
      in scan_bind (or_crash (if curParserIndex p + numBytesNeeded > bankSize then switchBank p else Some p)) (\<lambda>_ p1.
           if curParserIndex p1 + numBytesNeeded > bankSize then Crash
           else MustRead (totNumValidBytes p1) (usub bankSize (totNumValidBytes p1)) p1))"

text \<open>The source is a file, whose \<open>maxFrameSize\<close> is 0.\<close>

definition ensureValidBytes :: "nat \<Rightarrow> 'a StreamParser_scheme \<Rightarrow> (unit, 'a StreamParser_scheme) scan" where
  "ensureValidBytes numBytesNeeded p =
     (if curParserIndex p + numBytesNeeded \<le> totNumValidBytes p then Ready () p
      else ensureValidBytes1 0 numBytesNeeded p)"

definition test4Bytes :: "'a StreamParser_scheme \<Rightarrow> (u64, 'a StreamParser_scheme) scan" where
  "test4Bytes p = scan_bind (ensureValidBytes 4 p) (\<lambda>_ p1.
     case do { ptr \<leftarrow> nextToParse p1; s \<leftarrow> slice ptr 0 4; be32 s } of
       None \<Rightarrow> Crash | Some w \<Rightarrow> Ready (ucast w) p1)"

definition get4Bytes :: "'a StreamParser_scheme \<Rightarrow> (u64, 'a StreamParser_scheme) scan" where
  "get4Bytes p = scan_bind (test4Bytes p) (\<lambda>n p1.
     Ready n (p1\<lparr>curParserIndex := curParserIndex p1 + 4, remainingUnparsedBits := 0\<rparr>))"

definition get2Bytes :: "'a StreamParser_scheme \<Rightarrow> (u64, 'a StreamParser_scheme) scan" where
  "get2Bytes p = scan_bind (ensureValidBytes 2 p) (\<lambda>_ p1.
     case do { ptr \<leftarrow> nextToParse p1; a \<leftarrow> idx ptr 0; b \<leftarrow> idx ptr 1; Some (push_bit 8 (ucast a) OR ucast b) } of
       None \<Rightarrow> Crash
     | Some n \<Rightarrow> Ready n (p1\<lparr>curParserIndex := curParserIndex p1 + 2, remainingUnparsedBits := 0\<rparr>))"

definition get1Byte :: "'a StreamParser_scheme \<Rightarrow> (u64, 'a StreamParser_scheme) scan" where
  "get1Byte p = scan_bind (ensureValidBytes 1 p) (\<lambda>_ p1.
     let p2 = p1\<lparr>curParserIndex := curParserIndex p1 + 1\<rparr>
     in case idx (curBank p2) (curParserIndex p2) of None \<Rightarrow> Crash | Some b \<Rightarrow> Ready (ucast b) p2)"

definition testBytes :: "nat \<Rightarrow> 'a StreamParser_scheme \<Rightarrow> (bytes, 'a StreamParser_scheme) scan" where
  "testBytes numBytes p = scan_bind (ensureValidBytes numBytes p) (\<lambda>_ p1.
     case do { ptr \<leftarrow> nextToParse p1; slice ptr 0 numBytes } of None \<Rightarrow> Crash | Some bs \<Rightarrow> Ready bs p1)"

definition skipBytes :: "nat \<Rightarrow> 'a StreamParser_scheme \<Rightarrow> (unit, 'a StreamParser_scheme) scan" where
  "skipBytes numBytes p = scan_bind (ensureValidBytes numBytes p) (\<lambda>_ p1.
     Ready () (p1\<lparr>curParserIndex := curParserIndex p1 + numBytes\<rparr>))"

section \<open>MPEGVideoStreamParser\<close>

record MPEGVideoStreamParser = StreamParser +
  frameBuf :: bytes
  numLimitBytes :: nat
  numSavedBytes :: nat
  parserTruncatedBytes :: nat
  savedCurFrameSize :: nat
  savedNumTruncatedBytes :: nat

definition restoreSavedParserState :: "'a MPEGVideoStreamParser_scheme \<Rightarrow> 'a MPEGVideoStreamParser_scheme" where
  "restoreSavedParserState p =
     (restore p)\<lparr>numSavedBytes := savedCurFrameSize p, parserTruncatedBytes := savedNumTruncatedBytes p\<rparr>"

definition registerReadInterest ::
  "bytes \<Rightarrow> nat \<Rightarrow> 'a MPEGVideoStreamParser_scheme \<Rightarrow> 'a MPEGVideoStreamParser_scheme" where
  "registerReadInterest to sz p =
     p\<lparr>frameBuf := to, numLimitBytes := sz, numSavedBytes := 0, parserTruncatedBytes := 0,
       savedCurFrameSize := 0, savedNumTruncatedBytes := 0\<rparr>"

definition saveByte :: "u64 \<Rightarrow> 'a MPEGVideoStreamParser_scheme \<Rightarrow> 'a MPEGVideoStreamParser_scheme option" where
  "saveByte b p =
     (if numSavedBytes p \<ge> numLimitBytes p
      then Some (p\<lparr>parserTruncatedBytes := parserTruncatedBytes p + 1\<rparr>)
      else do {
        buf \<leftarrow> put (frameBuf p) (numSavedBytes p) (ucast b);
        Some (p\<lparr>frameBuf := buf, numSavedBytes := numSavedBytes p + 1\<rparr>)
      })"

definition save4Bytes :: "u64 \<Rightarrow> 'a MPEGVideoStreamParser_scheme \<Rightarrow> 'a MPEGVideoStreamParser_scheme option" where
  "save4Bytes w p =
     (if numSavedBytes p + 4 > numLimitBytes p
      then Some (p\<lparr>parserTruncatedBytes := parserTruncatedBytes p + 4\<rparr>)
      else do {
        b1 \<leftarrow> put (frameBuf p) (numSavedBytes p) (ucast (drop_bit 24 w));
        b2 \<leftarrow> put b1 (numSavedBytes p + 1) (ucast (drop_bit 16 w));
        b3 \<leftarrow> put b2 (numSavedBytes p + 2) (ucast (drop_bit 8 w));
        b4 \<leftarrow> put b3 (numSavedBytes p + 3) (ucast w);
        Some (p\<lparr>frameBuf := b4, numSavedBytes := numSavedBytes p + 4\<rparr>)
      })"

definition curFrameSize :: "'a MPEGVideoStreamParser_scheme \<Rightarrow> nat" where
  "curFrameSize p = numSavedBytes p"

definition setParseState :: "'a MPEGVideoStreamParser_scheme \<Rightarrow> 'a MPEGVideoStreamParser_scheme" where
  "setParseState p =
     saveParserState (p\<lparr>savedCurFrameSize := numSavedBytes p, savedNumTruncatedBytes := parserTruncatedBytes p\<rparr>)"

text \<open>
  The bytes that the source has put into the current bank, at the offset of the request, and the callback that takes note of
  them; the parser starts again from the state it had saved.
\<close>

definition fillBank :: "bytes \<Rightarrow> 'a StreamParser_scheme \<Rightarrow> 'a StreamParser_scheme" where
  "fillBank d p = set_curBank (copy_at (curBank p) (totNumValidBytes p) d) p"

definition afterGettingBytes ::
  "nat \<Rightarrow> timeval \<Rightarrow> 'a MPEGVideoStreamParser_scheme \<Rightarrow> 'a MPEGVideoStreamParser_scheme" where
  "afterGettingBytes numBytesRead pt p =
     restoreSavedParserState
       (p\<lparr>lastSeenPresentationTime := pt, totNumValidBytes := totNumValidBytes p + numBytesRead\<rparr>)"

text \<open>The first end of the input makes the parser use what is left; the second one closes the client.\<close>

definition onInputClosure :: "'a MPEGVideoStreamParser_scheme \<Rightarrow> bool \<times> 'a MPEGVideoStreamParser_scheme" where
  "onInputClosure p =
     (if \<not> haveSeenEOF p
      then (True, afterGettingBytes 0 (lastSeenPresentationTime p) (p\<lparr>haveSeenEOF := True\<rparr>))
      else (False, p))"

section \<open>ByteStreamFileSource\<close>

text \<open>
  \<open>fid.Read\<close> is an argument: the bytes it returns, at most as many as the buffer has, or \<open>None\<close> for an error, the
  end of the file among them. \<open>filePresentationTime\<close> is the \<open>presentationTime\<close> of the struct itself, which hides the
  one of \<open>FramedSource\<close> that is passed on.
\<close>

record ByteStreamFileSource = FramedSource +
  fileOpen :: bool
  filePresentationTime :: timeval
  fileSize :: int
  lastPlayTime :: nat
  playTimePerFrame :: nat
  preferredFrameSize :: nat

datatype file_event = FileClosed | FileClosure | FileFrame nat nat timeval

definition bs_doStopGettingFrames :: "ByteStreamFileSource \<Rightarrow> ByteStreamFileSource" where
  "bs_doStopGettingFrames s = s\<lparr>fileOpen := False\<rparr>"

definition doReadFromFile ::
  "bytes option \<Rightarrow> timeval \<Rightarrow> ByteStreamFileSource \<Rightarrow> file_event \<times> ByteStreamFileSource" where
  "doReadFromFile got now s =
     (case (if fileOpen s then got else None) of
        None \<Rightarrow> (FileClosure, handleClosure bs_doStopGettingFrames None s)
      | Some d \<Rightarrow>
          (let s1 = s\<lparr>buffTo := copy_at (buffTo s) 0 d, frameSize := length d\<rparr>;
               s2 = (if playTimePerFrame s1 > 0 \<and> preferredFrameSize s1 > 0
                     then (let pt = filePresentationTime s1;
                               s' = (if tv_sec pt = 0 \<and> tv_usec pt = 0 then s1\<lparr>filePresentationTime := now\<rparr>
                                     else (let us = i64 (tv_usec pt + int (lastPlayTime s1))
                                           in s1\<lparr>filePresentationTime :=
                                                \<lparr>tv_sec = i64 (tv_sec pt + us sdiv 1000000), tv_usec = us smod 1000000\<rparr>\<rparr>));
                               t = (playTimePerFrame s' * frameSize s') mod 2 ^ 64 div preferredFrameSize s'
                           in s'\<lparr>lastPlayTime := t, durationInMicroseconds := t\<rparr>)
                     else s1\<lparr>filePresentationTime := now\<rparr>);
               (s3, n, dur, pt) = afterGetting s2
           in (FileFrame n dur pt, s3)))"

definition bs_doGetNextFrame ::
  "bytes option \<Rightarrow> timeval \<Rightarrow> ByteStreamFileSource \<Rightarrow> file_event \<times> ByteStreamFileSource" where
  "bs_doGetNextFrame got now s =
     (if \<not> isAwaitingData s then (FileClosed, bs_doStopGettingFrames s) else doReadFromFile got now s)"

end
