(* ===== verification/H264Framer.thy ===== *)
theory H264Framer
  imports StreamParser BitVec
begin

text \<open>
  \<^verbatim>\<open>livemedia/h264_video_stream_framer_linux_amd64.go\<close> and
  \<^verbatim>\<open>livemedia/mpeg_video_stream_framer_linux_amd64.go\<close>: an H.264 byte stream is cut into NAL units, and the end of
  every picture (access unit) is found.

  \<open>parse\<close> is composed of the phases of the code: finding the first start code, reading a NAL unit, analysing
  it (SPS, PPS, SEI), deciding whether it ends its access unit, and advancing the presentation time.
  The parser is a part of the framer's state; the phases that only touch the parser are lifted.
  A request for bytes ends the call (see StreamParser); that the result of \<open>testBytes\<close> is ignored once in the code makes no
  difference to this.
\<close>

section \<open>H264VideoStreamParser\<close>

definition spsMaxSize :: nat where "spsMaxSize = 1000"
definition seiMaxSize :: nat where "seiMaxSize = 5000"
definition numNextSliceHeaderBytesToAnalyze :: nat where "numNextSliceHeaderBytesToAnalyze = 12"

record H264VideoStreamParser = MPEGVideoStreamParser +
  outputStartCodeSize :: nat
  firstByteOfNALUnit :: u64
  log2MaxFrameNum :: u64
  frameMbsOnlyFlag :: bool
  separateColourPlaneFlag :: bool
  includeStartCodeInOutput :: bool
  haveSeenFirstStartCode :: bool
  haveSeenFirstByteOfNALUnit :: bool

definition newH264VideoStreamParser :: H264VideoStreamParser where
  "newH264VideoStreamParser =
     initStreamParser
       \<lparr>curBankNum = 0, curParserIndex = 0, saveParserIndex = 0, totNumValidBytes = 0, savedParserIndex = 0,
        remainingUnparsedBits = 0, savedRemainingUnparsedBits = 0, haveSeenEOF = False, bank0 = [], bank1 = [],
        lastSeenPresentationTime = tv_zero, frameBuf = [], numLimitBytes = 0, numSavedBytes = 0,
        parserTruncatedBytes = 0, savedCurFrameSize = 0, savedNumTruncatedBytes = 0, outputStartCodeSize = 0,
        firstByteOfNALUnit = 0, log2MaxFrameNum = 5, frameMbsOnlyFlag = True, separateColourPlaneFlag = False,
        includeStartCodeInOutput = False, haveSeenFirstStartCode = False, haveSeenFirstByteOfNALUnit = False\<rparr>"

text \<open>The search for the first start code: one byte further in every round.\<close>

lemma ensureValidBytes_Ready:
  "ensureValidBytes n p = Ready u p' \<longleftrightarrow> p' = p \<and> curParserIndex p + n \<le> totNumValidBytes p"
  by (auto simp: ensureValidBytes_def ensureValidBytes1_def Let_def split: if_splits)

lemma test4Bytes_Ready: "test4Bytes p = Ready w p' \<Longrightarrow> p' = p \<and> curParserIndex p + 4 \<le> totNumValidBytes p"
  by (auto simp: test4Bytes_def ensureValidBytes_Ready split: option.splits)

lemma get1Byte_Ready:
  "get1Byte p = Ready w p' \<Longrightarrow> p' = p\<lparr>curParserIndex := curParserIndex p + 1\<rparr> \<and> curParserIndex p + 1 \<le> totNumValidBytes p"
  by (auto simp: get1Byte_def ensureValidBytes_Ready Let_def split: option.splits)

lemma skipBytes_Ready:
  "skipBytes n p = Ready u p' \<longleftrightarrow> p' = p\<lparr>curParserIndex := curParserIndex p + n\<rparr> \<and> curParserIndex p + n \<le> totNumValidBytes p"
  by (auto simp: skipBytes_def ensureValidBytes_Ready)

definition bytesAhead :: "'a StreamParser_scheme \<Rightarrow> nat" where
  "bytesAhead p = totNumValidBytes p - curParserIndex p"

lemma bytesAhead_simps [simp]:
  "bytesAhead (setParseState p) = bytesAhead p"
  "bytesAhead (p\<lparr>curParserIndex := n\<rparr>) = totNumValidBytes p - n"
  by (simp_all add: bytesAhead_def setParseState_def saveParserState_def)

lemma save_keeps_index:
  "saveByte b q = Some q' \<Longrightarrow> curParserIndex q' = curParserIndex q \<and> totNumValidBytes q' = totNumValidBytes q"
  "save4Bytes w q = Some q' \<Longrightarrow> curParserIndex q' = curParserIndex q \<and> totNumValidBytes q' = totNumValidBytes q"
  by (auto simp: saveByte_def save4Bytes_def bind_simps split: if_splits)

function findStartCode :: "H264VideoStreamParser \<Rightarrow> (unit, H264VideoStreamParser) scan" where
  "findStartCode p =
     scan_bind (test4Bytes p) (\<lambda>first4Bytes p1.
       if first4Bytes = 0x00000001 then Ready () p1
       else scan_bind (get1Byte p1) (\<lambda>_ p2. findStartCode (setParseState p2)))"
  by auto
termination
  by (relation "measure bytesAhead") (auto dest!: get1Byte_Ready test4Bytes_Ready simp: bytesAhead_def setParseState_def saveParserState_def)

declare findStartCode.simps [simp del]

text \<open>The loop that saves a NAL unit up to the next start code.\<close>

definition startsCode :: "u64 \<Rightarrow> bool" where
  "startsCode next4Bytes \<longleftrightarrow> next4Bytes = 0x00000001 \<or> next4Bytes AND 0xFFFFFF00 = 0x00000100"

definition saveSome :: "u64 \<Rightarrow> H264VideoStreamParser \<Rightarrow> (unit, H264VideoStreamParser) scan" where
  "saveSome next4Bytes p =
     (if next4Bytes AND 0xFF > 1
      then scan_bind (or_crash (save4Bytes next4Bytes p)) (\<lambda>_ p1. skipBytes 4 p1)
      else scan_bind (or_crash (saveByte (drop_bit 24 next4Bytes) p)) (\<lambda>_ p1. skipBytes 1 p1))"

lemma saveSome_advances:
  "saveSome w p = Ready u p' \<Longrightarrow> bytesAhead p' < bytesAhead p"
  by (auto simp: saveSome_def or_crash_def skipBytes_Ready bytesAhead_def dest!: save_keeps_index split: if_splits option.splits)

function saveLoop :: "u64 \<Rightarrow> H264VideoStreamParser \<Rightarrow> (u64, H264VideoStreamParser) scan" where
  "saveLoop next4Bytes p =
     (if startsCode next4Bytes then Ready next4Bytes p
      else scan_bind (saveSome next4Bytes p) (\<lambda>_ p1.
             scan_bind (test4Bytes (setParseState p1)) (\<lambda>w p2. saveLoop w p2)))"
  by auto
termination
  by (relation "measure (\<lambda>(w, p). bytesAhead p)") (auto dest!: test4Bytes_Ready saveSome_advances)

declare saveLoop.simps [simp del]

text \<open>After the end of the input: the bytes that are left.\<close>

fun saveRest :: "nat \<Rightarrow> H264VideoStreamParser \<Rightarrow> (unit, H264VideoStreamParser) scan" where
  "saveRest 0 p = Ready () p"
| "saveRest (Suc n) p =
     scan_bind (get1Byte p) (\<lambda>nextByte p1.
       let p2 = (if \<not> haveSeenFirstByteOfNALUnit p1
                 then p1\<lparr>firstByteOfNALUnit := nextByte, haveSeenFirstByteOfNALUnit := True\<rparr> else p1)
       in scan_bind (or_crash (saveByte nextByte p2)) (\<lambda>_ p3. saveRest n p3))"

definition readNAL :: "H264VideoStreamParser \<Rightarrow> (unit, H264VideoStreamParser) scan" where
  "readNAL p =
     scan_bind
       (if \<not> haveSeenFirstStartCode p
        then scan_bind (findStartCode p) (\<lambda>_ p1. scan_bind (skipBytes 4 p1) (\<lambda>_ p2.
               Ready () (p2\<lparr>haveSeenFirstStartCode := True\<rparr>)))
        else Ready () p)
       (\<lambda>_ p0. scan_bind
         (if outputStartCodeSize p0 > 0 \<and> curFrameSize p0 = 0 \<and> \<not> haveSeenEOF p0
          then or_crash (save4Bytes 0x00000001 p0) else Ready () p0)
         (\<lambda>_ p1.
           if haveSeenEOF p1 then
             scan_bind (saveRest (usub (totNumValidBytes p1) (curOffset p1)) p1) (\<lambda>_ p2.
               scan_bind (get1Byte p2) (\<lambda>_ p3. AtEnd p3))
           else scan_bind (test4Bytes p1) (\<lambda>w p2.
             let p3 = (if \<not> haveSeenFirstByteOfNALUnit p2
                       then p2\<lparr>firstByteOfNALUnit := drop_bit 24 w, haveSeenFirstByteOfNALUnit := True\<rparr> else p2)
             in scan_bind (saveLoop w p3) (\<lambda>w' p4. skipBytes (if w' = 0x00000001 then 4 else 3) p4))))"

section \<open>Emulation prevention\<close>

text \<open>\<open>removeEmulationBytes\<close>: its loop, and the copy, on which the caller's buffer of \<open>maxSize\<close> zeros is filled.\<close>

function removeLoop :: "bytes \<Rightarrow> nat \<Rightarrow> nat \<Rightarrow> bytes \<Rightarrow> nat \<Rightarrow> (bytes \<times> nat) option" where
  "removeLoop orig n i copy sz =
     (if i < n then do {
        b0 \<leftarrow> idx orig i;
        emulated \<leftarrow> (if i + 2 < n \<and> b0 = 0 then do {
                      b1 \<leftarrow> idx orig (i + 1);
                      if b1 = 0 then do { b2 \<leftarrow> idx orig (i + 2); Some (b2 = 3) } else Some False
                    } else Some False);
        copy1 \<leftarrow> put copy sz b0;
        if emulated then do {
          b1 \<leftarrow> idx orig (i + 1);
          copy2 \<leftarrow> put copy1 (sz + 1) b1;
          removeLoop orig n (i + 3) copy2 (sz + 2)
        }
        else removeLoop orig n (i + 1) copy1 (sz + 1)
      }
      else Some (copy, sz))"
  by auto
termination by (relation "measure (\<lambda>(orig, n, i, copy, sz). n - i)") auto

declare removeLoop.simps [simp del]

definition removeEmulationBytes :: "bytes \<Rightarrow> nat \<Rightarrow> H264VideoStreamParser \<Rightarrow> (bytes \<times> nat) option" where
  "removeEmulationBytes copy sz p = do {
     orig \<leftarrow> slice_from (frameBuf p) (outputStartCodeSize p);
     let n = numSavedBytes p;
     if n > sz then Some (copy, 0) else removeLoop orig n 0 copy 0
   }"

section \<open>Slice header\<close>

record sliceHeader =
  frameNum :: u64
  idrPicID :: u64
  picParameterSetID :: u64
  fieldPicFlag :: bool
  bottomFieldFlag :: bool

definition analyzeSliceHeader :: "bytes \<Rightarrow> u64 \<Rightarrow> H264VideoStreamParser \<Rightarrow> sliceHeader option" where
  "analyzeSliceHeader start nalUnitType p =
     (let bv0 = skipBits 8 (newBitVector start 0 (8 * usub (numSavedBytes p) (outputStartCodeSize p))) in do {
        (firstMBInSlice, bv1) \<leftarrow> getExpGolomb bv0;
        (sliceType, bv2) \<leftarrow> getExpGolomb bv1;
        (ppsId, bv3) \<leftarrow> getExpGolomb bv2;
        let bv4 = (if separateColourPlaneFlag p then skipBits 2 bv3 else bv3);
        (num, bv5) \<leftarrow> getBits (unat (log2MaxFrameNum p)) bv4;
        (field, bottom, bv6) \<leftarrow>
          (if \<not> frameMbsOnlyFlag p then do {
             (f, b1) \<leftarrow> get1BitBoolean bv5;
             if f then do { (g, b2) \<leftarrow> get1BitBoolean b1; Some (f, g, b2) } else Some (f, False, b1)
           }
           else Some (False, False, bv5));
        (idr, bv7) \<leftarrow> (if nalUnitType = 5 then getExpGolomb bv6 else Some (0, bv6));
        Some \<lparr>frameNum = num, idrPicID = idr, picParameterSetID = ppsId, fieldPicFlag = field, bottomFieldFlag = bottom\<rparr>
      })"

section \<open>Sequence parameter set\<close>

record seqParameterSet =
  timeScale :: u64
  numUnitsInTick :: u64
  fixedFrameRateFlag :: u64

definition no_timing :: seqParameterSet where
  "no_timing = \<lparr>timeScale = 0, numUnitsInTick = 0, fixedFrameRateFlag = 0\<rparr>"

fun skipExpGolombs :: "nat \<Rightarrow> BitVector \<Rightarrow> BitVector option" where
  "skipExpGolombs 0 bv = Some bv"
| "skipExpGolombs (Suc n) bv = do { (_, bv') \<leftarrow> getExpGolomb bv; skipExpGolombs n bv' }"

text \<open>One scaling list: \<open>n\<close> entries.\<close>

fun scalingList :: "nat \<Rightarrow> u64 \<Rightarrow> u64 \<Rightarrow> BitVector \<Rightarrow> BitVector option" where
  "scalingList 0 lastScale nextScale bv = Some bv"
| "scalingList (Suc n) lastScale nextScale bv = do {
     (nextScale', bv') \<leftarrow>
       (if nextScale \<noteq> 0 then do { (delta, b) \<leftarrow> getExpGolomb bv; Some ((lastScale + delta + 256) mod 256, b) }
        else Some (nextScale, bv));
     scalingList n (if nextScale' \<noteq> 0 then nextScale' else lastScale) nextScale' bv'
   }"

text \<open>The lists from number \<open>i\<close> on; there are \<open>n\<close> left.\<close>

fun scalingLists :: "nat \<Rightarrow> nat \<Rightarrow> BitVector \<Rightarrow> BitVector option" where
  "scalingLists i 0 bv = Some bv"
| "scalingLists i (Suc n) bv = do {
     (present, b1) \<leftarrow> get1Bit bv;
     b2 \<leftarrow> (if present \<noteq> 0 then scalingList (if i < 6 then 16 else 24) 8 8 b1 else Some b1);
     scalingLists (i + 1) n b2
   }"

definition highProfile :: "u64 \<Rightarrow> bool" where
  "highProfile p \<longleftrightarrow> p = 100 \<or> p = 110 \<or> p = 122 \<or> p = 244 \<or> p = 44 \<or> p = 83 \<or> p = 86 \<or> p = 118 \<or> p = 128"

definition chromaInfo :: "BitVector \<Rightarrow> BitVector option" where
  "chromaInfo bv = do {
     (chromaFormatIdc, b1) \<leftarrow> getExpGolomb bv;
     b2 \<leftarrow> (if chromaFormatIdc = 3 then map_option snd (get1BitBoolean b1) else Some b1);
     b3 \<leftarrow> skipExpGolombs 2 b2;
     (matrix, b4) \<leftarrow> get1Bit (skipBits 1 b3);
     if matrix \<noteq> 0 then scalingLists 0 (if chromaFormatIdc \<noteq> 3 then 8 else 12) b4 else Some b4
   }"

definition picOrderInfo :: "BitVector \<Rightarrow> BitVector option" where
  "picOrderInfo bv = do {
     (picOrderCntType, b1) \<leftarrow> getExpGolomb bv;
     if picOrderCntType = 0 then skipExpGolombs 1 b1
     else if picOrderCntType = 1 then do {
       b2 \<leftarrow> skipExpGolombs 2 (skipBits 1 b1);
       (n, b3) \<leftarrow> getExpGolomb b2;
       skipExpGolombs (unat n) b3
     }
     else Some b1
   }"

text \<open>What \<open>analyzeVUIParameters\<close> skips before the timing information.\<close>

definition videoInfo :: "BitVector \<Rightarrow> BitVector option" where
  "videoInfo bv = do {
     (aspect, b1) \<leftarrow> get1Bit bv;
     b2 \<leftarrow> (if aspect \<noteq> 0 then do { (idc, b) \<leftarrow> getBits 8 b1; Some (if idc = 255 then skipBits 32 b else b) } else Some b1);
     (overscan, b3) \<leftarrow> get1Bit b2;
     let b4 = (if overscan \<noteq> 0 then skipBits 1 b3 else b3);
     (signal, b5) \<leftarrow> get1Bit b4;
     b6 \<leftarrow> (if signal \<noteq> 0 then do { (colour, b) \<leftarrow> get1Bit (skipBits 4 b5); Some (if colour \<noteq> 0 then skipBits 24 b else b) }
           else Some b5);
     (chroma, b7) \<leftarrow> get1Bit b6;
     if chroma \<noteq> 0 then skipExpGolombs 2 b7 else Some b7
   }"

definition analyzeVUIParameters :: "BitVector \<Rightarrow> seqParameterSet option" where
  "analyzeVUIParameters bv = do {
     b1 \<leftarrow> videoInfo bv;
     (timing, b2) \<leftarrow> get1Bit b1;
     if timing \<noteq> 0 then do {
       (units, b3) \<leftarrow> getBits 32 b2;
       (scale, b4) \<leftarrow> getBits 32 b3;
       (fixedRate, b5) \<leftarrow> get1Bit b4;
       Some \<lparr>timeScale = scale, numUnitsInTick = units, fixedFrameRateFlag = fixedRate\<rparr>
     }
     else Some no_timing
   }"

definition analyzeSPSData :: "H264VideoStreamParser \<Rightarrow> (seqParameterSet \<times> H264VideoStreamParser) option" where
  "analyzeSPSData p = do {
     (sps, spsSize) \<leftarrow> removeEmulationBytes (replicate spsMaxSize 0) spsMaxSize p;
     (profileIdc, b1) \<leftarrow> getBits 8 (skipBits 8 (newBitVector sps 0 (8 * spsSize)));
     (constraints, b2) \<leftarrow> getBits 8 b1;
     (levelIdc, b3) \<leftarrow> getBits 8 b2;
     b4 \<leftarrow> skipExpGolombs 1 b3;
     b5 \<leftarrow> (if highProfile profileIdc then chromaInfo b4 else Some b4);
     (log2MaxFrameNumMinus4, b6) \<leftarrow> getExpGolomb b5;
     b7 \<leftarrow> picOrderInfo b6;
     b8 \<leftarrow> skipExpGolombs 1 b7;
     (gaps, b9) \<leftarrow> get1Bit b8;
     b10 \<leftarrow> skipExpGolombs 2 b9;
     (mbsOnly, b11) \<leftarrow> get1BitBoolean b10;
     (cropping, b12) \<leftarrow> get1Bit (skipBits 1 (if \<not> mbsOnly then skipBits 1 b11 else b11));
     b13 \<leftarrow> (if cropping \<noteq> 0 then skipExpGolombs 4 b12 else Some b12);
     (vui, b14) \<leftarrow> get1Bit b13;
     d \<leftarrow> (if vui \<noteq> 0 then analyzeVUIParameters b14 else Some no_timing);
     Some (d, p\<lparr>log2MaxFrameNum := log2MaxFrameNumMinus4 + 4\<rparr>)
   }"

section \<open>Supplemental enhancement information\<close>

text \<open>The two inner loops: up to the first byte that is not 255; the second one sums the bytes.\<close>

function seiField :: "bytes \<Rightarrow> nat \<Rightarrow> nat \<Rightarrow> nat \<Rightarrow> (nat \<times> nat) option" where
  "seiField sei seiSize j acc =
     (if j < length sei then
        if sei ! j = 255 \<and> j < seiSize then seiField sei seiSize (j + 1) (acc + unat (sei ! j))
        else Some (j + 1, acc + unat (sei ! j))
      else None)"
  by auto
termination by (relation "measure (\<lambda>(sei, seiSize, j, acc). length sei - j)") auto

declare seiField.simps [simp del]

lemma seiField_advances: "seiField sei n j acc = Some (j', a) \<Longrightarrow> j < j'"
  by (induction sei n j acc rule: seiField.induct) (subst (asm) (2) seiField.simps, auto split: if_splits)

function seiLoop :: "bytes \<Rightarrow> nat \<Rightarrow> nat \<Rightarrow> unit option" where
  "seiLoop sei seiSize j =
     (if j < seiSize then
        (case seiField sei seiSize j 0 of
           None \<Rightarrow> None
         | Some (j1, _) \<Rightarrow>
             if j1 \<ge> seiSize then Some ()
             else (case seiField sei seiSize j1 0 of
                     None \<Rightarrow> None
                   | Some (j2, payloadSize) \<Rightarrow>
                       if j2 \<ge> seiSize then Some () else seiLoop sei seiSize (j2 + payloadSize)))
      else Some ())"
  by auto
termination by (relation "measure (\<lambda>(sei, seiSize, j). seiSize - j)") (auto dest!: seiField_advances)

declare seiLoop.simps [simp del]

definition analyzeSEIData :: "H264VideoStreamParser \<Rightarrow> unit option" where
  "analyzeSEIData p = do {
     (sei, seiSize) \<leftarrow> removeEmulationBytes (replicate seiMaxSize 0) seiMaxSize p;
     seiLoop sei seiSize 1
   }"

end
