(* ===== verification/H264Stream.thy ===== *)
theory H264Stream
  imports H264Framer
begin

text \<open>
  The rest of \<^verbatim>\<open>livemedia/h264_video_stream_framer_linux_amd64.go\<close>, \<open>parse\<close> and the framer itself, and
  \<^verbatim>\<open>livemedia/mpeg_video_stream_framer_linux_amd64.go\<close>.

  The framer and its parser refer to each other in the code; here the parser is a field of the framer.
\<close>

section \<open>State\<close>

record TimeCode =
  days :: u64
  hours :: u64
  minutes :: u64
  seconds :: u64
  pictures :: u64

definition NewTimeCode :: TimeCode where
  "NewTimeCode = \<lparr>days = 0, hours = 0, minutes = 0, seconds = 0, pictures = 0\<rparr>"

record MPEGVideoStreamFramer = FramedSource +
  frameRate :: u64
  tcSecsBase :: u64
  pictureCount :: u64
  pictureTimeBase :: u64
  picturesAdjustment :: u64
  pictureEndMarker :: bool
  curGOPTimeCode :: TimeCode
  preGOPTimeCode :: TimeCode
  presentationTimeBase :: timeval
  parser :: H264VideoStreamParser

record H264VideoStreamFramer = MPEGVideoStreamFramer +
  lastSeenSPS :: bytes
  lastSeenPPS :: bytes
  lastSeenSPSSize :: nat
  lastSeenPPSSize :: nat
  nextPresentationTime :: timeval

definition mpeg_reset :: "timeval \<Rightarrow> 'a MPEGVideoStreamFramer_scheme \<Rightarrow> 'a MPEGVideoStreamFramer_scheme" where
  "mpeg_reset now f = f\<lparr>presentationTimeBase := now\<rparr>"

definition initMPEGVideoStreamFramer ::
  "timeval \<Rightarrow> H264VideoStreamParser \<Rightarrow> 'a MPEGVideoStreamFramer_scheme \<Rightarrow> 'a MPEGVideoStreamFramer_scheme" where
  "initMPEGVideoStreamFramer now p f = mpeg_reset now (f\<lparr>parser := p\<rparr>)"

definition newH264VideoStreamFramer :: "timeval \<Rightarrow> H264VideoStreamFramer" where
  "newH264VideoStreamFramer now =
     (let f = initMPEGVideoStreamFramer now newH264VideoStreamParser
                \<lparr>buffTo = [], maxSize = 0, frameSize = 0, numTruncatedBytes = 0, durationInMicroseconds = 0,
                 isCurrentlyAwaitingData = False, presentationTime = tv_zero, frameRate = 25, tcSecsBase = 0,
                 pictureCount = 0, pictureTimeBase = 0, picturesAdjustment = 0, pictureEndMarker = False,
                 curGOPTimeCode = NewTimeCode, preGOPTimeCode = NewTimeCode, presentationTimeBase = tv_zero,
                 parser = newH264VideoStreamParser, lastSeenSPS = [], lastSeenPPS = [], lastSeenSPSSize = 0,
                 lastSeenPPSSize = 0, nextPresentationTime = tv_zero\<rparr>
      in f\<lparr>nextPresentationTime := presentationTimeBase f\<rparr>)"

definition getSPSandPPS :: "H264VideoStreamFramer \<Rightarrow> bytes \<times> bytes \<times> nat \<times> nat" where
  "getSPSandPPS f = (lastSeenSPS f, lastSeenPPS f, lastSeenSPSSize f, lastSeenPPSSize f)"

definition saveCopyOfSPS :: "bytes \<Rightarrow> nat \<Rightarrow> H264VideoStreamFramer \<Rightarrow> H264VideoStreamFramer" where
  "saveCopyOfSPS from sz f = f\<lparr>lastSeenSPS := copy_at (replicate sz 0) 0 from, lastSeenSPSSize := sz\<rparr>"

definition saveCopyOfPPS :: "bytes \<Rightarrow> nat \<Rightarrow> H264VideoStreamFramer \<Rightarrow> H264VideoStreamFramer" where
  "saveCopyOfPPS from sz f = f\<lparr>lastSeenPPS := copy_at (replicate sz 0) 0 from, lastSeenPPSSize := sz\<rparr>"

definition setPresentationTime :: "H264VideoStreamFramer \<Rightarrow> H264VideoStreamFramer" where
  "setPresentationTime f = f\<lparr>presentationTime := nextPresentationTime f\<rparr>"

text \<open>\<open>parseSPropParameterSets\<close> finds no record in any string, so \<open>setSPSandPPS\<close> goes over an empty list.\<close>

definition parseSPropParameterSets :: "string \<Rightarrow> bytes list" where
  "parseSPropParameterSets sPropParameterSetsStr = []"

fun setSPropRecords :: "bytes list \<Rightarrow> H264VideoStreamFramer \<Rightarrow> H264VideoStreamFramer" where
  "setSPropRecords [] f = f"
| "setSPropRecords (r # rs) f =
     setSPropRecords rs
       (case r of
          [] \<Rightarrow> f
        | b # _ \<Rightarrow> if b AND 0x1F = 7 then saveCopyOfSPS r (length r) f
                  else if b AND 0x1F = 8 then saveCopyOfPPS r (length r) f else f)"

definition setSPSandPPS :: "string \<Rightarrow> H264VideoStreamFramer \<Rightarrow> H264VideoStreamFramer" where
  "setSPSandPPS str f = setSPropRecords (parseSPropParameterSets str) f"

section \<open>The phases of parse\<close>

definition lift_parser ::
  "(H264VideoStreamParser \<Rightarrow> ('r, H264VideoStreamParser) scan) \<Rightarrow> H264VideoStreamFramer \<Rightarrow> ('r, H264VideoStreamFramer) scan" where
  "lift_parser op f =
     (case op (parser f) of
        Ready a p \<Rightarrow> Ready a (f\<lparr>parser := p\<rparr>)
      | MustRead off n p \<Rightarrow> MustRead off n (f\<lparr>parser := p\<rparr>)
      | AtEnd p \<Rightarrow> AtEnd (f\<lparr>parser := p\<rparr>)
      | Crash \<Rightarrow> Crash)"

definition nalRefIdcOf :: "u64 \<Rightarrow> u64" where "nalRefIdcOf b = drop_bit 5 (b AND 0x60)"
definition nalUnitTypeOf :: "u64 \<Rightarrow> u64" where "nalUnitTypeOf b = b AND 0x1F"

definition analyzeNAL :: "u64 \<Rightarrow> H264VideoStreamFramer \<Rightarrow> H264VideoStreamFramer option" where
  "analyzeNAL nalUnitType f =
     (let p = parser f; sz = usub (numSavedBytes p) (outputStartCodeSize p) in
      if nalUnitType = 6 then do { _ \<leftarrow> analyzeSEIData p; Some f }
      else if nalUnitType = 7 then do {
        from \<leftarrow> slice_from (frameBuf p) (outputStartCodeSize p);
        let f1 = saveCopyOfSPS from sz f;
        (spsData, p1) \<leftarrow> analyzeSPSData p;
        let f2 = f1\<lparr>parser := p1\<rparr>;
        Some (if timeScale spsData > 0 \<and> numUnitsInTick spsData > 0
              then f2\<lparr>frameRate := timeScale spsData div (2 * numUnitsInTick spsData)\<rparr> else f2)
      }
      else if nalUnitType = 8 then do {
        from \<leftarrow> slice_from (frameBuf p) (outputStartCodeSize p);
        Some (saveCopyOfPPS from sz f)
      }
      else Some f)"

text \<open>Both NAL units are slices: do their headers belong to different pictures?\<close>

definition slicesDiffer :: "bool \<Rightarrow> sliceHeader \<Rightarrow> sliceHeader \<Rightarrow> bool" where
  "slicesDiffer nextIdrPicFlag thisHeader nextHeader \<longleftrightarrow>
     frameNum nextHeader \<noteq> frameNum thisHeader \<or>
     picParameterSetID nextHeader \<noteq> picParameterSetID thisHeader \<or>
     fieldPicFlag nextHeader \<noteq> fieldPicFlag thisHeader \<or>
     bottomFieldFlag nextHeader \<noteq> bottomFieldFlag thisHeader \<or>
     nextIdrPicFlag \<and> idrPicID nextHeader \<noteq> idrPicID thisHeader"

definition isSlice :: "u64 \<Rightarrow> bool" where
  "isSlice t \<longleftrightarrow> t = 1 \<or> t = 2 \<or> t = 5"

definition endsAccessUnit :: "u64 \<Rightarrow> u64 \<Rightarrow> H264VideoStreamParser \<Rightarrow> (bool, H264VideoStreamParser) scan" where
  "endsAccessUnit nalRefIdc nalUnitType p =
     (if haveSeenEOF p then Ready True p
      else if \<not> (nalUnitType \<le> 5 \<and> nalUnitType > 0) then Ready False p
      else scan_bind (testBytes 1 p) (\<lambda>first p1.
        case idx first 0 of
          None \<Rightarrow> Crash
        | Some b \<Rightarrow>
            (let nextNalRefIdc = nalRefIdcOf (ucast b);
                 nextNalUnitType = nalUnitTypeOf (ucast b);
                 idrPicFlag = (nalUnitType = 5);
                 nextIdrPicFlag = (nextNalUnitType = 5)
             in if nextNalUnitType \<ge> 6 then Ready True p1
                else if nextIdrPicFlag \<noteq> idrPicFlag then Ready True p1
                else if nextNalRefIdc \<noteq> nalRefIdc \<and> nextNalRefIdc * nalRefIdc = 0 then Ready True p1
                else if isSlice nalUnitType \<and> isSlice nextNalUnitType then
                  (case do { s \<leftarrow> slice_from (frameBuf p1) (outputStartCodeSize p1); analyzeSliceHeader s nalUnitType p1 } of
                     None \<Rightarrow> Crash
                   | Some thisHeader \<Rightarrow>
                       scan_bind (testBytes numNextSliceHeaderBytesToAnalyze p1) (\<lambda>nextBytes p2.
                         case analyzeSliceHeader nextBytes nextNalUnitType p2 of
                           None \<Rightarrow> Crash
                         | Some nextHeader \<Rightarrow> Ready (slicesDiffer nextIdrPicFlag thisHeader nextHeader) p2))
                else Ready False p1)))"

text \<open>\<open>uint(x)\<close> for a \<open>float32\<close>: a value out of range gives \<open>2 ^ 63\<close>.\<close>

definition fl_to_uint64 :: "float \<Rightarrow> u64" where
  "fl_to_uint64 a =
     (case a of
        Fin x \<Rightarrow> (if -1 < x \<and> x < 2 ^ 64 then word_of_int (if 0 \<le> x then \<lfloor>x\<rfloor> else 0) else 2 ^ 63)
      | _ \<Rightarrow> 2 ^ 63)"

definition advancePicture :: "H264VideoStreamFramer \<Rightarrow> H264VideoStreamFramer" where
  "advancePicture f =
     (let t = presentationTime f;
          million = fl_of_int F32 1000000;
          nextFraction = fl_add F32 (fl_div F32 (fl_of_int F32 (tv_usec t)) million)
                                    (fl_div F32 (Fin 1) (fl_of_int F32 (uint (frameRate f))));
          nextSecsIncrement = fl_of_int F32 (uint (fl_to_uint64 nextFraction))
      in f\<lparr>pictureCount := pictureCount f + 1, pictureEndMarker := True,
           nextPresentationTime :=
             \<lparr>tv_sec = i64 (tv_sec t + fl_to_int64 nextSecsIncrement),
              tv_usec = fl_to_int64 (fl_mul F32 (fl_sub F32 nextFraction nextSecsIncrement) million)\<rparr>\<rparr>)"

definition parse :: "H264VideoStreamFramer \<Rightarrow> (nat, H264VideoStreamFramer) scan" where
  "parse f0 =
     scan_bind (lift_parser readNAL f0) (\<lambda>_ f1.
       let b = firstByteOfNALUnit (parser f1);
           f2 = f1\<lparr>parser := (parser f1)\<lparr>haveSeenFirstByteOfNALUnit := False\<rparr>\<rparr>
       in scan_bind (or_crash (analyzeNAL (nalUnitTypeOf b) f2)) (\<lambda>_ f3.
         scan_bind (lift_parser (endsAccessUnit (nalRefIdcOf b) (nalUnitTypeOf b)) (setPresentationTime f3)) (\<lambda>ends f4.
           let f5 = (if ends then advancePicture f4 else f4)
           in Ready (curFrameSize (parser f5)) (f5\<lparr>parser := setParseState (parser f5)\<rparr>))))"

section \<open>MPEGVideoStreamFramer\<close>

text \<open>One call of \<open>continueReadProcessing\<close>: a frame is delivered, or bytes are asked for, or the stream has ended.\<close>

datatype framer_result =
    FrameReady nat nat timeval H264VideoStreamFramer
  | NeedInput nat nat H264VideoStreamFramer
  | EndOfStream H264VideoStreamFramer

definition continueReadProcessing :: "H264VideoStreamFramer \<Rightarrow> framer_result option" where
  "continueReadProcessing f =
     (case parse f of
        Crash \<Rightarrow> None
      | MustRead off n f1 \<Rightarrow> Some (NeedInput off n f1)
      | AtEnd f1 \<Rightarrow> Some (EndOfStream f1)
      | Ready acquiredFrameSize f1 \<Rightarrow>
          (let f2 = f1\<lparr>buffTo := frameBuf (parser f1), frameSize := acquiredFrameSize,
                      numTruncatedBytes := parserTruncatedBytes (parser f1),
                      durationInMicroseconds :=
                        (if frameRate f1 = 0 then 0 else unat (pictureCount f1 * 1000000 div frameRate f1)),
                      pictureCount := 0\<rparr>;
               (f3, n, dur, pt) = afterGetting f2
           in Some (FrameReady n dur pt f3)))"

definition mpeg_doGetNextFrame :: "H264VideoStreamFramer \<Rightarrow> framer_result option" where
  "mpeg_doGetNextFrame f =
     continueReadProcessing (f\<lparr>parser := registerReadInterest (buffTo f) (maxSize f) (parser f)\<rparr>)"

text \<open>The bytes asked for have been read.\<close>

definition inputArrived :: "bytes \<Rightarrow> timeval \<Rightarrow> H264VideoStreamFramer \<Rightarrow> framer_result option" where
  "inputArrived d pt f =
     continueReadProcessing (f\<lparr>parser := afterGettingBytes (length d) pt (fillBank d (parser f))\<rparr>)"

text \<open>Presentation time from the time code of the last group of pictures, in unsigned arithmetic.\<close>

function pictureTimeLoop :: "u64 \<Rightarrow> u64 \<Rightarrow> u64 \<Rightarrow> u64 \<times> u64" where
  "pictureTimeLoop base pictureTime tcSecs =
     (if pictureTime < base
      then pictureTimeLoop base (pictureTime + 1) (if tcSecs > 0 then tcSecs - 1 else tcSecs)
      else (pictureTime, tcSecs))"
  by auto
termination
proof (relation "measure (\<lambda>(b, t, s). unat (b - t))", goal_cases)
  case (2 base t s)
  then have "base - t \<noteq> 0" by auto
  then have "unat (base - t - 1) < unat (base - t)" by (rule measure_unat)
  then show ?case by (simp add: diff_diff_add)
qed simp

declare pictureTimeLoop.simps [simp del]

definition computePresentationTime :: "u64 \<Rightarrow> 'a MPEGVideoStreamFramer_scheme \<Rightarrow> 'a MPEGVideoStreamFramer_scheme" where
  "computePresentationTime numAdditionalPictures f =
     (let tc = curGOPTimeCode f;
          tcSecs0 = ((days tc * 24 + hours tc) * 60 + minutes tc) * 60 + seconds tc - tcSecsBase f;
          t0 = (if frameRate f = 0 then 0
                else (pictures tc + picturesAdjustment f + numAdditionalPictures) div frameRate f);
          (t1, tcSecs) = pictureTimeLoop (pictureTimeBase f) t0 tcSecs0;
          pictureSeconds = t1 - pictureTimeBase f;
          pictureFractionOfSecond = (t1 - pictureTimeBase f) - pictureSeconds;
          base = presentationTimeBase f;
          sec = i64 (tv_sec base + sint (tcSecs + pictureSeconds));
          us = i64 (tv_usec base + sint (pictureFractionOfSecond * 1000000))
      in f\<lparr>presentationTime :=
            (if us \<ge> 1000000 then \<lparr>tv_sec = i64 (sec + 1), tv_usec = us - 1000000\<rparr> else \<lparr>tv_sec = sec, tv_usec = us\<rparr>)\<rparr>)"

end
