(* ===== verification/NalSplit.thy ===== *)
theory NalSplit
  imports H264Stream
begin

text \<open>
  The cut of a byte stream into NAL units: the scan of \<open>readNAL\<close>, which looks at four bytes at a time and skips four where it
  can, finds exactly the first start code.

  \<open>ahead p\<close> are the bytes in the bank that are not yet parsed. The specification is in terms of them: \<open>at_code bs\<close>
  holds where a start code begins, and a NAL unit ends at the first such place.
\<close>

section \<open>Four bytes as a word\<close>

definition w4 :: "byte \<Rightarrow> byte \<Rightarrow> byte \<Rightarrow> byte \<Rightarrow> u64" where
  "w4 a b c d = ucast (push_bit 24 (ucast a) OR push_bit 16 (ucast b) OR push_bit 8 (ucast c) OR ucast d :: u32)"

lemma bit_w4:
  "bit (w4 a b c d) k \<longleftrightarrow> k < 32 \<and> (k < 8 \<and> bit d k \<or> 8 \<le> k \<and> k < 16 \<and> bit c (k - 8) \<or>
     16 \<le> k \<and> k < 24 \<and> bit b (k - 16) \<or> 24 \<le> k \<and> bit a (k - 24))"
  using byte_ranges [of k] by (elim disjE) (auto simp: w4_def bit_simps dest: bit_imp_le_length)

lemma w4_bytes [simp]:
  "ucast (drop_bit 24 (w4 a b c d)) = a" "ucast (drop_bit 16 (w4 a b c d)) = b"
  "ucast (drop_bit 8 (w4 a b c d)) = c" "ucast (w4 a b c d) = d"
  by (rule bit_word_eqI, auto simp: bit_w4 bit_simps dest: bit_imp_le_length)+

lemma w4_first: "drop_bit 24 (w4 a b c d) = ucast a"
  by (rule bit_word_eqI) (auto simp: bit_w4 bit_simps dest: bit_imp_le_length)

lemma w4_low: "w4 a b c d AND 0xFF = ucast d"
proof -
  have n: "(0xFF :: u64) = mask 8" by (simp add: mask_eq_exp_minus_1)
  have m: "bit (0xFF :: u64) k \<longleftrightarrow> k < 8" for k by (simp only: n bit_mask_iff) auto
  show ?thesis
    by (intro bit_word_eqI) (auto simp: bit_w4 bit_and_iff bit_ucast_iff m simp del: bit_numeral_word_iff dest: bit_imp_le_length)
qed

lemma w4_high: "w4 a b c d AND 0xFFFFFF00 = w4 a b c 0"
proof -
  have n: "(0xFFFFFF00 :: u64) = push_bit 8 (mask 24)" by (simp add: mask_eq_exp_minus_1)
  have m: "bit (0xFFFFFF00 :: u64) k \<longleftrightarrow> 8 \<le> k \<and> k < 32" for k
    by (simp only: n bit_push_bit_iff bit_mask_iff) auto
  show ?thesis
    by (intro bit_word_eqI) (auto simp: bit_w4 bit_and_iff m simp del: bit_numeral_word_iff)
qed

lemma w4_inj: "w4 a b c d = w4 a' b' c' d' \<longleftrightarrow> a = a' \<and> b = b' \<and> c = c' \<and> d = d'"
  by (metis w4_bytes)

lemma w4_1: "1 = w4 0 0 0 1" and w4_100: "0x100 = w4 0 0 1 0"
  by (simp_all add: w4_def)

lemma w4_starts: "startsCode (w4 a b c d) \<longleftrightarrow> a = 0 \<and> b = 0 \<and> (c = 0 \<and> d = 1 \<or> c = 1)"
  unfolding startsCode_def w4_high w4_1 w4_100 w4_inj by auto

lemma w4_last: "w4 a b c d AND 0xFF > 1 \<longleftrightarrow> d > 1"
proof -
  have "uint (ucast d :: u64) = uint d" by (simp add: uint_up_ucast is_up)
  then show ?thesis unfolding w4_low by (simp add: word_less_def)
qed

section \<open>The bytes ahead\<close>

definition ahead :: "'a StreamParser_scheme \<Rightarrow> bytes" where
  "ahead p = take (totNumValidBytes p - curParserIndex p) (drop (curParserIndex p) (curBank p))"

definition parser_ok :: "'a MPEGVideoStreamParser_scheme \<Rightarrow> bool" where
  "parser_ok p \<longleftrightarrow> curParserIndex p \<le> totNumValidBytes p \<and> totNumValidBytes p \<le> length (curBank p) \<and>
     numSavedBytes p \<le> numLimitBytes p \<and> numLimitBytes p \<le> length (frameBuf p)"

definition savedBytes :: "'a MPEGVideoStreamParser_scheme \<Rightarrow> bytes" where
  "savedBytes p = take (numSavedBytes p) (frameBuf p)"

lemma curBank_simps [simp]:
  "curBank (p\<lparr>curParserIndex := n\<rparr>) = curBank p"
  "curBank (q\<lparr>frameBuf := f, numSavedBytes := n\<rparr>) = curBank q"
  "curBank (r\<lparr>firstByteOfNALUnit := b\<rparr>) = curBank r"
  "curBank (r\<lparr>haveSeenFirstByteOfNALUnit := x\<rparr>) = curBank r"
  by (simp_all add: curBank_def)

lemma length_ahead: "parser_ok p \<Longrightarrow> length (ahead p) = totNumValidBytes p - curParserIndex p"
  by (auto simp: ahead_def parser_ok_def min_def)

lemma test4Bytes_ahead:
  assumes "parser_ok p" and "ahead p = a # b # c # d # r"
  shows "test4Bytes p = Ready (w4 a b c d) p"
proof -
  have len: "4 \<le> totNumValidBytes p - curParserIndex p" using length_ahead [OF assms(1)] assms(2) by simp
  have "take 4 (drop (curParserIndex p) (curBank p)) = take 4 (ahead p)" using len by (simp add: ahead_def min_def)
  then have "take 4 (drop (curParserIndex p) (curBank p)) = [a, b, c, d]" using assms(2) by simp
  then show ?thesis
    using len assms(1)
    by (auto simp: test4Bytes_def ensureValidBytes_def nextToParse_def parser_ok_def w4_def)
qed

lemma skipBytes_ahead:
  assumes "parser_ok p" and "n \<le> length (ahead p)"
  shows "\<exists>q. skipBytes n p = Ready () q \<and> q = p\<lparr>curParserIndex := curParserIndex p + n\<rparr> \<and> ahead q = drop n (ahead p) \<and> parser_ok q"
proof -
  let ?q = "p\<lparr>curParserIndex := curParserIndex p + n\<rparr>"
  have le: "curParserIndex p + n \<le> totNumValidBytes p"
    using assms length_ahead [OF assms(1)] by (auto simp: parser_ok_def)
  then have "skipBytes n p = Ready () ?q" by (simp add: skipBytes_Ready)
  moreover have "ahead ?q = drop n (ahead p)" by (simp add: ahead_def drop_take add.commute)
  moreover have "parser_ok ?q" using assms(1) le by (simp add: parser_ok_def)
  ultimately show ?thesis by blast
qed

lemma setParseState_ahead [simp]:
  "ahead (setParseState p) = ahead p" "parser_ok (setParseState p) \<longleftrightarrow> parser_ok p" "savedBytes (setParseState p) = savedBytes p"
  "numSavedBytes (setParseState p) = numSavedBytes p" "numLimitBytes (setParseState p) = numLimitBytes p"
  by (simp_all add: ahead_def parser_ok_def savedBytes_def setParseState_def saveParserState_def curBank_def)

text \<open>The fields that the scan leaves alone.\<close>

definition rest_of :: "'a MPEGVideoStreamParser_scheme \<Rightarrow> 'a MPEGVideoStreamParser_scheme" where
  "rest_of p = p\<lparr>curParserIndex := 0, savedParserIndex := 0, savedRemainingUnparsedBits := 0, frameBuf := [], numSavedBytes := 0,
     savedCurFrameSize := 0, savedNumTruncatedBytes := 0\<rparr>"

lemma rest_of_simps [simp]:
  "rest_of (p\<lparr>curParserIndex := n\<rparr>) = rest_of p" "rest_of (p\<lparr>frameBuf := f, numSavedBytes := n\<rparr>) = rest_of p"
  "rest_of (setParseState p) = rest_of p"
  by (simp_all add: rest_of_def setParseState_def saveParserState_def)

lemma saveByte_saves:
  assumes "parser_ok p" and "numSavedBytes p < numLimitBytes p"
  shows "\<exists>q. saveByte b p = Some q \<and> rest_of q = rest_of p \<and> numSavedBytes q = numSavedBytes p + 1 \<and>
    numLimitBytes q = numLimitBytes p \<and> length (frameBuf q) = length (frameBuf p) \<and> ahead q = ahead p \<and>
    savedBytes q = savedBytes p @ [ucast b] \<and> parser_ok q"
proof -
  let ?q = "p\<lparr>frameBuf := (frameBuf p)[numSavedBytes p := ucast b], numSavedBytes := numSavedBytes p + 1\<rparr>"
  have "saveByte b p = Some ?q" using assms by (simp add: saveByte_def parser_ok_def)
  moreover have "ahead ?q = ahead p" by (simp add: ahead_def)
  moreover have "savedBytes ?q = savedBytes p @ [ucast b]"
    using assms by (simp add: savedBytes_def parser_ok_def take_Suc_conv_app_nth)
  moreover have "parser_ok ?q" using assms by (simp add: parser_ok_def)
  ultimately show ?thesis by (intro exI [of _ ?q]) simp
qed

lemma four_bytes: "4 \<le> length bs \<Longrightarrow> \<exists>a b c d r. bs = a # b # c # d # r"
  by (cases bs, simp, cases "tl bs", simp, cases "tl (tl bs)", simp, cases "tl (tl (tl bs))") auto

lemma take_four_updates:
  assumes "n + 3 < length xs"
  shows "take (n + 4) (xs[n := a, n + 1 := b, n + 2 := c, n + 3 := d]) = take n xs @ [a, b, c, d]"
proof -
  have "4 \<le> length (drop n xs)" using assms by simp
  then obtain a' b' c' d' r where "drop n xs = a' # b' # c' # d' # r" using four_bytes by blast
  then have xs: "xs = take n xs @ a' # b' # c' # d' # r" by (metis append_take_drop_id)
  define ys where "ys = take n xs"
  have len: "length ys = n" using assms by (simp add: ys_def)
  have "xs = ys @ a' # b' # c' # d' # r" using xs by (simp add: ys_def)
  then show ?thesis using len by (simp add: list_update_append ys_def [symmetric])
qed

lemma save4Bytes_saves:
  assumes "parser_ok p" and "numSavedBytes p + 4 \<le> numLimitBytes p"
  shows "\<exists>q. save4Bytes (w4 a b c d) p = Some q \<and> rest_of q = rest_of p \<and> numSavedBytes q = numSavedBytes p + 4 \<and>
    numLimitBytes q = numLimitBytes p \<and> length (frameBuf q) = length (frameBuf p) \<and> ahead q = ahead p \<and>
    savedBytes q = savedBytes p @ [a, b, c, d] \<and> parser_ok q"
proof -
  let ?n = "numSavedBytes p"
  let ?q = "p\<lparr>frameBuf := (frameBuf p)[?n := a, ?n + 1 := b, ?n + 2 := c, ?n + 3 := d], numSavedBytes := ?n + 4\<rparr>"
  have len: "?n + 3 < length (frameBuf p)" using assms by (simp add: parser_ok_def)
  have "save4Bytes (w4 a b c d) p = Some ?q" using assms len by (simp add: save4Bytes_def)
  moreover have "ahead ?q = ahead p" by (simp add: ahead_def)
  moreover have "savedBytes ?q = savedBytes p @ [a, b, c, d]"
    unfolding savedBytes_def using take_four_updates [OF len] by simp
  moreover have "parser_ok ?q" using assms by (simp add: parser_ok_def)
  ultimately show ?thesis by (intro exI [of _ ?q]) simp
qed

section \<open>The scan finds the first start code\<close>

definition at_code :: "bytes \<Rightarrow> bool" where
  "at_code bs \<longleftrightarrow> 4 \<le> length bs \<and> (take 4 bs = [0, 0, 0, 1] \<or> take 3 bs = [0, 0, 1])"

definition code_at :: "bytes \<Rightarrow> nat" where
  "code_at bs = (if take 4 bs = [0, 0, 0, 1] then 4 else 3)"

text \<open>\<open>nal\<close> is what comes before the first start code of \<open>nal @ code\<close>.\<close>

definition first_nal :: "bytes \<Rightarrow> bytes \<Rightarrow> bool" where
  "first_nal nal code \<longleftrightarrow> at_code code \<and> (\<forall>i < length nal. \<not> at_code (drop i (nal @ code)))"

lemma at_code_cases:
  assumes "at_code bs"
  obtains a b c d r where "bs = a # b # c # d # r" "a = 0" "b = 0" "c = 0 \<and> d = 1 \<or> c = 1"
proof -
  have "4 \<le> length bs" using assms by (simp add: at_code_def)
  then obtain a b c d r where bs: "bs = a # b # c # d # r" using four_bytes by blast
  with assms have "a = 0 \<and> b = 0 \<and> (c = 0 \<and> d = 1 \<or> c = 1)" by (auto simp: at_code_def)
  with bs that show thesis by blast
qed

lemma at_code_word: "at_code (a # b # c # d # r) \<longleftrightarrow> startsCode (w4 a b c d)"
  by (auto simp: at_code_def w4_starts)

lemma first_nal_drop:
  assumes "first_nal (xs @ nal) code"
  shows "first_nal nal code"
  unfolding first_nal_def
proof (intro conjI allI impI)
  show "at_code code" using assms by (simp add: first_nal_def)
  fix i
  assume "i < length nal"
  then have "length xs + i < length (xs @ nal)" by simp
  with assms have "\<not> at_code (drop (length xs + i) ((xs @ nal) @ code))" unfolding first_nal_def by blast
  then show "\<not> at_code (drop i (nal @ code))" by simp
qed

text \<open>Where the last of four bytes is greater than 1, no start code begins in them.\<close>

lemma four_bytes_of_nal:
  assumes "first_nal nal code" and "nal @ code = a # b # c # d # r" and "nal \<noteq> []" and "d > 1"
  shows "\<exists>nal'. nal = a # b # c # d # nal'"
proof -
  obtain c0 c1 c2 c3 t where code: "code = c0 # c1 # c2 # c3 # t" "c0 = 0" "c1 = 0" "c2 = 0 \<and> c3 = 1 \<or> c2 = 1"
    using assms(1) unfolding first_nal_def by (elim conjE at_code_cases) blast
  have "4 \<le> length nal"
  proof (rule ccontr)
    assume "\<not> 4 \<le> length nal"
    moreover have "length nal \<noteq> 0" using assms(3) by simp
    ultimately have "length nal = 1 \<or> length nal = 2 \<or> length nal = 3" by linarith
    then consider x where "nal = [x]" | x y where "nal = [x, y]" | x y z where "nal = [x, y, z]"
      by (auto simp: length_Suc_conv numeral_eq_Suc)
    then have "d = c2 \<or> d = c1 \<or> d = c0" using assms(2) code by cases auto
    then show False using code assms(4) by auto
  qed
  then obtain a' b' c' d' nal' where "nal = a' # b' # c' # d' # nal'" using four_bytes by blast
  then show ?thesis using assms(2) by auto
qed

lemma saveSome_saves:
  assumes ok: "parser_ok p" and a: "ahead p = nal @ code" and f: "first_nal nal code" and "nal \<noteq> []"
    and room: "numSavedBytes p + length nal \<le> numLimitBytes p"
    and bs: "nal @ code = a # b # c # d # r"
  shows "\<exists>x nal' q. nal = x @ nal' \<and> x \<noteq> [] \<and> saveSome (w4 a b c d) p = Ready () q \<and> ahead q = nal' @ code \<and>
    savedBytes q = savedBytes p @ x \<and> parser_ok q \<and> numSavedBytes q = numSavedBytes p + length x \<and>
    numLimitBytes q = numLimitBytes p \<and> rest_of q = rest_of p"
proof (cases "d > 1")
  case True
  then obtain nal' where nal': "nal = [a, b, c, d] @ nal'" using four_bytes_of_nal [OF f bs assms(4)] by auto
  then have "numSavedBytes p + 4 \<le> numLimitBytes p" using room by simp
  from save4Bytes_saves [OF ok this] obtain q where q: "save4Bytes (w4 a b c d) p = Some q" "rest_of q = rest_of p"
    "numSavedBytes q = numSavedBytes p + 4" "numLimitBytes q = numLimitBytes p" "ahead q = ahead p"
    "savedBytes q = savedBytes p @ [a, b, c, d]" "parser_ok q" by blast
  have "4 \<le> length (ahead q)" using q(5) a nal' by simp
  from skipBytes_ahead [OF q(7) this] obtain q' where q': "skipBytes 4 q = Ready () q'"
    "q' = q\<lparr>curParserIndex := curParserIndex q + 4\<rparr>" "ahead q' = drop 4 (ahead q)" "parser_ok q'" by blast
  have "saveSome (w4 a b c d) p = Ready () q'" using q(1) q'(1) True by (simp add: saveSome_def w4_last)
  moreover have "savedBytes q' = savedBytes q" "numSavedBytes q' = numSavedBytes q" "numLimitBytes q' = numLimitBytes q"
    "rest_of q' = rest_of q" unfolding q'(2) by (simp_all add: savedBytes_def)
  ultimately show ?thesis
    using q q'(3,4) nal' a by (intro exI [of _ "[a, b, c, d]"] exI [of _ nal'] exI [of _ q']) simp
next
  case False
  obtain nal' where nal': "nal = [a] @ nal'" using bs assms(4) by (cases nal) auto
  then have "numSavedBytes p < numLimitBytes p" using room by simp
  from saveByte_saves [OF ok this, of "drop_bit 24 (w4 a b c d)"] obtain q where q:
    "saveByte (drop_bit 24 (w4 a b c d)) p = Some q" "rest_of q = rest_of p"
    "numSavedBytes q = numSavedBytes p + 1" "numLimitBytes q = numLimitBytes p" "ahead q = ahead p"
    "savedBytes q = savedBytes p @ [a]" "parser_ok q" by auto
  have "1 \<le> length (ahead q)" using q(5) a nal' by simp
  from skipBytes_ahead [OF q(7) this] obtain q' where q': "skipBytes 1 q = Ready () q'"
    "q' = q\<lparr>curParserIndex := curParserIndex q + 1\<rparr>" "ahead q' = drop 1 (ahead q)" "parser_ok q'" by blast
  have "saveSome (w4 a b c d) p = Ready () q'" using q(1) q'(1) False by (simp add: saveSome_def w4_last)
  moreover have "savedBytes q' = savedBytes q" "numSavedBytes q' = numSavedBytes q" "numLimitBytes q' = numLimitBytes q"
    "rest_of q' = rest_of q" unfolding q'(2) by (simp_all add: savedBytes_def)
  ultimately show ?thesis
    using q q'(3,4) nal' a by (intro exI [of _ "[a]"] exI [of _ nal'] exI [of _ q']) simp
qed

lemma code_word:
  assumes "first_nal nal code" and "nal @ code = a # b # c # d # r"
  shows "startsCode (w4 a b c d) \<longleftrightarrow> nal = []"
proof (cases nal)
  case Nil
  then show ?thesis using assms by (simp add: first_nal_def flip: at_code_word [of a b c d r])
next
  case (Cons x xs)
  then have "0 < length nal" by simp
  with assms(1) have "\<not> at_code (drop 0 (nal @ code))" unfolding first_nal_def by blast
  then show ?thesis using assms(2) Cons by (simp add: at_code_word)
qed

lemma code_long: "first_nal nal code \<Longrightarrow> \<exists>a b c d r. nal @ code = a # b # c # d # r"
  by (intro four_bytes) (simp add: first_nal_def at_code_def)

lemma saveLoop_saves:
  assumes "parser_ok p" and "ahead p = nal @ code" and "first_nal nal code"
    and "numSavedBytes p + length nal \<le> numLimitBytes p"
    and "nal @ code = a # b # c # d # r"
  shows "\<exists>a' b' c' d' r' q. saveLoop (w4 a b c d) p = Ready (w4 a' b' c' d') q \<and> code = a' # b' # c' # d' # r' \<and> ahead q = code \<and>
    savedBytes q = savedBytes p @ nal \<and> numSavedBytes q = numSavedBytes p + length nal \<and> parser_ok q \<and> rest_of q = rest_of p"
  using assms
proof (induction "length nal" arbitrary: p nal a b c d r rule: less_induct)
  case less
  show ?case
  proof (cases "nal = []")
    case True
    then have "saveLoop (w4 a b c d) p = Ready (w4 a b c d) p"
      using code_word [OF less.prems(3,5)] by (subst saveLoop.simps) simp
    then show ?thesis using less.prems True by auto
  next
    case False
    obtain x nal' q where q: "nal = x @ nal'" "x \<noteq> []" "saveSome (w4 a b c d) p = Ready () q" "ahead q = nal' @ code"
      "savedBytes q = savedBytes p @ x" "parser_ok q" "numSavedBytes q = numSavedBytes p + length x"
      "numLimitBytes q = numLimitBytes p" "rest_of q = rest_of p"
      using saveSome_saves [OF less.prems(1-3) False less.prems(4,5)] by blast
    let ?q = "setParseState q"
    have f: "first_nal nal' code" using less.prems(3) q(1) first_nal_drop by blast
    obtain a' b' c' d' r' where bs: "nal' @ code = a' # b' # c' # d' # r'" using code_long [OF f] by blast
    have t: "test4Bytes ?q = Ready (w4 a' b' c' d') ?q" using test4Bytes_ahead [of ?q] q(4,6) bs by simp
    have step: "saveLoop (w4 a b c d) p = saveLoop (w4 a' b' c' d') ?q"
      using code_word [OF less.prems(3,5)] False q(3) t by (subst saveLoop.simps) simp
    have "length nal' < length nal" using q(1,2) by simp
    from less.hyps [OF this, of ?q a' b' c' d' r'] q f bs less.prems(4)
    show ?thesis unfolding step by auto
  qed
qed

lemma rest_of_fields:
  assumes "rest_of q = rest_of p"
  shows "haveSeenEOF q = haveSeenEOF p" "numLimitBytes q = numLimitBytes p" "MPEGVideoStreamParser.more q = MPEGVideoStreamParser.more p"
    "curBank q = curBank p" "totNumValidBytes q = totNumValidBytes p"
proof -
  have *: "haveSeenEOF p = haveSeenEOF (rest_of p)" "numLimitBytes p = numLimitBytes (rest_of p)"
    "MPEGVideoStreamParser.more p = MPEGVideoStreamParser.more (rest_of p)" "curBank p = curBank (rest_of p)"
    "totNumValidBytes p = totNumValidBytes (rest_of p)" for p :: "'a MPEGVideoStreamParser_scheme"
    by (simp_all add: rest_of_def curBank_def)
  show "haveSeenEOF q = haveSeenEOF p" "numLimitBytes q = numLimitBytes p" "MPEGVideoStreamParser.more q = MPEGVideoStreamParser.more p"
    "curBank q = curBank p" "totNumValidBytes q = totNumValidBytes p"
    using assms by (simp_all add: * [of q] * [of p])
qed

lemma h264_more_fields:
  assumes "MPEGVideoStreamParser.more (q :: H264VideoStreamParser) = MPEGVideoStreamParser.more p"
  shows "firstByteOfNALUnit q = firstByteOfNALUnit p" "haveSeenFirstByteOfNALUnit q = haveSeenFirstByteOfNALUnit p"
    "haveSeenFirstStartCode q = haveSeenFirstStartCode p" "outputStartCodeSize q = outputStartCodeSize p"
  using assms by (cases q, cases p, simp)+

text \<open>The state in which a NAL unit is read: after a start code, with room for it in the client's buffer.\<close>

definition nal_ready :: "bytes \<Rightarrow> H264VideoStreamParser \<Rightarrow> bool" where
  "nal_ready nal p \<longleftrightarrow> parser_ok p \<and> haveSeenFirstStartCode p \<and> \<not> haveSeenEOF p \<and> outputStartCodeSize p = 0 \<and>
     \<not> haveSeenFirstByteOfNALUnit p \<and> numSavedBytes p + length nal \<le> numLimitBytes p"

lemma readNAL_cuts:
  assumes ready: "nal_ready nal p" and a: "ahead p = nal @ code" and f: "first_nal nal code"
  shows "\<exists>q. readNAL p = Ready () q \<and> savedBytes q = savedBytes p @ nal \<and> numSavedBytes q = numSavedBytes p + length nal \<and>
    ahead q = drop (code_at code) code \<and> firstByteOfNALUnit q = ucast (hd (nal @ code)) \<and> parser_ok q \<and>
    haveSeenFirstStartCode q \<and> \<not> haveSeenEOF q \<and> outputStartCodeSize q = 0 \<and> numLimitBytes q = numLimitBytes p \<and>
    totNumValidBytes q = totNumValidBytes p \<and> curBank q = curBank p"
proof -
  obtain a0 b0 c0 d0 r0 where bs: "nal @ code = a0 # b0 # c0 # d0 # r0" using code_long [OF f] by blast
  have ok: "parser_ok p" using ready by (simp add: nal_ready_def)
  let ?p = "p\<lparr>firstByteOfNALUnit := drop_bit 24 (w4 a0 b0 c0 d0), haveSeenFirstByteOfNALUnit := True\<rparr>"
  have t: "test4Bytes p = Ready (w4 a0 b0 c0 d0) p" using test4Bytes_ahead ok a bs by simp
  have p: "parser_ok ?p" "ahead ?p = nal @ code" "savedBytes ?p = savedBytes p" "numSavedBytes ?p = numSavedBytes p"
    "numLimitBytes ?p = numLimitBytes p" "curBank ?p = curBank p" "totNumValidBytes ?p = totNumValidBytes p"
    using ok a by (simp_all add: parser_ok_def ahead_def savedBytes_def)
  have "numSavedBytes ?p + length nal \<le> numLimitBytes ?p" using ready by (simp add: nal_ready_def)
  from saveLoop_saves [OF p(1,2) f this bs]
  obtain a' b' c' d' r' q where q: "saveLoop (w4 a0 b0 c0 d0) ?p = Ready (w4 a' b' c' d') q" "code = a' # b' # c' # d' # r'"
    "ahead q = code" "savedBytes q = savedBytes p @ nal" "numSavedBytes q = numSavedBytes p + length nal" "parser_ok q"
    "rest_of q = rest_of ?p" unfolding p(3,4) by blast
  let ?n = "if w4 a' b' c' d' = 0x00000001 then 4 else 3 :: nat"
  have n: "?n = code_at code" unfolding w4_1 w4_inj q(2) by (simp add: code_at_def)
  have "?n \<le> length (ahead q)" using q(2,3) by simp
  from skipBytes_ahead [OF q(6) this] obtain q' where q': "skipBytes ?n q = Ready () q'"
    "q' = q\<lparr>curParserIndex := curParserIndex q + ?n\<rparr>" "ahead q' = drop ?n (ahead q)" "parser_ok q'" by blast
  note fq = rest_of_fields [OF q(7)] and hq = h264_more_fields [OF rest_of_fields(3) [OF q(7)]]
  have "readNAL p = Ready () q'"
    using ready t q(1) q'(1) unfolding readNAL_def nal_ready_def by simp
  moreover have "firstByteOfNALUnit q' = ucast (hd (nal @ code))" unfolding q'(2) bs using hq(1) by (simp add: w4_first)
  moreover have "haveSeenFirstStartCode q'" "\<not> haveSeenEOF q'" "outputStartCodeSize q' = 0" "numLimitBytes q' = numLimitBytes p"
    "totNumValidBytes q' = totNumValidBytes p" "curBank q' = curBank p"
    unfolding q'(2) using hq fq ready p(6) by (simp_all add: nal_ready_def)
  moreover have "savedBytes q' = savedBytes p @ nal" "numSavedBytes q' = numSavedBytes p + length nal"
    unfolding q'(2) using q(4,5) by (simp_all add: savedBytes_def)
  ultimately show ?thesis using q'(3,4) q(3) n by auto
qed

section \<open>Emulation prevention\<close>

text \<open>What an encoder does (ITU-T H.264, 7.4.1): after two zero bytes, a byte of at most 3 is preceded by a 3.\<close>

fun emulate :: "nat \<Rightarrow> bytes \<Rightarrow> bytes" where
  "emulate z [] = []"
| "emulate z (b # bs) =
     (if z \<ge> 2 \<and> b \<le> 3 then 3 # b # emulate (if b = 0 then 1 else 0) bs
      else b # emulate (if b = 0 then z + 1 else 0) bs)"

fun strip :: "bytes \<Rightarrow> bytes" where
  "strip (b0 # b1 # b2 # bs) = (if b0 = 0 \<and> b1 = 0 \<and> b2 = 3 then 0 # 0 # strip bs else b0 # strip (b1 # b2 # bs))"
| "strip bs = bs"

lemma strip_plain: "b \<noteq> 0 \<Longrightarrow> strip (b # bs) = b # strip bs"
  by (cases bs rule: strip.cases) (auto split: if_splits)

lemma strip_zero_plain: "b \<noteq> 0 \<Longrightarrow> strip (0 # b # bs) = 0 # b # strip bs"
  by (cases bs) (simp_all add: strip_plain)

lemma strip_two_zeros: "b \<noteq> 3 \<Longrightarrow> b \<noteq> 0 \<Longrightarrow> strip (0 # 0 # b # bs) = 0 # 0 # b # strip bs"
  by (simp add: strip_zero_plain strip_plain)

lemma emulate_0_or_3: "z \<ge> 2 \<Longrightarrow> emulate z (b # bs) = (if b \<le> 3 then 3 # b # emulate (if b = 0 then 1 else 0) bs else b # emulate 0 bs)"
  by auto

text \<open>With the zeros that precede: none, one or two.\<close>

lemma strip_emulate_gen:
  "strip (emulate 0 bs) = bs \<and> strip (0 # emulate 1 bs) = 0 # bs \<and> strip (0 # 0 # emulate 2 bs) = 0 # 0 # bs"
proof (induction bs)
  case (Cons b bs)
  then have ih: "strip (emulate 0 bs) = bs" "strip (0 # emulate 1 bs) = 0 # bs" "strip (0 # 0 # emulate 2 bs) = 0 # 0 # bs"
    by blast+
  have z: "strip (emulate 0 (b # bs)) = b # bs"
    using ih by (cases "b = 0") (simp_all add: strip_plain)
  have o: "strip (0 # emulate 1 (b # bs)) = 0 # b # bs"
    using ih by (cases "b = 0") (simp_all add: strip_zero_plain numeral_2_eq_2)
  have t: "strip (0 # 0 # emulate 2 (b # bs)) = 0 # 0 # b # bs"
  proof (cases "b \<le> 3")
    case True
    then show ?thesis using ih by (cases "b = 0") (simp_all add: strip_plain)
  next
    case False
    then have "b \<noteq> 3" "b \<noteq> 0" by auto
    then show ?thesis using ih False by (simp add: strip_zero_plain strip_plain)
  qed
  show ?case using z o t by blast
qed simp

lemma strip_emulate: "strip (emulate 0 bs) = bs"
  using strip_emulate_gen by blast

lemma strip_step:
  "xs \<noteq> [] \<Longrightarrow> strip xs =
     (if 3 \<le> length xs \<and> take 3 xs = [0, 0, 3] then 0 # 0 # strip (drop 3 xs) else hd xs # strip (tl xs))"
  by (cases xs rule: strip.cases) auto

lemma strip_length: "length (strip xs) \<le> length xs"
  by (induction xs rule: strip.induct) auto

lemma window_step:
  assumes "i < n" and "n \<le> length (orig :: 'a list)"
  shows "take (n - i) (drop i orig) = orig ! i # take (n - (i + 1)) (drop (i + 1) orig)"
proof -
  have "n - i = Suc (n - (i + 1))" using assms(1) by simp
  moreover have "drop i orig = orig ! i # drop (i + 1) orig" using assms by (simp add: Cons_nth_drop_Suc)
  ultimately show ?thesis by (simp only: take_Suc_Cons)
qed

lemma removeLoop_strips:
  assumes "n \<le> length orig" and "i \<le> n" and "sz + (n - i) \<le> length copy"
  shows "\<exists>copy'. removeLoop orig n i copy sz = Some (copy', sz + length (strip (take (n - i) (drop i orig)))) \<and>
    length copy' = length copy \<and>
    take (sz + length (strip (take (n - i) (drop i orig)))) copy' = take sz copy @ strip (take (n - i) (drop i orig))"
  using assms
proof (induction "n - i" arbitrary: i copy sz rule: less_induct)
  case less
  let ?w = "take (n - i) (drop i orig)"
  show ?case
  proof (cases "i < n")
    case False
    then show ?thesis by (subst removeLoop.simps) simp
  next
    case True
    note w1 = window_step [OF True less.prems(1)]
    show ?thesis
    proof (cases "i + 2 < n \<and> orig ! i = 0 \<and> orig ! (i + 1) = 0 \<and> orig ! (i + 2) = 3")
      case True
      let ?copy = "copy[sz := 0, sz + 1 := 0]" and ?r = "take (n - (i + 3)) (drop (i + 3) orig)"
      have "?w = 0 # 0 # 3 # ?r"
        using w1 window_step [of "i + 1" n orig] window_step [of "i + 2" n orig] True less.prems(1) by (simp add: numeral_3_eq_3)
      then have s: "strip ?w = [0, 0] @ strip ?r" by simp
      have sz: "sz < length copy" "sz + 1 < length copy" using True less.prems by auto
      have "removeLoop orig n i copy sz = removeLoop orig n (i + 3) ?copy (sz + 2)"
        using True less.prems sz by (subst removeLoop.simps) simp
      moreover have "n - (i + 3) < n - i" "i + 3 \<le> n" "sz + 2 + (n - (i + 3)) \<le> length ?copy" using True less.prems by auto
      moreover have "take (sz + 2) ?copy = take sz copy @ [0, 0]"
        using sz by (simp add: take_Suc_conv_app_nth numeral_2_eq_2)
      ultimately show ?thesis
        using less.hyps [of "i + 3" "sz + 2" ?copy] less.prems(1) unfolding s by (auto simp: add.assoc)
    next
      case False
      let ?copy = "copy[sz := orig ! i]" and ?r = "take (n - (i + 1)) (drop (i + 1) orig)"
      have "\<not> (3 \<le> length ?w \<and> take 3 ?w = [0, 0, 3])"
      proof
        assume "3 \<le> length ?w \<and> take 3 ?w = [0, 0, 3]"
        then have "i + 2 < n" "?w ! 0 = 0" "?w ! 1 = 0" "?w ! 2 = 3"
          by (auto simp: numeral_3_eq_3 dest: arg_cong [where f = "\<lambda>l. l ! 0"] arg_cong [where f = "\<lambda>l. l ! 1"] arg_cong [where f = "\<lambda>l. l ! 2"])
        then show False using False less.prems(1) by simp
      qed
      then have s: "strip ?w = [orig ! i] @ strip ?r" using w1 by (subst strip_step) auto
      have sz: "sz < length copy" using \<open>i < n\<close> less.prems by auto
      have "removeLoop orig n i copy sz = removeLoop orig n (i + 1) ?copy (sz + 1)"
        using \<open>i < n\<close> False less.prems(1) sz by (subst removeLoop.simps) auto
      moreover have "n - (i + 1) < n - i" "i + 1 \<le> n" "sz + 1 + (n - (i + 1)) \<le> length ?copy" using \<open>i < n\<close> less.prems by auto
      moreover have "take (sz + 1) ?copy = take sz copy @ [orig ! i]"
        using \<open>i < n\<close> less.prems by (simp add: take_Suc_conv_app_nth)
      ultimately show ?thesis
        using less.hyps [of "i + 1" "sz + 1" ?copy] less.prems(1) unfolding s by (auto simp: add.assoc)
    qed
  qed
qed

lemma removeEmulationBytes_strips:
  assumes "parser_ok p" and "outputStartCodeSize p = 0" and "numSavedBytes p \<le> sz"
  shows "\<exists>copy. removeEmulationBytes (replicate sz 0) sz p = Some (copy, length (strip (savedBytes p))) \<and>
    length copy = sz \<and> take (length (strip (savedBytes p))) copy = strip (savedBytes p)"
  using removeLoop_strips [of "numSavedBytes p" "frameBuf p" 0 0 "replicate sz 0"] assms
  by (auto simp: removeEmulationBytes_def parser_ok_def savedBytes_def)

text \<open>Such a NAL unit has no start code in it; \<open>z\<close> zeros come before.\<close>

fun clean :: "nat \<Rightarrow> bytes \<Rightarrow> bool" where
  "clean z [] = True"
| "clean z (b # bs) = (if b = 0 then clean (z + 1) bs else \<not> (z \<ge> 2 \<and> b = 1) \<and> clean 0 bs)"

lemma clean_emulate: "clean z (emulate z bs)"
  by (induction bs arbitrary: z) auto

lemma clean_drop: "clean z xs \<Longrightarrow> \<exists>z'. clean z' (drop i xs)"
proof (induction i arbitrary: z xs)
  case (Suc i)
  then show ?case by (cases xs) (auto split: if_splits)
qed auto

lemma emulate_last: "bs \<noteq> [] \<Longrightarrow> emulate z bs \<noteq> [] \<and> last (emulate z bs) = last bs"
proof (induction bs arbitrary: z)
  case (Cons b bs)
  show ?case using Cons.IH [of 0] Cons.IH [of 1] Cons.IH [of "z + 1"] by (cases "bs = []") auto
qed simp

lemma clean_is_first:
  assumes "clean z nal" and "nal \<noteq> []" and "last nal \<noteq> 0"
  shows "first_nal nal (0 # 0 # 0 # 1 # rest)"
  unfolding first_nal_def
proof (intro conjI allI impI)
  show "at_code (0 # 0 # 0 # 1 # rest)" by (simp add: at_code_def)
  fix i
  assume i: "i < length nal"
  define xs where "xs = drop i nal"
  obtain z' where xs: "clean z' xs" "xs \<noteq> []" "last xs \<noteq> 0" using clean_drop [OF assms(1), of i] i assms(3) by (auto simp: xs_def)
  have "\<not> at_code (xs @ 0 # 0 # 0 # 1 # rest)"
  proof
    assume "at_code (xs @ 0 # 0 # 0 # 1 # rest)"
    then obtain a b c d r where e: "xs @ 0 # 0 # 0 # 1 # rest = a # b # c # d # r" "a = 0" "b = 0" "c = 0 \<and> d = 1 \<or> c = 1"
      by (rule at_code_cases)
    consider x where "xs = [x]" | x y where "xs = [x, y]" | x y w where "xs = [x, y, w]" | x y w v t where "xs = x # y # w # v # t"
      using xs(2) by (cases xs rule: strip.cases) (auto intro: list.exhaust)
    then show False using e xs by cases (auto split: if_splits)
  qed
  then show "\<not> at_code (drop i (nal @ 0 # 0 # 0 # 1 # rest))" using i by (simp add: xs_def)
qed

section \<open>The properties\<close>

text \<open>C2. Whatever follows the last start code, \<open>readNAL\<close> cuts off the NAL unit that ends at the first start code, of four or of
  three bytes: it appends exactly those bytes to the frame, keeps the first of them for the analysis,
  and leaves the parser behind the start code.\<close>

theorem readNAL_cuts_at_first_start_code:
  assumes "nal_ready nal p" and "ahead p = nal @ code" and "first_nal nal code"
  shows "\<exists>q. readNAL p = Ready () q \<and> savedBytes q = savedBytes p @ nal \<and> ahead q = drop (code_at code) code \<and>
    firstByteOfNALUnit q = ucast (hd (nal @ code)) \<and> parser_ok q"
  using readNAL_cuts [OF assms] by blast

definition sample_parser :: "bytes \<Rightarrow> H264VideoStreamParser" where
  "sample_parser bs =
     newH264VideoStreamParser\<lparr>totNumValidBytes := length bs, bank0 := bs, frameBuf := replicate 16 0, numLimitBytes := 16,
       haveSeenFirstStartCode := True\<rparr>"

lemma readNAL_cuts_at_first_start_code_witness:
  "\<exists>q. readNAL (sample_parser [0x65, 9, 0, 2, 0, 0, 1, 0x41, 7, 7]) = Ready () q \<and> savedBytes q = [0x65, 9, 0, 2] \<and>
     ahead q = [0x41, 7, 7] \<and> firstByteOfNALUnit q = 0x65"
proof -
  let ?p = "sample_parser [0x65, 9, 0, 2, 0, 0, 1, 0x41, 7, 7]"
  have r: "nal_ready [0x65, 9, 0, 2] ?p"
    by (simp add: nal_ready_def parser_ok_def sample_parser_def newH264VideoStreamParser_def initStreamParser_def curBank_def)
  have a: "ahead ?p = [0x65, 9, 0, 2] @ [0, 0, 1, 0x41, 7, 7]"
    by (simp add: ahead_def sample_parser_def newH264VideoStreamParser_def initStreamParser_def curBank_def)
  have f: "first_nal [0x65, 9, 0, 2] [0, 0, 1, 0x41, 7, 7]"
    by (auto simp: first_nal_def at_code_def less_Suc_eq numeral_eq_Suc)
  have s: "savedBytes ?p = []"
    by (simp add: savedBytes_def sample_parser_def newH264VideoStreamParser_def initStreamParser_def)
  show ?thesis using readNAL_cuts_at_first_start_code [OF r a f] unfolding s by (auto simp: code_at_def)
qed

text \<open>C12. A NAL unit that an encoder has protected against start code emulation is read back: it is cut off whole at the next
  start code, and \<open>removeEmulationBytes\<close> gives the header byte and the payload that the encoder had.\<close>

theorem protected_nal_unit_is_read_back:
  assumes "header \<noteq> 0" and "payload \<noteq> [] \<longrightarrow> last payload \<noteq> 0" and "nal = header # emulate 0 payload"
    and "nal_ready nal p" and "ahead p = nal @ [0, 0, 0, 1] @ rest" and "numSavedBytes p = 0" and "length nal \<le> sz"
  shows "\<exists>q copy n. readNAL p = Ready () q \<and> savedBytes q = nal \<and> ahead q = rest \<and>
    removeEmulationBytes (replicate sz 0) sz q = Some (copy, n) \<and> take n copy = header # payload"
proof -
  have "clean 0 nal" using assms(1,3) clean_emulate by simp
  moreover have "last nal \<noteq> 0" using assms(1-3) emulate_last [of payload 0] by (cases "payload = []") auto
  ultimately have "first_nal nal ([0, 0, 0, 1] @ rest)" using clean_is_first [of 0 nal rest] assms(3) by simp
  from readNAL_cuts [OF assms(4,5) this] obtain q where q: "readNAL p = Ready () q" "savedBytes q = savedBytes p @ nal"
    "numSavedBytes q = numSavedBytes p + length nal" "ahead q = drop (code_at ([0, 0, 0, 1] @ rest)) ([0, 0, 0, 1] @ rest)"
    "parser_ok q" "outputStartCodeSize q = 0" by blast
  have s: "savedBytes q = nal" "numSavedBytes q \<le> sz" using q(2,3) assms(6,7) by (simp_all add: savedBytes_def [of p])
  have "strip nal = header # payload" using assms(1,3) by (simp add: strip_plain strip_emulate)
  then show ?thesis
    using q(1,4) s(1) removeEmulationBytes_strips [OF q(5,6) s(2)] by (auto simp: code_at_def)
qed

lemma protected_nal_unit_is_read_back_witness:
  "\<exists>q copy n. readNAL (sample_parser [0x67, 0, 0, 3, 1, 9, 0, 0, 0, 1, 0x68]) = Ready () q \<and>
     removeEmulationBytes (replicate 100 0) 100 q = Some (copy, n) \<and> take n copy = [0x67, 0, 0, 1, 9]"
proof -
  let ?p = "sample_parser [0x67, 0, 0, 3, 1, 9, 0, 0, 0, 1, 0x68]"
  have r: "nal_ready [0x67, 0, 0, 3, 1, 9] ?p"
    by (simp add: nal_ready_def parser_ok_def sample_parser_def newH264VideoStreamParser_def initStreamParser_def curBank_def)
  have a: "ahead ?p = [0x67, 0, 0, 3, 1, 9] @ [0, 0, 0, 1] @ [0x68]" and s: "numSavedBytes ?p = 0"
    by (simp_all add: ahead_def sample_parser_def newH264VideoStreamParser_def initStreamParser_def curBank_def)
  have "[0x67, 0, 0, 3, 1, 9] = 0x67 # emulate 0 [0, 0, 1, 9 :: byte]" by code_simp
  from protected_nal_unit_is_read_back [OF _ _ this r a s, of 100] show ?thesis by auto
qed

end
