(* ===== verification/FramerDefects.thy ===== *)
theory FramerDefects
  imports NalSplit
begin

text \<open>
  Three inputs on which the framer does not do what it is for: a supplemental enhancement message that makes it panic, the
  change of memory banks, and the last NAL unit of a file.
\<close>

section \<open>A message of 255s\<close>

lemma seiField_all_255:
  assumes "\<forall>i. j \<le> i \<longrightarrow> i < length sei \<longrightarrow> sei ! i = 255" and "length sei \<le> n"
  shows "seiField sei n j acc = None"
  using assms
proof (induction "length sei - j" arbitrary: j acc)
  case 0
  then show ?case by (subst seiField.simps) simp
next
  case (Suc d)
  then have "seiField sei n (j + 1) (acc + unat (sei ! j)) = None" by (intro Suc.hyps) auto
  moreover have "sei ! j = 255" "j < length sei" "j < n" using Suc by auto
  ultimately show ?case by (subst seiField.simps) simp
qed

lemma strip_all_255: "strip (6 # replicate n 255) = 6 # replicate n 255"
proof -
  have "strip (replicate n 255) = replicate n 255" by (induction n) (simp_all add: strip_plain)
  then show ?thesis by (simp add: strip_plain)
qed

lemma analyzeSEIData_panics:
  assumes "parser_ok p" and "outputStartCodeSize p = 0" and "savedBytes p = 6 # replicate 4999 255"
  shows "analyzeSEIData p = None"
proof -
  have len: "length (savedBytes p) = 5000" using assms(3) by simp
  then have n: "numSavedBytes p = 5000" using assms(1) by (simp add: savedBytes_def parser_ok_def)
  let ?s = "6 # replicate 4999 255 :: bytes"
  have s: "strip (savedBytes p) = ?s" unfolding assms(3) by (rule strip_all_255)
  obtain copy where c: "removeEmulationBytes (replicate seiMaxSize 0) seiMaxSize p = Some (copy, length ?s)"
    "length copy = seiMaxSize" "take (length ?s) copy = ?s"
    using removeEmulationBytes_strips [OF assms(1,2), of seiMaxSize] n unfolding s seiMaxSize_def by auto
  then have copy: "copy = ?s" by (simp add: seiMaxSize_def)
  have "seiField ?s 5000 1 0 = None"
    by (rule seiField_all_255) (auto simp: nth_Cons split: nat.splits)
  then have "seiLoop ?s 5000 1 = None" by (subst seiLoop.simps) simp
  then show ?thesis using c(1) unfolding copy analyzeSEIData_def by simp
qed

lemma first_nal_255: "first_nal (6 # replicate n 255) [0, 0, 0, 1]"
proof -
  have "clean 0 (replicate n 255)" by (induction n) simp_all
  then show ?thesis using clean_is_first [of 0 "6 # replicate n 255" "[]"] by (cases n) simp_all
qed

text \<open>An SEI NAL unit of 5000 bytes, 255 in all but the first, crashes the server: the loops that skip payload type and
  size check the end of the message after they have read beyond it (a defect).\<close>

theorem sei_of_255_crashes:
  assumes "nal_ready (6 # replicate 4999 255) (parser f)" and "numSavedBytes (parser f) = 0"
    and "ahead (parser f) = (6 # replicate 4999 255) @ [0, 0, 0, 1]"
  shows "continueReadProcessing f = None"
proof -
  from readNAL_cuts [OF assms(1,3) first_nal_255] obtain q where q: "readNAL (parser f) = Ready () q"
    "savedBytes q = savedBytes (parser f) @ 6 # replicate 4999 255" "firstByteOfNALUnit q = ucast (hd ((6 # replicate 4999 255) @ [0, 0, 0, 1 :: byte]))"
    "parser_ok q" "outputStartCodeSize q = 0" by blast
  let ?q = "q\<lparr>haveSeenFirstByteOfNALUnit := False\<rparr>"
  have "parser_ok ?q" "outputStartCodeSize ?q = 0" "savedBytes ?q = 6 # replicate 4999 255"
    using q assms(2) by (simp_all add: parser_ok_def savedBytes_def)
  then have "analyzeSEIData ?q = None" by (rule analyzeSEIData_panics)
  moreover have "nalUnitTypeOf (firstByteOfNALUnit q) = 6" using q(3) by (simp add: nalUnitTypeOf_def)
  ultimately have "parse f = Crash" using q(1) by (simp add: parse_def lift_parser_def analyzeNAL_def Let_def)
  then show ?thesis by (simp add: continueReadProcessing_def)
qed

lemma sei_of_255_crashes_witness:
  "\<exists>f. continueReadProcessing (f\<lparr>parser := (parser f)\<lparr>totNumValidBytes := 5004,
      bank0 := (6 # replicate 4999 255) @ [0, 0, 0, 1], frameBuf := replicate 5000 0, numLimitBytes := 5000,
      haveSeenFirstStartCode := True\<rparr>\<rparr>) = None"
proof -
  let ?f = "newH264VideoStreamFramer tv_zero"
  let ?g = "?f\<lparr>parser := (parser ?f)\<lparr>totNumValidBytes := 5004,
      bank0 := (6 # replicate 4999 255) @ [0, 0, 0, 1], frameBuf := replicate 5000 0, numLimitBytes := 5000,
      haveSeenFirstStartCode := True\<rparr>\<rparr>"
  note defs = newH264VideoStreamFramer_def initMPEGVideoStreamFramer_def mpeg_reset_def newH264VideoStreamParser_def initStreamParser_def
  have "nal_ready (6 # replicate 4999 255) (parser ?g)" "numSavedBytes (parser ?g) = 0"
    "ahead (parser ?g) = (6 # replicate 4999 255) @ [0, 0, 0, 1]"
    by (simp_all add: defs nal_ready_def parser_ok_def ahead_def curBank_def)
  from sei_of_255_crashes [OF this] show ?thesis by blast
qed

section \<open>The change of banks\<close>

text \<open>
  The bank is changed with the field \<open>saveParserIndex\<close>, which is never set, in the place of \<open>savedParserIndex\<close>.
\<close>

definition bank_ok :: "'a StreamParser_scheme \<Rightarrow> bool" where
  "bank_ok p \<longleftrightarrow> saveParserIndex p = 0 \<and> savedParserIndex p \<le> curParserIndex p \<and> curParserIndex p \<le> totNumValidBytes p \<and>
     totNumValidBytes p \<le> bankSize \<and> length (bank0 p) = bankSize \<and> length (bank1 p) = bankSize \<and> curBankNum p < 2"

lemma saved_window: "a + m \<le> length xs \<Longrightarrow> take m (drop a (take (a + m) xs @ ys)) = take m (drop a xs)"
  by (simp add: take_drop add.commute)

text \<open>When the bank of 150000 bytes is full, the parser goes on with the wrong bytes: what it parses next is not the unparsed
  end of the old bank but bytes from its beginning, \<open>savedParserIndex\<close> places earlier (a defect).\<close>

theorem bank_switch_rereads_old_bytes:
  assumes "bank_ok p" and "curParserIndex p + n > bankSize" and "n \<le> bankSize - (curParserIndex p - savedParserIndex p)"
  shows "\<exists>q. ensureValidBytes n p = MustRead (totNumValidBytes p - savedParserIndex p)
      (bankSize - (totNumValidBytes p - savedParserIndex p)) q \<and> bank_ok q \<and>
    ahead q = take (totNumValidBytes p - curParserIndex p) (drop (curParserIndex p - savedParserIndex p) (curBank p)) \<and>
    ahead p = take (totNumValidBytes p - curParserIndex p) (drop (curParserIndex p) (curBank p))"
proof -
  let ?k = "totNumValidBytes p - savedParserIndex p"
  let ?p = "p\<lparr>curBankNum := (curBankNum p + 1) mod 2\<rparr>"
  define q where "q = (set_curBank (copy_at (curBank ?p) 0 (take ?k (curBank p))) ?p)
      \<lparr>curParserIndex := curParserIndex p - savedParserIndex p, savedParserIndex := 0, totNumValidBytes := ?k\<rparr>"
  have len: "length (curBank p) = bankSize" "length (curBank ?p) = bankSize" "?k \<le> bankSize"
    using assms(1) by (auto simp: bank_ok_def curBank_def)
  have sw: "switchBank p = Some q" using assms(1) len by (simp add: switchBank_def bank_ok_def Let_def q_def)
  have idx: "curParserIndex q = curParserIndex p - savedParserIndex p" "totNumValidBytes q = ?k" by (simp_all add: q_def)
  have bank: "curBank q = copy_at (curBank ?p) 0 (take ?k (curBank p))" by (simp add: curBank_def set_curBank_def q_def)
  have fits: "\<not> bankSize < curParserIndex p + n - savedParserIndex p" "\<not> curParserIndex p + n \<le> totNumValidBytes p"
    using assms by (auto simp: bank_ok_def)
  have "ensureValidBytes n p = MustRead ?k (bankSize - ?k) q"
    using assms(1,2) sw fits idx len(3) by (simp add: ensureValidBytes_def ensureValidBytes1_def bank_ok_def)
  moreover have "bank_ok q" using assms(1) len by (auto simp: bank_ok_def set_curBank_def curBank_def q_def)
  moreover have "ahead q = take (totNumValidBytes p - curParserIndex p) (drop (curParserIndex p - savedParserIndex p) (curBank p))"
  proof -
    let ?a = "curParserIndex p - savedParserIndex p" and ?m = "totNumValidBytes p - curParserIndex p"
    have k: "?k = ?a + ?m" "?k - ?a = ?m" "?a + ?m \<le> length (curBank p)" using assms(1) len by (auto simp: bank_ok_def)
    have c: "copy_at (curBank ?p) 0 (take ?k (curBank p)) = take ?k (curBank p) @ drop ?k (curBank ?p)"
      using len by (simp add: copy_at_def)
    have "ahead q = take ?m (drop ?a (take ?k (curBank p) @ drop ?k (curBank ?p)))" by (simp only: ahead_def bank idx k(2) c)
    then show ?thesis using saved_window [OF k(3)] by (simp only: k(1))
  qed
  ultimately show ?thesis by (auto simp: ahead_def)
qed

lemma bank_switch_rereads_old_bytes_witness:
  "\<exists>(p :: H264VideoStreamParser) q. ahead p = [1, 2, 3] \<and> ensureValidBytes 4 p = MustRead 3 (bankSize - 3) q \<and> ahead q = [0, 0, 0]"
proof -
  let ?p = "newH264VideoStreamParser\<lparr>curParserIndex := bankSize - 3, totNumValidBytes := bankSize, savedParserIndex := bankSize - 3,
    bank0 := replicate (bankSize - 3) 0 @ [1, 2, 3]\<rparr>"
  have c: "curBank ?p = replicate (bankSize - 3) 0 @ [1, 2, 3]" "curParserIndex ?p = bankSize - 3" "savedParserIndex ?p = bankSize - 3"
    "totNumValidBytes ?p = bankSize"
    by (simp_all add: curBank_def newH264VideoStreamParser_def initStreamParser_def)
  have ok: "bank_ok ?p" by (simp add: bank_ok_def newH264VideoStreamParser_def initStreamParser_def bankSize_def)
  have n: "bankSize - (bankSize - 3) = 3" "(3 :: nat) = Suc (Suc (Suc 0))" by (simp_all add: bankSize_def)
  from bank_switch_rereads_old_bytes [OF ok, of 4] obtain q where
    "ensureValidBytes 4 ?p = MustRead 3 (bankSize - 3) q" "ahead q = take 3 (replicate (bankSize - 3) 0 @ [1, 2, 3])"
    "ahead ?p = take 3 (drop (bankSize - 3) (replicate (bankSize - 3) 0 @ [1, 2, 3]))"
    unfolding c n(1) by (auto simp: bankSize_def)
  moreover have "take 3 (replicate (bankSize - 3) 0 @ [1, 2, 3]) = [0, 0, 0 :: byte]" by (simp add: bankSize_def numeral_3_eq_3)
  ultimately show ?thesis by (intro exI [of _ ?p] exI [of _ q]) simp
qed

section \<open>The last NAL unit\<close>

text \<open>Once the end of the file has been seen, no frame is delivered any more: the bytes after the last start code are lost.\<close>

theorem last_nal_unit_is_lost:
  assumes "haveSeenEOF (parser f)" and "haveSeenFirstStartCode (parser f)"
  shows "continueReadProcessing f \<noteq> Some (FrameReady n dur pt f')"
proof -
  have "readNAL (parser f) \<noteq> Ready u q" for u q using assms by (simp add: readNAL_def)
  then show ?thesis
    by (cases "readNAL (parser f)") (auto simp: continueReadProcessing_def parse_def lift_parser_def)
qed

end
