(* ===== verification/RtspRequest.thy ===== *)
theory RtspRequest
  imports GoString
begin

text \<open>
  \<^verbatim>\<open>livemedia/common.go\<close>: the parsing of requests and of their headers.

  The size that is passed with the request is its length, at the only call of \<open>ParseRTSPRequestString\<close> and of
  \<open>ParseHTTPRequestString\<close>, and is not an argument here. \<open>None\<close> is a panic, an index or a slice beyond the end of the
  request; a parse that fails is \<open>Some None\<close>. The loops with an index are functions on the index.
  Of the floating point numbers only 0 and 1 can occur, so \<open>RangeStart\<close>, \<open>RangeEnd\<close> and the scale are natural numbers.
\<close>

section \<open>Data\<close>

definition AllowedCommandNames :: "string list" where
  "AllowedCommandNames = [''OPTIONS'', ''DESCRIBE'', ''SETUP'', ''TEARDOWN'', ''PLAY'', ''PAUSE'', ''RECORD'', ''GET_PARAMETER'',
     ''SET_PARAMETER'']"

record RTSPRequestInfo =
  Cseq :: string
  CmdName :: string
  SessionIDStr :: string
  UrlPreSuffix :: string
  UrlSuffix :: string
  ContentLength :: string

record HTTPRequestInfo =
  HttpCmdName :: string
  HttpUrlPreSuffix :: string
  HttpUrlSuffix :: string
  AcceptStr :: string
  SessionCookie :: string

datatype streaming_mode = RTP_UDP | RTP_TCP | RAW_UDP

record TransportHeader =
  StreamingMode :: streaming_mode
  ClientRTPPortNum :: nat
  ClientRTCPPortNum :: nat
  RTPChannelID :: nat
  RTCPChannelID :: nat
  DestinationTTL :: nat
  DestinationAddr :: string
  StreamingModeStr :: string

record RangeHeader =
  RangeStart :: nat
  RangeEnd :: nat
  AbsStartTime :: string
  AbsEndTime :: string

definition tab :: char where "tab = CHR 0x09"

definition ws :: "char \<Rightarrow> bool" where "ws c \<longleftrightarrow> c = CHR '' '' \<or> c = tab"
definition line_end :: "char \<Rightarrow> bool" where "line_end c \<longleftrightarrow> c = cr \<or> c = lf"

section \<open>Loops over an index\<close>

text \<open>The first index from \<open>j\<close> on at which \<open>P\<close> does not hold, or the length.\<close>

function scan_while :: "(char \<Rightarrow> bool) \<Rightarrow> string \<Rightarrow> nat \<Rightarrow> nat" where
  "scan_while P s j = (if j < length s then if P (s ! j) then scan_while P s (j + 1) else j else j)"
  by auto
termination by (relation "measure (\<lambda>(P, s, j). length s - j)") auto

declare scan_while.simps [simp del]

text \<open>The characters up to the end of the line, without a check for the end of the request.\<close>

function collect_line :: "string \<Rightarrow> nat \<Rightarrow> (string \<times> nat) option" where
  "collect_line s j =
     (if j < length s then
        if line_end (s ! j) then Some ([], j)
        else do { (v, k) \<leftarrow> collect_line s (j + 1); Some (rune_str (s ! j) @ v, k) }
      else None)"
  by auto
termination by (relation "measure (\<lambda>(s, j). length s - j)") auto

declare collect_line.simps [simp del]

lemma scan_while_ge: "j \<le> scan_while P s j"
proof (induction P s j rule: scan_while.induct)
  case (1 P s j)
  then show ?case by (subst scan_while.simps) force
qed

lemma collect_line_ge: "collect_line s j = Some (v, k) \<Longrightarrow> j \<le> k \<and> k < length s"
proof (induction s j arbitrary: v k rule: collect_line.induct)
  case (1 s j)
  from "1.prems" show ?case
    by (subst (asm) collect_line.simps) (auto simp: bind_simps split: if_splits dest!: "1.IH")
qed

text \<open>All values of the header \<open>name\<close>, one after the other.\<close>

function header_loop :: "string \<Rightarrow> string \<Rightarrow> nat \<Rightarrow> string option" where
  "header_loop name s j =
     (if j + length name < length s then
        if EqualFold name (take (length name) (drop j s)) then
          (case collect_line s (scan_while ws s (j + length name)) of
             None \<Rightarrow> None
           | Some (v, k) \<Rightarrow> map_option (\<lambda>r. v @ r) (header_loop name s (k + 1)))
        else header_loop name s (j + 1)
      else Some [])"
  by auto
termination
proof (relation "measure (\<lambda>(name, s, j). length s - j)", goal_cases)
  case (2 name s j x v k)
  then have "scan_while ws s (j + length name) \<le> k" using collect_line_ge by (metis)
  moreover have "j + length name \<le> scan_while ws s (j + length name)" by (rule scan_while_ge)
  ultimately show ?case using 2 by simp
qed auto

declare header_loop.simps [simp del]

text \<open>The loop for the content length: the number is scanned into a string, which never succeeds.\<close>

function content_loop :: "string \<Rightarrow> nat \<Rightarrow> unit option" where
  "content_loop s j =
     (if j + 15 < length s then
        if EqualFold ''Content-Length:'' (take 15 (drop j s)) then
          (let k = scan_while ws s (j + 15)
           in if k + 15 \<le> length s then content_loop s (k + 1) else None)
        else content_loop s (j + 1)
      else Some ())"
  by auto
termination
proof (relation "measure (\<lambda>(s, j). length s - j)", goal_cases)
  case (2 s j k)
  have "j + 15 \<le> scan_while ws s (j + 15)" by (rule scan_while_ge)
  then show ?case using 2 by simp
qed auto

declare content_loop.simps [simp del]

section \<open>The request line\<close>

text \<open>The prefix \<open>rtsp:/\<close>, or \<open>rtsp://host\<close>: the index of the slash before the path.\<close>

definition rtsp_prefix :: "string \<Rightarrow> bool" where
  "rtsp_prefix t \<longleftrightarrow>
     (t ! 0 = CHR ''r'' \<or> t ! 0 = CHR ''R'') \<and> (t ! 1 = CHR ''t'' \<or> t ! 1 = CHR ''T'') \<and>
     (t ! 2 = CHR ''s'' \<or> t ! 2 = CHR ''S'') \<and> (t ! 3 = CHR ''p'' \<or> t ! 3 = CHR ''P'') \<and>
     t ! 4 = CHR '':'' \<and> t ! 5 = CHR ''/''"

function find_path :: "string \<Rightarrow> nat \<Rightarrow> nat option" where
  "find_path s j =
     (if j + 8 < length s then
        if rtsp_prefix (drop j s) then
          Some (if s ! (j + 6) = CHR ''/''
                then scan_while (\<lambda>c. c \<noteq> CHR ''/'' \<and> c \<noteq> CHR '' '') s (j + 7)
                else j + 5)
        else find_path s (j + 1)
      else None)"
  by auto
termination by (relation "measure (\<lambda>(s, j). length s - j)") auto

declare find_path.simps [simp del]

function find_version :: "string \<Rightarrow> nat \<Rightarrow> nat option" where
  "find_version s k =
     (if k + 5 < length s then
        if take 5 (drop k s) = ''RTSP/'' then Some k else find_version s (k + 1)
      else None)"
  by auto
termination by (relation "measure (\<lambda>(s, k). length s - k)") auto

declare find_version.simps [simp del]

text \<open>Back over the spaces: the end of the path, from \<open>e\<close> down to \<open>i\<close>.\<close>

fun back_spaces :: "string \<Rightarrow> nat \<Rightarrow> nat \<Rightarrow> nat" where
  "back_spaces s i e = (if e > i \<and> s ! (e - 1) = CHR '' '' then back_spaces s i (e - 1) else e)"

declare back_spaces.simps [simp del]

fun back_slash :: "string \<Rightarrow> nat \<Rightarrow> nat \<Rightarrow> nat" where
  "back_slash s i k = (if k > i \<and> s ! k \<noteq> CHR ''/'' then back_slash s i (k - 1) else k)"

declare back_slash.simps [simp del]

definition between :: "string \<Rightarrow> nat \<Rightarrow> nat \<Rightarrow> string" where
  "between s a b = runes (take (b - a) (drop a s))"

text \<open>The two parts of the path and the index from which the headers are searched.\<close>

definition urlSuffixes :: "string \<Rightarrow> nat \<Rightarrow> string \<times> string \<times> nat" where
  "urlSuffixes s i =
     (case find_version s (i + 1) of
        None \<Rightarrow> ([], [], i)
      | Some k0 \<Rightarrow>
          (let e = back_spaces s i k0
           in if i < e
              then (let k1 = back_slash s i (e - 1) in (between s (i + 1) k1, between s (k1 + 1) e, e + 6))
              else ([], [], e + 6)))"

definition ParseRTSPRequestString :: "string \<Rightarrow> RTSPRequestInfo option option" where
  "ParseRTSPRequestString reqStr =
     (let i0 = scan_while (\<lambda>c. \<not> ws c) reqStr 0 in
      if i0 \<ge> length reqStr then Some None
      else
        let i1 = (case find_path reqStr (scan_while ws reqStr (i0 + 1)) of None \<Rightarrow> i0 | Some k \<Rightarrow> k);
            (pre, suf, i2) = urlSuffixes reqStr i1
        in do {
          cseq \<leftarrow> header_loop ''CSeq:'' reqStr i2;
          session \<leftarrow> header_loop ''Session:'' reqStr i2;
          _ \<leftarrow> content_loop reqStr i2;
          Some (Some \<lparr>Cseq = cseq, CmdName = runes (take i0 reqStr), SessionIDStr = session, UrlPreSuffix = pre,
                      UrlSuffix = suf, ContentLength = []\<rparr>)
        })"

section \<open>HTTP requests\<close>

text \<open>The values found by \<open>lookForHeader\<close>: the last one stays.\<close>

function look_loop :: "string \<Rightarrow> string \<Rightarrow> nat \<Rightarrow> string \<Rightarrow> string" where
  "look_loop name src i res =
     (if i + length name < length src then
        if EqualFold (drop i src) name \<and> src ! (i + length name) = CHR '':'' then
          (let i' = scan_while ws src (i + length name + 1)
           in look_loop name src (i' + 1) (if \<exists>j < length src. i' \<le> j \<and> line_end (src ! j) then drop i' src else res))
        else look_loop name src (i + 1) res
      else res)"
  by auto
termination
proof (relation "measure (\<lambda>(name, src, i, res). length src - i)", goal_cases)
  case (2 name src i res k)
  have "i + length name + 1 \<le> scan_while ws src (i + length name + 1)" by (rule scan_while_ge)
  then show ?case using 2 by simp
qed auto

declare look_loop.simps [simp del]

definition lookForHeader :: "string \<Rightarrow> string \<Rightarrow> string" where
  "lookForHeader headerName source = look_loop headerName source 0 []"

text \<open>The loop before it steps over line ends; at the first one that is not, it stops.\<close>

definition ParseHTTPRequestString :: "string \<Rightarrow> HTTPRequestInfo option" where
  "ParseHTTPRequestString reqStr =
     (let i0 = scan_while (\<lambda>c. \<not> ws c) reqStr 0 in
      if i0 \<ge> length reqStr then None
      else
        let rest = drop (scan_while line_end reqStr i0) reqStr
        in Some \<lparr>HttpCmdName = runes (take i0 reqStr), HttpUrlPreSuffix = [], HttpUrlSuffix = [],
                 AcceptStr = lookForHeader ''Accept'' rest,
                 SessionCookie = lookForHeader ''x-sessioncookie'' rest\<rparr>)"

section \<open>Transport\<close>

text \<open>One field of the header. A number into which \<open>%s\<close> is scanned is never set.\<close>

definition two_numbers :: "string \<Rightarrow> string \<Rightarrow> (nat \<times> nat) option" where
  "two_numbers lit field = do {
     f1 \<leftarrow> scan_lit lit field;
     (a, f2) \<leftarrow> scan_uint f1;
     f3 \<leftarrow> scan_lit ''-'' f2;
     (b, f4) \<leftarrow> scan_uint f3;
     Some (a, b)
   }"

definition transport_field :: "TransportHeader \<Rightarrow> string \<Rightarrow> TransportHeader" where
  "transport_field h field0 =
     (let field = TrimSpace field0 in
      if EqualFold field ''RTP/AVP/TCP'' then h\<lparr>StreamingMode := RTP_TCP\<rparr>
      else if EqualFold field ''RAW/RAW/UDP'' \<or> EqualFold field ''MP2T/H2221/UDP''
      then h\<lparr>StreamingMode := RAW_UDP, StreamingModeStr := field\<rparr>
      else if Index field ''destination='' \<noteq> None then h\<lparr>DestinationAddr := drop 12 field\<rparr>
      else case do { f \<leftarrow> scan_lit ''ttl'' field; scan_uint f } of
             Some (ttl, _) \<Rightarrow> h\<lparr>DestinationTTL := ttl\<rparr>
           | None \<Rightarrow>
               (case two_numbers ''client_port='' field of
                  Some (p1, p2) \<Rightarrow>
                    h\<lparr>ClientRTPPortNum := p1, ClientRTCPPortNum := (if StreamingMode h = RAW_UDP then 0 else p2)\<rparr>
                | None \<Rightarrow>
                    (case two_numbers ''interleaved='' field of
                       Some (c1, c2) \<Rightarrow> h\<lparr>RTPChannelID := c1, RTCPChannelID := c2\<rparr>
                     | None \<Rightarrow> h)))"

definition default_transport :: TransportHeader where
  "default_transport =
     \<lparr>StreamingMode = RTP_UDP, ClientRTPPortNum = 0, ClientRTCPPortNum = 1, RTPChannelID = 0xFF, RTCPChannelID = 0xFF,
      DestinationTTL = 255, DestinationAddr = [], StreamingModeStr = []\<rparr>"

definition ParseTransportHeader :: "string \<Rightarrow> TransportHeader" where
  "ParseTransportHeader reqStr =
     (case Index reqStr ''Transport:'' of
        None \<Rightarrow> default_transport
      | Some index \<Rightarrow> foldl transport_field default_transport (Split (drop (index + 10) reqStr) CHR '';''))"

section \<open>Range, scale and play-now\<close>

text \<open>
  The verbs \<open>%lf\<close>, \<open>%n\<close> and \<open>%[\<close> are not verbs of \<open>fmt\<close>: each of these scans fails before a number is stored, so that
  only the comparison with "npt = now -" can succeed.
\<close>

definition parseRangeParam :: "string \<Rightarrow> RangeHeader option" where
  "parseRangeParam paramStr =
     (if EqualFold paramStr ''npt = now -''
      then Some \<lparr>RangeStart = 0, RangeEnd = 0, AbsStartTime = [], AbsEndTime = []\<rparr> else None)"

definition ParseRangeHeader :: "string \<Rightarrow> RangeHeader option \<times> bool" where
  "ParseRangeHeader buf =
     (if buf \<noteq> [] \<and> EqualFold buf ''Range: ''
      then (case parseRangeParam buf of None \<Rightarrow> (None, False) | Some r \<Rightarrow> (Some r, True))
      else (None, False))"

definition ParsePlayNowHeader :: "string \<Rightarrow> bool" where
  "ParsePlayNowHeader buf \<longleftrightarrow> Index buf ''x-playNow:'' \<noteq> None"

text \<open>
  The scale is scanned from the word "Scale:" itself, at which a number does not begin; so the default, 1, is
  returned whether the header is there or not.
\<close>

definition ParseScaleHeader :: "string \<Rightarrow> nat \<times> bool" where
  "ParseScaleHeader buf = (case Index buf ''Scale:'' of None \<Rightarrow> (1, False) | Some _ \<Rightarrow> (1, False))"

end
