(* ===== verification/MediaSession.thy ===== *)
theory MediaSession
  imports Rtcp RtpInterface RtspRequest
begin

text \<open>
  What the server streams: \<^verbatim>\<open>livemedia/server_media_session.go\<close>,
  \<^verbatim>\<open>livemedia/server_media_subsession.go\<close>, \<^verbatim>\<open>livemedia/on_demand_server_media_subsession.go\<close>,
  \<^verbatim>\<open>livemedia/stream_state.go\<close> and the two kinds of files, \<^verbatim>\<open>livemedia/h264_file_media_subsession.go\<close> and
  \<^verbatim>\<open>livemedia/m2ts_file_media_subsession.go\<close>, with the destinations of \<^verbatim>\<open>groupsock/groupsock.go\<close>.

  The world outside the program is a record: the clock, the files that can be opened, the UDP ports that can be
  bound, the random numbers, and what is read from the sink while a description is made. The calls into the RTP and
  RTCP parts, which other theories model, are returned as a list; where such a call can panic or sleep, its model is used. \<open>None\<close> is a
  call that does not return: a panic, or a loop that never ends. A sleep is not \<open>None\<close>: its length is part of the result, and what follows
  it is a definition of its own.

  A sink is its \<open>RTPSink\<close> part. A media session is the only owner of its subsessions, and a subsession of its one
  \<open>StreamState\<close>, which is made once and then stays; so the pointers to them are the path on which they are found.
\<close>

section \<open>The world\<close>

record world =
  w_now :: timeval
  w_date :: string
  w_ip :: string
  w_hostname :: string
  w_openable :: "string \<Rightarrow> bool"
  w_filesize :: "string \<Rightarrow> nat"
  w_bindable :: "nat \<Rightarrow> bool"
  w_random16 :: u32
  w_random32 :: u32
  w_random32' :: u32
  w_drand48 :: int
  w_drand48' :: int
  w_sessionIDs :: "nat \<Rightarrow> u32"
  w_auxSDPLine :: "nat \<Rightarrow> string"

definition mediaServerVersion :: string where "mediaServerVersion = ''1.0.0.3''"

text \<open>The clock in nanoseconds.\<close>

definition nanos :: "world \<Rightarrow> int" where
  "nanos w = (tv_sec (w_now w) * 1000000 + tv_usec (w_now w)) * 1000"

section \<open>Destinations\<close>

record GroupSock =
  portNum :: nat
  gs_open :: bool
  dests :: "(string \<times> nat) list"

definition NewGroupSock :: "world \<Rightarrow> nat \<Rightarrow> GroupSock option" where
  "NewGroupSock w port = (if w_bindable w port then Some \<lparr>portNum = port, gs_open = True, dests = []\<rparr> else None)"

definition AddDestination :: "string \<Rightarrow> nat \<Rightarrow> GroupSock \<Rightarrow> GroupSock" where
  "AddDestination addr port g = g\<lparr>dests := dests g @ [(addr, port)]\<rparr>"

definition Close :: "GroupSock \<Rightarrow> GroupSock" where
  "Close g = g\<lparr>gs_open := False\<rparr>"

record Destinations =
  isTCP :: bool
  addrStr :: string
  rtpPort :: nat
  rtcpPort :: nat
  rtpChannelID :: nat
  rtcpChannelID :: nat
  tcpSocketNum :: "nat option"

definition newDestinations :: "nat option \<Rightarrow> string \<Rightarrow> nat \<Rightarrow> nat \<Rightarrow> nat \<Rightarrow> nat \<Rightarrow> Destinations" where
  "newDestinations sock addr p1 p2 c1 c2 =
     \<lparr>isTCP = (sock \<noteq> None), addrStr = addr, rtpPort = p1, rtcpPort = p2, rtpChannelID = c1, rtcpChannelID = c2,
      tcpSocketNum = sock\<rparr>"

section \<open>The state of a stream\<close>

text \<open>A socket is the number of the connection it belongs to.\<close>

datatype stream_call =
    NewRTCPInstance
  | AddStreamSocket "nat option" nat
  | SetServerRequestAlternativeByteHandler "nat option"
  | DelStreamSocket "nat option" nat
  | InterfaceEvent net_event
  | SendReport
  | SendBye
  | StopNetworkReading
  | SinkStartPlaying
  | SinkStopPlaying
  | UdpStartPlaying
  | UdpStopPlaying
  | DummyStartPlaying
  | DummyDestroy

text \<open>\<open>sinkInterface\<close> is the interface of the sink, for its TCP streams; its group socket is \<open>rtpGS\<close>.\<close>

record StreamState =
  rtpSink :: "RTPSink option"
  sinkInterface :: RTPInterface
  udpSink :: bool
  rtpGS :: "GroupSock option"
  rtcpGS :: "GroupSock option"
  rtcpInstance :: bool
  mediaSource :: bool
  serverRTPPort :: nat
  serverRTCPPort :: nat
  totalBW :: nat
  areCurrentlyPlaying :: bool

definition newStreamState ::
  "nat \<Rightarrow> nat \<Rightarrow> RTPSink option \<Rightarrow> bool \<Rightarrow> nat \<Rightarrow> bool \<Rightarrow> GroupSock option \<Rightarrow> GroupSock option \<Rightarrow> StreamState" where
  "newStreamState p1 p2 sink udp bw source g1 g2 =
     \<lparr>rtpSink = sink, sinkInterface = newRTPInterface 0 [], udpSink = udp, rtpGS = g1, rtcpGS = g2, rtcpInstance = False, mediaSource = source, serverRTPPort = p1,
      serverRTCPPort = p2, totalBW = bw, areCurrentlyPlaying = False\<rparr>"

text \<open>
  The goroutine \<open>startPlaying\<close> has three parts. If the stream has a sink and no RTCP instance yet, the goroutine calls \<open>newRTCPInstance\<close>,
  which sleeps before it returns: \<open>startPlaying\<close> goes as far as that and returns the length of the sleep in nanoseconds. The
  instance is assigned when the constructor has returned, and then the goroutine goes on, in \<open>startPlayingWoken\<close>. Otherwise it goes
  on at once. \<open>joinStream\<close> is the rest, up to the last call, \<open>StartPlaying\<close> of the sink, which plays and returns when it is over;
  then \<open>startPlayingReturned\<close>. A report that the constructor sends itself changes nothing in the sink: only a preset timestamp would be
  changed, and with one there is no report.
\<close>

definition joinInterface :: "Destinations \<Rightarrow> RTPInterface \<Rightarrow> RTPInterface" where
  "joinInterface d i =
     (case tcpSocketNum d of
        None \<Rightarrow> i
      | Some c \<Rightarrow> if_setServerRequestAlternativeByteHandler c True (addStreamSocket (Some c) (rtpChannelID d) i))"

definition joinStream :: "Destinations \<Rightarrow> StreamState \<Rightarrow> stream_call list \<times> StreamState" where
  "joinStream d s =
     (let hasSink = (rtpSink s \<noteq> None);
          (calls1, s1) =
            (if isTCP d then
               (if hasSink then
                  ([AddStreamSocket (tcpSocketNum d) (rtpChannelID d), SetServerRequestAlternativeByteHandler (tcpSocketNum d)],
                   s\<lparr>sinkInterface := joinInterface d (sinkInterface s)\<rparr>)
                else ([], s))
             else ([], s\<lparr>rtpGS := map_option (AddDestination (addrStr d) (rtpPort d)) (rtpGS s),
                          rtcpGS := map_option (AddDestination (addrStr d) (rtcpPort d)) (rtcpGS s)\<rparr>));
          calls2 = (if rtcpInstance s1 then [SendReport] else []);
          (calls3, s2) =
            (if \<not> areCurrentlyPlaying s1 \<and> mediaSource s1 then
               if hasSink then ([SinkStartPlaying], s1)
               else if udpSink s1 then ([UdpStartPlaying], s1\<lparr>areCurrentlyPlaying := True\<rparr>) else ([], s1)
             else ([], s1))
      in (calls1 @ calls2 @ calls3, s2))"

definition startPlaying ::
  "world \<Rightarrow> string \<Rightarrow> Destinations option \<Rightarrow> StreamState \<Rightarrow> (stream_call list \<times> int option \<times> StreamState) option" where
  "startPlaying w cname dest s =
     (case dest of
        None \<Rightarrow> Some ([], None, s)
      | Some d \<Rightarrow>
          if \<not> rtcpInstance s \<and> rtpSink s \<noteq> None then do {
            (report, sleep, _) \<leftarrow> newRTCPInstance (w_now w) [] (w_drand48 w) (w_drand48' w) (totalBW s) cname (rtpSink s) None;
            Some (NewRTCPInstance # (if report = None then [] else [SendReport]), sleep, s)
          }
          else (let (calls, s1) = joinStream d s in Some (calls, None, s1)))"

definition startPlayingWoken :: "Destinations \<Rightarrow> StreamState \<Rightarrow> stream_call list \<times> StreamState" where
  "startPlayingWoken d s = joinStream d (s\<lparr>rtcpInstance := True\<rparr>)"

definition startPlayingReturned :: "StreamState \<Rightarrow> StreamState" where
  "startPlayingReturned s = s\<lparr>areCurrentlyPlaying := True\<rparr>"

definition pause :: "StreamState \<Rightarrow> stream_call list \<times> StreamState" where
  "pause s =
     ((if rtpSink s \<noteq> None then [SinkStopPlaying] else []) @ (if udpSink s then [UdpStopPlaying] else []),
      s\<lparr>areCurrentlyPlaying := False\<rparr>)"

text \<open>The end of a TCP stream takes it out of the interface of the sink, which can panic.\<close>

definition endPlaying :: "Destinations option \<Rightarrow> StreamState \<Rightarrow> (stream_call list \<times> StreamState) option" where
  "endPlaying dest s =
     (case dest of
        None \<Rightarrow> Some ([], s)
      | Some d \<Rightarrow>
          if isTCP d \<and> rtpSink s \<noteq> None then
            (case tcpSocketNum d of
               None \<Rightarrow> Some ([DelStreamSocket None (rtpChannelID d)], s)
             | Some c \<Rightarrow> do {
                 (i, events) \<leftarrow> delStreamSocket c (rtpChannelID d) (sinkInterface s);
                 Some (DelStreamSocket (Some c) (rtpChannelID d) # map InterfaceEvent events, s\<lparr>sinkInterface := i\<rparr>)
               })
          else Some ([], s))"

text \<open>\<open>destroy\<close> of the RTCP instance: there has to be one, and it closes its socket.\<close>

definition reclaim :: "StreamState \<Rightarrow> (stream_call list \<times> StreamState) option" where
  "reclaim s =
     (if rtcpInstance s then do { g \<leftarrow> rtcpGS s; Some ([SendBye, StopNetworkReading], s\<lparr>rtcpGS := Some (Close g)\<rparr>) } else None)"

definition afterPlayingStreamState :: "StreamState \<Rightarrow> (stream_call list \<times> StreamState) option" where
  "afterPlayingStreamState s = reclaim s"

section \<open>Subsessions\<close>

record ServerMediaSubsession =
  trackNumber :: nat
  trackID :: string
  hasParentSession :: bool

record OnDemandServerMediaSubsession = ServerMediaSubsession +
  cname :: string
  sdpLines :: string
  portNumForSDP :: nat
  initialPortNum :: nat
  reuseFirstSource :: bool
  lastStreamToken :: "StreamState option"
  destinations :: "string \<rightharpoonup> Destinations"

text \<open>The two kinds of files; the fields of the H.264 kind stay as they are in the other.\<close>

datatype media_kind = H264FileMediaSubsession | M2TSFileMediaSubsession

record FileServerMediaSubsession = OnDemandServerMediaSubsession +
  media_kind :: media_kind
  fileName :: string
  fileSize :: nat
  haveDummyRTPSink :: bool
  auxSDPLine :: string

definition newFileMediaSubsession :: "world \<Rightarrow> media_kind \<Rightarrow> string \<Rightarrow> FileServerMediaSubsession" where
  "newFileMediaSubsession w k name =
     \<lparr>trackNumber = 0, trackID = [], hasParentSession = False, cname = w_hostname w, sdpLines = [], portNumForSDP = 0,
      initialPortNum = 6970, reuseFirstSource = False, lastStreamToken = None, destinations = Map.empty, media_kind = k,
      fileName = name, fileSize = 0, haveDummyRTPSink = False, auxSDPLine = []\<rparr>"

definition TrackID :: "FileServerMediaSubsession \<Rightarrow> string \<times> FileServerMediaSubsession" where
  "TrackID s =
     (let s1 = (if trackID s = [] then s\<lparr>trackID := ''track'' @ show_nat (trackNumber s)\<rparr> else s) in (trackID s1, s1))"

text \<open>A session is never shorter than 0 seconds, so there is no line.\<close>

definition rangeSDPLine :: "FileServerMediaSubsession \<Rightarrow> string" where
  "rangeSDPLine s = []"

definition createNewStreamSource :: "world \<Rightarrow> FileServerMediaSubsession \<Rightarrow> bool \<times> FileServerMediaSubsession" where
  "createNewStreamSource w s =
     (if w_openable w (fileName s) then (True, s\<lparr>fileSize := w_filesize w (fileName s)\<rparr>) else (False, s))"

definition createNewRTPSink :: "world \<Rightarrow> media_kind \<Rightarrow> nat \<Rightarrow> RTPSink" where
  "createNewRTPSink w k payloadType =
     (case k of
        H264FileMediaSubsession \<Rightarrow>
          InitRTPSink (w_random16 w) (w_random32 w) (w_random32' w) (word_of_nat payloadType) 90000 ''H264''
      | M2TSFileMediaSubsession \<Rightarrow> InitRTPSink (w_random16 w) (w_random32 w) (w_random32' w) 33 90000 ''MP2T'')"

definition sdpMediaType :: "media_kind \<Rightarrow> string" where
  "sdpMediaType k = (case k of H264FileMediaSubsession \<Rightarrow> ''video'' | M2TSFileMediaSubsession \<Rightarrow> ''data'')"

text \<open>The loop that waits for the parameter sets: the \<open>i\<close>-th look at the sink.\<close>

partial_function (option) checkForAuxSDPLine :: "(nat \<Rightarrow> string) \<Rightarrow> nat \<Rightarrow> string option" where
  "checkForAuxSDPLine look i = (if look i \<noteq> [] then Some (look i) else checkForAuxSDPLine look (i + 1))"

definition getAuxSDPLine ::
  "world \<Rightarrow> FileServerMediaSubsession \<Rightarrow> (string \<times> stream_call list \<times> FileServerMediaSubsession) option" where
  "getAuxSDPLine w s =
     (case media_kind s of
        M2TSFileMediaSubsession \<Rightarrow> Some ([], [], s)
      | H264FileMediaSubsession \<Rightarrow>
          if auxSDPLine s \<noteq> [] then Some (auxSDPLine s, [], s)
          else if \<not> haveDummyRTPSink s then do {
            line \<leftarrow> checkForAuxSDPLine (w_auxSDPLine w) 0;
            Some (line, [DummyStartPlaying], s\<lparr>haveDummyRTPSink := True, auxSDPLine := line\<rparr>)
          }
          else Some (auxSDPLine s, [], s))"

definition setSDPLinesFromRTPSink ::
  "world \<Rightarrow> RTPSink \<Rightarrow> nat \<Rightarrow> FileServerMediaSubsession \<Rightarrow> (stream_call list \<times> FileServerMediaSubsession) option" where
  "setSDPLinesFromRTPSink w sink estBitrate s = do {
     (aux, calls, s1) \<leftarrow> getAuxSDPLine w s;
     let (track, s2) = TrackID s1;
     Some (calls, s2\<lparr>sdpLines :=
       ''m='' @ sdpMediaType (media_kind s2) @ '' '' @ show_nat (portNumForSDP s2) @ '' RTP/AVP '' @
         show_nat (unat (rtpPayloadType sink)) @ crlf @
       ''c=IN IP4 0.0.0.0'' @ crlf @
       ''b=AS:'' @ show_nat estBitrate @ crlf @
       rtpmapLine sink @ rangeSDPLine s2 @ aux @
       ''a=control:'' @ track @ crlf\<rparr>)
   }"

text \<open>The file cannot be opened: its source is nil, and destroying it panics.\<close>

definition SDPLines ::
  "world \<Rightarrow> FileServerMediaSubsession \<Rightarrow> (string \<times> stream_call list \<times> FileServerMediaSubsession) option" where
  "SDPLines w s =
     (if sdpLines s \<noteq> [] then Some (sdpLines s, [], s)
      else
        let sink = createNewRTPSink w (media_kind s) (96 + trackNumber s - 1);
            (opened, s1) = createNewStreamSource w s
        in if \<not> opened then None
           else do { (calls, s2) \<leftarrow> setSDPLinesFromRTPSink w sink 500 s1; Some (sdpLines s2, calls @ [DummyDestroy], s2) })"

record StreamParameter =
  ServerRTPPort :: nat
  ServerRTCPPort :: nat

text \<open>The search for ports that can be bound.\<close>

partial_function (option) rawPort :: "(nat \<Rightarrow> bool) \<Rightarrow> nat \<Rightarrow> nat option" where
  "rawPort bindable p = (if bindable p then Some p else rawPort bindable (p + 1))"

partial_function (option) rtpPorts :: "(nat \<Rightarrow> bool) \<Rightarrow> nat \<Rightarrow> nat option" where
  "rtpPorts bindable p = (if bindable p \<and> bindable (p + 1) then Some p else rtpPorts bindable (p + 2))"

definition makeStream :: "world \<Rightarrow> nat \<Rightarrow> FileServerMediaSubsession \<Rightarrow> (StreamState \<times> FileServerMediaSubsession) option" where
  "makeStream w clientRTCPPort s =
     (let (source, s1) = createNewStreamSource w s in
      if clientRTCPPort = 0 then do {
        p \<leftarrow> rawPort (w_bindable w) (initialPortNum s1);
        Some (newStreamState p 0 None True 500 source (NewGroupSock w p) None, s1)
      }
      else do {
        p \<leftarrow> rtpPorts (w_bindable w) (initialPortNum s1);
        let sink = createNewRTPSink w (media_kind s1) (96 + trackNumber s1 - 1);
        Some (newStreamState p (p + 1) (Some sink) False 500 source (NewGroupSock w p) (NewGroupSock w (p + 1)), s1)
      })"

definition GetStreamParameters ::
  "world \<Rightarrow> nat option \<Rightarrow> string \<Rightarrow> string \<Rightarrow> nat \<Rightarrow> nat \<Rightarrow> nat \<Rightarrow> nat \<Rightarrow> FileServerMediaSubsession \<Rightarrow>
     (StreamParameter \<times> FileServerMediaSubsession) option" where
  "GetStreamParameters w sock destAddr clientSessionID clientRTPPort clientRTCPPort rtpChannel rtcpChannel s = do {
     (token, s1) \<leftarrow> (case lastStreamToken s of Some t \<Rightarrow> Some (t, s) | None \<Rightarrow> makeStream w clientRTCPPort s);
     let dest = newDestinations sock destAddr clientRTPPort clientRTCPPort rtpChannel rtcpChannel;
     Some (\<lparr>ServerRTPPort = serverRTPPort token, ServerRTCPPort = serverRTCPPort token\<rparr>,
           s1\<lparr>lastStreamToken := Some token, destinations := (destinations s1)(clientSessionID \<mapsto> dest)\<rparr>)
   }"

text \<open>
  The three operations on a stream get the token of the session, which is nil or the stream of the subsession; the first two
  panic where it is nil.
  \<open>StartStream\<close> returns the destination for the goroutine that it starts.
\<close>

definition StartStream ::
  "world \<Rightarrow> string \<Rightarrow> FileServerMediaSubsession \<Rightarrow> ((u32 \<times> u32 \<times> Destinations option) \<times> FileServerMediaSubsession) option" where
  "StartStream w clientSessionID s = do {
     token \<leftarrow> lastStreamToken s;
     (case rtpSink token of
        None \<Rightarrow> Some ((0, 0, destinations s clientSessionID), s)
      | Some sink \<Rightarrow>
          let (ts, sink1) = presetNextTimestamp (w_now w) sink
          in Some ((seqNo sink, ts, destinations s clientSessionID),
                   s\<lparr>lastStreamToken := Some (token\<lparr>rtpSink := Some sink1\<rparr>)\<rparr>))
   }"

definition PauseStream :: "FileServerMediaSubsession \<Rightarrow> (stream_call list \<times> FileServerMediaSubsession) option" where
  "PauseStream s = do {
     token \<leftarrow> lastStreamToken s;
     let (calls, token1) = pause token;
     Some (calls, s\<lparr>lastStreamToken := Some token1\<rparr>)
   }"

definition DeleteStream ::
  "string \<Rightarrow> bool \<Rightarrow> FileServerMediaSubsession \<Rightarrow> (stream_call list \<times> FileServerMediaSubsession) option" where
  "DeleteStream sessionID hasToken s =
     (case if hasToken then lastStreamToken s else None of
        None \<Rightarrow>
          (case destinations s sessionID of
             Some d \<Rightarrow> if isTCP d then None else Some ([], s\<lparr>destinations := (destinations s)(sessionID := None)\<rparr>)
           | None \<Rightarrow> Some ([], s))
      | Some token \<Rightarrow> do {
          (calls1, token1) \<leftarrow> endPlaying (destinations s sessionID) token;
          (calls2, token2) \<leftarrow> reclaim token1;
          Some (calls1 @ calls2, s\<lparr>destinations := (destinations s)(sessionID := None), lastStreamToken := Some token2\<rparr>)
        })"

section \<open>Sessions\<close>

record ServerMediaSession =
  isSSM :: bool
  ipAddr :: string
  streamName :: string
  descSDPStr :: string
  infoSDPStr :: string
  miscSDPLines :: string
  referenceCount :: nat
  SubsessionCounter :: nat
  creationTime :: timeval
  Subsessions :: "FileServerMediaSubsession option list"

definition NewServerMediaSession :: "world \<Rightarrow> string \<Rightarrow> string \<Rightarrow> ServerMediaSession" where
  "NewServerMediaSession w description name =
     \<lparr>isSSM = False, ipAddr = w_ip w, streamName = name, descSDPStr = description @ '', streamed by the Dor Media Server'',
      infoSDPStr = name, miscSDPLines = [], referenceCount = 0, SubsessionCounter = 0, creationTime = w_now w,
      Subsessions = replicate 1024 None\<rparr>"

definition AddSubsession :: "FileServerMediaSubsession \<Rightarrow> ServerMediaSession \<Rightarrow> ServerMediaSession option" where
  "AddSubsession sub s = do {
     l \<leftarrow> put (Subsessions s) (SubsessionCounter s) (Some (sub\<lparr>hasParentSession := True, trackNumber := trackNumber sub + 1\<rparr>));
     Some (s\<lparr>Subsessions := l, SubsessionCounter := SubsessionCounter s + 1\<rparr>)
   }"

text \<open>The duration is always 0, the scale always 1.\<close>

definition sdpPrefix :: "ServerMediaSession \<Rightarrow> string" where
  "sdpPrefix s =
     ''v=0'' @ crlf @
     ''o=- '' @ show_int (tv_sec (creationTime s)) @ show_padded 6 (nat (tv_usec (creationTime s))) @ '' 1 IN IP4 '' @ ipAddr s @ crlf @
     ''s='' @ descSDPStr s @ crlf @
     ''i='' @ infoSDPStr s @ crlf @
     ''t=0 0'' @ crlf @
     ''a=tool:Dor Streaming Media v'' @ mediaServerVersion @ crlf @
     ''a=type:broadcast'' @ crlf @
     ''a=control:*'' @ crlf @
     (if isSSM s then ''a=source-filter: incl IN IP4 * '' @ ipAddr s @ crlf @ ''a=rtcp-unicast: reflection'' @ crlf else []) @
     ''a=range:npt=0-'' @ crlf @
     ''a=x-qt-text-nam:'' @ descSDPStr s @ crlf @
     ''a=x-qt-text-inf:'' @ infoSDPStr s @ crlf @
     miscSDPLines s"

text \<open>The lines of the first \<open>n\<close> subsessions.\<close>

fun subsessionLines :: "world \<Rightarrow> nat \<Rightarrow> ServerMediaSession \<Rightarrow> (string \<times> stream_call list \<times> ServerMediaSession) option" where
  "subsessionLines w 0 s = Some ([], [], s)"
| "subsessionLines w (Suc n) s = do {
     (lines, calls, s1) \<leftarrow> subsessionLines w n s;
     entry \<leftarrow> idx (Subsessions s1) n;
     sub \<leftarrow> entry;
     (l, c, sub1) \<leftarrow> SDPLines w sub;
     Some (lines @ l, calls @ c, s1\<lparr>Subsessions := (Subsessions s1)[n := Some sub1]\<rparr>)
   }"

definition GenerateSDPDescription :: "world \<Rightarrow> ServerMediaSession \<Rightarrow> (string \<times> stream_call list \<times> ServerMediaSession) option" where
  "GenerateSDPDescription w s = do {
     (lines, calls, s1) \<leftarrow> subsessionLines w (SubsessionCounter s) s;
     Some (sdpPrefix s @ lines, calls, s1)
   }"

end
