(* ===== verification/Auth.thy ===== *)
theory Auth
  imports GoString KeyedStore
begin

text \<open>
  \<^verbatim>\<open>auth/db.go\<close> and \<^verbatim>\<open>auth/digest.go\<close>: users and digest authentication.

  MD5 and its printing in hexadecimal are a parameter, \<open>md5\<close>, from the string that is hashed to the string that is
  printed. \<open>None\<close> is a panic; the map of the users is \<open>None\<close> while it is nil.
\<close>

section \<open>Users\<close>

record Database =
  db_Realm :: string
  db_records :: "(string \<rightharpoonup> string) option"

definition NewAuthDatabase :: "string \<Rightarrow> Database" where
  "NewAuthDatabase realm = \<lparr>db_Realm = (if realm = [] then ''dorsvr streaming server'' else realm), db_records = None\<rparr>"

text \<open>A nil map reads as an empty one; a write to it panics.\<close>

definition records_get :: "Database \<Rightarrow> string \<Rightarrow> string option" where
  "records_get d u = (case db_records d of None \<Rightarrow> None | Some m \<Rightarrow> m u)"

definition InsertUserRecord :: "string \<Rightarrow> string \<Rightarrow> Database \<Rightarrow> Database option" where
  "InsertUserRecord username pw d =
     (if username = [] \<or> pw = [] then Some d
      else if records_get d username = None
      then (case db_records d of None \<Rightarrow> None | Some m \<Rightarrow> Some (d\<lparr>db_records := Some (m(username \<mapsto> pw))\<rparr>))
      else Some d)"

definition RemoveUserRecord :: "string \<Rightarrow> Database \<Rightarrow> Database" where
  "RemoveUserRecord username d =
     (case db_records d of
        None \<Rightarrow> d
      | Some m \<Rightarrow> if m username \<noteq> None then d\<lparr>db_records := Some (m(username := None))\<rparr> else d)"

definition LookupPassword :: "Database \<Rightarrow> string \<Rightarrow> string" where
  "LookupPassword d username = (case records_get d username of None \<Rightarrow> [] | Some pw \<Rightarrow> pw)"

section \<open>Digests\<close>

record Digest =
  dg_Realm :: string
  dg_Nonce :: string
  dg_Username :: string
  dg_Password :: string

definition NewDigest :: Digest where
  "NewDigest = \<lparr>dg_Realm = [], dg_Nonce = [], dg_Username = [], dg_Password = []\<rparr>"

text \<open>The nonce and the new value of the counter that all connections share.\<close>

definition RandomNonce :: "(string \<Rightarrow> string) \<Rightarrow> nat \<Rightarrow> nat \<Rightarrow> nat \<Rightarrow> Digest \<Rightarrow> Digest \<times> nat" where
  "RandomNonce md5 sec usec counter d =
     (let c = counter + 1
      in (d\<lparr>dg_Nonce := md5 (show_nat sec @ ''.'' @ show_padded 6 usec @ show_nat c)\<rparr>, c))"

definition ComputeResponse :: "(string \<Rightarrow> string) \<Rightarrow> string \<Rightarrow> string \<Rightarrow> Digest \<Rightarrow> string" where
  "ComputeResponse md5 cmd url d =
     md5 (md5 (dg_Username d @ '':'' @ dg_Realm d @ '':'' @ dg_Password d) @ '':'' @ dg_Nonce d @ '':'' @
       md5 (cmd @ '':'' @ url))"

record AuthorizationHeader =
  ah_URI :: string
  ah_Realm :: string
  ah_Nonce :: string
  ah_Username :: string
  ah_Response :: string

text \<open>
  The fields are scanned with \<open>%[\<close>, which \<open>fmt\<close> does not have: both scans fail before they store anything, the loop ends
  in its first round, and all fields are empty.
\<close>

definition ParseAuthorizationHeader :: "string \<Rightarrow> AuthorizationHeader option" where
  "ParseAuthorizationHeader buf =
     (if buf = [] then None
      else case Index buf ''Authorization: Digest '' of
        None \<Rightarrow> None
      | Some _ \<Rightarrow> Some \<lparr>ah_URI = [], ah_Realm = [], ah_Nonce = [], ah_Username = [], ah_Response = []\<rparr>)"

section \<open>The data base as a keyed store\<close>


lemma RemoveUserRecord_get: "records_get (RemoveUserRecord u d) v = (if v = u then None else records_get d v)"
  by (auto simp: RemoveUserRecord_def records_get_def split: option.splits)

lemma InsertUserRecord_get:
  "InsertUserRecord u pw d = Some d' \<Longrightarrow> u \<noteq> [] \<Longrightarrow> pw \<noteq> [] \<Longrightarrow>
     records_get d' v = (if v = u then Some (case records_get d u of None \<Rightarrow> pw | Some old \<Rightarrow> old) else records_get d v)"
  by (auto simp: InsertUserRecord_def records_get_def split: option.splits if_splits)

text \<open>No user has an empty name.\<close>

definition db_wf :: "Database \<Rightarrow> bool" where
  "db_wf d \<longleftrightarrow> records_get d [] = None"

lemma db_wf_ops:
  "db_wf (NewAuthDatabase r)" "db_wf d \<Longrightarrow> db_wf (RemoveUserRecord u d)"
  "db_wf d \<Longrightarrow> InsertUserRecord u pw d = Some d' \<Longrightarrow> db_wf d'"
  by (auto simp: db_wf_def NewAuthDatabase_def records_get_def RemoveUserRecord_def InsertUserRecord_def split: option.splits if_splits)

lemma InsertUserRecord_panics: "db_records d = None \<Longrightarrow> u \<noteq> [] \<Longrightarrow> pw \<noteq> [] \<Longrightarrow> InsertUserRecord u pw d = None"
  by (simp add: InsertUserRecord_def records_get_def)

text \<open>The data base of a program that only uses its operations never has a user: its map is never made.\<close>

inductive db_reachable :: "Database \<Rightarrow> bool" where
  new: "db_reachable (NewAuthDatabase realm)"
| insert: "db_reachable d \<Longrightarrow> InsertUserRecord u pw d = Some d' \<Longrightarrow> db_reachable d'"
| remove: "db_reachable d \<Longrightarrow> db_reachable (RemoveUserRecord u d)"

lemma reachable_has_no_records: "db_reachable d \<Longrightarrow> db_records d = None"
  by (induction rule: db_reachable.induct)
    (auto simp: NewAuthDatabase_def InsertUserRecord_def records_get_def RemoveUserRecord_def split: if_splits)

lemma no_password: "db_records d = None \<Longrightarrow> LookupPassword d u = []"
  by (simp add: LookupPassword_def records_get_def)

end
