(* ===== verification/RtspServer.thy ===== *)
theory RtspServer
  imports MediaSession Auth
begin

text \<open>
  \<^verbatim>\<open>rtspserver/server.go\<close>, \<^verbatim>\<open>rtspserver/connection.go\<close> and \<^verbatim>\<open>rtspserver/session.go\<close>: the
  tables of the server and the handlers of the requests.

  Connections, client sessions and media sessions are shared by pointers; they are kept in stores under numbers, and
  a field that is a pointer holds the number. The tables of the server map names to these numbers. A goroutine that a
  handler starts is a task in the state, which a step of \<open>ServerRuns\<close> performs later. The calls to RTP and RTCP are
  appended to \<open>stream_calls\<close> with the stream they are made on. The locks are held for one operation on a table each;
  a handler is one step. MD5 is a parameter, see \<open>Auth\<close>. \<open>None\<close> is a handler that does not return: a panic, which ends
  the whole program, or a loop that never ends.
\<close>

section \<open>State\<close>

text \<open>A stream: the media session and the index of the subsession in it.\<close>

type_synonym stream = "nat \<times> nat"

record StreamServerState =
  subsession :: "stream option"
  streamToken :: "stream option"

record RTSPClientSession =
  isMulticast :: bool
  isTimerRunning :: bool
  streamAfterSETUP :: bool
  numStreamStates :: nat
  TCPStreamIDCount :: nat
  sessionID :: string
  streamStates :: "StreamServerState option"
  connection :: nat
  serverMediaSession :: "nat option"
  livenessTimeoutTimer :: bool

record RTSPClientConnection =
  localPort :: string
  remotePort :: string
  localAddr :: string
  remoteAddr :: string
  currentCSeq :: string
  sessionIDStr :: string
  responseBuffer :: string
  clientSession :: "nat option"
  digest :: Digest

text \<open>
  What a goroutine that a handler has started does next: make the timer of a session, start to play, or go on playing when the
  constructor of the RTCP instance has returned, at the time given, in nanoseconds.
\<close>

datatype task = LivenessTask nat | PlayTask stream "Destinations option" | WakeTask stream Destinations int

record RTSPServer =
  urlPrefix :: string
  rtspPort :: nat
  httpPort :: nat
  clientSessions :: "string \<rightharpoonup> nat"
  clientHTTPConnections :: "string \<rightharpoonup> nat"
  serverMediaSessions :: "string \<rightharpoonup> nat"
  authDatabase :: "Database option"
  connection_at :: "nat \<rightharpoonup> RTSPClientConnection"
  session_at :: "nat \<rightharpoonup> RTSPClientSession"
  media_at :: "nat \<rightharpoonup> ServerMediaSession"
  next_connection :: nat
  next_session :: nat
  next_media :: nat
  nonce_counter :: nat
  tasks :: "task list"
  stream_calls :: "(stream \<times> stream_call) list"

text \<open>The ports are the ones that \<open>Listen\<close> and \<open>SetupTunnelingOverHTTP\<close> store.\<close>

definition New :: "Database option \<Rightarrow> nat \<Rightarrow> nat \<Rightarrow> RTSPServer" where
  "New db port1 port2 =
     \<lparr>urlPrefix = [], rtspPort = port1, httpPort = port2, clientSessions = Map.empty, clientHTTPConnections = Map.empty,
      serverMediaSessions = Map.empty, authDatabase = db, connection_at = Map.empty, session_at = Map.empty,
      media_at = Map.empty, next_connection = 0, next_session = 0, next_media = 0, nonce_counter = 0, tasks = [],
      stream_calls = []\<rparr>"

text \<open>An object that a pointer leads to is changed.\<close>

definition mod_conn :: "nat \<Rightarrow> (RTSPClientConnection \<Rightarrow> RTSPClientConnection) \<Rightarrow> RTSPServer \<Rightarrow> RTSPServer option" where
  "mod_conn c f sv = do { x \<leftarrow> connection_at sv c; Some (sv\<lparr>connection_at := (connection_at sv)(c \<mapsto> f x)\<rparr>) }"

definition mod_session :: "nat \<Rightarrow> (RTSPClientSession \<Rightarrow> RTSPClientSession) \<Rightarrow> RTSPServer \<Rightarrow> RTSPServer option" where
  "mod_session a f sv = do { x \<leftarrow> session_at sv a; Some (sv\<lparr>session_at := (session_at sv)(a \<mapsto> f x)\<rparr>) }"

definition get_sub :: "stream \<Rightarrow> RTSPServer \<Rightarrow> FileServerMediaSubsession option" where
  "get_sub st sv = do { x \<leftarrow> media_at sv (fst st); entry \<leftarrow> idx (Subsessions x) (snd st); entry }"

definition put_sub :: "stream \<Rightarrow> FileServerMediaSubsession \<Rightarrow> RTSPServer \<Rightarrow> RTSPServer option" where
  "put_sub st sub sv = do {
     x \<leftarrow> media_at sv (fst st);
     l \<leftarrow> put (Subsessions x) (snd st) (Some sub);
     Some (sv\<lparr>media_at := (media_at sv)(fst st \<mapsto> x\<lparr>Subsessions := l\<rparr>)\<rparr>)
   }"

definition note_calls :: "stream \<Rightarrow> stream_call list \<Rightarrow> RTSPServer \<Rightarrow> RTSPServer" where
  "note_calls st calls sv = sv\<lparr>stream_calls := stream_calls sv @ map (Pair st) calls\<rparr>"

section \<open>The tables of the server\<close>

definition getServerMediaSession :: "RTSPServer \<Rightarrow> string \<Rightarrow> nat option" where
  "getServerMediaSession sv name = serverMediaSessions sv name"

definition addServerMediaSession :: "string \<Rightarrow> nat \<Rightarrow> RTSPServer \<Rightarrow> RTSPServer" where
  "addServerMediaSession name m sv = sv\<lparr>serverMediaSessions := (serverMediaSessions sv)(name \<mapsto> m)\<rparr>"

definition removeServerMediaSession :: "string \<Rightarrow> RTSPServer \<Rightarrow> RTSPServer" where
  "removeServerMediaSession name sv = sv\<lparr>serverMediaSessions := (serverMediaSessions sv)(name := None)\<rparr>"

definition getClientSession :: "RTSPServer \<Rightarrow> string \<Rightarrow> nat option" where
  "getClientSession sv ident = clientSessions sv ident"

definition addClientSession :: "string \<Rightarrow> nat \<Rightarrow> RTSPServer \<Rightarrow> RTSPServer" where
  "addClientSession ident a sv = sv\<lparr>clientSessions := (clientSessions sv)(ident \<mapsto> a)\<rparr>"

definition removeClientSession :: "string \<Rightarrow> RTSPServer \<Rightarrow> RTSPServer" where
  "removeClientSession ident sv = sv\<lparr>clientSessions := (clientSessions sv)(ident := None)\<rparr>"

interpretation sessions_tab: deletable_store addClientSession getClientSession removeClientSession
  by unfold_locales (simp_all add: addClientSession_def getClientSession_def removeClientSession_def)

interpretation media_tab: deletable_store addServerMediaSession getServerMediaSession removeServerMediaSession
  by unfold_locales (simp_all add: addServerMediaSession_def getServerMediaSession_def removeServerMediaSession_def)

text \<open>The session for a file, by its extension; a name without one has none, nor has another extension.\<close>

definition createNewSMS :: "world \<Rightarrow> string \<Rightarrow> ServerMediaSession option option" where
  "createNewSMS w name =
     (let array = Split name CHR ''.'' in
      if length array < 2 then Some None
      else if array ! 1 = ''264'' then
        map_option Some (AddSubsession (newFileMediaSubsession w H264FileMediaSubsession name) (NewServerMediaSession w ''H.264 Video'' name))
      else if array ! 1 = ''ts'' then
        map_option Some (AddSubsession (newFileMediaSubsession w M2TSFileMediaSubsession name)
          (NewServerMediaSession w ''MPEG Transport Stream'' name))
      else Some None)"

text \<open>A file without a session is added as a nil pointer, whose name is then asked for.\<close>

definition lookupServerMediaSession :: "world \<Rightarrow> string \<Rightarrow> RTSPServer \<Rightarrow> (nat option \<times> RTSPServer) option" where
  "lookupServerMediaSession w name sv =
     (let existed = getServerMediaSession sv name in
      if \<not> w_openable w name then
        Some (None, if existed \<noteq> None then removeServerMediaSession name sv else sv)
      else case existed of
        Some m \<Rightarrow> Some (Some m, sv)
      | None \<Rightarrow> do {
          created \<leftarrow> createNewSMS w name;
          sms \<leftarrow> created;
          let m = next_media sv;
          Some (Some m, addServerMediaSession (streamName sms) m
                  (sv\<lparr>media_at := (media_at sv)(m \<mapsto> sms), next_media := m + 1\<rparr>))
        })"

definition RtspURLPrefix :: "world \<Rightarrow> RTSPServer \<Rightarrow> string \<times> RTSPServer" where
  "RtspURLPrefix w sv = (''rtsp://'' @ w_ip w @ '':'' @ show_nat (rtspPort sv) @ ''/'', sv\<lparr>urlPrefix := w_ip w\<rparr>)"

definition RtspURL :: "world \<Rightarrow> string \<Rightarrow> RTSPServer \<Rightarrow> string \<times> RTSPServer" where
  "RtspURL w name sv = (let (p, sv1) = RtspURLPrefix w sv in (p @ name, sv1))"

section \<open>Responses\<close>

definition DateHeader :: "world \<Rightarrow> string" where
  "DateHeader w = ''Date: '' @ w_date w @ crlf"

definition join :: "string list \<Rightarrow> string" where
  "join l = concat (case l of [] \<Rightarrow> [] | x # xs \<Rightarrow> x # map (\<lambda>y. '' '' @ y) xs)"

definition allowed :: string where
  "allowed = ''['' @ join AllowedCommandNames @ '']''"

definition cseq_line :: "RTSPClientConnection \<Rightarrow> string" where
  "cseq_line c = ''CSeq: '' @ currentCSeq c @ crlf"

definition setRTSPResponse :: "world \<Rightarrow> nat \<Rightarrow> string \<Rightarrow> RTSPServer \<Rightarrow> RTSPServer option" where
  "setRTSPResponse w c str = mod_conn c (\<lambda>x. x\<lparr>responseBuffer := ''RTSP/1.0 '' @ str @ crlf @ cseq_line x @ DateHeader w @ crlf\<rparr>)"

definition setRTSPResponseWithSessionID :: "world \<Rightarrow> nat \<Rightarrow> string \<Rightarrow> string \<Rightarrow> RTSPServer \<Rightarrow> RTSPServer option" where
  "setRTSPResponseWithSessionID w c str ident = mod_conn c (\<lambda>x. x\<lparr>responseBuffer :=
     ''RTSP/1.0 '' @ str @ crlf @ cseq_line x @ DateHeader w @ ''Session: '' @ ident @ crlf @ crlf\<rparr>)"

definition handleCommandOptions :: "world \<Rightarrow> nat \<Rightarrow> RTSPServer \<Rightarrow> RTSPServer option" where
  "handleCommandOptions w c = mod_conn c (\<lambda>x. x\<lparr>responseBuffer :=
     ''RTSP/1.0 200 OK'' @ crlf @ cseq_line x @ DateHeader w @ ''Public: '' @ allowed @ crlf @ crlf\<rparr>)"

definition handleCommandNotFound :: "world \<Rightarrow> nat \<Rightarrow> RTSPServer \<Rightarrow> RTSPServer option" where
  "handleCommandNotFound w c = setRTSPResponse w c ''404 Stream Not Found''"

definition handleCommandSessionNotFound :: "world \<Rightarrow> nat \<Rightarrow> RTSPServer \<Rightarrow> RTSPServer option" where
  "handleCommandSessionNotFound w c = setRTSPResponse w c ''454 Session Not Found''"

definition handleCommandUnsupportedTransport :: "world \<Rightarrow> nat \<Rightarrow> RTSPServer \<Rightarrow> RTSPServer option" where
  "handleCommandUnsupportedTransport w c = setRTSPResponse w c ''461 Unsupported Transport''"

definition handleCommandBad :: "world \<Rightarrow> nat \<Rightarrow> RTSPServer \<Rightarrow> RTSPServer option" where
  "handleCommandBad w c = mod_conn c (\<lambda>x. x\<lparr>responseBuffer :=
     ''RTSP/1.0 400 Bad Request'' @ crlf @ DateHeader w @ ''Allow: '' @ allowed @ crlf @ crlf\<rparr>)"

definition handleCommandNotSupported :: "world \<Rightarrow> nat \<Rightarrow> RTSPServer \<Rightarrow> RTSPServer option" where
  "handleCommandNotSupported w c = mod_conn c (\<lambda>x. x\<lparr>responseBuffer :=
     ''RTSP/1.0 405 Method Not Allowed'' @ crlf @ cseq_line x @ DateHeader w @ ''Allow: '' @ allowed @ crlf @ crlf\<rparr>)"

definition handleHTTPCommandNotSupported :: "world \<Rightarrow> nat \<Rightarrow> RTSPServer \<Rightarrow> RTSPServer option" where
  "handleHTTPCommandNotSupported w c = mod_conn c (\<lambda>x. x\<lparr>responseBuffer :=
     ''HTTP/1.0 405 Method Not Allowed'' @ crlf @ DateHeader w @ crlf @ crlf\<rparr>)"

definition handleHTTPCommandTunnelingGET :: "nat \<Rightarrow> string \<Rightarrow> RTSPServer \<Rightarrow> RTSPServer option" where
  "handleHTTPCommandTunnelingGET c sessionCookie sv =
     mod_conn c (\<lambda>x. x\<lparr>responseBuffer :=
       ''HTTP/1.0 200 OK'' @ crlf @ ''Date: Thu, 19 Aug 1982 18:30:00 GMT'' @ crlf @ ''Cache-Control: no-cache'' @ crlf @
       ''Pragma: no-cache'' @ crlf @ ''Content-Type: application/x-rtsp-tunnelled'' @ crlf @ crlf\<rparr>)
       (if clientHTTPConnections sv sessionCookie = None
        then sv\<lparr>clientHTTPConnections := (clientHTTPConnections sv)(sessionCookie \<mapsto> c)\<rparr> else sv)"

section \<open>Authentication and descriptions\<close>

definition accepts :: "(string \<Rightarrow> string) \<Rightarrow> Database \<Rightarrow> string \<Rightarrow> string \<Rightarrow> Digest \<Rightarrow> bool \<times> Digest" where
  "accepts md5 db cmdName fullRequestStr d =
     (if dg_Nonce d = [] then (False, d)
      else case ParseAuthorizationHeader fullRequestStr of
        None \<Rightarrow> (False, d)
      | Some header \<Rightarrow>
          let d1 = d\<lparr>dg_Password := LookupPassword db (ah_Username header)\<rparr>
          in if dg_Password d1 = [] then (False, d1)
             else let d2 = d1\<lparr>dg_Username := ah_Username header\<rparr>
                  in (ComputeResponse md5 cmdName (ah_URI header) d2 = ah_Response header, d2))"

definition unauthorized :: "world \<Rightarrow> Digest \<Rightarrow> RTSPClientConnection \<Rightarrow> RTSPClientConnection" where
  "unauthorized w d x = x\<lparr>digest := d, responseBuffer :=
     ''RTSP/1.0 401 Unauthorized'' @ crlf @ cseq_line x @ DateHeader w @ ''WWW-Authenticate: Digest realm=\"'' @
     dg_Realm d @ ''\", nonce=\"'' @ dg_Nonce d @ ''\"'' @ crlf @ crlf\<rparr>"

definition authenticationOK ::
  "(string \<Rightarrow> string) \<Rightarrow> world \<Rightarrow> nat \<Rightarrow> string \<Rightarrow> string \<Rightarrow> RTSPServer \<Rightarrow> (bool \<times> RTSPServer) option" where
  "authenticationOK md5 w c cmdName fullRequestStr sv =
     (case authDatabase sv of
        None \<Rightarrow> Some (True, sv)
      | Some db \<Rightarrow> do {
          x \<leftarrow> connection_at sv c;
          let (ok, d) = accepts md5 db cmdName fullRequestStr (digest x);
          if ok then do { sv1 \<leftarrow> mod_conn c (\<lambda>x. x\<lparr>digest := d\<rparr>) sv; Some (True, sv1) }
          else do {
            let (d1, counter) = RandomNonce md5 (nat (tv_sec (w_now w))) (nat (tv_usec (w_now w))) (nonce_counter sv)
                                  (d\<lparr>dg_Realm := db_Realm db\<rparr>);
            sv1 \<leftarrow> mod_conn c (unauthorized w d1) (sv\<lparr>nonce_counter := counter\<rparr>);
            Some (False, sv1)
          }
        })"

definition described :: "world \<Rightarrow> string \<Rightarrow> string \<Rightarrow> RTSPClientConnection \<Rightarrow> RTSPClientConnection" where
  "described w rtspURL sdp x = x\<lparr>responseBuffer :=
     ''RTSP/1.0 200 OK'' @ crlf @ cseq_line x @ DateHeader w @ ''Content-Base: '' @ rtspURL @ ''/'' @ crlf @
     ''Content-Type: application/sdp'' @ crlf @ ''Content-Length: '' @ show_nat (length sdp) @ crlf @ crlf @ sdp\<rparr>"

lemma respond_fields [simp]:
  "clientSession (unauthorized w d x) = clientSession x" "currentCSeq (unauthorized w d x) = currentCSeq x"
  "clientSession (described w u sdp x) = clientSession x" "currentCSeq (described w u sdp x) = currentCSeq x"
  by (simp_all add: unauthorized_def described_def)

definition handleCommandDescribe ::
  "(string \<Rightarrow> string) \<Rightarrow> world \<Rightarrow> nat \<Rightarrow> string \<Rightarrow> string \<Rightarrow> string \<Rightarrow> RTSPServer \<Rightarrow> RTSPServer option" where
  "handleCommandDescribe md5 w c urlPreSuffix urlSuffix fullRequestStr sv = do {
     let urlTotalSuffix = (if urlPreSuffix \<noteq> [] then urlPreSuffix @ ''/'' @ urlSuffix else urlSuffix);
     (ok, sv1) \<leftarrow> authenticationOK md5 w c ''DESCRIPE'' fullRequestStr sv;
     if \<not> ok then Some sv1
     else do {
       (found, sv2) \<leftarrow> lookupServerMediaSession w urlTotalSuffix sv1;
       (case found of
          None \<Rightarrow> handleCommandNotFound w c sv2
        | Some m \<Rightarrow> do {
            sms \<leftarrow> media_at sv2 m;
            (sdp, calls, sms1) \<leftarrow> GenerateSDPDescription w sms;
            let sv3 = note_calls (m, 0) calls (sv2\<lparr>media_at := (media_at sv2)(m \<mapsto> sms1)\<rparr>);
            if sdp = [] then setRTSPResponse w c ''404 File Not Found, Or In Incorrect Format'' sv3
            else do {
              let (rtspURL, sv4) = RtspURL w (streamName sms1) sv3;
              mod_conn c (described w rtspURL sdp) sv4
            }
          })
     }
   }"

end
