(* ===== verification/RtspHandlers.thy ===== *)
theory RtspHandlers
  imports RtspServer
begin

text \<open>
  \<^verbatim>\<open>rtspserver/session.go\<close> and the dispatch of \<^verbatim>\<open>rtspserver/connection.go\<close>: the commands within a session, the
  requests of a connection, and the life of a session.
\<close>

section \<open>Life of a session\<close>

text \<open>The timer is made by the goroutine that \<open>noteLiveness\<close> starts; until then it is nil.\<close>

definition noteLiveness :: "nat \<Rightarrow> RTSPServer \<Rightarrow> RTSPServer option" where
  "noteLiveness a sv = do {
     s \<leftarrow> session_at sv a;
     if \<not> isTimerRunning s
     then mod_session a (\<lambda>s. s\<lparr>isTimerRunning := True\<rparr>) (sv\<lparr>tasks := tasks sv @ [LivenessTask a]\<rparr>)
     else if livenessTimeoutTimer s then Some sv else None
   }"

definition fresh_session :: "nat \<Rightarrow> string \<Rightarrow> RTSPClientSession" where
  "fresh_session c ident =
     \<lparr>isMulticast = False, isTimerRunning = False, streamAfterSETUP = False, numStreamStates = 0, TCPStreamIDCount = 0,
      sessionID = ident, streamStates = None, connection = c, serverMediaSession = None, livenessTimeoutTimer = False\<rparr>"

definition newRTSPClientSession :: "nat \<Rightarrow> string \<Rightarrow> RTSPServer \<Rightarrow> (nat \<times> RTSPServer) option" where
  "newRTSPClientSession c ident sv = do {
     let a = next_session sv;
     sv1 \<leftarrow> noteLiveness a (sv\<lparr>session_at := (session_at sv)(a \<mapsto> fresh_session c ident), next_session := a + 1\<rparr>);
     Some (a, sv1)
   }"

definition session_destroy :: "nat \<Rightarrow> RTSPServer \<Rightarrow> RTSPServer option" where
  "session_destroy a sv = do {
     s \<leftarrow> session_at sv a;
     if \<not> livenessTimeoutTimer s then None
     else
       let sv1 = removeClientSession (sessionID s) sv
       in case serverMediaSession s of
         None \<Rightarrow> Some sv1
       | Some m \<Rightarrow> do { sms \<leftarrow> media_at sv1 m; Some (removeServerMediaSession (streamName sms) sv1) }
   }"

section \<open>SETUP\<close>

text \<open>The stream of the session: the last subsession.\<close>

definition initStreamStates :: "nat \<Rightarrow> nat \<Rightarrow> RTSPServer \<Rightarrow> RTSPServer option" where
  "initStreamStates a m sv = do {
     s \<leftarrow> session_at sv a;
     if streamStates s \<noteq> None then Some sv
     else do {
       sms \<leftarrow> media_at sv m;
       let n = SubsessionCounter sms;
       st \<leftarrow> (if n = 0 then Some None
              else do { entry \<leftarrow> idx (Subsessions sms) (n - 1); Some (if entry = None then None else Some (m, n - 1)) });
       mod_session a (\<lambda>s. s\<lparr>numStreamStates := n, streamStates := Some \<lparr>subsession = st, streamToken = None\<rparr>\<rparr>) sv
     }
   }"

text \<open>The loop over the states looks at the same state each time; a track that does not match is taken all the same.\<close>

definition lookupTrack :: "nat \<Rightarrow> string \<Rightarrow> RTSPServer \<Rightarrow> (stream option \<times> RTSPServer) option" where
  "lookupTrack a track sv = do {
     s \<leftarrow> session_at sv a;
     st \<leftarrow> streamStates s;
     if track = [] then Some (subsession st, sv)
     else if numStreamStates s = 0 then Some (None, sv)
     else case subsession st of
       None \<Rightarrow> Some (None, sv)
     | Some p \<Rightarrow> do { sub \<leftarrow> get_sub p sv; sv1 \<leftarrow> put_sub p (snd (TrackID sub)) sv; Some (Some p, sv1) }
   }"

definition setup_response ::
  "world \<Rightarrow> RTSPClientSession \<Rightarrow> TransportHeader \<Rightarrow> nat \<Rightarrow> nat \<Rightarrow> StreamParameter \<Rightarrow> RTSPClientConnection \<Rightarrow> string option" where
  "setup_response w s th ch1 ch2 sp x =
     (let start = ''RTSP/1.0 200 OK'' @ crlf @ cseq_line x @ DateHeader w @ ''Transport: '';
          final = crlf @ ''Session: '' @ sessionID s @ crlf @ crlf;
          dst = remoteAddr x; src = localAddr x;
          p1 = show_nat (ServerRTPPort sp); p2 = show_nat (ServerRTCPPort sp)
      in if isMulticast s then
           (case StreamingMode th of
              RTP_UDP \<Rightarrow> Some (start @ ''RTP/AVP;multicast;destination='' @ dst @ '';source='' @ src @ '';port='' @ p1 @ ''-'' @ p2 @
                             '';ttl='' @ show_nat (DestinationTTL th) @ final)
            | RTP_TCP \<Rightarrow> None
            | RAW_UDP \<Rightarrow> Some (start @ dst @ '';multicast;destination='' @ src @ '';source='' @ p1 @ '';port='' @ p2 @
                             '';ttl='' @ show_nat (DestinationTTL th) @ final))
         else
           (case StreamingMode th of
              RTP_UDP \<Rightarrow> Some (start @ ''RTP/AVP;unicast;destination='' @ dst @ '';source='' @ src @ '';client_port='' @
                             show_nat (ClientRTPPortNum th) @ ''-'' @ show_nat (ClientRTCPPortNum th) @ '';server_port='' @ p1 @ ''-'' @ p2 @ final)
            | RTP_TCP \<Rightarrow> Some (start @ ''RTP/AVP/TCP;unicast;destination='' @ dst @ '';source='' @ src @ '';interleaved='' @
                             show_nat ch1 @ ''-'' @ show_nat ch2 @ final)
            | RAW_UDP \<Rightarrow> Some (start @ StreamingModeStr th @ '';unicast;destination='' @ dst @ '';source='' @ src @ '';client_port='' @
                             show_nat (ClientRTPPortNum th) @ '';server_port='' @ p1 @ final)))"

text \<open>The part of \<open>handleCommandSetup\<close> after the track has been found.\<close>

definition setup_stream :: "world \<Rightarrow> nat \<Rightarrow> stream option \<Rightarrow> string \<Rightarrow> RTSPServer \<Rightarrow> RTSPServer option" where
  "setup_stream w a found reqStr sv = do {
     s \<leftarrow> session_at sv a;
     x \<leftarrow> connection_at sv (connection s);
     let th = ParseTransportHeader reqStr;
     let tcp = (StreamingMode th = RTP_TCP);
     let ch1 = (if tcp \<and> RTPChannelID th = 0xFF then TCPStreamIDCount s else RTPChannelID th);
     let ch2 = (if tcp then TCPStreamIDCount s + 2 else RTCPChannelID th);
     let after = (snd (ParseRangeHeader reqStr) \<or> ParsePlayNowHeader reqStr);
     p \<leftarrow> found;
     sub \<leftarrow> get_sub p sv;
     (sp, sub1) \<leftarrow> GetStreamParameters w (if tcp then Some (connection s) else None) (remoteAddr x) (sessionID s)
                     (ClientRTPPortNum th) (ClientRTCPPortNum th) ch1 ch2 sub;
     sv1 \<leftarrow> put_sub p sub1 sv;
     sv2 \<leftarrow> mod_session a (\<lambda>s. s\<lparr>streamAfterSETUP := after,
              streamStates := map_option (\<lambda>st. st\<lparr>streamToken := Some p\<rparr>) (streamStates s)\<rparr>) sv1;
     (case setup_response w s th ch1 ch2 sp x of
        Some r \<Rightarrow> mod_conn (connection s) (\<lambda>x. x\<lparr>responseBuffer := r\<rparr>) sv2
      | None \<Rightarrow> handleCommandUnsupportedTransport w (connection s) sv2)
   }"

definition handleCommandSetup :: "world \<Rightarrow> nat \<Rightarrow> string \<Rightarrow> string \<Rightarrow> string \<Rightarrow> RTSPServer \<Rightarrow> RTSPServer option" where
  "handleCommandSetup w a urlPreSuffix urlSuffix reqStr sv = do {
     s \<leftarrow> session_at sv a;
     (found, sv1) \<leftarrow> lookupServerMediaSession w urlPreSuffix sv;
     (case found of
        None \<Rightarrow> if serverMediaSession s = None then handleCommandNotFound w (connection s) sv1
                else handleCommandBad w (connection s) sv1
      | Some m \<Rightarrow>
          if serverMediaSession s \<noteq> None \<and> serverMediaSession s \<noteq> Some m then handleCommandBad w (connection s) sv1
          else do {
            sv2 \<leftarrow> mod_session a (\<lambda>s. s\<lparr>serverMediaSession := Some m\<rparr>) sv1;
            sv3 \<leftarrow> initStreamStates a m sv2;
            (track, sv4) \<leftarrow> lookupTrack a urlSuffix sv3;
            setup_stream w a track reqStr sv4
          })
   }"

section \<open>Commands within a session\<close>

text \<open>The first subsession with the track, from \<open>i\<close> on; if there is none, the last one.\<close>

function findTrack :: "string \<Rightarrow> nat \<Rightarrow> nat \<Rightarrow> ServerMediaSession \<Rightarrow> (nat option \<times> ServerMediaSession) option" where
  "findTrack track i n sms =
     (if i < n then do {
        entry \<leftarrow> idx (Subsessions sms) i;
        sub \<leftarrow> entry;
        let (t, sub1) = TrackID sub;
        let sms1 = sms\<lparr>Subsessions := (Subsessions sms)[i := Some sub1]\<rparr>;
        if EqualFold t track \<or> i + 1 = n then Some (Some i, sms1) else findTrack track (i + 1) n sms1
      }
      else Some (None, sms))"
  by auto
termination by (relation "measure (\<lambda>(track, i, n, sms). n - i)") auto

declare findTrack.simps [simp del]

datatype target = NoTarget | Aggregate | Track nat

definition findTarget :: "string \<Rightarrow> string \<Rightarrow> ServerMediaSession \<Rightarrow> (target \<times> ServerMediaSession) option" where
  "findTarget urlPreSuffix urlSuffix sms =
     (let name = streamName sms in
      if urlSuffix \<noteq> [] \<and> EqualFold name urlPreSuffix then do {
        (i, sms1) \<leftarrow> findTrack urlSuffix 0 (SubsessionCounter sms) sms;
        Some (case i of None \<Rightarrow> NoTarget | Some i \<Rightarrow> Track i, sms1)
      }
      else if EqualFold name urlSuffix \<or> urlSuffix = [] \<and> EqualFold name urlPreSuffix then Some (Aggregate, sms)
      else if urlPreSuffix \<noteq> [] \<and> urlSuffix \<noteq> [] then
        Some (if EqualFold name urlPreSuffix \<and> name = [] \<and> EqualFold name urlSuffix then Aggregate else NoTarget, sms)
      else Some (NoTarget, sms))"

text \<open>
  The Range header of the answer to PLAY. Durations and scales are constants: 0 and 1; so the bounds of a range are cut down to 0
  and nothing is exchanged.
\<close>

definition rangeHeaderStr :: "string \<Rightarrow> string" where
  "rangeHeaderStr fullRequestStr =
     (case ParseRangeHeader fullRequestStr of
        (Some r, True) \<Rightarrow>
          if AbsStartTime r = [] then
            (if AbsEndTime r = [] then ''Range: clock='' @ AbsStartTime r @ ''-'' @ crlf
             else ''Range: clock='' @ AbsStartTime r @ ''-'' @ AbsEndTime r @ crlf)
          else ''Range: npt=0.000-'' @ crlf
      | _ \<Rightarrow> ''Range: npt=0.000-'' @ crlf)"

definition played :: "world \<Rightarrow> string \<Rightarrow> string \<Rightarrow> string \<Rightarrow> u32 \<Rightarrow> u32 \<Rightarrow> RTSPClientConnection \<Rightarrow> RTSPClientConnection" where
  "played w headers ident url rtpSeqNum rtpTimestamp x = x\<lparr>responseBuffer :=
     ''RTSP/1.0 200 OK'' @ crlf @ cseq_line x @ DateHeader w @ headers @ ''Session: '' @ ident @ crlf @ ''RTP-INFO: url='' @ url @
     '';seq='' @ show_nat (unat rtpSeqNum) @ '';rtptime='' @ show_nat (unat rtpTimestamp) @ crlf @ crlf\<rparr>"

lemma played_fields [simp]:
  "clientSession (played w h i u n t x) = clientSession x" "currentCSeq (played w h i u n t x) = currentCSeq x"
  by (simp_all add: played_def)

text \<open>The seek that a range asks for does nothing. The stream is the one of the session, whatever the target.\<close>

definition handleCommandPlay :: "world \<Rightarrow> nat \<Rightarrow> string \<Rightarrow> RTSPServer \<Rightarrow> RTSPServer option" where
  "handleCommandPlay w a fullRequestStr sv = do {
     s \<leftarrow> session_at sv a;
     m \<leftarrow> serverMediaSession s;
     sms \<leftarrow> media_at sv m;
     let (rtspURL, sv1) = RtspURL w (streamName sms) sv;
     let scaleHeaderStr = (if snd (ParseScaleHeader fullRequestStr) then ''Scale: 1.000000'' @ crlf else []);
     st \<leftarrow> streamStates s;
     p \<leftarrow> subsession st;
     _ \<leftarrow> streamToken st;
     sub \<leftarrow> get_sub p sv1;
     ((rtpSeqNum, rtpTimestamp, dest), sub1) \<leftarrow> StartStream w (sessionID s) sub;
     let (track, sub2) = TrackID sub1;
     sv2 \<leftarrow> put_sub p sub2 (sv1\<lparr>tasks := tasks sv1 @ [PlayTask p dest]\<rparr>);
     mod_conn (connection s) (played w (scaleHeaderStr @ rangeHeaderStr fullRequestStr) (sessionID s) (rtspURL @ ''/'' @ track)
       rtpSeqNum rtpTimestamp) sv2
   }"

definition handleCommandPause :: "world \<Rightarrow> nat \<Rightarrow> RTSPServer \<Rightarrow> RTSPServer option" where
  "handleCommandPause w a sv = do {
     s \<leftarrow> session_at sv a;
     st \<leftarrow> streamStates s;
     p \<leftarrow> subsession st;
     _ \<leftarrow> streamToken st;
     sub \<leftarrow> get_sub p sv;
     (calls, sub1) \<leftarrow> PauseStream sub;
     sv1 \<leftarrow> put_sub p sub1 sv;
     setRTSPResponseWithSessionID w (connection s) ''200 OK'' (sessionID s) (note_calls p calls sv1)
   }"

definition handleCommandGetParameter :: "world \<Rightarrow> nat \<Rightarrow> RTSPServer \<Rightarrow> RTSPServer option" where
  "handleCommandGetParameter w a sv = do {
     s \<leftarrow> session_at sv a;
     setRTSPResponseWithSessionID w (connection s) ''200 OK'' (sessionID s) sv
   }"

definition handleCommandSetParameter :: "world \<Rightarrow> nat \<Rightarrow> RTSPServer \<Rightarrow> RTSPServer option" where
  "handleCommandSetParameter w a sv = do {
     s \<leftarrow> session_at sv a;
     setRTSPResponseWithSessionID w (connection s) ''200 OK'' (sessionID s) sv
   }"

definition handleCommandTearDown :: "world \<Rightarrow> nat \<Rightarrow> RTSPServer \<Rightarrow> RTSPServer option" where
  "handleCommandTearDown w a sv = do {
     s \<leftarrow> session_at sv a;
     st \<leftarrow> streamStates s;
     p \<leftarrow> subsession st;
     sub \<leftarrow> get_sub p sv;
     (calls, sub1) \<leftarrow> DeleteStream (sessionID s) (streamToken st \<noteq> None) sub;
     sv1 \<leftarrow> put_sub p sub1 sv;
     sv2 \<leftarrow> setRTSPResponse w (connection s) ''200 OK'' (note_calls p calls sv1);
     session_destroy a sv2
   }"

definition handleCommandWithinSession ::
  "world \<Rightarrow> nat \<Rightarrow> string \<Rightarrow> string \<Rightarrow> string \<Rightarrow> string \<Rightarrow> RTSPServer \<Rightarrow> RTSPServer option" where
  "handleCommandWithinSession w a cmdName urlPreSuffix urlSuffix fullRequestStr sv = do {
     sv1 \<leftarrow> noteLiveness a sv;
     s \<leftarrow> session_at sv1 a;
     (case serverMediaSession s of
        None \<Rightarrow> handleCommandNotSupported w (connection s) sv1
      | Some m \<Rightarrow> do {
          sms \<leftarrow> media_at sv1 m;
          (target, sms1) \<leftarrow> findTarget urlPreSuffix urlSuffix sms;
          let sv2 = sv1\<lparr>media_at := (media_at sv1)(m \<mapsto> sms1)\<rparr>;
          if target = NoTarget then handleCommandNotFound w (connection s) sv2
          else if cmdName = ''TEARDOWN'' then handleCommandTearDown w a sv2
          else if cmdName = ''PLAY'' then handleCommandPlay w a fullRequestStr sv2
          else if cmdName = ''PAUSE'' then handleCommandPause w a sv2
          else if cmdName = ''GET_PARAMETER'' then handleCommandGetParameter w a sv2
          else if cmdName = ''SET_PARAMETER'' then handleCommandSetParameter w a sv2
          else Some sv2
        })
   }"

section \<open>A connection\<close>

definition newRTSPClientConnection :: "string \<Rightarrow> string \<Rightarrow> string \<Rightarrow> string \<Rightarrow> RTSPServer \<Rightarrow> nat \<times> RTSPServer" where
  "newRTSPClientConnection addr1 port1 addr2 port2 sv =
     (let c = next_connection sv;
          x = \<lparr>localPort = port1, remotePort = port2, localAddr = addr1, remoteAddr = addr2, currentCSeq = [], sessionIDStr = [],
               responseBuffer = [], clientSession = None, digest = NewDigest\<rparr>
      in (c, sv\<lparr>connection_at := (connection_at sv)(c \<mapsto> x), next_connection := c + 1\<rparr>))"

text \<open>\<open>%08X\<close> of a 32-bit number.\<close>

definition hex_digit :: "nat \<Rightarrow> char" where
  "hex_digit d = (if d < 10 then char_of (48 + d) else char_of (55 + d))"

definition show_hex8 :: "u32 \<Rightarrow> string" where
  "show_hex8 x = map (\<lambda>i. hex_digit (unat x div 16 ^ i mod 16)) [7, 6, 5, 4, 3, 2, 1, 0]"

text \<open>Random numbers are taken until one is not the name of a session.\<close>

partial_function (option) freshID :: "(nat \<Rightarrow> u32) \<Rightarrow> (string \<rightharpoonup> nat) \<Rightarrow> nat \<Rightarrow> string option" where
  "freshID random table i =
     (if table (show_hex8 (random i)) = None then Some (show_hex8 (random i)) else freshID random table (i + 1))"

definition handleSetup :: "world \<Rightarrow> nat \<Rightarrow> RTSPRequestInfo \<Rightarrow> string \<Rightarrow> RTSPServer \<Rightarrow> RTSPServer option" where
  "handleSetup w c info reqStr sv = do {
     sv1 \<leftarrow>
       (if SessionIDStr info = [] then do {
          ident \<leftarrow> freshID (w_sessionIDs w) (clientSessions sv) 0;
          sv1 \<leftarrow> mod_conn c (\<lambda>x. x\<lparr>sessionIDStr := ident\<rparr>) sv;
          (a, sv2) \<leftarrow> newRTSPClientSession c ident sv1;
          sv3 \<leftarrow> mod_conn c (\<lambda>x. x\<lparr>clientSession := Some a\<rparr>) sv2;
          Some (addClientSession ident a sv3)
        }
        else do {
          let found = getClientSession sv (SessionIDStr info);
          sv1 \<leftarrow> mod_conn c (\<lambda>x. x\<lparr>clientSession := found\<rparr>) sv;
          if found = None then handleCommandSessionNotFound w c sv1 else Some sv1
        });
     x \<leftarrow> connection_at sv1 c;
     (case clientSession x of
        None \<Rightarrow> Some sv1
      | Some a \<Rightarrow> handleCommandSetup w a (UrlPreSuffix info) (UrlSuffix info) reqStr sv1)
   }"

definition handleInSession :: "world \<Rightarrow> nat \<Rightarrow> RTSPRequestInfo \<Rightarrow> string \<Rightarrow> RTSPServer \<Rightarrow> RTSPServer option" where
  "handleInSession w c info reqStr sv = do {
     let found = getClientSession sv (SessionIDStr info);
     sv1 \<leftarrow> mod_conn c (\<lambda>x. x\<lparr>clientSession := found\<rparr>) sv;
     (case found of
        Some a \<Rightarrow> handleCommandWithinSession w a (CmdName info) (UrlPreSuffix info) (UrlSuffix info) reqStr sv1
      | None \<Rightarrow> handleCommandSessionNotFound w c sv1)
   }"

definition inSessionCommands :: "string list" where
  "inSessionCommands = [''PLAY'', ''PAUSE'', ''TEARDOWN'', ''GET_PARAMETER'', ''SET_PARAMETER'']"

definition handleRTSPRequest ::
  "(string \<Rightarrow> string) \<Rightarrow> world \<Rightarrow> nat \<Rightarrow> RTSPRequestInfo \<Rightarrow> string \<Rightarrow> RTSPServer \<Rightarrow> RTSPServer option" where
  "handleRTSPRequest md5 w c info reqStr sv = do {
     sv1 \<leftarrow> mod_conn c (\<lambda>x. x\<lparr>currentCSeq := Cseq info, sessionIDStr := SessionIDStr info\<rparr>) sv;
     if CmdName info = ''OPTIONS'' then handleCommandOptions w c sv1
     else if CmdName info = ''DESCRIBE'' then handleCommandDescribe md5 w c (UrlPreSuffix info) (UrlSuffix info) reqStr sv1
     else if CmdName info = ''SETUP'' then handleSetup w c info reqStr sv1
     else if CmdName info \<in> set inSessionCommands then handleInSession w c info reqStr sv1
     else if CmdName info = ''RECORD'' then Some sv1
     else handleCommandNotSupported w c sv1
   }"

definition handleHTTPRequest :: "world \<Rightarrow> nat \<Rightarrow> HTTPRequestInfo \<Rightarrow> RTSPServer \<Rightarrow> RTSPServer option" where
  "handleHTTPRequest w c info sv =
     (if HttpCmdName info = ''GET'' then handleHTTPCommandTunnelingGET c (SessionCookie info) sv
      else if HttpCmdName info = ''POST'' then Some sv
      else handleHTTPCommandNotSupported w c sv)"

text \<open>A request: the bytes written to the socket, and the state after it.\<close>

definition handleRequestBytes ::
  "(string \<Rightarrow> string) \<Rightarrow> world \<Rightarrow> nat \<Rightarrow> string \<Rightarrow> RTSPServer \<Rightarrow> (string \<times> RTSPServer) option" where
  "handleRequestBytes md5 w c reqStr sv = do {
     parsed \<leftarrow> ParseRTSPRequestString reqStr;
     sv1 \<leftarrow> (case parsed of
              Some info \<Rightarrow> handleRTSPRequest md5 w c info reqStr sv
            | None \<Rightarrow> (case ParseHTTPRequestString reqStr of
                Some info \<Rightarrow> handleHTTPRequest w c info sv
              | None \<Rightarrow> handleCommandBad w c sv));
     x \<leftarrow> connection_at sv1 c;
     Some (responseBuffer x, sv1)
   }"

text \<open>The end of \<open>incomingRequestHandler\<close>.\<close>

definition disconnect :: "nat \<Rightarrow> RTSPServer \<Rightarrow> RTSPServer option" where
  "disconnect c sv = do {
     x \<leftarrow> connection_at sv c;
     (case clientSession x of None \<Rightarrow> Some sv | Some a \<Rightarrow> session_destroy a sv)
   }"

section \<open>Tasks\<close>

definition start_timer :: "nat \<Rightarrow> RTSPServer \<Rightarrow> RTSPServer option" where
  "start_timer a = mod_session a (\<lambda>s. s\<lparr>livenessTimeoutTimer := True\<rparr>)"

text \<open>The goroutine of PLAY; when it sleeps, what is left of it is a task that can be performed from the end of the sleep on.\<close>

definition play_stream :: "world \<Rightarrow> stream \<Rightarrow> Destinations option \<Rightarrow> RTSPServer \<Rightarrow> RTSPServer option" where
  "play_stream w p dest sv = do {
     sub \<leftarrow> get_sub p sv;
     token \<leftarrow> lastStreamToken sub;
     (calls, sleep, token1) \<leftarrow> startPlaying w (cname sub) dest token;
     sv1 \<leftarrow> put_sub p (sub\<lparr>lastStreamToken := Some token1\<rparr>) sv;
     let sv2 = note_calls p calls sv1;
     Some (case (dest, sleep) of
             (Some d, Some ns) \<Rightarrow> sv2\<lparr>tasks := tasks sv2 @ [WakeTask p d (nanos w + ns)]\<rparr>
           | _ \<Rightarrow> sv2)
   }"

definition wake_stream :: "stream \<Rightarrow> Destinations \<Rightarrow> RTSPServer \<Rightarrow> RTSPServer option" where
  "wake_stream p d sv = do {
     sub \<leftarrow> get_sub p sv;
     token \<leftarrow> lastStreamToken sub;
     let (calls, token1) = startPlayingWoken d token;
     sv1 \<leftarrow> put_sub p (sub\<lparr>lastStreamToken := Some token1\<rparr>) sv;
     Some (note_calls p calls sv1)
   }"

definition played_stream :: "stream \<Rightarrow> RTSPServer \<Rightarrow> RTSPServer option" where
  "played_stream p sv = do {
     sub \<leftarrow> get_sub p sv;
     token \<leftarrow> lastStreamToken sub;
     put_sub p (sub\<lparr>lastStreamToken := Some (startPlayingReturned token)\<rparr>) sv
   }"

text \<open>A task that sleeps is not due before its time.\<close>

fun due :: "world \<Rightarrow> task \<Rightarrow> bool" where
  "due w (WakeTask p d until) \<longleftrightarrow> until \<le> nanos w"
| "due w _ \<longleftrightarrow> True"

definition perform :: "world \<Rightarrow> task \<Rightarrow> RTSPServer \<Rightarrow> RTSPServer option" where
  "perform w t sv =
     (case t of
        LivenessTask a \<Rightarrow> start_timer a sv
      | PlayTask p dest \<Rightarrow> play_stream w p dest sv
      | WakeTask p d until \<Rightarrow> wake_stream p d sv)"

end
