(* ===== verification/ServerInvariant.thy ===== *)
theory ServerInvariant
  imports RtspHandlers
begin

text \<open>
  The invariant of the server's state, and that every handler keeps it. While SETUP works on a session, the
  session has its media session but not yet its stream; so the part of the invariant about the streams of the sessions is
  stated for all sessions but those of a set \<open>E\<close>.
\<close>

section \<open>The invariant\<close>

text \<open>An RTCP instance belongs to a sink, and a sink comes with a socket for RTCP. A TCP stream is in the interface of the sink once.\<close>

definition stream_ok :: "StreamState \<Rightarrow> bool" where
  "stream_ok t \<longleftrightarrow> (rtcpInstance t \<longrightarrow> rtpSink t \<noteq> None) \<and> (rtpSink t \<noteq> None \<longrightarrow> rtcpGS t \<noteq> None) \<and>
     distinct (tcpStreams (sinkInterface t))"

definition sub_ok :: "FileServerMediaSubsession \<Rightarrow> bool" where
  "sub_ok sub \<longleftrightarrow> initialPortNum sub = 6970 \<and> (\<forall>t. lastStreamToken sub = Some t \<longrightarrow> stream_ok t)"

text \<open>A media session has one subsession, whose file has the name of the session.\<close>

definition media_ok :: "ServerMediaSession \<Rightarrow> bool" where
  "media_ok x \<longleftrightarrow> SubsessionCounter x = 1 \<and> (\<exists>sub l. Subsessions x = Some sub # l \<and> sub_ok sub \<and> fileName sub = streamName x)"

definition stream_made :: "(nat \<rightharpoonup> ServerMediaSession) \<Rightarrow> stream \<Rightarrow> bool" where
  "stream_made M p \<longleftrightarrow>
     snd p = 0 \<and> (\<exists>x sub l. M (fst p) = Some x \<and> Subsessions x = Some sub # l \<and> lastStreamToken sub \<noteq> None)"

text \<open>A goroutine that sleeps in the constructor of the RTCP instance plays a stream with a sink.\<close>

definition sink_made :: "(nat \<rightharpoonup> ServerMediaSession) \<Rightarrow> stream \<Rightarrow> bool" where
  "sink_made M p \<longleftrightarrow>
     snd p = 0 \<and> (\<exists>x sub l t. M (fst p) = Some x \<and> Subsessions x = Some sub # l \<and> lastStreamToken sub = Some t \<and> rtpSink t \<noteq> None)"

definition linked :: "(nat \<rightharpoonup> ServerMediaSession) \<Rightarrow> RTSPClientSession \<Rightarrow> bool" where
  "linked M s \<longleftrightarrow>
     (case serverMediaSession s of
        None \<Rightarrow> streamStates s = None
      | Some m \<Rightarrow> numStreamStates s = 1 \<and> streamStates s = Some \<lparr>subsession = Some (m, 0), streamToken = Some (m, 0)\<rparr> \<and>
          stream_made M (m, 0))"

definition tables_ok :: "RTSPServer \<Rightarrow> bool" where
  "tables_ok sv \<longleftrightarrow>
     (\<forall>ident a. clientSessions sv ident = Some a \<longrightarrow> map_option sessionID (session_at sv a) = Some ident) \<and>
     (\<forall>name m. serverMediaSessions sv name = Some m \<longrightarrow> map_option streamName (media_at sv m) = Some name)"

definition connections_ok :: "RTSPServer \<Rightarrow> bool" where
  "connections_ok sv \<longleftrightarrow>
     (\<forall>c x. connection_at sv c = Some x \<longrightarrow> c < next_connection sv \<and> (\<forall>a. clientSession x = Some a \<longrightarrow> session_at sv a \<noteq> None))"

definition sessions_ok :: "RTSPServer \<Rightarrow> bool" where
  "sessions_ok sv \<longleftrightarrow>
     (\<forall>a s. session_at sv a = Some s \<longrightarrow>
        a < next_session sv \<and> isTimerRunning s \<and> \<not> isMulticast s \<and> connection_at sv (connection s) \<noteq> None)"

definition medias_ok :: "RTSPServer \<Rightarrow> bool" where
  "medias_ok sv \<longleftrightarrow> (\<forall>m x. media_at sv m = Some x \<longrightarrow> m < next_media sv \<and> media_ok x)"

fun task_ok :: "(nat \<rightharpoonup> RTSPClientSession) \<Rightarrow> (nat \<rightharpoonup> ServerMediaSession) \<Rightarrow> task \<Rightarrow> bool" where
  "task_ok S M (LivenessTask a) \<longleftrightarrow> S a \<noteq> None"
| "task_ok S M (PlayTask p d) \<longleftrightarrow> stream_made M p"
| "task_ok S M (WakeTask p d until) \<longleftrightarrow> sink_made M p"

definition tasks_ok :: "RTSPServer \<Rightarrow> bool" where
  "tasks_ok sv \<longleftrightarrow> (\<forall>t \<in> set (tasks sv). task_ok (session_at sv) (media_at sv) t)"

lemma task_ok_mono:
  "task_ok S M t \<Longrightarrow> (\<And>a. S a \<noteq> None \<Longrightarrow> S' a \<noteq> None) \<Longrightarrow> (\<And>p. stream_made M p \<Longrightarrow> stream_made M' p) \<Longrightarrow>
     (\<And>p. sink_made M p \<Longrightarrow> sink_made M' p) \<Longrightarrow> task_ok S' M' t"
  by (cases t) auto

definition streams_ok :: "nat set \<Rightarrow> RTSPServer \<Rightarrow> bool" where
  "streams_ok E sv \<longleftrightarrow> (\<forall>a s. session_at sv a = Some s \<longrightarrow> a \<notin> E \<longrightarrow> linked (media_at sv) s)"

definition server_ok :: "nat set \<Rightarrow> RTSPServer \<Rightarrow> bool" where
  "server_ok E sv \<longleftrightarrow>
     tables_ok sv \<and> connections_ok sv \<and> sessions_ok sv \<and> medias_ok sv \<and> tasks_ok sv \<and> streams_ok E sv"

lemmas parts_def = tables_ok_def connections_ok_def sessions_ok_def medias_ok_def tasks_ok_def streams_ok_def

lemma server_okI:
  "tables_ok sv \<Longrightarrow> connections_ok sv \<Longrightarrow> sessions_ok sv \<Longrightarrow> medias_ok sv \<Longrightarrow> tasks_ok sv \<Longrightarrow> streams_ok E sv \<Longrightarrow> server_ok E sv"
  by (simp add: server_ok_def)

lemma server_okD:
  assumes "server_ok E sv"
  shows "tables_ok sv" "connections_ok sv" "sessions_ok sv" "medias_ok sv" "tasks_ok sv" "streams_ok E sv"
  using assms by (simp_all add: server_ok_def)

lemma linkedD: "server_ok E sv \<Longrightarrow> session_at sv a = Some s \<Longrightarrow> a \<notin> E \<Longrightarrow> linked (media_at sv) s"
  unfolding server_ok_def streams_ok_def by blast

lemma linked_SomeD:
  "linked M s \<Longrightarrow> serverMediaSession s = Some m \<Longrightarrow> numStreamStates s = 1 \<and>
     streamStates s = Some \<lparr>subsession = Some (m, 0), streamToken = Some (m, 0)\<rparr> \<and> stream_made M (m, 0)"
  by (simp add: linked_def)

lemma found_session:
  "server_ok E sv \<Longrightarrow> getClientSession sv ident = Some a \<Longrightarrow> \<exists>s. session_at sv a = Some s \<and> sessionID s = ident"
  unfolding server_ok_def tables_ok_def getClientSession_def by (metis map_option_eq_Some)

lemma server_ok_mono: "server_ok E sv \<Longrightarrow> E \<subseteq> F \<Longrightarrow> server_ok F sv"
  by (auto simp: server_ok_def streams_ok_def)

text \<open>Fields that the invariant does not mention.\<close>

lemma server_ok_frame [simp]:
  "server_ok E (sv\<lparr>urlPrefix := u\<rparr>) = server_ok E sv"
  "server_ok E (sv\<lparr>nonce_counter := n\<rparr>) = server_ok E sv"
  "server_ok E (sv\<lparr>stream_calls := cs\<rparr>) = server_ok E sv"
  "server_ok E (sv\<lparr>clientHTTPConnections := h\<rparr>) = server_ok E sv"
  by (simp_all add: server_ok_def parts_def)

lemma server_ok_note_calls [simp]: "server_ok E (note_calls p calls sv) = server_ok E sv"
  by (simp add: note_calls_def)

section \<open>Connections\<close>

definition keeps_session :: "RTSPServer \<Rightarrow> (RTSPClientConnection \<Rightarrow> RTSPClientConnection) \<Rightarrow> bool" where
  "keeps_session sv f \<longleftrightarrow> (\<forall>x a. clientSession (f x) = Some a \<longrightarrow> clientSession x = Some a \<or> session_at sv a \<noteq> None)"

lemma mod_conn_ok:
  assumes "mod_conn c f sv = Some sv'" and "server_ok E sv" and "keeps_session sv f"
  shows "server_ok E sv'"
proof -
  obtain x where x: "connection_at sv c = Some x" and sv': "sv' = sv\<lparr>connection_at := (connection_at sv)(c \<mapsto> f x)\<rparr>"
    using assms(1) by (auto simp: mod_conn_def bind_simps)
  note ok = server_okD [OF assms(2)]
  show ?thesis unfolding sv'
  proof (rule server_okI)
    show "connections_ok (sv\<lparr>connection_at := (connection_at sv)(c \<mapsto> f x)\<rparr>)"
      using ok(2) x assms(3) unfolding connections_ok_def keeps_session_def by (simp del: not_None_eq) metis
    show "sessions_ok (sv\<lparr>connection_at := (connection_at sv)(c \<mapsto> f x)\<rparr>)" using ok(3) by (auto simp: sessions_ok_def)
  qed (use ok in \<open>simp_all add: tables_ok_def medias_ok_def tasks_ok_def streams_ok_def\<close>)
qed

lemma keeps_session_same: "(\<And>x. clientSession (f x) = clientSession x) \<Longrightarrow> keeps_session sv f"
  by (simp add: keeps_session_def)

lemma mod_conn_frame:
  assumes "mod_conn c f sv = Some sv'"
  shows "session_at sv' = session_at sv" "media_at sv' = media_at sv" "clientSessions sv' = clientSessions sv" "tasks sv' = tasks sv"
    "authDatabase sv' = authDatabase sv" "next_session sv' = next_session sv" "serverMediaSessions sv' = serverMediaSessions sv"
  using assms by (auto simp: mod_conn_def bind_simps)

text \<open>The simple handlers write a response and nothing else.\<close>

lemmas responses = setRTSPResponse_def setRTSPResponseWithSessionID_def handleCommandOptions_def handleCommandNotFound_def
  handleCommandSessionNotFound_def handleCommandUnsupportedTransport_def handleCommandBad_def handleCommandNotSupported_def
  handleHTTPCommandNotSupported_def

lemma response_ok:
  assumes "server_ok E sv"
  shows "setRTSPResponse w c str sv = Some sv' \<Longrightarrow> server_ok E sv'"
    "setRTSPResponseWithSessionID w c str ident sv = Some sv' \<Longrightarrow> server_ok E sv'"
    "handleCommandOptions w c sv = Some sv' \<Longrightarrow> server_ok E sv'"
    "handleCommandNotFound w c sv = Some sv' \<Longrightarrow> server_ok E sv'"
    "handleCommandSessionNotFound w c sv = Some sv' \<Longrightarrow> server_ok E sv'"
    "handleCommandUnsupportedTransport w c sv = Some sv' \<Longrightarrow> server_ok E sv'"
    "handleCommandBad w c sv = Some sv' \<Longrightarrow> server_ok E sv'"
    "handleCommandNotSupported w c sv = Some sv' \<Longrightarrow> server_ok E sv'"
    "handleHTTPCommandNotSupported w c sv = Some sv' \<Longrightarrow> server_ok E sv'"
  unfolding responses by (erule mod_conn_ok [OF _ assms], simp add: keeps_session_def)+

lemma tunneling_ok: "server_ok E sv \<Longrightarrow> handleHTTPCommandTunnelingGET c cookie sv = Some sv' \<Longrightarrow> server_ok E sv'"
  unfolding handleHTTPCommandTunnelingGET_def by (erule mod_conn_ok) (auto simp: keeps_session_def)

section \<open>Sessions\<close>

lemma mod_session_frame:
  assumes "mod_session a f sv = Some sv'"
  shows "media_at sv' = media_at sv" "connection_at sv' = connection_at sv" "clientSessions sv' = clientSessions sv"
    "serverMediaSessions sv' = serverMediaSessions sv" "\<exists>s. session_at sv a = Some s \<and> session_at sv' = (session_at sv)(a \<mapsto> f s)"
  using assms by (auto simp: mod_session_def bind_simps)

definition keeps_identity :: "(RTSPClientSession \<Rightarrow> RTSPClientSession) \<Rightarrow> bool" where
  "keeps_identity f \<longleftrightarrow>
     (\<forall>s. sessionID (f s) = sessionID s \<and> connection (f s) = connection s \<and> isMulticast (f s) = isMulticast s \<and>
        (isTimerRunning s \<longrightarrow> isTimerRunning (f s)))"

lemma mod_session_ok:
  assumes "mod_session a f sv = Some sv'" and "server_ok E sv" and "keeps_identity f"
  shows "server_ok (insert a E) sv'"
    and "(\<And>s. session_at sv a = Some s \<Longrightarrow> linked (media_at sv) (f s)) \<Longrightarrow> server_ok (E - {a}) sv'"
proof -
  obtain s where s: "session_at sv a = Some s" and sv': "sv' = sv\<lparr>session_at := (session_at sv)(a \<mapsto> f s)\<rparr>"
    using assms(1) by (auto simp: mod_session_def bind_simps)
  note ok = server_okD [OF assms(2)]
  have f: "sessionID (f s) = sessionID s" "connection (f s) = connection s" "isMulticast (f s) = isMulticast s"
    "isTimerRunning s \<Longrightarrow> isTimerRunning (f s)" using assms(3) by (auto simp: keeps_identity_def)
  have "tables_ok sv'" using ok(1) s f unfolding sv' tables_ok_def by fastforce
  moreover have "connections_ok sv'" using ok(2) unfolding sv' connections_ok_def by fastforce
  moreover have "sessions_ok sv'" using ok(3) s f unfolding sv' sessions_ok_def by auto
  moreover have "medias_ok sv'" using ok(4) unfolding sv' medias_ok_def by simp
  moreover have "tasks_ok sv'" using ok(5) unfolding sv' tasks_ok_def by (auto intro: task_ok_mono)
  moreover have "streams_ok (insert a E) sv'" using ok(6) unfolding sv' streams_ok_def by auto
  moreover have "streams_ok (E - {a}) sv'" if "linked (media_at sv) (f s)" using ok(6) that unfolding sv' streams_ok_def by auto
  ultimately show "server_ok (insert a E) sv'" "(\<And>s. session_at sv a = Some s \<Longrightarrow> linked (media_at sv) (f s)) \<Longrightarrow> server_ok (E - {a}) sv'"
    using s by (simp_all add: server_ok_def)
qed

section \<open>Media sessions\<close>

lemma get_sub_made: "stream_made (media_at sv) p \<Longrightarrow> \<exists>sub. get_sub p sv = Some sub \<and> lastStreamToken sub \<noteq> None"
  by (cases p) (auto simp: stream_made_def get_sub_def)

lemma get_sub_ok:
  assumes "get_sub p sv = Some sub" and "server_ok E sv" and "snd p = 0"
  shows "sub_ok sub"
proof -
  obtain x where x: "media_at sv (fst p) = Some x" "idx (Subsessions x) (snd p) = Some (Some sub)"
    using assms(1) by (auto simp: get_sub_def bind_simps)
  have "media_ok x" using server_okD(4) [OF assms(2)] x(1) by (simp add: medias_ok_def)
  then show ?thesis using x(2) assms(3) by (auto simp: media_ok_def)
qed

text \<open>A media session is changed: its name stays, and so does its stream.\<close>

definition has_stream :: "ServerMediaSession \<Rightarrow> bool" where
  "has_stream x \<longleftrightarrow> (\<exists>sub l. Subsessions x = Some sub # l \<and> lastStreamToken sub \<noteq> None)"

definition has_sink :: "ServerMediaSession \<Rightarrow> bool" where
  "has_sink x \<longleftrightarrow> (\<exists>sub l t. Subsessions x = Some sub # l \<and> lastStreamToken sub = Some t \<and> rtpSink t \<noteq> None)"

definition keeps_stream :: "ServerMediaSession \<Rightarrow> ServerMediaSession \<Rightarrow> bool" where
  "keeps_stream x x' \<longleftrightarrow> (has_stream x \<longrightarrow> has_stream x') \<and> (has_sink x \<longrightarrow> has_sink x')"

text \<open>The same for the stream of a subsession.\<close>

fun keeps_token :: "StreamState option \<Rightarrow> StreamState option \<Rightarrow> bool" where
  "keeps_token None new = True"
| "keeps_token (Some t) None = False"
| "keeps_token (Some t) (Some t') = (rtpSink t \<noteq> None \<longrightarrow> rtpSink t' \<noteq> None)"

definition keeps_sub :: "FileServerMediaSubsession \<Rightarrow> FileServerMediaSubsession \<Rightarrow> bool" where
  "keeps_sub sub sub' \<longleftrightarrow> keeps_token (lastStreamToken sub) (lastStreamToken sub') \<and> fileName sub' = fileName sub"

lemma keeps_token_refl [simp]: "keeps_token token token"
  by (cases token) simp_all

lemma keeps_token_made: "keeps_token old new \<Longrightarrow> old \<noteq> None \<Longrightarrow> new \<noteq> None"
  by (cases old; cases new) simp_all

lemma keeps_sub_simp [simp]:
  "keeps_sub sub sub' = (keeps_token (lastStreamToken sub) (lastStreamToken sub') \<and> fileName sub' = fileName sub)"
  by (rule keeps_sub_def)

lemma keeps_stream_first:
  "Subsessions x = Some sub # l \<Longrightarrow> Subsessions x' = Some sub' # l' \<Longrightarrow> keeps_token (lastStreamToken sub) (lastStreamToken sub') \<Longrightarrow>
     keeps_stream x x'"
  by (cases "lastStreamToken sub"; cases "lastStreamToken sub'") (auto simp: keeps_stream_def has_stream_def has_sink_def)

lemma sink_made_iff: "sink_made M p \<longleftrightarrow> snd p = 0 \<and> (\<exists>x. M (fst p) = Some x \<and> has_sink x)"
  by (auto simp: sink_made_def has_sink_def)

lemma stream_made_iff: "stream_made M p \<longleftrightarrow> snd p = 0 \<and> (\<exists>x. M (fst p) = Some x \<and> has_stream x)"
  by (auto simp: stream_made_def has_stream_def)

lemma linked_mono: "linked M s \<Longrightarrow> \<forall>p. stream_made M p \<longrightarrow> stream_made M' p \<Longrightarrow> linked M' s"
  by (auto simp: linked_def split: option.splits)

lemma media_update_ok:
  assumes "server_ok E sv" and "media_at sv m = Some x" and "media_ok x'" and "streamName x' = streamName x"
    and "keeps_stream x x'"
  shows "server_ok E (sv\<lparr>media_at := (media_at sv)(m \<mapsto> x')\<rparr>)" (is "server_ok E ?sv'")
    and "stream_made (media_at sv) p \<Longrightarrow> stream_made ((media_at sv)(m \<mapsto> x')) p"
proof -
  note ok = server_okD [OF assms(1)]
  have made: "stream_made (media_at sv) q \<Longrightarrow> stream_made ((media_at sv)(m \<mapsto> x')) q" for q
    using assms(2,5) by (auto simp: stream_made_iff keeps_stream_def)
  moreover have "sink_made (media_at sv) q \<Longrightarrow> sink_made ((media_at sv)(m \<mapsto> x')) q" for q
    using assms(2,5) by (auto simp: sink_made_iff keeps_stream_def)
  ultimately have tasks: "tasks_ok ?sv'" using ok(5) unfolding tasks_ok_def by (auto intro: task_ok_mono)
  show "stream_made (media_at sv) p \<Longrightarrow> stream_made ((media_at sv)(m \<mapsto> x')) p" by (rule made)
  have "medias_ok ?sv'" using ok(4) assms(2,3) unfolding medias_ok_def by auto
  moreover have "tables_ok ?sv'" using ok(1) assms(2,4) unfolding tables_ok_def by fastforce
  moreover note tasks
  moreover have "streams_ok E ?sv'" using ok(6) linked_mono [of "media_at sv"] made unfolding streams_ok_def by simp
  moreover have "connections_ok ?sv'" "sessions_ok ?sv'" using ok(2,3) by (simp_all add: connections_ok_def sessions_ok_def)
  ultimately show "server_ok E ?sv'" by (simp add: server_ok_def)
qed

lemma put_sub_ok:
  assumes "put_sub p sub sv = Some sv'" and "server_ok E sv" and "snd p = 0" and "sub_ok sub"
    and old: "get_sub p sv = Some sub0" and kept: "keeps_sub sub0 sub"
  shows "server_ok E sv'" "session_at sv' = session_at sv" "connection_at sv' = connection_at sv" "tasks sv' = tasks sv"
    "get_sub p sv' = Some sub" "\<And>q. stream_made (media_at sv) q \<Longrightarrow> stream_made (media_at sv') q"
    "lastStreamToken sub \<noteq> None \<Longrightarrow> stream_made (media_at sv') p" "clientSessions sv' = clientSessions sv"
proof -
  obtain x where x: "media_at sv (fst p) = Some x" using old by (auto simp: get_sub_def bind_simps)
  have mx: "media_ok x" using server_okD(4) [OF assms(2)] x by (simp add: medias_ok_def)
  then obtain l where l: "Subsessions x = Some sub0 # l" using old x assms(3) by (auto simp: media_ok_def get_sub_def)
  let ?x = "x\<lparr>Subsessions := Some sub # l\<rparr>"
  have sv': "sv' = sv\<lparr>media_at := (media_at sv)(fst p \<mapsto> ?x)\<rparr>" using assms(1,3) x l by (simp add: put_sub_def)
  have x': "media_ok ?x" "streamName ?x = streamName x" "keeps_stream x ?x"
    using mx assms(4) l kept by (auto simp: media_ok_def intro: keeps_stream_first)
  show "server_ok E sv'" unfolding sv' by (rule media_update_ok(1) [OF assms(2) x x'])
  show "stream_made (media_at sv) q \<Longrightarrow> stream_made (media_at sv') q" for q
    using media_update_ok(2) [OF assms(2) x x', of q] by (simp add: sv')
  show "session_at sv' = session_at sv" "connection_at sv' = connection_at sv" "tasks sv' = tasks sv" "clientSessions sv' = clientSessions sv"
    by (simp_all add: sv')
  show "get_sub p sv' = Some sub" using assms(3) by (simp add: get_sub_def sv')
  show "lastStreamToken sub \<noteq> None \<Longrightarrow> stream_made (media_at sv') p" using assms(3) by (auto simp: stream_made_def sv')
qed

section \<open>The tables\<close>

lemma remove_ok:
  assumes "server_ok E sv"
  shows "server_ok E (removeServerMediaSession name sv)" "server_ok E (removeClientSession ident sv)"
  using assms by (auto simp: server_ok_def parts_def removeServerMediaSession_def removeClientSession_def)

lemma AddSubsession_new:
  assumes "AddSubsession sub (NewServerMediaSession w d name) = Some x" and "lastStreamToken sub = None"
    and "initialPortNum sub = 6970"
    and "fileName sub = name"
  shows "media_ok x" "streamName x = name"
proof -
  obtain y :: "FileServerMediaSubsession option" and ys where r: "replicate 1024 None = y # ys"
    by (cases "replicate 1024 (None :: FileServerMediaSubsession option)") auto
  have "Subsessions x = Some (sub\<lparr>hasParentSession := True, trackNumber := trackNumber sub + 1\<rparr>) # ys" "SubsessionCounter x = 1" "streamName x = name"
    using assms(1) unfolding AddSubsession_def NewServerMediaSession_def r by auto
  then show "media_ok x" "streamName x = name" using assms(2-4) by (simp_all add: media_ok_def sub_ok_def)
qed

lemma createNewSMS_ok: "createNewSMS w name = Some (Some x) \<Longrightarrow> media_ok x \<and> streamName x = name"
  using AddSubsession_new by (auto simp: createNewSMS_def Let_def newFileMediaSubsession_def split: if_splits)

lemma lookup_ok:
  assumes "lookupServerMediaSession w name sv = Some (found, sv')" and "server_ok E sv"
  shows "server_ok E sv'" "session_at sv' = session_at sv" "connection_at sv' = connection_at sv" "tasks sv' = tasks sv"
    "\<And>q. stream_made (media_at sv) q \<Longrightarrow> stream_made (media_at sv') q"
    "\<And>m. found = Some m \<Longrightarrow> \<exists>x. media_at sv' m = Some x \<and> streamName x = name" "clientSessions sv' = clientSessions sv"
proof -
  note ok = server_okD [OF assms(2)]
  have "server_ok E sv' \<and> session_at sv' = session_at sv \<and> connection_at sv' = connection_at sv \<and> tasks sv' = tasks sv \<and>
    (\<forall>q. stream_made (media_at sv) q \<longrightarrow> stream_made (media_at sv') q) \<and>
    (\<forall>m. found = Some m \<longrightarrow> (\<exists>x. media_at sv' m = Some x \<and> streamName x = name)) \<and> clientSessions sv' = clientSessions sv"
  proof (cases "w_openable w name")
    case False
    then show ?thesis using assms remove_ok(1) [OF assms(2)] unfolding lookupServerMediaSession_def
      by (auto simp: removeServerMediaSession_def Let_def split: if_splits)
  next
    case True
    show ?thesis
    proof (cases "serverMediaSessions sv name")
      case (Some m)
      then have "sv' = sv" "found = Some m" using assms(1) True
        by (simp_all add: lookupServerMediaSession_def getServerMediaSession_def)
      then show ?thesis using assms(2) ok(1) Some by (auto simp: tables_ok_def)
    next
      case None
      then obtain x where x: "createNewSMS w name = Some (Some x)" and found: "found = Some (next_media sv)"
        and sv': "sv' = addServerMediaSession (streamName x) (next_media sv)
                 (sv\<lparr>media_at := (media_at sv)(next_media sv \<mapsto> x), next_media := next_media sv + 1\<rparr>)"
        using assms(1) True by (auto simp: lookupServerMediaSession_def getServerMediaSession_def bind_simps Let_def)
      have mx: "media_ok x" "streamName x = name" using createNewSMS_ok [OF x] by auto
      have fresh: "media_at sv (next_media sv) = None" using ok(4) unfolding medias_ok_def by (metis less_irrefl option.exhaust)
      have made: "stream_made (media_at sv) q \<Longrightarrow> stream_made (media_at sv') q" for q
        using fresh by (auto simp: stream_made_iff sv' addServerMediaSession_def)
      have sinks: "sink_made (media_at sv) q \<Longrightarrow> sink_made (media_at sv') q" for q
        using fresh by (auto simp: sink_made_iff sv' addServerMediaSession_def)
      have "m \<noteq> next_media sv" if "serverMediaSessions sv n = Some m" for n m 
        using ok(1) fresh that unfolding tables_ok_def by (metis option.distinct(1) option.simps(8))
      then have "tables_ok sv'" using ok(1) mx(2) by (auto simp: tables_ok_def sv' addServerMediaSession_def)
      moreover have "connections_ok sv'" "sessions_ok sv'" using ok(2,3)
        by (auto simp: sv' connections_ok_def sessions_ok_def addServerMediaSession_def)
      moreover have "medias_ok sv'" using ok(4) mx(1) by (auto simp: sv' medias_ok_def addServerMediaSession_def less_Suc_eq)
      moreover have "tasks_ok sv'" using ok(5) made sinks unfolding tasks_ok_def
        by (auto simp: sv' addServerMediaSession_def intro: task_ok_mono)
      moreover have "streams_ok E sv'" using ok(6) linked_mono [of "media_at sv" _ "media_at sv'"] made unfolding streams_ok_def
        by (simp add: sv' addServerMediaSession_def)
      ultimately have "server_ok E sv'" by (simp add: server_ok_def)
      then show ?thesis using made found mx(2) by (auto simp: sv' addServerMediaSession_def)
    qed
  qed
  then show "server_ok E sv'" "session_at sv' = session_at sv" "connection_at sv' = connection_at sv" "tasks sv' = tasks sv"
    "\<And>q. stream_made (media_at sv) q \<Longrightarrow> stream_made (media_at sv') q"
    "\<And>m. found = Some m \<Longrightarrow> \<exists>x. media_at sv' m = Some x \<and> streamName x = name" "clientSessions sv' = clientSessions sv" by blast+
qed

end
