(* ===== verification/ServerKeeps.thy ===== *)
theory ServerKeeps
  imports ServerInvariant
begin

text \<open>
  The handlers of the requests and the tasks keep the invariant of the server.
\<close>

section \<open>Descriptions\<close>

lemma TrackID_keeps [simp]:
  "lastStreamToken (snd (TrackID sub)) = lastStreamToken sub" "sub_ok (snd (TrackID sub)) = sub_ok sub"
  "fileName (snd (TrackID sub)) = fileName sub"
  by (simp_all add: TrackID_def Let_def sub_ok_def)

lemma SDPLines_keeps:
  "SDPLines w sub = Some (l, calls, sub') \<Longrightarrow>
     lastStreamToken sub' = lastStreamToken sub \<and> initialPortNum sub' = initialPortNum sub \<and> fileName sub' = fileName sub"
  by (auto simp: SDPLines_def createNewStreamSource_def setSDPLinesFromRTPSink_def getAuxSDPLine_def TrackID_def bind_simps Let_def
    split: if_splits media_kind.splits)

lemma description_keeps:
  assumes "GenerateSDPDescription w x = Some (sdp, calls, x')" and "media_ok x"
  shows "media_ok x'" "streamName x' = streamName x" "keeps_stream x x'" "sdp \<noteq> []"
proof -
  obtain sub l where l: "Subsessions x = Some sub # l" "SubsessionCounter x = 1" "sub_ok sub" "fileName sub = streamName x" using assms(2) by (auto simp: media_ok_def)
  then obtain lines c sub' where sub': "SDPLines w sub = Some (lines, c, sub')" and x': "x' = x\<lparr>Subsessions := Some sub' # l\<rparr>"
    and sdp: "sdp = sdpPrefix x @ lines"
    using assms(1) by (auto simp: GenerateSDPDescription_def bind_simps)
  have "lastStreamToken sub' = lastStreamToken sub" "initialPortNum sub' = initialPortNum sub" "fileName sub' = fileName sub" using SDPLines_keeps [OF sub'] by auto
  then show "media_ok x'" "streamName x' = streamName x" "keeps_stream x x'"
    using l x' by (auto simp: media_ok_def sub_ok_def intro!: keeps_stream_first)
  show "sdp \<noteq> []" by (simp add: sdp sdpPrefix_def)
qed

lemma authenticationOK_ok:
  assumes "authenticationOK md5 w c cmd req sv = Some (ok, sv')" and "server_ok E sv"
  shows "server_ok E sv'"
proof (cases "authDatabase sv")
  case (Some db)
  obtain x where x: "connection_at sv c = Some x" using assms(1) Some by (cases "connection_at sv c") (auto simp: authenticationOK_def)
  obtain ok' d where d: "accepts md5 db cmd req (digest x) = (ok', d)" by fastforce
  note a = x d
  show ?thesis
  proof (cases ok')
    case True
    then obtain sv1 where "mod_conn c (\<lambda>x. x\<lparr>digest := d\<rparr>) sv = Some sv1" "sv' = sv1"
      using assms(1) Some a by (auto simp: authenticationOK_def bind_simps)
    then show ?thesis using mod_conn_ok [OF _ assms(2)] by (simp add: keeps_session_def)
  next
    case False
    define n where "n = RandomNonce md5 (nat (tv_sec (w_now w))) (nat (tv_usec (w_now w))) (nonce_counter sv) (d\<lparr>dg_Realm := db_Realm db\<rparr>)"
    obtain d1 counter where n: "n = (d1, counter)" by fastforce
    then have "mod_conn c (unauthorized w d1) (sv\<lparr>nonce_counter := counter\<rparr>) = Some sv'"
      using assms(1) Some a False n [unfolded n_def] by (auto simp: authenticationOK_def bind_simps)
    then show ?thesis by (rule mod_conn_ok) (use assms(2) in \<open>simp_all add: keeps_session_def\<close>)
  qed
qed (use assms in \<open>simp add: authenticationOK_def\<close>)

lemma describe_ok:
  assumes "handleCommandDescribe md5 w c pre suf req sv = Some sv'" and "server_ok E sv"
  shows "server_ok E sv'"
proof -
  define name where "name = (if pre \<noteq> [] then pre @ ''/'' @ suf else suf)"
  obtain ok sv1 where auth: "authenticationOK md5 w c ''DESCRIPE'' req sv = Some (ok, sv1)"
    using assms(1) by (auto simp: handleCommandDescribe_def bind_simps)
  have 1: "server_ok E sv1" by (rule authenticationOK_ok [OF auth assms(2)])
  show ?thesis
  proof (cases ok)
    case True
    then obtain found sv2 where look: "lookupServerMediaSession w name sv1 = Some (found, sv2)"
      using assms(1) auth by (auto simp: handleCommandDescribe_def bind_simps name_def Let_def)
    have 2: "server_ok E sv2" by (rule lookup_ok(1) [OF look 1])
    show ?thesis
    proof (cases found)
      case None
      then have "handleCommandNotFound w c sv2 = Some sv'"
        using assms(1) auth look True by (simp add: handleCommandDescribe_def name_def Let_def)
      then show ?thesis by (rule response_ok(4) [OF 2])
    next
      case (Some m)
      then obtain x sdp calls x' where x: "media_at sv2 m = Some x" and g: "GenerateSDPDescription w x = Some (sdp, calls, x')"
        using assms(1) auth look True by (auto simp: handleCommandDescribe_def bind_simps name_def Let_def)
      have mx: "media_ok x" using server_okD(4) [OF 2] x by (simp add: medias_ok_def)
      note x' = description_keeps [OF g mx]
      define sv3 where "sv3 = note_calls (m, 0) calls (sv2\<lparr>media_at := (media_at sv2)(m \<mapsto> x')\<rparr>)"
      have 3: "server_ok E sv3" using media_update_ok(1) [OF 2 x x'(1-3)] by (simp add: sv3_def)
      then have "mod_conn c (described w (fst (RtspURL w (streamName x') sv3)) sdp) (sv3\<lparr>urlPrefix := w_ip w\<rparr>) = Some sv'"
        using assms(1) auth look True Some x g x'(4)
        by (simp add: handleCommandDescribe_def name_def [symmetric] sv3_def RtspURL_def RtspURLPrefix_def Let_def)
      then show ?thesis by (rule mod_conn_ok) (use 3 in \<open>simp_all add: keeps_session_def\<close>)
    qed
  qed (use assms(1) auth 1 in \<open>simp add: handleCommandDescribe_def Let_def\<close>)
qed

section \<open>The life of a session\<close>

lemma noteLiveness_ok:
  assumes "noteLiveness a sv = Some sv'" and "server_ok E sv"
  shows "server_ok E sv'" and "sv' = sv"
proof -
  obtain s where s: "session_at sv a = Some s" using assms(1) by (auto simp: noteLiveness_def bind_simps)
  have "isTimerRunning s" using server_okD(3) [OF assms(2)] s by (auto simp: sessions_ok_def)
  then show "sv' = sv" using assms(1) s by (auto simp: noteLiveness_def split: if_splits)
  then show "server_ok E sv'" using assms(2) by simp
qed

lemma new_session_ok:
  assumes "newRTSPClientSession c ident sv = Some (a, sv')" and "server_ok E sv" and "connection_at sv c \<noteq> None"
  shows "server_ok E sv'" "a = next_session sv" "map_option sessionID (session_at sv' a) = Some ident" "connection_at sv' = connection_at sv"
    "clientSessions sv' = clientSessions sv"
    "\<exists>s. session_at sv' = (session_at sv)(a \<mapsto> s) \<and> serverMediaSession s = None \<and> connection s = c \<and> sessionID s = ident \<and>
       \<not> livenessTimeoutTimer s \<and> streamStates s = None \<and> TCPStreamIDCount s = 0 \<and> \<not> isMulticast s"
    "media_at sv' = media_at sv"
proof -
  define s0 :: RTSPClientSession where "s0 = (fresh_session c ident)\<lparr>isTimerRunning := True\<rparr>"
  have "newRTSPClientSession c ident sv = Some (next_session sv, sv\<lparr>session_at := (session_at sv)(next_session sv \<mapsto> s0),
      next_session := next_session sv + 1, tasks := tasks sv @ [LivenessTask (next_session sv)]\<rparr>)"
    by (simp add: newRTSPClientSession_def noteLiveness_def mod_session_def s0_def fresh_session_def Let_def)
  moreover have "isTimerRunning s0" "\<not> isMulticast s0" "sessionID s0 = ident" "serverMediaSession s0 = None" "streamStates s0 = None"
    "connection s0 = c" "\<not> livenessTimeoutTimer s0" "TCPStreamIDCount s0 = 0" by (simp_all add: s0_def fresh_session_def)
  ultimately obtain s where s: "session_at sv' = (session_at sv)(a \<mapsto> s)" "a = next_session sv" "isTimerRunning s" "\<not> isMulticast s" "sessionID s = ident"
      "serverMediaSession s = None" "streamStates s = None" "connection s = c" "\<not> livenessTimeoutTimer s" "TCPStreamIDCount s = 0"
    and rest: "connection_at sv' = connection_at sv" "media_at sv' = media_at sv" "clientSessions sv' = clientSessions sv"
      "serverMediaSessions sv' = serverMediaSessions sv" "tasks sv' = tasks sv @ [LivenessTask a]" "next_session sv' = a + 1"
      "next_connection sv' = next_connection sv" "next_media sv' = next_media sv"
    using assms(1) by auto
  note ok = server_okD [OF assms(2)]
  have fresh: "session_at sv a = None" using ok(3) s(2) unfolding sessions_ok_def by (metis less_irrefl option.exhaust)
  have "tables_ok sv'" unfolding tables_ok_def rest
  proof (intro conjI allI impI)
    fix i b
    assume b: "clientSessions sv i = Some b"
    then have "map_option sessionID (session_at sv b) = Some i" using ok(1) by (simp add: tables_ok_def)
    moreover from this have "b \<noteq> a" using fresh by auto
    ultimately show "map_option sessionID (session_at sv' b) = Some i" by (simp add: s(1))
  qed (use ok(1) in \<open>simp add: tables_ok_def\<close>)
  moreover have "connections_ok sv'" using ok(2) unfolding connections_ok_def rest s(1) by (auto simp: rest)
  moreover have "sessions_ok sv'" using ok(3) s assms(3) unfolding sessions_ok_def rest s(1) by (auto simp: less_Suc_eq)
  moreover have "medias_ok sv'" using ok(4) by (simp add: medias_ok_def rest)
  moreover have "tasks_ok sv'" using ok(5) unfolding tasks_ok_def rest s(1) by (auto intro: task_ok_mono)
  moreover have "streams_ok E sv'" using ok(6) s(6,7) unfolding streams_ok_def rest s(1) by (auto simp: linked_def)
  ultimately show "server_ok E sv'" by (simp add: server_ok_def)
  show "a = next_session sv" by (rule s(2))
  show "map_option sessionID (session_at sv' a) = Some ident" by (simp add: s)
  show "connection_at sv' = connection_at sv" "clientSessions sv' = clientSessions sv" "media_at sv' = media_at sv" by (rule rest)+
  show "\<exists>s. session_at sv' = (session_at sv)(a \<mapsto> s) \<and> serverMediaSession s = None \<and> connection s = c \<and> sessionID s = ident \<and>
       \<not> livenessTimeoutTimer s \<and> streamStates s = None \<and> TCPStreamIDCount s = 0 \<and> \<not> isMulticast s" using s by blast
qed

lemma destroy_ok:
  assumes "session_destroy a sv = Some sv'" and "server_ok E sv"
  shows "server_ok E sv'" "connection_at sv' = connection_at sv" "session_at sv' = session_at sv" "media_at sv' = media_at sv"
proof -
  have "(\<exists>ident. sv' = removeClientSession ident sv) \<or> (\<exists>ident name. sv' = removeServerMediaSession name (removeClientSession ident sv))"
    using assms(1) by (auto simp: session_destroy_def bind_simps Let_def split: if_splits option.splits)
  then show "server_ok E sv'" "connection_at sv' = connection_at sv" "session_at sv' = session_at sv" "media_at sv' = media_at sv"
    using remove_ok [OF assms(2)] remove_ok(1) [OF remove_ok(2) [OF assms(2)]]
    by (auto simp: removeServerMediaSession_def removeClientSession_def)
qed

section \<open>SETUP\<close>

lemma rtpPorts_bindable:
  assumes "rtpPorts bindable p = Some q"
  shows "bindable q \<and> bindable (q + 1) \<and> p \<le> q \<and> even (q - p)"
proof (rule rtpPorts.raw_induct [where P = "\<lambda>b p q. b q \<and> b (q + 1) \<and> p \<le> q \<and> even (q - p)", OF _ assms])
  fix f b p q
  assume ih: "\<And>b p q. f b p = Some q \<Longrightarrow> b q \<and> b (q + 1) \<and> p \<le> q \<and> even (q - p)"
    and r: "(if b p \<and> b (p + 1) then Some p else f b (p + 2)) = Some (q :: nat)"
  show "b q \<and> b (q + 1) \<and> p \<le> q \<and> even (q - p)"
  proof (cases "b p \<and> b (p + 1)")
    case False
    then have "f b (p + 2) = Some q" using r by (simp only: if_False)
    from ih [OF this] show ?thesis by (auto simp: even_diff_nat)
  qed (use r in auto)
qed

lemma makeStream_ok: "makeStream w p s = Some (t, s') \<Longrightarrow> stream_ok t \<and> lastStreamToken s' = lastStreamToken s \<and> initialPortNum s' = initialPortNum s \<and> fileName s' = fileName s"
  using rtpPorts_bindable
  by (auto simp: makeStream_def createNewStreamSource_def newStreamState_def newRTPInterface_def stream_ok_def NewGroupSock_def bind_simps Let_def split: if_splits)

lemma GetStreamParameters_ok:
  assumes "GetStreamParameters w sock addr ident p1 p2 c1 c2 s = Some (sp, s')" and "sub_ok s"
  shows "sub_ok s'" "lastStreamToken s' \<noteq> None" "destinations s' ident = Some (newDestinations sock addr p1 p2 c1 c2)"
    "keeps_sub s s'"
  using assms makeStream_ok by (auto simp: GetStreamParameters_def sub_ok_def bind_simps Let_def split: option.splits)

lemma setup_stream_ok:
  assumes "setup_stream w a (Some (m, 0)) req sv = Some sv'" and ok: "server_ok (insert a E) sv"
    and s: "session_at sv a = Some s" "serverMediaSession s = Some m" "numStreamStates s = 1" "map_option subsession (streamStates s) = Some (Some (m, 0))"
  shows "server_ok (E - {a}) sv'"
proof -
  define th where "th = ParseTransportHeader req"
  define tcp where "tcp = (StreamingMode th = RTP_TCP)"
  define ch1 where "ch1 = (if tcp \<and> RTPChannelID th = 0xFF then TCPStreamIDCount s else RTPChannelID th)"
  define ch2 where "ch2 = (if tcp then TCPStreamIDCount s + 2 else RTCPChannelID th)"
  define late where "late = (snd (ParseRangeHeader req) \<or> ParsePlayNowHeader req)"
  define f :: "RTSPClientSession \<Rightarrow> RTSPClientSession" where "f = (\<lambda>s. s\<lparr>streamAfterSETUP := late, streamStates := map_option (\<lambda>st. st\<lparr>streamToken := Some (m, 0)\<rparr>) (streamStates s)\<rparr>)"
  obtain x sub sp sub1 sv1 sv2 where x: "connection_at sv (connection s) = Some x" and sub: "get_sub (m, 0) sv = Some sub"
    and g: "GetStreamParameters w (if tcp then Some (connection s) else None) (remoteAddr x) (sessionID s)
              (ClientRTPPortNum th) (ClientRTCPPortNum th) ch1 ch2 sub = Some (sp, sub1)"
    and p: "put_sub (m, 0) sub1 sv = Some sv1" and sv2: "mod_session a f sv1 = Some sv2"
    and r: "(case setup_response w s th ch1 ch2 sp x of Some r \<Rightarrow> mod_conn (connection s) (\<lambda>x. x\<lparr>responseBuffer := r\<rparr>) sv2
      | None \<Rightarrow> handleCommandUnsupportedTransport w (connection s) sv2) = Some sv'"
    using assms(1) s(1) unfolding setup_stream_def Let_def th_def [symmetric] tcp_def [symmetric] late_def [symmetric]
    by (auto simp: bind_simps ch1_def ch2_def f_def)
  have "sub_ok sub" using get_sub_ok [OF sub ok] by simp
  note sub1 = GetStreamParameters_ok [OF g this]
  note put = put_sub_ok [OF p ok _ sub1(1) sub sub1(4), simplified]
  have made: "stream_made (media_at sv1) (m, 0)" using put(7) sub1(2) by blast
  have "linked (media_at sv1) (f s)" if "session_at sv1 a = Some s'" for s'
    using made s that put(2) by (auto simp: linked_def f_def)
  then have "linked (media_at sv1) (f s')" if "session_at sv1 a = Some s'" for s' using that put(2) s(1) by auto
  then have 2: "server_ok (E - {a}) sv2" using mod_session_ok(2) [OF sv2 put(1)] by (simp add: keeps_identity_def f_def)
  show ?thesis
  proof (cases "setup_response w s th ch1 ch2 sp x")
    case None
    then show ?thesis using r response_ok(6) [OF 2] by simp
  next
    case (Some out)
    then have "mod_conn (connection s) (\<lambda>x. x\<lparr>responseBuffer := out\<rparr>) sv2 = Some sv'" using r by simp
    then show ?thesis by (rule mod_conn_ok) (use 2 in \<open>simp_all add: keeps_session_def\<close>)
  qed
qed

lemma initStreamStates_ok:
  assumes "initStreamStates a m sv = Some sv'" and ok: "server_ok (insert a E) sv"
    and s: "session_at sv a = Some s" "serverMediaSession s = Some m"
    and old: "streamStates s \<noteq> None \<Longrightarrow> numStreamStates s = 1 \<and> map_option subsession (streamStates s) = Some (Some (m, 0))"
  shows "\<exists>s'. server_ok (insert a E) sv' \<and> session_at sv' a = Some s' \<and> serverMediaSession s' = Some m \<and> numStreamStates s' = 1 \<and>
    map_option subsession (streamStates s') = Some (Some (m, 0))"
proof (cases "streamStates s")
  case None
  then obtain x where x: "media_at sv m = Some x" using assms(1) s(1) by (auto simp: initStreamStates_def bind_simps)
  have "media_ok x" using server_okD(4) [OF ok] x by (simp add: medias_ok_def)
  then have "mod_session a (\<lambda>s. s\<lparr>numStreamStates := 1, streamStates := Some \<lparr>subsession = Some (m, 0), streamToken = None\<rparr>\<rparr>) sv = Some sv'"
    using assms(1) s(1) None x by (auto simp: initStreamStates_def media_ok_def)
  from mod_session_ok(1) [OF this ok] mod_session_frame [OF this] s show ?thesis
    by (auto simp: keeps_identity_def)
next
  case (Some st)
  then have "sv' = sv" using assms(1) s(1) by (simp add: initStreamStates_def)
  then show ?thesis using ok s old Some by auto
qed

lemma lookupTrack_ok:
  assumes "lookupTrack a track sv = Some (found, sv')" and ok: "server_ok E sv"
    and s: "session_at sv a = Some s" "numStreamStates s = 1" "map_option subsession (streamStates s) = Some (Some (m, 0))"
  shows "server_ok E sv'" "found = Some (m, 0)" "session_at sv' = session_at sv"
proof -
  obtain st where st: "streamStates s = Some st" "subsession st = Some (m, 0)" using s(3) by (cases "streamStates s") auto
  have "server_ok E sv' \<and> found = Some (m, 0) \<and> session_at sv' = session_at sv"
  proof (cases "track = []")
    case False
    then obtain sub where sub: "get_sub (m, 0) sv = Some sub" and p: "put_sub (m, 0) (snd (TrackID sub)) sv = Some sv'" and f: "found = Some (m, 0)"
      using assms(1) s st by (auto simp: lookupTrack_def bind_simps)
    have "sub_ok (snd (TrackID sub))" using get_sub_ok [OF sub ok] by simp
    from put_sub_ok(1,2) [OF p ok _ this sub] f show ?thesis by simp
  qed (use assms(1) s st ok in \<open>auto simp: lookupTrack_def\<close>)
  then show "server_ok E sv'" "found = Some (m, 0)" "session_at sv' = session_at sv" by auto
qed

lemma setup_ok:
  assumes "handleCommandSetup w a pre suf req sv = Some sv'" and ok: "server_ok {} sv"
  shows "server_ok {} sv'"
proof -
  obtain s found sv1 where s: "session_at sv a = Some s" and look: "lookupServerMediaSession w pre sv = Some (found, sv1)"
    using assms(1) by (auto simp: handleCommandSetup_def bind_simps)
  note l = lookup_ok [OF look ok]
  consider "handleCommandNotFound w (connection s) sv1 = Some sv'" | "handleCommandBad w (connection s) sv1 = Some sv'"
    | m sv2 sv3 track sv4 where "found = Some m" "serverMediaSession s = None \<or> serverMediaSession s = Some m"
      "mod_session a (\<lambda>s. s\<lparr>serverMediaSession := Some m\<rparr>) sv1 = Some sv2" "initStreamStates a m sv2 = Some sv3"
      "lookupTrack a suf sv3 = Some (track, sv4)" "setup_stream w a track req sv4 = Some sv'"
    using assms(1) s look by (auto simp: handleCommandSetup_def bind_simps split: option.splits if_splits)
  then show ?thesis
  proof cases
    case (3 m sv2 sv3 track sv4)
    have s1: "session_at sv1 a = Some s" using s l(2) by simp
    have ok2: "server_ok (insert a {}) sv2" using mod_session_ok(1) [OF 3(3) l(1)] by (simp add: keeps_identity_def)
    have s2: "session_at sv2 a = Some (s\<lparr>serverMediaSession := Some m\<rparr>)" using mod_session_frame(5) [OF 3(3)] s1 by auto
    have "linked (media_at sv) s" using server_okD(6) [OF ok] s by (simp add: streams_ok_def)
    then have old: "streamStates (s\<lparr>serverMediaSession := Some m\<rparr>) \<noteq> None \<Longrightarrow> numStreamStates (s\<lparr>serverMediaSession := Some m\<rparr>) = 1 \<and>
        map_option subsession (streamStates (s\<lparr>serverMediaSession := Some m\<rparr>)) = Some (Some (m, 0))"
      using 3(2) by (auto simp: linked_def)
    obtain s3 where ok3: "server_ok (insert a {}) sv3" and s3: "session_at sv3 a = Some s3" "serverMediaSession s3 = Some m"
        "numStreamStates s3 = 1" "map_option subsession (streamStates s3) = Some (Some (m, 0))"
      using initStreamStates_ok [OF 3(4) ok2 s2 _ old] by auto
    note t = lookupTrack_ok [OF 3(5) ok3 s3(1,3,4)]
    show ?thesis using setup_stream_ok [of w a m req sv4 sv' "{}" s3] 3(6) t s3 by simp
  qed (use response_ok(4,7) [OF l(1)] in blast)+
qed

section \<open>Commands within a session\<close>

lemma findTarget_keeps:
  assumes "findTarget pre suf x = Some (t, x')" and "media_ok x"
  shows "media_ok x'" "streamName x' = streamName x" "keeps_stream x x'"
proof -
  obtain sub l where l: "Subsessions x = Some sub # l" "SubsessionCounter x = 1" "sub_ok sub" "fileName sub = streamName x" using assms(2) by (auto simp: media_ok_def)
  then have "x' = x \<or> x' = x\<lparr>Subsessions := Some (snd (TrackID sub)) # l\<rparr>"
    using assms(1) by (auto simp: findTarget_def findTrack.simps bind_simps Let_def split: if_splits prod.splits)
  then show "media_ok x'" "streamName x' = streamName x" "keeps_stream x x'"
    using l assms(2) keeps_stream_first [of x sub l x' _ l] by (auto simp: media_ok_def intro: keeps_stream_first)
qed

lemma findTarget_total: "media_ok x \<Longrightarrow> findTarget pre suf x \<noteq> None"
  by (auto simp: findTarget_def findTrack.simps media_ok_def Let_def split: prod.splits)

text \<open>What a session that has been set up has.\<close>

lemma set_up:
  assumes "server_ok {} sv" and "session_at sv a = Some s" and "serverMediaSession s = Some m"
  obtains x sub t where "media_at sv m = Some x" "get_sub (m, 0) sv = Some sub" "sub_ok sub" "lastStreamToken sub = Some t" "stream_ok t"
    "streamStates s = Some \<lparr>subsession = Some (m, 0), streamToken = Some (m, 0)\<rparr>" "connection_at sv (connection s) \<noteq> None"
proof -
  have "linked (media_at sv) s" "connection_at sv (connection s) \<noteq> None"
    using server_okD(3,6) [OF assms(1)] assms(2) by (auto simp: sessions_ok_def streams_ok_def)
  then have st: "streamStates s = Some \<lparr>subsession = Some (m, 0), streamToken = Some (m, 0)\<rparr>" "stream_made (media_at sv) (m, 0)"
    using assms(3) by (auto simp: linked_def)
  obtain sub t where sub: "get_sub (m, 0) sv = Some sub" "lastStreamToken sub = Some t" using get_sub_made [OF st(2)] by auto
  moreover have "sub_ok sub" using get_sub_ok [OF sub(1) assms(1)] by simp
  moreover obtain x where "media_at sv m = Some x" using st(2) by (auto simp: stream_made_def)
  ultimately show ?thesis using that st(1) \<open>connection_at sv (connection s) \<noteq> None\<close> by (simp add: sub_ok_def)
qed

lemma put_sub_total: "get_sub p sv \<noteq> None \<Longrightarrow> put_sub p sub sv \<noteq> None"
  by (auto simp: get_sub_def put_sub_def bind_simps)

lemma mod_conn_total: "connection_at sv c \<noteq> None \<Longrightarrow> mod_conn c f sv \<noteq> None"
  by (auto simp: mod_conn_def)

lemma StartStream_ok:
  assumes "StartStream w ident sub = Some ((n, ts, d), sub')" and "sub_ok sub"
  shows "sub_ok sub'" "lastStreamToken sub' \<noteq> None" "d = destinations sub ident" "keeps_sub sub sub'"
proof -
  obtain t where t: "lastStreamToken sub = Some t" using assms(1) by (auto simp: StartStream_def bind_simps)
  have "sub_ok sub' \<and> lastStreamToken sub' \<noteq> None \<and> d = destinations sub ident \<and> keeps_sub sub sub'"
  proof (cases "rtpSink t")
    case (Some sink)
    obtain ts' sink1 where "presetNextTimestamp (w_now w) sink = (ts', sink1)" by fastforce
    then show ?thesis using assms t Some by (auto simp: StartStream_def sub_ok_def stream_ok_def)
  qed (use assms t in \<open>auto simp: StartStream_def\<close>)
  then show "sub_ok sub'" "lastStreamToken sub' \<noteq> None" "d = destinations sub ident" "keeps_sub sub sub'" by auto
qed

lemma play_ok:
  assumes "handleCommandPlay w a req sv = Some sv'" and ok: "server_ok {} sv" and s: "session_at sv a = Some s" "serverMediaSession s = Some m"
  shows "server_ok {} sv'"
proof -
  obtain x sub t where st: "media_at sv m = Some x" "get_sub (m, 0) sv = Some sub" "sub_ok sub" "lastStreamToken sub = Some t" "stream_ok t"
    "streamStates s = Some \<lparr>subsession = Some (m, 0), streamToken = Some (m, 0)\<rparr>" using set_up [OF ok s] by metis
  define sv1 where "sv1 = sv\<lparr>urlPrefix := w_ip w\<rparr>"
  have ok1: "server_ok {} sv1" using ok by (simp add: sv1_def)
  have sub1: "get_sub (m, 0) sv1 = Some sub" using st(2) by (simp add: sv1_def get_sub_def)
  obtain n ts d sub2 where start: "StartStream w (sessionID s) sub = Some ((n, ts, d), sub2)"
    using assms(1) s st sub1 by (auto simp: handleCommandPlay_def RtspURL_def RtspURLPrefix_def sv1_def [symmetric] bind_simps Let_def)
  note sub2 = StartStream_ok [OF start st(3)]
  define sv2 where "sv2 = sv1\<lparr>tasks := tasks sv1 @ [PlayTask (m, 0) d]\<rparr>"
  have made: "stream_made (media_at sv1) (m, 0)" using linked_SomeD [OF linkedD [OF ok s(1)] s(2)] by (simp add: sv1_def)
  have ok2: "server_ok {} sv2" using ok1 made by (auto simp: server_ok_def parts_def sv2_def)
  have sub2': "get_sub (m, 0) sv2 = Some sub" using sub1 by (simp add: sv2_def get_sub_def)
  obtain sv3 h u where p: "put_sub (m, 0) (snd (TrackID sub2)) sv2 = Some sv3"
    and r: "mod_conn (connection s) (played w h (sessionID s) u n ts) sv3 = Some sv'"
    using assms(1) s st sub1 start
    by (auto simp: handleCommandPlay_def RtspURL_def RtspURLPrefix_def sv1_def [symmetric] sv2_def [symmetric] bind_simps Let_def split: prod.splits)
  have "server_ok {} sv3" by (rule put_sub_ok(1) [OF p ok2 _ _ sub2']) (use sub2 in simp_all)
  then show ?thesis using mod_conn_ok [OF r] by (simp add: keeps_session_def)
qed

lemma pause_ok:
  assumes "handleCommandPause w a sv = Some sv'" and ok: "server_ok {} sv" and s: "session_at sv a = Some s" "serverMediaSession s = Some m"
  shows "server_ok {} sv'"
proof -
  obtain sub t where st: "get_sub (m, 0) sv = Some sub" "sub_ok sub" "lastStreamToken sub = Some t" "stream_ok t"
    "streamStates s = Some \<lparr>subsession = Some (m, 0), streamToken = Some (m, 0)\<rparr>" using set_up [OF ok s] by metis
  then obtain calls sub1 sv1 where pa: "PauseStream sub = Some (calls, sub1)" and p: "put_sub (m, 0) sub1 sv = Some sv1"
    and r: "setRTSPResponseWithSessionID w (connection s) ''200 OK'' (sessionID s) (note_calls (m, 0) calls sv1) = Some sv'"
    using assms(1) s by (auto simp: handleCommandPause_def bind_simps)
  have "sub_ok sub1" "keeps_sub sub sub1" using pa st(2-4) by (auto simp: PauseStream_def pause_def sub_ok_def stream_ok_def)
  then have "server_ok {} sv1" using put_sub_ok(1) [OF p ok _ _ st(1)] by simp
  then show ?thesis using response_ok(2) [OF _ r] by simp
qed

lemma del_walk_distinct:
  "del_walk c ch ss i evs = Some (kept, i', evs') \<Longrightarrow> distinct ss \<Longrightarrow> distinct kept \<and> set kept \<subseteq> set ss"
  by (induction c ch ss i evs arbitrary: kept i' evs' rule: del_walk.induct)
    (auto simp: bind_simps split_def Let_def split: if_splits)

lemma endPlaying_ok:
  assumes "endPlaying dest t = Some (calls, t')" and "stream_ok t"
  shows "stream_ok t'" "rtpSink t' = rtpSink t" "rtcpInstance t' = rtcpInstance t" "rtpGS t' = rtpGS t" "rtcpGS t' = rtcpGS t"
  using assms del_walk_distinct
  by (auto simp: endPlaying_def delStreamSocket_def stream_ok_def bind_simps split: option.splits if_splits)

lemma DeleteStream_ok:
  assumes "DeleteStream ident True sub = Some (calls, sub')" and "lastStreamToken sub = Some t" and "sub_ok sub"
  shows "sub_ok sub'" "keeps_sub sub sub'"
proof -
  obtain calls1 t1 calls2 t2 where e: "endPlaying (destinations sub ident) t = Some (calls1, t1)" "reclaim t1 = Some (calls2, t2)"
      "sub' = sub\<lparr>destinations := (destinations sub)(ident := None), lastStreamToken := Some t2\<rparr>"
    using assms(1,2) by (auto simp: DeleteStream_def bind_simps)
  have t: "stream_ok t" using assms(2,3) by (simp add: sub_ok_def)
  note t1 = endPlaying_ok [OF e(1) t]
  have "stream_ok t2" "rtpSink t2 = rtpSink t1" using e(2) t1(1) by (auto simp: reclaim_def stream_ok_def bind_simps split: if_splits)
  then show "sub_ok sub'" "keeps_sub sub sub'" using assms(2,3) e(3) t1(2) by (simp_all add: sub_ok_def)
qed

lemma teardown_ok:
  assumes "handleCommandTearDown w a sv = Some sv'" and ok: "server_ok {} sv" and s: "session_at sv a = Some s" "serverMediaSession s = Some m"
  shows "server_ok {} sv'"
proof -
  obtain sub t where st: "get_sub (m, 0) sv = Some sub" "sub_ok sub" "lastStreamToken sub = Some t" "stream_ok t"
    "streamStates s = Some \<lparr>subsession = Some (m, 0), streamToken = Some (m, 0)\<rparr>" using set_up [OF ok s] by metis
  then obtain calls sub1 sv1 sv2 where de: "DeleteStream (sessionID s) True sub = Some (calls, sub1)" and p: "put_sub (m, 0) sub1 sv = Some sv1"
    and r: "setRTSPResponse w (connection s) ''200 OK'' (note_calls (m, 0) calls sv1) = Some sv2" and d: "session_destroy a sv2 = Some sv'"
    using assms(1) s by (auto simp: handleCommandTearDown_def bind_simps)
  have "server_ok {} sv1" using put_sub_ok(1) [OF p ok _ _ st(1)] DeleteStream_ok [OF de st(3,2)] by simp
  then have "server_ok {} sv2" using response_ok(1) [OF _ r] by simp
  then show ?thesis by (rule destroy_ok(1) [OF d])
qed

lemma parameter_ok:
  "handleCommandGetParameter w a sv = Some sv' \<Longrightarrow> server_ok E sv \<Longrightarrow> server_ok E sv'"
  "handleCommandSetParameter w a sv = Some sv' \<Longrightarrow> server_ok E sv \<Longrightarrow> server_ok E sv'"
  by (auto simp: handleCommandGetParameter_def handleCommandSetParameter_def bind_simps intro: response_ok(2))

lemma within_ok:
  assumes "handleCommandWithinSession w a cmd pre suf req sv = Some sv'" and ok: "server_ok {} sv"
  shows "server_ok {} sv'"
proof -
  obtain s where live: "noteLiveness a sv = Some sv" and s: "session_at sv a = Some s"
    using assms(1) noteLiveness_ok(2) [OF _ ok] by (fastforce simp: handleCommandWithinSession_def bind_simps)
  show ?thesis
  proof (cases "serverMediaSession s")
    case None
    then show ?thesis using assms(1) live s response_ok(8) [OF ok] by (auto simp: handleCommandWithinSession_def)
  next
    case (Some m)
    then obtain x where x: "media_at sv m = Some x" using assms(1) live s
      by (cases "media_at sv m") (auto simp: handleCommandWithinSession_def)
    then obtain t x' where f: "findTarget pre suf x = Some (t, x')" using assms(1) live s Some
      by (cases "findTarget pre suf x") (auto simp: handleCommandWithinSession_def)
    define sv2 where "sv2 = sv\<lparr>media_at := (media_at sv)(m \<mapsto> x')\<rparr>"
    have "media_ok x" using server_okD(4) [OF ok] x by (simp add: medias_ok_def)
    then have ok2: "server_ok {} sv2" unfolding sv2_def using media_update_ok(1) [OF ok x] findTarget_keeps [OF f] by blast
    have s2: "session_at sv2 a = Some s" using s by (simp add: sv2_def)
    have r: "(if t = NoTarget then handleCommandNotFound w (connection s) sv2
       else if cmd = ''TEARDOWN'' then handleCommandTearDown w a sv2 else if cmd = ''PLAY'' then handleCommandPlay w a req sv2
       else if cmd = ''PAUSE'' then handleCommandPause w a sv2 else if cmd = ''GET_PARAMETER'' then handleCommandGetParameter w a sv2
       else if cmd = ''SET_PARAMETER'' then handleCommandSetParameter w a sv2 else Some sv2) = Some sv'"
      using assms(1) live s Some x f by (simp only: handleCommandWithinSession_def sv2_def Option.bind.simps option.case Let_def split)
    show ?thesis
      using r response_ok(4) [OF ok2] teardown_ok [OF _ ok2 s2 Some] play_ok [OF _ ok2 s2 Some] pause_ok [OF _ ok2 s2 Some]
        parameter_ok [OF _ ok2] ok2 by (simp only: split: if_splits) blast+
  qed
qed

section \<open>Requests\<close>

lemma freshID_fresh:
  assumes "freshID random table i = Some ident"
  shows "table ident = None"
proof (rule freshID.raw_induct [where P = "\<lambda>r tab i ident. tab ident = None", OF _ assms])
  fix f :: "(nat \<Rightarrow> u32) \<Rightarrow> (string \<rightharpoonup> nat) \<Rightarrow> nat \<Rightarrow> string option" and r tab i ident
  assume "\<And>r tab i ident. f r tab i = Some ident \<Longrightarrow> tab ident = None"
    and "(if tab (show_hex8 (r i)) = None then Some (show_hex8 (r i)) else f r tab (i + 1)) = Some ident"
  then show "tab ident = None" by (auto split: if_splits)
qed

lemma add_session_ok:
  assumes "server_ok E sv" and "map_option sessionID (session_at sv a) = Some ident"
  shows "server_ok E (addClientSession ident a sv)"
  using assms by (auto simp: server_ok_def parts_def addClientSession_def)

lemma handleSetup_ok:
  assumes "handleSetup w c info req sv = Some sv'" and ok: "server_ok {} sv"
  shows "server_ok {} sv'"
proof -
  have finish: "server_ok {} sv'" if "server_ok {} sv1" and "do { x \<leftarrow> connection_at sv1 c; case clientSession x of None \<Rightarrow> Some sv1
      | Some a \<Rightarrow> handleCommandSetup w a (UrlPreSuffix info) (UrlSuffix info) req sv1 } = Some sv'" for sv1
    using that setup_ok by (auto simp: bind_simps split: option.splits)
  show ?thesis
  proof (cases "SessionIDStr info = []")
    case True
    then obtain ident sv1 a sv2 sv3 where f: "freshID (w_sessionIDs w) (clientSessions sv) 0 = Some ident"
      and m1: "mod_conn c (\<lambda>x. x\<lparr>sessionIDStr := ident\<rparr>) sv = Some sv1" and n: "newRTSPClientSession c ident sv1 = Some (a, sv2)"
      and m2: "mod_conn c (\<lambda>x. x\<lparr>clientSession := Some a\<rparr>) sv2 = Some sv3"
      and r: "do { x \<leftarrow> connection_at (addClientSession ident a sv3) c; case clientSession x of None \<Rightarrow> Some (addClientSession ident a sv3)
        | Some a' \<Rightarrow> handleCommandSetup w a' (UrlPreSuffix info) (UrlSuffix info) req (addClientSession ident a sv3) } = Some sv'"
      using assms(1) by (auto simp: handleSetup_def bind_simps)
    have ok1: "server_ok {} sv1" by (rule mod_conn_ok [OF m1 ok]) (simp add: keeps_session_def)
    have "connection_at sv1 c \<noteq> None" using m1 by (auto simp: mod_conn_def bind_simps)
    note n' = new_session_ok [OF n ok1 this]
    have "session_at sv2 a \<noteq> None" using n'(3) by auto
    then have "server_ok {} sv3" by (intro mod_conn_ok [OF m2 n'(1)]) (simp add: keeps_session_def)
    moreover have "map_option sessionID (session_at sv3 a) = Some ident" using n'(3) mod_conn_frame(1) [OF m2] by simp
    ultimately show ?thesis using finish [OF add_session_ok r] by blast
  next
    case False
    define found where "found = getClientSession sv (SessionIDStr info)"
    obtain sv1 sv2 where m1: "mod_conn c (\<lambda>x. x\<lparr>clientSession := found\<rparr>) sv = Some sv1"
      and sv2: "(if found = None then handleCommandSessionNotFound w c sv1 else Some sv1) = Some sv2"
      and r: "do { x \<leftarrow> connection_at sv2 c; case clientSession x of None \<Rightarrow> Some sv2
        | Some a' \<Rightarrow> handleCommandSetup w a' (UrlPreSuffix info) (UrlSuffix info) req sv2 } = Some sv'"
      using assms(1) False unfolding handleSetup_def found_def Let_def by (auto simp: bind_simps)
    have "found = Some a \<Longrightarrow> session_at sv a \<noteq> None" for a
      using found_session [OF ok] unfolding found_def by blast
    then have "server_ok {} sv1" by (intro mod_conn_ok [OF m1 ok]) (simp add: keeps_session_def)
    then have "server_ok {} sv2" using sv2 response_ok(5) by (auto split: if_splits)
    then show ?thesis using finish r by blast
  qed
qed

lemma handleInSession_ok:
  assumes "handleInSession w c info req sv = Some sv'" and ok: "server_ok {} sv"
  shows "server_ok {} sv'"
proof -
  define found where "found = getClientSession sv (SessionIDStr info)"
  obtain sv1 where m1: "mod_conn c (\<lambda>x. x\<lparr>clientSession := found\<rparr>) sv = Some sv1"
    and r: "(case found of Some a \<Rightarrow> handleCommandWithinSession w a (CmdName info) (UrlPreSuffix info) (UrlSuffix info) req sv1
      | None \<Rightarrow> handleCommandSessionNotFound w c sv1) = Some sv'"
    using assms(1) unfolding handleInSession_def found_def Let_def by (auto simp: bind_simps)
  have "found = Some a \<Longrightarrow> session_at sv a \<noteq> None" for a
    using found_session [OF ok] unfolding found_def by blast
  then have "server_ok {} sv1" by (intro mod_conn_ok [OF m1 ok]) (simp add: keeps_session_def)
  then show ?thesis using r within_ok [of w _ _ _ _ _ sv1 sv'] response_ok(5) [of "{}" sv1 w c sv'] by (cases found) simp_all
qed

lemma rtsp_request_ok:
  assumes "handleRTSPRequest md5 w c info req sv = Some sv'" and ok: "server_ok {} sv"
  shows "server_ok {} sv'"
proof -
  obtain sv1 where m1: "mod_conn c (\<lambda>x. x\<lparr>currentCSeq := Cseq info, sessionIDStr := SessionIDStr info\<rparr>) sv = Some sv1"
    using assms(1) by (auto simp: handleRTSPRequest_def bind_simps)
  have ok1: "server_ok {} sv1" by (rule mod_conn_ok [OF m1 ok]) (simp add: keeps_session_def)
  show ?thesis
    using assms(1) m1 response_ok(3,8) [OF ok1] describe_ok [OF _ ok1] handleSetup_ok [OF _ ok1] handleInSession_ok [OF _ ok1] ok1
    by (auto simp: handleRTSPRequest_def bind_simps split: if_splits)
qed

lemma request_ok:
  assumes "handleRequestBytes md5 w c req sv = Some (out, sv')" and ok: "server_ok {} sv"
  shows "server_ok {} sv'"
proof -
  obtain parsed where p: "ParseRTSPRequestString req = Some parsed" using assms(1) by (auto simp: handleRequestBytes_def bind_simps)
  show ?thesis
  proof (cases parsed)
    case (Some info)
    then show ?thesis using assms p rtsp_request_ok by (auto simp: handleRequestBytes_def bind_simps)
  next
    case None
    show ?thesis
    proof (cases "ParseHTTPRequestString req")
      case None
      then show ?thesis using assms(1) p \<open>parsed = None\<close> response_ok(7) [OF ok] by (auto simp: handleRequestBytes_def bind_simps)
    next
      case (Some info)
      then have "handleHTTPRequest w c info sv = Some sv'" using assms(1) p \<open>parsed = None\<close> by (auto simp: handleRequestBytes_def bind_simps)
      then show ?thesis using response_ok(9) [OF ok] tunneling_ok [OF ok] ok by (auto simp: handleHTTPRequest_def split: if_splits)
    qed
  qed
qed

lemma disconnect_ok: "disconnect c sv = Some sv' \<Longrightarrow> server_ok E sv \<Longrightarrow> server_ok E sv'"
  by (auto simp: disconnect_def bind_simps destroy_ok split: option.splits)

section \<open>Tasks\<close>

lemma addStreamSocket_distinct: "distinct (tcpStreams i) \<Longrightarrow> distinct (tcpStreams (addStreamSocket sock ch i))"
  by (auto simp: addStreamSocket_def lookupSocketDescriptor_def Let_def split: option.splits)

lemma joinInterface_distinct: "distinct (tcpStreams i) \<Longrightarrow> distinct (tcpStreams (joinInterface d i))"
  using addStreamSocket_distinct
  by (auto simp: joinInterface_def if_setServerRequestAlternativeByteHandler_def lookupSocketDescriptor_def Let_def split: option.splits)

lemma joinStream_ok: "stream_ok t \<Longrightarrow> stream_ok (snd (joinStream d t)) \<and> rtpSink (snd (joinStream d t)) = rtpSink t"
  using joinInterface_distinct [of "sinkInterface t" d] by (auto simp: joinStream_def stream_ok_def Let_def)

lemma startPlaying_ok:
  assumes "startPlaying w name dest t = Some (calls, sleep, t')" and "stream_ok t"
  shows "stream_ok t'" "rtpSink t' = rtpSink t" "sleep \<noteq> None \<Longrightarrow> rtpSink t \<noteq> None"
  using assms joinStream_ok
  by (auto simp: startPlaying_def bind_simps case_prod_unfold Let_def split: option.splits if_splits)

lemma startPlayingWoken_ok:
  "stream_ok t \<Longrightarrow> rtpSink t \<noteq> None \<Longrightarrow> stream_ok (snd (startPlayingWoken d t)) \<and> rtpSink (snd (startPlayingWoken d t)) = rtpSink t"
  using joinStream_ok [of "t\<lparr>rtcpInstance := True\<rparr>" d] by (simp add: startPlayingWoken_def stream_ok_def)

lemma stream_put_ok:
  assumes "put_sub p (sub\<lparr>lastStreamToken := Some t'\<rparr>) sv = Some sv'" and "get_sub p sv = Some sub" and "lastStreamToken sub = Some t"
    and "server_ok E sv" and "snd p = 0" and "stream_ok t \<Longrightarrow> stream_ok t'" and "rtpSink t \<noteq> None \<Longrightarrow> rtpSink t' \<noteq> None"
  shows "server_ok E sv'" "tasks sv' = tasks sv" "rtpSink t' \<noteq> None \<Longrightarrow> sink_made (media_at sv') p"
proof -
  have s: "sub_ok sub" by (rule get_sub_ok [OF assms(2,4,5)])
  then have s': "sub_ok (sub\<lparr>lastStreamToken := Some t'\<rparr>)" using assms(3,6) by (simp add: sub_ok_def)
  have k: "keeps_sub sub (sub\<lparr>lastStreamToken := Some t'\<rparr>)" using assms(3,7) by simp
  note q = put_sub_ok [OF assms(1,4,5) s' assms(2) k]
  show "server_ok E sv'" "tasks sv' = tasks sv" by (rule q)+
  obtain x where "media_at sv' (fst p) = Some x" "idx (Subsessions x) (snd p) = Some (Some (sub\<lparr>lastStreamToken := Some t'\<rparr>))"
    using q(5) by (auto simp: get_sub_def bind_simps)
  then show "rtpSink t' \<noteq> None \<Longrightarrow> sink_made (media_at sv') p" using assms(5)
    by (cases "Subsessions x") (auto simp: sink_made_def)
qed

lemma perform_ok:
  assumes "perform w t sv = Some sv'" and ok: "server_ok {} sv" and "t \<in> set (tasks sv)"
  shows "server_ok {} sv'"
proof (cases t)
  case (LivenessTask a)
  then have m: "mod_session a (\<lambda>s. s\<lparr>livenessTimeoutTimer := True\<rparr>) sv = Some sv'" using assms(1) by (simp add: perform_def start_timer_def)
  have "linked (media_at sv) (s\<lparr>livenessTimeoutTimer := True\<rparr>)" if "session_at sv a = Some s" for s
    using linkedD [OF ok that] by (cases "serverMediaSession s") (simp_all add: linked_def)
  then show ?thesis using mod_session_ok(2) [OF m ok] by (simp add: keeps_identity_def)
next
  case (PlayTask p dest)
  then obtain sub token calls sleep token1 sv1 where sub: "get_sub p sv = Some sub" and token: "lastStreamToken sub = Some token"
    and play: "startPlaying w (cname sub) dest token = Some (calls, sleep, token1)"
    and q: "put_sub p (sub\<lparr>lastStreamToken := Some token1\<rparr>) sv = Some sv1"
    and sv': "sv' = (case (dest, sleep) of (Some d, Some ns) \<Rightarrow>
        (note_calls p calls sv1)\<lparr>tasks := tasks (note_calls p calls sv1) @ [WakeTask p d (nanos w + ns)]\<rparr> | _ \<Rightarrow> note_calls p calls sv1)"
    using assms(1) by (auto simp: perform_def play_stream_def bind_simps Let_def)
  have p0: "snd p = 0" using server_okD(5) [OF ok] assms(3) PlayTask by (auto simp: tasks_ok_def stream_made_def)
  have "stream_ok token" using get_sub_ok [OF sub ok p0] token by (simp add: sub_ok_def)
  note t1 = startPlaying_ok [OF play this]
  note s = stream_put_ok [OF q sub token ok p0]
  have ok1: "server_ok {} (note_calls p calls sv1)" using s(1) t1 by simp
  show ?thesis
  proof (cases "\<exists>d ns. dest = Some d \<and> sleep = Some ns")
    case True
    then have "sink_made (media_at (note_calls p calls sv1)) p" using s(3) t1 by (auto simp: note_calls_def)
    then show ?thesis using ok1 True by (auto simp: sv' server_ok_def parts_def)
  next
    case False
    then show ?thesis using ok1 by (auto simp: sv' split: option.splits)
  qed
next
  case (WakeTask p d until)
  then obtain sub token sv1 where sub: "get_sub p sv = Some sub" and token: "lastStreamToken sub = Some token"
    and q: "put_sub p (sub\<lparr>lastStreamToken := Some (snd (startPlayingWoken d token))\<rparr>) sv = Some sv1" and sv': "\<exists>calls. sv' = note_calls p calls sv1"
    using assms(1) by (auto simp: perform_def wake_stream_def bind_simps case_prod_unfold Let_def)
  have made: "sink_made (media_at sv) p" using server_okD(5) [OF ok] assms(3) WakeTask by (auto simp: tasks_ok_def)
  then have sink: "rtpSink token \<noteq> None" and p0: "snd p = 0" using sub token by (auto simp: sink_made_def get_sub_def)
  have "stream_ok token" using get_sub_ok [OF sub ok p0] token by (simp add: sub_ok_def)
  then show ?thesis using stream_put_ok(1) [OF q sub token ok p0] startPlayingWoken_ok [OF _ sink, of d] sv' sink by auto
qed

end
