(* ===== verification/ServerRuns.thy ===== *)
theory ServerRuns
  imports ServerKeeps
begin

text \<open>
  The server as a transition system, its reachable states, and what its requests do in them.

  A step is a new connection, a request, the end of a connection, a task that a handler has started and that is due, the end of a call
  that plays, a liveness timer that runs out, or a sink that goes on sending. Steps of different clients interleave in any order.
\<close>

section \<open>Steps\<close>

inductive server_step :: "(string \<Rightarrow> string) \<Rightarrow> RTSPServer \<Rightarrow> RTSPServer \<Rightarrow> bool" for md5 where
  connect: "server_step md5 sv (snd (newRTSPClientConnection addr1 port1 addr2 port2 sv))"
| request: "server_step md5 sv sv'" if "handleRequestBytes md5 w c req sv = Some (out, sv')"
| disconnect: "server_step md5 sv sv'" if "disconnect c sv = Some sv'"
| task: "server_step md5 sv (sv'\<lparr>tasks := remove1 t (tasks sv')\<rparr>)" if "t \<in> set (tasks sv)" and "due w t" and "perform w t sv = Some sv'"
| timeout: "server_step md5 sv sv'" if "session_at sv a = Some s" and "livenessTimeoutTimer s" and "session_destroy a sv = Some sv'"
| played: "server_step md5 sv sv'" if "played_stream (m, 0) sv = Some sv'"
| sending: "server_step md5 sv sv'"
    if "get_sub (m, 0) sv = Some sub" and "lastStreamToken sub = Some t" and "rtpSink t \<noteq> None"
      and "put_sub (m, 0) (sub\<lparr>lastStreamToken := Some (t\<lparr>rtpSink := Some sink\<rparr>)\<rparr>) sv = Some sv'"
| ended: "server_step md5 sv (note_calls (m, 0) calls sv')"
    if "get_sub (m, 0) sv = Some sub" and "lastStreamToken sub = Some t" and "afterPlayingStreamState t = Some (calls, t')"
      and "put_sub (m, 0) (sub\<lparr>lastStreamToken := Some t'\<rparr>) sv = Some sv'"

inductive reachable :: "(string \<Rightarrow> string) \<Rightarrow> Database option \<Rightarrow> nat \<Rightarrow> nat \<Rightarrow> RTSPServer \<Rightarrow> bool" for md5 db port1 port2 where
  start: "reachable md5 db port1 port2 (New db port1 port2)"
| step: "reachable md5 db port1 port2 sv \<Longrightarrow> server_step md5 sv sv' \<Longrightarrow> reachable md5 db port1 port2 sv'"

inductive_cases stepE: "server_step md5 sv sv'"

lemma connect_ok: "server_ok {} sv \<Longrightarrow> server_ok {} (snd (newRTSPClientConnection a1 p1 a2 p2 sv))"
proof -
  assume ok: "server_ok {} sv"
  have "connections_ok sv" "sessions_ok sv" using ok by (simp_all add: server_ok_def)
  then have "connections_ok (snd (newRTSPClientConnection a1 p1 a2 p2 sv))" "sessions_ok (snd (newRTSPClientConnection a1 p1 a2 p2 sv))"
    by (auto simp: connections_ok_def sessions_ok_def newRTSPClientConnection_def Let_def less_Suc_eq)
  then show ?thesis using ok by (simp add: server_ok_def tables_ok_def medias_ok_def tasks_ok_def streams_ok_def newRTSPClientConnection_def Let_def)
qed

lemma step_ok:
  assumes "server_step md5 sv sv'" and ok: "server_ok {} sv"
  shows "server_ok {} sv'"
  using assms(1)
proof cases
  case connect
  then show ?thesis using connect_ok [OF ok] by simp
next
  case (request w c req out)
  then show ?thesis by (rule request_ok [OF _ ok])
next
  case (disconnect c)
  then show ?thesis by (rule disconnect_ok [OF _ ok])
next
  case (task t w sv1)
  have "server_ok {} sv1" by (rule perform_ok [OF task(4) ok task(2)])
  then show ?thesis unfolding task(1) by (auto simp: server_ok_def parts_def dest: notin_set_remove1)
next
  case (timeout a s)
  then show ?thesis using destroy_ok(1) [OF _ ok] by blast
next
  case (played m)
  then obtain sub t where "get_sub (m, 0) sv = Some sub" "lastStreamToken sub = Some t"
      "put_sub (m, 0) (sub\<lparr>lastStreamToken := Some (startPlayingReturned t)\<rparr>) sv = Some sv'"
    by (auto simp: played_stream_def bind_simps)
  then show ?thesis using stream_put_ok(1) [OF _ _ _ ok] by (simp add: stream_ok_def startPlayingReturned_def)
next
  case (sending m sub t sink)
  then show ?thesis using stream_put_ok(1) [OF sending(4,1,2) ok] by (auto simp: stream_ok_def)
next
  case (ended m sub t calls t' sv1)
  have "stream_ok t \<Longrightarrow> stream_ok t'" "rtpSink t' = rtpSink t" using ended(4) by (auto simp: afterPlayingStreamState_def reclaim_def stream_ok_def bind_simps split: if_splits)
  then show ?thesis using stream_put_ok(1) [OF ended(5,2,3) ok] ended(1) by simp
qed

lemma reachable_ok: "reachable md5 db port1 port2 sv \<Longrightarrow> server_ok {} sv"
proof (induction rule: reachable.induct)
  case start
  show ?case by (simp add: New_def server_ok_def parts_def)
next
  case (step sv sv')
  then show ?case by (blast intro: step_ok)
qed

end
