(* ===== verification/RtspParse.thy ===== *)
theory RtspParse
  imports RtspRequest
begin

text \<open>
  The properties of the request parser: a request that is composed of its parts is taken apart into the same parts; a request
  that ends with a line end and has no content length never makes the parser panic; one with a content
  length at its end always does.
\<close>

section \<open>ASCII\<close>

definition ascii :: "string \<Rightarrow> bool" where
  "ascii s \<longleftrightarrow> (\<forall>c \<in> set s. (of_char c :: nat) < 128)"

lemma ascii_simps [simp]:
  "ascii []" "ascii (c # s) \<longleftrightarrow> (of_char c :: nat) < 128 \<and> ascii s" "ascii (s @ t) \<longleftrightarrow> ascii s \<and> ascii t"
  by (auto simp: ascii_def)

lemma ascii_window: "ascii s \<Longrightarrow> ascii (take n (drop i s))"
  by (auto simp: ascii_def dest!: in_set_takeD in_set_dropD)

lemma window_append: "i + n \<le> length u \<Longrightarrow> take n (drop i (u @ v)) = take n (drop i u)"
  by simp

lemma ascii_fold: "ascii s \<Longrightarrow> fold_case s = map lower s"
  by (induction s rule: fold_case.induct) auto

lemma ascii_runes: "ascii s \<Longrightarrow> runes s = s"
  by (induction s) (simp_all add: runes_def rune_str_def)

lemma ascii_EqualFold: "ascii s \<Longrightarrow> ascii t \<Longrightarrow> EqualFold s t \<longleftrightarrow> map lower s = map lower t"
  by (simp add: EqualFold_def ascii_fold)

lemma ascii_EqualFold_hd: "ascii s \<Longrightarrow> ascii t \<Longrightarrow> hd (map lower s) \<noteq> hd (map lower t) \<Longrightarrow> \<not> EqualFold s t"
  by (auto simp: ascii_EqualFold)

lemma lower_colon [simp]: "lower c = CHR '':'' \<longleftrightarrow> c = CHR '':''" "CHR '':'' = lower c \<longleftrightarrow> c = CHR '':''"
proof -
  have *: "char_of (n + 32) \<noteq> CHR '':''" if "65 \<le> n" "n \<le> 90" for n :: nat
    using that by (auto dest: arg_cong [where f = "of_char :: char \<Rightarrow> nat"])
  show "lower c = CHR '':'' \<longleftrightarrow> c = CHR '':''" using * by (auto simp: lower_def Let_def)
  then show "CHR '':'' = lower c \<longleftrightarrow> c = CHR '':''" by metis
qed

section \<open>The loops on a request that is known in parts\<close>

lemma scan_while_part:
  assumes "\<forall>c \<in> set b. P c" and "c = [] \<or> \<not> P (hd c)"
  shows "scan_while P (a @ b @ c) (length a) = length a + length b"
  using assms
proof (induction b arbitrary: a)
  case Nil
  then show ?case by (cases c) (subst scan_while.simps, simp)+
next
  case (Cons x b)
  have "scan_while P ((a @ [x]) @ b @ c) (length (a @ [x])) = length (a @ [x]) + length b" by (rule Cons.IH) (use Cons.prems in auto)
  then show ?case using Cons.prems by (subst scan_while.simps) simp
qed

lemma collect_line_part:
  assumes "\<forall>c \<in> set b. \<not> line_end c" and "line_end x"
  shows "collect_line (a @ b @ x # c) (length a) = Some (runes b, length a + length b)"
  using assms(1)
proof (induction b arbitrary: a)
  case Nil
  then show ?case using assms(2) by (subst collect_line.simps) (simp add: runes_def)
next
  case (Cons y b)
  have "collect_line ((a @ [y]) @ b @ x # c) (length (a @ [y])) = Some (runes b, length (a @ [y]) + length b)"
    by (rule Cons.IH) (use Cons.prems in auto)
  then show ?case using Cons.prems by (subst collect_line.simps) (simp add: runes_def)
qed

definition quiet :: "string \<Rightarrow> string \<Rightarrow> string \<Rightarrow> bool" where
  "quiet name b c \<longleftrightarrow>
     (\<forall>i < length b. length name \<le> length (drop i (b @ c)) \<longrightarrow> \<not> EqualFold name (take (length name) (drop i (b @ c))))"

lemma quiet_tl: "quiet name (x # b) c \<Longrightarrow> quiet name b c"
  unfolding quiet_def by (metis Suc_less_eq append_Cons drop_Suc_Cons length_Cons)

lemma header_loop_skip:
  assumes "quiet name b c"
  shows "header_loop name (a @ b @ c) (length a) = header_loop name (a @ b @ c) (length a + length b)"
  using assms
proof (induction b arbitrary: a)
  case (Cons x b)
  have ih: "header_loop name ((a @ [x]) @ b @ c) (length (a @ [x])) = header_loop name ((a @ [x]) @ b @ c) (length (a @ [x]) + length b)"
    by (rule Cons.IH) (rule quiet_tl [OF Cons.prems])
  have "\<not> EqualFold name (take (length name) (drop 0 ((x # b) @ c)))" if "length name \<le> length (x # b @ c)"
    using Cons.prems that unfolding quiet_def by (metis append_Cons drop_0 length_greater_0_conv list.distinct(1))
  then have n: "\<not> EqualFold name (take (length name) (drop (length a) (a @ (x # b) @ c)))"
    if "length a + length name < length (a @ (x # b) @ c)" using that by simp
  show ?case
  proof (cases "length a + length name < length (a @ (x # b) @ c)")
    case True
    then have "header_loop name (a @ (x # b) @ c) (length a) = header_loop name (a @ (x # b) @ c) (length a + 1)"
      using n by (subst header_loop.simps) simp
    then show ?thesis using ih by simp
  next
    case False
    then show ?thesis by (subst (1 2) header_loop.simps) simp
  qed
qed simp

lemma header_loop_match:
  assumes "EqualFold name n" and "length n = length name" and "\<forall>c \<in> set sp. ws c" and "v = [] \<or> \<not> ws (hd v)"
    and "\<forall>c \<in> set v. \<not> line_end c" and "line_end x"
  shows "header_loop name (a @ n @ sp @ v @ x # c) (length a) =
    map_option (\<lambda>r. runes v @ r) (header_loop name (a @ n @ sp @ v @ x # c) (length (a @ n @ sp @ v @ [x])))"
proof -
  have "\<not> ws x" using assms(6) by (auto simp: line_end_def ws_def cr_def lf_def tab_def)
  then have "\<not> ws (hd (v @ x # c))" using assms(4) by (cases v) auto
  then have "scan_while ws ((a @ n) @ sp @ (v @ x # c)) (length (a @ n)) = length (a @ n) + length sp"
    using assms(3) by (intro scan_while_part) auto
  then have w: "scan_while ws (a @ n @ sp @ v @ x # c) (length a + length name) = length (a @ n @ sp)" using assms(2) by simp
  have "collect_line ((a @ n @ sp) @ v @ x # c) (length (a @ n @ sp)) = Some (runes v, length (a @ n @ sp) + length v)"
    using assms(5,6) by (rule collect_line_part)
  then have k: "collect_line (a @ n @ sp @ v @ x # c) (length (a @ n @ sp)) = Some (runes v, length (a @ n @ sp @ v))" by simp
  show ?thesis using assms(1,2) w k by (subst header_loop.simps) simp
qed

lemma header_loop_end: "length s \<le> j + length name \<Longrightarrow> header_loop name s j = Some []"
  by (subst header_loop.simps) simp

text \<open>A window can only be the name of a header where it ends with a colon.\<close>

lemma quiet_colon:
  assumes "ascii (b @ c)" and "ascii name" and "name \<noteq> []" and "last name = CHR '':''"
    and "\<forall>i < length b. i + length name \<le> length (b @ c) \<longrightarrow> (b @ c) ! (i + (length name - 1)) = CHR '':'' \<longrightarrow>
      map lower (take (length name) (drop i (b @ c))) \<noteq> map lower name"
  shows "quiet name b c"
  unfolding quiet_def
proof (intro allI impI notI)
  fix i
  assume i: "i < length b" "length name \<le> length (drop i (b @ c))"
    and e: "EqualFold name (take (length name) (drop i (b @ c)))"
  define w where "w = take (length name) (drop i (b @ c))"
  have len: "length w = length name" "i + length name \<le> length (b @ c)" using i assms(3) by (auto simp: w_def)
  have m: "map lower w = map lower name" using e assms(1,2) ascii_window [of "b @ c"] by (auto simp: ascii_EqualFold w_def)
  then have "last (map lower w) = last (map lower name)" by simp
  moreover have "w \<noteq> []" using len(1) assms(3) by auto
  ultimately have "last w = CHR '':''" using assms(3,4) by (simp add: last_map lower_def [of "CHR '':''"])
  moreover have "last w = (b @ c) ! (i + (length name - 1))"
    using len \<open>w \<noteq> []\<close> unfolding w_def by (simp add: last_conv_nth del: take_append drop_append)
  ultimately show False using assms(5) i(1) len(2) m unfolding w_def by auto
qed

section \<open>The request line\<close>

text \<open>The parts of a path: no slash, no space, and not the word that announces the version.\<close>

definition path_part :: "string \<Rightarrow> bool" where
  "path_part p \<longleftrightarrow> ascii p \<and> CHR ''/'' \<notin> set p \<and> CHR '' '' \<notin> set p \<and> (\<forall>k. take 4 (drop k p) \<noteq> ''RTSP'')"

lemma path_partI: "ascii p \<Longrightarrow> CHR ''/'' \<notin> set p \<Longrightarrow> CHR '' '' \<notin> set p \<Longrightarrow> CHR ''R'' \<notin> set p \<Longrightarrow> path_part p"
  unfolding path_part_def by (metis in_set_dropD in_set_takeD list.set_intros(1))

lemma find_version_skip:
  assumes "\<forall>i < length b. take 5 (drop i (b @ c)) \<noteq> ''RTSP/''" and "5 < length c"
  shows "find_version (a @ b @ c) (length a) = find_version (a @ b @ c) (length a + length b)"
  using assms(1)
proof (induction b arbitrary: a)
  case (Cons x b)
  have "\<forall>i < length b. take 5 (drop i (b @ c)) \<noteq> ''RTSP/''" using Cons.prems by (metis Suc_less_eq append_Cons drop_Suc_Cons length_Cons)
  from Cons.IH [OF this, of "a @ [x]"]
  have ih: "find_version (a @ (x # b) @ c) (length a + 1) = find_version (a @ (x # b) @ c) (length a + length (x # b))" by simp
  have "take 5 (drop 0 ((x # b) @ c)) \<noteq> ''RTSP/''" using Cons.prems by blast
  then have "find_version (a @ (x # b) @ c) (length a) = find_version (a @ (x # b) @ c) (length a + 1)"
    using assms(2) by (subst find_version.simps) auto
  then show ?case using ih by simp
qed simp

text \<open>A window of the word RTSP and a slash does not begin in a part that is followed by a slash or a space.\<close>

lemma window_of_part:
  assumes "path_part p" and "d = CHR ''/'' \<or> d = CHR '' ''" and "i < length p"
  shows "take 5 (drop i (p @ d # c)) \<noteq> ''RTSP/''"
proof
  assume w: "take 5 (drop i (p @ d # c)) = ''RTSP/''"
  show False
  proof (cases "i + 4 \<le> length p")
    case True
    have "take 4 (take 5 (drop i (p @ d # c))) = take 4 ''RTSP/''" using w by (rule arg_cong)
    then have "take 4 (drop i p) = ''RTSP''" using True by simp
    then show False using assms(1) by (auto simp: path_part_def)
  next
    case False
    define j where "j = length p - i"
    have j: "j < 4" "0 < j" "i + j = length p" using False assms(3) by (auto simp: j_def)
    have "take 5 (drop i (p @ d # c)) ! j = ''RTSP/'' ! j" using w by simp
    moreover have "take 5 (drop i (p @ d # c)) ! j = (p @ d # c) ! (i + j)" using j assms(3) by (simp del: drop_append)
    moreover have "(p @ d # c) ! (i + j) = d" by (simp add: j(3))
    moreover have "j = 1 \<or> j = 2 \<or> j = 3" using j by linarith
    ultimately show False using assms(2) by auto
  qed
qed

lemma back_slash_part:
  assumes "CHR ''/'' \<notin> set p" and "i \<le> length a"
  shows "back_slash (a @ CHR ''/'' # p @ c) i (length a + length p) = length a"
  using assms(1)
proof (induction p arbitrary: c rule: rev_induct)
  case Nil
  then show ?case by (subst back_slash.simps) simp
next
  case (snoc x p)
  then have "back_slash (a @ CHR ''/'' # p @ x # c) i (length a + length p) = length a" by simp
  moreover have "(a @ CHR ''/'' # (p @ [x]) @ c) ! (length a + length (p @ [x])) = x" by (simp add: nth_append)
  ultimately show ?case using snoc.prems assms(2) by (subst back_slash.simps) auto
qed

lemma back_spaces_one:
  assumes "i < length a" and "last a \<noteq> CHR '' ''"
  shows "back_spaces (a @ CHR '' '' # c) i (length a + 1) = length a"
proof -
  have "a \<noteq> []" using assms(1) by auto
  then have "(a @ CHR '' '' # c) ! (length a - 1) \<noteq> CHR '' ''" using assms by (simp add: nth_append last_conv_nth)
  then have "back_spaces (a @ CHR '' '' # c) i (length a) = length a" by (subst back_spaces.simps) simp
  then show ?thesis using assms(1) by (subst back_spaces.simps) simp
qed

text \<open>The path \<open>/pre/suf\<close> behind the host.\<close>

lemma urlSuffixes_path:
  assumes "path_part pre" and "path_part suf"
    and s: "s = h @ CHR ''/'' # pre @ CHR ''/'' # suf @ '' RTSP/'' @ v" and v: "v \<noteq> []"
  shows "urlSuffixes s (length h) = (pre, suf, length h + length pre + length suf + 8)"
proof -
  let ?k = "length h + 2 + length pre + length suf + 1"
  let ?p = "h @ [CHR ''/''] @ pre @ [CHR ''/''] @ suf"
  have 1: "find_version s (length (h @ [CHR ''/''])) = find_version s (length (h @ [CHR ''/'']) + length pre)"
    using find_version_skip [of pre "CHR ''/'' # suf @ '' RTSP/'' @ v" "h @ [CHR ''/'']"] window_of_part [OF assms(1), of "CHR ''/''"]
    unfolding s by auto
  have w2: "take 5 (drop i ((CHR ''/'' # suf @ [CHR '' '']) @ ''RTSP/'' @ v)) \<noteq> ''RTSP/''"
    if "i < length (CHR ''/'' # suf @ [CHR '' ''])" for i
  proof (cases i)
    case (Suc j)
    then have "j < length suf \<or> j = length suf" using that by auto
    then consider "j < length suf" | "j = length suf" by blast
    then show ?thesis
    proof cases
      case 1
      then show ?thesis using window_of_part [OF assms(2), of "CHR '' ''" j "''RTSP/'' @ v"] Suc by simp
    qed (simp add: Suc)
  qed simp
  have 2: "find_version s (length (h @ [CHR ''/''] @ pre)) =
      find_version s (length (h @ [CHR ''/''] @ pre) + length (CHR ''/'' # suf @ [CHR '' '']))"
    using find_version_skip [of "CHR ''/'' # suf @ [CHR '' '']" "''RTSP/'' @ v" "h @ [CHR ''/''] @ pre"] w2 v unfolding s by auto
  have sx: "s = (?p @ '' '') @ ''RTSP/'' @ v" and lx: "length (?p @ '' '') = ?k" by (simp_all add: s)
  then have "drop ?k s = ''RTSP/'' @ v" by (metis append_eq_conv_conj)
  moreover have "?k + 5 < length s" using v by (simp add: s)
  ultimately have 3: "find_version s ?k = Some ?k" by (subst find_version.simps) simp
  have fv: "find_version s (length h + 1) = Some ?k" using 1 2 3 by simp
  have "suf \<noteq> [] \<Longrightarrow> last suf \<noteq> CHR '' ''" using assms(2) unfolding path_part_def by (metis last_in_set)
  then have "last ?p \<noteq> CHR '' ''" by (cases "suf = []") simp_all
  moreover have "s = ?p @ CHR '' '' # ''RTSP/'' @ v" by (simp add: s)
  ultimately have e: "back_spaces s (length h) ?k = ?k - 1"
    using back_spaces_one [of "length h" ?p "''RTSP/'' @ v"] by (simp add: ac_simps)
  have "CHR ''/'' \<notin> set suf" using assms(2) by (simp add: path_part_def)
  from back_slash_part [OF this, of "length h" "h @ CHR ''/'' # pre" "'' RTSP/'' @ v"]
  have k1: "back_slash s (length h) (?k - 2) = length h + length pre + 1" unfolding s by simp
  have "between s (length h + 1) (length h + length pre + 1) = pre" "between s (length h + length pre + 2) (?k - 1) = suf"
    unfolding between_def s using assms(1,2) by (simp_all add: ascii_runes path_part_def)
  then show ?thesis unfolding urlSuffixes_def fv using e k1 by (simp add: Let_def numeral_2_eq_2)
qed

text \<open>The path \<open>/suf\<close> behind the host.\<close>

lemma urlSuffixes_one:
  assumes "path_part suf" and "suf \<noteq> []" and s: "s = h @ CHR ''/'' # suf @ '' RTSP/'' @ v" and v: "v \<noteq> []"
  shows "urlSuffixes s (length h) = ([], suf, length h + length suf + 7)"
proof -
  let ?k = "length h + 2 + length suf"
  let ?p = "h @ [CHR ''/''] @ suf"
  have w: "take 5 (drop i ((suf @ [CHR '' '']) @ ''RTSP/'' @ v)) \<noteq> ''RTSP/''" if "i < length (suf @ [CHR '' ''])" for i
  proof (cases "i = length suf")
    case False
    then show ?thesis using window_of_part [OF assms(1), of "CHR '' ''" i "''RTSP/'' @ v"] that by simp
  qed simp
  have 1: "find_version s (length (h @ [CHR ''/''])) = find_version s (length (h @ [CHR ''/'']) + length (suf @ [CHR '' '']))"
    using find_version_skip [of "suf @ [CHR '' '']" "''RTSP/'' @ v" "h @ [CHR ''/'']"] w v unfolding s by auto
  have sx: "s = (?p @ '' '') @ ''RTSP/'' @ v" and lx: "length (?p @ '' '') = ?k" by (simp_all add: s)
  then have "drop ?k s = ''RTSP/'' @ v" by (metis append_eq_conv_conj)
  moreover have "?k + 5 < length s" using v by (simp add: s)
  ultimately have "find_version s ?k = Some ?k" by (subst find_version.simps) simp
  then have fv: "find_version s (length h + 1) = Some ?k" using 1 by simp
  have "last suf \<noteq> CHR '' ''" using assms(1,2) unfolding path_part_def by (metis last_in_set)
  then have "last ?p \<noteq> CHR '' ''" using assms(2) by simp
  moreover have "s = ?p @ CHR '' '' # ''RTSP/'' @ v" by (simp add: s)
  ultimately have e: "back_spaces s (length h) ?k = ?k - 1"
    using back_spaces_one [of "length h" ?p "''RTSP/'' @ v"] by (simp add: ac_simps)
  have "CHR ''/'' \<notin> set suf" using assms(1) by (simp add: path_part_def)
  from back_slash_part [OF this, of "length h" h "'' RTSP/'' @ v"]
  have k1: "back_slash s (length h) (?k - 2) = length h" unfolding s by simp
  have "between s (length h + 1) (length h) = []" "between s (length h + 1) (?k - 1) = suf"
    unfolding between_def s using assms(1) by (simp add: runes_def, simp add: ascii_runes path_part_def)
  then show ?thesis unfolding urlSuffixes_def fv using e k1 by (simp add: Let_def numeral_2_eq_2)
qed

text \<open>The path of a URL that has two parts, or one.\<close>

definition path_of :: "string \<Rightarrow> string \<Rightarrow> string" where
  "path_of pre suf = (if pre = [] then suf else pre @ ''/'' @ suf)"

definition names_path :: "string \<Rightarrow> string \<Rightarrow> string \<Rightarrow> bool" where
  "names_path path pre suf \<longleftrightarrow> (\<forall>h v. v \<noteq> [] \<longrightarrow>
     urlSuffixes (h @ ''/'' @ path @ '' RTSP/'' @ v) (length h) = (pre, suf, length (h @ ''/'' @ path @ '' RTSP/'')))"

lemma names_two_parts: "path_part pre \<Longrightarrow> path_part suf \<Longrightarrow> names_path (pre @ ''/'' @ suf) pre suf"
  using urlSuffixes_path [of pre suf] by (simp add: names_path_def)

lemma names_path_of: "path_part pre \<Longrightarrow> path_part suf \<Longrightarrow> pre \<noteq> [] \<or> suf \<noteq> [] \<Longrightarrow> names_path (path_of pre suf) pre suf"
  using urlSuffixes_one [of suf] names_two_parts [of pre suf] by (auto simp: names_path_def path_of_def)

section \<open>A request\<close>

definition rtsp_request :: "string \<Rightarrow> string \<Rightarrow> string \<Rightarrow> string \<Rightarrow> string \<Rightarrow> string \<Rightarrow> string" where
  "rtsp_request cmd host pre suf cseq session =
     cmd @ '' rtsp://'' @ host @ ''/'' @ pre @ ''/'' @ suf @ '' RTSP/1.0'' @ crlf @ ''CSeq: '' @ cseq @ crlf @
     ''Session: '' @ session @ crlf @ crlf"

text \<open>A value of a header: no colon, no line end, no space in front.\<close>

definition field_value :: "string \<Rightarrow> bool" where
  "field_value v \<longleftrightarrow> ascii v \<and> CHR '':'' \<notin> set v \<and> (\<forall>c \<in> set v. \<not> line_end c) \<and> (v = [] \<or> \<not> ws (hd v))"

lemma find_path_request:
  assumes "ascii host" and "CHR ''/'' \<notin> set host" and "CHR '' '' \<notin> set host" and "r \<noteq> []"
  shows "find_path (a @ ''rtsp://'' @ host @ CHR ''/'' # r) (length a) = Some (length (a @ ''rtsp://'' @ host))"
proof -
  let ?s = "a @ ''rtsp://'' @ host @ CHR ''/'' # r"
  have "rtsp_prefix (drop (length a) ?s)" by (simp add: rtsp_prefix_def)
  moreover have "?s ! (length a + 6) = CHR ''/''" by (simp add: nth_append)
  moreover have "scan_while (\<lambda>c. c \<noteq> CHR ''/'' \<and> c \<noteq> CHR '' '') ((a @ ''rtsp://'') @ host @ CHR ''/'' # r) (length (a @ ''rtsp://'')) =
      length (a @ ''rtsp://'') + length host"
    by (rule scan_while_part) (use assms(2,3) in auto)
  then have "scan_while (\<lambda>c. c \<noteq> CHR ''/'' \<and> c \<noteq> CHR '' '') ?s (length a + 7) = length a + 7 + length host"
    by (simp add: eval_nat_numeral)
  moreover have "length a + 8 < length ?s" using assms(4) by (cases r) simp_all
  ultimately show ?thesis by (subst find_path.simps) simp
qed

lemma colon_before: "(x @ t) ! m = CHR '':'' \<Longrightarrow> m < length (x @ t) \<Longrightarrow> CHR '':'' \<notin> set t \<Longrightarrow> m < length x"
  by (rule ccontr) (auto simp: nth_append in_set_conv_nth)

lemma cseq_read:
  assumes "field_value q" and "field_value sid"
  shows "header_loop ''CSeq:'' (a @ ''1.0'' @ crlf @ ''CSeq: '' @ q @ crlf @ ''Session: '' @ sid @ crlf @ crlf) (length a) = Some q"
proof -
  let ?tail = "''Session: '' @ sid @ crlf @ crlf"
  let ?s = "a @ ''1.0'' @ crlf @ ''CSeq: '' @ q @ crlf @ ?tail"
  have "quiet ''CSeq:'' (''1.0'' @ crlf) (''CSeq: '' @ q @ crlf @ ?tail)"
    by (rule quiet_colon) (use assms in \<open>auto simp: field_value_def crlf_def cr_def lf_def less_Suc_eq lower_def\<close>)
  from header_loop_skip [OF this, of a]
  have 1: "header_loop ''CSeq:'' ?s (length a) = header_loop ''CSeq:'' ?s (length (a @ ''1.0'' @ crlf))" by simp
  have 2: "header_loop ''CSeq:'' ?s (length (a @ ''1.0'' @ crlf)) =
      map_option (\<lambda>r. runes q @ r) (header_loop ''CSeq:'' ?s (length (a @ ''1.0'' @ crlf @ ''CSeq: '' @ q @ [cr])))"
    using header_loop_match [of "''CSeq:''" "''CSeq:''" "'' ''" q cr "a @ ''1.0'' @ crlf" "lf # ?tail"] assms
    by (simp add: field_value_def line_end_def ws_def crlf_def)
  have "quiet ''CSeq:'' (lf # ?tail) []"
  proof (rule quiet_colon, goal_cases)
    case 5
    show ?case
    proof (intro allI impI)
      fix i
      let ?x = "lf # ''Session:''" and ?t = "'' '' @ sid @ crlf @ crlf"
      assume i: "i < length (lf # ?tail)" "i + length ''CSeq:'' \<le> length ((lf # ?tail) @ [])"
        "((lf # ?tail) @ []) ! (i + (length ''CSeq:'' - 1)) = CHR '':''"
      have "CHR '':'' \<notin> set ?t" using assms(2) by (auto simp: field_value_def crlf_def cr_def lf_def)
      moreover have "(?x @ ?t) ! (i + 4) = CHR '':''" "i + 4 < length (?x @ ?t)" using i by simp_all
      ultimately have "i + 4 < length ?x" using colon_before by blast
      then have "i < 5" by simp
      then show "map lower (take (length ''CSeq:'') (drop i ((lf # ?tail) @ []))) \<noteq> map lower ''CSeq:''"
        by (auto simp: less_Suc_eq eval_nat_numeral lower_def lf_def)
    qed
  qed (use assms(2) in \<open>auto simp: field_value_def crlf_def cr_def lf_def\<close>)
  from header_loop_skip [OF this, of "a @ ''1.0'' @ crlf @ ''CSeq: '' @ q @ [cr]"]
  have "header_loop ''CSeq:'' ((a @ ''1.0'' @ crlf @ ''CSeq: '' @ q @ [cr]) @ (lf # ?tail) @ []) (length (a @ ''1.0'' @ crlf @ ''CSeq: '' @ q @ [cr])) = Some []"
    by (simp only:) (rule header_loop_end, simp)
  moreover have "(a @ ''1.0'' @ crlf @ ''CSeq: '' @ q @ [cr]) @ (lf # ?tail) @ [] = ?s" by (simp add: crlf_def)
  ultimately have 3: "header_loop ''CSeq:'' ?s (length (a @ ''1.0'' @ crlf @ ''CSeq: '' @ q @ [cr])) = Some []" by (simp only:)
  show ?thesis using assms(1) unfolding 1 2 3 by (simp add: ascii_runes field_value_def)
qed

lemma session_read:
  assumes "field_value q" and "field_value sid"
  shows "header_loop ''Session:'' (a @ ''1.0'' @ crlf @ ''CSeq: '' @ q @ crlf @ ''Session: '' @ sid @ crlf @ crlf) (length a) = Some sid"
proof -
  let ?b = "''1.0'' @ crlf @ ''CSeq: '' @ q @ crlf"
  let ?s = "a @ ?b @ ''Session: '' @ sid @ crlf @ crlf"
  have "quiet ''Session:'' ?b (''Session: '' @ sid @ crlf @ crlf)"
  proof (rule quiet_colon, goal_cases)
    case 5
    show ?case
    proof (intro allI impI)
      fix i
      let ?x = "''1.0'' @ crlf @ ''CSeq:''" and ?t = "'' '' @ q @ crlf @ ''Session''" and ?r = "'': '' @ sid @ crlf @ crlf"
      assume i: "i < length ?b" "(?b @ ''Session: '' @ sid @ crlf @ crlf) ! (i + (length ''Session:'' - 1)) = CHR '':''"
      have bx: "?b @ ''Session: '' @ sid @ crlf @ crlf = (?x @ ?t) @ ?r" by simp
      have seven: "length ''Session:'' - 1 = 7" by simp
      have l: "i + 7 < length (?x @ ?t)" using i(1) by simp
      have "((?x @ ?t) @ ?r) ! (i + 7) = CHR '':''" using i(2) unfolding bx seven .
      then have "(?x @ ?t) ! (i + 7) = CHR '':''" using l by (simp only: nth_append if_True)
      moreover have "CHR '':'' \<notin> set ?t" using assms(1) by (auto simp: field_value_def crlf_def cr_def lf_def)
      ultimately have "i + 7 < length ?x" using l colon_before by blast
      then have "i < 3" by (simp add: crlf_def)
      then show "map lower (take (length ''Session:'') (drop i (?b @ ''Session: '' @ sid @ crlf @ crlf))) \<noteq> map lower ''Session:''"
        by (auto simp: less_Suc_eq eval_nat_numeral lower_def cr_def lf_def crlf_def)
    qed
  qed (use assms in \<open>auto simp: field_value_def crlf_def cr_def lf_def\<close>)
  from header_loop_skip [OF this, of a]
  have 1: "header_loop ''Session:'' ?s (length a) = header_loop ''Session:'' ?s (length (a @ ?b))" by simp
  have 2: "header_loop ''Session:'' ?s (length (a @ ?b)) =
      map_option (\<lambda>r. runes sid @ r) (header_loop ''Session:'' ?s (length (a @ ?b @ ''Session: '' @ sid @ [cr])))"
    using header_loop_match [of "''Session:''" "''Session:''" "'' ''" sid cr "a @ ?b" "lf # crlf"] assms
    by (simp add: field_value_def line_end_def ws_def crlf_def)
  have 3: "header_loop ''Session:'' ?s (length (a @ ?b @ ''Session: '' @ sid @ [cr])) = Some []"
    by (rule header_loop_end) (simp add: crlf_def)
  show ?thesis using assms(2) unfolding append_assoc [symmetric] 
    using 1 2 3 by (simp add: ascii_runes field_value_def)
qed

lemma content_loop_quiet:
  "\<forall>i \<ge> j. i + 15 < length s \<longrightarrow> \<not> EqualFold ''Content-Length:'' (take 15 (drop i s)) \<Longrightarrow> content_loop s j = Some ()"
proof (induction s j rule: content_loop.induct)
  case (1 s j)
  show ?case
  proof (cases "j + 15 < length s")
    case True
    then have "content_loop s (j + 1) = Some ()" 
      by (intro "1.IH"(2)) (use "1.prems" in auto)
    then show ?thesis using True "1.prems" by (subst content_loop.simps) simp
  qed (subst content_loop.simps, simp)
qed

lemma no_content_length:
  assumes "field_value q" and "field_value sid"
    and s: "s = a @ ''1.0'' @ crlf @ ''CSeq: '' @ q @ crlf @ ''Session: '' @ sid @ crlf @ crlf" and "ascii a" and "length a \<le> i"
    and "i + 15 < length s"
  shows "\<not> EqualFold ''Content-Length:'' (take 15 (drop i s))"
proof
  let ?w = "take 15 (drop i s)"
  let ?x = "a @ ''1.0'' @ crlf @ ''CSeq:''" and ?y = "'' '' @ q @ crlf @ ''Session''" and ?z = "'' '' @ sid @ crlf @ crlf"
  assume "EqualFold ''Content-Length:'' ?w"
  moreover have "ascii s" using assms(1,2,4) by (auto simp: s field_value_def crlf_def cr_def lf_def)
  ultimately have m: "map lower ?w = map lower ''Content-Length:''" 
    using ascii_EqualFold [of "''Content-Length:''" ?w] ascii_window [of s 15 i] by simp
  have w: "map lower ?w ! k = lower (s ! (i + k))" if "k < 15" for k using that assms(6) by (simp del: take_map)
  have "lower (s ! (i + 14)) = CHR '':''" using w [of 14] unfolding m by (simp add: lower_def)
  then have colon: "s ! (i + 14) = CHR '':''" by simp
  have h: "lower (s ! (i + 13)) = CHR ''h''" using w [of 13] unfolding m by (simp add: lower_def)
  have sx: "s = ((?x @ ?y) @ CHR '':'' # ?z)" by (simp add: s)
  have "CHR '':'' \<notin> set ?y" "CHR '':'' \<notin> set ?z" using assms(1,2) by (auto simp: field_value_def crlf_def cr_def lf_def)
  then have "i + 14 \<le> length (?x @ ?y)" using colon colon_before [of "(?x @ ?y) @ [CHR '':'']" ?z "i + 14"] assms(6) unfolding sx by simp
  moreover have "i + 14 \<noteq> length (?x @ ?y)"
  proof
    assume "i + 14 = length (?x @ ?y)"
    then have "i + 13 = length (?x @ '' '' @ q @ crlf @ ''Sessio'')" by simp
    moreover have "s = (?x @ '' '' @ q @ crlf @ ''Sessio'') @ CHR ''n'' # CHR '':'' # ?z" by (simp add: s)
    ultimately have "s ! (i + 13) = CHR ''n''" by (metis nth_append_length)
    then show False using h by (simp add: lower_def)
  qed
  ultimately have l: "i + 14 < length (?x @ ?y)" by simp
  then have "(?x @ ?y) ! (i + 14) = CHR '':''" using colon unfolding sx by (simp only: nth_append if_True)
  then have "i + 14 < length ?x" using l \<open>CHR '':'' \<notin> set ?y\<close> colon_before by blast
  then show False using assms(5) by (simp add: crlf_def)
qed

section \<open>What the parser does with a request\<close>

definition command :: "string \<Rightarrow> bool" where
  "command cmd \<longleftrightarrow> ascii cmd \<and> (\<forall>c \<in> set cmd. \<not> ws c)"

definition host_name :: "string \<Rightarrow> bool" where
  "host_name h \<longleftrightarrow> ascii h \<and> CHR ''/'' \<notin> set h \<and> CHR '' '' \<notin> set h"

definition request_line :: "string \<Rightarrow> string \<Rightarrow> string \<Rightarrow> string \<Rightarrow> string" where
  "request_line cmd host pre suf = cmd @ '' rtsp://'' @ host @ ''/'' @ pre @ ''/'' @ suf @ '' RTSP/''"

text \<open>Behind the request line the headers are searched from the version number on.\<close>

lemma parse_request:
  assumes "command cmd" and "host_name host" and "names_path path pre suf" and "v \<noteq> []"
    and sa: "s = a @ v" and a: "a = cmd @ '' rtsp://'' @ host @ ''/'' @ path @ '' RTSP/''"
  shows "ParseRTSPRequestString s = do {
      cseq \<leftarrow> header_loop ''CSeq:'' s (length a);
      session \<leftarrow> header_loop ''Session:'' s (length a);
      _ \<leftarrow> content_loop s (length a);
      Some (Some \<lparr>Cseq = cseq, CmdName = cmd, SessionIDStr = session, UrlPreSuffix = pre, UrlSuffix = suf,
        ContentLength = []\<rparr>) }"
proof -
  let ?h = "cmd @ '' rtsp://'' @ host"
  note defs = sa a
  have "scan_while (\<lambda>c. \<not> ws c) ([] @ cmd @ '' '' @ drop (length cmd + 1) s) (length ([] :: string)) = length ([] :: string) + length cmd"
    by (rule scan_while_part) (use assms(1) in \<open>auto simp: command_def ws_def\<close>)
  moreover have "s = [] @ cmd @ '' '' @ drop (length cmd + 1) s" by (simp add: defs)
  ultimately have i0: "scan_while (\<lambda>c. \<not> ws c) s 0 = length cmd" by simp
  have "scan_while ws ((cmd @ '' '') @ [] @ drop (length cmd + 1) s) (length (cmd @ '' '')) = length (cmd @ '' '') + length ([] :: string)"
    by (rule scan_while_part) (simp_all add: defs ws_def tab_def)
  then have i1: "scan_while ws s (length cmd + 1) = length cmd + 1" by (simp add: defs)
  have "find_path s (length (cmd @ '' '')) = Some (length ((cmd @ '' '') @ ''rtsp://'' @ host))"
    using find_path_request [of host "path @ '' RTSP/'' @ v" "cmd @ '' ''"] assms(2)
    by (simp add: host_name_def defs)
  then have fp: "find_path s (length cmd + 1) = Some (length ?h)" by simp
  have us: "urlSuffixes s (length ?h) = (pre, suf, length a)"
    using assms(3) [unfolded names_path_def, rule_format, OF assms(4), of ?h] by (simp add: defs)
  have r: "runes (take (length cmd) s) = cmd" "length cmd < length s" using assms(1) by (auto simp: defs ascii_runes command_def)
  then have l: "(length s \<le> length cmd) = False" by simp
  show ?thesis unfolding ParseRTSPRequestString_def Let_def i0 i1 fp option.case us split r l if_False ..
qed

lemma parse_request_line:
  assumes "command cmd" and "host_name host" and "path_part pre" and "path_part suf" and "v \<noteq> []"
    and "s = a @ v" and "a = request_line cmd host pre suf"
  shows "ParseRTSPRequestString s = do {
      cseq \<leftarrow> header_loop ''CSeq:'' s (length a);
      session \<leftarrow> header_loop ''Session:'' s (length a);
      _ \<leftarrow> content_loop s (length a);
      Some (Some \<lparr>Cseq = cseq, CmdName = cmd, SessionIDStr = session, UrlPreSuffix = pre, UrlSuffix = suf,
        ContentLength = []\<rparr>) }"
  using parse_request [OF assms(1,2) names_two_parts [OF assms(3,4)] assms(5,6)] assms(7) by (simp add: request_line_def)

text \<open>Round trip of requests: a request that is composed of a command, a host, a path of two parts, a sequence
  number and a session is taken apart by \<open>ParseRTSPRequestString\<close> into the same parts.
\<close>

theorem request_is_taken_apart:
  assumes "command cmd" and "host_name host" and "path_part pre" and "path_part suf" and "suf \<noteq> []"
    and "field_value cseq" and "field_value session"
  shows "ParseRTSPRequestString (rtsp_request cmd host pre suf cseq session) =
    Some (Some \<lparr>Cseq = cseq, CmdName = cmd, SessionIDStr = session, UrlPreSuffix = pre, UrlSuffix = suf, ContentLength = []\<rparr>)"
proof -
  define s where "s = rtsp_request cmd host pre suf cseq session"
  define a where "a = request_line cmd host pre suf"
  let ?v = "''1.0'' @ crlf @ ''CSeq: '' @ cseq @ crlf @ ''Session: '' @ session @ crlf @ crlf"
  have sa: "s = a @ ?v" by (simp add: s_def a_def rtsp_request_def request_line_def)
  have "ascii a" using assms(1-4) by (simp add: command_def host_name_def path_part_def a_def request_line_def)
  then have c: "content_loop s (length a) = Some ()"
    using no_content_length [OF assms(6,7) sa] by (intro content_loop_quiet) blast
  have h: "header_loop ''CSeq:'' s (length a) = Some cseq" "header_loop ''Session:'' s (length a) = Some session"
    unfolding sa using cseq_read session_read assms(6,7) by blast+
  show ?thesis unfolding s_def [symmetric] using parse_request_line [OF assms(1-4) _ sa a_def] h c by simp
qed

lemma request_is_taken_apart_witness:
  "ParseRTSPRequestString (rtsp_request ''DESCRIBE'' ''cam'' ''live'' ''a.264'' ''2'' ''9F'') =
    Some (Some \<lparr>Cseq = ''2'', CmdName = ''DESCRIBE'', SessionIDStr = ''9F'', UrlPreSuffix = ''live'', UrlSuffix = ''a.264'',
      ContentLength = []\<rparr>)"
proof (rule request_is_taken_apart)
  show "path_part ''live''" "path_part ''a.264''" by (intro path_partI; simp)+
qed (auto simp: command_def host_name_def field_value_def ws_def line_end_def tab_def cr_def lf_def)


section \<open>Requests that end early\<close>

lemma collect_line_total: "s \<noteq> [] \<Longrightarrow> line_end (last s) \<Longrightarrow> j < length s \<Longrightarrow> collect_line s j \<noteq> None"
proof (induction s j rule: collect_line.induct)
  case (1 s j)
  show ?case
  proof (cases "line_end (s ! j)")
    case False
    then have "j \<noteq> length s - 1" using 1 by (metis last_conv_nth)
    then have "j + 1 < length s" using 1 by simp
    then have "collect_line s (j + 1) \<noteq> None" using 1 False by blast
    then show ?thesis using False "1.prems" by (subst collect_line.simps) (auto simp: bind_simps)
  qed (use "1.prems" in \<open>subst collect_line.simps, simp\<close>)
qed

lemma scan_while_stops: "s \<noteq> [] \<Longrightarrow> \<not> P (last s) \<Longrightarrow> j < length s \<Longrightarrow> scan_while P s j < length s"
proof (induction P s j rule: scan_while.induct)
  case (1 P s j)
  show ?case
  proof (cases "P (s ! j)")
    case True
    then have "j \<noteq> length s - 1" using 1 by (metis last_conv_nth)
    then have "scan_while P s (j + 1) < length s" using 1 True by (metis Suc_eq_plus1 Suc_lessI diff_Suc_1)
    then show ?thesis using True "1.prems" by (subst scan_while.simps) simp
  qed (use "1.prems" in \<open>subst scan_while.simps, simp\<close>)
qed

lemma header_loop_total: "s \<noteq> [] \<Longrightarrow> line_end (last s) \<Longrightarrow> header_loop name s j \<noteq> None"
proof (induction name s j rule: header_loop.induct)
  case (1 name s j)
  have "\<not> ws (last s)" using "1.prems" by (auto simp: line_end_def ws_def cr_def lf_def tab_def)
  then have "collect_line s (scan_while ws s (j + length name)) \<noteq> None" if "j + length name < length s"
    using "1.prems" that by (intro collect_line_total scan_while_stops) auto
  then show ?case using 1 by (subst header_loop.simps) (auto split: option.splits)
qed

text \<open>C27. Safety: a request whose last character ends a line, and in which the name of the content length does not occur, never makes
  the parser panic, however it is malformed.
\<close>

theorem complete_request_never_panics:
  assumes "s \<noteq> []" and "line_end (last s)" and "\<forall>i. \<not> EqualFold ''Content-Length:'' (take 15 (drop i s))"
  shows "ParseRTSPRequestString s \<noteq> None"
proof -
  have "\<forall>name j. \<exists>v. header_loop name s j = Some v" using header_loop_total [OF assms(1,2)] by auto
  then obtain f where "\<And>name j. header_loop name s j = Some (f name j)" by metis
  moreover have "content_loop s j = Some ()" for j using assms(3) by (intro content_loop_quiet) blast
  ultimately show ?thesis by (auto simp: ParseRTSPRequestString_def Let_def split: prod.splits)
qed

lemma complete_request_never_panics_witness: "ParseRTSPRequestString (''CSeq: RTSP/'' @ crlf) \<noteq> None"
proof (rule complete_request_never_panics)
  show "\<forall>i. \<not> EqualFold ''Content-Length:'' (take 15 (drop i (''CSeq: RTSP/'' @ crlf)))"
  proof
    fix i
    let ?w = "take 15 (drop i (''CSeq: RTSP/'' @ crlf))"
    have "ascii ?w" by (rule ascii_window) (simp add: crlf_def cr_def lf_def)
    moreover have "length (map lower ?w) \<noteq> length (map lower ''Content-Length:'')" by (simp add: crlf_def)
    then have "map lower ''Content-Length:'' \<noteq> map lower ?w" by metis
    ultimately show "\<not> EqualFold ''Content-Length:'' ?w" by (subst ascii_EqualFold) auto
  qed
qed (simp_all add: crlf_def line_end_def)

section \<open>The content length\<close>

lemma content_loop_skip:
  assumes "\<forall>i < length b. i + 15 \<le> length (b @ c) \<longrightarrow> \<not> EqualFold ''Content-Length:'' (take 15 (drop i (b @ c)))" and "15 < length c"
  shows "content_loop (a @ b @ c) (length a) = content_loop (a @ b @ c) (length a + length b)"
  using assms(1)
proof (induction b arbitrary: a)
  case (Cons x b)
  have "\<forall>i < length b. i + 15 \<le> length (b @ c) \<longrightarrow> \<not> EqualFold ''Content-Length:'' (take 15 (drop i (b @ c)))"
  proof (intro allI impI)
    fix i
    assume "i < length b" "i + 15 \<le> length (b @ c)"
    then show "\<not> EqualFold ''Content-Length:'' (take 15 (drop i (b @ c)))" using Cons.prems [THEN spec, of "Suc i"] by simp
  qed
  from Cons.IH [OF this, of "a @ [x]"]
  have ih: "content_loop (a @ (x # b) @ c) (length a + 1) = content_loop (a @ (x # b) @ c) (length a + length (x # b))" by simp
  have "\<not> EqualFold ''Content-Length:'' (take 15 (drop 0 ((x # b) @ c)))" using Cons.prems [THEN spec, of 0] assms(2) by simp
  then have "content_loop (a @ (x # b) @ c) (length a) = content_loop (a @ (x # b) @ c) (length a + 1)"
    using assms(2) by (subst content_loop.simps) simp
  then show ?case using ih by simp
qed simp



section \<open>Transport\<close>

lemma Index_None: "t \<noteq> [] \<Longrightarrow> hd t \<notin> set s \<Longrightarrow> Index s t = None"
proof (induction s)
  case Nil
  then show ?case by (subst Index.simps) simp
next
  case (Cons x s)
  then show ?case by (subst Index.simps) (cases t; auto)
qed

lemma Index_skip:
  assumes "\<forall>i < length r. \<not> prefix t (drop i (r @ u))" and "prefix t u"
  shows "Index (r @ u) t = Some (length r)"
  using assms(1)
proof (induction r)
  case Nil
  then show ?case using assms(2) by (simp add: Index_here)
next
  case (Cons x r)
  have "\<not> prefix t (drop 0 ((x # r) @ u))" using Cons.prems by blast
  moreover have "\<forall>i < length r. \<not> prefix t (drop i (r @ u))"
    using Cons.prems by (metis Suc_less_eq append_Cons drop_Suc_Cons length_Cons)
  ultimately show ?case using Cons.IH by (subst Index.simps) simp
qed

lemma prefix_drop_sublist: "prefix t (drop i r) \<Longrightarrow> sublist t r"
  unfolding prefix_def sublist_def by (metis append_take_drop_id)

lemma self_overlap: "prefix t (x @ w) \<Longrightarrow> \<not> prefix t x \<Longrightarrow> length x < length t"
  by (metis linorder_not_less prefixI prefix_length_prefix)

text \<open>The word occurs only where it stands: its first letter is not in the rest of it.\<close>

lemma Index_first:
  assumes "\<not> sublist t r" and "t \<noteq> []" and "hd t \<notin> set (tl t)"
  shows "Index (r @ t @ u) t = Some (length r)"
proof (rule Index_skip)
  show "\<forall>i < length r. \<not> prefix t (drop i (r @ t @ u))"
  proof (intro allI impI notI)
    fix i
    assume i: "i < length r" and p: "prefix t (drop i (r @ t @ u))"
    then have p': "prefix t (drop i r @ t @ u)" by simp
    then obtain v where v: "drop i r @ t @ u = t @ v" unfolding prefix_def by blast
    have "\<not> prefix t (drop i r)" using assms(1) prefix_drop_sublist by blast
    then have l: "length (drop i r) < length t" using p' by (rule self_overlap [rotated])
    have "(drop i r @ t @ u) ! length (drop i r) = hd t" using assms(2) by (cases t) (simp_all only: nth_append_length append_Cons list.sel)
    then have "t ! length (drop i r) = hd t" using l unfolding v by (simp only: nth_append if_True)
    moreover have "t ! length (drop i r) = tl t ! (length (drop i r) - 1)" using i assms(2) by (cases t) (simp_all add: nth_Cons')
    ultimately show False using assms(3) l i nth_mem [of "length (drop i r) - 1" "tl t"] by simp
  qed
qed simp

lemma TrimSpace_crlf:
  assumes "s \<noteq> []" and "\<not> ascii_space (hd s)" and "\<not> ascii_space (last s)"
  shows "TrimSpace (s @ crlf @ crlf) = s"
proof -
  obtain x y where "s = x # y" using assms(1) by (cases s) auto
  then have 1: "dropWhile ascii_space (s @ crlf @ crlf) = s @ crlf @ crlf" using assms(2) by simp
  have "ascii_space cr" "ascii_space lf" by (simp_all add: ascii_space_def cr_def lf_def)
  moreover have "dropWhile ascii_space (rev s) = rev s" using assms(1,3) by (simp add: dropWhile_eq_self_iff hd_rev)
  ultimately show ?thesis unfolding TrimSpace_def 1 by (simp add: crlf_def)
qed

definition client_port :: "nat \<Rightarrow> nat \<Rightarrow> string" where
  "client_port a b = ''client_port='' @ show_nat a @ ''-'' @ show_nat b"

lemma client_port_chars: "c \<in> set (client_port a b) \<Longrightarrow> is_digit c \<or> c \<in> set ''client_port=-''"
  using show_nat_digits [of a] show_nat_digits [of b] by (auto simp: client_port_def)

lemma client_port_ends: "hd (client_port a b) = CHR ''c''" "is_digit (last (client_port a b))" "client_port a b \<noteq> []"
  using show_nat_digits [of b] show_nat_nonempty [of b] by (auto simp: client_port_def)

lemma is_digit_not_space: "is_digit c \<Longrightarrow> \<not> ascii_space c"
  by (auto simp: is_digit_def ascii_space_def Let_def)

lemma two_numbers_show:
  assumes "a < 2 ^ 64" and "b < 2 ^ 64" and "rest = [] \<or> \<not> is_digit (hd rest)"
  shows "two_numbers lit (lit @ show_nat a @ ''-'' @ show_nat b @ rest) = Some (a, b)"
  using scan_uint_show [OF assms(1), of "''-'' @ show_nat b @ rest"] scan_uint_show [OF assms(2,3)] scan_lit_append [of "''-''"]
  by (simp add: two_numbers_def is_digit_def)

lemma transport_field_plain:
  "transport_field h '' RTP/AVP'' = h" "transport_field h ''unicast'' = h"
  by (simp_all add: transport_field_def TrimSpace_def ascii_space_def EqualFold_def lower_def Index.simps scan_lit_def two_numbers_def)

lemma transport_field_client_port:
  assumes "a < 2 ^ 64" and "b < 2 ^ 64"
  shows "transport_field h (client_port a b @ crlf @ crlf) =
    h\<lparr>ClientRTPPortNum := a, ClientRTCPPortNum := (if StreamingMode h = RAW_UDP then 0 else b)\<rparr>"
proof -
  let ?f = "client_port a b"
  have c: "hd ?f = CHR ''c''" "?f \<noteq> []" by (rule client_port_ends)+
  have t: "TrimSpace (?f @ crlf @ crlf) = ?f"
    using client_port_ends [of a b] is_digit_not_space by (intro TrimSpace_crlf) (simp_all add: ascii_space_def [of "CHR ''c''"])
  have "CHR ''d'' \<notin> set ?f" using client_port_chars [of "CHR ''d''" a b] by (auto simp: is_digit_def)
  then have i: "Index ?f ''destination='' = None" by (intro Index_None) simp_all
  have "ascii ?f" using client_port_chars [of _ a b] by (fastforce simp: ascii_def is_digit_def)
  moreover have "hd (map lower ?f) = CHR ''c''" using c by (simp add: hd_map lower_def)
  ultimately have e: "\<not> EqualFold ?f ''RTP/AVP/TCP''" "\<not> EqualFold ?f ''RAW/RAW/UDP''" "\<not> EqualFold ?f ''MP2T/H2221/UDP''"
    by (intro ascii_EqualFold_hd; simp add: lower_def char_of_def)+
  have l: "scan_lit ''ttl'' ?f = None" using c by (cases ?f) (auto simp: scan_lit_def)
  have n: "two_numbers ''client_port='' ?f = Some (a, b)"
    using two_numbers_show [OF assms, of "[]" "''client_port=''"] by (simp add: client_port_def)
  show ?thesis unfolding transport_field_def Let_def t using e i l n by simp
qed

lemma transport_ports:
  assumes "\<not> sublist ''Transport:'' r" and "a < 2 ^ 64" and "b < 2 ^ 64"
  shows "ParseTransportHeader (r @ ''Transport:'' @ '' RTP/AVP;unicast;'' @ client_port a b @ crlf @ crlf) =
    default_transport\<lparr>ClientRTPPortNum := a, ClientRTCPPortNum := b\<rparr>"
proof -
  let ?u = "'' RTP/AVP;unicast;'' @ client_port a b @ crlf @ crlf"
  have i: "Index (r @ ''Transport:'' @ ?u) ''Transport:'' = Some (length r)" by (rule Index_first [OF assms(1)]) simp_all
  have d: "drop (length r + 10) (r @ ''Transport:'' @ ?u) = ?u" by simp
  have "CHR '';'' \<notin> set (client_port a b @ crlf @ crlf)"
    using client_port_chars [of "CHR '';''" a b] by (auto simp: is_digit_def crlf_def cr_def lf_def)
  then have s: "Split ?u CHR '';'' = ['' RTP/AVP'', ''unicast'', client_port a b @ crlf @ crlf]"
    using Split_append [of "CHR '';''" "'' RTP/AVP''"] Split_append [of "CHR '';''" "''unicast''"] by (simp add: Split_plain)
  show ?thesis unfolding ParseTransportHeader_def i option.case d s
    by (simp only: foldl_Cons foldl_Nil transport_field_plain transport_field_client_port [OF assms(2,3)]) (simp add: default_transport_def)
qed

text \<open>Round trip of transports: from a request with a transport header for UDP, the parser reads back the two ports that were
  printed into it, and everything else keeps its default.
\<close>

theorem client_ports_are_read_back:
  assumes "\<not> sublist ''Transport:'' r" and "a < 2 ^ 64" and "b < 2 ^ 64"
  shows "ParseTransportHeader (r @ ''Transport:'' @ '' RTP/AVP;unicast;'' @ client_port a b @ crlf @ crlf) =
    default_transport\<lparr>ClientRTPPortNum := a, ClientRTCPPortNum := b\<rparr>"
  using assms by (rule transport_ports)

lemma client_ports_are_read_back_witness:
  "ParseTransportHeader (''SETUP rtsp://cam/a RTSP/1.0'' @ ''Transport:'' @ '' RTP/AVP;unicast;'' @ client_port 6970 6971 @ crlf @ crlf) =
    default_transport\<lparr>ClientRTPPortNum := 6970, ClientRTCPPortNum := 6971\<rparr>"
proof (rule client_ports_are_read_back)
  show "\<not> sublist ''Transport:'' ''SETUP rtsp://cam/a RTSP/1.0''" by (auto dest: set_mono_sublist)
qed simp_all

end
