(* ===== verification/RtcpTimer.thy ===== *)
theory RtcpTimer
  imports Rtcp
begin

text \<open>
  The first report of an RTCP instance. \<open>newRTCPInstance\<close> runs \<open>onExpire\<close> before it returns, and this sleeps in
  \<open>schedule\<close>. Shown here: the constructor never panics (an instance of a sink, or of nothing), it always sleeps, and for how
  long: the seconds of the interval are multiplied by a billion and then taken as microseconds.
\<close>

section \<open>The constructor returns\<close>

lemma enqueue_total:
  assumes "buff_wf b" and "length xs \<le> n"
  shows "\<exists>b'. enqueue xs n b = Some b' \<and> buff_wf b'"
proof -
  define k where "k = (if n > totalBytesAvailable b then totalBytesAvailable b else n)"
  have k: "k \<le> room b" using available_room [OF assms(1)] by (auto simp: k_def)
  have len: "length (buff b) = limit b" "packetStart b + curOffset b + k \<le> limit b" "limit b < 2 ^ 63"
    using assms(1) k by (auto simp: buff_wf_def room_def)
  have "enqueue xs n b = Some (increment k (b\<lparr>buff := copy_at (buff b) (packetStart b + curOffset b) xs\<rparr>))"
    using len by (simp add: enqueue_def curPtr_def k_def)
  then show ?thesis using len by (simp add: buff_wf_def increment_def)
qed

lemma out_word_total:
  assumes "buff_wf (outBuf r)"
  shows "\<exists>b. out_word w r = Some (r\<lparr>outBuf := b\<rparr>) \<and> buff_wf b"
proof -
  obtain b where "enqueue (be32_enc w) 4 (outBuf r) = Some b" "buff_wf b"
    using enqueue_total [OF assms, of "be32_enc w" 4] by (auto simp: c32.enc_length)
  then show ?thesis by (intro exI [of _ b]) (simp add: out_word_def enqueueWord_def)
qed

lemma out_words_total:
  "buff_wf (outBuf r) \<Longrightarrow> \<exists>b. out_words ws r = Some (r\<lparr>outBuf := b\<rparr>) \<and> buff_wf b"
proof (induction ws arbitrary: r)
  case Nil
  then show ?case by (intro exI [of _ "outBuf r"]) simp
next
  case (Cons w ws)
  obtain b where b: "out_word w r = Some (r\<lparr>outBuf := b\<rparr>)" "buff_wf b" using out_word_total [OF Cons.prems] by blast
  then show ?case using Cons.IH [of "r\<lparr>outBuf := b\<rparr>"] by auto
qed

definition sender_ready :: "RTCPInstance \<Rightarrow> bool" where
  "sender_ready r \<longleftrightarrow> rtcp_Source r = None \<and> buff_wf (outBuf r) \<and> length (CNAME r) = 2"

lemma addReport_total:
  assumes "sender_ready r"
  shows "\<exists>ok r'. addReport now order r = Some (ok, r') \<and> sender_ready r'"
proof (cases "rtcp_Sink r")
  case None
  then show ?thesis using assms by (auto simp: addReport_def sender_ready_def)
next
  case (Some sink)
  have src: "rtcp_Source r = None" and wf: "buff_wf (outBuf r)" and name: "length (CNAME r) = 2" using assms by (simp_all add: sender_ready_def)
  obtain ws sink1 where sw: "senderWords now sink = (ws, sink1)" by fastforce
  obtain b1 where b1: "out_word (0x80000000 OR push_bit 24 0 OR push_bit 16 RTCP_PT_SR OR (1 + 5 + 6 * 0)) r = Some (r\<lparr>outBuf := b1\<rparr>)" "buff_wf b1"
    using out_word_total [OF wf] by blast
  have "buff_wf (outBuf (r\<lparr>outBuf := b1\<rparr>))" using b1(2) by simp
  from out_word_total [OF this] obtain b2 where b2: "out_word (sink_ssrc sink) (r\<lparr>outBuf := b1\<rparr>) = Some (r\<lparr>outBuf := b2\<rparr>)" "buff_wf b2" by auto
  have "buff_wf (outBuf (r\<lparr>outBuf := b2, rtcp_Sink := Some sink1\<rparr>))" using b2(2) by simp
  from out_words_total [OF this] obtain b3 where
    b3: "out_words ws (r\<lparr>outBuf := b2, rtcp_Sink := Some sink1\<rparr>) = Some (r\<lparr>rtcp_Sink := Some sink1, outBuf := b3\<rparr>)" "buff_wf b3" by auto
  have "enqueueCommonReportPrefix RTCP_PT_SR (sink_ssrc sink) 5 r = Some (r\<lparr>outBuf := b2\<rparr>)"
    using b1(1) b2(1) src by (simp add: enqueueCommonReportPrefix_def numReportingSources_def)
  then have "addSR now order r = Some (r\<lparr>rtcp_Sink := Some sink1, outBuf := b3\<rparr>)"
    using Some sw b3(1) src by (simp add: addSR_def enqueueCommonReportSuffix_def)
  then show ?thesis using Some src name wf b3(2) by (auto simp: addReport_def sender_ready_def)
qed

lemma sendReport_total:
  assumes "sender_ready r"
  shows "\<exists>d r'. sendReport now order r = Some (d, r')"
proof -
  obtain ok r1 where r1: "addReport now order r = Some (ok, r1)" "sender_ready r1" using addReport_total [OF assms] by blast
  have src: "rtcp_Source r1 = None" and wf: "buff_wf (outBuf r1)" and name: "length (CNAME r1) = 2" using r1(2) by (simp_all add: sender_ready_def)
  then obtain m where m: "totalSize (CNAME r1) = Some m" "2 \<le> m" by (cases "CNAME r1"; cases "tl (CNAME r1)") (auto simp: totalSize_def)
  define h :: u32 where "h = 0x81000000 OR push_bit 16 RTCP_PT_SDES OR word_of_nat ((4 + m + 1 + 3) div 4)"
  obtain b1 where b1: "out_word h r1 = Some (r1\<lparr>outBuf := b1\<rparr>)" "buff_wf b1" using out_word_total [OF wf] by blast
  have "buff_wf (outBuf (r1\<lparr>outBuf := b1\<rparr>))" using b1(2) by simp
  then obtain b2 where b2: "out_own_ssrc (r1\<lparr>outBuf := b1\<rparr>) = Some (r1\<lparr>outBuf := b2\<rparr>)" "buff_wf b2"
    using out_word_total [of "r1\<lparr>outBuf := b1\<rparr>"] src by (cases "rtcp_Sink r1") (auto simp: out_own_ssrc_def)
  obtain b3 where b3: "enqueue (CNAME r1) m b2 = Some b3" "buff_wf b3" using enqueue_total [OF b2(2), of "CNAME r1" m] name m(2) by auto
  have "addSDES r1 = Some (r1\<lparr>outBuf := b3\<rparr>)" using m(1) b1(1) b2(1) b3(1) by (simp add: addSDES_def h_def Let_def)
  moreover have "packetStart b3 \<le> length (buff b3)" "curOffset b3 \<le> length (drop (packetStart b3) (buff b3))"
    using b3(2) by (auto simp: buff_wf_def)
  ultimately show ?thesis using r1(1) by (simp add: sendReport_def sendBuiltPacket_def packet_def curPacketSize_def Let_def)
qed

lemma makeRTCPInstance_ready:
  "\<exists>r. makeRTCPInstance now bw name snk None = Some r \<and> sender_ready r \<and> typeOfEvent r = eventReport"
proof -
  obtain b where b: "newOutPacketBuffer maxRTCPPacketSize preferredPacketSize maxRTCPPacketSize = Some b"
    by (auto simp: newOutPacketBuffer_def maxRTCPPacketSize_def Let_def)
  moreover have "maxRTCPPacketSize + maxRTCPPacketSize < 2 ^ 63" by (simp add: maxRTCPPacketSize_def)
  ultimately show ?thesis using newOutPacketBuffer_wf [OF b]
    by (simp add: makeRTCPInstance_def sender_ready_def newSDESItem_def Let_def)
qed

text \<open>With no source, the constructor does not panic, and its goroutine always sleeps before it returns.\<close>

lemma newRTCPInstance_sleeps:
  "\<exists>report sleep r. newRTCPInstance now order random random' bw name snk None = Some (report, Some sleep, r)"
proof -
  obtain r where r: "makeRTCPInstance now bw name snk None = Some r" "sender_ready r" "typeOfEvent r = eventReport"
    using makeRTCPInstance_ready by blast
  obtain d r1 where "sendReport now order r = Some (d, r1)" using sendReport_total [OF r(2)] by blast
  then show ?thesis using r by (auto simp: newRTCPInstance_def onExpire_def OnExpire_def Let_def split_def)
qed

section \<open>The length of the sleep\<close>

text \<open>
  The interval of \<open>d\<close> seconds becomes a sleep of \<open>d * 10 ^ 12\<close> nanoseconds, that is of \<open>1000 * d\<close> seconds. From
  9223373 seconds on, the multiplication overflows; the length is then anything, and a negative one is no sleep at all.
\<close>

lemma schedule_sleep:
  assumes "0 \<le> d" and "d < 2 ^ 33" and "\<bar>dTimeNow now\<bar> < 2 ^ 62"
  shows "schedule now (dTimeNow now + d) r = (i64 (d * 10 ^ 12), r\<lparr>nextReportTime := dTimeNow now + d\<rparr>)"
    and "d \<le> 9223372 \<Longrightarrow> fst (schedule now (dTimeNow now + d) r) = d * 10 ^ 12"
    and "9223373 \<le> d \<Longrightarrow> d \<le> 18446744 \<Longrightarrow> fst (schedule now (dTimeNow now + d) r) < 0"
proof -
  have d: "i64 d = d" "i64 (d * 1000000000) = d * 1000000000" using assms by simp_all
  then show s: "schedule now (dTimeNow now + d) r = (i64 (d * 10 ^ 12), r\<lparr>nextReportTime := dTimeNow now + d\<rparr>)"
    using assms by (simp add: schedule_def Let_def mult.commute)
  show "d \<le> 9223372 \<Longrightarrow> fst (schedule now (dTimeNow now + d) r) = d * 10 ^ 12"
    unfolding s using assms(1) by simp
  assume d: "9223373 \<le> d" "d \<le> 18446744"
  have "i64 x = i64 (x - 2 ^ 64)" for x :: int
    unfolding i64_def signed_take_bit_eq_iff_take_bit_eq by (simp add: take_bit_eq_mod)
  moreover have "i64 (d * 10 ^ 12 - 2 ^ 64) = d * 10 ^ 12 - 2 ^ 64" using d by (intro i64_small) simp_all
  ultimately have "i64 (d * 10 ^ 12) = d * 10 ^ 12 - 2 ^ 64" by simp
  then show "fst (schedule now (dTimeNow now + d) r) < 0" unfolding s using d(2) by simp
qed

text \<open>An example: the random number 1 gives an interval of 6 seconds, and so a sleep of an hour and forty minutes.\<close>

lemma ex_interval:
  "rtcpInterval 1 (Fin 0) (Fin 1) (Fin 1) (Fin 3200) (Fin 0) = Fin (433205487517221 / 70368744177664)"
  "fl_div F64 (fl_mul F64 (fl_mul F64 (rnd F64 (1 / 20)) (fl_of_int F64 500)) (Fin 1024)) (Fin 8) = Fin 3200"
  "fl_of_int F64 1700000000 = Fin 1700000000"
  "rnd F64 (119626865535234287517221 / 70368744177664) = Fin (7130316825821059 / 4194304)"
  "fl_to_int64 (Fin (7130316825821059 / 4194304)) = 1700000006"
  by code_simp+

lemma ex_first_sleep:
  "\<exists>r. newRTCPInstance \<lparr>tv_sec = 1700000000, tv_usec = 250000\<rparr> order 1 random' 500 name (Some sink) None =
     Some (None, Some (6000 * 10 ^ 9), r)"
proof -
  let ?now = "\<lparr>tv_sec = 1700000000, tv_usec = 250000\<rparr>"
  obtain b where b: "newOutPacketBuffer maxRTCPPacketSize preferredPacketSize maxRTCPPacketSize = Some b"
    by (auto simp: newOutPacketBuffer_def maxRTCPPacketSize_def Let_def)
  have now: "dTimeNow ?now = 1700000000" by (simp add: dTimeNow_def)
  have "fst (schedule ?now 1700000006 r) = 6000 * 10 ^ 9" for r using schedule_sleep(2) [of 6 ?now r] by (simp add: now)
  then show ?thesis
    by (simp add: newRTCPInstance_def makeRTCPInstance_def b onExpire_def OnExpire_def now ex_interval split_def Let_def)
qed

end
