(* ===== verification/ServerClaims.thy ===== *)
theory ServerClaims
  imports ServerRuns RtspParse RtcpTimer
begin

text \<open>
  What the server does in its reachable states: which requests always get an answer, which end the program, who gets in, and how
  SETUP, PLAY and the tasks they start lead to a client that receives.
\<close>

section \<open>Requests that return\<close>

lemma mod_conn_returns [simp]: "mod_conn c f sv = None \<longleftrightarrow> connection_at sv c = None"
  by (cases "connection_at sv c") (simp_all add: mod_conn_def)

lemma responses_return:
  assumes "connection_at sv c \<noteq> None"
  shows "setRTSPResponse w c str sv \<noteq> None" "setRTSPResponseWithSessionID w c str ident sv \<noteq> None" "handleCommandOptions w c sv \<noteq> None"
    "handleCommandNotFound w c sv \<noteq> None" "handleCommandSessionNotFound w c sv \<noteq> None" "handleCommandBad w c sv \<noteq> None"
    "handleCommandNotSupported w c sv \<noteq> None" "handleCommandUnsupportedTransport w c sv \<noteq> None"
  using assms by (simp_all add: responses)

lemma get_sub_frame [simp]:
  "get_sub p (sv\<lparr>urlPrefix := u\<rparr>) = get_sub p sv" "get_sub p (sv\<lparr>tasks := l\<rparr>) = get_sub p sv"
  "get_sub p (sv\<lparr>session_at := ss\<rparr>) = get_sub p sv" "get_sub p (sv\<lparr>connection_at := cs\<rparr>) = get_sub p sv"
  "get_sub p (note_calls q calls sv) = get_sub p sv"
  by (simp_all add: get_sub_def note_calls_def)

lemma put_sub_frame:
  assumes "put_sub p sub sv = Some sv'"
  shows "connection_at sv' = connection_at sv" "session_at sv' = session_at sv" "tasks sv' = tasks sv" "clientSessions sv' = clientSessions sv"
    "stream_calls sv' = stream_calls sv"
  using assms by (auto simp: put_sub_def bind_simps)

text \<open>What a handler within a session relies on.\<close>

lemma play_returns:
  assumes ok: "server_ok {} sv" and s: "session_at sv a = Some s" "serverMediaSession s = Some m"
  shows "handleCommandPlay w a req sv \<noteq> None"
proof -
  obtain x sub t where st: "media_at sv m = Some x" "get_sub (m, 0) sv = Some sub" "sub_ok sub" "lastStreamToken sub = Some t"
      "streamStates s = Some \<lparr>subsession = Some (m, 0), streamToken = Some (m, 0)\<rparr>" "connection_at sv (connection s) \<noteq> None"
    using set_up [OF ok s] by metis
  obtain n ts d sub1 where start: "StartStream w (sessionID s) sub = Some ((n, ts, d), sub1)"
    using st(4) by (cases "rtpSink t") (auto simp: StartStream_def case_prod_unfold Let_def)
  obtain track sub2 where track: "TrackID sub1 = (track, sub2)" by fastforce
  define sv1 where "sv1 = sv\<lparr>urlPrefix := w_ip w, tasks := tasks sv @ [PlayTask (m, 0) d]\<rparr>"
  have "get_sub (m, 0) sv1 \<noteq> None" using st(2) by (simp add: sv1_def)
  then obtain sv2 where put: "put_sub (m, 0) sub2 sv1 = Some sv2" using put_sub_total by blast
  have "connection_at sv2 (connection s) \<noteq> None" using put_sub_frame(1) [OF put] st(6) by (simp add: sv1_def)
  then show ?thesis using s st(1,2,5) start track put
    by (auto simp: handleCommandPlay_def RtspURL_def RtspURLPrefix_def sv1_def)
qed

lemma pause_returns:
  assumes ok: "server_ok {} sv" and s: "session_at sv a = Some s" "serverMediaSession s = Some m"
  shows "handleCommandPause w a sv \<noteq> None"
proof -
  obtain sub t where st: "get_sub (m, 0) sv = Some sub" "lastStreamToken sub = Some t"
      "streamStates s = Some \<lparr>subsession = Some (m, 0), streamToken = Some (m, 0)\<rparr>" "connection_at sv (connection s) \<noteq> None"
    using set_up [OF ok s] by metis
  obtain calls t1 where pa: "pause t = (calls, t1)" by fastforce
  obtain sv1 where put: "put_sub (m, 0) (sub\<lparr>lastStreamToken := Some t1\<rparr>) sv = Some sv1" using put_sub_total st(1) by blast
  have "connection_at (note_calls (m, 0) calls sv1) (connection s) \<noteq> None" using put_sub_frame(1) [OF put] st(4) by (simp add: note_calls_def)
  then show ?thesis using s st(1-3) pa put responses_return(2) by (auto simp: handleCommandPause_def PauseStream_def)
qed

lemma within_returns:
  assumes ok: "server_ok {} sv" and s: "session_at sv a = Some s" and timer: "livenessTimeoutTimer s" and "cmd \<noteq> ''TEARDOWN''"
  shows "handleCommandWithinSession w a cmd pre suf req sv \<noteq> None"
proof -
  have c: "isTimerRunning s" "connection_at sv (connection s) \<noteq> None" using server_okD(3) [OF ok] s by (auto simp: sessions_ok_def)
  have live: "noteLiveness a sv = Some sv" using s c(1) timer by (simp add: noteLiveness_def)
  show ?thesis
  proof (cases "serverMediaSession s")
    case None
    then show ?thesis using live s responses_return(7) [OF c(2)] by (simp add: handleCommandWithinSession_def)
  next
    case (Some m)
    obtain x where x: "media_at sv m = Some x" using set_up [OF ok s Some] by metis
    have mx: "media_ok x" using server_okD(4) [OF ok] x by (simp add: medias_ok_def)
    obtain t x' where f: "findTarget pre suf x = Some (t, x')" using findTarget_total [OF mx] by fast
    define sv2 where "sv2 = sv\<lparr>media_at := (media_at sv)(m \<mapsto> x')\<rparr>"
    have ok2: "server_ok {} sv2" unfolding sv2_def using media_update_ok(1) [OF ok x] findTarget_keeps [OF f mx] by blast
    have s2: "session_at sv2 a = Some s" and c2: "connection_at sv2 (connection s) \<noteq> None" using s c(2) by (simp_all add: sv2_def)
    have "(if t = NoTarget then handleCommandNotFound w (connection s) sv2
       else if cmd = ''TEARDOWN'' then handleCommandTearDown w a sv2 else if cmd = ''PLAY'' then handleCommandPlay w a req sv2
       else if cmd = ''PAUSE'' then handleCommandPause w a sv2 else if cmd = ''GET_PARAMETER'' then handleCommandGetParameter w a sv2
       else if cmd = ''SET_PARAMETER'' then handleCommandSetParameter w a sv2 else Some sv2) \<noteq> None"
      using play_returns [OF ok2 s2 Some] pause_returns [OF ok2 s2 Some] responses_return(2,4) [OF c2] s2 assms(4)
      by (simp add: handleCommandGetParameter_def handleCommandSetParameter_def)
    then show ?thesis using live s Some x f by (simp only: handleCommandWithinSession_def sv2_def Option.bind.simps option.case Let_def split) simp
  qed
qed

lemma in_session_returns:
  assumes ok: "server_ok {} sv" and c: "connection_at sv c \<noteq> None" and "CmdName info \<noteq> ''TEARDOWN''"
    and timer: "\<And>a s. clientSessions sv (SessionIDStr info) = Some a \<Longrightarrow> session_at sv a = Some s \<Longrightarrow> livenessTimeoutTimer s"
  shows "handleInSession w c info req sv \<noteq> None"
proof -
  define found where "found = getClientSession sv (SessionIDStr info)"
  obtain sv1 where m1: "mod_conn c (\<lambda>x. x\<lparr>clientSession := found\<rparr>) sv = Some sv1" using c by fastforce
  have "found = Some a \<Longrightarrow> session_at sv a \<noteq> None" for a using found_session [OF ok] unfolding found_def by blast
  then have ok1: "server_ok {} sv1" by (intro mod_conn_ok [OF m1 ok]) (simp add: keeps_session_def)
  have c1: "connection_at sv1 c \<noteq> None" using m1 by (auto simp: mod_conn_def bind_simps)
  have "(case found of Some a \<Rightarrow> handleCommandWithinSession w a (CmdName info) (UrlPreSuffix info) (UrlSuffix info) req sv1
      | None \<Rightarrow> handleCommandSessionNotFound w c sv1) \<noteq> None"
  proof (cases found)
    case None
    then show ?thesis using responses_return(5) [OF c1] by simp
  next
    case (Some a)
    then obtain s where s: "session_at sv a = Some s" using found_session [OF ok] unfolding found_def by blast
    then have "livenessTimeoutTimer s" using timer Some unfolding found_def getClientSession_def by blast
    then show ?thesis using within_returns [OF ok1 _ _ assms(3)] mod_conn_frame(1) [OF m1] s Some by simp
  qed
  then show ?thesis using m1 by (simp add: handleInSession_def found_def [symmetric] Let_def)
qed

lemma request_returns:
  assumes ok: "server_ok {} sv" and c: "connection_at sv c \<noteq> None" and cmd: "CmdName info \<notin> {''DESCRIBE'', ''SETUP'', ''TEARDOWN''}"
    and timer: "\<And>a s. clientSessions sv (SessionIDStr info) = Some a \<Longrightarrow> session_at sv a = Some s \<Longrightarrow> livenessTimeoutTimer s"
  shows "handleRTSPRequest md5 w c info req sv \<noteq> None"
proof -
  obtain sv1 where m1: "mod_conn c (\<lambda>x. x\<lparr>currentCSeq := Cseq info, sessionIDStr := SessionIDStr info\<rparr>) sv = Some sv1" using c by fastforce
  have ok1: "server_ok {} sv1" by (rule mod_conn_ok [OF m1 ok]) (simp add: keeps_session_def)
  have c1: "connection_at sv1 c \<noteq> None" using m1 by (auto simp: mod_conn_def bind_simps)
  have "handleInSession w c info req sv1 \<noteq> None"
    by (rule in_session_returns [OF ok1 c1]) (use cmd timer mod_conn_frame(1,3) [OF m1] in auto)
  then show ?thesis using m1 cmd responses_return(3,7) [OF c1] by (auto simp: handleRTSPRequest_def)
qed

section \<open>Setting up a stream\<close>

text \<open>A session has a destination on UDP; the stream of a media session.\<close>

definition receives :: "stream \<Rightarrow> string \<Rightarrow> string \<Rightarrow> nat \<Rightarrow> nat \<Rightarrow> RTSPServer \<Rightarrow> bool" where
  "receives p ident addr p1 p2 sv \<longleftrightarrow>
     (\<exists>sub d. get_sub p sv = Some sub \<and> destinations sub ident = Some d \<and> \<not> isTCP d \<and> addrStr d = addr \<and> rtpPort d = p1 \<and> rtcpPort d = p2)"

definition stream_of :: "stream \<Rightarrow> RTSPServer \<Rightarrow> StreamState option" where
  "stream_of p sv = do { sub \<leftarrow> get_sub p sv; lastStreamToken sub }"

lemma stream_of_frame [simp]:
  "stream_of p (sv\<lparr>urlPrefix := u\<rparr>) = stream_of p sv" "stream_of p (sv\<lparr>tasks := l\<rparr>) = stream_of p sv"
  "stream_of p (sv\<lparr>session_at := ss\<rparr>) = stream_of p sv" "stream_of p (sv\<lparr>connection_at := cs\<rparr>) = stream_of p sv"
  "stream_of p (note_calls q calls sv) = stream_of p sv"
  "receives p ident addr p1 p2 (sv\<lparr>connection_at := cs\<rparr>) = receives p ident addr p1 p2 sv"
  by (simp_all add: stream_of_def receives_def)

text \<open>A stream that has just been made, with a pair of ports of its own; the stream that a file has already, if it has one.\<close>

definition new_stream :: "world \<Rightarrow> StreamState \<Rightarrow> bool" where
  "new_stream w t \<longleftrightarrow> (\<exists>q \<ge> 6970. even q \<and> w_bindable w q \<and> w_bindable w (q + 1) \<and> serverRTPPort t = q \<and> serverRTCPPort t = q + 1 \<and>
     rtpGS t = NewGroupSock w q \<and> rtcpGS t = NewGroupSock w (q + 1) \<and> rtpSink t \<noteq> None \<and> mediaSource t \<and> \<not> rtcpInstance t \<and> \<not> areCurrentlyPlaying t)"

definition made_from :: "world \<Rightarrow> StreamState option \<Rightarrow> StreamState \<Rightarrow> bool" where
  "made_from w old t \<longleftrightarrow> (case old of None \<Rightarrow> new_stream w t | Some t0 \<Rightarrow> t = t0)"

definition stream_of_file :: "string \<Rightarrow> RTSPServer \<Rightarrow> StreamState option" where
  "stream_of_file name sv = do { m \<leftarrow> serverMediaSessions sv name; stream_of (m, 0) sv }"

text \<open>The search for ports ends where there is a pair that can be bound.\<close>

lemma rtpPorts_total: "bindable (p + 2 * k) \<Longrightarrow> bindable (p + 2 * k + 1) \<Longrightarrow> rtpPorts bindable p \<noteq> None"
proof (induction k arbitrary: p)
  case 0
  then show ?case by (subst rtpPorts.simps) simp
next
  case (Suc k)
  have "rtpPorts bindable (p + 2) \<noteq> None" by (rule Suc.IH) (use Suc.prems in \<open>simp_all add: algebra_simps\<close>)
  then show ?case by (subst rtpPorts.simps) simp
qed

lemma GetStreamParameters_returns:
  assumes "sub_ok sub" and "p2 \<noteq> 0" and "w_bindable w (6970 + 2 * k)" and "w_bindable w (6970 + 2 * k + 1)" and "w_openable w (fileName sub)"
  shows "\<exists>t sub1. GetStreamParameters w sock addr ident p1 p2 c1 c2 sub =
      Some (\<lparr>ServerRTPPort = serverRTPPort t, ServerRTCPPort = serverRTCPPort t\<rparr>, sub1) \<and> lastStreamToken sub1 = Some t \<and>
      made_from w (lastStreamToken sub) t"
proof (cases "lastStreamToken sub")
  case None
  have "initialPortNum (snd (createNewStreamSource w sub)) = 6970" using assms(1) by (simp add: sub_ok_def createNewStreamSource_def)
  moreover obtain q where q: "rtpPorts (w_bindable w) 6970 = Some q" using rtpPorts_total [OF assms(3,4)] by blast
  moreover have "fst (createNewStreamSource w sub)" using assms(5) by (simp add: createNewStreamSource_def)
  moreover have "6970 \<le> q" "even q" "w_bindable w q" "w_bindable w (q + 1)" using rtpPorts_bindable [OF q] by auto
  ultimately show ?thesis using None assms(2)
    by (auto simp: GetStreamParameters_def makeStream_def case_prod_unfold Let_def made_from_def new_stream_def newStreamState_def)
qed (simp add: GetStreamParameters_def made_from_def)

lemma createNewSMS_new:
  assumes "createNewSMS w name = Some (Some y)"
  shows "\<exists>sub l. Subsessions y = Some sub # l \<and> lastStreamToken sub = None"
proof -
  obtain e :: "FileServerMediaSubsession option" and es where r: "replicate 1024 None = e # es"
    by (cases "replicate 1024 (None :: FileServerMediaSubsession option)") auto
  show ?thesis using assms
    by (auto simp: createNewSMS_def Let_def newFileMediaSubsession_def AddSubsession_def NewServerMediaSession_def r split: if_splits)
qed

lemma lookup_found:
  assumes "w_openable w name" and "createNewSMS w name = Some (Some y)"
  shows "\<exists>m sv'. lookupServerMediaSession w name sv = Some (Some m, sv') \<and> serverMediaSessions sv' name = Some m \<and>
    stream_of (m, 0) sv' = stream_of_file name sv"
proof (cases "serverMediaSessions sv name")
  case None
  have "stream_of (m, 0) (sv\<lparr>media_at := (media_at sv)(m \<mapsto> y), next_media := n\<rparr>) = None" for m n
    using createNewSMS_new [OF assms(2)] by (auto simp: stream_of_def get_sub_def)
  then show ?thesis using None assms createNewSMS_ok [OF assms(2)]
    by (simp add: lookupServerMediaSession_def addServerMediaSession_def getServerMediaSession_def Let_def stream_of_file_def stream_of_def get_sub_def)
qed (use assms in \<open>simp add: lookupServerMediaSession_def getServerMediaSession_def Let_def stream_of_file_def\<close>)

lemma mod_session_runs:
  "session_at sv a = Some s \<Longrightarrow> mod_session a f sv = Some (sv\<lparr>session_at := (session_at sv)(a \<mapsto> f s)\<rparr>)"
  by (simp add: mod_session_def)

definition set_up_session :: "nat \<Rightarrow> bool \<Rightarrow> RTSPClientSession \<Rightarrow> RTSPClientSession" where
  "set_up_session m after s = s\<lparr>serverMediaSession := Some m, numStreamStates := 1, streamAfterSETUP := after,
     streamStates := Some \<lparr>subsession = Some (m, 0), streamToken = Some (m, 0)\<rparr>\<rparr>"

lemma initStreamStates_runs:
  assumes "server_ok E sv" and "session_at sv a = Some s" and "streamStates s = None" and "media_at sv m = Some x"
  shows "initStreamStates a m sv = Some (sv\<lparr>session_at := (session_at sv)(a \<mapsto>
           s\<lparr>numStreamStates := 1, streamStates := Some \<lparr>subsession = Some (m, 0), streamToken = None\<rparr>\<rparr>)\<rparr>)"
proof -
  have "media_ok x" using server_okD(4) [OF assms(1)] assms(4) by (simp add: medias_ok_def)
  then show ?thesis using assms(2-4) by (auto simp: initStreamStates_def media_ok_def mod_session_runs)
qed

lemma lookupTrack_runs:
  assumes "server_ok E sv" and "session_at sv a = Some s" and "streamStates s = Some st" and "subsession st = Some (m, 0)"
    and "numStreamStates s = 1" and "media_at sv m = Some x"
  shows "\<exists>sv'. lookupTrack a track sv = Some (Some (m, 0), sv')"
proof -
  have "media_ok x" using server_okD(4) [OF assms(1)] assms(6) by (simp add: medias_ok_def)
  then obtain sub where sub: "get_sub (m, 0) sv = Some sub" using assms(6) by (auto simp: media_ok_def get_sub_def)
  then obtain sv1 where "put_sub (m, 0) (snd (TrackID sub)) sv = Some sv1" using put_sub_total by blast
  then show ?thesis using assms(2-5) sub by (simp add: lookupTrack_def)
qed

lemma lookupTrack_frame:
  assumes "lookupTrack a track sv = Some (found, sv')"
  shows "connection_at sv' = connection_at sv" "tasks sv' = tasks sv" "serverMediaSessions sv' = serverMediaSessions sv"
    "clientSessions sv' = clientSessions sv" "media_at sv m \<noteq> None \<Longrightarrow> media_at sv' m \<noteq> None"
proof -
  have put: "connection_at sv2 = connection_at sv1 \<and> tasks sv2 = tasks sv1 \<and> serverMediaSessions sv2 = serverMediaSessions sv1 \<and>
      clientSessions sv2 = clientSessions sv1 \<and> (media_at sv1 m \<noteq> None \<longrightarrow> media_at sv2 m \<noteq> None)"
    if "put_sub p sub sv1 = Some sv2" for p sub and sv1 sv2 :: RTSPServer and m
    using that by (auto simp: put_sub_def bind_simps)
  obtain s st where s: "session_at sv a = Some s" "streamStates s = Some st" using assms by (auto simp: lookupTrack_def bind_simps)
  have "sv' = sv \<or> (\<exists>p sub. put_sub p sub sv = Some sv')"
  proof (cases "track = [] \<or> numStreamStates s = 0")
    case False
    then show ?thesis using assms s by (cases "subsession st") (auto simp: lookupTrack_def bind_simps)
  qed (use assms s in \<open>auto simp: lookupTrack_def split: if_splits\<close>)
  then show "connection_at sv' = connection_at sv" "tasks sv' = tasks sv" "serverMediaSessions sv' = serverMediaSessions sv"
    "clientSessions sv' = clientSessions sv" "media_at sv m \<noteq> None \<Longrightarrow> media_at sv' m \<noteq> None"
    using put by auto
qed

lemma TrackID_fields:
  "lastStreamToken (snd (TrackID sub)) = lastStreamToken sub" "destinations (snd (TrackID sub)) = destinations sub"
  by (simp_all add: TrackID_def Let_def)

lemma lookupTrack_stream:
  assumes "lookupTrack a track sv = Some (Some p, sv')" and "snd p = 0"
  shows "stream_of p sv' = stream_of p sv"
proof -
  have "sv' = sv \<or> (\<exists>sub. get_sub p sv = Some sub \<and> put_sub p (snd (TrackID sub)) sv = Some sv')"
    using assms(1) by (auto simp: lookupTrack_def bind_simps split: if_splits option.splits)
  then show ?thesis
  proof (elim disjE exE conjE)
    fix sub
    assume sub: "get_sub p sv = Some sub" and put: "put_sub p (snd (TrackID sub)) sv = Some sv'"
    obtain x e l where x: "media_at sv (fst p) = Some x" "Subsessions x = e # l"
      using sub by (cases "media_at sv (fst p)"; cases "Subsessions (the (media_at sv (fst p)))") (auto simp: get_sub_def)
    then show ?thesis using sub put assms(2) by (auto simp: put_sub_def stream_of_def get_sub_def TrackID_fields)
  qed simp
qed

text \<open>The answer to a SETUP over UDP.\<close>

definition udp_transport :: "world \<Rightarrow> string \<Rightarrow> nat \<Rightarrow> nat \<Rightarrow> nat \<Rightarrow> nat \<Rightarrow> RTSPClientConnection \<Rightarrow> string" where
  "udp_transport w ident p1 p2 q1 q2 x =
     ''RTSP/1.0 200 OK'' @ crlf @ cseq_line x @ DateHeader w @ ''Transport: '' @ ''RTP/AVP;unicast;destination='' @ remoteAddr x @
     '';source='' @ localAddr x @ '';client_port='' @ show_nat p1 @ ''-'' @ show_nat p2 @ '';server_port='' @ show_nat q1 @ ''-'' @
     show_nat q2 @ crlf @ ''Session: '' @ ident @ crlf @ crlf"

lemma setup_response_udp:
  "StreamingMode th = RTP_UDP \<Longrightarrow> \<not> isMulticast s \<Longrightarrow> setup_response w s th c1 c2 sp x =
     Some (udp_transport w (sessionID s) (ClientRTPPortNum th) (ClientRTCPPortNum th) (ServerRTPPort sp) (ServerRTCPPort sp) x)"
  by (simp add: setup_response_def udp_transport_def Let_def)

lemma setup_stream_runs:
  assumes ok: "server_ok E sv" and s: "session_at sv a = Some s" "streamStates s \<noteq> None"
    and x: "connection_at sv (connection s) = Some x" and m: "map_option streamName (media_at sv m) = Some name" and can_open: "w_openable w name"
    and th: "StreamingMode (ParseTransportHeader req) = RTP_UDP" "ClientRTCPPortNum (ParseTransportHeader req) \<noteq> 0"
    and w: "w_bindable w (6970 + 2 * k)" "w_bindable w (6970 + 2 * k + 1)"
  shows "\<exists>sv' sub t. setup_stream w a (Some (m, 0)) req sv = Some sv' \<and> get_sub (m, 0) sv' = Some sub \<and> lastStreamToken sub = Some t \<and>
    made_from w (stream_of (m, 0) sv) t \<and> destinations sub (sessionID s) = Some (newDestinations None (remoteAddr x) (ClientRTPPortNum (ParseTransportHeader req))
      (ClientRTCPPortNum (ParseTransportHeader req)) (RTPChannelID (ParseTransportHeader req)) (RTCPChannelID (ParseTransportHeader req))) \<and>
    session_at sv' a = Some (s\<lparr>streamAfterSETUP := snd (ParseRangeHeader req) \<or> ParsePlayNowHeader req,
      streamStates := map_option (\<lambda>st. st\<lparr>streamToken := Some (m, 0)\<rparr>) (streamStates s)\<rparr>) \<and>
    connection_at sv' (connection s) = Some (x\<lparr>responseBuffer := udp_transport w (sessionID s)
      (ClientRTPPortNum (ParseTransportHeader req)) (ClientRTCPPortNum (ParseTransportHeader req)) (serverRTPPort t) (serverRTCPPort t) x\<rparr>) \<and>
    clientSessions sv' = clientSessions sv \<and> serverMediaSessions sv' = serverMediaSessions sv \<and> tasks sv' = tasks sv"
proof -
  define th where "th = ParseTransportHeader req"
  have th: "StreamingMode th = RTP_UDP" "ClientRTCPPortNum th \<noteq> 0" using th by (simp_all add: th_def)
  obtain y where y: "media_at sv m = Some y" "streamName y = name" using m by blast
  then have "media_ok y" using server_okD(4) [OF ok] by (simp add: medias_ok_def)
  then obtain sub where sub: "get_sub (m, 0) sv = Some sub" "fileName sub = name" using y by (auto simp: media_ok_def get_sub_def)
  have sub_ok: "sub_ok sub" using get_sub_ok [OF sub(1) ok] by simp
  obtain t sub1 where g: "GetStreamParameters w None (remoteAddr x) (sessionID s) (ClientRTPPortNum th) (ClientRTCPPortNum th)
        (RTPChannelID th) (RTCPChannelID th) sub =
      Some (\<lparr>ServerRTPPort = serverRTPPort t, ServerRTCPPort = serverRTCPPort t\<rparr>, sub1)" and t: "lastStreamToken sub1 = Some t" "made_from w (lastStreamToken sub) t"
    using GetStreamParameters_returns [OF sub_ok th(2) w] can_open sub(2) by blast
  note sub1 = GetStreamParameters_ok [OF g sub_ok]
  obtain sv1 where put: "put_sub (m, 0) sub1 sv = Some sv1" using put_sub_total sub(1) by blast
  note p = put_sub_ok [OF put ok _ sub1(1) sub(1) sub1(4), simplified]
  have "serverMediaSessions sv1 = serverMediaSessions sv" using put by (auto simp: put_sub_def bind_simps)
  moreover have "\<not> isMulticast s" using server_okD(3) [OF ok] s by (simp add: sessions_ok_def)
  moreover have "stream_of (m, 0) sv = lastStreamToken sub" using sub(1) by (simp add: stream_of_def)
  ultimately show ?thesis
    using s x sub(1) g put t sub1 p unfolding th_def [symmetric] setup_stream_def
    by (simp add: th mod_session_runs setup_response_udp mod_conn_def)
qed

lemma setup_runs:
  assumes ok: "server_ok {} sv" and s: "session_at sv a = Some s" "serverMediaSession s = None"
    and x: "connection_at sv (connection s) = Some x" and name: "w_openable w name" "createNewSMS w name = Some (Some y)"
    and th: "StreamingMode (ParseTransportHeader req) = RTP_UDP" "ClientRTCPPortNum (ParseTransportHeader req) \<noteq> 0"
    and w: "w_bindable w (6970 + 2 * k)" "w_bindable w (6970 + 2 * k + 1)"
  shows "\<exists>sv' m t. handleCommandSetup w a name track req sv = Some sv' \<and> serverMediaSessions sv' name = Some m \<and>
    session_at sv' a = Some (set_up_session m (snd (ParseRangeHeader req) \<or> ParsePlayNowHeader req) s) \<and>
    receives (m, 0) (sessionID s) (remoteAddr x) (ClientRTPPortNum (ParseTransportHeader req)) (ClientRTCPPortNum (ParseTransportHeader req)) sv' \<and>
    stream_of (m, 0) sv' = Some t \<and> made_from w (stream_of_file name sv) t \<and>
    connection_at sv' (connection s) = Some (x\<lparr>responseBuffer := udp_transport w (sessionID s)
      (ClientRTPPortNum (ParseTransportHeader req)) (ClientRTCPPortNum (ParseTransportHeader req)) (serverRTPPort t) (serverRTCPPort t) x\<rparr>) \<and>
    clientSessions sv' = clientSessions sv \<and> tasks sv' = tasks sv"
proof -
  obtain m sv1 where look: "lookupServerMediaSession w name sv = Some (Some m, sv1)" and m1: "serverMediaSessions sv1 name = Some m"
      "stream_of (m, 0) sv1 = stream_of_file name sv"
    using lookup_found [OF name] by blast
  note l = lookup_ok [OF look ok]
  obtain x1 where x1: "media_at sv1 m = Some x1" using l(6) by blast
  have st: "streamStates s = None" using linkedD [OF ok s(1)] s(2) by (simp add: linked_def)
  define s2 where "s2 = s\<lparr>serverMediaSession := Some m\<rparr>"
  define sv2 where "sv2 = sv1\<lparr>session_at := (session_at sv1)(a \<mapsto> s2)\<rparr>"
  have run2: "mod_session a (\<lambda>s. s\<lparr>serverMediaSession := Some m\<rparr>) sv1 = Some sv2"
    using s(1) l(2) by (simp add: mod_session_runs sv2_def s2_def)
  have ok2: "server_ok (insert a {}) sv2" using mod_session_ok(1) [OF run2 l(1)] by (simp add: keeps_identity_def)
  define s3 where "s3 = s2\<lparr>numStreamStates := 1, streamStates := Some \<lparr>subsession = Some (m, 0), streamToken = None\<rparr>\<rparr>"
  define sv3 where "sv3 = sv2\<lparr>session_at := (session_at sv2)(a \<mapsto> s3)\<rparr>"
  have run3: "initStreamStates a m sv2 = Some sv3" unfolding sv3_def s3_def
    by (rule initStreamStates_runs [OF ok2]) (use st x1 in \<open>simp_all add: sv2_def s2_def\<close>)
  have "\<exists>s'. server_ok (insert a {}) sv3 \<and> session_at sv3 a = Some s' \<and> serverMediaSession s' = Some m \<and> numStreamStates s' = 1 \<and>
      map_option subsession (streamStates s') = Some (Some (m, 0))"
    by (rule initStreamStates_ok [OF run3 ok2, where s = s2]) (use st in \<open>simp_all add: sv2_def s2_def\<close>)
  then have ok3: "server_ok (insert a {}) sv3" by blast
  have s3: "session_at sv3 a = Some s3" "media_at sv3 m = Some x1" using x1 by (simp_all add: sv3_def sv2_def)
  obtain sv4 where run4: "lookupTrack a track sv3 = Some (Some (m, 0), sv4)"
    using lookupTrack_runs [OF ok3 s3(1) _ _ _ s3(2), of "\<lparr>subsession = Some (m, 0), streamToken = None\<rparr>"] by (auto simp: s3_def)
  have "numStreamStates s3 = 1" "map_option subsession (streamStates s3) = Some (Some (m, 0))" by (simp_all add: s3_def)
  note t = lookupTrack_ok [OF run4 ok3 s3(1) this] and f = lookupTrack_frame [OF run4]
  have s4: "session_at sv4 a = Some s3" "streamStates s3 \<noteq> None" "connection_at sv4 (connection s3) = Some x"
    using t(3) f(1) s3 x l(3) by (simp_all add: s3_def s2_def sv3_def sv2_def)
  have "serverMediaSessions sv4 name = Some m" using f(3) m1(1) by (simp add: sv3_def sv2_def)
  then have n4: "map_option streamName (media_at sv4 m) = Some name" using server_okD(1) [OF t(1)] by (simp add: tables_ok_def)
  have "stream_of (m, 0) sv4 = stream_of_file name sv" using lookupTrack_stream [OF run4] m1(2) by (simp add: sv3_def sv2_def)
  then show ?thesis
    using setup_stream_runs [OF t(1) s4 n4 name(1) th w] s(1,2) look run2 run3 run4 f(2-4) m1 l(4,7)
    by (fastforce simp: handleCommandSetup_def s3_def s2_def set_up_session_def receives_def stream_of_def newDestinations_def sv3_def sv2_def)
qed

lemma freshID_total: "table (show_hex8 (random (i + k))) = None \<Longrightarrow> \<exists>ident. freshID random table i = Some ident"
proof (induction k arbitrary: i)
  case 0
  then show ?case by (subst freshID.simps) simp
next
  case (Suc k)
  then have "\<exists>ident. freshID random table (i + 1) = Some ident" by (auto intro: Suc.IH simp: add.assoc)
  then show ?case by (subst freshID.simps) auto
qed

lemma AddSubsession_returns: "\<exists>y. AddSubsession sub (NewServerMediaSession w d name) = Some y"
  by (simp add: AddSubsession_def NewServerMediaSession_def)

lemma createNewSMS_returns:
  "Split name CHR ''.'' = base # ext # others \<Longrightarrow> ext \<in> {''264'', ''ts''} \<Longrightarrow> \<exists>y. createNewSMS w name = Some (Some y)"
  using AddSubsession_returns by (auto simp: createNewSMS_def)

definition live_session :: "nat \<Rightarrow> string \<Rightarrow> RTSPClientSession" where
  "live_session c ident = fresh_session c ident\<lparr>isTimerRunning := True\<rparr>"

lemma new_session_runs:
  "newRTSPClientSession c ident sv = Some (next_session sv, sv\<lparr>session_at := (session_at sv)(next_session sv \<mapsto> live_session c ident),
     next_session := next_session sv + 1, tasks := tasks sv @ [LivenessTask (next_session sv)]\<rparr>)"
  by (simp add: newRTSPClientSession_def noteLiveness_def mod_session_def live_session_def fresh_session_def Let_def)

lemma setup_request_runs:
  assumes ok: "server_ok {} sv" and x: "connection_at sv c = Some x" and cmd: "CmdName info = ''SETUP''" "SessionIDStr info = []"
    and fresh: "freshID (w_sessionIDs w) (clientSessions sv) 0 = Some ident"
    and name: "w_openable w (UrlPreSuffix info)" "createNewSMS w (UrlPreSuffix info) = Some (Some y)"
    and th: "StreamingMode (ParseTransportHeader req) = RTP_UDP" "ClientRTCPPortNum (ParseTransportHeader req) \<noteq> 0"
    and w: "w_bindable w (6970 + 2 * k)" "w_bindable w (6970 + 2 * k + 1)"
  shows "\<exists>sv' m t. handleRTSPRequest md5 w c info req sv = Some sv' \<and> serverMediaSessions sv' (UrlPreSuffix info) = Some m \<and>
    clientSessions sv' = (clientSessions sv)(ident \<mapsto> next_session sv) \<and>
    session_at sv' (next_session sv) = Some (set_up_session m (snd (ParseRangeHeader req) \<or> ParsePlayNowHeader req) (live_session c ident)) \<and>
    receives (m, 0) ident (remoteAddr x) (ClientRTPPortNum (ParseTransportHeader req)) (ClientRTCPPortNum (ParseTransportHeader req)) sv' \<and>
    stream_of (m, 0) sv' = Some t \<and> made_from w (stream_of_file (UrlPreSuffix info) sv) t \<and>
    map_option responseBuffer (connection_at sv' c) = Some (udp_transport w ident (ClientRTPPortNum (ParseTransportHeader req))
      (ClientRTCPPortNum (ParseTransportHeader req)) (serverRTPPort t) (serverRTCPPort t) (x\<lparr>currentCSeq := Cseq info\<rparr>)) \<and>
    tasks sv' = tasks sv @ [LivenessTask (next_session sv)]"
proof -
  define a where "a = next_session sv"
  define x1 where "x1 = x\<lparr>currentCSeq := Cseq info, sessionIDStr := SessionIDStr info\<rparr>"
  define x2 where "x2 = x1\<lparr>sessionIDStr := ident\<rparr>"
  define x3 where "x3 = x2\<lparr>clientSession := Some a\<rparr>"
  define sv1 where "sv1 = sv\<lparr>connection_at := (connection_at sv)(c \<mapsto> x1)\<rparr>"
  define sv2 where "sv2 = sv1\<lparr>connection_at := (connection_at sv1)(c \<mapsto> x2)\<rparr>"
  define sv3 where "sv3 = sv2\<lparr>session_at := (session_at sv2)(a \<mapsto> live_session c ident), next_session := a + 1, tasks := tasks sv2 @ [LivenessTask a]\<rparr>"
  define sv4 where "sv4 = sv3\<lparr>connection_at := (connection_at sv3)(c \<mapsto> x3)\<rparr>"
  define sv5 where "sv5 = addClientSession ident a sv4"
  have run1: "mod_conn c (\<lambda>x. x\<lparr>currentCSeq := Cseq info, sessionIDStr := SessionIDStr info\<rparr>) sv = Some sv1"
    using x by (simp add: mod_conn_def sv1_def x1_def)
  have run2: "mod_conn c (\<lambda>x. x\<lparr>sessionIDStr := ident\<rparr>) sv1 = Some sv2" by (simp add: mod_conn_def sv1_def sv2_def x2_def)
  have run3: "newRTSPClientSession c ident sv2 = Some (a, sv3)" by (simp add: new_session_runs sv3_def a_def sv2_def sv1_def)
  have run4: "mod_conn c (\<lambda>x. x\<lparr>clientSession := Some a\<rparr>) sv3 = Some sv4" by (simp add: mod_conn_def sv4_def sv3_def sv2_def x3_def)
  have ok2: "server_ok {} sv2"
    by (rule mod_conn_ok [OF run2 mod_conn_ok [OF run1 ok]]) (simp_all add: keeps_session_def)
  have ok3: "server_ok {} sv3" by (rule new_session_ok(1) [OF run3 ok2]) (simp add: sv2_def)
  have "server_ok {} sv4" by (rule mod_conn_ok [OF run4 ok3]) (simp add: keeps_session_def sv3_def)
  then have ok5: "server_ok {} sv5" unfolding sv5_def by (rule add_session_ok) (simp add: sv4_def sv3_def live_session_def fresh_session_def)
  have 5: "session_at sv5 a = Some (live_session c ident)" "connection_at sv5 c = Some x3"
    by (simp_all add: sv5_def sv4_def sv3_def addClientSession_def)
  have l: "serverMediaSession (live_session c ident) = None" "connection (live_session c ident) = c" "sessionID (live_session c ident) = ident"
    by (simp_all add: live_session_def fresh_session_def)
  have "clientSessions sv1 = clientSessions sv" by (simp add: sv1_def)
  then have "handleRTSPRequest md5 w c info req sv = handleCommandSetup w a (UrlPreSuffix info) (UrlSuffix info) req sv5"
    using run1 run2 run3 run4 5(2) cmd fresh by (simp add: handleRTSPRequest_def handleSetup_def sv5_def [symmetric] x3_def)
  moreover have "cseq_line x3 = cseq_line (x\<lparr>currentCSeq := Cseq info\<rparr>)" "remoteAddr x3 = remoteAddr x" "localAddr x3 = localAddr x"
    by (simp_all add: x3_def x2_def x1_def cseq_line_def)
  moreover have "clientSessions sv5 = (clientSessions sv)(ident \<mapsto> a)" "tasks sv5 = tasks sv @ [LivenessTask a]"
    by (simp_all add: sv5_def sv4_def sv3_def sv2_def sv1_def addClientSession_def)
  moreover have "stream_of_file (UrlPreSuffix info) sv5 = stream_of_file (UrlPreSuffix info) sv"
    by (simp add: stream_of_file_def stream_of_def get_sub_def sv5_def sv4_def sv3_def sv2_def sv1_def addClientSession_def)
  ultimately show ?thesis
    using setup_runs [OF ok5 5(1) l(1), unfolded l(2,3), OF 5(2) name th w, of "UrlSuffix info"]
    by (auto simp: a_def [symmetric] udp_transport_def)
qed

section \<open>Playing a stream\<close>

lemma presetNextTimestamp_seqNo: "seqNo (snd (presetNextTimestamp now sink)) = seqNo sink"
  by (simp add: presetNextTimestamp_def convertToRTPTimestamp_def Let_def split: prod.splits)

text \<open>PLAY leaves a task with the destination of its session; of the stream it changes at most the sink.\<close>

lemma play_runs:
  assumes ok: "server_ok {} sv" and s: "session_at sv a = Some s" "serverMediaSession s = Some m"
    and d: "receives (m, 0) (sessionID s) addr p1 p2 sv" and t: "stream_of (m, 0) sv = Some t"
  shows "\<exists>sv' d sink. handleCommandPlay w a req sv = Some sv' \<and> tasks sv' = tasks sv @ [PlayTask (m, 0) (Some d)] \<and>
    \<not> isTCP d \<and> addrStr d = addr \<and> rtpPort d = p1 \<and> rtcpPort d = p2 \<and>
    stream_of (m, 0) sv' = Some (t\<lparr>rtpSink := sink\<rparr>) \<and> (sink = None \<longleftrightarrow> rtpSink t = None) \<and> stream_calls sv' = stream_calls sv \<and>
    (\<forall>y. connection_at sv (connection s) = Some y \<longrightarrow>
      (\<exists>url n ts. connection_at sv' (connection s) = Some (played w (rangeHeaderStr req) (sessionID s) url n ts y)))"
proof -
  obtain x sub where st: "media_at sv m = Some x" "get_sub (m, 0) sv = Some sub" "sub_ok sub"
      "streamStates s = Some \<lparr>subsession = Some (m, 0), streamToken = Some (m, 0)\<rparr>" "connection_at sv (connection s) \<noteq> None"
    using set_up [OF ok s] by metis
  have token: "lastStreamToken sub = Some t" using t st(2) by (simp add: stream_of_def)
  obtain d where d: "destinations sub (sessionID s) = Some d" "\<not> isTCP d" "addrStr d = addr" "rtpPort d = p1" "rtcpPort d = p2"
    using d st(2) by (auto simp: receives_def)
  obtain n ts sub1 sink where start: "StartStream w (sessionID s) sub = Some ((n, ts, Some d), sub1)"
      and sub1: "lastStreamToken sub1 = Some (t\<lparr>rtpSink := sink\<rparr>)" "sink = None \<longleftrightarrow> rtpSink t = None"
    using token d(1) by (cases "rtpSink t") (auto simp: StartStream_def case_prod_unfold Let_def)
  obtain track sub2 where track: "TrackID sub1 = (track, sub2)" by fastforce
  have sub2: "lastStreamToken sub2 = lastStreamToken sub1" using track TrackID_keeps [of sub1] by simp
  define sv1 where "sv1 = sv\<lparr>urlPrefix := w_ip w, tasks := tasks sv @ [PlayTask (m, 0) (Some d)]\<rparr>"
  have old: "get_sub (m, 0) sv1 = Some sub" using st(2) by (simp add: sv1_def)
  then obtain sv2 where put: "put_sub (m, 0) sub2 sv1 = Some sv2" using put_sub_total by blast
  have "stream_made (media_at sv) (m, 0)" using linked_SomeD [OF linkedD [OF ok s(1)] s(2)] by simp
  then have ok1: "server_ok {} sv1" using ok by (auto simp: server_ok_def parts_def sv1_def)
  have "sub_ok sub2" using StartStream_ok(1) [OF start st(3)] track TrackID_keeps [of sub1] by (simp add: sub_ok_def)
  moreover have kept: "keeps_sub sub sub2" using StartStream_ok(4) [OF start st(3)] sub2 track TrackID_keeps [of sub1] by simp
  ultimately have "get_sub (m, 0) sv2 = Some sub2" using put_sub_ok(5) [OF put ok1 _ _ old] by simp
  note p = this and f = put_sub_frame [OF put]
  have "connection_at sv2 (connection s) = connection_at sv (connection s)" using f(1) by (simp add: sv1_def)
  then obtain y where "connection_at sv2 (connection s) = Some y" "connection_at sv (connection s) = Some y" using st(5) by force
  moreover have "get_sub (m, 0) sv2 = Some sub2" by (rule p)
  moreover have "\<not> snd (ParseScaleHeader req)" by (simp add: ParseScaleHeader_def split: option.split)
  moreover define url where "url = ''rtsp://'' @ w_ip w @ '':'' @ show_nat (rtspPort sv) @ ''/'' @ streamName x @ ''/'' @ track"
  define sv3 where "sv3 = sv2\<lparr>connection_at := (connection_at sv2)(connection s \<mapsto> played w (rangeHeaderStr req) (sessionID s) url n ts y)\<rparr>"
  ultimately have "handleCommandPlay w a req sv = Some sv3" "stream_of (m, 0) sv3 = Some (t\<lparr>rtpSink := sink\<rparr>)"
    using s st(1,2,4) start track put sub1(1) sub2
    by (simp_all add: handleCommandPlay_def RtspURL_def RtspURLPrefix_def sv1_def mod_conn_def stream_of_def url_def sv3_def)
  moreover have "tasks sv3 = tasks sv @ [PlayTask (m, 0) (Some d)]" "stream_calls sv3 = stream_calls sv"
    using f by (simp_all add: sv3_def sv1_def)
  moreover have "connection_at sv3 (connection s) = Some (played w (rangeHeaderStr req) (sessionID s) url n ts y)" by (simp add: sv3_def)
  ultimately show ?thesis using d sub1(2) \<open>connection_at sv (connection s) = Some y\<close>
    by (intro exI [of _ sv3] exI [of _ d] exI [of _ sink] conjI) auto
qed

text \<open>The sockets of a stream are there, for RTP and RTCP.\<close>

definition has_sockets :: "StreamState \<Rightarrow> bool" where
  "has_sockets t \<longleftrightarrow> rtpSink t \<noteq> None \<and> rtpGS t \<noteq> None \<and> rtcpGS t \<noteq> None"

text \<open>
  A client joins a stream: the address and the ports become the last destinations of the two sockets, a report is sent, and then the sink is
  started unless it plays already or the file could not be opened.
\<close>

definition joins :: "stream \<Rightarrow> string \<Rightarrow> nat \<Rightarrow> nat \<Rightarrow> RTSPServer \<Rightarrow> RTSPServer \<Rightarrow> bool" where
  "joins p addr p1 p2 sv sv' \<longleftrightarrow>
     (\<exists>t t' g1 g2. stream_of p sv = Some t \<and> rtpGS t = Some g1 \<and> rtcpGS t = Some g2 \<and>
        stream_of p sv' = Some t' \<and> rtpGS t' = Some (AddDestination addr p1 g1) \<and> rtcpGS t' = Some (AddDestination addr p2 g2) \<and>
        rtcpInstance t' \<and> mediaSource t' = mediaSource t \<and> rtpSink t' = rtpSink t \<and>
        stream_calls sv' = stream_calls sv @ map (Pair p) (SendReport # (if \<not> areCurrentlyPlaying t \<and> mediaSource t then [SinkStartPlaying] else [])))"

text \<open>
  The goroutine of PLAY waits: it is inside the constructor of the RTCP instance, which sleeps; the stream is as it was before, and there is a
  task for the rest, which becomes due when the time is over that the constructor sleeps.
\<close>

definition waits :: "world \<Rightarrow> stream \<Rightarrow> Destinations \<Rightarrow> int \<Rightarrow> RTSPServer \<Rightarrow> RTSPServer \<Rightarrow> bool" where
  "waits w p d ns sv sv' \<longleftrightarrow>
     (\<exists>t name report r. stream_of p sv = Some t \<and> stream_of p sv' = Some t \<and>
        newRTCPInstance (w_now w) [] (w_drand48 w) (w_drand48' w) (totalBW t) name (rtpSink t) None = Some (report, Some ns, r) \<and>
        tasks sv' = tasks sv @ [WakeTask p d (nanos w + ns)] \<and>
        stream_calls sv' = stream_calls sv @ map (Pair p) (NewRTCPInstance # (if report = None then [] else [SendReport])))"

lemma put_stream:
  assumes "get_sub (m, 0) sv = Some sub"
  shows "\<exists>sv'. put_sub (m, 0) (sub\<lparr>lastStreamToken := Some t\<rparr>) sv = Some sv' \<and> stream_of (m, 0) sv' = Some t"
proof -
  obtain x entries where x: "media_at sv m = Some x" "Subsessions x = Some sub # entries"
    using assms by (cases "media_at sv m"; cases "Subsessions (the (media_at sv m))") (auto simp: get_sub_def)
  then show ?thesis by (simp add: put_sub_def stream_of_def get_sub_def)
qed

lemma joinStream_runs:
  assumes "stream_of (m, 0) sv = Some t" and "rtpGS t = Some g1" and "rtcpGS t = Some g2" and "rtpSink t \<noteq> None"
    and "\<not> isTCP d" "addrStr d = addr" "rtpPort d = p1" "rtcpPort d = p2"
    and "joinStream d (t\<lparr>rtcpInstance := True\<rparr>) = (calls, t1)"
    and "get_sub (m, 0) sv = Some sub" and "put_sub (m, 0) (sub\<lparr>lastStreamToken := Some t1\<rparr>) sv = Some sv1"
  shows "joins (m, 0) addr p1 p2 sv (note_calls (m, 0) calls sv1)"
proof -
  obtain sv2 where sv2: "put_sub (m, 0) (sub\<lparr>lastStreamToken := Some t1\<rparr>) sv = Some sv2" "stream_of (m, 0) sv2 = Some t1"
    using put_stream [OF assms(10)] by blast
  then have "stream_of (m, 0) sv1 = Some t1" using assms(11) by simp
  moreover have "t1 = t\<lparr>rtcpInstance := True, rtpGS := Some (AddDestination addr p1 g1), rtcpGS := Some (AddDestination addr p2 g2)\<rparr>"
    "calls = SendReport # (if \<not> areCurrentlyPlaying t \<and> mediaSource t then [SinkStartPlaying] else [])"
    using assms(2-9) by (cases "\<not> areCurrentlyPlaying t \<and> mediaSource t"; auto simp: joinStream_def Let_def)+
  ultimately show ?thesis using assms(1-3) put_sub_frame(5) [OF assms(11)]
    by (auto simp: joins_def note_calls_def stream_of_def get_sub_def)
qed

lemma play_task_runs:
  assumes t: "stream_of (m, 0) sv = Some t" "has_sockets t"
    and d: "\<not> isTCP d" "addrStr d = addr" "rtpPort d = p1" "rtcpPort d = p2"
  shows "\<exists>sv'. perform w (PlayTask (m, 0) (Some d)) sv = Some sv' \<and>
    (if rtcpInstance t then joins (m, 0) addr p1 p2 sv sv' else \<exists>ns. waits w (m, 0) d ns sv sv')"
proof -
  obtain sub where sub: "get_sub (m, 0) sv = Some sub" "lastStreamToken sub = Some t" using t by (auto simp: stream_of_def bind_simps)
  obtain g1 g2 where g: "rtpSink t \<noteq> None" "rtpGS t = Some g1" "rtcpGS t = Some g2" using t(2) by (auto simp: has_sockets_def)
  show ?thesis
  proof (cases "rtcpInstance t")
    case True
    obtain calls t1 where j: "joinStream d t = (calls, t1)" by fastforce
    obtain sv1 where put: "put_sub (m, 0) (sub\<lparr>lastStreamToken := Some t1\<rparr>) sv = Some sv1" using put_stream [OF sub(1)] by blast
    have "t\<lparr>rtcpInstance := True\<rparr> = t" using True by simp
    then have "joinStream d (t\<lparr>rtcpInstance := True\<rparr>) = (calls, t1)" using j by simp
    from joinStream_runs [OF t(1) g(2,3,1) d this sub(1) put]
    show ?thesis using True sub j put by (simp add: perform_def play_stream_def startPlaying_def)
  next
    case False
    obtain report ns r where new: "newRTCPInstance (w_now w) [] (w_drand48 w) (w_drand48' w) (totalBW t) (cname sub) (rtpSink t) None = Some (report, Some ns, r)"
      using newRTCPInstance_sleeps by blast
    obtain sv1 where put: "put_sub (m, 0) (sub\<lparr>lastStreamToken := Some t\<rparr>) sv = Some sv1" "stream_of (m, 0) sv1 = Some t"
      using put_stream [OF sub(1)] by blast
    define calls where "calls = NewRTCPInstance # (if report = None then [] else [SendReport])"
    have "startPlaying w (cname sub) (Some d) t = Some (calls, Some ns, t)" using False g(1) new by (simp add: startPlaying_def calls_def)
    then have "perform w (PlayTask (m, 0) (Some d)) sv = Some ((note_calls (m, 0) calls sv1)\<lparr>tasks := tasks sv1 @ [WakeTask (m, 0) d (nanos w + ns)]\<rparr>)"
      using sub put(1) by (simp add: perform_def play_stream_def note_calls_def)
    moreover have "waits w (m, 0) d ns sv ((note_calls (m, 0) calls sv1)\<lparr>tasks := tasks sv1 @ [WakeTask (m, 0) d (nanos w + ns)]\<rparr>)"
      unfolding waits_def using t(1) put(2) new put_sub_frame(3,5) [OF put(1)] by (auto simp: note_calls_def calls_def stream_of_def get_sub_def)
    ultimately show ?thesis using False by auto
  qed
qed

lemma wake_task_runs:
  assumes t: "stream_of (m, 0) sv = Some t" "has_sockets t"
    and d: "\<not> isTCP d" "addrStr d = addr" "rtpPort d = p1" "rtcpPort d = p2"
  shows "\<exists>sv'. perform w (WakeTask (m, 0) d until) sv = Some sv' \<and> joins (m, 0) addr p1 p2 sv sv'"
proof -
  obtain sub where sub: "get_sub (m, 0) sv = Some sub" "lastStreamToken sub = Some t" using t by (auto simp: stream_of_def bind_simps)
  obtain g1 g2 where g: "rtpSink t \<noteq> None" "rtpGS t = Some g1" "rtcpGS t = Some g2" using t(2) by (auto simp: has_sockets_def)
  obtain calls t1 where j: "joinStream d (t\<lparr>rtcpInstance := True\<rparr>) = (calls, t1)" by fastforce
  obtain sv1 where put: "put_sub (m, 0) (sub\<lparr>lastStreamToken := Some t1\<rparr>) sv = Some sv1" using put_stream [OF sub(1)] by blast
  from joinStream_runs [OF t(1) g(2,3,1) d j sub(1) put]
  show ?thesis using sub j put by (simp add: perform_def wake_stream_def startPlayingWoken_def)
qed

section \<open>Requests within a session\<close>

text \<open>The request names the file of its session, with or without a track.\<close>

definition names :: "RTSPRequestInfo \<Rightarrow> ServerMediaSession \<Rightarrow> bool" where
  "names info y \<longleftrightarrow> EqualFold (streamName y) (UrlPreSuffix info) \<or> EqualFold (streamName y) (UrlSuffix info)"

definition in_session :: "RTSPRequestInfo \<Rightarrow> nat \<Rightarrow> RTSPClientSession \<Rightarrow> nat \<Rightarrow> RTSPServer \<Rightarrow> bool" where
  "in_session info a s m sv \<longleftrightarrow>
     CmdName info \<in> set inSessionCommands \<and> clientSessions sv (SessionIDStr info) = Some a \<and> session_at sv a = Some s \<and>
     serverMediaSession s = Some m \<and> livenessTimeoutTimer s \<and> (\<exists>y. media_at sv m = Some y \<and> names info y)"

text \<open>The session receives over its TCP connection, and of all the TCP streams of the sink it was the first.\<close>

definition oldest_tcp :: "stream \<Rightarrow> string \<Rightarrow> RTSPServer \<Rightarrow> bool" where
  "oldest_tcp p ident sv \<longleftrightarrow>
     (\<exists>sub t d c. get_sub p sv = Some sub \<and> lastStreamToken sub = Some t \<and> destinations sub ident = Some d \<and>
        isTCP d \<and> tcpSocketNum d = Some c \<and> rtpSink t \<noteq> None \<and>
        tcpStreams (sinkInterface t) \<noteq> [] \<and> last (tcpStreams (sinkInterface t)) = (c, rtpChannelID d))"

lemma findTarget_hits:
  assumes "media_ok y" and "names info y"
  shows "\<exists>t sub l. findTarget (UrlPreSuffix info) (UrlSuffix info) y = Some (t, y\<lparr>Subsessions := Some sub # l\<rparr>) \<and> t \<noteq> NoTarget \<and>
    (\<exists>sub0. Subsessions y = Some sub0 # l \<and> (sub = sub0 \<or> sub = snd (TrackID sub0)))"
proof -
  obtain sub l where l: "Subsessions y = Some sub # l" "SubsessionCounter y = 1" using assms(1) by (auto simp: media_ok_def)
  then have same: "y\<lparr>Subsessions := Some sub # l\<rparr> = y" by simp
  have track: "findTrack (UrlSuffix info) 0 1 y = Some (Some 0, y\<lparr>Subsessions := Some (snd (TrackID sub)) # l\<rparr>)"
    using l by (simp add: findTrack.simps case_prod_unfold Let_def)
  show ?thesis
  proof (cases "UrlSuffix info \<noteq> [] \<and> EqualFold (streamName y) (UrlPreSuffix info)")
    case True
    then show ?thesis using l track by (intro exI [of _ "Track 0"]) (auto simp: findTarget_def)
  next
    case False
    then have "EqualFold (streamName y) (UrlSuffix info) \<or> UrlSuffix info = [] \<and> EqualFold (streamName y) (UrlPreSuffix info)"
      using assms(2) by (auto simp: names_def)
    then have "findTarget (UrlPreSuffix info) (UrlSuffix info) y = Some (Aggregate, y)" using False by (auto simp: findTarget_def Let_def)
    then show ?thesis using l(1) same by (intro exI [of _ Aggregate] exI [of _ sub] exI [of _ l]) simp
  qed
qed

text \<open>The handler of the command runs in a state that differs in nothing that it reads.\<close>

lemma in_session_request:
  assumes ok: "server_ok {} sv" and x: "connection_at sv c \<noteq> None" and i: "in_session info a s m sv"
  shows "\<exists>sv2. handleRTSPRequest md5 w c info req sv =
      (if CmdName info = ''TEARDOWN'' then handleCommandTearDown w a sv2 else if CmdName info = ''PLAY'' then handleCommandPlay w a req sv2
       else if CmdName info = ''PAUSE'' then handleCommandPause w a sv2 else if CmdName info = ''GET_PARAMETER'' then handleCommandGetParameter w a sv2
       else handleCommandSetParameter w a sv2) \<and>
    server_ok {} sv2 \<and> session_at sv2 = session_at sv \<and> clientSessions sv2 = clientSessions sv \<and> serverMediaSessions sv2 = serverMediaSessions sv \<and>
    tasks sv2 = tasks sv \<and> stream_calls sv2 = stream_calls sv \<and> stream_of (m, 0) sv2 = stream_of (m, 0) sv \<and>
    (\<forall>ident addr p1 p2. receives (m, 0) ident addr p1 p2 sv2 = receives (m, 0) ident addr p1 p2 sv) \<and>
    (\<forall>ident. oldest_tcp (m, 0) ident sv2 = oldest_tcp (m, 0) ident sv) \<and>
    map_option streamName (media_at sv2 m) = map_option streamName (media_at sv m) \<and>
    map_option currentCSeq (connection_at sv2 c) = Some (Cseq info)"
proof -
  obtain y where cmd: "CmdName info \<in> set inSessionCommands" and a: "clientSessions sv (SessionIDStr info) = Some a" and s: "session_at sv a = Some s"
    and m: "serverMediaSession s = Some m" and timer: "livenessTimeoutTimer s" and y: "media_at sv m = Some y" "names info y"
    using i by (auto simp: in_session_def)
  define f :: "RTSPClientConnection \<Rightarrow> RTSPClientConnection" where "f = (\<lambda>x. x\<lparr>currentCSeq := Cseq info, sessionIDStr := SessionIDStr info\<rparr>)"
  obtain sv0 where m0: "mod_conn c f sv = Some sv0" using x by fastforce
  have ok0: "server_ok {} sv0" by (rule mod_conn_ok [OF m0 ok]) (simp add: keeps_session_def f_def)
  note f0 = mod_conn_frame [OF m0]
  have "connection_at sv0 c \<noteq> None" using m0 by (auto simp: mod_conn_def bind_simps)
  then obtain sv1 where m1: "mod_conn c (\<lambda>x. x\<lparr>clientSession := Some a\<rparr>) sv0 = Some sv1" by fastforce
  have ok1: "server_ok {} sv1" using f0(1) s by (intro mod_conn_ok [OF m1 ok0]) (simp add: keeps_session_def)
  note f1 = mod_conn_frame [OF m1]
  have calls: "stream_calls sv1 = stream_calls sv" using m0 m1 by (auto simp: mod_conn_def bind_simps)
  have s1: "session_at sv1 a = Some s" "media_at sv1 m = Some y" using f0(1,2) f1(1,2) s y(1) by simp_all
  have my: "media_ok y" using server_okD(4) [OF ok1] s1(2) by (simp add: medias_ok_def)
  obtain t sub l sub0 where hit: "findTarget (UrlPreSuffix info) (UrlSuffix info) y = Some (t, y\<lparr>Subsessions := Some sub # l\<rparr>)" "t \<noteq> NoTarget"
    and sub: "Subsessions y = Some sub0 # l" "sub = sub0 \<or> sub = snd (TrackID sub0)" using findTarget_hits [OF my y(2)] by blast
  define sv2 where "sv2 = sv1\<lparr>media_at := (media_at sv1)(m \<mapsto> y\<lparr>Subsessions := Some sub # l\<rparr>)\<rparr>"
  have ok2: "server_ok {} sv2" unfolding sv2_def using media_update_ok(1) [OF ok1 s1(2)] findTarget_keeps [OF hit(1) my] by blast
  have "isTimerRunning s" using server_okD(3) [OF ok1] s1(1) by (auto simp: sessions_ok_def)
  then have live: "noteLiveness a sv1 = Some sv1" using s1(1) timer by (simp add: noteLiveness_def)
  have get: "get_sub (m, 0) sv = Some sub0" "get_sub (m, 0) sv2 = Some sub" using y(1) sub(1) by (simp_all add: get_sub_def sv2_def)
  have keep: "lastStreamToken sub = lastStreamToken sub0" "destinations sub = destinations sub0" using sub(2) TrackID_fields by auto
  have "handleInSession w c info req sv0 = handleCommandWithinSession w a (CmdName info) (UrlPreSuffix info) (UrlSuffix info) req sv1"
    using a f0(3) m1 by (simp add: handleInSession_def getClientSession_def)
  moreover have "handleRTSPRequest md5 w c info req sv = handleInSession w c info req sv0"
    using cmd m0 by (auto simp: handleRTSPRequest_def f_def inSessionCommands_def)
  moreover have "handleCommandWithinSession w a (CmdName info) (UrlPreSuffix info) (UrlSuffix info) req sv1 =
      (if CmdName info = ''TEARDOWN'' then handleCommandTearDown w a sv2 else if CmdName info = ''PLAY'' then handleCommandPlay w a req sv2
       else if CmdName info = ''PAUSE'' then handleCommandPause w a sv2 else if CmdName info = ''GET_PARAMETER'' then handleCommandGetParameter w a sv2
       else handleCommandSetParameter w a sv2)"
    using cmd live s1 m hit by (auto simp: handleCommandWithinSession_def sv2_def inSessionCommands_def)
  moreover have "receives (m, 0) i addr p1 p2 sv2 = receives (m, 0) i addr p1 p2 sv" for i addr p1 p2 using get keep by (simp add: receives_def)
  moreover have "oldest_tcp (m, 0) i sv2 = oldest_tcp (m, 0) i sv" for i using get keep by (simp add: oldest_tcp_def)
  moreover have "stream_of (m, 0) sv2 = stream_of (m, 0) sv" using get keep by (simp add: stream_of_def)
  moreover have "map_option currentCSeq (connection_at sv2 c) = Some (Cseq info)"
    using m0 m1 by (auto simp: mod_conn_def bind_simps sv2_def f_def)
  ultimately show ?thesis using ok2 f0 f1 calls y(1) by (intro exI [of _ sv2]) (simp add: sv2_def)
qed

lemma reclaim_runs:
  "stream_ok t \<Longrightarrow> rtcpInstance t \<Longrightarrow>
     \<exists>g. reclaim t = Some ([SendBye, StopNetworkReading], t\<lparr>rtcpGS := Some (Close g)\<rparr>)"
  by (auto simp: reclaim_def stream_ok_def)

lemma endPlaying_panics:
  "stream_ok t \<Longrightarrow> endPlaying dest t = None \<longleftrightarrow>
     (\<exists>d c. dest = Some d \<and> isTCP d \<and> tcpSocketNum d = Some c \<and> rtpSink t \<noteq> None \<and>
        tcpStreams (sinkInterface t) \<noteq> [] \<and> last (tcpStreams (sinkInterface t)) = (c, rtpChannelID d))"
proof -
  assume "stream_ok t"
  then have "delStreamSocket c ch (sinkInterface t) = None \<longleftrightarrow> tcpStreams (sinkInterface t) \<noteq> [] \<and> last (tcpStreams (sinkInterface t)) = (c, ch)"
    for c ch by (intro delStreamSocket_panics) (simp add: stream_ok_def)
  then show ?thesis by (auto simp: endPlaying_def Option.bind_eq_None_conv split: option.split prod.split)
qed

lemma teardown_runs:
  assumes ok: "server_ok {} sv" and s: "session_at sv a = Some s" "serverMediaSession s = Some m" "livenessTimeoutTimer s"
    and t: "stream_of (m, 0) sv = Some t" and name: "map_option streamName (media_at sv m) = Some name"
  shows "\<not> rtcpInstance t \<or> oldest_tcp (m, 0) (sessionID s) sv \<Longrightarrow> handleCommandTearDown w a sv = None"
    and "rtcpInstance t \<and> \<not> oldest_tcp (m, 0) (sessionID s) sv \<Longrightarrow>
      \<exists>sv' t'. handleCommandTearDown w a sv = Some sv' \<and> clientSessions sv' = (clientSessions sv)(sessionID s := None) \<and>
      serverMediaSessions sv' = (serverMediaSessions sv)(name := None) \<and> stream_of (m, 0) sv' = Some t' \<and> rtpGS t' = rtpGS t \<and>
      map_option gs_open (rtcpGS t') = Some False"
proof -
  obtain x sub where st: "media_at sv m = Some x" "get_sub (m, 0) sv = Some sub" "sub_ok sub"
      "streamStates s = Some \<lparr>subsession = Some (m, 0), streamToken = Some (m, 0)\<rparr>" "connection_at sv (connection s) \<noteq> None"
    using set_up [OF ok s(1,2)] by metis
  have token: "lastStreamToken sub = Some t" using t st(2) by (simp add: stream_of_def)
  have tok: "stream_ok t" using token st(3) by (simp add: sub_ok_def)
  have tcp: "oldest_tcp (m, 0) (sessionID s) sv \<longleftrightarrow> endPlaying (destinations sub (sessionID s)) t = None"
    unfolding endPlaying_panics [OF tok] using st(2) token by (auto simp: oldest_tcp_def)
  have none: "handleCommandTearDown w a sv = None" if "DeleteStream (sessionID s) True sub = None"
    using s st(2,4) that by (simp add: handleCommandTearDown_def)
  have "reclaim t1 = None" if "\<not> rtcpInstance t" "endPlaying (destinations sub (sessionID s)) t = Some (c1, t1)" for c1 t1
    using that endPlaying_ok(3) [OF that(2) tok] by (simp add: reclaim_def)
  then show "\<not> rtcpInstance t \<or> oldest_tcp (m, 0) (sessionID s) sv \<Longrightarrow> handleCommandTearDown w a sv = None"
    using tcp token by (intro none) (auto simp: DeleteStream_def split: Option.bind_splits)
  assume run: "rtcpInstance t \<and> \<not> oldest_tcp (m, 0) (sessionID s) sv"
  then obtain calls1 t1 where e: "endPlaying (destinations sub (sessionID s)) t = Some (calls1, t1)" using tcp by auto
  note t1 = endPlaying_ok [OF e tok]
  obtain g where re: "reclaim t1 = Some ([SendBye, StopNetworkReading], t1\<lparr>rtcpGS := Some (Close g)\<rparr>)"
    using reclaim_runs t1(1,3) run by blast
  define calls where "calls = calls1 @ [SendBye, StopNetworkReading]"
  define sub1 where "sub1 = sub\<lparr>destinations := (destinations sub)(sessionID s := None), lastStreamToken := Some (t1\<lparr>rtcpGS := Some (Close g)\<rparr>)\<rparr>"
  have del: "DeleteStream (sessionID s) True sub = Some (calls, sub1)" using token e re by (simp add: DeleteStream_def calls_def sub1_def)
  obtain l where l: "Subsessions x = Some sub # l"
    using st(1,2) by (cases "Subsessions x") (auto simp: get_sub_def)
  define sv1 where "sv1 = sv\<lparr>media_at := (media_at sv)(m \<mapsto> x\<lparr>Subsessions := Some sub1 # l\<rparr>)\<rparr>"
  have put: "put_sub (m, 0) sub1 sv = Some sv1" using st(1) l by (simp add: put_sub_def sv1_def)
  define sv2 where "sv2 = note_calls (m, 0) calls sv1"
  obtain sv3 where r: "setRTSPResponse w (connection s) ''200 OK'' sv2 = Some sv3"
    using responses_return(1) [of sv2 "connection s"] st(5) by (auto simp: sv2_def note_calls_def sv1_def)
  have f: "session_at sv3 = session_at sv2" "media_at sv3 = media_at sv2" "clientSessions sv3 = clientSessions sv2"
      "serverMediaSessions sv3 = serverMediaSessions sv2" using r mod_conn_frame by (auto simp: setRTSPResponse_def)
  have "streamName x = name" using name st(1) by simp
  then have d: "session_destroy a sv3 = Some (removeServerMediaSession name (removeClientSession (sessionID s) sv3))"
    using s f(1,2) by (simp add: session_destroy_def removeClientSession_def sv2_def note_calls_def sv1_def)
  have "handleCommandTearDown w a sv = Some (removeServerMediaSession name (removeClientSession (sessionID s) sv3))"
    using s st(2,4) del put r d by (simp add: handleCommandTearDown_def sv2_def)
  then show "\<exists>sv' t'. handleCommandTearDown w a sv = Some sv' \<and> clientSessions sv' = (clientSessions sv)(sessionID s := None) \<and>
      serverMediaSessions sv' = (serverMediaSessions sv)(name := None) \<and> stream_of (m, 0) sv' = Some t' \<and> rtpGS t' = rtpGS t \<and>
      map_option gs_open (rtcpGS t') = Some False"
    using f t1(4)
    by (simp add: removeServerMediaSession_def removeClientSession_def stream_of_def get_sub_def sv2_def note_calls_def sv1_def sub1_def Close_def)
qed

section \<open>An example\<close>

text \<open>A server with one H.264 file, a client that has connected, and its requests.\<close>

definition ex_world :: world where
  "ex_world = \<lparr>w_now = \<lparr>tv_sec = 1700000000, tv_usec = 250000\<rparr>, w_date = ''Tue Nov 14 22:13:20 2023'', w_ip = ''10.0.0.1'',
     w_hostname = ''server'', w_openable = (\<lambda>name. name = ''a.264''), w_filesize = (\<lambda>name. 100000), w_bindable = (\<lambda>p. p \<noteq> 6971),
     w_random16 = 7, w_random32 = 1000, w_random32' = 2000, w_drand48 = 1, w_drand48' = 3,
     w_sessionIDs = (\<lambda>i. 42 + word_of_nat i), w_auxSDPLine = (\<lambda>i. [])\<rparr>"

definition ex_connected :: "Database option \<Rightarrow> RTSPServer" where
  "ex_connected db = snd (newRTSPClientConnection ''10.0.0.1'' ''8554'' ''10.0.0.2'' ''40000'' (New db 8554 80))"

definition ex_info :: "string \<Rightarrow> string \<Rightarrow> RTSPRequestInfo" where
  "ex_info cmd ident = \<lparr>Cseq = ''2'', CmdName = cmd, SessionIDStr = ident, UrlPreSuffix = ''a.264'', UrlSuffix = ''track1'', ContentLength = []\<rparr>"

definition ex_request :: string where
  "ex_request = ''SETUP rtsp://cam/a.264/track1 RTSP/1.0'' @ ''Transport:'' @ '' RTP/AVP;unicast;'' @ client_port 5000 5001 @ crlf @ crlf"

lemma ex_connected_ok: "server_ok {} (ex_connected db)"
  unfolding ex_connected_def by (rule connect_ok) (simp add: New_def server_ok_def parts_def)

lemma ex_connected_fields:
  "\<exists>x. connection_at (ex_connected db) 0 = Some x \<and> remoteAddr x = ''10.0.0.2''" "clientSessions (ex_connected db) = Map.empty"
  "next_session (ex_connected db) = 0" "authDatabase (ex_connected db) = db" "serverMediaSessions (ex_connected db) = Map.empty"
  by (simp_all add: ex_connected_def newRTSPClientConnection_def New_def)

lemma ex_transport:
  "StreamingMode (ParseTransportHeader ex_request) = RTP_UDP" "ClientRTPPortNum (ParseTransportHeader ex_request) = 5000"
  "ClientRTCPPortNum (ParseTransportHeader ex_request) = 5001"
proof -
  have "\<not> sublist ''Transport:'' ''SETUP rtsp://cam/a.264/track1 RTSP/1.0''" by (auto dest: set_mono_sublist)
  then have "ParseTransportHeader ex_request = default_transport\<lparr>ClientRTPPortNum := 5000, ClientRTCPPortNum := 5001\<rparr>"
    unfolding ex_request_def by (rule transport_ports) simp_all
  then show "StreamingMode (ParseTransportHeader ex_request) = RTP_UDP" "ClientRTPPortNum (ParseTransportHeader ex_request) = 5000"
    "ClientRTCPPortNum (ParseTransportHeader ex_request) = 5001" by (simp_all add: default_transport_def)
qed

lemma ex_file: "w_openable ex_world ''a.264''" "Split ''a.264'' CHR ''.'' = [''a'', ''264'']"
  "w_bindable ex_world (6970 + 2 * 1)" "w_bindable ex_world (6970 + 2 * 1 + 1)"
  by (simp_all add: ex_world_def)

text \<open>The client has set up its session, and the timer of the session has been started.\<close>

lemma ex_session:
  assumes "cmd \<in> set inSessionCommands"
  shows "\<exists>sv ident s m t. server_ok {} sv \<and> connection_at sv 0 \<noteq> None \<and> in_session (ex_info cmd ident) 0 s m sv \<and> sessionID s = ident \<and>
    receives (m, 0) ident ''10.0.0.2'' 5000 5001 sv \<and> stream_of (m, 0) sv = Some t \<and> new_stream ex_world t"
proof -
  define sv0 where "sv0 = ex_connected None"
  obtain x where x: "connection_at sv0 0 = Some x" "remoteAddr x = ''10.0.0.2''" using ex_connected_fields unfolding sv0_def by blast
  have "clientSessions sv0 (show_hex8 (w_sessionIDs ex_world (0 + 0))) = None" using ex_connected_fields by (simp add: sv0_def)
  then obtain ident where fresh: "freshID (w_sessionIDs ex_world) (clientSessions sv0) 0 = Some ident"
    using freshID_total [of "clientSessions sv0" "w_sessionIDs ex_world" 0 0] by blast
  have name: "w_openable ex_world (UrlPreSuffix (ex_info ''SETUP'' []))" using ex_file by (simp add: ex_info_def)
  obtain y where y: "createNewSMS ex_world (UrlPreSuffix (ex_info ''SETUP'' [])) = Some (Some y)"
    using createNewSMS_returns [OF ex_file(2)] by (auto simp: ex_info_def)
  have th: "ClientRTCPPortNum (ParseTransportHeader ex_request) \<noteq> 0" by (simp add: ex_transport)
  have cmds: "CmdName (ex_info ''SETUP'' []) = ''SETUP''" "SessionIDStr (ex_info ''SETUP'' []) = []" by (simp_all add: ex_info_def)
  obtain sv1 m t where run: "handleRTSPRequest (\<lambda>s. s) ex_world 0 (ex_info ''SETUP'' []) ex_request sv0 = Some sv1"
    and 1: "serverMediaSessions sv1 (UrlPreSuffix (ex_info ''SETUP'' [])) = Some m" "clientSessions sv1 = (clientSessions sv0)(ident \<mapsto> next_session sv0)"
      "session_at sv1 (next_session sv0) = Some (set_up_session m (snd (ParseRangeHeader ex_request) \<or> ParsePlayNowHeader ex_request) (live_session 0 ident))"
      "receives (m, 0) ident (remoteAddr x) (ClientRTPPortNum (ParseTransportHeader ex_request)) (ClientRTCPPortNum (ParseTransportHeader ex_request)) sv1"
      "stream_of (m, 0) sv1 = Some t" "made_from ex_world (stream_of_file (UrlPreSuffix (ex_info ''SETUP'' [])) sv0) t" "tasks sv1 = tasks sv0 @ [LivenessTask (next_session sv0)]"
      "connection_at sv1 0 \<noteq> None"
    using setup_request_runs [OF ex_connected_ok [of None, folded sv0_def] x(1) cmds fresh name y ex_transport(1) th ex_file(3,4), of "\<lambda>s. s"] by auto
  have ok1: "server_ok {} sv1" using rtsp_request_ok [OF run] ex_connected_ok [of None] by (simp add: sv0_def)
  have a: "next_session sv0 = 0" using ex_connected_fields(3) by (simp add: sv0_def)
  define s where "s = (set_up_session m (snd (ParseRangeHeader ex_request) \<or> ParsePlayNowHeader ex_request) (live_session 0 ident))\<lparr>livenessTimeoutTimer := True\<rparr>"
  define sv2 where "sv2 = sv1\<lparr>session_at := (session_at sv1)(0 \<mapsto> s)\<rparr>"
  have "perform ex_world (LivenessTask 0) sv1 = Some sv2"
    using 1(3) by (simp add: perform_def start_timer_def mod_session_def s_def sv2_def a)
  then have ok2: "server_ok {} sv2" by (rule perform_ok [OF _ ok1]) (simp add: 1(7) a)
  have "\<exists>y. media_at sv1 m = Some y \<and> streamName y = ''a.264''"
    using server_okD(1) [OF ok1] 1(1) by (auto simp: tables_ok_def ex_info_def)
  moreover have "EqualFold ''a.264'' ''a.264''" by (rule EqualFold_refl)
  ultimately have "in_session (ex_info cmd ident) 0 s m sv2" using assms 1(2) a
    by (auto simp: in_session_def ex_info_def sv2_def s_def set_up_session_def names_def)
  moreover have "new_stream ex_world t" using 1(6) ex_connected_fields(5) [of None] by (simp add: made_from_def stream_of_file_def sv0_def)
  moreover have "receives (m, 0) ident ''10.0.0.2'' 5000 5001 sv2" "stream_of (m, 0) sv2 = Some t" "connection_at sv2 0 \<noteq> None"
    using 1(4,5,8) x(2) by (simp_all add: ex_transport sv2_def receives_def)
  moreover have "sessionID s = ident" by (simp add: s_def set_up_session_def live_session_def fresh_session_def)
  ultimately show ?thesis using ok2 by blast
qed

section \<open>Properties\<close>

text \<open>C16. In every state that the server can reach, by connections, requests, disconnections, tasks, timeouts and
  playing streams in any order, its objects are well linked: a session in the table has the name it is found under and a connection, a media
  session in the table has the name it is found under and exactly one subsession, a session with a media session has its stream,
  and every task that waits has the session or the stream it works on.
\<close>

theorem server_invariant:
  assumes "reachable md5 db port1 port2 sv"
  shows "server_ok {} sv"
  using assms by (rule reachable_ok)

lemma server_invariant_witness: "server_ok {} (ex_connected None)"
proof (rule server_invariant)
  show "reachable (\<lambda>s. s) None 8554 80 (ex_connected None)" unfolding ex_connected_def by (rule step [OF start connect])
qed



text \<open>C17. SETUP opens a session: for a file with a known extension that can be opened, if a pair of ports can be bound, a SETUP
  over UDP without a session is answered with a session of a new name, the ports of the client and those of the server; the session is in the
  table, linked to the media session of the file, and the stream has the address and the ports of the client as the destination
  of that session. The stream is a new one on an even port and the odd port after it, unless the file has one already, which is then shared.
\<close>

theorem setup_opens_a_session:
  assumes "server_ok {} sv" and "connection_at sv c = Some x" and "CmdName info = ''SETUP''" and "SessionIDStr info = []"
    and "clientSessions sv (show_hex8 (w_sessionIDs w j)) = None" and "w_openable w (UrlPreSuffix info)"
    and "Split (UrlPreSuffix info) CHR ''.'' = base # ext # others" and "ext \<in> {''264'', ''ts''}"
    and "StreamingMode (ParseTransportHeader req) = RTP_UDP" and "ClientRTCPPortNum (ParseTransportHeader req) \<noteq> 0"
    and "w_bindable w (6970 + 2 * k)" and "w_bindable w (6970 + 2 * k + 1)"
  shows "\<exists>sv' ident m t after. handleRTSPRequest md5 w c info req sv = Some sv' \<and> clientSessions sv ident = None \<and>
    clientSessions sv' = (clientSessions sv)(ident \<mapsto> next_session sv) \<and> serverMediaSessions sv' (UrlPreSuffix info) = Some m \<and>
    session_at sv' (next_session sv) = Some (set_up_session m after (live_session c ident)) \<and>
    receives (m, 0) ident (remoteAddr x) (ClientRTPPortNum (ParseTransportHeader req)) (ClientRTCPPortNum (ParseTransportHeader req)) sv' \<and>
    stream_of (m, 0) sv' = Some t \<and> made_from w (stream_of_file (UrlPreSuffix info) sv) t \<and>
    map_option responseBuffer (connection_at sv' c) = Some (udp_transport w ident (ClientRTPPortNum (ParseTransportHeader req))
      (ClientRTCPPortNum (ParseTransportHeader req)) (serverRTPPort t) (serverRTCPPort t) (x\<lparr>currentCSeq := Cseq info\<rparr>)) \<and>
    tasks sv' = tasks sv @ [LivenessTask (next_session sv)]"
proof -
  obtain ident where fresh: "freshID (w_sessionIDs w) (clientSessions sv) 0 = Some ident"
    using assms(5) freshID_total [of "clientSessions sv" "w_sessionIDs w" 0 j] by auto
  obtain y where y: "createNewSMS w (UrlPreSuffix info) = Some (Some y)" using createNewSMS_returns [OF assms(7,8)] by blast
  show ?thesis
    using setup_request_runs [OF assms(1-4) fresh assms(6) y assms(9-12), of md5] freshID_fresh [OF fresh] by blast
qed

lemma setup_opens_a_session_witness:
  "\<exists>sv ident m t. handleRTSPRequest (\<lambda>s. s) ex_world 0 (ex_info ''SETUP'' []) ex_request (ex_connected None) = Some sv \<and>
     clientSessions sv ident = Some 0 \<and> receives (m, 0) ident ''10.0.0.2'' 5000 5001 sv \<and> stream_of (m, 0) sv = Some t \<and> new_stream ex_world t"
proof -
  obtain x where x: "connection_at (ex_connected None) 0 = Some x" "remoteAddr x = ''10.0.0.2''" using ex_connected_fields by blast
  have "\<exists>sv' ident m t after. handleRTSPRequest (\<lambda>s. s) ex_world 0 (ex_info ''SETUP'' []) ex_request (ex_connected None) = Some sv' \<and>
    clientSessions (ex_connected None) ident = None \<and>
    clientSessions sv' = (clientSessions (ex_connected None))(ident \<mapsto> next_session (ex_connected None)) \<and>
    serverMediaSessions sv' (UrlPreSuffix (ex_info ''SETUP'' [])) = Some m \<and>
    session_at sv' (next_session (ex_connected None)) = Some (set_up_session m after (live_session 0 ident)) \<and>
    receives (m, 0) ident (remoteAddr x) (ClientRTPPortNum (ParseTransportHeader ex_request)) (ClientRTCPPortNum (ParseTransportHeader ex_request)) sv' \<and>
    stream_of (m, 0) sv' = Some t \<and> made_from ex_world (stream_of_file (UrlPreSuffix (ex_info ''SETUP'' [])) (ex_connected None)) t \<and>
    map_option responseBuffer (connection_at sv' 0) = Some (udp_transport ex_world ident (ClientRTPPortNum (ParseTransportHeader ex_request))
      (ClientRTCPPortNum (ParseTransportHeader ex_request)) (serverRTPPort t) (serverRTCPPort t) (x\<lparr>currentCSeq := Cseq (ex_info ''SETUP'' [])\<rparr>)) \<and>
    tasks sv' = tasks (ex_connected None) @ [LivenessTask (next_session (ex_connected None))]"
    by (rule setup_opens_a_session [OF ex_connected_ok x(1), where j = 0 and base = "''a''" and ext = "''264''" and others = "[]" and k = 1])
      (use ex_file in \<open>simp_all add: ex_info_def ex_transport ex_connected_fields\<close>)
  then obtain sv ident m t where "handleRTSPRequest (\<lambda>s. s) ex_world 0 (ex_info ''SETUP'' []) ex_request (ex_connected None) = Some sv"
      "clientSessions sv ident = Some 0" "receives (m, 0) ident ''10.0.0.2'' 5000 5001 sv" "stream_of (m, 0) sv = Some t" "new_stream ex_world t"
    using x(2) by (auto simp: ex_connected_fields ex_transport made_from_def stream_of_file_def)
  then show ?thesis by blast
qed

lemma play_request_runs:
  assumes "server_ok {} sv" and "connection_at sv c \<noteq> None" and "in_session info a s m sv" and "CmdName info = ''PLAY''"
    and "receives (m, 0) (sessionID s) addr p1 p2 sv" and "stream_of (m, 0) sv = Some t" and "has_sockets t"
  shows "\<exists>sv1 d sink. handleRTSPRequest md5 w c info req sv = Some sv1 \<and> tasks sv1 = tasks sv @ [PlayTask (m, 0) (Some d)] \<and>
    \<not> isTCP d \<and> addrStr d = addr \<and> rtpPort d = p1 \<and> rtcpPort d = p2 \<and>
    stream_of (m, 0) sv1 = Some (t\<lparr>rtpSink := sink\<rparr>) \<and> has_sockets (t\<lparr>rtpSink := sink\<rparr>) \<and> stream_calls sv1 = stream_calls sv \<and>
    (connection s = c \<longrightarrow> (\<exists>url n ts y. connection_at sv1 c = Some (played w (rangeHeaderStr req) (sessionID s) url n ts y) \<and> currentCSeq y = Cseq info))"
proof -
  have play: "CmdName info \<noteq> ''TEARDOWN''" using assms(4) by simp
  obtain sv0 where run: "handleRTSPRequest md5 w c info req sv = handleCommandPlay w a req sv0" and ok0: "server_ok {} sv0"
    and 0: "session_at sv0 = session_at sv" "tasks sv0 = tasks sv" "stream_calls sv0 = stream_calls sv" "stream_of (m, 0) sv0 = Some t"
      "receives (m, 0) (sessionID s) addr p1 p2 sv0" "map_option currentCSeq (connection_at sv0 c) = Some (Cseq info)"
    using in_session_request [OF assms(1-3), of md5 w req, unfolded if_not_P [OF play] if_P [OF assms(4)]] assms(5,6)
    by (elim exE conjE) (rule that, simp_all)
  have s: "session_at sv0 a = Some s" "serverMediaSession s = Some m" using assms(3) 0(1) by (auto simp: in_session_def)
  obtain sv1 d sink where play: "handleCommandPlay w a req sv0 = Some sv1" "tasks sv1 = tasks sv0 @ [PlayTask (m, 0) (Some d)]"
    and d: "\<not> isTCP d" "addrStr d = addr" "rtpPort d = p1" "rtcpPort d = p2"
    and t1: "stream_of (m, 0) sv1 = Some (t\<lparr>rtpSink := sink\<rparr>)" "sink = None \<longleftrightarrow> rtpSink t = None" "stream_calls sv1 = stream_calls sv0"
    and answer: "\<forall>y. connection_at sv0 (connection s) = Some y \<longrightarrow>
      (\<exists>url n ts. connection_at sv1 (connection s) = Some (played w (rangeHeaderStr req) (sessionID s) url n ts y))"
    using play_runs [OF ok0 s 0(5,4), of w req] by (elim exE conjE) (rule that; assumption)
  have "connection s = c \<longrightarrow> (\<exists>url n ts y. connection_at sv1 c = Some (played w (rangeHeaderStr req) (sessionID s) url n ts y) \<and> currentCSeq y = Cseq info)"
  proof
    assume c: "connection s = c"
    obtain y where y: "connection_at sv0 c = Some y" "currentCSeq y = Cseq info" using 0(6) by blast
    then show "\<exists>url n ts y. connection_at sv1 c = Some (played w (rangeHeaderStr req) (sessionID s) url n ts y) \<and> currentCSeq y = Cseq info"
      using answer c by blast
  qed
  moreover have "has_sockets (t\<lparr>rtpSink := sink\<rparr>)" using assms(7) t1(2) by (simp add: has_sockets_def)
  ultimately show ?thesis using run play d t1(1,3) 0(2,3) by (intro exI [of _ sv1] exI [of _ d] exI [of _ sink]) simp
qed



text \<open>C20. TEARDOWN needs a stream that has been started: before the constructor of the stream's RTCP instance has returned, TEARDOWN
  ends the whole program, and so does the TEARDOWN of the session whose TCP stream was the first to be added to the sink. In all other
  cases, which are those of UDP and of the other TCP streams, the session and the media session of the file leave the tables, the
  RTCP socket of the stream is closed for all its clients, and the RTP socket keeps the destination of the client.
\<close>

theorem teardown_needs_a_started_stream:
  assumes "server_ok {} sv" and "connection_at sv c \<noteq> None" and "in_session info a s m sv" and "CmdName info = ''TEARDOWN''"
    and "stream_of (m, 0) sv = Some t" and "map_option streamName (media_at sv m) = Some name"
  shows "if \<not> rtcpInstance t \<or> oldest_tcp (m, 0) (sessionID s) sv then handleRTSPRequest md5 w c info req sv = None
    else \<exists>sv' t'. handleRTSPRequest md5 w c info req sv = Some sv' \<and> clientSessions sv' = (clientSessions sv)(sessionID s := None) \<and>
      serverMediaSessions sv' = (serverMediaSessions sv)(name := None) \<and> stream_of (m, 0) sv' = Some t' \<and> rtpGS t' = rtpGS t \<and>
      map_option gs_open (rtcpGS t') = Some False"
proof -
  obtain sv0 where run: "handleRTSPRequest md5 w c info req sv = handleCommandTearDown w a sv0" and ok0: "server_ok {} sv0"
    and 0: "session_at sv0 = session_at sv" "stream_of (m, 0) sv0 = Some t" "clientSessions sv0 = clientSessions sv"
      "serverMediaSessions sv0 = serverMediaSessions sv" "map_option streamName (media_at sv0 m) = Some name"
      "oldest_tcp (m, 0) (sessionID s) sv0 = oldest_tcp (m, 0) (sessionID s) sv"
    using in_session_request [OF assms(1-3), of md5 w req] assms(4-6) by auto
  have s: "session_at sv0 a = Some s" "serverMediaSession s = Some m" "livenessTimeoutTimer s" using assms(3) 0(1) by (auto simp: in_session_def)
  show ?thesis using teardown_runs [OF ok0 s 0(2,5), of w] run 0(3,4,6) by simp
qed

lemma teardown_needs_a_started_stream_witness:
  "\<exists>sv ident. clientSessions sv ident \<noteq> None \<and> handleRTSPRequest (\<lambda>s. s) ex_world 0 (ex_info ''TEARDOWN'' ident) [] sv = None"
proof -
  have "''TEARDOWN'' \<in> set inSessionCommands" by (simp add: inSessionCommands_def)
  from ex_session [OF this] obtain sv ident s m t where ok: "server_ok {} sv" and c: "connection_at sv 0 \<noteq> None"
    and i: "in_session (ex_info ''TEARDOWN'' ident) 0 s m sv" "stream_of (m, 0) sv = Some t" "new_stream ex_world t" by blast
  have "CmdName (ex_info ''TEARDOWN'' ident) = ''TEARDOWN''" by (simp add: ex_info_def)
  moreover obtain name where "map_option streamName (media_at sv m) = Some name" using i(1) by (auto simp: in_session_def)
  ultimately have "handleRTSPRequest (\<lambda>s. s) ex_world 0 (ex_info ''TEARDOWN'' ident) [] sv = None"
    using teardown_needs_a_started_stream [OF ok c i(1) _ i(2), of name "\<lambda>s. s" ex_world "[]"] i(3) by (simp add: new_stream_def)
  moreover have "clientSessions sv ident \<noteq> None" using i(1) by (simp add: in_session_def ex_info_def)
  ultimately show ?thesis by blast
qed

lemma accepts_nobody:
  assumes "db_wf db"
  shows "\<not> fst (accepts md5 db cmd req d)"
proof -
  have "LookupPassword db [] = []" using assms by (simp add: LookupPassword_def db_wf_def)
  then show ?thesis by (auto simp: accepts_def ParseAuthorizationHeader_def Let_def split: option.splits)
qed

text \<open>C21. Nobody is let in: on a server with a data base of users, in which as in every data base that its operations build no user
  has the empty name, every DESCRIBE is refused with a challenge, whatever authorization it carries, and changes nothing but the
  connection and the counter of the nonces.
\<close>

theorem authentication_is_always_refused:
  assumes "authDatabase sv = Some db" and "db_wf db" and "connection_at sv c = Some x"
  shows "\<exists>d n. handleCommandDescribe md5 w c urlPreSuffix urlSuffix req sv =
    Some (sv\<lparr>nonce_counter := n, connection_at := (connection_at sv)(c \<mapsto> unauthorized w d x)\<rparr>) \<and> dg_Realm d = db_Realm db"
proof -
  obtain ok d where a: "accepts md5 db ''DESCRIPE'' req (digest x) = (ok, d)" by fastforce
  have "\<not> ok" using accepts_nobody [OF assms(2), of md5 "''DESCRIPE''" req "digest x"] a by simp
  moreover obtain d1 n where "RandomNonce md5 (nat (tv_sec (w_now w))) (nat (tv_usec (w_now w))) (nonce_counter sv) (d\<lparr>dg_Realm := db_Realm db\<rparr>) = (d1, n)"
      "dg_Realm d1 = db_Realm db" by (simp add: RandomNonce_def)
  ultimately show ?thesis using assms(1,3) a
    by (simp add: handleCommandDescribe_def authenticationOK_def mod_conn_def Let_def) blast
qed

lemma authentication_is_always_refused_witness:
  "\<exists>d n x. handleCommandDescribe (\<lambda>s. s) ex_world 0 [] ''a.264'' ''Authorization: Digest username=\"admin\"'' (ex_connected (Some (NewAuthDatabase []))) =
    Some ((ex_connected (Some (NewAuthDatabase [])))\<lparr>nonce_counter := n, connection_at :=
      (connection_at (ex_connected (Some (NewAuthDatabase []))))(0 \<mapsto> unauthorized ex_world d x)\<rparr>)"
proof -
  obtain x where x: "connection_at (ex_connected (Some (NewAuthDatabase []))) 0 = Some x" using ex_connected_fields by blast
  from authentication_is_always_refused [OF ex_connected_fields(4) db_wf_ops(1) x] show ?thesis by blast
qed

end
