(* ===== verification/GoScanf.thy ===== *)
theory GoScanf
  imports GoString
begin

text \<open>
  \<open>fmt.Sscanf\<close> and \<open>strconv.Atoi\<close> as the client uses them.

  A format is a list of items. A scan stores into its operands from left to right and stops at the first item that fails; what it
  has stored stays. \<open>sscanf\<close> returns the list of the stored values, so its length is the count that \<open>Sscanf\<close> returns.
  The verbs that \<open>fmt\<close> does not have, or not for the operand (\<open>%[\<close>, \<open>%*\<close>, \<open>%f\<close> for a string), fail: \<open>BadVerb\<close>. White space is
  that of ASCII.
\<close>

datatype scan_item =
    Text string
  | Blanks
  | Verb_s
  | Verb_d_uint nat
  | Verb_d_int
  | BadVerb

datatype scanned = Str string | Num nat | SInt int

text \<open>White space before a verb; a line end there is an error.\<close>

definition before_verb :: "string \<Rightarrow> string option" where
  "before_verb s = (let t = skip_space s in if t \<noteq> [] \<and> (hd t = cr \<or> hd t = lf) then None else Some t)"

definition match_blanks :: "string \<Rightarrow> string option" where
  "match_blanks s =
     (case s of
        [] \<Rightarrow> Some []
      | c # _ \<Rightarrow> if ascii_space c \<and> c \<noteq> lf then Some (dropWhile (\<lambda>c. ascii_space c \<and> c \<noteq> lf) s) else None)"

definition read_int :: "string \<Rightarrow> int option" where
  "read_int t =
     (let neg = (t \<noteq> [] \<and> hd t = CHR ''-''); ds = (if t \<noteq> [] \<and> (hd t = CHR ''-'' \<or> hd t = CHR ''+'') then tl t else t); n = int (read_nat ds)
      in if ds = [] \<or> \<not> list_all is_digit ds then None
         else if neg then (if n \<le> 2 ^ 63 then Some (- n) else None) else (if n < 2 ^ 63 then Some n else None))"

definition Atoi :: "string \<Rightarrow> int option" where
  "Atoi t = read_int t"

text \<open>The sign and the digits of a number.\<close>

definition int_token :: "string \<Rightarrow> string" where
  "int_token t = (if t \<noteq> [] \<and> (hd t = CHR ''-'' \<or> hd t = CHR ''+'') then [hd t] @ takeWhile is_digit (tl t) else takeWhile is_digit t)"

fun sscanf :: "scan_item list \<Rightarrow> string \<Rightarrow> scanned list" where
  "sscanf [] s = []"
| "sscanf (Text l # fmt) s = (case scan_lit l s of None \<Rightarrow> [] | Some r \<Rightarrow> sscanf fmt r)"
| "sscanf (Blanks # fmt) s = (case match_blanks s of None \<Rightarrow> [] | Some r \<Rightarrow> sscanf fmt r)"
| "sscanf (Verb_s # fmt) s =
     (case before_verb s of
        None \<Rightarrow> []
      | Some [] \<Rightarrow> []
      | Some (c # t) \<Rightarrow>
          Str (takeWhile (\<lambda>c. \<not> ascii_space c) (c # t)) # sscanf fmt (dropWhile (\<lambda>c. \<not> ascii_space c) (c # t)))"
| "sscanf (Verb_d_uint w # fmt) s =
     (case before_verb s of
        None \<Rightarrow> []
      | Some t \<Rightarrow>
          (let ds = takeWhile is_digit t
           in if ds = [] \<or> read_nat ds \<ge> 2 ^ w then [] else Num (read_nat ds) # sscanf fmt (dropWhile is_digit t)))"
| "sscanf (Verb_d_int # fmt) s =
     (case before_verb s of
        None \<Rightarrow> []
      | Some t \<Rightarrow>
          (case read_int (int_token t) of
             None \<Rightarrow> []
           | Some i \<Rightarrow> SInt i # sscanf fmt (drop (length (int_token t)) t)))"
| "sscanf (BadVerb # fmt) s = []"

section \<open>Reading what was printed\<close>

lemma not_space_skip: "\<not> ascii_space c \<Longrightarrow> skip_space (c # s) = c # s"
  by (auto simp: ascii_space_def Let_def)

lemma ascii_space_blank: "ascii_space CHR '' ''" "\<not> ascii_space CHR ''-''"
  by (simp_all add: ascii_space_def)

lemma digit_not_space: "is_digit c \<Longrightarrow> \<not> ascii_space c"
  by (auto simp: is_digit_def ascii_space_def Let_def)

lemma line_end_space: "ascii_space cr" "ascii_space lf"
  by (simp_all add: ascii_space_def cr_def lf_def)

lemma before_verb_plain: "s \<noteq> [] \<Longrightarrow> \<not> ascii_space (hd s) \<Longrightarrow> before_verb s = Some s"
  using line_end_space by (cases s) (auto simp: before_verb_def not_space_skip simp del: skip_space.simps)

lemma match_blanks_one: "rest = [] \<or> \<not> ascii_space (hd rest) \<Longrightarrow> match_blanks (CHR '' '' # rest) = Some rest"
  by (cases rest) (simp_all add: match_blanks_def ascii_space_blank lf_def)

lemma sscanf_s:
  assumes "tok \<noteq> []" and "\<forall>c \<in> set tok. \<not> ascii_space c" and "rest = [] \<or> ascii_space (hd rest)"
  shows "sscanf (Verb_s # fmt) (tok @ rest) = Str tok # sscanf fmt rest"
proof -
  obtain c t where c: "tok = c # t" using assms(1) by (cases tok) auto
  have "before_verb (tok @ rest) = Some (tok @ rest)" using assms(1,2) c by (intro before_verb_plain) auto
  moreover have "takeWhile (\<lambda>c. \<not> ascii_space c) (tok @ rest) = tok" "dropWhile (\<lambda>c. \<not> ascii_space c) (tok @ rest) = rest"
    using assms(2,3) by (cases rest; simp)+
  ultimately show ?thesis using c by simp
qed

lemma sscanf_uint:
  assumes "n < 2 ^ w" and "rest = [] \<or> \<not> is_digit (hd rest)"
  shows "sscanf (Verb_d_uint w # fmt) (show_nat n @ rest) = Num n # sscanf fmt rest"
proof -
  have d: "\<forall>x \<in> set (show_nat n). is_digit x" by (rule show_nat_digits)
  then have "before_verb (show_nat n @ rest) = Some (show_nat n @ rest)"
    using show_nat_nonempty [of n] digit_not_space by (intro before_verb_plain) (auto simp: hd_append)
  moreover have "takeWhile is_digit (show_nat n @ rest) = show_nat n" "dropWhile is_digit (show_nat n @ rest) = rest"
    using d assms(2) by (cases rest; simp)+
  ultimately show ?thesis using assms(1) by (simp add: show_nat_nonempty)
qed

lemma read_int_show: "n < 2 ^ 63 \<Longrightarrow> read_int (show_nat n) = Some (int n)"
proof -
  assume n: "n < 2 ^ 63"
  have d: "\<forall>x \<in> set (show_nat n). is_digit x" "show_nat n \<noteq> []" by (rule show_nat_digits, rule show_nat_nonempty)
  then have "is_digit (hd (show_nat n))" by simp
  then have "hd (show_nat n) \<noteq> CHR ''-''" "hd (show_nat n) \<noteq> CHR ''+''" by (auto simp: is_digit_def)
  moreover have "list_all is_digit (show_nat n)" using d by (simp add: list_all_iff)
  moreover have "int n < 2 ^ 63" using n by simp
  ultimately show ?thesis using d(2) by (simp add: read_int_def Let_def)
qed

end
