(* ===== verification/ClientMedia.thy ===== *)
theory ClientMedia
  imports MediaSession GoScanf
begin

text \<open>
  \<^verbatim>\<open>livemedia/media_session.go\<close>: the media session of a client, made from a description in SDP.

  A media session owns its subsessions; the pointer of a subsession to its session is the session that holds it. The field
  \<open>RTPSource\<close> of a subsession is never anything but nil and has no counterpart. \<open>None\<close> is a call that does not return; the
  result \<open>None\<close> inside it is the nil that the code returns.
\<close>

section \<open>State\<close>

datatype ReadSource = BasicUDPSource | H264VideoRTPSource u32 u32

record MediaSubsession =
  rtpSocket :: "GroupSock option"
  rtcpSocket :: "GroupSock option"
  readSource :: "ReadSource option"
  rtcpBandwidth :: "nat option"
  hasSink :: bool
  numChannels :: u32
  rtpChannelID :: nat
  rtcpChannelID :: nat
  rtpPayloadFormat :: u32
  rtpTimestampFrequency :: u32
  clientPortNum :: nat
  serverPortNum :: nat
  bandWidth :: nat
  videoWidth :: nat
  videoHeight :: nat
  sessionID :: string
  protocolName :: string
  controlPath :: string
  savedSDPLines :: string
  mediumName :: string
  codecName :: string
  absStartTime :: string
  absEndTime :: string
  connectionEndpointName :: string

definition NewMediaSubsession :: MediaSubsession where
  "NewMediaSubsession =
     \<lparr>rtpSocket = None, rtcpSocket = None, readSource = None, rtcpBandwidth = None, hasSink = False, numChannels = 0, rtpChannelID = 0,
      rtcpChannelID = 0, rtpPayloadFormat = 0, rtpTimestampFrequency = 0, clientPortNum = 0, serverPortNum = 0, bandWidth = 0,
      videoWidth = 0, videoHeight = 0, sessionID = [], protocolName = [], controlPath = [], savedSDPLines = [], mediumName = [],
      codecName = [], absStartTime = [], absEndTime = [], connectionEndpointName = []\<rparr>"

record MediaSession =
  cname :: string
  sessionName :: string
  ms_controlPath :: string
  ms_absStartTime :: string
  ms_absEndTime :: string
  mediaSessionType :: string
  sessionDescription :: string
  ms_connectionEndpointName :: string
  subsessionNum :: nat
  subsessionIndex :: nat
  mediaSubsessions :: "MediaSubsession option list"

section \<open>Lines\<close>

definition eol :: "char \<Rightarrow> bool" where
  "eol c \<longleftrightarrow> c = cr \<or> c = lf"

definition is_lower :: "char \<Rightarrow> bool" where
  "is_lower c = (let n = of_char c :: nat in 97 \<le> n \<and> n \<le> 122)"

text \<open>
  The line, and what follows it and its line ends. Two characters are taken off for the line end, whatever it is. Without a line end
  there is no line.
\<close>

definition parseSDPLine :: "string \<Rightarrow> (string \<times> string \<times> bool) option" where
  "parseSDPLine input = do {
     let rest = dropWhile eol (dropWhile (\<lambda>c. \<not> eol c) input);
     let i = length input - length rest;
     (next, this) \<leftarrow> (if \<forall>c \<in> set input. \<not> eol c then Some ([], []) else if i < 2 then None else Some (rest, take (i - 2) input));
     Some (next, this, 2 \<le> length this \<and> this ! 1 = CHR ''='' \<and> is_lower (this ! 0))
   }"

definition parseCLine :: "string \<Rightarrow> string" where
  "parseCLine l = (case sscanf [Text ''c=IN'', Blanks, Text ''IP4'', Blanks, Verb_s] l of [Str s] \<Rightarrow> s | _ \<Rightarrow> [])"

text \<open>The range of times: the verbs fail before anything is stored, so that no time is ever read.\<close>

definition parseRangeAttribute :: "string \<Rightarrow> string \<Rightarrow> string \<times> string \<times> bool" where
  "parseRangeAttribute l kind =
     (if kind = ''npt'' then
        let r = sscanf [Text ''a=range:'', Blanks, Text ''npt'', Blanks, Text ''='', Blanks, BadVerb] l in ([], [], length r = 2)
      else if kind = ''clock'' then
        let r = sscanf [Text ''a=range:'', Blanks, Text ''clock'', Blanks, Text ''='', Blanks, BadVerb] l in ([], [], length r = 2 \<or> length r = 1)
      else ([], [], False))"

definition parseSourceFilterAttribute :: "string \<Rightarrow> bool" where
  "parseSourceFilterAttribute l =
     (length (sscanf [Text ''a=source-filter:'', Blanks, Text ''incl'', Blanks, Text ''IN'', Blanks, Text ''IP4'', Blanks, BadVerb] l) = 1)"

text \<open>The parsers of a line are tried in turn until one accepts it.\<close>

fun try_parsers :: "(string \<Rightarrow> 's \<Rightarrow> bool \<times> 's) list \<Rightarrow> string \<Rightarrow> 's \<Rightarrow> 's" where
  "try_parsers [] l s = s"
| "try_parsers (p # ps) l s = (let (ok, s1) = p l s in if ok then s1 else try_parsers ps l s1)"

section \<open>Lines of the session\<close>

definition parseSDPLineS :: "string \<Rightarrow> MediaSession \<Rightarrow> bool \<times> MediaSession" where
  "parseSDPLineS l s = (if l ! 0 = CHR ''s'' \<and> l ! 1 = CHR ''='' then (True, s\<lparr>sessionName := drop 2 l\<rparr>) else (False, s))"

definition parseSDPLineI :: "string \<Rightarrow> MediaSession \<Rightarrow> bool \<times> MediaSession" where
  "parseSDPLineI l s = (if l ! 0 = CHR ''i'' \<and> l ! 1 = CHR ''='' then (True, s\<lparr>sessionDescription := drop 2 l\<rparr>) else (False, s))"

definition session_parseSDPLineC :: "string \<Rightarrow> MediaSession \<Rightarrow> bool \<times> MediaSession" where
  "session_parseSDPLineC l s = (let name = parseCLine l in if name \<noteq> [] then (True, s\<lparr>ms_connectionEndpointName := name\<rparr>) else (False, s))"

definition session_parseSDPAttributeControl :: "string \<Rightarrow> MediaSession \<Rightarrow> bool \<times> MediaSession" where
  "session_parseSDPAttributeControl l s = (if prefix ''a=control:'' l then (True, s\<lparr>ms_controlPath := drop 10 l\<rparr>) else (False, s))"

definition session_parseSDPAttributeRange :: "string \<Rightarrow> MediaSession \<Rightarrow> bool \<times> MediaSession" where
  "session_parseSDPAttributeRange l s =
     (if snd (snd (parseRangeAttribute l ''npt'')) then (True, s)
      else let (t1, t2, ok) = parseRangeAttribute l ''clock'' in (ok, s\<lparr>ms_absStartTime := t1, ms_absEndTime := t2\<rparr>))"

definition parseSDPAttributeType :: "string \<Rightarrow> MediaSession \<Rightarrow> bool \<times> MediaSession" where
  "parseSDPAttributeType l s =
     (case sscanf [Text ''a=type:'', Blanks, BadVerb] l of [Str t] \<Rightarrow> (True, s\<lparr>mediaSessionType := t\<rparr>) | _ \<Rightarrow> (False, s))"

definition session_parseSDPAttributeSourceFilter :: "string \<Rightarrow> MediaSession \<Rightarrow> bool \<times> MediaSession" where
  "session_parseSDPAttributeSourceFilter l s = (parseSourceFilterAttribute l, s)"

definition session_line :: "string \<Rightarrow> MediaSession \<Rightarrow> MediaSession" where
  "session_line =
     try_parsers [parseSDPLineS, parseSDPLineI, session_parseSDPLineC, session_parseSDPAttributeControl, session_parseSDPAttributeRange,
       parseSDPAttributeType, session_parseSDPAttributeSourceFilter]"

lemma parseSDPLine_shorter: "parseSDPLine input = Some (next, this, True) \<Longrightarrow> length next < length input"
proof -
  assume a: "parseSDPLine input = Some (next, this, True)"
  have "\<not> (\<forall>c \<in> set input. \<not> eol c)"
  proof
    assume "\<forall>c \<in> set input. \<not> eol c"
    then show False using a by (simp add: parseSDPLine_def Let_def)
  qed
  then have n: "next = dropWhile eol (dropWhile (\<lambda>c. \<not> eol c) input)" and "\<exists>c \<in> set input. eol c"
    using a by (auto simp: parseSDPLine_def Let_def bind_simps split: if_splits)
  then obtain c r where c: "dropWhile (\<lambda>c. \<not> eol c) input = c # r"
    by (cases "dropWhile (\<lambda>c. \<not> eol c) input") (auto simp: dropWhile_eq_Nil_conv)
  then have "eol c" by (metis (mono_tags, lifting) hd_dropWhile list.sel(1) list.distinct(1))
  then have "length next \<le> length r" using n c by (simp add: length_dropWhile_le)
  moreover have "length (c # r) \<le> length input" unfolding c [symmetric] by (rule length_dropWhile_le)
  ultimately show ?thesis by simp
qed

text \<open>
  The lines up to the first m= line, which is returned with what follows it. If there is none, the last line is, with nothing after it.
  The result \<open>None\<close> inside is a line that is not valid.
\<close>

function session_lines :: "string \<Rightarrow> MediaSession \<Rightarrow> (string \<times> string \<times> MediaSession) option option" where
  "session_lines sdp s =
     (case parseSDPLine sdp of
        None \<Rightarrow> None
      | Some (next, this, ok) \<Rightarrow>
          if \<not> ok then Some None
          else if this ! 0 = CHR ''m'' \<or> next = [] then Some (Some (next, this, s))
          else session_lines next (session_line this s))"
  by auto
termination by (relation "measure (\<lambda>(sdp, s). length sdp)") (auto dest: parseSDPLine_shorter)

declare session_lines.simps [simp del]

section \<open>Lines of a subsession\<close>

definition parseSDPLineC :: "string \<Rightarrow> MediaSubsession \<Rightarrow> bool \<times> MediaSubsession" where
  "parseSDPLineC l s = (let name = parseCLine l in if name \<noteq> [] then (True, s\<lparr>connectionEndpointName := name\<rparr>) else (False, s))"

definition parseSDPLineB :: "string \<Rightarrow> MediaSubsession \<Rightarrow> bool \<times> MediaSubsession" where
  "parseSDPLineB l s = (case sscanf [Text ''b=AS:'', Verb_d_uint 64] l of [Num n] \<Rightarrow> (True, s\<lparr>bandWidth := n\<rparr>) | _ \<Rightarrow> (False, s))"

text \<open>What one round of the loop stores, and whether it goes on with the next one.\<close>

definition rtpmap_round :: "string \<Rightarrow> MediaSubsession \<Rightarrow> bool \<times> MediaSubsession" where
  "rtpmap_round l s =
     (case Split l CHR '' '' of
        [f1, f2] \<Rightarrow>
          (case Atoi f1 of
             None \<Rightarrow> (False, s)
           | Some n \<Rightarrow>
               let s1 = s\<lparr>rtpPayloadFormat := word_of_int n\<rparr>
               in (case Split f2 CHR ''/'' of
                     [v1, v2] \<Rightarrow>
                       let s2 = s1\<lparr>codecName := v1\<rparr>
                       in (case Atoi v2 of
                             None \<Rightarrow> (False, s2)
                           | Some freq \<Rightarrow> (True, s2\<lparr>rtpTimestampFrequency := word_of_int freq, numChannels := 1\<rparr>))
                   | _ \<Rightarrow> (False, s1)))
      | _ \<Rightarrow> (False, s))"

function rtpmap_loop :: "bool \<Rightarrow> string \<Rightarrow> MediaSubsession \<Rightarrow> bool \<times> MediaSubsession" where
  "rtpmap_loop success l s =
     (if \<not> prefix ''a=rtpmap:'' l then (success, s)
      else let l1 = TrimSpace (drop 9 l); (ok, s1) = rtpmap_round l1 s in if ok then rtpmap_loop True l1 s1 else (success, s1))"
  by auto
termination
proof (relation "measure (\<lambda>(success, l, s). length l)")
  fix l l1 :: string
  assume "\<not> \<not> prefix ''a=rtpmap:'' l" and l1: "l1 = TrimSpace (drop 9 l)"
  then have "0 < length l" by auto
  moreover have "length l1 \<le> length (drop 9 l)"
    unfolding l1 TrimSpace_def by (metis le_trans length_dropWhile_le length_rev)
  ultimately have "length l1 < length l" unfolding length_drop by arith
  then show "((b, l1, s), (success, l, s')) \<in> measure (\<lambda>(success, l, s). length l)" for b success s s' by auto
qed simp

declare rtpmap_loop.simps [simp del]

definition parseSDPAttributeRtpmap :: "string \<Rightarrow> MediaSubsession \<Rightarrow> bool \<times> MediaSubsession" where
  "parseSDPAttributeRtpmap l s = rtpmap_loop False l s"

definition parseSDPAttributeControl :: "string \<Rightarrow> MediaSubsession \<Rightarrow> bool \<times> MediaSubsession" where
  "parseSDPAttributeControl l s = (if prefix ''a=control:'' l then (True, s\<lparr>controlPath := drop 10 l\<rparr>) else (False, s))"

definition parseSDPAttributeRange :: "string \<Rightarrow> MediaSubsession \<Rightarrow> bool \<times> MediaSubsession" where
  "parseSDPAttributeRange l s =
     (if snd (snd (parseRangeAttribute l ''npt'')) then (True, s)
      else let (t1, t2, ok) = parseRangeAttribute l ''clock'' in (ok, s\<lparr>absStartTime := t1, absEndTime := t2\<rparr>))"

definition parseSDPAttributeFmtp :: "string \<Rightarrow> MediaSubsession \<Rightarrow> bool \<times> MediaSubsession" where
  "parseSDPAttributeFmtp l s = (True, s)"

definition parseSDPAttributeSourceFilter :: "string \<Rightarrow> MediaSubsession \<Rightarrow> bool \<times> MediaSubsession" where
  "parseSDPAttributeSourceFilter l s = (parseSourceFilterAttribute l, s)"

definition parseSDPAttributeXDimensions :: "string \<Rightarrow> MediaSubsession \<Rightarrow> bool \<times> MediaSubsession" where
  "parseSDPAttributeXDimensions l s =
     (case sscanf [Text ''a=x-dimensions:'', Verb_d_uint 64, Text '','', Verb_d_uint 64] l of
        [Num w, Num h] \<Rightarrow> (True, s\<lparr>videoWidth := w, videoHeight := h\<rparr>) | _ \<Rightarrow> (False, s))"

text \<open>
  The parser of the fmtp line accepts every line, so that the one of the frame rate, the last of the list, is never reached; it
  is left out.
\<close>

definition subsession_line :: "string \<Rightarrow> MediaSubsession \<Rightarrow> MediaSubsession" where
  "subsession_line =
     try_parsers [parseSDPLineC, parseSDPLineB, parseSDPAttributeRtpmap, parseSDPAttributeControl, parseSDPAttributeRange, parseSDPAttributeFmtp,
       parseSDPAttributeSourceFilter, parseSDPAttributeXDimensions]"

text \<open>The lines up to the next m= line.\<close>

function subsession_lines :: "string \<Rightarrow> MediaSubsession \<Rightarrow> MediaSubsession option option" where
  "subsession_lines sdp s =
     (if sdp = [] then Some (Some s)
      else case parseSDPLine sdp of
        None \<Rightarrow> None
      | Some (next, this, ok) \<Rightarrow>
          if \<not> ok then Some None
          else if this ! 0 = CHR ''m'' then Some (Some s)
          else subsession_lines next (subsession_line this s))"
  by auto
termination by (relation "measure (\<lambda>(sdp, s). length sdp)") (auto dest: parseSDPLine_shorter)

declare subsession_lines.simps [simp del]

section \<open>Payload formats\<close>

definition static_formats :: "(nat \<times> string \<times> nat \<times> nat) list" where
  "static_formats =
     [(0, ''PCMU'', 8000, 1), (2, ''G726-32'', 8000, 1), (3, ''GSM'', 8000, 1), (4, ''G723'', 8000, 1), (5, ''DVI4'', 8000, 1),
      (6, ''DVI4'', 16000, 1), (7, ''LPC'', 8000, 1), (8, ''PCMA'', 8000, 1), (9, ''G722'', 8000, 1), (10, ''L16'', 44100, 2),
      (11, ''L16'', 44100, 1), (12, ''QCELP'', 8000, 1), (14, ''MPA'', 90000, 1), (15, ''G728'', 8000, 1), (16, ''DVI4'', 11025, 1),
      (17, ''DVI4'', 22050, 1), (18, ''G729'', 8000, 1), (25, ''CELB'', 90000, 1), (26, ''JPEG'', 90000, 1), (28, ''NV'', 90000, 1),
      (31, ''H261'', 90000, 1), (32, ''MPV'', 90000, 1), (33, ''MP2T'', 90000, 1), (34, ''H263'', 90000, 1)]"

definition lookupPayloadFormat :: "u32 \<Rightarrow> string \<times> u32 \<times> u32" where
  "lookupPayloadFormat payloadType =
     (case map_of static_formats (unat payloadType) of None \<Rightarrow> ([], 0, 0) | Some (name, freq, ch) \<Rightarrow> (name, word_of_nat freq, word_of_nat ch))"

definition guessRTPTimestampFrequency :: "string \<Rightarrow> string \<Rightarrow> u32" where
  "guessRTPTimestampFrequency medium codec =
     (if EqualFold codec ''L16'' then 44100
      else if EqualFold codec ''MPA'' \<or> EqualFold codec ''MPA-ROBUST'' \<or> EqualFold codec ''X-MP3-DRAFT-00'' then 90000
      else if EqualFold medium ''video'' then 90000
      else if EqualFold medium ''text'' then 1000
      else 8000)"

section \<open>The session\<close>

text \<open>
  The five forms of an m= line are scanned one after the other into the same variables. The first is RTP; the second has a verb that
  fails; the others are for raw UDP.
\<close>

definition m_forms :: "scan_item list list" where
  "m_forms =
     [[Text ''m='', Verb_s, Blanks, Verb_d_uint 64, Blanks, Text ''RTP/AVP'', Blanks, Verb_d_uint 32],
      [Text ''m='', Verb_s, Blanks, Verb_d_uint 64, Text ''/'', BadVerb],
      [Text ''m='', Verb_s, Blanks, Verb_d_uint 64, Blanks, Text ''UDP'', Blanks, Verb_d_uint 32],
      [Text ''m='', Verb_s, Blanks, Verb_d_uint 64, Blanks, Text ''udp'', Blanks, Verb_d_uint 32],
      [Text ''m='', Verb_s, Blanks, Verb_d_uint 64, Blanks, Text ''RAW/RAW/UDP'', Blanks, Verb_d_uint 32]]"

fun m_store :: "scanned list \<Rightarrow> string \<times> nat \<times> nat \<Rightarrow> string \<times> nat \<times> nat" where
  "m_store (Str medium # Num port # Num fmt # _) _ = (medium, port, fmt)"
| "m_store (Str medium # Num port # _) (_, _, fmt) = (medium, port, fmt)"
| "m_store (Str medium # _) (_, port, fmt) = (medium, port, fmt)"
| "m_store _ v = v"

definition parse_m_line :: "string \<Rightarrow> string \<times> nat \<times> nat \<times> string" where
  "parse_m_line l =
     (let rs = map (\<lambda>form. sscanf form l) m_forms;
          (medium, port, fmt) = fold m_store rs ([], 0, 0);
          n = (\<lambda>i. length (rs ! i));
          protocol = (if (n 0 = 3 \<or> n 1 = 3) \<and> fmt \<le> 127 then ''RTP'' else if (n 2 = 3 \<or> n 3 = 3 \<or> n 4 = 3) \<and> fmt \<le> 127 then ''UDP'' else [])
      in (medium, port, fmt, protocol))"

text \<open>The codec and the clock rate of a subsession whose lines have not said them.\<close>

definition complete_subsession :: "MediaSubsession \<Rightarrow> MediaSubsession" where
  "complete_subsession s =
     (let s1 = (if codecName s = [] then let (name, freq, ch) = lookupPayloadFormat (rtpPayloadFormat s)
                                         in s\<lparr>codecName := name, rtpTimestampFrequency := freq, numChannels := ch\<rparr> else s)
      in if rtpTimestampFrequency s1 = 0 then s1\<lparr>rtpTimestampFrequency := guessRTPTimestampFrequency (mediumName s1) (codecName s1)\<rparr> else s1)"

text \<open>Only one subsession is made: the loop over them ends after its first round.\<close>

definition initWithSDP :: "string \<Rightarrow> MediaSession \<Rightarrow> (bool \<times> MediaSession) option" where
  "initWithSDP sdp s =
     (if sdp = [] then Some (False, s)
      else do {
        found \<leftarrow> session_lines sdp s;
        (case found of
           None \<Rightarrow> Some (False, s)
         | Some (next, this, s1) \<Rightarrow> do {
             let (medium, port, fmt, protocol) = parse_m_line this;
             let sub = NewMediaSubsession\<lparr>clientPortNum := port, serverPortNum := port, savedSDPLines := next, mediumName := medium,
                         protocolName := protocol, rtpPayloadFormat := word_of_nat fmt\<rparr>;
             read \<leftarrow> subsession_lines next sub;
             (case read of
                None \<Rightarrow> Some (False, s1)
              | Some sub1 \<Rightarrow> do {
                  l \<leftarrow> put (mediaSubsessions s1) (subsessionNum s1) (Some (complete_subsession sub1));
                  Some (True, s1\<lparr>mediaSubsessions := l, subsessionNum := subsessionNum s1 + 1\<rparr>)
                })
           })
      })"

definition NewMediaSession :: "string \<Rightarrow> string \<Rightarrow> MediaSession option option" where
  "NewMediaSession hostname sdpDesc = do {
     (ok, s) \<leftarrow> initWithSDP sdpDesc
       \<lparr>cname = hostname, sessionName = [], ms_controlPath = [], ms_absStartTime = [], ms_absEndTime = [], mediaSessionType = [],
        sessionDescription = [], ms_connectionEndpointName = [], subsessionNum = 0, subsessionIndex = 0,
        mediaSubsessions = replicate 1024 None\<rparr>;
     Some (if ok then Some s else None)
   }"

definition HasSubsessions :: "MediaSession \<Rightarrow> bool" where
  "HasSubsessions s = (length (mediaSubsessions s) > 0)"

text \<open>The next subsession: its index, if there is one.\<close>

definition Subsession :: "MediaSession \<Rightarrow> (nat option \<times> MediaSession) option" where
  "Subsession s = do {
     entry \<leftarrow> idx (mediaSubsessions s) (subsessionIndex s);
     Some (if entry = None then None else Some (subsessionIndex s), s\<lparr>subsessionIndex := subsessionIndex s + 1\<rparr>)
   }"

section \<open>Initiating a subsession\<close>

text \<open>
  \<open>ports i\<close> is the port that the system gives to the \<open>i\<close>-th socket that is asked for, if it can be made; \<open>bindable\<close> says which
  ports can be bound for RTCP. Ports are taken until one is even. The search ends with success or failure.
\<close>

partial_function (option) initiate_sockets ::
  "(nat \<Rightarrow> nat option) \<Rightarrow> (nat \<Rightarrow> bool) \<Rightarrow> nat \<Rightarrow> MediaSubsession \<Rightarrow> (bool \<times> MediaSubsession) option" where
  "initiate_sockets ports bindable i s =
     (case ports i of
        None \<Rightarrow> Some (False, s\<lparr>rtpSocket := None\<rparr>)
      | Some p \<Rightarrow>
          let g = \<lparr>portNum = 0, gs_open = True, dests = []\<rparr>; s1 = s\<lparr>rtpSocket := Some g\<rparr>
          in if p = 0 then Some (False, s1)
             else if odd p then initiate_sockets ports bindable (i + 1) (s1\<lparr>rtpSocket := Some (Close g)\<rparr>)
             else if bindable (p + 1)
             then Some (True, s1\<lparr>clientPortNum := p, rtcpSocket := Some \<lparr>portNum = p + 1, gs_open = True, dests = []\<rparr>\<rparr>)
             else Some (False, s1\<lparr>clientPortNum := p, rtcpSocket := None\<rparr>))"

definition createSourceObject :: "MediaSubsession \<Rightarrow> MediaSubsession" where
  "createSourceObject s =
     (if EqualFold (protocolName s) ''UDP'' then s\<lparr>readSource := Some BasicUDPSource\<rparr>
      else if codecName s = ''H264'' then s\<lparr>readSource := Some (H264VideoRTPSource (rtpPayloadFormat s) (rtpTimestampFrequency s))\<rparr>
      else s)"

text \<open>
  The constructor of the RTCP instance runs within \<open>Initiate\<close>: it may send a report, and it sleeps, for the nanoseconds given, before
  \<open>Initiate\<close> returns. The instance has neither a sink nor a source, for the field \<open>RTPSource\<close> is nil.
\<close>

datatype rtcp_call = ReportSent bytes | Slept int

definition rtcp_calls :: "bytes option \<Rightarrow> int option \<Rightarrow> rtcp_call list" where
  "rtcp_calls report sleep = (case report of None \<Rightarrow> [] | Some d \<Rightarrow> [ReportSent d]) @ (case sleep of None \<Rightarrow> [] | Some ns \<Rightarrow> [Slept ns])"

definition Initiate ::
  "(nat \<Rightarrow> nat option) \<Rightarrow> (nat \<Rightarrow> bool) \<Rightarrow> timeval \<Rightarrow> int \<Rightarrow> int \<Rightarrow> string \<Rightarrow> MediaSubsession \<Rightarrow>
     (bool \<times> rtcp_call list \<times> MediaSubsession) option" where
  "Initiate ports bindable timeNow random random' name s =
     (if readSource s \<noteq> None then Some (True, [], s)
      else if codecName s = [] then Some (False, [], s)
      else do {
        (success, s1) \<leftarrow> initiate_sockets ports bindable 0 s;
        if \<not> success
        then Some (False, [], s1\<lparr>rtpSocket := map_option Close (rtpSocket s1), rtcpSocket := map_option Close (rtcpSocket s1)\<rparr>)
        else
          let s2 = createSourceObject s1
          in if readSource s2 = None then Some (False, [], s2)
             else do {
               let bandwidth = (if bandWidth s2 \<noteq> 0 then bandWidth s2 + bandWidth s2 div 20 else 500);
               (report, sleep, _) \<leftarrow> newRTCPInstance timeNow [] random random' bandwidth name None None;
               Some (True, rtcp_calls report sleep, s2\<lparr>rtcpBandwidth := Some bandwidth\<rparr>)
             }
      })"

end
