(* ===== verification/Descriptions.thy ===== *)
theory Descriptions
  imports ClientMedia
begin

text \<open>
  The description that the server makes of a file, and what the client reads from it: the lines of a text in SDP one by one, the
  effect of each line, and the two sides together.
\<close>

section \<open>Texts of lines\<close>

definition plain :: "string \<Rightarrow> bool" where
  "plain s \<longleftrightarrow> (\<forall>c \<in> set s. \<not> eol c)"

definition valid_line :: "string \<Rightarrow> bool" where
  "valid_line l \<longleftrightarrow> plain l \<and> 2 \<le> length l \<and> l ! 1 = CHR ''='' \<and> is_lower (l ! 0)"

definition sdp_text :: "string list \<Rightarrow> string" where
  "sdp_text ls = concat (map (\<lambda>l. l @ crlf) ls)"

lemma sdp_text_simps [simp]: "sdp_text [] = []" "sdp_text (l # ls) = l @ crlf @ sdp_text ls" "sdp_text (ls @ ls') = sdp_text ls @ sdp_text ls'"
  by (simp_all add: sdp_text_def)

lemma plain_simps [simp]: "plain []" "plain (c # s) \<longleftrightarrow> \<not> eol c \<and> plain s" "plain (s @ t) \<longleftrightarrow> plain s \<and> plain t"
  by (simp_all add: plain_def ball_Un)

lemma is_digit_not_eol: "is_digit c \<Longrightarrow> \<not> eol c"
  by (auto simp: is_digit_def eol_def cr_def lf_def)

lemma plain_digits [simp]: "plain (show_nat n)" "plain (show_padded k n)" "plain (show_int i)"
proof -
  show *: "plain (show_nat n)" for n using show_nat_digits [of n] is_digit_not_eol by (auto simp: plain_def)
  have "plain (replicate j CHR ''0'')" for j by (induction j) (simp_all add: eol_def cr_def lf_def)
  then show "plain (show_padded k n)" by (simp add: show_padded_def Let_def *)
  show "plain (show_int i)" by (simp add: show_int_def * eol_def cr_def lf_def)
qed

lemma valid_line_start:
  assumes "valid_line l"
  shows "l \<noteq> []" "\<not> eol (hd (l @ rest))"
  using assms by (cases l; auto simp: valid_line_def)+

lemma text_start: "(\<forall>l \<in> set ls. valid_line l) \<Longrightarrow> rest = [] \<or> \<not> eol (hd rest) \<Longrightarrow> sdp_text ls @ rest = [] \<or> \<not> eol (hd (sdp_text ls @ rest))"
  using valid_line_start by (cases ls) auto

lemma parseSDPLine_line:
  assumes "valid_line l" and "rest = [] \<or> \<not> eol (hd rest)"
  shows "parseSDPLine (l @ crlf @ rest) = Some (rest, l, True)"
proof -
  have l: "\<forall>c \<in> set l. \<not> eol c" "2 \<le> length l" using assms(1) by (simp_all add: valid_line_def plain_def)
  have e: "eol cr" "eol lf" by (simp_all add: eol_def)
  have "dropWhile (\<lambda>c. \<not> eol c) (l @ crlf @ rest) = crlf @ rest" using l e by (simp add: crlf_def)
  moreover have "dropWhile eol (crlf @ rest) = rest" using e assms(2) by (cases rest) (auto simp: crlf_def)
  ultimately show ?thesis using assms(1) l(2) e by (auto simp: parseSDPLine_def Let_def valid_line_def crlf_def)
qed

lemma session_lines_text:
  assumes "\<forall>l \<in> set ls. valid_line l \<and> l ! 0 \<noteq> CHR ''m''" and m: "valid_line m" "m ! 0 = CHR ''m''" and rest: "rest = [] \<or> \<not> eol (hd rest)"
  shows "session_lines (sdp_text ls @ m @ crlf @ rest) s = Some (Some (rest, m, fold session_line ls s))"
  using assms(1)
proof (induction ls arbitrary: s)
  case Nil
  then show ?case using parseSDPLine_line [OF m(1) rest] m(2) by (subst session_lines.simps) simp
next
  case (Cons l ls)
  define u where "u = sdp_text ls @ m @ crlf @ rest"
  have "u = [] \<or> \<not> eol (hd u)" unfolding u_def
    using text_start [of ls "m @ crlf @ rest"] Cons.prems valid_line_start(2) [OF m(1)] by auto
  then have "parseSDPLine (l @ crlf @ u) = Some (u, l, True)" using Cons.prems by (intro parseSDPLine_line) auto
  moreover have "u \<noteq> []" using valid_line_start(1) [OF m(1)] by (simp add: u_def)
  ultimately have "session_lines (l @ crlf @ u) s = session_lines u (session_line l s)"
    using Cons.prems by (subst session_lines.simps) simp
  then show ?case using Cons.IH Cons.prems by (simp add: u_def)
qed

lemma subsession_lines_text:
  assumes "\<forall>l \<in> set ls. valid_line l \<and> l ! 0 \<noteq> CHR ''m''"
  shows "subsession_lines (sdp_text ls) s = Some (Some (fold subsession_line ls s))"
  using assms
proof (induction ls arbitrary: s)
  case Nil
  then show ?case by (subst subsession_lines.simps) simp
next
  case (Cons l ls)
  have "sdp_text ls = [] \<or> \<not> eol (hd (sdp_text ls))" using text_start [of ls "[]"] Cons.prems by auto
  then have "parseSDPLine (l @ crlf @ sdp_text ls) = Some (sdp_text ls, l, True)" using Cons.prems by (intro parseSDPLine_line) auto
  then have "subsession_lines (l @ crlf @ sdp_text ls) s = subsession_lines (sdp_text ls) (subsession_line l s)"
    using Cons.prems valid_line_start(1) by (subst subsession_lines.simps) auto
  then show ?case using Cons.IH Cons.prems by simp
qed

section \<open>The effect of a line\<close>

lemma scan_other: "\<not> prefix t l \<Longrightarrow> sscanf (Text t # fmt) l = []"
  by (simp add: scan_lit_def)

lemma parseRange_none [simp]: "parseRangeAttribute l k = ([], [], False)"
proof -
  have "length (sscanf [Text ''a=range:'', Blanks, Text t, Blanks, Text ''='', Blanks, BadVerb] l) = 0" for t
    by (simp split: option.splits)
  then show ?thesis by (simp add: parseRangeAttribute_def)
qed

lemma source_filter_none [simp]: "\<not> parseSourceFilterAttribute l"
  by (simp add: parseSourceFilterAttribute_def split: option.splits)

lemma type_none [simp]: "parseSDPAttributeType l s = (False, s)"
  by (simp add: parseSDPAttributeType_def split: option.splits)

lemmas session_parsers = session_line_def parseSDPLineS_def parseSDPLineI_def session_parseSDPLineC_def session_parseSDPAttributeControl_def
  session_parseSDPAttributeRange_def session_parseSDPAttributeSourceFilter_def

lemma parseCLine_other: "l ! 0 \<noteq> CHR ''c'' \<Longrightarrow> parseCLine l = []"
  by (cases l) (auto simp: parseCLine_def scan_lit_def)

lemma session_line_s: "session_line (CHR ''s'' # CHR ''='' # t) s = s\<lparr>sessionName := t\<rparr>"
  by (simp add: session_parsers)

lemma session_line_i: "session_line (CHR ''i'' # CHR ''='' # t) s = s\<lparr>sessionDescription := t\<rparr>"
  by (simp add: session_parsers)

lemma session_line_control: "session_line (''a=control:'' @ t) s = s\<lparr>ms_controlPath := t\<rparr>"
proof -
  have "parseCLine (''a=control:'' @ t) = []" by (rule parseCLine_other) simp
  then show ?thesis by (simp add: session_parsers)
qed

lemma session_line_other:
  assumes "l ! 0 \<notin> {CHR ''s'', CHR ''i'', CHR ''c''}" and "\<not> prefix ''a=control:'' l"
  shows "session_line l s = s\<lparr>ms_absStartTime := [], ms_absEndTime := []\<rparr>"
  using assms parseCLine_other [of l] by (simp add: session_parsers)

lemmas subsession_parsers = subsession_line_def parseSDPLineC_def parseSDPLineB_def parseSDPAttributeRtpmap_def parseSDPAttributeControl_def
  parseSDPAttributeRange_def parseSDPAttributeFmtp_def

lemma parseCLine_name:
  assumes "t \<noteq> []" and "\<forall>c \<in> set t. \<not> ascii_space c"
  shows "parseCLine (''c=IN IP4 '' @ t) = t"
proof -
  have b: "match_blanks (CHR '' '' # u) = Some u" if "u = [] \<or> \<not> ascii_space (hd u)" for u using that by (rule match_blanks_one)
  have 1: "scan_lit ''c=IN'' (''c=IN IP4 '' @ t) = Some ('' IP4 '' @ t)" by (simp add: scan_lit_def)
  have 2: "match_blanks ('' IP4 '' @ t) = Some (''IP4 '' @ t)" using b [of "''IP4 '' @ t"] by (simp add: ascii_space_def)
  have 3: "scan_lit ''IP4'' (''IP4 '' @ t) = Some ('' '' @ t)" by (simp add: scan_lit_def)
  have 4: "match_blanks ('' '' @ t) = Some t" using b [of t] assms by simp
  have "sscanf [Verb_s] (t @ []) = [Str t]" using sscanf_s [OF assms, of "[]" "[]"] by simp
  then show ?thesis unfolding parseCLine_def by (simp only: sscanf.simps(2,3) 1 2 3 4 option.case) simp
qed

lemma subsession_line_c:
  "t \<noteq> [] \<Longrightarrow> \<forall>c \<in> set t. \<not> ascii_space c \<Longrightarrow> subsession_line (''c=IN IP4 '' @ t) s = s\<lparr>connectionEndpointName := t\<rparr>"
  using parseCLine_name [of t] by (simp add: subsession_parsers del: append.simps)

lemma parseB_other: "l ! 0 \<noteq> CHR ''b'' \<Longrightarrow> parseSDPLineB l s = (False, s)"
  by (cases l) (auto simp: parseSDPLineB_def scan_lit_def)

lemma subsession_line_b:
  assumes "n < 2 ^ 64"
  shows "subsession_line (''b=AS:'' @ show_nat n) s = s\<lparr>bandWidth := n\<rparr>"
proof -
  have "sscanf [Verb_d_uint 64] (show_nat n @ []) = [Num n]" using sscanf_uint [OF assms, of "[]" "[]"] by simp
  then have "parseSDPLineB (''b=AS:'' @ show_nat n) s = (True, s\<lparr>bandWidth := n\<rparr>)"
    unfolding parseSDPLineB_def sscanf.simps(2) scan_lit_append option.case by simp
  moreover have "parseCLine (''b=AS:'' @ show_nat n) = []" by (rule parseCLine_other) simp
  ultimately show ?thesis by (simp add: subsession_line_def parseSDPLineC_def del: append.simps)
qed

lemma TrimSpace_plain: "s \<noteq> [] \<Longrightarrow> \<not> ascii_space (hd s) \<Longrightarrow> \<not> ascii_space (last s) \<Longrightarrow> TrimSpace s = s"
proof -
  assume s: "s \<noteq> []" "\<not> ascii_space (hd s)" "\<not> ascii_space (last s)"
  have "dropWhile ascii_space s = s" using s(1,2) by (cases s) auto
  moreover have "dropWhile ascii_space (rev s) = rev s" using s(1,3) by (cases "rev s") (auto simp: hd_rev [symmetric] dest: arg_cong [of _ _ hd])
  ultimately show ?thesis by (simp add: TrimSpace_def)
qed

lemma show_nat_ends: "is_digit (hd (show_nat n))" "is_digit (last (show_nat n))"
  using show_nat_digits [of n] show_nat_nonempty [of n] by simp_all

text \<open>The line of a dynamic payload format, as the server prints it.\<close>

lemma parse_rtpmap:
  assumes "pt < 2 ^ 32" and "freq < 2 ^ 32" and codec: "\<forall>c \<in> set codec. c \<noteq> CHR '' '' \<and> c \<noteq> CHR ''/''"
  shows "parseSDPAttributeRtpmap (''a=rtpmap:'' @ show_nat pt @ '' '' @ codec @ ''/'' @ show_nat freq) s =
    (True, s\<lparr>rtpPayloadFormat := word_of_nat pt, codecName := codec, rtpTimestampFrequency := word_of_nat freq, numChannels := 1\<rparr>)"
proof -
  define l where "l = show_nat pt @ '' '' @ codec @ ''/'' @ show_nat freq"
  have d: "x \<notin> set (show_nat n)" if "\<not> is_digit x" for x n using show_nat_digits [of n] that by blast
  have "\<not> ascii_space (hd l)" "\<not> ascii_space (last l)" "l \<noteq> []"
    using show_nat_ends digit_not_space show_nat_nonempty by (auto simp: l_def hd_append last_append)
  then have trim: "TrimSpace l = l" by (intro TrimSpace_plain)
  have no: "CHR '' '' \<notin> set (show_nat n)" "CHR ''/'' \<notin> set (show_nat n)" for n by (rule d, simp add: is_digit_def)+
  have c: "CHR '' '' \<notin> set codec" "CHR ''/'' \<notin> set codec" using codec by auto
  have "Split (codec @ CHR ''/'' # show_nat freq) CHR '' '' = [codec @ CHR ''/'' # show_nat freq]"
    by (rule Split_plain) (use no c in simp)
  then have split1: "Split l CHR '' '' = [show_nat pt, codec @ CHR ''/'' # show_nat freq]"
    using Split_append [OF no(1), of pt "codec @ CHR ''/'' # show_nat freq"] by (simp add: l_def)
  have split2: "Split (codec @ CHR ''/'' # show_nat freq) CHR ''/'' = [codec, show_nat freq]"
    using Split_append [OF c(2), of "show_nat freq"] Split_plain [OF no(2)] by simp
  have "Atoi (show_nat pt) = Some (int pt)" "Atoi (show_nat freq) = Some (int freq)"
    using assms(1,2) by (simp_all add: Atoi_def read_int_show)
  then have round: "rtpmap_round l s = (True, s\<lparr>rtpPayloadFormat := word_of_nat pt, codecName := codec, rtpTimestampFrequency := word_of_nat freq, numChannels := 1\<rparr>)"
    using split1 split2 by (simp add: rtpmap_round_def)
  have "hd l \<noteq> CHR ''a''" using show_nat_ends(1) [of pt] show_nat_nonempty [of pt] by (auto simp: l_def hd_append is_digit_def)
  then have stop: "\<not> prefix ''a=rtpmap:'' l" using \<open>l \<noteq> []\<close> by (cases l) auto
  have drop: "drop 9 (''a=rtpmap:'' @ l) = l" by simp
  have "rtpmap_loop False (''a=rtpmap:'' @ l) s = rtpmap_loop True l (snd (rtpmap_round l s))"
    by (subst rtpmap_loop.simps) (simp only: drop trim round Let_def split snd_conv if_True, simp)
  moreover have "rtpmap_loop True l s1 = (True, s1)" for s1 using stop by (subst rtpmap_loop.simps) simp
  ultimately show ?thesis unfolding parseSDPAttributeRtpmap_def l_def [symmetric] round by simp
qed

lemma subsession_line_rtpmap:
  assumes "pt < 2 ^ 32" and "freq < 2 ^ 32" and codec: "\<forall>c \<in> set codec. c \<noteq> CHR '' '' \<and> c \<noteq> CHR ''/''"
  shows "subsession_line (''a=rtpmap:'' @ show_nat pt @ '' '' @ codec @ ''/'' @ show_nat freq) s =
    s\<lparr>rtpPayloadFormat := word_of_nat pt, codecName := codec, rtpTimestampFrequency := word_of_nat freq, numChannels := 1\<rparr>"
proof -
  have "parseCLine (''a=rtpmap:'' @ t) = []" "parseSDPLineB (''a=rtpmap:'' @ t) s = (False, s)" for t
    by (rule parseCLine_other, simp) (rule parseB_other, simp)
  then show ?thesis using parse_rtpmap [OF assms] by (simp add: subsession_line_def parseSDPLineC_def del: append.simps)
qed

lemma attribute_steps:
  assumes "l ! 0 = CHR ''a''" and "\<not> prefix ''a=rtpmap:'' l"
  shows "subsession_line l s = (if prefix ''a=control:'' l then s\<lparr>controlPath := drop 10 l\<rparr> else s\<lparr>absStartTime := [], absEndTime := []\<rparr>)"
proof -
  have "parseCLine l = []" "parseSDPLineB l s = (False, s)" using assms(1) by (auto intro: parseCLine_other parseB_other)
  moreover have "rtpmap_loop False l s = (False, s)" using assms(2) by (subst rtpmap_loop.simps) simp
  ultimately show ?thesis by (simp add: subsession_parsers)
qed

lemma subsession_line_control: "subsession_line (''a=control:'' @ t) s = s\<lparr>controlPath := t\<rparr>"
  by (subst attribute_steps) simp_all

lemma subsession_line_fmtp: "subsession_line (''a=fmtp:'' @ t) s = s\<lparr>absStartTime := [], absEndTime := []\<rparr>"
  by (subst attribute_steps) simp_all

text \<open>The m= line of RTP.\<close>

lemma parse_m_line_rtp:
  assumes "medium \<noteq> []" and "\<forall>c \<in> set medium. \<not> ascii_space c" and "port < 2 ^ 64" and "pt \<le> 127"
  shows "parse_m_line (''m='' @ medium @ '' '' @ show_nat port @ '' RTP/AVP '' @ show_nat pt) = (medium, port, pt, ''RTP'')"
proof -
  define l where "l = ''m='' @ medium @ '' '' @ show_nat port @ '' RTP/AVP '' @ show_nat pt"
  have b: "match_blanks (CHR '' '' # u) = Some u" if "u = [] \<or> \<not> ascii_space (hd u)" for u using that by (rule match_blanks_one)
  have dg: "\<not> ascii_space (hd (show_nat n @ u))" for n u using show_nat_ends(1) [of n] show_nat_nonempty [of n] digit_not_space by (simp add: hd_append)
  have start: "sscanf (Text ''m='' # Verb_s # Blanks # Verb_d_uint 64 # fmt) l = Str medium # Num port # sscanf fmt ('' RTP/AVP '' @ show_nat pt)" for fmt
  proof -
    have "sscanf (Text ''m='' # Verb_s # Blanks # Verb_d_uint 64 # fmt) l =
        sscanf (Verb_s # Blanks # Verb_d_uint 64 # fmt) (medium @ ('' '' @ show_nat port @ '' RTP/AVP '' @ show_nat pt))"
      unfolding l_def sscanf.simps(2) scan_lit_append option.case ..
    also have "\<dots> = Str medium # sscanf (Blanks # Verb_d_uint 64 # fmt) (CHR '' '' # show_nat port @ '' RTP/AVP '' @ show_nat pt)"
      by (subst sscanf_s [OF assms(1,2)]) (simp_all add: ascii_space_def)
    also have "sscanf (Blanks # Verb_d_uint 64 # fmt) (CHR '' '' # show_nat port @ '' RTP/AVP '' @ show_nat pt) =
        sscanf (Verb_d_uint 64 # fmt) (show_nat port @ ('' RTP/AVP '' @ show_nat pt))"
      using b [of "show_nat port @ '' RTP/AVP '' @ show_nat pt"] dg by (simp del: sscanf.simps(5))
    also have "\<dots> = Num port # sscanf fmt ('' RTP/AVP '' @ show_nat pt)"
      using assms(3) by (subst sscanf_uint) (simp_all add: is_digit_def)
    finally show ?thesis .
  qed
  have mid: "match_blanks ('' RTP/AVP '' @ show_nat pt) = Some (''RTP/AVP'' @ '' '' @ show_nat pt)"
    using b [of "''RTP/AVP '' @ show_nat pt"] by (simp add: ascii_space_def)
  have blank: "match_blanks ('' '' @ show_nat pt) = Some (show_nat pt @ [])" using b [of "show_nat pt"] dg [of pt "[]"] by simp
  have last: "sscanf [Verb_d_uint 32] (show_nat pt @ []) = [Num pt]" using sscanf_uint [of pt 32 "[]" "[]"] assms(4) by simp
  have "sscanf [Blanks, Text ''RTP/AVP'', Blanks, Verb_d_uint 32] ('' RTP/AVP '' @ show_nat pt) = [Num pt]"
    by (simp only: sscanf.simps(2,3) mid option.case scan_lit_append blank last)
  then have 1: "sscanf (m_forms ! 0) l = [Str medium, Num port, Num pt]"
    using start [of "[Blanks, Text ''RTP/AVP'', Blanks, Verb_d_uint 32]"] unfolding m_forms_def nth_Cons_0 by simp
  have o: "sscanf (Blanks # Text t # fmt) ('' RTP/AVP '' @ show_nat pt) = []" if "scan_lit t (''RTP/AVP'' @ '' '' @ show_nat pt) = None" for t fmt
    by (simp only: sscanf.simps(2,3) mid option.case that)
  have "scan_lit ''UDP'' (''RTP/AVP'' @ '' '' @ show_nat pt) = None" "scan_lit ''udp'' (''RTP/AVP'' @ '' '' @ show_nat pt) = None"
    "scan_lit ''RAW/RAW/UDP'' (''RTP/AVP'' @ '' '' @ show_nat pt) = None" by (simp_all add: scan_lit_def)
  note o = this [THEN o]
  have s: "sscanf [Text ''/'', BadVerb] ('' RTP/AVP '' @ show_nat pt) = []" by (simp add: scan_lit_def)
  have 2: "sscanf (m_forms ! 1) l = [Str medium, Num port]" "sscanf (m_forms ! 2) l = [Str medium, Num port]"
    "sscanf (m_forms ! 3) l = [Str medium, Num port]" "sscanf (m_forms ! 4) l = [Str medium, Num port]"
    using start [of "[Text ''/'', BadVerb]"] start [of "[Blanks, Text ''UDP'', Blanks, Verb_d_uint 32]"]
      start [of "[Blanks, Text ''udp'', Blanks, Verb_d_uint 32]"] start [of "[Blanks, Text ''RAW/RAW/UDP'', Blanks, Verb_d_uint 32]"] o s
    by (simp_all add: m_forms_def del: sscanf.simps append.simps)
  have "map (\<lambda>form. sscanf form l) m_forms = [[Str medium, Num port, Num pt], [Str medium, Num port], [Str medium, Num port],
      [Str medium, Num port], [Str medium, Num port]]"
    using 1 2 by (simp add: m_forms_def)
  then show ?thesis using assms(4) unfolding l_def [symmetric] parse_m_line_def by (simp add: Let_def)
qed

section \<open>The description of a file\<close>

text \<open>What the description says of each kind of file.\<close>

definition kind_medium :: "media_kind \<Rightarrow> string" where "kind_medium k = sdpMediaType k"

definition kind_codec :: "media_kind \<Rightarrow> string" where
  "kind_codec k = (case k of H264FileMediaSubsession \<Rightarrow> ''H264'' | M2TSFileMediaSubsession \<Rightarrow> ''MP2T'')"

definition kind_payload :: "media_kind \<Rightarrow> nat" where
  "kind_payload k = (case k of H264FileMediaSubsession \<Rightarrow> 96 | M2TSFileMediaSubsession \<Rightarrow> 33)"

definition session_texts :: "ServerMediaSession \<Rightarrow> string list" where
  "session_texts s =
     [''v=0'', ''o=- '' @ show_int (tv_sec (creationTime s)) @ show_padded 6 (nat (tv_usec (creationTime s))) @ '' 1 IN IP4 '' @ ipAddr s,
      ''s='' @ descSDPStr s, ''i='' @ infoSDPStr s, ''t=0 0'', ''a=tool:Dor Streaming Media v'' @ mediaServerVersion,
      ''a=type:broadcast'', ''a=control:'' @ ''*'', ''a=range:npt=0-'', ''a=x-qt-text-nam:'' @ descSDPStr s, ''a=x-qt-text-inf:'' @ infoSDPStr s]"

definition media_text :: "media_kind \<Rightarrow> string" where
  "media_text k = ''m='' @ kind_medium k @ '' '' @ show_nat 0 @ '' RTP/AVP '' @ show_nat (kind_payload k)"

definition subsession_texts :: "media_kind \<Rightarrow> string \<Rightarrow> string list" where
  "subsession_texts k fmtp =
     [''c=IN IP4 '' @ ''0.0.0.0'', ''b=AS:'' @ show_nat 500] @
     (if k = H264FileMediaSubsession
      then [''a=rtpmap:'' @ show_nat 96 @ '' '' @ ''H264'' @ ''/'' @ show_nat 90000, ''a=fmtp:'' @ fmtp] else []) @
     [''a=control:'' @ ''track'' @ show_nat 1]"

lemma prefix_is_text: "\<not> isSSM s \<Longrightarrow> miscSDPLines s = [] \<Longrightarrow> sdpPrefix s = sdp_text (session_texts s)"
  by (simp add: sdpPrefix_def session_texts_def)

lemma checkForAuxSDPLine_total: "look (i + n) \<noteq> [] \<Longrightarrow> (\<forall>j < n. look (i + j) = []) \<Longrightarrow> checkForAuxSDPLine look i = Some (look (i + n))"
proof (induction n arbitrary: i)
  case 0
  then show ?case by (subst checkForAuxSDPLine.simps) simp
next
  case (Suc n)
  have "look i = []" using Suc.prems(2) by (metis add_0_right zero_less_Suc)
  moreover have "\<forall>j < n. look (i + 1 + j) = []" using Suc.prems(2) by (metis Suc_less_eq add_Suc_right add_Suc_shift Suc_eq_plus1)
  ultimately show ?case using Suc.IH [of "i + 1"] Suc.prems(1) by (subst checkForAuxSDPLine.simps) simp
qed

definition file_media :: "world \<Rightarrow> media_kind \<Rightarrow> string \<Rightarrow> string \<Rightarrow> ServerMediaSession option" where
  "file_media w k d name = AddSubsession (newFileMediaSubsession w k name) (NewServerMediaSession w d name)"

lemma file_media_shape:
  "\<exists>l. file_media w k d name = Some ((NewServerMediaSession w d name)\<lparr>SubsessionCounter := 1,
     Subsessions := Some ((newFileMediaSubsession w k name)\<lparr>hasParentSession := True, trackNumber := 1\<rparr>) # l\<rparr>)"
proof -
  obtain e :: "FileServerMediaSubsession option" and es where r: "replicate 1024 None = e # es"
    by (cases "replicate 1024 (None :: FileServerMediaSubsession option)") auto
  show ?thesis by (simp add: file_media_def AddSubsession_def NewServerMediaSession_def newFileMediaSubsession_def r)
qed


lemma getAuxSDPLine_new:
  assumes "auxSDPLine sub = []" and "\<not> haveDummyRTPSink sub" and "w_auxSDPLine w n = ''a=fmtp:'' @ fmtp @ crlf" and "\<forall>j < n. w_auxSDPLine w j = []"
  shows "\<exists>calls sub1. getAuxSDPLine w sub = Some (if media_kind sub = H264FileMediaSubsession then ''a=fmtp:'' @ fmtp @ crlf else [], calls, sub1) \<and>
    trackID sub1 = trackID sub \<and> trackNumber sub1 = trackNumber sub \<and> media_kind sub1 = media_kind sub \<and> portNumForSDP sub1 = portNumForSDP sub"
proof -
  have "checkForAuxSDPLine (w_auxSDPLine w) 0 = Some (''a=fmtp:'' @ fmtp @ crlf)"
    using checkForAuxSDPLine_total [of "w_auxSDPLine w" 0 n] assms(3,4) by simp
  then show ?thesis using assms(1,2) by (cases "media_kind sub") (auto simp: getAuxSDPLine_def)
qed

lemma rtpmap_of_kind:
  "rtpmapLine (createNewRTPSink w k 96) = sdp_text (if k = H264FileMediaSubsession then [''a=rtpmap:'' @ show_nat 96 @ '' '' @ ''H264'' @ ''/'' @ show_nat 90000] else [])"
  "unat (rtpPayloadType (createNewRTPSink w k 96)) = kind_payload k"
  by (cases k; simp add: createNewRTPSink_def InitRTPSink_def rtpmapLine_def kind_payload_def)+

lemma description_text:
  assumes y: "file_media w k d name = Some y" and open_file: "w_openable w name"
    and aux: "w_auxSDPLine w n = ''a=fmtp:'' @ fmtp @ crlf" "\<forall>j < n. w_auxSDPLine w j = []"
  shows "\<exists>calls y'. GenerateSDPDescription w y =
    Some (sdp_text (session_texts y) @ media_text k @ crlf @ sdp_text (subsession_texts k fmtp), calls, y')"
proof -
  define sub where "sub = (newFileMediaSubsession w k name)\<lparr>hasParentSession := True, trackNumber := 1\<rparr>"
  obtain l where y': "y = (NewServerMediaSession w d name)\<lparr>SubsessionCounter := 1, Subsessions := Some sub # l\<rparr>"
    using file_media_shape [of w k d name] y by (auto simp: sub_def)
  define sub0 where "sub0 = sub\<lparr>fileSize := w_filesize w name\<rparr>"
  have f: "sdpLines sub = []" "fileName sub = name" "media_kind sub = k" "trackNumber sub = 1" by (simp_all add: sub_def newFileMediaSubsession_def)
  have f0: "auxSDPLine sub0 = []" "\<not> haveDummyRTPSink sub0" "media_kind sub0 = k" "trackID sub0 = []" "trackNumber sub0 = 1" "portNumForSDP sub0 = 0"
    by (simp_all add: sub0_def sub_def newFileMediaSubsession_def)
  obtain calls sub1 where a: "getAuxSDPLine w sub0 = Some (if k = H264FileMediaSubsession then ''a=fmtp:'' @ fmtp @ crlf else [], calls, sub1)"
    and 1: "trackID sub1 = []" "trackNumber sub1 = 1" "media_kind sub1 = k" "portNumForSDP sub1 = 0"
    using getAuxSDPLine_new [OF f0(1,2) aux] f0(3-6) by auto
  define sub2 where "sub2 = snd (TrackID sub1)"
  have track: "TrackID sub1 = (''track'' @ show_nat 1, sub2)" and 2: "media_kind sub2 = k" "portNumForSDP sub2 = 0"
    using 1 by (simp_all add: TrackID_def sub2_def)
  have "\<exists>sub3. setSDPLinesFromRTPSink w (createNewRTPSink w k 96) 500 sub0 = Some (calls, sub3) \<and>
      sdpLines sub3 = media_text k @ crlf @ sdp_text (subsession_texts k fmtp)"
    unfolding setSDPLinesFromRTPSink_def a rtpmap_of_kind
    by (simp add: track 2 media_text_def subsession_texts_def kind_medium_def rangeSDPLine_def)
  then obtain sub3 where set: "setSDPLinesFromRTPSink w (createNewRTPSink w k 96) 500 sub0 = Some (calls, sub3)"
    and sdp: "sdpLines sub3 = media_text k @ crlf @ sdp_text (subsession_texts k fmtp)" by blast
  have "SDPLines w sub = Some (sdpLines sub3, calls @ [DummyDestroy], sub3)"
    using f open_file set by (simp add: SDPLines_def createNewStreamSource_def sub0_def)
  moreover have "sdpPrefix (y\<lparr>Subsessions := l'\<rparr>) = sdp_text (session_texts y)" for l'
    using prefix_is_text [of "y\<lparr>Subsessions := l'\<rparr>"] by (simp add: y' NewServerMediaSession_def session_texts_def)
  ultimately show ?thesis using sdp prefix_is_text [of y] by (simp add: GenerateSDPDescription_def y' NewServerMediaSession_def)
qed

section \<open>Reading the description\<close>

lemma session_texts_read:
  "fold session_line (session_texts y) s = s\<lparr>sessionName := descSDPStr y, sessionDescription := infoSDPStr y, ms_controlPath := ''*'',
     ms_absStartTime := [], ms_absEndTime := []\<rparr>"
proof -
  have o: "session_line (''v=0'') s = s\<lparr>ms_absStartTime := [], ms_absEndTime := []\<rparr>"
    "session_line (''o=- '' @ t) s = s\<lparr>ms_absStartTime := [], ms_absEndTime := []\<rparr>"
    "session_line (''t=0 0'') s = s\<lparr>ms_absStartTime := [], ms_absEndTime := []\<rparr>"
    "session_line (''a=tool:Dor Streaming Media v'' @ t) s = s\<lparr>ms_absStartTime := [], ms_absEndTime := []\<rparr>"
    "session_line (''a=type:broadcast'') s = s\<lparr>ms_absStartTime := [], ms_absEndTime := []\<rparr>"
    "session_line (''a=range:npt=0-'') s = s\<lparr>ms_absStartTime := [], ms_absEndTime := []\<rparr>"
    "session_line (''a=x-qt-text-nam:'' @ t) s = s\<lparr>ms_absStartTime := [], ms_absEndTime := []\<rparr>"
    "session_line (''a=x-qt-text-inf:'' @ t) s = s\<lparr>ms_absStartTime := [], ms_absEndTime := []\<rparr>" for s t
    by (rule session_line_other; simp)+
  have si: "session_line (''s='' @ t) s = s\<lparr>sessionName := t\<rparr>" "session_line (''i='' @ t) s = s\<lparr>sessionDescription := t\<rparr>" for s t
    using session_line_s [of t s] session_line_i [of t s] by simp_all
  show ?thesis by (simp only: session_texts_def fold_Cons fold_Nil o_apply id_apply o si session_line_control) simp
qed

lemma kind_cases: "k = H264FileMediaSubsession \<or> k = M2TSFileMediaSubsession"
  by (cases k) simp_all

lemma subsession_texts_read:
  "fold subsession_line (subsession_texts k fmtp) c =
    (if k = H264FileMediaSubsession
     then c\<lparr>connectionEndpointName := ''0.0.0.0'', bandWidth := 500, rtpPayloadFormat := 96, codecName := ''H264'', rtpTimestampFrequency := 90000,
            numChannels := 1, absStartTime := [], absEndTime := [], controlPath := ''track'' @ show_nat 1\<rparr>
     else c\<lparr>connectionEndpointName := ''0.0.0.0'', bandWidth := 500, controlPath := ''track'' @ show_nat 1\<rparr>)"
proof -
  have c: "subsession_line (''c=IN IP4 '' @ ''0.0.0.0'') s = s\<lparr>connectionEndpointName := ''0.0.0.0''\<rparr>" for s
    by (rule subsession_line_c) (simp_all add: ascii_space_def)
  have b: "subsession_line (''b=AS:'' @ show_nat 500) s = s\<lparr>bandWidth := 500\<rparr>" for s by (rule subsession_line_b) simp
  have r: "subsession_line (''a=rtpmap:'' @ show_nat 96 @ '' '' @ ''H264'' @ ''/'' @ show_nat 90000) s =
      s\<lparr>rtpPayloadFormat := 96, codecName := ''H264'', rtpTimestampFrequency := 90000, numChannels := 1\<rparr>" for s
    by (subst subsession_line_rtpmap) simp_all
  show ?thesis
    by (simp only: subsession_texts_def fold_append fold_Cons fold_Nil o_apply id_apply c b r subsession_line_fmtp subsession_line_control
      split: if_split) simp
qed

lemma texts_valid:
  assumes "plain (ipAddr y)" and "plain (descSDPStr y)" and "plain (infoSDPStr y)" and "plain fmtp"
  shows "\<forall>l \<in> set (session_texts y). valid_line l \<and> l ! 0 \<noteq> CHR ''m''" "valid_line (media_text k)" "media_text k ! 0 = CHR ''m''"
    "\<forall>l \<in> set (subsession_texts k fmtp). valid_line l \<and> l ! 0 \<noteq> CHR ''m''"
proof -
  have e: "\<not> eol CHR ''v''" "\<not> eol CHR ''=''" "\<not> eol CHR '' ''" for c by (simp_all add: eol_def cr_def lf_def)
  have v: "valid_line l \<longleftrightarrow> plain l \<and> 2 \<le> length l \<and> l ! 1 = CHR ''='' \<and> is_lower (l ! 0)" for l by (rule valid_line_def)
  show "\<forall>l \<in> set (session_texts y). valid_line l \<and> l ! 0 \<noteq> CHR ''m''"
    using assms by (simp add: session_texts_def v is_lower_def eol_def cr_def lf_def mediaServerVersion_def)
  have "plain (kind_medium k)" by (cases k) (simp_all add: kind_medium_def sdpMediaType_def eol_def cr_def lf_def)
  then show "valid_line (media_text k)" by (simp add: media_text_def v is_lower_def eol_def cr_def lf_def)
  show "media_text k ! 0 = CHR ''m''" by (simp add: media_text_def)
  show "\<forall>l \<in> set (subsession_texts k fmtp). valid_line l \<and> l ! 0 \<noteq> CHR ''m''"
    using assms by (cases k) (simp_all add: subsession_texts_def v is_lower_def eol_def cr_def lf_def)
qed

text \<open>What the client knows of the subsession.\<close>

definition described_as :: "media_kind \<Rightarrow> MediaSubsession \<Rightarrow> bool" where
  "described_as k c \<longleftrightarrow>
     mediumName c = kind_medium k \<and> protocolName c = ''RTP'' \<and> codecName c = kind_codec k \<and> rtpPayloadFormat c = word_of_nat (kind_payload k) \<and>
     rtpTimestampFrequency c = 90000 \<and> numChannels c = 1 \<and> bandWidth c = 500 \<and> connectionEndpointName c = ''0.0.0.0'' \<and>
     controlPath c = ''track1'' \<and> clientPortNum c = 0 \<and> readSource c = None \<and> rtcpSocket c = None"

lemma described_subsession:
  "described_as k (complete_subsession (fold subsession_line (subsession_texts k fmtp) (NewMediaSubsession\<lparr>clientPortNum := 0, serverPortNum := 0,
     savedSDPLines := r, mediumName := kind_medium k, protocolName := ''RTP'', rtpPayloadFormat := word_of_nat (kind_payload k)\<rparr>)))"
proof -
  have "show_nat 1 = ''1''" by (subst show_nat.simps) (simp add: digit_def char_of_def bit_0)
  moreover have "lookupPayloadFormat 33 = (''MP2T'', 90000, 1)" by (simp add: lookupPayloadFormat_def static_formats_def)
  ultimately show ?thesis unfolding subsession_texts_read
    by (cases k) (simp_all add: complete_subsession_def NewMediaSubsession_def described_as_def kind_codec_def kind_payload_def)
qed

lemma read_description:
  assumes "plain (ipAddr y)" and "plain (descSDPStr y)" and "plain (infoSDPStr y)" and "plain fmtp"
  shows "\<exists>ms c l. NewMediaSession host (sdp_text (session_texts y) @ media_text k @ crlf @ sdp_text (subsession_texts k fmtp)) = Some (Some ms) \<and>
    mediaSubsessions ms = Some c # l \<and> set l \<subseteq> {None} \<and> length l = 1023 \<and> subsessionNum ms = 1 \<and> subsessionIndex ms = 0 \<and> sessionName ms = descSDPStr y \<and>
    sessionDescription ms = infoSDPStr y \<and> ms_controlPath ms = ''*'' \<and> described_as k c"
proof -
  obtain e :: "MediaSubsession option" and es where r: "replicate 1024 None = e # es"
    by (cases "replicate 1024 (None :: MediaSubsession option)") auto
  then have es: "set es \<subseteq> {None}" by (metis in_set_replicate list.set_intros(2) singletonI subsetI)
  have n: "length es = 1023" using arg_cong [OF r, of length] by simp
  note v = texts_valid [OF assms]
  define rest where "rest = sdp_text (subsession_texts k fmtp)"
  define sdp where "sdp = sdp_text (session_texts y) @ media_text k @ crlf @ rest"
  have start: "rest = [] \<or> \<not> eol (hd rest)" using text_start [of "subsession_texts k fmtp" "[]"] v(4) by (simp add: rest_def)
  have "session_lines sdp s = Some (Some (rest, media_text k, fold session_line (session_texts y) s))" for s
    unfolding sdp_def by (rule session_lines_text [OF v(1,2,3) start])
  moreover have "subsession_lines rest c = Some (Some (fold subsession_line (subsession_texts k fmtp) c))" for c
    unfolding rest_def by (rule subsession_lines_text [OF v(4)])
  moreover have "parse_m_line (media_text k) = (kind_medium k, 0, kind_payload k, ''RTP'')" unfolding media_text_def
    by (rule parse_m_line_rtp; cases k; simp add: kind_medium_def sdpMediaType_def kind_payload_def ascii_space_def)
  moreover have "sdp \<noteq> []" by (simp add: sdp_def crlf_def)
  ultimately have "\<exists>ms. NewMediaSession host sdp = Some (Some ms) \<and>
    mediaSubsessions ms = Some (complete_subsession (fold subsession_line (subsession_texts k fmtp) (NewMediaSubsession\<lparr>clientPortNum := 0,
      serverPortNum := 0, savedSDPLines := rest, mediumName := kind_medium k, protocolName := ''RTP'',
      rtpPayloadFormat := word_of_nat (kind_payload k)\<rparr>))) # es \<and> subsessionNum ms = 1 \<and> subsessionIndex ms = 0 \<and> sessionName ms = descSDPStr y \<and>
    sessionDescription ms = infoSDPStr y \<and> ms_controlPath ms = ''*''"
    by (simp add: NewMediaSession_def initWithSDP_def session_texts_read r)
  then obtain ms where ms: "NewMediaSession host sdp = Some (Some ms)" "mediaSubsessions ms = Some (complete_subsession
      (fold subsession_line (subsession_texts k fmtp) (NewMediaSubsession\<lparr>clientPortNum := 0, serverPortNum := 0, savedSDPLines := rest,
        mediumName := kind_medium k, protocolName := ''RTP'', rtpPayloadFormat := word_of_nat (kind_payload k)\<rparr>))) # es"
      "subsessionNum ms = 1" "subsessionIndex ms = 0" "sessionName ms = descSDPStr y" "sessionDescription ms = infoSDPStr y" "ms_controlPath ms = ''*''"
    by (elim exE conjE) (rule that; assumption)
  from described_subsession obtain c where c: "described_as k c" "c = complete_subsession
      (fold subsession_line (subsession_texts k fmtp) (NewMediaSubsession\<lparr>clientPortNum := 0, serverPortNum := 0, savedSDPLines := rest,
        mediumName := kind_medium k, protocolName := ''RTP'', rtpPayloadFormat := word_of_nat (kind_payload k)\<rparr>))" by blast
  have "NewMediaSession host sdp = Some (Some ms) \<and> mediaSubsessions ms = Some c # es \<and> set es \<subseteq> {None} \<and> length es = 1023 \<and>
      subsessionNum ms = 1 \<and> subsessionIndex ms = 0 \<and> sessionName ms = descSDPStr y \<and> sessionDescription ms = infoSDPStr y \<and>
      ms_controlPath ms = ''*'' \<and> described_as k c"
    using ms es n c by simp
  then show ?thesis unfolding sdp_def rest_def by (intro exI)
qed

end
