(* ===== verification/RtspClient.thy ===== *)
theory RtspClient
  imports ClientMedia Auth
begin

text \<open>
  \<^verbatim>\<open>rtspclient/client.go\<close>, \<^verbatim>\<open>rtspclient/callback.go\<close> and \<^verbatim>\<open>rtspclient/stream_state.go\<close>: a client of RTSP.

  The world: the host, the ports that the system gives, whether the connection is made, and whether the \<open>n\<close>-th write to it
  succeeds. Media sessions are kept in a list; a pointer to one is its position, and a pointer to a subsession is that and the position of the
  subsession. What is written to the connection is appended to \<open>sent\<close>; the calls to sinks and RTCP are appended to
  \<open>client_calls\<close>. \<open>None\<close> is a call that does not return. MD5 is a parameter, as in \<open>Auth\<close>.

  The scale of a request and of a session is 1 everywhere, and the start and end of a request are 0 and -1; they have no field. The
  flags of a request are 0.
\<close>

section \<open>State\<close>

record client_world =
  cw_hostname :: string
  cw_ports :: "nat \<Rightarrow> nat option"
  cw_bindable :: "nat \<Rightarrow> bool"
  cw_connects :: bool
  cw_writable :: "nat \<Rightarrow> bool"
  cw_now :: timeval
  cw_drand48 :: int
  cw_drand48' :: int

datatype handler = NoHandler | AfterDESCRIBE | AfterSETUP | AfterPLAY

record RequestRecord =
  rq_cseq :: nat
  boolFlags :: nat
  commandName :: string
  contentStr :: string
  rq_absStartTime :: string
  rq_absEndTime :: string
  handler :: handler
  rq_subsession :: "(nat \<times> nat) option"
  rq_session :: "nat option"

definition newRequestRecord :: "nat \<Rightarrow> string \<Rightarrow> handler \<Rightarrow> RequestRecord" where
  "newRequestRecord n command h =
     \<lparr>rq_cseq = n, boolFlags = 0, commandName = command, contentStr = [], rq_absStartTime = [], rq_absEndTime = [], handler = h,
      rq_subsession = None, rq_session = None\<rparr>"

record RequestQueue =
  index :: nat
  requestRecords :: "RequestRecord list"

definition newRequestQueue :: RequestQueue where
  "newRequestQueue = \<lparr>index = 0, requestRecords = []\<rparr>"

definition queue_enqueue :: "RequestRecord \<Rightarrow> RequestQueue \<Rightarrow> RequestQueue" where
  "queue_enqueue r q = q\<lparr>requestRecords := requestRecords q @ [r]\<rparr>"

definition dequeue :: "RequestQueue \<Rightarrow> RequestRecord option \<times> RequestQueue" where
  "dequeue q =
     (if length (requestRecords q) \<le> index q then (None, q\<lparr>index := 0\<rparr>)
      else (Some (requestRecords q ! index q), q\<lparr>index := index q + 1\<rparr>))"

datatype client_call = SinkStarted "ReadSource option" | ByeHandlerSet | Rtcp rtcp_call

record RTSPClient =
  baseURL :: string
  lastSessionID :: string
  sessionCookie :: string
  serverAddress :: string
  userAgentHeaderStr :: string
  cseq :: nat
  tcpStreamIDCount :: nat
  tunnelOverHTTPPortNum :: nat
  digest :: Digest
  nonceCounter :: nat
  tcpConn :: bool
  conn_open :: bool
  writes :: nat
  sent :: "string list"
  sessions :: "MediaSession list"
  scs_Session :: "nat option"
  scs_Subsession :: "(nat \<times> nat) option"
  client_calls :: "((nat \<times> nat) \<times> client_call) list"
  requestsAwaitingResponse :: RequestQueue
  requestsAwaitingHTTPTunneling :: "RequestQueue option"

definition client_New :: RTSPClient where
  "client_New =
     \<lparr>baseURL = [], lastSessionID = [], sessionCookie = [], serverAddress = [], userAgentHeaderStr = [], cseq = 0, tcpStreamIDCount = 0,
      tunnelOverHTTPPortNum = 0, digest = NewDigest, nonceCounter = 0, tcpConn = False, conn_open = False, writes = 0, sent = [],
      sessions = [], scs_Session = None, scs_Subsession = None, client_calls = [], requestsAwaitingResponse = newRequestQueue,
      requestsAwaitingHTTPTunneling = None\<rparr>"

definition get_session :: "nat \<Rightarrow> RTSPClient \<Rightarrow> MediaSession option" where
  "get_session i c = idx (sessions c) i"

definition get_subsession :: "nat \<times> nat \<Rightarrow> RTSPClient \<Rightarrow> MediaSubsession option" where
  "get_subsession p c = do { s \<leftarrow> idx (sessions c) (fst p); entry \<leftarrow> idx (mediaSubsessions s) (snd p); entry }"

definition put_session :: "nat \<Rightarrow> MediaSession \<Rightarrow> RTSPClient \<Rightarrow> RTSPClient" where
  "put_session i s c = c\<lparr>sessions := (sessions c)[i := s]\<rparr>"

definition put_subsession :: "nat \<times> nat \<Rightarrow> MediaSubsession \<Rightarrow> RTSPClient \<Rightarrow> RTSPClient option" where
  "put_subsession p sub c = do {
     s \<leftarrow> idx (sessions c) (fst p);
     Some (put_session (fst p) (s\<lparr>mediaSubsessions := (mediaSubsessions s)[snd p := Some sub]\<rparr>) c)
   }"

section \<open>Connecting\<close>

definition client_version :: string where "client_version = ''1.0.0.3''"

definition init_client :: "string \<Rightarrow> string \<Rightarrow> RTSPClient \<Rightarrow> RTSPClient" where
  "init_client url app c =
     (let (pre, suf) = (if app \<noteq> [] then ('' ('', '')'') else ([], []))
      in c\<lparr>baseURL := url, cseq := 1,
           userAgentHeaderStr := ''User-Agent: '' @ app @ pre @ ''Dor Streaming Media v'' @ client_version @ suf @ crlf\<rparr>)"

record RTSPURL =
  ru_streamName :: string
  ru_username :: string
  ru_password :: string
  ru_address :: string
  ru_port :: nat

definition parseRTSPURL :: "string \<Rightarrow> RTSPURL option" where
  "parseRTSPURL url =
     (if \<not> prefix ''rtsp://'' url then None
      else do {
        (user, pw, i) \<leftarrow>
          (case Index url ''@'' of
             None \<Rightarrow> Some ([], [], 7)
           | Some k \<Rightarrow> (case Split (drop 7 (take k url)) CHR '':'' of u # p # _ \<Rightarrow> Some (u, p, k + 1) | _ \<Rightarrow> None));
        if length url > 1000 then None
        else case Split (drop i url) CHR ''/'' of
          host # name # _ \<Rightarrow>
            (case Split host CHR '':'' of
               addr # p # _ \<Rightarrow>
                 (case Atoi p of
                    None \<Rightarrow> None
                  | Some port \<Rightarrow>
                      if port < 1 \<or> port > 65535 then None
                      else Some \<lparr>ru_streamName = name, ru_username = user, ru_password = pw, ru_address = addr, ru_port = nat port\<rparr>)
             | addr # _ \<Rightarrow> Some \<lparr>ru_streamName = name, ru_username = user, ru_password = pw, ru_address = addr, ru_port = 554\<rparr>
             | [] \<Rightarrow> None)
        | _ \<Rightarrow> None
      })"

definition openConnection :: "client_world \<Rightarrow> RTSPClient \<Rightarrow> bool \<times> RTSPClient" where
  "openConnection w c =
     (case parseRTSPURL (baseURL c) of
        None \<Rightarrow> (False, c)
      | Some u \<Rightarrow>
          let d = (if ru_username u \<noteq> [] \<or> ru_password u \<noteq> []
                   then (digest c)\<lparr>dg_Username := ru_username u, dg_Password := ru_password u\<rparr> else digest c);
              c1 = c\<lparr>digest := d, serverAddress := ru_address u\<rparr>
          in (cw_connects w, c1\<lparr>tcpConn := cw_connects w, conn_open := cw_connects w\<rparr>))"

definition DialRTSP :: "client_world \<Rightarrow> string \<Rightarrow> RTSPClient \<Rightarrow> bool \<times> RTSPClient" where
  "DialRTSP w url c = (let c1 = init_client url ''dorcli'' c in if tcpConn c1 then (False, c1) else openConnection w c1)"

section \<open>The text of a request\<close>

definition base64_digit :: "nat \<Rightarrow> char" where
  "base64_digit n =
     (if n < 26 then char_of (65 + n) else if n < 52 then char_of (71 + n) else if n < 62 then char_of (n - 4)
      else if n = 62 then CHR ''+'' else CHR ''/'')"

fun base64 :: "string \<Rightarrow> string" where
  "base64 (a # b # c # r) =
     (let n = of_char a * 65536 + of_char b * 256 + (of_char c :: nat)
      in base64_digit (n div 262144) # base64_digit (n div 4096 mod 64) # base64_digit (n div 64 mod 64) # base64_digit (n mod 64) # base64 r)"
| "base64 [a, b] =
     (let n = of_char a * 65536 + (of_char b :: nat) * 256
      in [base64_digit (n div 262144), base64_digit (n div 4096 mod 64), base64_digit (n div 64 mod 64), CHR ''='' ])"
| "base64 [a] = (let n = (of_char a :: nat) * 65536 in [base64_digit (n div 262144), base64_digit (n div 4096 mod 64), CHR ''='', CHR ''='' ])"
| "base64 [] = []"

definition quoted :: "string \<Rightarrow> string" where
  "quoted s = [CHR 0x22] @ s @ [CHR 0x22]"

definition createAuthenticatorStr :: "(string \<Rightarrow> string) \<Rightarrow> RTSPClient \<Rightarrow> string \<Rightarrow> string \<Rightarrow> string" where
  "createAuthenticatorStr md5 c cmd url =
     (let d = digest c
      in if dg_Realm d \<noteq> [] \<and> dg_Username d \<noteq> [] \<and> dg_Password d \<noteq> [] then
           if dg_Nonce d \<noteq> [] then
             ''Authorization: Digest username='' @ quoted (dg_Username d) @ '', realm='' @ quoted (dg_Realm d) @ '', nonce='' @
             quoted (dg_Nonce d) @ '', uri='' @ quoted url @ '', response='' @ quoted (ComputeResponse md5 cmd url d) @ crlf
           else ''Authorization: Basic '' @ base64 (dg_Username d @ '':'' @ dg_Password d) @ crlf
         else [])"

definition sessionURL :: "RTSPClient \<Rightarrow> MediaSession \<Rightarrow> string" where
  "sessionURL c s = (if ms_controlPath s = [] \<or> ms_controlPath s = ''*'' then baseURL c else ms_controlPath s)"

fun isAbsoluteURL :: "string \<Rightarrow> bool" where
  "isAbsoluteURL [] = False"
| "isAbsoluteURL (ch # s) = (if ch = CHR ''/'' then False else if ch = CHR '':'' then True else isAbsoluteURL s)"

text \<open>The prefix and the suffix; the separator between them is always empty.\<close>

definition constructSubSessionURL :: "RTSPClient \<Rightarrow> nat \<times> nat \<Rightarrow> string option" where
  "constructSubSessionURL c p = do {
     s \<leftarrow> get_session (fst p) c;
     sub \<leftarrow> get_subsession p c;
     Some (if isAbsoluteURL (controlPath sub) then controlPath sub else sessionURL c s @ controlPath sub)
   }"

definition createSessionString :: "string \<Rightarrow> string" where
  "createSessionString ident = (if ident \<noteq> [] then ''Session: '' @ ident @ crlf else [])"

text \<open>The start is 0 and the end -1.\<close>

definition createRangeString :: "string \<Rightarrow> string \<Rightarrow> string" where
  "createRangeString t1 t2 =
     (if t1 \<noteq> [] then if t2 = [] then ''Range: clock='' @ t1 @ ''-'' @ crlf else ''Range: clock='' @ t1 @ ''-'' @ t2 @ crlf
      else ''Range: npt=0.000-'' @ crlf)"

definition setup_headers :: "RTSPClient \<Rightarrow> RequestRecord \<Rightarrow> MediaSubsession \<Rightarrow> string \<times> RTSPClient" where
  "setup_headers c r sub =
     (let start = (if protocolName sub = ''UDP'' then ''Transport: RAW/RAW/UDP'' else ''Transport: RTP/AVP'');
          mode = (if odd (boolFlags r div 2) then '';mode=receive'' else []);
          n = tcpStreamIDCount c; p = clientPortNum sub
      in if odd (boolFlags r)
         then (start @ ''/TCP;unicast'' @ mode @ '';interleaved='' @ show_nat n @ ''-'' @ show_nat (n + 1) @ crlf @
                 createSessionString (lastSessionID c), c\<lparr>tcpStreamIDCount := n + 2\<rparr>)
         else (start @ '';unicast'' @ mode @ '';client_port='' @ show_nat p @ ''-'' @ show_nat (p + 1) @ crlf @
                 createSessionString (lastSessionID c), c))"

definition tunnel_headers :: "RTSPClient \<Rightarrow> string \<Rightarrow> string" where
  "tunnel_headers c cmd =
     ''x-sessioncookie: '' @ sessionCookie c @ crlf @
     (if cmd = ''GET'' then ''Accept: application/x-rtsp-tunnelled'' else ''Content-Type: application/x-rtsp-tunnelled'') @ crlf @
     ''Pragma: no-cache'' @ crlf @ ''Cache-Control: no-cache'' @ crlf @
     (if cmd = ''GET'' then [] else ''Content-Length: 32767'' @ crlf @ ''Expires: Sun, 9 Jan 1972 00:00:00 GMT'' @ crlf)"

definition in_session_commands :: "string list" where
  "in_session_commands = [''PLAY'', ''PAUSE'', ''TEARDOWN'', ''RECORD'', ''SET_PARAMETER'', ''GET_PARAMETER'']"

text \<open>
  The URL and the headers of a request. A request within a session, when there is none, is not sent: \<open>None\<close> inside. A request
  with neither a session nor a subsession panics.
\<close>

definition request_headers :: "RTSPClient \<Rightarrow> RequestRecord \<Rightarrow> ((string \<times> string) option \<times> RTSPClient) option" where
  "request_headers c r =
     (let cmd = commandName r in
      if cmd = ''OPTIONS'' \<or> cmd = ''ANNOUNCE'' then Some (Some (baseURL c, ''Content-Type: application/sdp'' @ crlf), c)
      else if cmd = ''DESCRIBE'' then Some (Some (baseURL c, ''Accept: application/sdp'' @ crlf), c)
      else if cmd = ''SETUP'' then do {
        p \<leftarrow> rq_subsession r;
        url \<leftarrow> constructSubSessionURL c p;
        sub \<leftarrow> get_subsession p c;
        let (h, c1) = setup_headers c r sub;
        Some (Some (url, h), c1)
      }
      else if cmd \<in> set in_session_commands then
        if lastSessionID c = [] then Some (None, c)
        else do {
          (url, ident) \<leftarrow> (case rq_session r of
                            Some _ \<Rightarrow> Some (baseURL c, lastSessionID c)
                          | None \<Rightarrow> do { p \<leftarrow> rq_subsession r; url \<leftarrow> constructSubSessionURL c p; sub \<leftarrow> get_subsession p c; Some (url, sessionID sub) });
          Some (Some (url, createSessionString ident @
                  (if cmd = ''PLAY'' then createRangeString (rq_absStartTime r) (rq_absEndTime r) else [])), c)
        }
      else if cmd = ''GET'' \<or> cmd = ''POST'' then Some (Some (baseURL c, tunnel_headers c cmd), c)
      else Some (Some (baseURL c, []), c))"

definition request_text :: "(string \<Rightarrow> string) \<Rightarrow> RTSPClient \<Rightarrow> RequestRecord \<Rightarrow> string \<Rightarrow> string \<Rightarrow> string" where
  "request_text md5 c r url extraHeaders =
     commandName r @ '' '' @ url @ '' RTSP/1.0'' @ crlf @ ''CSeq: '' @ show_nat (rq_cseq r) @ crlf @
     createAuthenticatorStr md5 c (commandName r) (baseURL c) @ userAgentHeaderStr c @ extraHeaders @
     (if contentStr r \<noteq> [] then ''Content-Length: '' @ show_nat (length (contentStr r)) @ crlf else []) @ crlf @ contentStr r"

section \<open>Sending\<close>

definition write_conn :: "client_world \<Rightarrow> string \<Rightarrow> RTSPClient \<Rightarrow> bool \<times> RTSPClient" where
  "write_conn w msg c =
     (let ok = (conn_open c \<and> cw_writable w (writes c)); c1 = c\<lparr>writes := writes c + 1\<rparr>
      in (ok, if ok then c1\<lparr>sent := sent c1 @ [msg]\<rparr> else c1))"

text \<open>
  \<open>sendRequest\<close>, where \<open>on_error\<close> is the handler of the request, called with the result -1. The queue of the requests that wait
  for the tunnel is never made: to put one into it panics.
\<close>

definition sendRequest ::
  "(string \<Rightarrow> string) \<Rightarrow> client_world \<Rightarrow> (RTSPClient \<Rightarrow> RTSPClient option) \<Rightarrow> RequestRecord \<Rightarrow> RTSPClient \<Rightarrow> RTSPClient option" where
  "sendRequest md5 w on_error r c =
     (if tunnelOverHTTPPortNum c \<noteq> 0 then do {
        q \<leftarrow> requestsAwaitingHTTPTunneling c;
        Some (c\<lparr>requestsAwaitingHTTPTunneling := Some (queue_enqueue r q)\<rparr>)
      }
      else do {
        (t, c1) \<leftarrow> request_headers c r;
        (case t of
           None \<Rightarrow> on_error c1
         | Some (url, h) \<Rightarrow> do {
             let (ok, c2) = write_conn w (request_text md5 c1 r url h) c1;
             c3 \<leftarrow> (if ok then Some c2 else on_error c2);
             Some (c3\<lparr>requestsAwaitingResponse := queue_enqueue r (requestsAwaitingResponse c3)\<rparr>)
           })
      })"

definition sendTeardownCommand :: "(string \<Rightarrow> string) \<Rightarrow> client_world \<Rightarrow> nat option \<Rightarrow> RTSPClient \<Rightarrow> RTSPClient option" where
  "sendTeardownCommand md5 w session c =
     (let n = cseq c + 1
      in sendRequest md5 w Some ((newRequestRecord n ''TEARDOWN'' NoHandler)\<lparr>rq_session := session\<rparr>) (c\<lparr>cseq := n\<rparr>))"

definition shutdownStream :: "(string \<Rightarrow> string) \<Rightarrow> client_world \<Rightarrow> RTSPClient \<Rightarrow> RTSPClient option" where
  "shutdownStream md5 w c = sendTeardownCommand md5 w (scs_Session c) c"

definition client_Close :: "(string \<Rightarrow> string) \<Rightarrow> client_world \<Rightarrow> RTSPClient \<Rightarrow> RTSPClient option" where
  "client_Close md5 w c = sendTeardownCommand md5 w (scs_Session c) c"

text \<open>The handler of PLAY, and PLAY itself.\<close>

definition continueAfterPLAY :: "(string \<Rightarrow> string) \<Rightarrow> client_world \<Rightarrow> int \<Rightarrow> RTSPClient \<Rightarrow> RTSPClient option" where
  "continueAfterPLAY md5 w resultCode c = (if resultCode \<noteq> 0 then shutdownStream md5 w c else Some c)"

definition sendPlayCommand :: "(string \<Rightarrow> string) \<Rightarrow> client_world \<Rightarrow> nat option \<Rightarrow> RTSPClient \<Rightarrow> RTSPClient option" where
  "sendPlayCommand md5 w session c =
     (let n = cseq c + 1
      in sendRequest md5 w (continueAfterPLAY md5 w (- 1)) ((newRequestRecord n ''PLAY'' AfterPLAY)\<lparr>rq_session := session\<rparr>) (c\<lparr>cseq := n\<rparr>))"

section \<open>The handlers of the responses\<close>

text \<open>The subsession that comes next: it becomes the current one.\<close>

definition Next :: "RTSPClient \<Rightarrow> RTSPClient option" where
  "Next c = do {
     i \<leftarrow> scs_Session c;
     s \<leftarrow> get_session i c;
     (k, s1) \<leftarrow> Subsession s;
     Some ((put_session i s1 c)\<lparr>scs_Subsession := map_option (Pair i) k\<rparr>)
   }"

definition setup_record :: "nat \<Rightarrow> nat \<times> nat \<Rightarrow> RequestRecord" where
  "setup_record n p = (newRequestRecord n ''SETUP'' AfterSETUP)\<lparr>rq_subsession := Some p\<rparr>"

text \<open>The dummy sink of the current subsession starts to play.\<close>

definition start_sink :: "RTSPClient \<Rightarrow> RTSPClient option" where
  "start_sink c = do {
     p \<leftarrow> scs_Subsession c;
     sub \<leftarrow> get_subsession p c;
     c1 \<leftarrow> put_subsession p (sub\<lparr>hasSink := True\<rparr>) c;
     Some (c1\<lparr>client_calls := client_calls c1 @ (p, SinkStarted (readSource sub)) #
                             (if rtcpBandwidth sub \<noteq> None then [(p, ByeHandlerSet)] else [])\<rparr>)
   }"

text \<open>
  \<open>setupNextSubSession\<close> goes on to the next subsession when one cannot be initiated or its SETUP cannot be sent. \<open>n\<close> bounds
  the rounds; each takes one entry from the list of the subsessions, so that one more than its length is enough.
\<close>

fun setup_rounds :: "nat \<Rightarrow> (string \<Rightarrow> string) \<Rightarrow> client_world \<Rightarrow> RTSPClient \<Rightarrow> RTSPClient option" where
  "setup_rounds 0 md5 w c = None"
| "setup_rounds (Suc n) md5 w c = do {
     c1 \<leftarrow> Next c;
     (case scs_Subsession c1 of
        Some p \<Rightarrow> do {
          sub \<leftarrow> get_subsession p c1;
          parent \<leftarrow> get_session (fst p) c1;
          (ok, calls, sub1) \<leftarrow> Initiate (cw_ports w) (cw_bindable w) (cw_now w) (cw_drand48 w) (cw_drand48' w) (cname parent) sub;
          c2 \<leftarrow> put_subsession p sub1 (c1\<lparr>client_calls := client_calls c1 @ map (\<lambda>x. (p, Rtcp x)) calls\<rparr>);
          if \<not> ok then setup_rounds n md5 w c2
          else sendRequest md5 w (setup_rounds n md5 w) (setup_record (cseq c2 + 1) p) (c2\<lparr>cseq := cseq c2 + 1\<rparr>)
        }
      | None \<Rightarrow> sendPlayCommand md5 w (scs_Session c1) c1)
   }"

definition setupNextSubSession :: "(string \<Rightarrow> string) \<Rightarrow> client_world \<Rightarrow> RTSPClient \<Rightarrow> RTSPClient option" where
  "setupNextSubSession md5 w c = do {
     i \<leftarrow> scs_Session c;
     s \<leftarrow> get_session i c;
     setup_rounds (length (mediaSubsessions s) + 1) md5 w c
   }"

definition continueAfterSETUP :: "(string \<Rightarrow> string) \<Rightarrow> client_world \<Rightarrow> int \<Rightarrow> RTSPClient \<Rightarrow> RTSPClient option" where
  "continueAfterSETUP md5 w resultCode c = do {
     c1 \<leftarrow> (if resultCode \<noteq> 0 then Some c else start_sink c);
     setupNextSubSession md5 w c1
   }"

definition continueAfterDESCRIBE :: "(string \<Rightarrow> string) \<Rightarrow> client_world \<Rightarrow> int \<Rightarrow> string \<Rightarrow> RTSPClient \<Rightarrow> RTSPClient option" where
  "continueAfterDESCRIBE md5 w resultCode resultStr c =
     (if resultCode \<noteq> 0 then shutdownStream md5 w c
      else do {
        made \<leftarrow> NewMediaSession (cw_hostname w) resultStr;
        (case made of
           None \<Rightarrow> shutdownStream md5 w (c\<lparr>scs_Session := None\<rparr>)
         | Some s \<Rightarrow>
             let c1 = c\<lparr>sessions := sessions c @ [s], scs_Session := Some (length (sessions c))\<rparr>
             in if \<not> HasSubsessions s then shutdownStream md5 w c1 else setupNextSubSession md5 w c1)
      })"

definition Handle :: "(string \<Rightarrow> string) \<Rightarrow> client_world \<Rightarrow> handler \<Rightarrow> int \<Rightarrow> string \<Rightarrow> RTSPClient \<Rightarrow> RTSPClient option" where
  "Handle md5 w h resultCode resultStr c =
     (case h of
        NoHandler \<Rightarrow> Some c
      | AfterDESCRIBE \<Rightarrow> continueAfterDESCRIBE md5 w resultCode resultStr c
      | AfterSETUP \<Rightarrow> continueAfterSETUP md5 w resultCode c
      | AfterPLAY \<Rightarrow> continueAfterPLAY md5 w resultCode c)"

definition handleRequestError :: "(string \<Rightarrow> string) \<Rightarrow> client_world \<Rightarrow> RequestRecord \<Rightarrow> RTSPClient \<Rightarrow> RTSPClient option" where
  "handleRequestError md5 w r c = Handle md5 w (handler r) (- 1) ''FAILED'' c"

definition sendDescribeCommand :: "(string \<Rightarrow> string) \<Rightarrow> client_world \<Rightarrow> handler \<Rightarrow> RTSPClient \<Rightarrow> RTSPClient option" where
  "sendDescribeCommand md5 w h c =
     (let r = newRequestRecord (cseq c + 1) ''DESCRIBE'' h
      in sendRequest md5 w (handleRequestError md5 w r) r (c\<lparr>cseq := cseq c + 1\<rparr>))"

definition SendRequest :: "(string \<Rightarrow> string) \<Rightarrow> client_world \<Rightarrow> RTSPClient \<Rightarrow> RTSPClient option" where
  "SendRequest md5 w c = sendDescribeCommand md5 w AfterDESCRIBE c"

text \<open>Requests that the program has but does not use.\<close>

definition sendPlainCommand :: "(string \<Rightarrow> string) \<Rightarrow> client_world \<Rightarrow> string \<Rightarrow> handler \<Rightarrow> RTSPClient \<Rightarrow> RTSPClient option" where
  "sendPlainCommand md5 w cmd h c =
     (let r = newRequestRecord (cseq c + 1) cmd h
      in sendRequest md5 w (handleRequestError md5 w r) r (c\<lparr>cseq := cseq c + 1\<rparr>))"

definition sendOptionsCommand :: "(string \<Rightarrow> string) \<Rightarrow> client_world \<Rightarrow> handler \<Rightarrow> RTSPClient \<Rightarrow> RTSPClient option" where
  "sendOptionsCommand md5 w = sendPlainCommand md5 w ''OPTIONS''"

definition sendAnnounceCommand :: "(string \<Rightarrow> string) \<Rightarrow> client_world \<Rightarrow> handler \<Rightarrow> RTSPClient \<Rightarrow> RTSPClient option" where
  "sendAnnounceCommand md5 w = sendPlainCommand md5 w ''ANNOUNCE''"

definition sendPauseCommand :: "(string \<Rightarrow> string) \<Rightarrow> client_world \<Rightarrow> handler \<Rightarrow> RTSPClient \<Rightarrow> RTSPClient option" where
  "sendPauseCommand md5 w = sendPlainCommand md5 w ''PAUSE''"

definition sendRecordCommand :: "(string \<Rightarrow> string) \<Rightarrow> client_world \<Rightarrow> handler \<Rightarrow> RTSPClient \<Rightarrow> RTSPClient option" where
  "sendRecordCommand md5 w = sendPlainCommand md5 w ''RECORD''"

definition sendSetParameterCommand :: "(string \<Rightarrow> string) \<Rightarrow> client_world \<Rightarrow> handler \<Rightarrow> RTSPClient \<Rightarrow> RTSPClient option" where
  "sendSetParameterCommand md5 w = sendPlainCommand md5 w ''SET_PARAMETER''"

definition sendGetParameterCommand :: "(string \<Rightarrow> string) \<Rightarrow> client_world \<Rightarrow> handler \<Rightarrow> RTSPClient \<Rightarrow> RTSPClient option" where
  "sendGetParameterCommand md5 w = sendPlainCommand md5 w ''GET_PARAMETER''"

text \<open>Within a session such a request panics: it has neither a session nor a subsession.\<close>

lemma plain_command_panics:
  assumes "cmd \<in> set in_session_commands" and "lastSessionID c \<noteq> []" and "tunnelOverHTTPPortNum c = 0"
  shows "sendPlainCommand md5 w cmd h c = None"
proof -
  have "cmd \<notin> {''OPTIONS'', ''ANNOUNCE'', ''DESCRIBE'', ''SETUP''}" using assms(1) by (auto simp: in_session_commands_def)
  then show ?thesis using assms by (simp add: sendPlainCommand_def sendRequest_def request_headers_def newRequestRecord_def Let_def)
qed

definition subsessionByeHandler :: "(string \<Rightarrow> string) \<Rightarrow> client_world \<Rightarrow> RTSPClient \<Rightarrow> RTSPClient option" where
  "subsessionByeHandler md5 w c = shutdownStream md5 w c"

section \<open>Responses\<close>

text \<open>
  What follows the first line, and the line. A carriage return must be followed by something; if that is no line feed, the line is
  not taken off.
\<close>

definition getLine :: "string \<Rightarrow> (string \<times> string) option" where
  "getLine s =
     (let this = takeWhile (\<lambda>ch. \<not> eol ch) s; rest = dropWhile (\<lambda>ch. \<not> eol ch) s in
      case rest of
        [] \<Rightarrow> Some ([], [])
      | ch # r \<Rightarrow>
          if ch = cr then (case r of [] \<Rightarrow> None | d # r' \<Rightarrow> Some (if d = lf then r' else s, this))
          else Some (r, this))"

text \<open>The code, and whether this is a response to RTSP. The response string is the line.\<close>

definition blank :: "char \<Rightarrow> bool" where
  "blank ch \<longleftrightarrow> ch = CHR '' '' \<or> ch = CHR 0x09"

definition parseResponseCode :: "string \<Rightarrow> (int \<times> bool) option" where
  "parseResponseCode line =
     (case sscanf [Text ''RTSP/'', Verb_s, Blanks, Verb_d_int] line of
        [_, SInt code] \<Rightarrow> Some (code, True)
      | _ \<Rightarrow>
          (case sscanf [Text ''HTTP/'', Verb_s, Blanks, Verb_d_int] line of
             [_, SInt code] \<Rightarrow> if \<exists>ch \<in> set line. blank ch then Some (code, False) else None
           | _ \<Rightarrow> Some (0, True)))"

definition checkForHeader :: "string \<Rightarrow> string \<Rightarrow> string option" where
  "checkForHeader line name = map_option (dropWhile blank) (scan_lit name line)"

text \<open>The requests in the queue are taken up to one with a greater number; the last one with the number is the one that is answered.\<close>

function find_request :: "nat \<Rightarrow> RequestRecord option \<Rightarrow> RequestQueue \<Rightarrow> RequestRecord option \<times> RequestQueue" where
  "find_request n found q =
     (case dequeue q of
        (None, q1) \<Rightarrow> (found, q1)
      | (Some r, q1) \<Rightarrow>
          if rq_cseq r < n then find_request n found q1
          else if rq_cseq r = n then find_request n (Some r) q1
          else (found, q1))"
  by auto
termination by (relation "measure (\<lambda>(n, found, q). length (requestRecords q) - index q)") (auto simp: dequeue_def split: if_splits)

declare find_request.simps [simp del]

record response_headers =
  foundRequest :: "RequestRecord option"
  sessionParamsStr :: string
  transportParamsStr :: string
  wwwAuthenticateParamsStr :: string
  publicParamsStr :: string

text \<open>One header: the new state and whether the loop over the headers goes on.\<close>

definition response_header ::
  "string \<Rightarrow> response_headers \<Rightarrow> RTSPClient \<Rightarrow> (bool \<times> response_headers \<times> RTSPClient) option" where
  "response_header line h c =
     (case checkForHeader line ''CSeq:'' of
        Some v \<Rightarrow>
          (case sscanf [Verb_d_int] v of
             [SInt n] \<Rightarrow>
               if n \<le> 0 then Some (False, h, c)
               else let (found, q) = find_request (nat n) (foundRequest h) (requestsAwaitingResponse c)
                    in Some (True, h\<lparr>foundRequest := found\<rparr>, c\<lparr>requestsAwaitingResponse := q\<rparr>)
           | _ \<Rightarrow> Some (False, h, c))
      | None \<Rightarrow> (case checkForHeader line ''Content-Length:'' of
        Some v \<Rightarrow> Some (length (sscanf [Verb_d_int] v) = 1, h, c)
      | None \<Rightarrow> (case checkForHeader line ''Content-Base:'' of
        Some v \<Rightarrow> Some (True, h, c\<lparr>baseURL := v\<rparr>)
      | None \<Rightarrow> (case checkForHeader line ''Session:'' of
        Some v \<Rightarrow> Some (True, h\<lparr>sessionParamsStr := v\<rparr>, c)
      | None \<Rightarrow> (case checkForHeader line ''Transport:'' of
        Some v \<Rightarrow> Some (True, h\<lparr>transportParamsStr := v\<rparr>, c)
      | None \<Rightarrow>
          if checkForHeader line ''Scale:'' \<noteq> None \<or> checkForHeader line ''Range:'' \<noteq> None \<or> checkForHeader line ''RTP-Info:'' \<noteq> None
          then Some (True, h, c)
          else (case checkForHeader line ''WWW-Authenticate:'' of
            Some v \<Rightarrow>
              if wwwAuthenticateParamsStr h = [] then Some (True, h\<lparr>wwwAuthenticateParamsStr := v\<rparr>, c)
              else if length v < 6 then None
              else Some (True, if take 6 v = ''Digest'' then h\<lparr>wwwAuthenticateParamsStr := v\<rparr> else h, c)
          | None \<Rightarrow> (case checkForHeader line ''Public:'' of
            Some v \<Rightarrow> Some (True, h\<lparr>publicParamsStr := v\<rparr>, c)
          | None \<Rightarrow>
              if checkForHeader line ''Allow:'' \<noteq> None then Some (True, h, c)
              else (case checkForHeader line ''Location:'' of
                Some v \<Rightarrow> Some (True, h, c\<lparr>baseURL := v\<rparr>)
              | None \<Rightarrow> Some (True, h, c)))))))))"

text \<open>The loop over the headers: it ends at an empty line, or never. The result has what follows.\<close>

partial_function (option) header_lines ::
  "string \<Rightarrow> response_headers \<Rightarrow> RTSPClient \<Rightarrow> (string \<times> response_headers \<times> RTSPClient) option" where
  "header_lines s h c = do {
     (next, this) \<leftarrow> getLine s;
     if this = [] then Some (next, h, c)
     else do {
       (more, h1, c1) \<leftarrow> response_header this h c;
       if more then header_lines next h1 c1 else Some (next, h1, c1)
     }
   }"

section \<open>Transports\<close>

record TransportParams =
  tp_serverPortNum :: nat
  tp_rtpChannelID :: nat
  tp_rtcpChannelID :: nat
  tp_serverAddressStr :: string

text \<open>The variables of \<open>parseTransportParams\<close>.\<close>

record transport_vars =
  tv_clientPortNum :: nat
  multicastPortNumRTP :: nat
  foundServerPortNum :: bool
  foundClientPortNum :: bool
  foundChannelIDs :: bool
  foundMulticastPortNum :: bool
  foundServerAddressStr :: string
  foundDestinationStr :: string
  tv_rtpChannelID :: nat
  tv_rtcpChannelID :: nat
  tv_isMulticast :: bool

definition scan_two :: "string \<Rightarrow> string \<Rightarrow> scanned list" where
  "scan_two name param = sscanf [Text name, Verb_d_uint 64, Text ''-'', Verb_d_uint 64] param"

definition scan_number :: "string \<Rightarrow> string \<Rightarrow> scanned list" where
  "scan_number name param = sscanf [Text name, Verb_d_uint 64] param"

definition scan_word :: "string \<Rightarrow> string \<Rightarrow> scanned list" where
  "scan_word name param = sscanf [Text name, Verb_s] param"

definition multicast_ports :: "string \<Rightarrow> transport_vars \<Rightarrow> transport_vars" where
  "multicast_ports param v =
     (let v1 = (case scan_number ''port='' param of [Num n] \<Rightarrow> v\<lparr>multicastPortNumRTP := n\<rparr> | _ \<Rightarrow> v)
      in if length (scan_two ''port='' param) = 1 \<or> length (scan_number ''port='' param) = 2 then v1\<lparr>foundMulticastPortNum := True\<rparr> else v1)"

definition transport_param :: "transport_vars \<Rightarrow> string \<Rightarrow> transport_vars" where
  "transport_param v param =
     (if param = ''unicast'' then v\<lparr>tv_isMulticast := False\<rparr>
      else if length (scan_number ''server_port='' param) = 1 then v\<lparr>foundServerPortNum := True\<rparr>
      else (case scan_number ''client_port='' param of
        [Num n] \<Rightarrow> v\<lparr>tv_clientPortNum := n, foundClientPortNum := True\<rparr>
      | _ \<Rightarrow> (case scan_word ''destination='' param of
        [Str a] \<Rightarrow> v\<lparr>foundDestinationStr := a\<rparr>
      | _ \<Rightarrow> (case scan_word ''source='' param of
        [Str a] \<Rightarrow> v\<lparr>foundServerAddressStr := a\<rparr>
      | _ \<Rightarrow> (case scan_two ''interleaved='' param of
        [Num a, Num b] \<Rightarrow> v\<lparr>tv_rtpChannelID := a, tv_rtcpChannelID := b, foundChannelIDs := True\<rparr>
      | [Num a] \<Rightarrow> multicast_ports param (v\<lparr>tv_rtpChannelID := a\<rparr>)
      | _ \<Rightarrow> multicast_ports param v)))))"

text \<open>The port of the server that was found goes to a variable that is not used.\<close>

definition parseTransportParams :: "string \<Rightarrow> TransportParams option" where
  "parseTransportParams paramsStr =
     (let v = foldl transport_param
                \<lparr>tv_clientPortNum = 0, multicastPortNumRTP = 0, foundServerPortNum = False, foundClientPortNum = False, foundChannelIDs = False,
                 foundMulticastPortNum = False, foundServerAddressStr = [], foundDestinationStr = [], tv_rtpChannelID = 0xFF,
                 tv_rtcpChannelID = 0xFF, tv_isMulticast = True\<rparr> (Split paramsStr CHR '';'')
      in if tv_isMulticast v \<and> foundDestinationStr v \<noteq> [] \<and> foundMulticastPortNum v
         then Some \<lparr>tp_serverPortNum = multicastPortNumRTP v, tp_rtpChannelID = tv_rtpChannelID v, tp_rtcpChannelID = tv_rtcpChannelID v,
                    tp_serverAddressStr = foundDestinationStr v\<rparr>
         else if foundChannelIDs v \<or> foundServerPortNum v \<or> foundClientPortNum v
         then Some \<lparr>tp_serverPortNum = (if foundClientPortNum v \<and> \<not> foundServerPortNum v then tv_clientPortNum v else 0),
                    tp_rtpChannelID = tv_rtpChannelID v, tp_rtcpChannelID = tv_rtcpChannelID v, tp_serverAddressStr = foundServerAddressStr v\<rparr>
         else None)"

definition handleSetupResponse :: "(nat \<times> nat) option \<Rightarrow> string \<Rightarrow> string \<Rightarrow> RTSPClient \<Rightarrow> RTSPClient option" where
  "handleSetupResponse p sessionParams transportParams c =
     (if sessionParams = [] then Some c
      else do {
        p \<leftarrow> p;
        sub \<leftarrow> get_subsession p c;
        let sub1 = sub\<lparr>sessionID := sessionParams\<rparr>;
        let sub2 = (case parseTransportParams transportParams of
                      None \<Rightarrow> sub1
                    | Some t \<Rightarrow> sub1\<lparr>rtpChannelID := tp_rtpChannelID t, rtcpChannelID := tp_rtcpChannelID t, serverPortNum := tp_serverPortNum t,
                                   connectionEndpointName := tp_serverAddressStr t\<rparr>);
        put_subsession p sub2 (c\<lparr>lastSessionID := sessionParams\<rparr>)
      })"

section \<open>Challenges\<close>

text \<open>The two regular expressions: where they first match, and the groups. A group is everything up to the next quote, not empty.\<close>

definition quoted_group :: "string \<Rightarrow> (string \<times> string) option" where
  "quoted_group s =
     (let g = takeWhile (\<lambda>ch. ch \<noteq> CHR 0x22) s; r = dropWhile (\<lambda>ch. ch \<noteq> CHR 0x22) s in if g = [] \<or> r = [] then None else Some (g, tl r))"

definition match_digest :: "string \<Rightarrow> (string \<times> string) option" where
  "match_digest s = do {
     r \<leftarrow> scan_lit (''Digest realm='' @ [CHR 0x22]) s;
     (realm, r1) \<leftarrow> quoted_group r;
     r2 \<leftarrow> scan_lit ('', nonce='' @ [CHR 0x22]) r1;
     (nonce, r3) \<leftarrow> quoted_group r2;
     Some (realm, nonce)
   }"

definition match_basic :: "string \<Rightarrow> string option" where
  "match_basic s = do { r \<leftarrow> scan_lit (''Basic realm='' @ [CHR 0x22]) s; (realm, r1) \<leftarrow> quoted_group r; Some realm }"

fun first_match :: "(string \<Rightarrow> 'r option) \<Rightarrow> string \<Rightarrow> 'r option" where
  "first_match f [] = f []"
| "first_match f (ch # s) = (case f (ch # s) of Some r \<Rightarrow> Some r | None \<Rightarrow> first_match f s)"

definition handleAuthenticationFailure :: "(string \<Rightarrow> string) \<Rightarrow> client_world \<Rightarrow> string \<Rightarrow> RTSPClient \<Rightarrow> bool \<times> RTSPClient" where
  "handleAuthenticationFailure md5 w paramsStr c =
     (if paramsStr = [] then (False, c)
      else
        let d = digest c; hadRealm = (dg_Realm d \<noteq> []);
            (success, c1) =
              (case first_match match_digest paramsStr of
                 Some (realm, nonce) \<Rightarrow> (True, c\<lparr>digest := d\<lparr>dg_Realm := realm, dg_Nonce := nonce\<rparr>\<rparr>)
               | None \<Rightarrow>
                   (case first_match match_basic paramsStr of
                      Some realm \<Rightarrow>
                        let (d1, n) = RandomNonce md5 (nat (tv_sec (cw_now w))) (nat (tv_usec (cw_now w))) (nonceCounter c) (d\<lparr>dg_Realm := realm\<rparr>)
                        in (True, c\<lparr>digest := d1, nonceCounter := n\<rparr>)
                    | None \<Rightarrow> (False, c)))
        in (success \<and> \<not> hadRealm \<and> dg_Username d \<noteq> [] \<and> dg_Password d \<noteq> [], c1))"

section \<open>A response\<close>

text \<open>A request of the server is answered with an error; whether this is written does not matter.\<close>

definition handleIncomingRequest :: "client_world \<Rightarrow> string \<Rightarrow> RTSPClient \<Rightarrow> RTSPClient option" where
  "handleIncomingRequest w reqStr c = do {
     parsed \<leftarrow> ParseRTSPRequestString reqStr;
     (case parsed of
        None \<Rightarrow> Some c
      | Some info \<Rightarrow> Some (snd (write_conn w (''RTSP/1.0 405 Method Not Allowed'' @ crlf @ ''CSeq: '' @ Cseq info @ crlf @ crlf) c)))
   }"

definition resetTCPSockets :: "RTSPClient \<Rightarrow> RTSPClient" where
  "resetTCPSockets c = c\<lparr>conn_open := False\<rparr>"

text \<open>What a response does before its handler is called, and whether the request is sent once more.\<close>

definition response_effect ::
  "(string \<Rightarrow> string) \<Rightarrow> client_world \<Rightarrow> int \<Rightarrow> response_headers \<Rightarrow> RequestRecord \<Rightarrow> RTSPClient \<Rightarrow> (bool \<times> RTSPClient) option" where
  "response_effect md5 w code h r c =
     (if code = 200 then
        if commandName r = ''SETUP''
        then do { c1 \<leftarrow> handleSetupResponse (rq_subsession r) (sessionParamsStr h) (transportParamsStr h) c; Some (False, c1) }
        else Some (False, c)
      else
        let (again, c1) = (if code = 401 then handleAuthenticationFailure md5 w (wwwAuthenticateParamsStr h) c else (False, c))
        in if again then Some (True, if commandName r = ''GET'' then resetTCPSockets c1 else c1)
           else if code = 301 \<or> code = 302 then Some (True, resetTCPSockets c1)
           else Some (False, c1))"

definition no_headers :: response_headers where
  "no_headers = \<lparr>foundRequest = None, sessionParamsStr = [], transportParamsStr = [], wwwAuthenticateParamsStr = [], publicParamsStr = []\<rparr>"

definition handleResponseBytes :: "(string \<Rightarrow> string) \<Rightarrow> client_world \<Rightarrow> string \<Rightarrow> RTSPClient \<Rightarrow> RTSPClient option" where
  "handleResponseBytes md5 w reqStr c = do {
     (next, this) \<leftarrow> getLine reqStr;
     (code, is_response) \<leftarrow> parseResponseCode this;
     if \<not> is_response then handleIncomingRequest w reqStr c
     else do {
       (body, h, c1) \<leftarrow> header_lines next no_headers c;
       let (found, c2) =
         (case foundRequest h of
            Some r \<Rightarrow> (Some r, c1)
          | None \<Rightarrow> let (r, q) = dequeue (requestsAwaitingResponse c1) in (r, c1\<lparr>requestsAwaitingResponse := q\<rparr>));
       (case found of
          None \<Rightarrow> Some c2
        | Some r \<Rightarrow> do {
            (again, c3) \<leftarrow> response_effect md5 w code h r c2;
            if again then sendRequest md5 w (handleRequestError md5 w r) r c3
            else Handle md5 w (handler r) (if code = 200 then 0 else code)
                   (if code = 200 then (if body \<noteq> [] then body else publicParamsStr h) else this) c3
          })
     }
   }"

text \<open>The loop of the connection, over what the reads give until one fails.\<close>

fun incomingDataHandler :: "(string \<Rightarrow> string) \<Rightarrow> client_world \<Rightarrow> string list \<Rightarrow> RTSPClient \<Rightarrow> RTSPClient option" where
  "incomingDataHandler md5 w [] c = Some (c\<lparr>conn_open := False\<rparr>)"
| "incomingDataHandler md5 w (reqStr # reads) c = do { c1 \<leftarrow> handleResponseBytes md5 w reqStr c; incomingDataHandler md5 w reads c1 }"

section \<open>The rounds of setting up are enough\<close>

definition subsessions_left :: "RTSPClient \<Rightarrow> nat" where
  "subsessions_left c =
     (case scs_Session c of
        None \<Rightarrow> 0
      | Some i \<Rightarrow> (case get_session i c of None \<Rightarrow> 0 | Some s \<Rightarrow> length (mediaSubsessions s) - subsessionIndex s))"

definition same_sessions :: "RTSPClient \<Rightarrow> RTSPClient \<Rightarrow> bool" where
  "same_sessions c c' \<longleftrightarrow> sessions c' = sessions c \<and> scs_Session c' = scs_Session c"

lemma request_headers_sessions: "request_headers c r = Some (t, c1) \<Longrightarrow> same_sessions c c1"
  by (auto simp: request_headers_def setup_headers_def same_sessions_def Let_def bind_eq_Some_conv split: if_splits prod.splits)

lemma write_conn_sessions: "same_sessions c (snd (write_conn w t c))"
  by (simp add: write_conn_def same_sessions_def Let_def)

lemma same_sessions_trans: "same_sessions a b \<Longrightarrow> same_sessions b c \<Longrightarrow> same_sessions a c"
  by (simp add: same_sessions_def)

lemma sendRequest_cong:
  assumes "\<And>c'. same_sessions c c' \<Longrightarrow> f c' = g c'"
  shows "sendRequest md5 w f r c = sendRequest md5 w g r c"
proof -
  have "f c1 = g c1" "f (snd (write_conn w t c1)) = g (snd (write_conn w t c1))" if "request_headers c r = Some (x, c1)" for x c1 t
    using assms same_sessions_trans [OF request_headers_sessions [OF that] write_conn_sessions] request_headers_sessions [OF that] by blast+
  then show ?thesis unfolding sendRequest_def Let_def
    by (intro if_cong refl bind_option_cong) (auto simp: case_prod_unfold split: option.split)
qed

lemma subsessions_left_same: "same_sessions c c' \<Longrightarrow> subsessions_left c' = subsessions_left c"
  by (simp add: same_sessions_def subsessions_left_def get_session_def split: option.split)

lemma Next_takes_one:
  assumes "Next c = Some c1"
  shows "subsessions_left c1 < subsessions_left c"
  using assms by (auto simp: Next_def Subsession_def subsessions_left_def get_session_def put_session_def idx_def bind_eq_Some_conv
    split: if_splits)

lemma put_subsession_left:
  assumes "put_subsession p sub c = Some c1"
  shows "subsessions_left c1 = subsessions_left c"
  using assms
  by (auto simp: put_subsession_def put_session_def subsessions_left_def get_session_def idx_def nth_list_update bind_eq_Some_conv
    split: if_splits option.splits)

lemma noted_subsession_left:
  assumes "put_subsession p sub (c\<lparr>client_calls := x\<rparr>) = Some c1"
  shows "subsessions_left c1 = subsessions_left c"
  using put_subsession_left [OF assms] by (simp add: subsessions_left_def get_session_def split: option.split)

text \<open>The result of the rounds does not depend on their bound, once it is above the number of the entries that are left.\<close>

lemma setup_rounds_enough:
  "subsessions_left c < m \<Longrightarrow> subsessions_left c < n \<Longrightarrow> setup_rounds m md5 w c = setup_rounds n md5 w c"
proof (induction m arbitrary: n c)
  case (Suc m)
  then obtain n' where n: "n = Suc n'" by (cases n) auto
  have again: "setup_rounds m md5 w c2 = setup_rounds n' md5 w c2" if "Next c = Some c1" "subsessions_left c2 = subsessions_left c1" for c1 c2
    using Next_takes_one [OF that(1)] that(2) Suc.prems n by (intro Suc.IH) simp_all
  have send: "sendRequest md5 w (setup_rounds m md5 w) r (c2\<lparr>cseq := k\<rparr>) = sendRequest md5 w (setup_rounds n' md5 w) r (c2\<lparr>cseq := k\<rparr>)"
    if "Next c = Some c1" "subsessions_left c2 = subsessions_left c1" for c1 c2 r k
  proof (rule sendRequest_cong)
    fix c' assume "same_sessions (c2\<lparr>cseq := k\<rparr>) c'"
    then have "same_sessions c2 c'" by (simp add: same_sessions_def)
    then have "subsessions_left c' = subsessions_left c2" by (rule subsessions_left_same)
    then show "setup_rounds m md5 w c' = setup_rounds n' md5 w c'" using again [OF that(1)] that(2) by simp
  qed
  show ?case unfolding n setup_rounds.simps
    using again send noted_subsession_left by (intro bind_option_cong refl) (auto split: option.split intro!: bind_option_cong)
qed simp

end
