(* ===== verification/ClientServer.thy ===== *)
theory ClientServer
  imports ServerClaims Descriptions RtspClient
begin

text \<open>
  The client and the server together: the client reads the description that the server makes, the server reads the ports from the
  client's SETUP, and the client takes over the session from the answer.
\<close>

section \<open>Descriptions\<close>

definition kind_of :: "string \<Rightarrow> media_kind" where
  "kind_of name = (if Split name CHR ''.'' ! 1 = ''264'' then H264FileMediaSubsession else M2TSFileMediaSubsession)"

lemma createNewSMS_is_file_media:
  assumes "createNewSMS w name = Some (Some y)"
  shows "\<exists>d. file_media w (kind_of name) d name = Some y \<and> plain d"
proof -
  have p: "plain ''H.264 Video''" "plain ''MPEG Transport Stream''" by (simp_all add: eol_def cr_def lf_def)
  consider "Split name CHR ''.'' ! 1 = ''264''" "file_media w H264FileMediaSubsession ''H.264 Video'' name = Some y"
    | "Split name CHR ''.'' ! 1 = ''ts''" "file_media w M2TSFileMediaSubsession ''MPEG Transport Stream'' name = Some y"
    using assms unfolding createNewSMS_def file_media_def Let_def by (auto split: if_splits)
  then show ?thesis
  proof cases
    case 1
    then show ?thesis using p(1) unfolding kind_of_def by (intro exI [of _ "''H.264 Video''"]) (simp del: plain_simps)
  next
    case 2
    then show ?thesis using p(2) unfolding kind_of_def by (intro exI [of _ "''MPEG Transport Stream''"]) (simp del: plain_simps)
  qed
qed

lemma file_media_fields:
  assumes "file_media w k d name = Some y"
  shows "ipAddr y = w_ip w" "descSDPStr y = d @ '', streamed by the Dor Media Server''" "infoSDPStr y = name" "streamName y = name"
  using assms file_media_shape [of w k d name] by (auto simp: NewServerMediaSession_def)

lemma plain_suffix: "plain d \<Longrightarrow> plain (d @ '', streamed by the Dor Media Server'')"
  by (simp add: eol_def cr_def lf_def)

lemma description_is_read:
  assumes "createNewSMS w name = Some (Some y)" and "w_openable w name" and "plain (w_ip w)" and "plain name" and "plain fmtp"
    and "w_auxSDPLine w n = ''a=fmtp:'' @ fmtp @ crlf" and "\<forall>j < n. w_auxSDPLine w j = []"
  shows "\<exists>sdp calls y' ms c l. GenerateSDPDescription w y = Some (sdp, calls, y') \<and> NewMediaSession host sdp = Some (Some ms) \<and>
    mediaSubsessions ms = Some c # l \<and> set l \<subseteq> {None} \<and> length l = 1023 \<and> subsessionIndex ms = 0 \<and> sessionName ms = descSDPStr y \<and>
    sessionDescription ms = name \<and> ms_controlPath ms = ''*'' \<and> described_as (kind_of name) c"
proof -
  obtain d where d: "file_media w (kind_of name) d name = Some y" "plain d" using createNewSMS_is_file_media [OF assms(1)] by blast
  note f = file_media_fields [OF d(1)]
  obtain calls y' where g: "GenerateSDPDescription w y =
      Some (sdp_text (session_texts y) @ media_text (kind_of name) @ crlf @ sdp_text (subsession_texts (kind_of name) fmtp), calls, y')"
    using description_text [OF d(1) assms(2,6,7)] by blast
  have "plain (ipAddr y)" "plain (descSDPStr y)" "plain (infoSDPStr y)" using assms(3,4) plain_suffix [OF d(2)] by (simp_all add: f)
  from read_description [OF this assms(5), of host "kind_of name"] g show ?thesis unfolding f(3) by (elim exE conjE) (intro exI conjI; assumption)
qed

text \<open>C22. Round trip of descriptions: the description that the server makes for a file it can open is read by the client, which gets
  one subsession with the medium, the codec, the payload type, the clock rate and the control path of the file, and the name of the
  file and its session. The file's name and the server's address have no line end, and the sink of an H.264 file says its parameter sets at some point.
\<close>

theorem client_reads_the_description:
  assumes "createNewSMS w name = Some (Some y)" and "w_openable w name" and "plain (w_ip w)" and "plain name" and "plain fmtp"
    and "w_auxSDPLine w n = ''a=fmtp:'' @ fmtp @ crlf" and "\<forall>j < n. w_auxSDPLine w j = []"
  shows "\<exists>sdp calls y' ms c l. GenerateSDPDescription w y = Some (sdp, calls, y') \<and> NewMediaSession host sdp = Some (Some ms) \<and>
    mediaSubsessions ms = Some c # l \<and> set l \<subseteq> {None} \<and> subsessionIndex ms = 0 \<and> sessionName ms = descSDPStr y \<and>
    sessionDescription ms = name \<and> ms_controlPath ms = ''*'' \<and> described_as (kind_of name) c"
  using description_is_read [OF assms, of host] by blast

lemma client_reads_the_description_witness:
  "\<exists>y sdp calls y' ms c l. GenerateSDPDescription (ex_world\<lparr>w_auxSDPLine := (\<lambda>i. if i < 3 then [] else ''a=fmtp:'' @ ''96'' @ crlf)\<rparr>) y = Some (sdp, calls, y') \<and>
     NewMediaSession ''client'' sdp = Some (Some ms) \<and> mediaSubsessions ms = Some c # l \<and> codecName c = ''H264''"
proof -
  let ?w = "ex_world\<lparr>w_auxSDPLine := (\<lambda>i. if i < 3 then [] else ''a=fmtp:'' @ ''96'' @ crlf)\<rparr>"
  obtain y where y: "createNewSMS ?w ''a.264'' = Some (Some y)" using createNewSMS_returns [OF ex_file(2)] by blast
  have "\<exists>sdp calls y' ms c l. GenerateSDPDescription ?w y = Some (sdp, calls, y') \<and> NewMediaSession ''client'' sdp = Some (Some ms) \<and>
    mediaSubsessions ms = Some c # l \<and> set l \<subseteq> {None} \<and> subsessionIndex ms = 0 \<and> sessionName ms = descSDPStr y \<and>
    sessionDescription ms = ''a.264'' \<and> ms_controlPath ms = ''*'' \<and> described_as (kind_of ''a.264'') c"
    by (rule client_reads_the_description [OF y, where n = 3 and fmtp = "''96''"]) (simp_all add: ex_world_def eol_def cr_def lf_def)
  then obtain sdp calls y' ms c l where "GenerateSDPDescription ?w y = Some (sdp, calls, y')" "NewMediaSession ''client'' sdp = Some (Some ms)"
      "mediaSubsessions ms = Some c # l" "described_as (kind_of ''a.264'') c" by blast
  moreover from this(4) have "codecName c = ''H264''" by (simp add: kind_of_def described_as_def kind_codec_def)
  ultimately show ?thesis by blast
qed

section \<open>The ports of the client\<close>

lemma setup_headers_udp:
  "boolFlags r = 0 \<Longrightarrow> protocolName sub \<noteq> ''UDP'' \<Longrightarrow> RTSPClient.lastSessionID c = [] \<Longrightarrow>
     setup_headers c r sub = (''Transport:'' @ '' RTP/AVP;unicast;'' @ client_port (clientPortNum sub) (clientPortNum sub + 1) @ crlf, c)"
  by (simp add: setup_headers_def createSessionString_def client_port_def Let_def)

text \<open>The server reads the ports from the client's SETUP: from the text of a SETUP of the client, without a session yet, the parser of the
  server reads transport over UDP with the two ports of the subsession, if \<open>Transport:\<close> does not occur in the URL or the
  headers before it.
\<close>

theorem server_reads_the_ports_of_setup:
  assumes "rq_subsession r = Some p" and "commandName r = ''SETUP''" and "contentStr r = []" and "boolFlags r = 0"
    and "get_subsession p c = Some sub" and "protocolName sub \<noteq> ''UDP''" and "RTSPClient.lastSessionID c = []"
    and "constructSubSessionURL c p = Some url" and "clientPortNum sub + 1 < 2 ^ 64"
    and "\<not> sublist ''Transport:'' (''SETUP '' @ url @ '' RTSP/1.0'' @ crlf @ ''CSeq: '' @ show_nat (rq_cseq r) @ crlf @
           createAuthenticatorStr md5 c ''SETUP'' (baseURL c) @ userAgentHeaderStr c)"
  shows "\<exists>h. request_headers c r = Some (Some (url, h), c) \<and>
    ParseTransportHeader (request_text md5 c r url h) =
      default_transport\<lparr>ClientRTPPortNum := clientPortNum sub, ClientRTCPPortNum := clientPortNum sub + 1\<rparr>"
proof -
  define h where "h = ''Transport:'' @ '' RTP/AVP;unicast;'' @ client_port (clientPortNum sub) (clientPortNum sub + 1) @ crlf"
  have "request_headers c r = Some (Some (url, h), c)"
    using assms(1,2,5,8) setup_headers_udp [OF assms(4,6,7)] by (simp add: request_headers_def h_def)
  moreover have "ParseTransportHeader (request_text md5 c r url h) =
      default_transport\<lparr>ClientRTPPortNum := clientPortNum sub, ClientRTCPPortNum := clientPortNum sub + 1\<rparr>"
    using transport_ports [OF assms(10), of "clientPortNum sub" "clientPortNum sub + 1"] assms(2,3,9)
    by (simp add: request_text_def h_def)
  ultimately show ?thesis by blast
qed

text \<open>A client that has connected to the server of the examples and has described the stream.\<close>

definition ex_client_world :: client_world where
  "ex_client_world = \<lparr>cw_hostname = ''client'', cw_ports = (\<lambda>n. Some (40001 + n)), cw_bindable = (\<lambda>p. True), cw_connects = True,
     cw_writable = (\<lambda>n. True), cw_now = \<lparr>tv_sec = 1700000000, tv_usec = 250000\<rparr>, cw_drand48 = 1, cw_drand48' = 3\<rparr>"

definition ex_client :: RTSPClient where
  "ex_client = client_New\<lparr>baseURL := ''rtsp://cam/a.264/'', RTSPClient.cseq := 2, tcpConn := True, conn_open := True\<rparr>"

definition ex_subsession :: MediaSubsession where
  "ex_subsession = NewMediaSubsession\<lparr>protocolName := ''RTP'', clientPortNum := 40002, controlPath := ''track1'',
     readSource := Some (H264VideoRTPSource 96 90000)\<rparr>"

definition ex_media :: MediaSession where
  "ex_media = \<lparr>cname = ''client'', sessionName = ''a.264'', ms_controlPath = ''*'', ms_absStartTime = [], ms_absEndTime = [],
     mediaSessionType = [], sessionDescription = [], ms_connectionEndpointName = [], subsessionNum = 1, subsessionIndex = 1,
     mediaSubsessions = [Some ex_subsession, None]\<rparr>"

text \<open>The same client after its SETUP.\<close>

definition ex_waiting :: RTSPClient where
  "ex_waiting = ex_client\<lparr>RTSPClient.cseq := 3, sessions := [ex_media], scs_Session := Some 0, scs_Subsession := Some (0, 0),
     requestsAwaitingResponse := \<lparr>index = 0, requestRecords = [setup_record 3 (0, 0)]\<rparr>\<rparr>"

lemma ex_waiting_fields:
  "get_session 0 ex_waiting = Some ex_media" "get_subsession (0, 0) ex_waiting = Some ex_subsession" "baseURL ex_waiting = ''rtsp://cam/a.264/''"
  "RTSPClient.lastSessionID ex_waiting = []" "userAgentHeaderStr ex_waiting = []" "dg_Realm (digest ex_waiting) = []"
  by (simp_all add: ex_waiting_def ex_client_def client_New_def NewDigest_def get_session_def get_subsession_def ex_media_def)

lemma server_reads_the_ports_of_setup_witness:
  "\<exists>h. request_headers ex_waiting (setup_record 3 (0, 0)) = Some (Some (''rtsp://cam/a.264/track1'', h), ex_waiting) \<and>
     ParseTransportHeader (request_text id ex_waiting (setup_record 3 (0, 0)) ''rtsp://cam/a.264/track1'' h) =
       default_transport\<lparr>ClientRTPPortNum := 40002, ClientRTCPPortNum := 40003\<rparr>"
proof -
  have url: "constructSubSessionURL ex_waiting (0, 0) = Some ''rtsp://cam/a.264/track1''"
    by (simp add: constructSubSessionURL_def ex_waiting_fields sessionURL_def) (simp add: ex_media_def ex_subsession_def)
  have "CHR ''n'' \<notin> set (show_nat 3)" using show_nat_digits [of 3] by (auto simp: is_digit_def)
  then have "\<not> sublist ''Transport:'' (''SETUP '' @ ''rtsp://cam/a.264/track1'' @ '' RTSP/1.0'' @ crlf @ ''CSeq: '' @
      show_nat (rq_cseq (setup_record 3 (0, 0))) @ crlf @ createAuthenticatorStr id ex_waiting ''SETUP'' (baseURL ex_waiting) @ userAgentHeaderStr ex_waiting)"
    by (auto dest!: set_mono_sublist simp: crlf_def cr_def lf_def setup_record_def newRequestRecord_def createAuthenticatorStr_def ex_waiting_fields)
  from server_reads_the_ports_of_setup [OF _ _ _ _ ex_waiting_fields(2) _ ex_waiting_fields(4) url _ this]
  show ?thesis by (simp add: setup_record_def newRequestRecord_def ex_subsession_def)
qed

section \<open>The answer to SETUP\<close>

lemma getLine_line: "plain l \<Longrightarrow> getLine (l @ crlf @ rest) = Some (rest, l)"
proof -
  assume "plain l"
  then have l: "\<forall>ch \<in> set l. \<not> eol ch" by (simp add: plain_def)
  have e: "eol cr" by (simp add: eol_def)
  have "takeWhile (\<lambda>ch. \<not> eol ch) (l @ crlf @ rest) = l" "dropWhile (\<lambda>ch. \<not> eol ch) (l @ crlf @ rest) = crlf @ rest"
    using l e by (simp_all add: crlf_def)
  then show ?thesis by (simp add: getLine_def crlf_def)
qed

lemma header_lines_step:
  "plain l \<Longrightarrow> l \<noteq> [] \<Longrightarrow> response_header l h c = Some (True, h1, c1) \<Longrightarrow> header_lines (l @ crlf @ rest) h c = header_lines rest h1 c1"
  by (subst header_lines.simps) (simp add: getLine_line)

lemma header_lines_end: "header_lines crlf h c = Some ([], h, c)"
  using getLine_line [of "[]" "[]"] by (subst header_lines.simps) simp

lemma checkForHeader_there: "v = [] \<or> \<not> blank (hd v) \<Longrightarrow> checkForHeader (name @ '' '' @ v) name = Some v"
  by (cases v) (simp_all add: checkForHeader_def blank_def)

lemma checkForHeader_other: "l \<noteq> [] \<Longrightarrow> name \<noteq> [] \<Longrightarrow> hd l \<noteq> hd name \<Longrightarrow> checkForHeader l name = None"
  by (cases l; cases name) (simp_all add: checkForHeader_def scan_lit_def)

lemma find_request_last:
  assumes "requestRecords q = rs @ [r]" and "index q \<le> length rs" and "\<forall>x \<in> set rs. rq_cseq x < rq_cseq r"
  shows "find_request (rq_cseq r) found q = (Some r, q\<lparr>index := 0\<rparr>)"
  using assms
proof (induction "length rs - index q" arbitrary: q)
  case 0
  then have i: "index q = length rs" by simp
  have "find_request (rq_cseq r) found q = find_request (rq_cseq r) (Some r) (q\<lparr>index := length rs + 1\<rparr>)"
    using 0 i by (subst find_request.simps) (simp add: dequeue_def)
  also have "\<dots> = (Some r, q\<lparr>index := 0\<rparr>)" using 0 by (subst find_request.simps) (simp add: dequeue_def)
  finally show ?case .
next
  case (Suc k)
  then have i: "index q < length rs" by simp
  then have "rq_cseq (rs ! index q) < rq_cseq r" using Suc.prems(3) by simp
  then have "find_request (rq_cseq r) found q = find_request (rq_cseq r) found (q\<lparr>index := index q + 1\<rparr>)"
    using Suc.prems i by (subst find_request.simps) (simp add: dequeue_def nth_append)
  also have "\<dots> = (Some r, q\<lparr>index := 0\<rparr>)"
    using Suc.hyps(1) [of "q\<lparr>index := index q + 1\<rparr>"] Suc.hyps(2) Suc.prems i by simp
  finally show ?case .
qed

lemma scan_int_show:
  assumes "n < 2 ^ 63"
  shows "sscanf [Verb_d_int] (show_nat n) = [SInt (int n)]"
proof -
  have d: "\<forall>x \<in> set (show_nat n). is_digit x" "show_nat n \<noteq> []" by (rule show_nat_digits, rule show_nat_nonempty)
  then have "is_digit (hd (show_nat n))" by simp
  then have h: "hd (show_nat n) \<noteq> CHR ''-''" "hd (show_nat n) \<noteq> CHR ''+''" "\<not> ascii_space (hd (show_nat n))"
    using digit_not_space by (auto simp: is_digit_def)
  have "takeWhile is_digit (show_nat n) = show_nat n" using d(1) by (simp add: takeWhile_eq_all_conv)
  then have "int_token (show_nat n) = show_nat n" using h by (simp add: int_token_def)
  moreover have "before_verb (show_nat n) = Some (show_nat n)" using before_verb_plain [OF d(2) h(3)] .
  ultimately show ?thesis using read_int_show [OF assms] by simp
qed

lemma header_cseq:
  assumes "0 < rq_cseq r" and "rq_cseq r < 2 ^ 63" and "requestRecords (requestsAwaitingResponse c) = rs @ [r]"
    and "index (requestsAwaitingResponse c) \<le> length rs" and "\<forall>x \<in> set rs. rq_cseq x < rq_cseq r"
  shows "response_header (''CSeq: '' @ show_nat (rq_cseq r)) h c =
    Some (True, h\<lparr>foundRequest := Some r\<rparr>, c\<lparr>requestsAwaitingResponse := (requestsAwaitingResponse c)\<lparr>index := 0\<rparr>\<rparr>)"
proof -
  have d: "is_digit (hd (show_nat (rq_cseq r)))" using show_nat_digits [of "rq_cseq r"] show_nat_nonempty [of "rq_cseq r"] by simp
  then have "\<not> blank (hd (show_nat (rq_cseq r)))" by (auto simp: blank_def is_digit_def)
  then have "checkForHeader (''CSeq: '' @ show_nat (rq_cseq r)) ''CSeq:'' = Some (show_nat (rq_cseq r))"
    using checkForHeader_there [of "show_nat (rq_cseq r)" "''CSeq:''"] by simp
  then show ?thesis using find_request_last [OF assms(3-5), of "foundRequest h"] scan_int_show [OF assms(2)] assms(1)
    by (simp add: response_header_def)
qed

lemma header_date: "response_header (''Date: '' @ d) h c = Some (True, h, c)"
proof -
  have "checkForHeader (''Date: '' @ d) n = None" if "n \<noteq> []" "hd n \<noteq> CHR ''D''" for n
    by (rule checkForHeader_other) (use that in simp_all)
  then show ?thesis by (simp add: response_header_def)
qed

lemma header_transport:
  "t = [] \<or> \<not> blank (hd t) \<Longrightarrow> response_header (''Transport: '' @ t) h c = Some (True, h\<lparr>transportParamsStr := t\<rparr>, c)"
  using checkForHeader_there [of t "''Transport:''"] checkForHeader_other [of "''Transport: '' @ t"] by (simp add: response_header_def)

lemma header_challenge:
  assumes "t \<noteq> []" and "\<not> blank (hd t)" and "wwwAuthenticateParamsStr h = []"
  shows "response_header (''WWW-Authenticate: '' @ t) h c = Some (True, h\<lparr>wwwAuthenticateParamsStr := t\<rparr>, c)"
proof -
  have "checkForHeader (''WWW-Authenticate: '' @ t) n = None" if "n \<noteq> []" "hd n \<noteq> CHR ''W''" for n
    by (rule checkForHeader_other) (use that in simp_all)
  then show ?thesis using checkForHeader_there [of t "''WWW-Authenticate:''"] assms by (simp add: response_header_def)
qed

lemma header_session:
  "t = [] \<or> \<not> blank (hd t) \<Longrightarrow> response_header (''Session: '' @ t) h c = Some (True, h\<lparr>sessionParamsStr := t\<rparr>, c)"
  using checkForHeader_there [of t "''Session:''"] checkForHeader_other [of "''Session: '' @ t"] by (simp add: response_header_def)

text \<open>The parameters of a transport over UDP, as the server writes them.\<close>

definition udp_params :: "string \<Rightarrow> string \<Rightarrow> nat \<Rightarrow> nat \<Rightarrow> nat \<Rightarrow> nat \<Rightarrow> string list" where
  "udp_params dst src p1 p2 q1 q2 =
     [''RTP/AVP'', ''unicast'', ''destination='' @ dst, ''source='' @ src, ''client_port='' @ show_nat p1 @ ''-'' @ show_nat p2,
      ''server_port='' @ show_nat q1 @ ''-'' @ show_nat q2]"

definition address :: "string \<Rightarrow> bool" where
  "address a \<longleftrightarrow> a \<noteq> [] \<and> (\<forall>ch \<in> set a. \<not> ascii_space ch \<and> ch \<noteq> CHR '';'')"

lemma scan_text_other: "l \<noteq> [] \<Longrightarrow> t \<noteq> [] \<Longrightarrow> hd l \<noteq> hd t \<Longrightarrow> sscanf (Text t # fmt) l = []"
  by (cases l; cases t) (simp_all add: scan_lit_def)

lemma scan_number_there: "n < 2 ^ 64 \<Longrightarrow> rest = [] \<or> \<not> is_digit (hd rest) \<Longrightarrow> scan_number name (name @ show_nat n @ rest) = [Num n]"
  unfolding scan_number_def sscanf.simps(2) scan_lit_append option.case by (subst sscanf_uint) simp_all

lemma scan_word_there: "address a \<Longrightarrow> scan_word name (name @ a) = [Str a]"
  using sscanf_s [of a "[]" "[]"] by (simp add: scan_word_def address_def)

lemma scans_other:
  assumes "l \<noteq> []" and "name \<noteq> []" and "hd l \<noteq> hd name"
  shows "scan_number name l = []" "scan_word name l = []" "scan_two name l = []"
  using scan_text_other [OF assms] by (simp_all add: scan_number_def scan_word_def scan_two_def)

lemma transport_param_plain: "transport_param v ''RTP/AVP'' = v" "transport_param v ''unicast'' = v\<lparr>tv_isMulticast := False\<rparr>"
  by (simp_all add: transport_param_def multicast_ports_def scan_number_def scan_word_def scan_two_def scan_lit_def)

lemma transport_param_addresses:
  assumes "address a"
  shows "transport_param v (''destination='' @ a) = v\<lparr>foundDestinationStr := a\<rparr>" "transport_param v (''source='' @ a) = v\<lparr>foundServerAddressStr := a\<rparr>"
proof -
  have o: "scan_number ''server_port='' (''destination='' @ a) = []" "scan_number ''client_port='' (''destination='' @ a) = []"
    "scan_number ''client_port='' (''source='' @ a) = []" "scan_word ''destination='' (''source='' @ a) = []"
    by (rule scans_other; simp)+
  have "scan_number ''server_port='' (''source='' @ a) = []" by (simp add: scan_number_def scan_lit_def)
  then show "transport_param v (''destination='' @ a) = v\<lparr>foundDestinationStr := a\<rparr>" "transport_param v (''source='' @ a) = v\<lparr>foundServerAddressStr := a\<rparr>"
    using o scan_word_there [OF assms] by (simp_all add: transport_param_def del: append.simps) simp_all
qed

lemma transport_param_ports:
  assumes "p < 2 ^ 64"
  shows "transport_param v (''client_port='' @ show_nat p @ ''-'' @ t) = v\<lparr>tv_clientPortNum := p, foundClientPortNum := True\<rparr>"
    "transport_param v (''server_port='' @ show_nat p @ ''-'' @ t) = v\<lparr>foundServerPortNum := True\<rparr>"
proof -
  have "scan_number ''server_port='' (''client_port='' @ show_nat p @ ''-'' @ t) = []" by (rule scans_other) simp_all
  moreover have "scan_number n (n @ show_nat p @ ''-'' @ t) = [Num p]" for n by (rule scan_number_there [OF assms]) (simp add: is_digit_def)
  ultimately show "transport_param v (''client_port='' @ show_nat p @ ''-'' @ t) = v\<lparr>tv_clientPortNum := p, foundClientPortNum := True\<rparr>"
    "transport_param v (''server_port='' @ show_nat p @ ''-'' @ t) = v\<lparr>foundServerPortNum := True\<rparr>"
    by (simp_all add: transport_param_def del: append.simps)
qed

definition join_params :: "string list \<Rightarrow> string" where
  "join_params ps = concat (case ps of [] \<Rightarrow> [] | x # xs \<Rightarrow> x # map (\<lambda>y. CHR '';'' # y) xs)"

lemma Split_join: "ps \<noteq> [] \<Longrightarrow> \<forall>x \<in> set ps. CHR '';'' \<notin> set x \<Longrightarrow> Split (join_params ps) CHR '';'' = ps"
proof (induction ps)
  case (Cons x ps)
  show ?case
  proof (cases ps)
    case Nil
    then show ?thesis using Cons.prems by (simp add: join_params_def Split_plain)
  next
    case (Cons y ys)
    then have "join_params (x # ps) = x @ CHR '';'' # join_params ps" by (simp add: join_params_def)
    then show ?thesis using Cons.IH Cons.prems Cons by (simp add: Split_append)
  qed
qed simp

lemma no_semicolon: "CHR '';'' \<notin> set (show_nat n)"
  using show_nat_digits [of n] by (auto simp: is_digit_def)

lemma transport_of_server:
  assumes "address dst" and "address src" and "p1 < 2 ^ 64" and "q1 < 2 ^ 64"
  shows "parseTransportParams (join_params (udp_params dst src p1 p2 q1 q2)) =
    Some \<lparr>tp_serverPortNum = 0, tp_rtpChannelID = 0xFF, tp_rtcpChannelID = 0xFF, tp_serverAddressStr = src\<rparr>"
proof -
  have "CHR '';'' \<notin> set dst" "CHR '';'' \<notin> set src" using assms(1,2) by (auto simp: address_def)
  then have "\<forall>x \<in> set (udp_params dst src p1 p2 q1 q2). CHR '';'' \<notin> set x" by (simp add: udp_params_def no_semicolon)
  then have s: "Split (join_params (udp_params dst src p1 p2 q1 q2)) CHR '';'' = udp_params dst src p1 p2 q1 q2"
    by (intro Split_join) (simp_all add: udp_params_def)
  show ?thesis unfolding parseTransportParams_def s
    by (simp only: udp_params_def foldl_Cons foldl_Nil transport_param_plain transport_param_addresses [OF assms(1)]
      transport_param_addresses [OF assms(2)] transport_param_ports [OF assms(3)] transport_param_ports [OF assms(4)] Let_def) simp
qed

lemma udp_transport_lines:
  "udp_transport sw ident p1 p2 q1 q2 x =
     ''RTSP/1.0 200 OK'' @ crlf @ (''CSeq: '' @ currentCSeq x) @ crlf @ (''Date: '' @ w_date sw) @ crlf @
     (''Transport: '' @ join_params (udp_params (remoteAddr x) (localAddr x) p1 p2 q1 q2)) @ crlf @ (''Session: '' @ ident) @ crlf @ crlf"
  by (simp add: udp_transport_def cseq_line_def DateHeader_def join_params_def udp_params_def)

lemma response_line:
  assumes "ds \<noteq> []" and "\<forall>ch \<in> set ds. is_digit ch" and "read_int ds = Some n" and "t = [] \<or> \<not> is_digit (hd t)"
  shows "parseResponseCode (''RTSP/1.0 '' @ ds @ t) = Some (n, True)"
proof -
  have h: "is_digit (hd ds)" using assms(1,2) by simp
  then have hd: "hd ds \<noteq> CHR ''-''" "hd ds \<noteq> CHR ''+''" "\<not> ascii_space (hd ds)" using digit_not_space by (auto simp: is_digit_def)
  have v: "sscanf (Verb_s # fmt) (''1.0'' @ '' '' @ ds @ t) = Str ''1.0'' # sscanf fmt ('' '' @ ds @ t)" for fmt
    by (rule sscanf_s) (simp_all add: ascii_space_def)
  have "match_blanks ('' '' @ ds @ t) = Some (ds @ t)" using match_blanks_one [of "ds @ t"] hd assms(1) by simp
  moreover have "before_verb (ds @ t) = Some (ds @ t)" using hd assms(1) by (intro before_verb_plain) simp_all
  moreover have "takeWhile is_digit (ds @ t) = ds" using assms(2,4) by (cases t) simp_all
  then have "int_token (ds @ t) = ds" using hd assms(1) by (simp add: int_token_def)
  ultimately have "sscanf [Blanks, Verb_d_int] ('' '' @ ds @ t) = [SInt n]" using assms(3) by simp
  then have "sscanf [Verb_s, Blanks, Verb_d_int] (''1.0'' @ '' '' @ ds @ t) = [Str ''1.0'', SInt n]" using v by simp
  moreover have "scan_lit ''RTSP/'' (''RTSP/1.0 '' @ ds @ t) = Some (''1.0'' @ '' '' @ ds @ t)" by (simp add: scan_lit_def)
  ultimately show ?thesis unfolding parseResponseCode_def by (simp only: sscanf.simps(2) option.case) simp
qed

lemma response_ok_line: "parseResponseCode ''RTSP/1.0 200 OK'' = Some (200, True)"
  using response_line [of "''200''" 200 "'' OK''"] by (simp add: is_digit_def read_int_def read_nat_def digit_value_def)

lemma response_unauthorized_line: "parseResponseCode ''RTSP/1.0 401 Unauthorized'' = Some (401, True)"
  using response_line [of "''401''" 401 "'' Unauthorized''"] by (simp add: is_digit_def read_int_def read_nat_def digit_value_def)

lemma address_plain: "address a \<Longrightarrow> plain a"
  using line_end_space by (auto simp: address_def plain_def eol_def)

lemma plain_params: "address dst \<Longrightarrow> address src \<Longrightarrow> plain (join_params (udp_params dst src p1 p2 q1 q2))"
  using address_plain [of dst] address_plain [of src] by (simp add: join_params_def udp_params_def eol_def cr_def lf_def)

lemma blank_space: "blank ch \<Longrightarrow> ascii_space ch"
  by (auto simp: blank_def ascii_space_def)

text \<open>The client before the answer: the request \<open>r\<close> was sent last and waits for it.\<close>

definition awaits :: "RequestRecord \<Rightarrow> RTSPClient \<Rightarrow> bool" where
  "awaits r c \<longleftrightarrow> (\<exists>rs. requestRecords (requestsAwaitingResponse c) = rs @ [r] \<and> index (requestsAwaitingResponse c) \<le> length rs \<and>
     (\<forall>x \<in> set rs. rq_cseq x < rq_cseq r)) \<and> 0 < rq_cseq r \<and> rq_cseq r < 2 ^ 63"

definition answered :: "RTSPClient \<Rightarrow> RTSPClient" where
  "answered c = c\<lparr>requestsAwaitingResponse := (requestsAwaitingResponse c)\<lparr>index := 0\<rparr>\<rparr>"

lemma read_setup_answer:
  assumes r: "awaits r c" "commandName r = ''SETUP''" "rq_subsession r = Some p" "handler r = AfterSETUP" and sub: "get_subsession p c = Some sub"
    and x: "currentCSeq x = show_nat (rq_cseq r)" "address (remoteAddr x)" "address (localAddr x)" and "plain (w_date sw)" and "address ident"
    and "p1 < 2 ^ 64" and "q1 < 2 ^ 64"
  shows "\<exists>c1. handleResponseBytes md5 w (udp_transport sw ident p1 p2 q1 q2 x) c = continueAfterSETUP md5 w 0 c1 \<and>
    put_subsession p (sub\<lparr>sessionID := ident, rtpChannelID := 0xFF, rtcpChannelID := 0xFF, serverPortNum := 0, connectionEndpointName := localAddr x\<rparr>)
      ((answered c)\<lparr>lastSessionID := ident\<rparr>) = Some c1"
proof -
  define t where "t = join_params (udp_params (remoteAddr x) (localAddr x) p1 p2 q1 q2)"
  define h where "h = no_headers\<lparr>foundRequest := Some r, transportParamsStr := t, sessionParamsStr := ident\<rparr>"
  define rest where "rest = (''CSeq: '' @ currentCSeq x) @ crlf @ (''Date: '' @ w_date sw) @ crlf @ (''Transport: '' @ t) @ crlf @ (''Session: '' @ ident) @ crlf @ crlf"
  obtain rs where q: "requestRecords (requestsAwaitingResponse c) = rs @ [r]" "index (requestsAwaitingResponse c) \<le> length rs"
      "\<forall>x \<in> set rs. rq_cseq x < rq_cseq r" "0 < rq_cseq r" "rq_cseq r < 2 ^ 63" using r(1) by (auto simp: awaits_def)
  have "hd t = CHR ''R''" by (simp add: t_def join_params_def udp_params_def)
  then have t: "t = [] \<or> \<not> blank (hd t)" by (simp add: blank_def)
  have "ident \<noteq> []" "\<not> ascii_space (hd ident)" using assms(10) by (simp_all add: address_def)
  then have i: "ident = [] \<or> \<not> blank (hd ident)" "ident \<noteq> []" using blank_space by blast+
  have pl: "plain (''CSeq: '' @ currentCSeq x)" "plain (''Date: '' @ w_date sw)" "plain (''Transport: '' @ t)" "plain (''Session: '' @ ident)"
    using assms(9) plain_params [OF x(2,3)] address_plain [OF assms(10)] x(1) by (simp_all add: t_def eol_def cr_def lf_def)
  have "header_lines rest no_headers c = header_lines crlf h (answered c)"
    unfolding rest_def x(1)
    by (subst header_lines_step [OF _ _ header_cseq [OF q(4,5,1,2,3)]], use pl(1) x(1) in simp, simp)
      (subst header_lines_step [OF pl(2) _ header_date], simp, subst header_lines_step [OF pl(3) _ header_transport [OF t]], simp,
       subst header_lines_step [OF pl(4) _ header_session [OF i(1)]], simp, simp add: h_def no_headers_def answered_def)
  then have lines: "header_lines rest no_headers c = Some ([], h, answered c)" by (simp add: header_lines_end)
  have sub': "get_subsession p (answered c) = Some sub" using sub by (simp add: answered_def get_subsession_def)
  then obtain c1 where c1: "put_subsession p (sub\<lparr>sessionID := ident, rtpChannelID := 0xFF, rtcpChannelID := 0xFF, serverPortNum := 0, connectionEndpointName := localAddr x\<rparr>)
      ((answered c)\<lparr>lastSessionID := ident\<rparr>) = Some c1" by (auto simp: put_subsession_def get_subsession_def bind_simps)
  have "handleSetupResponse (Some p) ident t (answered c) = Some c1"
    using i(2) sub' c1 transport_of_server [OF x(2,3) assms(11,12), of p2 q2] by (simp add: handleSetupResponse_def t_def)
  then have effect: "response_effect md5 w 200 h r (answered c) = Some (False, c1)"
    using r(2,3) by (simp add: response_effect_def h_def)
  have "udp_transport sw ident p1 p2 q1 q2 x = ''RTSP/1.0 200 OK'' @ crlf @ rest" unfolding udp_transport_lines rest_def t_def ..
  moreover have "getLine (''RTSP/1.0 200 OK'' @ crlf @ rest) = Some (rest, ''RTSP/1.0 200 OK'')"
    by (rule getLine_line) (simp add: eol_def cr_def lf_def)
  ultimately have "handleResponseBytes md5 w (udp_transport sw ident p1 p2 q1 q2 x) c = Handle md5 w (handler r) 0 (publicParamsStr h) c1"
    using response_ok_line lines effect by (simp add: handleResponseBytes_def h_def)
  then show ?thesis using c1 r(4) by (auto simp: Handle_def)
qed

section \<open>The next request of the client\<close>

definition can_send :: "client_world \<Rightarrow> RTSPClient \<Rightarrow> bool" where
  "can_send w c \<longleftrightarrow> tunnelOverHTTPPortNum c = 0 \<and> conn_open c \<and> cw_writable w (writes c)"

definition after_sending :: "RequestRecord \<Rightarrow> string \<Rightarrow> RTSPClient \<Rightarrow> RTSPClient" where
  "after_sending r t c = c\<lparr>cseq := rq_cseq r, writes := writes c + 1, sent := sent c @ [t],
     requestsAwaitingResponse := queue_enqueue r (requestsAwaitingResponse c)\<rparr>"

lemma sendRequest_runs:
  assumes "can_send w c" and "request_headers (c\<lparr>cseq := rq_cseq r\<rparr>) r = Some (Some (url, h), c\<lparr>cseq := rq_cseq r\<rparr>)"
  shows "sendRequest md5 w on_error r (c\<lparr>cseq := rq_cseq r\<rparr>) = Some (after_sending r (request_text md5 c r url h) c)"
  using assms by (simp add: sendRequest_def can_send_def write_conn_def after_sending_def request_text_def createAuthenticatorStr_def Let_def)

definition play_record :: "nat \<Rightarrow> nat \<Rightarrow> RequestRecord" where
  "play_record n i = (newRequestRecord n ''PLAY'' AfterPLAY)\<lparr>rq_session := Some i\<rparr>"

lemma sendPlay_runs:
  assumes "can_send w c" and "RTSPClient.lastSessionID c \<noteq> []"
  shows "sendPlayCommand md5 w (Some i) c = Some (after_sending (play_record (RTSPClient.cseq c + 1) i)
    (request_text md5 c (play_record (RTSPClient.cseq c + 1) i) (baseURL c) (createSessionString (RTSPClient.lastSessionID c) @ createRangeString [] [])) c)"
proof -
  define r where "r = play_record (RTSPClient.cseq c + 1) i"
  have "request_headers (c\<lparr>cseq := rq_cseq r\<rparr>) r = Some (Some (baseURL c, createSessionString (RTSPClient.lastSessionID c) @ createRangeString [] []), c\<lparr>cseq := rq_cseq r\<rparr>)"
    using assms(2) by (simp add: request_headers_def r_def play_record_def newRequestRecord_def in_session_commands_def)
  from sendRequest_runs [OF assms(1) this, of md5 "continueAfterPLAY md5 w (- 1)"]
  show ?thesis by (simp add: sendPlayCommand_def r_def play_record_def newRequestRecord_def)
qed

lemma no_subsession_left:
  assumes "scs_Session c = Some i" and "get_session i c = Some ms" and "idx (mediaSubsessions ms) (subsessionIndex ms) = Some None"
  shows "setupNextSubSession md5 w c =
    sendPlayCommand md5 w (Some i) ((put_session i (ms\<lparr>subsessionIndex := subsessionIndex ms + 1\<rparr>) c)\<lparr>scs_Subsession := None\<rparr>)"
  using assms by (simp add: setupNextSubSession_def Next_def Subsession_def put_session_def)

lemma initiate_sockets_runs:
  assumes "\<forall>j < k. \<exists>p. ports (i + j) = Some p \<and> odd p" and "ports (i + k) = Some p" and "even p" and "p \<noteq> 0" and "bindable (p + 1)"
  shows "\<exists>s'. initiate_sockets ports bindable i s = Some (True, s') \<and> clientPortNum s' = p \<and> protocolName s' = protocolName s \<and>
    codecName s' = codecName s \<and> controlPath s' = controlPath s \<and> readSource s' = readSource s \<and> rtpPayloadFormat s' = rtpPayloadFormat s \<and>
    MediaSubsession.rtpTimestampFrequency s' = MediaSubsession.rtpTimestampFrequency s"
  using assms
proof (induction k arbitrary: i s)
  case 0
  then show ?case by (subst initiate_sockets.simps) simp
next
  case (Suc k)
  then obtain p0 where p0: "ports i = Some p0" "odd p0" by force
  then have "p0 \<noteq> 0" using odd_pos by auto
  define s1 where "s1 = s\<lparr>rtpSocket := Some (Close \<lparr>portNum = 0, gs_open = True, dests = []\<rparr>)\<rparr>"
  have "\<exists>s'. initiate_sockets ports bindable (i + 1) s1 = Some (True, s') \<and> clientPortNum s' = p \<and> protocolName s' = protocolName s1 \<and>
    codecName s' = codecName s1 \<and> controlPath s' = controlPath s1 \<and> readSource s' = readSource s1 \<and> rtpPayloadFormat s' = rtpPayloadFormat s1 \<and>
    MediaSubsession.rtpTimestampFrequency s' = MediaSubsession.rtpTimestampFrequency s1"
    by (rule Suc.IH) (use Suc.prems in \<open>auto simp: add.assoc dest: spec [of _ "Suc _"]\<close>)
  moreover have "initiate_sockets ports bindable i s = initiate_sockets ports bindable (i + 1) s1"
    using p0 \<open>p0 \<noteq> 0\<close> by (subst initiate_sockets.simps) (simp add: s1_def)
  ultimately show ?case by (simp add: s1_def)
qed

lemma Initiate_runs:
  assumes "described_as H264FileMediaSubsession sub" and "\<forall>j < k. \<exists>p. ports j = Some p \<and> odd p" and "ports k = Some p" and "even p" and "p \<noteq> 0"
    and "bindable (p + 1)"
  shows "\<exists>sub' report ns. Initiate ports bindable now random random' name sub = Some (True, rtcp_calls report (Some ns), sub') \<and> clientPortNum sub' = p \<and> protocolName sub' = ''RTP'' \<and>
    controlPath sub' = ''track1'' \<and> readSource sub' = Some (H264VideoRTPSource 96 90000) \<and> rtcpBandwidth sub' \<noteq> None"
proof -
  have d: "readSource sub = None" "codecName sub = ''H264''" "protocolName sub = ''RTP''" "controlPath sub = ''track1''" "rtpPayloadFormat sub = 96"
      "MediaSubsession.rtpTimestampFrequency sub = 90000"
    using assms(1) by (simp_all add: described_as_def kind_codec_def kind_payload_def)
  obtain s' where s': "initiate_sockets ports bindable 0 sub = Some (True, s')" "clientPortNum s' = p" "protocolName s' = ''RTP''" "codecName s' = ''H264''"
      "controlPath s' = ''track1''" "readSource s' = None" "rtpPayloadFormat s' = 96" "MediaSubsession.rtpTimestampFrequency s' = 90000"
    using initiate_sockets_runs [of k ports 0 p bindable sub] assms(2-6) d by auto
  have "\<not> EqualFold ''RTP'' ''UDP''" by (simp add: EqualFold_def lower_def char_of_def)
  moreover define bw where "bw = (if bandWidth s' \<noteq> 0 then bandWidth s' + bandWidth s' div 20 else 500)"
  moreover obtain report ns r where "newRTCPInstance now [] random random' bw name None None = Some (report, Some ns, r)"
    using newRTCPInstance_sleeps by blast
  ultimately show ?thesis using s' d(1,2)
    by (intro exI [of _ "s'\<lparr>readSource := Some (H264VideoRTPSource 96 90000), rtcpBandwidth := Some bw\<rparr>"] exI [of _ report] exI [of _ ns])
      (simp add: Initiate_def createSourceObject_def Let_def split: if_splits)
qed

lemma describe_to_setup:
  assumes "NewMediaSession (cw_hostname w) sdp = Some (Some ms)" and "mediaSubsessions ms = Some sub # l" and "subsessionIndex ms = 0"
    and "ms_controlPath ms = ''*''" and "described_as H264FileMediaSubsession sub" and "\<forall>j < k. \<exists>p. cw_ports w j = Some p \<and> odd p"
    and "cw_ports w k = Some p" and "even p" and "p \<noteq> 0" and "cw_bindable w (p + 1)" and "can_send w c" and "RTSPClient.lastSessionID c = []"
  shows "\<exists>sub' c2 report ns. continueAfterDESCRIBE md5 w 0 sdp c = Some (after_sending (setup_record (RTSPClient.cseq c + 1) (length (sessions c), 0))
      (request_text md5 c (setup_record (RTSPClient.cseq c + 1) (length (sessions c), 0)) (baseURL c @ ''track1'')
        (''Transport: RTP/AVP;unicast;client_port='' @ show_nat p @ ''-'' @ show_nat (p + 1) @ crlf)) c2) \<and>
    c2 = c\<lparr>sessions := sessions c @ [ms\<lparr>subsessionIndex := 1, mediaSubsessions := Some sub' # l\<rparr>],
      scs_Session := Some (length (sessions c)), scs_Subsession := Some (length (sessions c), 0),
      client_calls := client_calls c @ map (\<lambda>x. ((length (sessions c), 0), Rtcp x)) (rtcp_calls report (Some ns))\<rparr> \<and>
    clientPortNum sub' = p \<and> readSource sub' = Some (H264VideoRTPSource 96 90000)"
proof -
  define i where "i = length (sessions c)"
  obtain sub' report ns where sub': "Initiate (cw_ports w) (cw_bindable w) (cw_now w) (cw_drand48 w) (cw_drand48' w) (cname ms) sub =
        Some (True, rtcp_calls report (Some ns), sub')" "clientPortNum sub' = p" "protocolName sub' = ''RTP''"
      "controlPath sub' = ''track1''" "readSource sub' = Some (H264VideoRTPSource 96 90000)"
    using Initiate_runs [where ports = "cw_ports w" and bindable = "cw_bindable w", OF assms(5-10)] by blast
  define ms' where "ms' = ms\<lparr>subsessionIndex := 1, mediaSubsessions := Some sub' # l\<rparr>"
  define c1 where "c1 = c\<lparr>sessions := sessions c @ [ms], scs_Session := Some i\<rparr>"
  define calls where "calls = client_calls c @ map (\<lambda>x. ((i, 0), Rtcp x)) (rtcp_calls report (Some ns))"
  define c2 where "c2 = c\<lparr>sessions := sessions c @ [ms'], scs_Session := Some i, scs_Subsession := Some (i, 0), client_calls := calls\<rparr>"
  define r where "r = setup_record (RTSPClient.cseq c + 1) (i, 0)"
  define h where "h = ''Transport: RTP/AVP;unicast;client_port='' @ show_nat p @ ''-'' @ show_nat (p + 1) @ crlf"
  have next1: "Next c1 = Some (c\<lparr>sessions := sessions c @ [ms\<lparr>subsessionIndex := 1\<rparr>], scs_Session := Some i, scs_Subsession := Some (i, 0)\<rparr>)"
    using assms(2,3) by (simp add: Next_def c1_def get_session_def i_def Subsession_def put_session_def)
  have put2: "put_subsession (i, 0) sub' (c\<lparr>sessions := sessions c @ [ms\<lparr>subsessionIndex := 1\<rparr>], scs_Session := Some i, scs_Subsession := Some (i, 0),
      client_calls := calls\<rparr>) = Some c2"
    using assms(2) by (simp add: put_subsession_def put_session_def i_def c2_def ms'_def)
  have get2: "get_subsession (i, 0) (c2\<lparr>RTSPClient.cseq := n\<rparr>) = Some sub'" "get_session i (c2\<lparr>RTSPClient.cseq := n\<rparr>) = Some ms'" for n
    by (simp_all add: get_subsession_def get_session_def c2_def i_def ms'_def)
  have "\<not> isAbsoluteURL ''track1''" by simp
  then have "request_headers (c2\<lparr>RTSPClient.cseq := rq_cseq r\<rparr>) r = Some (Some (baseURL c @ ''track1'', h), c2\<lparr>RTSPClient.cseq := rq_cseq r\<rparr>)"
    using get2 sub'(2-4) assms(4,12)
    by (simp add: request_headers_def r_def setup_record_def newRequestRecord_def constructSubSessionURL_def sessionURL_def setup_headers_def
      createSessionString_def h_def c2_def ms'_def del: isAbsoluteURL.simps)
  moreover have "can_send w c2" using assms(11) by (simp add: can_send_def c2_def)
  ultimately have run: "sendRequest md5 w e r (c2\<lparr>RTSPClient.cseq := rq_cseq r\<rparr>) = Some (after_sending r (request_text md5 c2 r (baseURL c @ ''track1'') h) c2)" for e
    by (intro sendRequest_runs)
  have "continueAfterDESCRIBE md5 w 0 sdp c = setupNextSubSession md5 w c1"
    using assms(1,2) by (simp add: continueAfterDESCRIBE_def HasSubsessions_def c1_def i_def)
  also have "setupNextSubSession md5 w c1 = setup_rounds (Suc (length (mediaSubsessions ms))) md5 w c1"
    by (simp add: setupNextSubSession_def c1_def get_session_def i_def)
  also have "\<dots> = Some (after_sending r (request_text md5 c2 r (baseURL c @ ''track1'') h) c2)"
    using next1 put2 sub'(1) assms(2) run
    by (simp add: get_subsession_def get_session_def calls_def i_def r_def setup_record_def newRequestRecord_def) (simp add: c2_def)
  also have "request_text md5 c2 r (baseURL c @ ''track1'') h = request_text md5 c r (baseURL c @ ''track1'') h"
    by (simp add: request_text_def createAuthenticatorStr_def c2_def)
  finally show ?thesis using sub'(2,5) unfolding r_def i_def h_def
    by (intro exI [of _ sub'] exI [of _ c2] exI [of _ report] exI [of _ ns] conjI) (simp_all add: c2_def ms'_def i_def calls_def)
qed

text \<open>From the description to SETUP: a client that gets the description of an H.264 file makes its session, takes the first even port
  that the system gives it and the odd port after it, and sends one SETUP for the track, with these ports; the request waits for
  its answer, and the subsession has its RTP source. The last thing before the request is sent is the sleep in the constructor of
  the RTCP instance.
\<close>

theorem description_leads_to_setup:
  assumes "NewMediaSession (cw_hostname w) sdp = Some (Some ms)" and "mediaSubsessions ms = Some sub # l" and "subsessionIndex ms = 0"
    and "ms_controlPath ms = ''*''" and "described_as H264FileMediaSubsession sub" and "\<forall>j < k. \<exists>p. cw_ports w j = Some p \<and> odd p"
    and "cw_ports w k = Some p" and "even p" and "p \<noteq> 0" and "cw_bindable w (p + 1)" and "can_send w c" and "RTSPClient.lastSessionID c = []"
  shows "\<exists>c' sub'. continueAfterDESCRIBE md5 w 0 sdp c = Some c' \<and>
    sent c' = sent c @ [request_text md5 c (setup_record (RTSPClient.cseq c + 1) (length (sessions c), 0)) (baseURL c @ ''track1'')
      (''Transport: RTP/AVP;unicast;client_port='' @ show_nat p @ ''-'' @ show_nat (p + 1) @ crlf)] \<and>
    requestsAwaitingResponse c' = queue_enqueue (setup_record (RTSPClient.cseq c + 1) (length (sessions c), 0)) (requestsAwaitingResponse c) \<and>
    scs_Session c' = Some (length (sessions c)) \<and> scs_Subsession c' = Some (length (sessions c), 0) \<and>
    get_subsession (length (sessions c), 0) c' = Some sub' \<and> clientPortNum sub' = p \<and> readSource sub' = Some (H264VideoRTPSource 96 90000) \<and>
    (\<exists>ns. last (client_calls c') = ((length (sessions c), 0), Rtcp (Slept ns)))"
proof -
  obtain sub' c2 report ns where "continueAfterDESCRIBE md5 w 0 sdp c = Some (after_sending (setup_record (RTSPClient.cseq c + 1) (length (sessions c), 0))
      (request_text md5 c (setup_record (RTSPClient.cseq c + 1) (length (sessions c), 0)) (baseURL c @ ''track1'')
        (''Transport: RTP/AVP;unicast;client_port='' @ show_nat p @ ''-'' @ show_nat (p + 1) @ crlf)) c2)"
    and c2: "c2 = c\<lparr>sessions := sessions c @ [ms\<lparr>subsessionIndex := 1, mediaSubsessions := Some sub' # l\<rparr>],
      scs_Session := Some (length (sessions c)), scs_Subsession := Some (length (sessions c), 0),
      client_calls := client_calls c @ map (\<lambda>x. ((length (sessions c), 0), Rtcp x)) (rtcp_calls report (Some ns))\<rparr>"
    and "clientPortNum sub' = p" "readSource sub' = Some (H264VideoRTPSource 96 90000)"
    using describe_to_setup [OF assms, of md5] by blast
  then show ?thesis by (simp add: after_sending_def get_subsession_def c2 rtcp_calls_def split: option.split)
qed

lemma description_leads_to_setup_witness:
  "\<exists>y sdp calls y' c'. GenerateSDPDescription (ex_world\<lparr>w_auxSDPLine := (\<lambda>i. if i < 3 then [] else ''a=fmtp:'' @ ''96'' @ crlf)\<rparr>) y = Some (sdp, calls, y') \<and>
     continueAfterDESCRIBE id ex_client_world 0 sdp ex_client = Some c' \<and> length (sent c') = 1"
proof -
  let ?w = "ex_world\<lparr>w_auxSDPLine := (\<lambda>i. if i < 3 then [] else ''a=fmtp:'' @ ''96'' @ crlf)\<rparr>"
  obtain y where y: "createNewSMS ?w ''a.264'' = Some (Some y)" using createNewSMS_returns [OF ex_file(2)] by blast
  have "\<exists>sdp calls y' ms c l. GenerateSDPDescription ?w y = Some (sdp, calls, y') \<and> NewMediaSession ''client'' sdp = Some (Some ms) \<and>
    mediaSubsessions ms = Some c # l \<and> set l \<subseteq> {None} \<and> length l = 1023 \<and> subsessionIndex ms = 0 \<and> sessionName ms = descSDPStr y \<and>
    sessionDescription ms = ''a.264'' \<and> ms_controlPath ms = ''*'' \<and> described_as (kind_of ''a.264'') c"
    by (rule description_is_read [OF y, where n = 3 and fmtp = "''96''"]) (simp_all add: ex_world_def eol_def cr_def lf_def)
  then obtain sdp calls y' ms c l where d: "GenerateSDPDescription ?w y = Some (sdp, calls, y')" "NewMediaSession ''client'' sdp = Some (Some ms)"
      "mediaSubsessions ms = Some c # l" "subsessionIndex ms = 0" "ms_controlPath ms = ''*''" "described_as H264FileMediaSubsession c"
    by (auto simp: kind_of_def)
  have "NewMediaSession (cw_hostname ex_client_world) sdp = Some (Some ms)" using d(2) by (simp add: ex_client_world_def)
  moreover have "\<forall>j < 1. \<exists>p. cw_ports ex_client_world j = Some p \<and> odd p" "cw_ports ex_client_world 1 = Some 40002" "cw_bindable ex_client_world (40002 + 1)"
    by (simp_all add: ex_client_world_def)
  moreover have "can_send ex_client_world ex_client" "RTSPClient.lastSessionID ex_client = []" "sent ex_client = []"
    by (simp_all add: can_send_def ex_client_def client_New_def ex_client_world_def)
  ultimately show ?thesis
    using d description_leads_to_setup [of ex_client_world sdp ms c l 1 40002 ex_client id] by fastforce
qed

lemma setup_to_play:
  assumes "awaits r c" and "commandName r = ''SETUP''" and "rq_subsession r = Some (i, 0)" and "handler r = AfterSETUP"
    and "scs_Session c = Some i" and "scs_Subsession c = Some (i, 0)" and "get_session i c = Some ms"
    and "mediaSubsessions ms = Some sub # None # l" and "subsessionIndex ms = 1" and "can_send w c"
    and "currentCSeq x = show_nat (rq_cseq r)" and "address (remoteAddr x)" and "address (localAddr x)" and "plain (w_date sw)" and "address ident"
    and "p1 < 2 ^ 64" and "q1 < 2 ^ 64"
  shows "\<exists>c3 sub'. handleResponseBytes md5 w (udp_transport sw ident p1 p2 q1 q2 x) c =
      Some (after_sending (play_record (RTSPClient.cseq c + 1) i) (request_text md5 c (play_record (RTSPClient.cseq c + 1) i) (baseURL c)
        (''Session: '' @ ident @ crlf @ ''Range: npt=0.000-'' @ crlf)) c3) \<and>
    c3 = c\<lparr>lastSessionID := ident, requestsAwaitingResponse := (requestsAwaitingResponse c)\<lparr>index := 0\<rparr>,
      sessions := (sessions c)[i := ms\<lparr>mediaSubsessions := Some sub' # None # l, subsessionIndex := 2\<rparr>], scs_Subsession := None,
      client_calls := client_calls c @ ((i, 0), SinkStarted (readSource sub)) # (if rtcpBandwidth sub \<noteq> None then [((i, 0), ByeHandlerSet)] else [])\<rparr> \<and>
    sub' = sub\<lparr>sessionID := ident, rtpChannelID := 0xFF, rtcpChannelID := 0xFF, serverPortNum := 0, connectionEndpointName := localAddr x, hasSink := True\<rparr>"
proof -
  define sub1 where "sub1 = sub\<lparr>sessionID := ident, rtpChannelID := 0xFF, rtcpChannelID := 0xFF, serverPortNum := 0, connectionEndpointName := localAddr x\<rparr>"
  define ms2 where "ms2 = ms\<lparr>mediaSubsessions := Some (sub1\<lparr>hasSink := True\<rparr>) # None # l\<rparr>"
  define calls where "calls = client_calls c @ ((i, 0), SinkStarted (readSource sub)) # (if rtcpBandwidth sub \<noteq> None then [((i, 0), ByeHandlerSet)] else [])"
  define c2 where "c2 = (answered c)\<lparr>lastSessionID := ident, sessions := (sessions c)[i := ms2], client_calls := calls\<rparr>"
  define c3 where "c3 = c2\<lparr>sessions := (sessions c)[i := ms2\<lparr>subsessionIndex := 2\<rparr>], scs_Subsession := None\<rparr>"
  define t where "t = request_text md5 c (play_record (RTSPClient.cseq c + 1) i) (baseURL c) (''Session: '' @ ident @ crlf @ ''Range: npt=0.000-'' @ crlf)"
  have i: "i < length (sessions c)" "sessions c ! i = ms" using assms(7) by (auto simp: get_session_def idx_def split: if_splits)
  have got: "get_subsession (i, 0) c = Some sub" using i assms(8) by (simp add: get_subsession_def)
  obtain c1 where c1: "handleResponseBytes md5 w (udp_transport sw ident p1 p2 q1 q2 x) c = continueAfterSETUP md5 w 0 c1"
      "put_subsession (i, 0) sub1 ((answered c)\<lparr>RTSPClient.lastSessionID := ident\<rparr>) = Some c1"
    using read_setup_answer [OF assms(1-4) got assms(11-17), of md5 w] unfolding sub1_def by blast
  have c1': "c1 = (answered c)\<lparr>RTSPClient.lastSessionID := ident, sessions := (sessions c)[i := ms\<lparr>mediaSubsessions := Some sub1 # None # l\<rparr>]\<rparr>"
    using c1(2) i assms(8) by (simp add: put_subsession_def put_session_def answered_def)
  have "start_sink c1 = Some c2"
    using i assms(6) by (simp add: start_sink_def c1' get_subsession_def put_subsession_def put_session_def answered_def c2_def calls_def ms2_def sub1_def)
  then have "continueAfterSETUP md5 w 0 c1 = setupNextSubSession md5 w c2" by (simp add: continueAfterSETUP_def)
  also have "\<dots> = sendPlayCommand md5 w (Some i) c3"
    using no_subsession_left [of c2 i ms2 md5 w] i assms(5,9)
    by (simp add: c2_def c3_def ms2_def answered_def get_session_def put_session_def numeral_2_eq_2)
  also have "\<dots> = Some (after_sending (play_record (RTSPClient.cseq c + 1) i) t c3)"
    using sendPlay_runs [of w c3 md5 i] assms(10,15)
    by (simp add: c3_def c2_def answered_def can_send_def address_def t_def request_text_def createAuthenticatorStr_def createSessionString_def createRangeString_def)
  finally show ?thesis unfolding t_def using c1(1)
    by (intro exI [of _ c3] exI [of _ "sub1\<lparr>hasSink := True\<rparr>"] conjI) (simp_all add: c3_def c2_def ms2_def sub1_def calls_def answered_def)
qed

text \<open>C23. From the answer to PLAY: the server's answer to the last SETUP, over UDP, makes the client keep the session of the answer, start the
  sink of the subsession on its source and send one PLAY for the whole session, with that session and the range from its start. The
  port of the server that the answer names is lost: it stays 0.
\<close>

theorem answer_leads_to_play:
  assumes "awaits r c" and "commandName r = ''SETUP''" and "rq_subsession r = Some (i, 0)" and "handler r = AfterSETUP"
    and "scs_Session c = Some i" and "scs_Subsession c = Some (i, 0)" and "get_session i c = Some ms"
    and "mediaSubsessions ms = Some sub # None # l" and "subsessionIndex ms = 1" and "can_send w c"
    and "currentCSeq x = show_nat (rq_cseq r)" and "address (remoteAddr x)" and "address (localAddr x)" and "plain (w_date sw)" and "address ident"
    and "p1 < 2 ^ 64" and "q1 < 2 ^ 64"
  shows "\<exists>c' sub'. handleResponseBytes md5 w (udp_transport sw ident p1 p2 q1 q2 x) c = Some c' \<and>
    sent c' = sent c @ [request_text md5 c (play_record (RTSPClient.cseq c + 1) i) (baseURL c)
      (''Session: '' @ ident @ crlf @ ''Range: npt=0.000-'' @ crlf)] \<and>
    RTSPClient.lastSessionID c' = ident \<and> get_subsession (i, 0) c' = Some sub' \<and> sessionID sub' = ident \<and> hasSink sub' \<and>
    serverPortNum sub' = 0 \<and> connectionEndpointName sub' = localAddr x \<and>
    ((i, 0), SinkStarted (readSource sub)) \<in> set (drop (length (client_calls c)) (client_calls c'))"
proof -
  have "i < length (sessions c)" using assms(7) by (auto simp: get_session_def idx_def split: if_splits)
  then show ?thesis
    using setup_to_play [OF assms, of md5 p2 q2]
    by (elim exE conjE) (simp add: after_sending_def get_subsession_def)
qed

lemma answer_leads_to_play_witness:
  "\<exists>x c'. connection_at (ex_connected None) 0 = Some x \<and>
     handleResponseBytes id ex_client_world (udp_transport ex_world ''0000002A'' 40002 40003 6972 6973 (x\<lparr>currentCSeq := show_nat 3\<rparr>)) ex_waiting = Some c' \<and>
     RTSPClient.lastSessionID c' = ''0000002A'' \<and> length (sent c') = 1"
proof -
  obtain x where x: "connection_at (ex_connected None) 0 = Some x" "remoteAddr x = ''10.0.0.2''" "localAddr x = ''10.0.0.1''"
    by (simp add: ex_connected_def newRTSPClientConnection_def New_def)
  define x' where "x' = x\<lparr>currentCSeq := show_nat 3\<rparr>"
  have "awaits (setup_record 3 (0, 0)) ex_waiting" by (simp add: awaits_def ex_waiting_def setup_record_def newRequestRecord_def)
  moreover have "scs_Session ex_waiting = Some 0" "scs_Subsession ex_waiting = Some (0, 0)" "can_send ex_client_world ex_waiting" "sent ex_waiting = []"
    by (simp_all add: ex_waiting_def ex_client_def client_New_def can_send_def ex_client_world_def)
  moreover have "address (remoteAddr x')" "address (localAddr x')" "plain (w_date ex_world)" "address ''0000002A''"
    by (simp_all add: address_def x'_def x ascii_space_def ex_world_def plain_def eol_def cr_def lf_def)
  moreover have "mediaSubsessions ex_media = Some ex_subsession # None # []" "subsessionIndex ex_media = 1" by (simp_all add: ex_media_def)
  moreover have "commandName (setup_record 3 (0, 0)) = ''SETUP''" "rq_subsession (setup_record 3 (0, 0)) = Some (0, 0)"
      "handler (setup_record 3 (0, 0)) = AfterSETUP" "currentCSeq x' = show_nat (rq_cseq (setup_record 3 (0, 0)))"
    by (simp_all add: setup_record_def newRequestRecord_def x'_def)
  ultimately have "\<exists>c'. handleResponseBytes id ex_client_world (udp_transport ex_world ''0000002A'' 40002 40003 6972 6973 x') ex_waiting = Some c' \<and>
      RTSPClient.lastSessionID c' = ''0000002A'' \<and> length (sent c') = 1"
    using answer_leads_to_play [of "setup_record 3 (0, 0)" ex_waiting 0 ex_media ex_subsession "[]" ex_client_world x' ex_world "''0000002A''" 40002 6972 id 40003 6973]
      ex_waiting_fields(1) by fastforce
  then show ?thesis using x(1) unfolding x'_def by blast
qed


section \<open>Challenges\<close>

lemma quoted_group_there: "g \<noteq> [] \<Longrightarrow> CHR 0x22 \<notin> set g \<Longrightarrow> quoted_group (g @ CHR 0x22 # r) = Some (g, r)"
  by (simp add: quoted_group_def Let_def takeWhile_append dropWhile_append)

lemma challenge_matches:
  assumes "realm \<noteq> []" and "nonce \<noteq> []" and "CHR 0x22 \<notin> set realm" and "CHR 0x22 \<notin> set nonce"
  shows "first_match match_digest (''Digest realm=\"'' @ realm @ ''\", nonce=\"'' @ nonce @ ''\"'') = Some (realm, nonce)"
proof -
  have q: "''\", nonce=\"'' = CHR 0x22 # '', nonce='' @ [CHR 0x22]" "''\"'' = CHR 0x22 # []" by simp_all
  have "quoted_group (realm @ ''\", nonce=\"'' @ nonce @ ''\"'') = Some (realm, '', nonce='' @ [CHR 0x22] @ nonce @ ''\"'')"
    using quoted_group_there [OF assms(1,3)] q by simp
  moreover have "quoted_group (nonce @ ''\"'') = Some (nonce, [])" using quoted_group_there [OF assms(2,4)] by simp
  ultimately have "match_digest (''Digest realm=\"'' @ realm @ ''\", nonce=\"'' @ nonce @ ''\"'') = Some (realm, nonce)"
    by (simp add: match_digest_def scan_lit_def)
  then show ?thesis by simp
qed

lemma sendRequest_again:
  assumes "can_send w c" and "request_headers c r = Some (Some (url, h), c)"
  shows "sendRequest md5 w on_error r c = Some (c\<lparr>writes := writes c + 1, sent := sent c @ [request_text md5 c r url h],
    requestsAwaitingResponse := queue_enqueue r (requestsAwaitingResponse c)\<rparr>)"
  using assms by (simp add: sendRequest_def can_send_def write_conn_def Let_def)

text \<open>C24. The client meets a challenge, in vain: a client with a user name and a password, but no realm yet, that gets the server's
  refusal of its DESCRIBE takes over realm and nonce and sends the same request again, now with the digest of RFC 2617 for the method
  DESCRIBE, this realm, this nonce and this user. The server does not accept it: its own method name is DESCRIPE, and before it
  compares anything it has read an empty user name, so that, whatever its data base and its nonce, it refuses this request too.
\<close>

theorem challenge_is_met:
  assumes "awaits r c" and "commandName r = ''DESCRIBE''" and "can_send w c" and "currentCSeq x = show_nat (rq_cseq r)" and "plain (w_date sw)"
    and "dg_Realm (digest c) = []" and "dg_Username (digest c) \<noteq> []" and "dg_Password (digest c) \<noteq> []"
    and "dg_Realm d \<noteq> []" and "dg_Nonce d \<noteq> []" and "CHR 0x22 \<notin> set (dg_Realm d)" and "CHR 0x22 \<notin> set (dg_Nonce d)"
    and "plain (dg_Realm d)" and "plain (dg_Nonce d)"
  shows "\<exists>c'. handleResponseBytes md5 w (responseBuffer (unauthorized sw d x)) c = Some c' \<and>
    sent c' = sent c @ [request_text md5 c' r (baseURL c) (''Accept: application/sdp'' @ crlf)] \<and>
    (\<forall>db dg. db_wf db \<longrightarrow> \<not> fst (accepts md5 db ''DESCRIPE'' (request_text md5 c' r (baseURL c) (''Accept: application/sdp'' @ crlf)) dg)) \<and>
    createAuthenticatorStr md5 c' ''DESCRIBE'' (baseURL c) =
      ''Authorization: Digest username='' @ quoted (dg_Username (digest c)) @ '', realm='' @ quoted (dg_Realm d) @ '', nonce='' @
      quoted (dg_Nonce d) @ '', uri='' @ quoted (baseURL c) @ '', response='' @ quoted
        (md5 (md5 (dg_Username (digest c) @ '':'' @ dg_Realm d @ '':'' @ dg_Password (digest c)) @ '':'' @ dg_Nonce d @ '':'' @
           md5 (''DESCRIBE:'' @ baseURL c))) @ crlf"
proof -
  define t where "t = ''Digest realm=\"'' @ dg_Realm d @ ''\", nonce=\"'' @ dg_Nonce d @ ''\"''"
  define h where "h = no_headers\<lparr>foundRequest := Some r, wwwAuthenticateParamsStr := t\<rparr>"
  define c1 where "c1 = (answered c)\<lparr>RTSPClient.digest := (digest c)\<lparr>dg_Realm := dg_Realm d, dg_Nonce := dg_Nonce d\<rparr>\<rparr>"
  define rest where "rest = (''CSeq: '' @ currentCSeq x) @ crlf @ (''Date: '' @ w_date sw) @ crlf @ (''WWW-Authenticate: '' @ t) @ crlf @ crlf"
  obtain rs where q: "requestRecords (requestsAwaitingResponse c) = rs @ [r]" "index (requestsAwaitingResponse c) \<le> length rs"
      "\<forall>x \<in> set rs. rq_cseq x < rq_cseq r" "0 < rq_cseq r" "rq_cseq r < 2 ^ 63" using assms(1) by (auto simp: awaits_def)
  have t: "t \<noteq> []" "\<not> blank (hd t)" "first_match match_digest t = Some (dg_Realm d, dg_Nonce d)"
    unfolding t_def by (simp, simp add: blank_def, rule challenge_matches [OF assms(9-12)])
  have pl: "plain (''CSeq: '' @ currentCSeq x)" "plain (''Date: '' @ w_date sw)" "plain (''WWW-Authenticate: '' @ t)"
    using assms(4,5,13,14) by (simp_all add: t_def eol_def cr_def lf_def)
  have "header_lines rest no_headers c = header_lines crlf h (answered c)"
    unfolding rest_def assms(4)
    by (subst header_lines_step [OF _ _ header_cseq [OF q(4,5,1,2,3)]], use pl(1) assms(4) in simp, simp)
      (subst header_lines_step [OF pl(2) _ header_date], simp, subst header_lines_step [OF pl(3) _ header_challenge [OF t(1,2)]], simp,
       simp add: no_headers_def, simp add: h_def no_headers_def answered_def)
  then have lines: "header_lines rest no_headers c = Some ([], h, answered c)" by (simp add: header_lines_end)
  have "handleAuthenticationFailure md5 w t (answered c) = (True, c1)"
    using t assms(6-8) by (simp add: handleAuthenticationFailure_def c1_def answered_def)
  then have effect: "response_effect md5 w 401 h r (answered c) = Some (True, c1)"
    using assms(2) by (simp add: response_effect_def h_def)
  have "responseBuffer (unauthorized sw d x) = ''RTSP/1.0 401 Unauthorized'' @ crlf @ rest"
    by (simp add: unauthorized_def rest_def t_def cseq_line_def DateHeader_def)
  moreover have "getLine (''RTSP/1.0 401 Unauthorized'' @ crlf @ rest) = Some (rest, ''RTSP/1.0 401 Unauthorized'')"
    by (rule getLine_line) (simp add: eol_def cr_def lf_def)
  ultimately have run: "handleResponseBytes md5 w (responseBuffer (unauthorized sw d x)) c = sendRequest md5 w (handleRequestError md5 w r) r c1"
    using response_unauthorized_line lines effect by (simp add: handleResponseBytes_def h_def)
  have "can_send w c1" using assms(3) by (simp add: can_send_def c1_def answered_def)
  moreover have "request_headers c1 r = Some (Some (baseURL c, ''Accept: application/sdp'' @ crlf), c1)"
    using assms(2) by (simp add: request_headers_def c1_def answered_def)
  ultimately have "sendRequest md5 w (handleRequestError md5 w r) r c1 = Some (c1\<lparr>writes := writes c1 + 1,
      sent := sent c1 @ [request_text md5 c1 r (baseURL c) (''Accept: application/sdp'' @ crlf)],
      requestsAwaitingResponse := queue_enqueue r (requestsAwaitingResponse c1)\<rparr>)" by (rule sendRequest_again)
  moreover define c' where "c' = c1\<lparr>writes := writes c1 + 1, sent := sent c1 @ [request_text md5 c1 r (baseURL c) (''Accept: application/sdp'' @ crlf)],
      requestsAwaitingResponse := queue_enqueue r (requestsAwaitingResponse c1)\<rparr>"
  moreover have "request_text md5 c' r url hs = request_text md5 c1 r url hs" for url hs
    by (simp add: c'_def request_text_def createAuthenticatorStr_def)
  ultimately have "handleResponseBytes md5 w (responseBuffer (unauthorized sw d x)) c = Some c'"
      "sent c' = sent c @ [request_text md5 c' r (baseURL c) (''Accept: application/sdp'' @ crlf)]"
    using run by (simp_all add: c1_def answered_def)
  moreover have "\<forall>db dg. db_wf db \<longrightarrow> \<not> fst (accepts md5 db ''DESCRIPE'' (request_text md5 c' r (baseURL c) (''Accept: application/sdp'' @ crlf)) dg)"
    using accepts_nobody by blast
  moreover have "createAuthenticatorStr md5 c' ''DESCRIBE'' (baseURL c) =
      ''Authorization: Digest username='' @ quoted (dg_Username (digest c)) @ '', realm='' @ quoted (dg_Realm d) @ '', nonce='' @
      quoted (dg_Nonce d) @ '', uri='' @ quoted (baseURL c) @ '', response='' @ quoted
        (md5 (md5 (dg_Username (digest c) @ '':'' @ dg_Realm d @ '':'' @ dg_Password (digest c)) @ '':'' @ dg_Nonce d @ '':'' @
           md5 (''DESCRIBE:'' @ baseURL c))) @ crlf"
    using assms(7-10) by (simp add: c'_def c1_def answered_def createAuthenticatorStr_def ComputeResponse_def)
  ultimately show ?thesis by - (rule exI [of _ c'], (rule conjI, assumption)+, assumption)
qed

lemma challenge_is_met_witness:
  "\<exists>x c'. connection_at (ex_connected None) 0 = Some x \<and>
     handleResponseBytes id ex_client_world (responseBuffer (unauthorized ex_world \<lparr>dg_Realm = ''live'', dg_Nonce = ''abc'', dg_Username = [], dg_Password = []\<rparr>
       (x\<lparr>currentCSeq := show_nat 2\<rparr>))) (ex_client\<lparr>RTSPClient.digest := \<lparr>dg_Realm = [], dg_Nonce = [], dg_Username = ''u'', dg_Password = ''p''\<rparr>,
         requestsAwaitingResponse := \<lparr>index = 0, requestRecords = [newRequestRecord 2 ''DESCRIBE'' AfterDESCRIBE]\<rparr>\<rparr>) = Some c' \<and> length (sent c') = 1"
proof -
  obtain x where x: "connection_at (ex_connected None) 0 = Some x" by (simp add: ex_connected_def newRTSPClientConnection_def New_def)
  define x' where "x' = x\<lparr>currentCSeq := show_nat 2\<rparr>"
  define d where "d = \<lparr>dg_Realm = ''live'', dg_Nonce = ''abc'', dg_Username = [], dg_Password = []\<rparr>"
  define r where "r = newRequestRecord 2 ''DESCRIBE'' AfterDESCRIBE"
  define c where "c = ex_client\<lparr>RTSPClient.digest := \<lparr>dg_Realm = [], dg_Nonce = [], dg_Username = ''u'', dg_Password = ''p''\<rparr>,
    requestsAwaitingResponse := \<lparr>index = 0, requestRecords = [r]\<rparr>\<rparr>"
  have "awaits r c" "commandName r = ''DESCRIBE''" "currentCSeq x' = show_nat (rq_cseq r)"
    by (simp_all add: awaits_def c_def r_def newRequestRecord_def x'_def)
  moreover have "can_send ex_client_world c" "sent c = []" "plain (w_date ex_world)"
    by (simp_all add: can_send_def c_def ex_client_def client_New_def ex_client_world_def ex_world_def plain_def eol_def cr_def lf_def)
  moreover have "dg_Realm (digest c) = []" "dg_Username (digest c) \<noteq> []" "dg_Password (digest c) \<noteq> []" by (simp_all add: c_def)
  moreover have "dg_Realm d \<noteq> []" "dg_Nonce d \<noteq> []" "CHR 0x22 \<notin> set (dg_Realm d)" "CHR 0x22 \<notin> set (dg_Nonce d)"
      "plain (dg_Realm d)" "plain (dg_Nonce d)" by (simp_all add: d_def plain_def eol_def cr_def lf_def)
  ultimately obtain c' where "handleResponseBytes id ex_client_world (responseBuffer (unauthorized ex_world d x')) c = Some c'" "length (sent c') = 1"
    using challenge_is_met [of r c ex_client_world x' ex_world d id] by fastforce
  then show ?thesis using x unfolding x'_def d_def c_def r_def by blast
qed

end
