(* ===== verification/RequestHeaders.thy ===== *)
theory RequestHeaders
  imports RtspParse
begin

text \<open>
  The request parser on a request with any headers: a header is found by its name, whatever its case, and the values of all headers with
  that name are put together. The searches start in the middle of the request line; what keeps them from finding a name elsewhere is that
  a name ends with a colon and that there is no colon in the values.
\<close>

section \<open>Lines of headers\<close>

definition header_name :: "string \<Rightarrow> bool" where
  "header_name n \<longleftrightarrow> ascii n \<and> n \<noteq> [] \<and> CHR '':'' \<notin> set n \<and> cr \<notin> set n \<and> lf \<notin> set n"

text \<open>A line from the line feed before it to its carriage return.\<close>

definition header_line :: "string \<times> string \<Rightarrow> string" where
  "header_line h = lf # fst h @ '': '' @ snd h @ [cr]"

definition header_lines_text :: "(string \<times> string) list \<Rightarrow> string" where
  "header_lines_text hs = concat (map header_line hs)"

definition header_text :: "(string \<times> string) list \<Rightarrow> string" where
  "header_text hs = concat (map (\<lambda>h. fst h @ '': '' @ snd h @ crlf) hs)"

lemma header_text_lines: "crlf @ header_text hs @ crlf = [cr] @ header_lines_text hs @ lf # crlf"
proof -
  have "lf # header_text hs = header_lines_text hs @ [lf]"
    by (induction hs) (simp_all add: header_text_def header_lines_text_def header_line_def crlf_def)
  then show ?thesis by (simp add: crlf_def)
qed

definition good_header :: "string \<times> string \<Rightarrow> bool" where
  "good_header h \<longleftrightarrow> header_name (fst h) \<and> field_value (snd h)"

text \<open>The values of the headers with a name.\<close>

definition same_name :: "string \<Rightarrow> string \<Rightarrow> bool" where
  "same_name n m \<longleftrightarrow> map lower n = map lower m"

definition values_of :: "string \<Rightarrow> (string \<times> string) list \<Rightarrow> string" where
  "values_of n hs = concat (map snd (filter (\<lambda>h. same_name n (fst h)) hs))"

text \<open>No header has a name that only ends with the one that is looked for.\<close>

definition no_longer_name :: "string \<Rightarrow> (string \<times> string) list \<Rightarrow> bool" where
  "no_longer_name n hs \<longleftrightarrow> (\<forall>h \<in> set hs. suffix (map lower n) (map lower (fst h)) \<longrightarrow> same_name n (fst h))"

lemma lower_line_ends [simp]: "lower x = cr \<longleftrightarrow> x = cr" "lower x = lf \<longleftrightarrow> x = lf"
proof -
  have *: "char_of (n + 32) \<noteq> cr" "char_of (n + 32) \<noteq> lf" if "65 \<le> n" "n \<le> 90" for n :: nat
    using that by (auto simp: cr_def lf_def dest: arg_cong [where f = "of_char :: char \<Rightarrow> nat"])
  show "lower x = cr \<longleftrightarrow> x = cr" using * by (auto simp: lower_def Let_def cr_def lf_def)
  show "lower x = lf \<longleftrightarrow> x = lf" using * by (auto simp: lower_def Let_def cr_def lf_def)
qed

text \<open>A window that is a name and a colon has no line end in it and one colon, at its end.\<close>

lemma window_is_name:
  assumes "ascii s" and "header_name N" and "i + length N + 1 \<le> length s" and "EqualFold (N @ '':'') (take (length N + 1) (drop i s))"
  shows "map lower (take (length N) (drop i s)) = map lower N" and "s ! (i + length N) = CHR '':''"
    and "\<And>k. k < length N \<Longrightarrow> s ! (i + k) \<notin> {cr, lf, CHR '':''}"
proof -
  define w where "w = take (length N + 1) (drop i s)"
  have "map lower w = map lower (N @ '':'')"
    using assms(1,2,4) ascii_window [OF assms(1)] by (auto simp: ascii_EqualFold header_name_def w_def)
  moreover have len: "length w = length N + 1" using assms(3) by (simp add: w_def)
  moreover have nth: "w ! k = s ! (i + k)" if "k \<le> length N" for k using assms(3) that by (simp add: w_def)
  ultimately have at: "lower (s ! (i + k)) = lower ((N @ '':'') ! k)" if "k \<le> length N" for k
    using that by (metis Suc_eq_plus1 le_imp_less_Suc length_append_singleton nth_map)
  show "s ! (i + length N) = CHR '':''" using at [of "length N"] by (simp add: lower_def [of "CHR '':''"])
  show "s ! (i + k) \<notin> {cr, lf, CHR '':''}" if "k < length N" for k
  proof -
    have "lower (s ! (i + k)) = lower (N ! k)" using at [of k] that by (simp add: nth_append)
    moreover have "N ! k \<notin> {cr, lf, CHR '':''}" using assms(2) that nth_mem unfolding header_name_def by fastforce
    ultimately show ?thesis by (metis insert_iff lower_colon(1) lower_line_ends singletonD)
  qed
  show "map lower (take (length N) (drop i s)) = map lower N"
    by (rule nth_equalityI) (use at assms(3) in \<open>simp_all add: nth_append less_imp_le\<close>)
qed

lemma quiet_without_colon:
  assumes "ascii (b @ cr # c)" and "header_name N" and "CHR '':'' \<notin> set b"
  shows "quiet (N @ '':'') (b @ [cr]) c"
  unfolding quiet_def
proof (intro allI impI notI)
  fix i
  assume i: "i < length (b @ [cr])" "length (N @ '':'') \<le> length (drop i ((b @ [cr]) @ c))"
    and e: "EqualFold (N @ '':'') (take (length (N @ '':'')) (drop i ((b @ [cr]) @ c)))"
  let ?s = "b @ cr # c"
  have s: "(b @ [cr]) @ c = ?s" by simp
  have "i + length N + 1 \<le> length ?s" using i by simp
  from window_is_name [OF assms(1,2) this] e
  have w: "?s ! (i + length N) = CHR '':''" "\<And>k. k < length N \<Longrightarrow> ?s ! (i + k) \<notin> {cr, lf, CHR '':''}" unfolding s by simp_all
  show False
  proof (cases "i + length N \<le> length b")
    case True
    then have "?s ! (i + length N) \<in> set b \<union> {cr}" by (cases "i + length N = length b") (simp_all add: nth_append)
    then show False using w(1) assms(3) by (auto simp: cr_def)
  next
    case False
    then have "length b - i < length N" "i + (length b - i) = length b" using i(1) by simp_all
    then show False using w(2) [of "length b - i"] by simp
  qed
qed

lemma quiet_other_header:
  assumes "ascii c" and "header_name N" and "good_header h" and "\<not> suffix (map lower N) (map lower (fst h))"
  shows "quiet (N @ '':'') (header_line h) c"
  unfolding quiet_def
proof (intro allI impI notI)
  fix i
  obtain n v where h: "h = (n, v)" by (cases h)
  have n: "header_name n" "field_value v" using assms(3) by (simp_all add: good_header_def h)
  let ?s = "header_line h @ c"
  define b where "b = lf # n"
  define t where "t = CHR '' '' # v"
  have s: "?s = b @ CHR '':'' # t @ cr # c" by (simp add: header_line_def h b_def t_def)
  assume i: "i < length (header_line h)" "length (N @ '':'') \<le> length (drop i ?s)"
    and e: "EqualFold (N @ '':'') (take (length (N @ '':'')) (drop i ?s))"
  have ne: "N \<noteq> []" using assms(2) by (simp add: header_name_def)
  have "ascii ?s" using assms(1) n by (auto simp: header_line_def h header_name_def field_value_def cr_def lf_def)
  moreover have "i + length N + 1 \<le> length ?s" using i by simp
  ultimately have w: "map lower (take (length N) (drop i ?s)) = map lower N" "?s ! (i + length N) = CHR '':''"
      "\<And>k. k < length N \<Longrightarrow> ?s ! (i + k) \<notin> {cr, lf, CHR '':''}"
    using window_is_name [OF _ assms(2), of ?s i] e by simp_all
  have i0: "i \<noteq> 0" using w(3) [of 0] ne by (intro notI) (simp add: s b_def)
  have colon: "?s ! length b = CHR '':''" by (simp add: s)
  have last: "length (header_line h) = length b + length t + 2" "?s ! (length b + length t + 1) = cr"
    by (simp add: header_line_def h b_def t_def, simp add: s nth_append)
  show False
  proof (cases "i \<le> length b")
    case True
    have "\<not> i + length N > length b"
    proof
      assume "length b < i + length N"
      then have "length b - i < length N" "i + (length b - i) = length b" using True by linarith+
      then show False using w(3) [of "length b - i"] colon by simp
    qed
    moreover have "i + length N = length b"
    proof (rule ccontr)
      assume "i + length N \<noteq> length b"
      then have "?s ! (i + length N) \<in> set b" using calculation by (simp add: s nth_append)
      then show False using w(2) n(1) by (auto simp: b_def header_name_def lf_def)
    qed
    ultimately have "take (length N) (drop i ?s) = drop i b" by (simp add: s)
    then have "map lower N = drop (i - 1) (map lower n)" using w(1) i0 by (cases i) (simp_all add: b_def drop_map)
    then show False using assms(4) suffix_drop [of "i - 1" "map lower n"] by (simp add: h)
  next
    case False
    define k where "k = length b + length t + 1 - i"
    have "i + k = length b + length t + 1" using i(1) last(1) by (simp add: k_def)
    then have "\<not> k < length N" using w(3) [of k] last(2) by auto
    then have "i + length N \<le> length b + length t + 1" using \<open>i + k = _\<close> by simp
    moreover have "i + length N \<noteq> length b + length t + 1" using w(2) last(2) by (auto simp: cr_def)
    ultimately have "i + length N - Suc (length b) < length t" using False by linarith
    then obtain j where j: "i + length N = length b + Suc j" "j < length t"
      using False by (intro that [of "i + length N - Suc (length b)"]) simp_all
    then have "?s ! (i + length N) \<in> set t" by (simp add: s nth_append)
    then show False using w(2) n(2) by (auto simp: t_def field_value_def)
  qed
qed

section \<open>The search over all headers\<close>

lemma header_loop_line:
  assumes "ascii c" and "header_name N" and "good_header h" and "suffix (map lower N) (map lower (fst h)) \<longrightarrow> same_name N (fst h)"
  shows "header_loop (N @ '':'') (a @ header_line h @ c) (length a) =
    map_option (\<lambda>r. (if same_name N (fst h) then snd h else []) @ r) (header_loop (N @ '':'') (a @ header_line h @ c) (length (a @ header_line h)))"
proof (cases "same_name N (fst h)")
  case False
  then have "quiet (N @ '':'') (header_line h) c" using assms by (intro quiet_other_header) blast+
  from header_loop_skip [OF this, of a] show ?thesis using False by (simp add: option.map_ident)
next
  case True
  obtain n v where h: "h = (n, v)" by (cases h)
  have n: "header_name n" "field_value v" using assms(3) by (simp_all add: good_header_def h)
  let ?s = "a @ header_line h @ c"
  have s: "?s = (a @ [lf]) @ (n @ '':'') @ '' '' @ v @ cr # c" by (simp add: header_line_def h)
  have same: "map lower N = map lower n" using True by (simp add: same_name_def h)
  then have len: "length n = length N" by (metis length_map)
  have eq: "EqualFold (N @ '':'') (n @ '':'')" using same assms(2) n(1) by (simp add: ascii_EqualFold header_name_def)
  have "quiet (N @ '':'') [lf] ((n @ '':'') @ '' '' @ v @ cr # c)"
    unfolding quiet_def
  proof (intro allI impI notI)
    fix i
    let ?t = "[lf] @ (n @ '':'') @ '' '' @ v @ cr # c"
    assume i: "i < length [lf]" "length (N @ '':'') \<le> length (drop i ?t)" "EqualFold (N @ '':'') (take (length (N @ '':'')) (drop i ?t))"
    have "ascii ?t" using assms(1) n by (auto simp: header_name_def field_value_def cr_def lf_def)
    moreover have "0 < length N" using assms(2) by (simp add: header_name_def)
    ultimately show False using window_is_name(3) [OF _ assms(2), of ?t 0 0] i by simp
  qed
  from header_loop_skip [OF this, of a]
  have 1: "header_loop (N @ '':'') ?s (length a) = header_loop (N @ '':'') ?s (length (a @ [lf]))" unfolding s by simp
  have 2: "header_loop (N @ '':'') ?s (length (a @ [lf])) =
      map_option (\<lambda>r. runes v @ r) (header_loop (N @ '':'') ?s (length ((a @ [lf]) @ (n @ '':'') @ '' '' @ v @ [cr])))"
    unfolding s by (rule header_loop_match [OF eq]) (use n len in \<open>simp_all add: field_value_def ws_def line_end_def\<close>)
  have 3: "length ((a @ [lf]) @ (n @ '':'') @ '' '' @ v @ [cr]) = length (a @ header_line h)" by (simp add: header_line_def h)
  have "runes v = v" using n(2) by (simp add: field_value_def ascii_runes)
  then show ?thesis using 1 2 True unfolding 3 by (simp add: h)
qed

lemma ascii_header_line: "good_header h \<Longrightarrow> ascii (header_line h)"
  by (auto simp: header_line_def good_header_def header_name_def field_value_def cr_def lf_def)

lemma ascii_header_lines: "\<forall>h \<in> set hs. good_header h \<Longrightarrow> ascii (header_lines_text hs)"
  by (induction hs) (auto simp: header_lines_text_def ascii_header_line)

lemma header_loop_lines:
  assumes "\<forall>h \<in> set hs. good_header h" and "header_name N" and "no_longer_name N hs" and "ascii c"
  shows "header_loop (N @ '':'') (a @ header_lines_text hs @ c) (length a) =
    map_option (\<lambda>r. values_of N hs @ r) (header_loop (N @ '':'') (a @ header_lines_text hs @ c) (length (a @ header_lines_text hs)))"
  using assms
proof (induction hs arbitrary: a)
  case Nil
  then show ?case by (simp add: header_lines_text_def values_of_def option.map_ident)
next
  case (Cons h hs)
  have t: "header_lines_text (h # hs) = header_line h @ header_lines_text hs" by (simp add: header_lines_text_def)
  have v: "values_of N (h # hs) = (if same_name N (fst h) then snd h else []) @ values_of N hs" by (simp add: values_of_def)
  have ih: "header_loop (N @ '':'') ((a @ header_line h) @ header_lines_text hs @ c) (length (a @ header_line h)) =
    map_option (\<lambda>r. values_of N hs @ r) (header_loop (N @ '':'') ((a @ header_line h) @ header_lines_text hs @ c) (length ((a @ header_line h) @ header_lines_text hs)))"
    by (rule Cons.IH) (use Cons.prems in \<open>auto simp: no_longer_name_def\<close>)
  have "header_loop (N @ '':'') (a @ header_line h @ header_lines_text hs @ c) (length a) =
    map_option (\<lambda>r. (if same_name N (fst h) then snd h else []) @ r)
      (header_loop (N @ '':'') (a @ header_line h @ header_lines_text hs @ c) (length (a @ header_line h)))"
    by (rule header_loop_line) (use Cons.prems in \<open>auto simp: no_longer_name_def ascii_header_lines\<close>)
  then show ?case using ih unfolding t v by (simp add: option.map_comp o_def)
qed

text \<open>The rest of the version, the headers and the empty line.\<close>

definition headers_part :: "(string \<times> string) list \<Rightarrow> string" where
  "headers_part hs = ''1.0'' @ crlf @ header_text hs @ crlf"

lemma headers_part_lines: "headers_part hs = (''1.0'' @ [cr]) @ header_lines_text hs @ lf # crlf"
  unfolding headers_part_def header_text_lines by simp

lemma header_loop_headers:
  assumes "\<forall>h \<in> set hs. good_header h" and "header_name N" and "no_longer_name N hs" and "2 \<le> length N"
  shows "header_loop (N @ '':'') (a @ headers_part hs) (length a) = Some (values_of N hs)"
proof -
  let ?e = "lf # crlf"
  let ?s = "a @ headers_part hs"
  have s: "?s = (a @ ''1.0'' @ [cr]) @ header_lines_text hs @ ?e" by (simp add: headers_part_lines)
  have e: "ascii ?e" by (simp add: crlf_def cr_def lf_def)
  have "ascii (''1.0'' @ cr # header_lines_text hs @ ?e)" using ascii_header_lines [OF assms(1)] e by (simp add: cr_def)
  from quiet_without_colon [OF this assms(2)] have "quiet (N @ '':'') (''1.0'' @ [cr]) (header_lines_text hs @ ?e)" by simp
  from header_loop_skip [OF this, of a]
  have "header_loop (N @ '':'') ?s (length a) = header_loop (N @ '':'') ?s (length (a @ ''1.0'' @ [cr]))" unfolding s by simp
  also have "\<dots> = map_option (\<lambda>r. values_of N hs @ r) (header_loop (N @ '':'') ?s (length ((a @ ''1.0'' @ [cr]) @ header_lines_text hs)))"
    unfolding s by (rule header_loop_lines [OF assms(1-3) e])
  also have "header_loop (N @ '':'') ?s (length ((a @ ''1.0'' @ [cr]) @ header_lines_text hs)) = Some []"
    by (rule header_loop_end) (use assms(4) in \<open>simp add: s crlf_def\<close>)
  finally show ?thesis by simp
qed

section \<open>No content length\<close>

lemma quiet_append: "quiet name b1 (b2 @ c) \<Longrightarrow> quiet name b2 c \<Longrightarrow> quiet name (b1 @ b2) c"
  unfolding quiet_def
proof (intro allI impI)
  fix i
  assume 1: "\<forall>i < length b1. length name \<le> length (drop i (b1 @ b2 @ c)) \<longrightarrow> \<not> EqualFold name (take (length name) (drop i (b1 @ b2 @ c)))"
    and 2: "\<forall>i < length b2. length name \<le> length (drop i (b2 @ c)) \<longrightarrow> \<not> EqualFold name (take (length name) (drop i (b2 @ c)))"
    and i: "i < length (b1 @ b2)" "length name \<le> length (drop i ((b1 @ b2) @ c))"
  show "\<not> EqualFold name (take (length name) (drop i ((b1 @ b2) @ c)))"
  proof (cases "i < length b1")
    case True
    then show ?thesis using 1 i(2) by simp
  next
    case False
    then obtain k where k: "i = length b1 + k" by (metis le_Suc_ex not_less)
    then have "drop i ((b1 @ b2) @ c) = drop k (b2 @ c)" by simp
    then show ?thesis using 2 i k by auto
  qed
qed

lemma quiet_headers:
  assumes "\<forall>h \<in> set hs. good_header h" and "header_name N" and "\<forall>h \<in> set hs. \<not> suffix (map lower N) (map lower (fst h))" and "ascii c"
  shows "quiet (N @ '':'') (header_lines_text hs) c"
  using assms
proof (induction hs)
  case Nil
  then show ?case by (simp add: header_lines_text_def quiet_def)
next
  case (Cons h hs)
  have "header_lines_text (h # hs) = header_line h @ header_lines_text hs" by (simp add: header_lines_text_def)
  then show ?case using Cons
    by (auto intro!: quiet_append quiet_other_header simp: ascii_header_lines)
qed

lemma no_content_length_headers:
  assumes "\<forall>h \<in> set hs. good_header h" and "\<forall>h \<in> set hs. \<not> suffix (map lower ''Content-Length'') (map lower (fst h))"
  shows "content_loop (a @ headers_part hs) (length a) = Some ()"
proof (rule content_loop_quiet, intro allI impI)
  fix i
  let ?e = "lf # crlf"
  let ?b = "(''1.0'' @ [cr]) @ header_lines_text hs"
  assume i: "length a \<le> i" "i + 15 < length (a @ headers_part hs)"
  have N: "header_name ''Content-Length''" by (simp add: header_name_def cr_def lf_def)
  have l15: "length ''Content-Length:'' = 15" by simp
  have e: "ascii ?e" by (simp add: crlf_def cr_def lf_def)
  have "ascii (''1.0'' @ cr # header_lines_text hs @ ?e)" using ascii_header_lines [OF assms(1)] e by (simp add: cr_def)
  from quiet_without_colon [OF this N] have "quiet (''Content-Length'' @ '':'') (''1.0'' @ [cr]) (header_lines_text hs @ ?e)" by simp
  from quiet_append [OF this quiet_headers [OF assms(1) N assms(2) e]] have q: "quiet ''Content-Length:'' ?b ?e" by simp
  obtain k where k: "i = length a + k" using i(1) le_Suc_ex by blast
  have s: "a @ headers_part hs = a @ ?b @ ?e" by (simp add: headers_part_lines)
  have "k < length ?b" using i(2) unfolding s k by (simp add: crlf_def)
  moreover have "15 \<le> length (drop k (?b @ ?e))" using i(2) unfolding s k by (simp add: crlf_def)
  ultimately have "\<not> EqualFold ''Content-Length:'' (take 15 (drop k (?b @ ?e)))" using q unfolding quiet_def l15 by blast
  moreover have "drop i (a @ ?b @ ?e) = drop k (?b @ ?e)" by (simp add: k)
  ultimately show "\<not> EqualFold ''Content-Length:'' (take 15 (drop i (a @ headers_part hs)))" unfolding s by simp
qed

section \<open>A request with headers\<close>

definition request_with :: "string \<Rightarrow> string \<Rightarrow> string \<Rightarrow> string \<Rightarrow> (string \<times> string) list \<Rightarrow> string" where
  "request_with cmd host pre suf hs = cmd @ '' rtsp://'' @ host @ ''/'' @ path_of pre suf @ '' RTSP/'' @ headers_part hs"

definition no_content :: "(string \<times> string) list \<Rightarrow> bool" where
  "no_content hs \<longleftrightarrow> (\<forall>h \<in> set hs. \<not> suffix (map lower ''Content-Length'') (map lower (fst h)))"

lemma parse_with_headers:
  assumes "command cmd" and "host_name host" and "path_part pre" and "path_part suf" and "pre \<noteq> [] \<or> suf \<noteq> []"
    and "\<forall>h \<in> set hs. good_header h" and "no_longer_name ''CSeq'' hs" and "no_longer_name ''Session'' hs" and "no_content hs"
  shows "ParseRTSPRequestString (request_with cmd host pre suf hs) =
    Some (Some \<lparr>Cseq = values_of ''CSeq'' hs, CmdName = cmd, SessionIDStr = values_of ''Session'' hs, UrlPreSuffix = pre, UrlSuffix = suf,
      ContentLength = []\<rparr>)"
proof -
  define a where "a = cmd @ '' rtsp://'' @ host @ ''/'' @ path_of pre suf @ '' RTSP/''"
  have s: "request_with cmd host pre suf hs = a @ headers_part hs" by (simp add: request_with_def a_def)
  have N: "header_name ''CSeq''" "header_name ''Session''" by (simp_all add: header_name_def cr_def lf_def)
  have "header_loop ''CSeq:'' (a @ headers_part hs) (length a) = Some (values_of ''CSeq'' hs)"
    "header_loop ''Session:'' (a @ headers_part hs) (length a) = Some (values_of ''Session'' hs)"
    using header_loop_headers [OF assms(6) N(1) assms(7), of a] header_loop_headers [OF assms(6) N(2) assms(8), of a] by simp_all
  moreover have "content_loop (a @ headers_part hs) (length a) = Some ()"
    by (rule no_content_length_headers) (use assms(6,9) in \<open>simp_all add: no_content_def\<close>)
  moreover have "headers_part hs \<noteq> []" by (simp add: headers_part_def)
  ultimately show ?thesis
    unfolding s using parse_request [OF assms(1,2) names_path_of [OF assms(3-5)] _ refl a_def] by simp
qed

text \<open>C25. Requests with headers: a request that is composed of a command, a URL with a path of one or two parts, one of which may be
  empty, and any headers without a colon in their values is taken apart by \<open>ParseRTSPRequestString\<close> into the same command and path, with the
  values of all its CSeq headers as the sequence number and those of all its Session headers as the session, if no header has a longer name that
  ends with one of these and there is no content length.
\<close>

theorem request_with_headers_is_read:
  assumes "command cmd" and "host_name host" and "path_part pre" and "path_part suf" and "pre \<noteq> [] \<or> suf \<noteq> []"
    and "\<forall>h \<in> set hs. good_header h" and "no_longer_name ''CSeq'' hs" and "no_longer_name ''Session'' hs" and "no_content hs"
  shows "ParseRTSPRequestString (request_with cmd host pre suf hs) =
    Some (Some \<lparr>Cseq = values_of ''CSeq'' hs, CmdName = cmd, SessionIDStr = values_of ''Session'' hs, UrlPreSuffix = pre, UrlSuffix = suf,
      ContentLength = []\<rparr>)"
  using assms by (rule parse_with_headers)

text \<open>The names that the client uses, in lower case.\<close>

lemma lower_names:
  "map lower ''CSeq'' = ''cseq''" "map lower ''Session'' = ''session''" "map lower ''Content-Length'' = ''content-length''"
  "map lower ''User-Agent'' = ''user-agent''" "map lower ''Transport'' = ''transport''" "map lower ''Range'' = ''range''"
  "map lower ''Accept'' = ''accept''" "map lower ''cseq'' = ''cseq''"
  by code_simp+

lemma good_headerI:
  "ascii n \<Longrightarrow> n \<noteq> [] \<Longrightarrow> CHR '':'' \<notin> set n \<Longrightarrow> cr \<notin> set n \<Longrightarrow> lf \<notin> set n \<Longrightarrow> field_value v \<Longrightarrow> good_header (n, v)"
  by (simp add: good_header_def header_name_def)

lemma request_with_headers_is_read_witness:
  "ParseRTSPRequestString (request_with ''PLAY'' ''cam:8554'' ''a.264'' [] [(''cseq'', ''4''), (''User-Agent'', ''dorcli''), (''Session'', ''9F''), (''Range'', ''npt=0.000-'')]) =
    Some (Some \<lparr>Cseq = ''4'', CmdName = ''PLAY'', SessionIDStr = ''9F'', UrlPreSuffix = ''a.264'', UrlSuffix = [], ContentLength = []\<rparr>)"
proof -
  let ?hs = "[(''cseq'', ''4''), (''User-Agent'', ''dorcli''), (''Session'', ''9F''), (''Range'', ''npt=0.000-'')]"
  have "path_part ''a.264''" "path_part []" by (intro path_partI; simp)+
  moreover have "command ''PLAY''" "host_name ''cam:8554''" by (auto simp: command_def host_name_def ws_def tab_def)
  moreover have "\<forall>h \<in> set ?hs. good_header h"
    by (simp add: good_header_def header_name_def field_value_def ws_def line_end_def tab_def cr_def lf_def)
  moreover have "no_longer_name ''CSeq'' ?hs" "no_longer_name ''Session'' ?hs" "no_content ?hs"
    by (simp_all add: no_longer_name_def no_content_def same_name_def suffix_to_prefix lower_names del: list.map)
  ultimately have "ParseRTSPRequestString (request_with ''PLAY'' ''cam:8554'' ''a.264'' [] ?hs) =
    Some (Some \<lparr>Cseq = values_of ''CSeq'' ?hs, CmdName = ''PLAY'', SessionIDStr = values_of ''Session'' ?hs, UrlPreSuffix = ''a.264'', UrlSuffix = [], ContentLength = []\<rparr>)"
    by (intro request_with_headers_is_read) simp_all
  then show ?thesis by (simp add: values_of_def same_name_def lower_names del: list.map(2)) simp
qed

end
