(* ===== verification/Playing.thy ===== *)
theory Playing
  imports ClientServer RequestHeaders
begin

text \<open>
  A client plays a stream: the requests of the client as the server reads them, and the run of both from the description to the task that starts
  the stream.
\<close>

section \<open>The requests of the client\<close>

definition set_up_headers :: "nat \<Rightarrow> (string \<times> string) list" where
  "set_up_headers p = [(''Transport'', ''RTP/AVP;unicast;'' @ client_port p (p + 1))]"

definition play_headers :: "string \<Rightarrow> (string \<times> string) list" where
  "play_headers ident = [(''Session'', ident), (''Range'', ''npt=0.000-'')]"

definition client_headers :: "nat \<Rightarrow> string \<Rightarrow> (string \<times> string) list \<Rightarrow> (string \<times> string) list" where
  "client_headers n agent hs = (''CSeq'', show_nat n) # (''User-Agent'', agent) # hs"

lemma client_request_text:
  assumes "dg_Realm (digest c) = []" and "userAgentHeaderStr c = ''User-Agent: '' @ agent @ crlf" and "contentStr r = []"
    and "url = ''rtsp://'' @ host @ ''/'' @ path_of pre suf"
  shows "request_text md5 c r url (header_text hs) = request_with (commandName r) host pre suf (client_headers (rq_cseq r) agent hs)"
  using assms by (simp add: request_text_def createAuthenticatorStr_def request_with_def headers_part_def header_text_def client_headers_def)

lemma field_value_digits: "field_value (show_nat n)"
proof -
  have d: "\<forall>ch \<in> set (show_nat n). is_digit ch" "show_nat n \<noteq> []" by (rule show_nat_digits, rule show_nat_nonempty)
  have "\<not> ws (hd (show_nat n))" using d by (auto simp: ws_def is_digit_def tab_def dest: bspec [OF _ hd_in_set])
  moreover have "ascii (show_nat n)" using d(1) by (auto simp: ascii_def is_digit_def dest!: bspec)
  moreover have "CHR '':'' \<notin> set (show_nat n)" "\<forall>ch \<in> set (show_nat n). \<not> line_end ch"
    using d(1) by (auto simp: is_digit_def line_end_def cr_def lf_def dest!: bspec)
  ultimately show ?thesis by (simp add: field_value_def)
qed

lemma field_value_append: "field_value a \<Longrightarrow> field_value b \<Longrightarrow> a \<noteq> [] \<Longrightarrow> field_value (a @ b)"
  by (auto simp: field_value_def)

lemma field_value_port: "field_value (''RTP/AVP;unicast;'' @ client_port p q)"
proof -
  have "field_value (''RTP/AVP;unicast;client_port='')" "field_value ''-''" by (simp_all add: field_value_def ws_def line_end_def tab_def cr_def lf_def)
  then have "field_value (''RTP/AVP;unicast;client_port='' @ show_nat p @ ''-'' @ show_nat q)"
    using field_value_digits by (intro field_value_append) (simp_all add: show_nat_nonempty)
  then show ?thesis by (simp add: client_port_def)
qed

lemma client_headers_good:
  assumes "field_value agent" and "field_value ident"
  shows "\<forall>h \<in> set (client_headers n agent (set_up_headers p)). good_header h" "\<forall>h \<in> set (client_headers n agent (play_headers ident)). good_header h"
proof -
  have "good_header (''CSeq'', show_nat n)" "good_header (''User-Agent'', agent)" "good_header (''Session'', ident)"
    "good_header (''Transport'', ''RTP/AVP;unicast;'' @ client_port p (p + 1))"
    using assms field_value_digits field_value_port by (simp_all add: good_header_def header_name_def cr_def lf_def)
  moreover have "good_header (''Range'', ''npt=0.000-'')"
    by (simp add: good_header_def header_name_def field_value_def ws_def line_end_def tab_def cr_def lf_def)
  ultimately show "\<forall>h \<in> set (client_headers n agent (set_up_headers p)). good_header h" "\<forall>h \<in> set (client_headers n agent (play_headers ident)). good_header h"
    unfolding client_headers_def set_up_headers_def play_headers_def by (simp_all del: append.simps)
qed

lemma client_headers_names:
  assumes "map fst hs \<in> {[''Transport''], [''Session'', ''Range'']}"
  shows "no_longer_name ''CSeq'' (client_headers n agent hs)" "no_longer_name ''Session'' (client_headers n agent hs)"
    "no_content (client_headers n agent hs)" "values_of ''CSeq'' (client_headers n agent hs) = show_nat n"
    "values_of ''Session'' (client_headers n agent hs) = (if length hs = 2 then snd (hs ! 0) else [])"
proof -
  consider v where "hs = [(''Transport'', v)]" | v w where "hs = [(''Session'', v), (''Range'', w)]" using assms by auto
  then have "no_longer_name ''CSeq'' (client_headers n agent hs) \<and> no_longer_name ''Session'' (client_headers n agent hs) \<and>
    no_content (client_headers n agent hs) \<and> values_of ''CSeq'' (client_headers n agent hs) = show_nat n \<and>
    values_of ''Session'' (client_headers n agent hs) = (if length hs = 2 then snd (hs ! 0) else [])"
  proof cases
    case 1
    then show ?thesis
      by (simp add: client_headers_def no_longer_name_def no_content_def values_of_def same_name_def lower_names suffix_to_prefix del: list.map(2)) simp
  next
    case 2
    then show ?thesis
      by (simp add: client_headers_def no_longer_name_def no_content_def values_of_def same_name_def lower_names suffix_to_prefix del: list.map(2)) simp
  qed
  then show "no_longer_name ''CSeq'' (client_headers n agent hs)" "no_longer_name ''Session'' (client_headers n agent hs)"
    "no_content (client_headers n agent hs)" "values_of ''CSeq'' (client_headers n agent hs) = show_nat n"
    "values_of ''Session'' (client_headers n agent hs) = (if length hs = 2 then snd (hs ! 0) else [])" by blast+
qed

lemma server_reads_setup:
  assumes "host_name host" and "path_part name" and "name \<noteq> []" and "field_value agent"
  shows "ParseRTSPRequestString (request_with ''SETUP'' host name ''track1'' (client_headers n agent (set_up_headers p))) =
    Some (Some \<lparr>Cseq = show_nat n, CmdName = ''SETUP'', SessionIDStr = [], UrlPreSuffix = name, UrlSuffix = ''track1'', ContentLength = []\<rparr>)"
proof -
  have c: "command ''SETUP''" "path_part ''track1''" by (auto simp: command_def ws_def tab_def intro!: path_partI)
  have hs: "map fst (set_up_headers p) \<in> {[''Transport''], [''Session'', ''Range'']}" "length (set_up_headers p) \<noteq> 2" by (simp_all add: set_up_headers_def)
  have "field_value []" by (simp add: field_value_def)
  note good = client_headers_good(1) [OF assms(4) this]
  have ne: "name \<noteq> [] \<or> ''track1'' \<noteq> []" by simp
  from parse_with_headers [OF c(1) assms(1,2) c(2) ne good client_headers_names(1-3) [OF hs(1)]]
  show ?thesis using hs(2) by (simp add: client_headers_names(4,5) [OF hs(1)])
qed

lemma server_reads_play:
  assumes "host_name host" and "path_part name" and "name \<noteq> []" and "field_value agent" and "field_value ident"
  shows "ParseRTSPRequestString (request_with ''PLAY'' host name [] (client_headers n agent (play_headers ident))) =
    Some (Some \<lparr>Cseq = show_nat n, CmdName = ''PLAY'', SessionIDStr = ident, UrlPreSuffix = name, UrlSuffix = [], ContentLength = []\<rparr>)"
proof -
  have c: "command ''PLAY''" "path_part []" by (auto simp: command_def ws_def tab_def intro!: path_partI)
  have hs: "map fst (play_headers ident) \<in> {[''Transport''], [''Session'', ''Range'']}" by (simp add: play_headers_def)
  have ne: "name \<noteq> [] \<or> [] \<noteq> ([] :: string)" using assms(3) by simp
  from parse_with_headers [OF c(1) assms(1,2) c(2) ne client_headers_good(2) [OF assms(4,5)] client_headers_names(1-3) [OF hs]]
  show ?thesis by (simp add: client_headers_names(4,5) [OF hs]) (simp add: play_headers_def)
qed

text \<open>The word \<open>Transport:\<close> is where the header is, and nowhere before it.\<close>

lemma sublist_parts:
  assumes "sep \<notin> set t" and "sublist t (x @ sep # y)"
  shows "sublist t x \<or> sublist t y"
proof -
  have no: "u = []" if "prefix u (sep # y)" "set u \<subseteq> set t" for u using that assms(1) by (cases u) auto
  consider "sublist t x" | "sublist t (sep # y)" | u v where "t = u @ v" "suffix u x" "prefix v (sep # y)"
    using assms(2) by (auto simp: sublist_append)
  then show ?thesis
  proof cases
    case 2
    then show ?thesis using no [of t] by (auto simp: sublist_Cons_right)
  next
    case 3
    then have "v = []" using no [of v] by simp
    then show ?thesis using 3 by (auto dest: suffix_imp_sublist)
  qed simp
qed

lemma no_sublist_parts: "\<not> sublist t x \<Longrightarrow> \<not> sublist t y \<Longrightarrow> sep \<notin> set t \<Longrightarrow> \<not> sublist t (x @ sep # y)"
  by (rule notI) (use sublist_parts [of sep t x y] in simp)

lemma no_transport_before:
  assumes "\<not> sublist ''Transport:'' url" and "\<not> sublist ''Transport:'' agent"
  shows "\<not> sublist ''Transport:'' (''SETUP '' @ url @ '' RTSP/1.0'' @ crlf @ ''CSeq: '' @ show_nat n @ crlf @ ''User-Agent: '' @ agent @ crlf)"
proof -
  let ?t = "''Transport:''"
  have n: "CHR '' '' \<notin> set ?t" "cr \<notin> set ?t" "lf \<notin> set ?t" by (simp_all add: cr_def lf_def)
  have words: "\<not> sublist ?t ''SETUP''" "\<not> sublist ?t ''RTSP/1.0''" "\<not> sublist ?t ''CSeq:''" "\<not> sublist ?t ''User-Agent:''" "\<not> sublist ?t []"
    by (auto dest: set_mono_sublist)
  have num: "\<not> sublist ?t (show_nat n)"
  proof -
    have "CHR ''n'' \<notin> set (show_nat n)" using show_nat_digits [of n] by (auto simp: is_digit_def)
    then show ?thesis using set_mono_sublist [of ?t "show_nat n"] by auto
  qed
  have "\<not> sublist ?t (''SETUP'' @ CHR '' '' # url @ CHR '' '' # ''RTSP/1.0'' @ cr # [] @ lf # ''CSeq:'' @ CHR '' '' # show_nat n @ cr # [] @ lf # ''User-Agent:'' @
      CHR '' '' # agent @ cr # [] @ lf # [])"
    by (intro no_sublist_parts words num assms n)
  then show ?thesis by (simp add: crlf_def)
qed

end
