(* ===== verification/PlayRun.thy ===== *)
theory PlayRun
  imports Playing
begin

text \<open>
  The run of a client and the server: from the description to the task that starts the stream. Each request that the client sends is given to
  \<open>handleRequestBytes\<close>, each answer of the server to \<open>handleResponseBytes\<close>; between the requests the server runs the tasks that the
  handlers have left. Every step of the server is one of \<open>server_step\<close>.
\<close>

section \<open>Tasks\<close>

definition run_task :: "world \<Rightarrow> task \<Rightarrow> RTSPServer \<Rightarrow> RTSPServer option" where
  "run_task w t sv = (if due w t then map_option (\<lambda>sv'. sv'\<lparr>tasks := remove1 t (tasks sv')\<rparr>) (perform w t sv) else None)"

lemma run_task_step: "t \<in> set (tasks sv) \<Longrightarrow> run_task w t sv = Some sv' \<Longrightarrow> server_step md5 sv sv'"
  by (auto simp: run_task_def intro: server_step.task split: if_splits)

lemma run_liveness:
  assumes "session_at sv a = Some s"
  shows "run_task w (LivenessTask a) sv =
    Some (sv\<lparr>session_at := (session_at sv)(a \<mapsto> s\<lparr>livenessTimeoutTimer := True\<rparr>), tasks := remove1 (LivenessTask a) (tasks sv)\<rparr>)"
  using assms by (simp add: run_task_def perform_def start_timer_def mod_session_def)

section \<open>The names of sessions\<close>

lemma hex_digit_char: "d < 16 \<Longrightarrow> hex_digit d \<in> set ''0123456789ABCDEF''"
proof -
  have "\<forall>d < 16. hex_digit d \<in> set ''0123456789ABCDEF''" by code_simp
  then show "d < 16 \<Longrightarrow> hex_digit d \<in> set ''0123456789ABCDEF''" by blast
qed

lemma hex_name:
  "set (show_hex8 x) \<subseteq> set ''0123456789ABCDEF''" "show_hex8 x \<noteq> []"
  using hex_digit_char by (auto simp: show_hex8_def simp del: insert_iff)

lemma hex_field:
  assumes "set ident \<subseteq> set ''0123456789ABCDEF''"
  shows "field_value ident" "ident \<noteq> [] \<Longrightarrow> address ident"
proof -
  have all: "\<forall>ch \<in> set ''0123456789ABCDEF''. (of_char ch :: nat) < 128 \<and> ch \<noteq> CHR '':'' \<and> ch \<noteq> CHR '';'' \<and> \<not> line_end ch \<and> \<not> ws ch \<and> \<not> ascii_space ch"
    by (simp add: line_end_def ws_def tab_def cr_def lf_def ascii_space_def)
  then have ch: "(of_char ch :: nat) < 128 \<and> ch \<noteq> CHR '':'' \<and> ch \<noteq> CHR '';'' \<and> \<not> line_end ch \<and> \<not> ws ch \<and> \<not> ascii_space ch"
    if "ch \<in> set ident" for ch using assms that by blast
  show "ident \<noteq> [] \<Longrightarrow> address ident" using ch by (auto simp: address_def)
  have "ident = [] \<or> hd ident \<in> set ident" by (cases ident) simp_all
  then show "field_value ident" using ch unfolding field_value_def ascii_def by blast
qed

lemma freshID_hex:
  assumes "freshID random table i = Some ident"
  shows "set ident \<subseteq> set ''0123456789ABCDEF'' \<and> ident \<noteq> []"
proof (rule freshID.raw_induct [where P = "\<lambda>r tab i ident. set ident \<subseteq> set ''0123456789ABCDEF'' \<and> ident \<noteq> []", OF _ assms])
  fix f :: "(nat \<Rightarrow> u32) \<Rightarrow> (string \<rightharpoonup> nat) \<Rightarrow> nat \<Rightarrow> string option" and r tab i ident
  assume "\<And>r tab i ident. f r tab i = Some ident \<Longrightarrow> set ident \<subseteq> set ''0123456789ABCDEF'' \<and> ident \<noteq> []"
    and "(if tab (show_hex8 (r i)) = None then Some (show_hex8 (r i)) else f r tab (i + 1)) = Some ident"
  then show "set ident \<subseteq> set ''0123456789ABCDEF'' \<and> ident \<noteq> []"
    using hex_name [of "r i"] by (auto split: if_splits simp del: set_simps)
qed

section \<open>The server\<close>

definition stream_url :: "string \<Rightarrow> string \<Rightarrow> string" where
  "stream_url host name = ''rtsp://'' @ host @ ''/'' @ name @ ''/''"

text \<open>What the names must be like for a request to be read as it was meant.\<close>

definition plain_names :: "string \<Rightarrow> string \<Rightarrow> string \<Rightarrow> bool" where
  "plain_names host name agent \<longleftrightarrow>
     host_name host \<and> path_part name \<and> name \<noteq> [] \<and> field_value agent \<and> \<not> sublist ''Transport:'' agent \<and>
     \<not> sublist ''Transport:'' (stream_url host name @ ''track1'')"

definition setup_text :: "string \<Rightarrow> string \<Rightarrow> string \<Rightarrow> nat \<Rightarrow> nat \<Rightarrow> string" where
  "setup_text host name agent n p = request_with ''SETUP'' host name ''track1'' (client_headers n agent (set_up_headers p))"

definition play_text :: "string \<Rightarrow> string \<Rightarrow> string \<Rightarrow> nat \<Rightarrow> string \<Rightarrow> string" where
  "play_text host name agent n ident = request_with ''PLAY'' host name [] (client_headers n agent (play_headers ident))"

lemma setup_text_ports:
  assumes "plain_names host name agent" and "p + 1 < 2 ^ 64"
  shows "ParseTransportHeader (setup_text host name agent n p) = default_transport\<lparr>ClientRTPPortNum := p, ClientRTCPPortNum := p + 1\<rparr>"
proof -
  let ?r = "''SETUP '' @ (stream_url host name @ ''track1'') @ '' RTSP/1.0'' @ crlf @ ''CSeq: '' @ show_nat n @ crlf @ ''User-Agent: '' @ agent @ crlf"
  have "name \<noteq> []" using assms(1) by (simp add: plain_names_def)
  then have t: "setup_text host name agent n p = ?r @ ''Transport:'' @ '' RTP/AVP;unicast;'' @ client_port p (p + 1) @ crlf @ crlf"
    by (simp add: setup_text_def request_with_def headers_part_def header_text_def client_headers_def set_up_headers_def path_of_def stream_url_def)
  have "\<not> sublist ''Transport:'' ?r" using assms(1) by (intro no_transport_before) (simp_all add: plain_names_def)
  then show ?thesis unfolding t by (rule transport_ports) (use assms(2) in simp_all)
qed

text \<open>The server can set up the stream of a file, which has none yet, for the client of a connection.\<close>

definition ready_server :: "world \<Rightarrow> nat \<Rightarrow> string \<Rightarrow> RTSPServer \<Rightarrow> bool" where
  "ready_server w c name sv \<longleftrightarrow>
     server_ok {} sv \<and> (\<exists>x. connection_at sv c = Some x \<and> address (remoteAddr x) \<and> address (localAddr x)) \<and> plain (w_date w) \<and>
     (\<exists>j. clientSessions sv (show_hex8 (w_sessionIDs w j)) = None) \<and> w_openable w name \<and>
     (\<exists>base ext others. Split name CHR ''.'' = base # ext # others \<and> ext \<in> {''264'', ''ts''}) \<and>
     (\<exists>k. w_bindable w (6970 + 2 * k) \<and> w_bindable w (6970 + 2 * k + 1)) \<and>
     (\<forall>q. w_bindable w q \<longrightarrow> q < 2 ^ 16) \<and> stream_of_file name sv = None"

lemma new_stream_sockets:
  assumes "new_stream w t" and "\<forall>q. w_bindable w q \<longrightarrow> q < 2 ^ 16"
  shows "has_sockets t" "serverRTPPort t < 2 ^ 16"
    "\<exists>g1 g2. rtpGS t = Some g1 \<and> rtcpGS t = Some g2 \<and> gs_open g1 \<and> gs_open g2 \<and> dests g1 = [] \<and> dests g2 = []"
  using assms by (auto simp: new_stream_def NewGroupSock_def has_sockets_def)

lemma server_sets_up:
  assumes "ready_server w c name sv" and "connection_at sv c = Some x" and "plain_names host name agent" and "p + 1 < 2 ^ 64"
  shows "\<exists>ident sv1 m t after. handleRequestBytes md5 w c (setup_text host name agent n p) sv =
      Some (udp_transport w ident p (p + 1) (serverRTPPort t) (serverRTCPPort t) (x\<lparr>currentCSeq := show_nat n\<rparr>), sv1) \<and>
    set ident \<subseteq> set ''0123456789ABCDEF'' \<and> ident \<noteq> [] \<and> server_ok {} sv1 \<and> clientSessions sv1 ident = Some (next_session sv) \<and>
    serverMediaSessions sv1 name = Some m \<and> session_at sv1 (next_session sv) = Some (set_up_session m after (live_session c ident)) \<and>
    receives (m, 0) ident (remoteAddr x) p (p + 1) sv1 \<and> stream_of (m, 0) sv1 = Some t \<and>
    new_stream w t \<and> serverRTPPort t < 2 ^ 16 \<and> LivenessTask (next_session sv) \<in> set (tasks sv1) \<and> connection_at sv1 c \<noteq> None"
proof -
  define req where "req = setup_text host name agent n p"
  define info where "info = \<lparr>Cseq = show_nat n, CmdName = ''SETUP'', SessionIDStr = [], UrlPreSuffix = name, UrlSuffix = ''track1'', ContentLength = []\<rparr>"
  have info: "CmdName info = ''SETUP''" "SessionIDStr info = []" "UrlPreSuffix info = name" "Cseq info = show_nat n" by (simp_all add: info_def)
  have parse: "ParseRTSPRequestString req = Some (Some info)"
    unfolding req_def setup_text_def info_def using assms(3) by (intro server_reads_setup) (simp_all add: plain_names_def)
  have th: "StreamingMode (ParseTransportHeader req) = RTP_UDP" "ClientRTCPPortNum (ParseTransportHeader req) \<noteq> 0"
      "ClientRTPPortNum (ParseTransportHeader req) = p" "ClientRTCPPortNum (ParseTransportHeader req) = p + 1"
    using setup_text_ports [OF assms(3,4), of n] by (simp_all add: req_def default_transport_def)
  obtain j k base ext others where w: "server_ok {} sv" "clientSessions sv (show_hex8 (w_sessionIDs w j)) = None" "w_openable w name"
      "Split name CHR ''.'' = base # ext # others" "ext \<in> {''264'', ''ts''}" "w_bindable w (6970 + 2 * k)" "w_bindable w (6970 + 2 * k + 1)"
      "stream_of_file name sv = None"
      "\<forall>q. w_bindable w q \<longrightarrow> q < 2 ^ 16"
    using assms(1) unfolding ready_server_def by blast
  obtain ident where fresh: "freshID (w_sessionIDs w) (clientSessions sv) 0 = Some ident"
    using w(2) freshID_total [of "clientSessions sv" "w_sessionIDs w" 0 j] by auto
  obtain y where y: "createNewSMS w name = Some (Some y)" using createNewSMS_returns [OF w(4,5)] by blast
  obtain sv1 m t where run: "handleRTSPRequest md5 w c info req sv = Some sv1" "serverMediaSessions sv1 name = Some m"
      "clientSessions sv1 = (clientSessions sv)(ident \<mapsto> next_session sv)"
      "session_at sv1 (next_session sv) = Some (set_up_session m (snd (ParseRangeHeader req) \<or> ParsePlayNowHeader req) (live_session c ident))"
      "receives (m, 0) ident (remoteAddr x) p (p + 1) sv1" "stream_of (m, 0) sv1 = Some t" "made_from w (stream_of_file name sv) t"
      "map_option responseBuffer (connection_at sv1 c) = Some (udp_transport w ident p (p + 1) (serverRTPPort t) (serverRTCPPort t) (x\<lparr>currentCSeq := show_nat n\<rparr>))"
      "tasks sv1 = tasks sv @ [LivenessTask (next_session sv)]"
    using setup_request_runs [OF w(1) assms(2) info(1,2) fresh, unfolded info(3,4), OF w(3) y th(1,2) w(6,7), unfolded th(3,4), of md5] by blast
  obtain x1 where x1: "connection_at sv1 c = Some x1"
      "responseBuffer x1 = udp_transport w ident p (p + 1) (serverRTPPort t) (serverRTCPPort t) (x\<lparr>currentCSeq := show_nat n\<rparr>)" using run(8) by blast
  have "handleRequestBytes md5 w c req sv = Some (responseBuffer x1, sv1)" using parse run(1) x1(1) by (simp add: handleRequestBytes_def)
  moreover have "server_ok {} sv1" by (rule rtsp_request_ok [OF run(1) w(1)])
  moreover have "new_stream w t" using run(7) w(8) by (simp add: made_from_def)
  moreover have "serverRTPPort t < 2 ^ 16" by (rule new_stream_sockets(2) [OF calculation(3) w(9)])
  ultimately show ?thesis using run x1 freshID_hex [OF fresh] unfolding req_def
    by (intro exI [of _ ident] exI [of _ sv1] exI [of _ m] exI [of _ t] exI conjI) simp_all
qed

text \<open>
  The stream goes to a client: RTP to one port of its address, RTCP to the next one, from open sockets, and the last thing that has
  happened is that the sink has been started on the source of the stream.
\<close>

definition delivers :: "stream \<Rightarrow> string \<Rightarrow> nat \<Rightarrow> RTSPServer \<Rightarrow> bool" where
  "delivers p addr port sv \<longleftrightarrow>
     (\<exists>t g1 g2. stream_of p sv = Some t \<and> rtcpInstance t \<and> mediaSource t \<and> rtpSink t \<noteq> None \<and> rtpGS t = Some g1 \<and> rtcpGS t = Some g2 \<and>
       gs_open g1 \<and> gs_open g2 \<and> (addr, port) \<in> set (dests g1) \<and> (addr, port + 1) \<in> set (dests g2) \<and>
       (\<exists>before. stream_calls sv = before @ [(p, SinkStartPlaying)]))"

text \<open>The constructor of the stream's RTCP instance, called with this clock and these random numbers, sleeps so many nanoseconds.\<close>

definition constructor_sleeps :: "world \<Rightarrow> StreamState \<Rightarrow> int \<Rightarrow> bool" where
  "constructor_sleeps w t ns \<longleftrightarrow>
     (\<exists>name report r. newRTCPInstance (w_now w) [] (w_drand48 w) (w_drand48' w) (totalBW t) name (rtpSink t) None = Some (report, Some ns, r))"

lemma joins_delivers:
  assumes "joins (m, 0) addr p (p + 1) sv sv'" and "stream_of (m, 0) sv = Some (t\<lparr>rtpSink := sink\<rparr>)" and "new_stream w t" and "sink \<noteq> None"
  shows "delivers (m, 0) addr p sv'"
proof -
  obtain t' g1 g2 where j: "rtpGS t = Some g1" "rtcpGS t = Some g2" "stream_of (m, 0) sv' = Some t'" "rtpGS t' = Some (AddDestination addr p g1)"
      "rtcpGS t' = Some (AddDestination addr (p + 1) g2)" "rtcpInstance t'" "mediaSource t' = mediaSource t" "rtpSink t' = sink"
      "stream_calls sv' = stream_calls sv @ map (Pair (m, 0)) (SendReport # (if \<not> areCurrentlyPlaying t \<and> mediaSource t then [SinkStartPlaying] else []))"
    using assms(1,2) by (auto simp: joins_def)
  have n: "mediaSource t" "\<not> areCurrentlyPlaying t" "gs_open g1" "gs_open g2"
    using assms(3) j(1,2) by (auto simp: new_stream_def NewGroupSock_def split: if_splits)
  then have "stream_calls sv' = (stream_calls sv @ [((m, 0), SendReport)]) @ [((m, 0), SinkStartPlaying)]" using j(9) by simp
  then show ?thesis using j(3-8) n assms(4) unfolding delivers_def
    by (intro exI [of _ t'] conjI exI [of _ "AddDestination addr p g1"] exI [of _ "AddDestination addr (p + 1) g2"]
        exI [of _ "stream_calls sv @ [((m, 0), SendReport)]"]) (simp_all add: AddDestination_def)
qed

lemma server_plays:
  assumes ok: "server_ok {} sv1" and names: "plain_names host name agent" and ident: "set ident \<subseteq> set ''0123456789ABCDEF''"
    and a: "clientSessions sv1 ident = Some a" "session_at sv1 a = Some (set_up_session m after (live_session c ident))"
    and m: "serverMediaSessions sv1 name = Some m" and c: "connection_at sv1 c \<noteq> None" and task: "LivenessTask a \<in> set (tasks sv1)"
    and r: "receives (m, 0) ident addr p (p + 1) sv1" and t: "stream_of (m, 0) sv1 = Some t" "new_stream w t"
    and bindable: "\<forall>q. w_bindable w q \<longrightarrow> q < 2 ^ 16"
  shows "\<exists>sv2 a2 sv3 d sv4 ns t4. run_task w1 (LivenessTask a) sv1 = Some sv2 \<and>
    handleRequestBytes md5 w c (play_text host name agent n ident) sv2 = Some (a2, sv3) \<and>
    PlayTask (m, 0) (Some d) \<in> set (tasks sv3) \<and> run_task w1 (PlayTask (m, 0) (Some d)) sv3 = Some sv4 \<and>
    stream_of (m, 0) sv4 = Some t4 \<and> constructor_sleeps w1 t4 ns \<and> \<not> delivers (m, 0) addr p sv4 \<and>
    WakeTask (m, 0) d (nanos w1 + ns) \<in> set (tasks sv4) \<and>
    (\<forall>w2. nanos w1 + ns \<le> nanos w2 \<longrightarrow>
       (\<exists>sv5. run_task w2 (WakeTask (m, 0) d (nanos w1 + ns)) sv4 = Some sv5 \<and> delivers (m, 0) addr p sv5))"
proof -
  define s where "s = (set_up_session m after (live_session c ident))\<lparr>livenessTimeoutTimer := True\<rparr>"
  define sv2 where "sv2 = sv1\<lparr>session_at := (session_at sv1)(a \<mapsto> s), tasks := remove1 (LivenessTask a) (tasks sv1)\<rparr>"
  define info where "info = \<lparr>Cseq = show_nat n, CmdName = ''PLAY'', SessionIDStr = ident, UrlPreSuffix = name, UrlSuffix = [], ContentLength = []\<rparr>"
  define req where "req = play_text host name agent n ident"
  have run2: "run_task w1 (LivenessTask a) sv1 = Some sv2" using run_liveness [OF a(2)] by (simp add: sv2_def s_def)
  have ok2: "server_ok {} sv2" by (rule step_ok [OF run_task_step [OF task run2] ok])
  have parse: "ParseRTSPRequestString req = Some (Some info)"
    unfolding req_def play_text_def info_def using names hex_field(1) [OF ident] by (intro server_reads_play) (simp_all add: plain_names_def)
  have s: "RTSPClientSession.sessionID s = ident" "serverMediaSession s = Some m" "livenessTimeoutTimer s" "connection s = c"
    by (simp_all add: s_def set_up_session_def live_session_def fresh_session_def)
  have "\<exists>y. media_at sv1 m = Some y \<and> streamName y = name" using server_okD(1) [OF ok] m by (auto simp: tables_ok_def)
  then have i: "in_session info a s m sv2"
    using a(1) s(2,3) by (auto simp: in_session_def info_def sv2_def inSessionCommands_def names_def EqualFold_refl)
  have two: "connection_at sv2 c \<noteq> None" "receives (m, 0) (RTSPClientSession.sessionID s) addr p (p + 1) sv2" "stream_of (m, 0) sv2 = Some t"
      "CmdName info = ''PLAY''"
    using c r t(1) s(1) by (simp_all add: sv2_def receives_def stream_of_def get_sub_def info_def)
  obtain sv3 d sink url k ts y where run: "handleRTSPRequest md5 w c info req sv2 = Some sv3" "tasks sv3 = tasks sv2 @ [PlayTask (m, 0) (Some d)]"
      "stream_of (m, 0) sv3 = Some (t\<lparr>rtpSink := sink\<rparr>)" "has_sockets (t\<lparr>rtpSink := sink\<rparr>)"
      "connection_at sv3 c = Some (played w (rangeHeaderStr req) (RTSPClientSession.sessionID s) url k ts y)"
    and d: "\<not> isTCP d" "addrStr d = addr" "rtpPort d = p" "rtcpPort d = p + 1"
    using play_request_runs [OF ok2 two(1) i two(4,2,3) new_stream_sockets(1) [OF t(2) bindable], of md5 w req] s(4) by blast
  have answer: "handleRequestBytes md5 w c req sv2 = Some (responseBuffer (played w (rangeHeaderStr req) (RTSPClientSession.sessionID s) url k ts y), sv3)"
    using parse run(1,5) by (simp add: handleRequestBytes_def)
  have "\<not> rtcpInstance (t\<lparr>rtpSink := sink\<rparr>)" using t(2) by (simp add: new_stream_def)
  then obtain sv4 ns where play: "perform w1 (PlayTask (m, 0) (Some d)) sv3 = Some sv4" "waits w1 (m, 0) d ns sv3 sv4"
    using play_task_runs [OF run(3,4) d, of w1] by auto
  define sv4' where "sv4' = sv4\<lparr>tasks := remove1 (PlayTask (m, 0) (Some d)) (tasks sv4)\<rparr>"
  have w4: "stream_of (m, 0) sv4' = Some (t\<lparr>rtpSink := sink\<rparr>)" "constructor_sleeps w1 (t\<lparr>rtpSink := sink\<rparr>) ns"
      "WakeTask (m, 0) d (nanos w1 + ns) \<in> set (tasks sv4')"
    using play(2) run(3) by (auto simp: waits_def constructor_sleeps_def sv4'_def)
  have "\<not> delivers (m, 0) addr p sv4'" using w4(1) t(2) by (simp add: delivers_def new_stream_def)
  moreover have "\<exists>sv5. run_task w2 (WakeTask (m, 0) d (nanos w1 + ns)) sv4' = Some sv5 \<and> delivers (m, 0) addr p sv5"
    if "nanos w1 + ns \<le> nanos w2" for w2
  proof -
    obtain sv5 where sv5: "perform w2 (WakeTask (m, 0) d (nanos w1 + ns)) sv4' = Some sv5" "joins (m, 0) addr p (p + 1) sv4' sv5"
      using wake_task_runs [OF w4(1) run(4) d, of w2] by blast
    have "delivers (m, 0) addr p sv5" by (rule joins_delivers [OF sv5(2) w4(1) t(2)]) (use run(4) in \<open>simp add: has_sockets_def\<close>)
    then show ?thesis using sv5(1) that by (simp add: run_task_def delivers_def)
  qed
  moreover have "run_task w1 (PlayTask (m, 0) (Some d)) sv3 = Some sv4'" using play(1) by (simp add: run_task_def sv4'_def)
  moreover have "PlayTask (m, 0) (Some d) \<in> set (tasks sv3)" using run(2) by simp
  ultimately show ?thesis using run2 answer w4 unfolding req_def by blast
qed

section \<open>The client\<close>

text \<open>The client can go on from a description: it has described the stream at the URL and waits for nothing that is newer.\<close>

definition ready_client :: "client_world \<Rightarrow> string \<Rightarrow> string \<Rightarrow> string \<Rightarrow> RTSPClient \<Rightarrow> bool" where
  "ready_client w host name agent c \<longleftrightarrow>
     tunnelOverHTTPPortNum c = 0 \<and> conn_open c \<and> (\<forall>n. cw_writable w n) \<and> RTSPClient.lastSessionID c = [] \<and> dg_Realm (digest c) = [] \<and>
     userAgentHeaderStr c = ''User-Agent: '' @ agent @ crlf \<and> baseURL c = stream_url host name \<and>
     index (requestsAwaitingResponse c) \<le> length (requestRecords (requestsAwaitingResponse c)) \<and>
     (\<forall>r \<in> set (requestRecords (requestsAwaitingResponse c)). rq_cseq r \<le> RTSPClient.cseq c) \<and> RTSPClient.cseq c + 2 < 2 ^ 63"

text \<open>The ports that the system gives: the first even one is \<open>p\<close>, and the port after it can be bound.\<close>

definition gets_port :: "client_world \<Rightarrow> nat \<Rightarrow> bool" where
  "gets_port w p \<longleftrightarrow>
     (\<exists>k. (\<forall>j < k. \<exists>p. cw_ports w j = Some p \<and> odd p) \<and> cw_ports w k = Some p) \<and> even p \<and> p \<noteq> 0 \<and> cw_bindable w (p + 1) \<and> p + 1 < 2 ^ 16"

text \<open>A media session with the one subsession of an H.264 file.\<close>

definition one_track :: "MediaSession \<Rightarrow> bool" where
  "one_track ms \<longleftrightarrow>
     (\<exists>sub l. mediaSubsessions ms = Some sub # None # l \<and> described_as H264FileMediaSubsession sub) \<and> subsessionIndex ms = 0 \<and> ms_controlPath ms = ''*''"

lemma client_setup_text:
  assumes "ready_client w host name agent c" and "name \<noteq> []"
  shows "request_text md5 c (setup_record n q) (baseURL c @ ''track1'') (''Transport: RTP/AVP;unicast;client_port='' @ show_nat p @ ''-'' @ show_nat (p + 1) @ crlf) =
    setup_text host name agent n p"
proof -
  have h: "''Transport: RTP/AVP;unicast;client_port='' @ show_nat p @ ''-'' @ show_nat (p + 1) @ crlf = header_text (set_up_headers p)"
    by (simp add: header_text_def set_up_headers_def client_port_def)
  have u: "baseURL c @ ''track1'' = ''rtsp://'' @ host @ ''/'' @ path_of name ''track1''"
    using assms by (simp add: ready_client_def stream_url_def path_of_def)
  have r: "contentStr (setup_record n q) = []" "commandName (setup_record n q) = ''SETUP''" "rq_cseq (setup_record n q) = n"
    by (simp_all add: setup_record_def newRequestRecord_def)
  show ?thesis unfolding h
    using client_request_text [OF _ _ r(1) u, of c agent md5 "set_up_headers p"] assms(1) r(2,3) by (simp add: ready_client_def setup_text_def)
qed

lemma client_play_text:
  assumes "dg_Realm (digest c) = []" and "userAgentHeaderStr c = ''User-Agent: '' @ agent @ crlf" and "baseURL c = stream_url host name" and "name \<noteq> []"
  shows "request_text md5 c (play_record n i) (baseURL c) (''Session: '' @ ident @ crlf @ ''Range: npt=0.000-'' @ crlf) = play_text host name agent n ident"
proof -
  have h: "''Session: '' @ ident @ crlf @ ''Range: npt=0.000-'' @ crlf = header_text (play_headers ident)"
    by (simp add: header_text_def play_headers_def)
  have u: "baseURL c = ''rtsp://'' @ host @ ''/'' @ path_of name []" using assms(3,4) by (simp add: stream_url_def path_of_def)
  have r: "contentStr (play_record n i) = []" "commandName (play_record n i) = ''PLAY''" "rq_cseq (play_record n i) = n"
    by (simp_all add: play_record_def newRequestRecord_def)
  show ?thesis unfolding h using client_request_text [OF assms(1,2) r(1) u] r(2,3) by (simp add: play_text_def)
qed

lemma client_sets_up:
  assumes "ready_client w host name agent c" and "name \<noteq> []" and "gets_port w p" and "NewMediaSession (cw_hostname w) sdp = Some (Some ms)" and "one_track ms"
  shows "\<exists>c1 sub' l. continueAfterDESCRIBE md5 w 0 sdp c = Some c1 \<and> sent c1 = sent c @ [setup_text host name agent (RTSPClient.cseq c + 1) p] \<and>
    awaits (setup_record (RTSPClient.cseq c + 1) (length (sessions c), 0)) c1 \<and> RTSPClient.cseq c1 = RTSPClient.cseq c + 1 \<and>
    scs_Session c1 = Some (length (sessions c)) \<and> scs_Subsession c1 = Some (length (sessions c), 0) \<and>
    get_session (length (sessions c)) c1 = Some (ms\<lparr>subsessionIndex := 1, mediaSubsessions := Some sub' # None # l\<rparr>) \<and> clientPortNum sub' = p \<and>
    readSource sub' = Some (H264VideoRTPSource 96 90000) \<and>
    can_send w c1 \<and> dg_Realm (digest c1) = [] \<and> userAgentHeaderStr c1 = userAgentHeaderStr c \<and> baseURL c1 = baseURL c \<and>
    (\<exists>ns. last (client_calls c1) = ((length (sessions c), 0), Rtcp (Slept ns)))"
proof -
  obtain sub l where ms: "mediaSubsessions ms = Some sub # None # l" "described_as H264FileMediaSubsession sub" "subsessionIndex ms = 0" "ms_controlPath ms = ''*''"
    using assms(5) by (auto simp: one_track_def)
  obtain k where p: "\<forall>j < k. \<exists>p. cw_ports w j = Some p \<and> odd p" "cw_ports w k = Some p" "even p" "p \<noteq> 0" "cw_bindable w (p + 1)"
    using assms(3) by (auto simp: gets_port_def)
  have c: "can_send w c" "RTSPClient.lastSessionID c = []" using assms(1) by (simp_all add: ready_client_def can_send_def)
  obtain sub' c2 report ns where run: "continueAfterDESCRIBE md5 w 0 sdp c = Some (after_sending (setup_record (RTSPClient.cseq c + 1) (length (sessions c), 0))
      (setup_text host name agent (RTSPClient.cseq c + 1) p) c2)"
    and c2: "c2 = c\<lparr>sessions := sessions c @ [ms\<lparr>subsessionIndex := 1, mediaSubsessions := Some sub' # None # l\<rparr>],
      scs_Session := Some (length (sessions c)), scs_Subsession := Some (length (sessions c), 0),
      client_calls := client_calls c @ map (\<lambda>x. ((length (sessions c), 0), Rtcp x)) (rtcp_calls report (Some ns))\<rparr>"
    and sub': "clientPortNum sub' = p" "readSource sub' = Some (H264VideoRTPSource 96 90000)"
    using describe_to_setup [OF assms(4) ms(1,3,4,2) p c, of md5] unfolding client_setup_text [OF assms(1,2)] by blast
  have q: "\<forall>r \<in> set (requestRecords (requestsAwaitingResponse c)). rq_cseq r < RTSPClient.cseq c + 1"
    "index (requestsAwaitingResponse c) \<le> length (requestRecords (requestsAwaitingResponse c))" "RTSPClient.cseq c + 1 < 2 ^ 63"
    using assms(1) by (auto simp: ready_client_def)
  have "awaits (setup_record (RTSPClient.cseq c + 1) (length (sessions c), 0))
      (after_sending (setup_record (RTSPClient.cseq c + 1) (length (sessions c), 0)) (setup_text host name agent (RTSPClient.cseq c + 1) p) c2)"
    unfolding awaits_def using q
    by (intro conjI exI [of _ "requestRecords (requestsAwaitingResponse c)"])
      (simp_all add: after_sending_def c2 queue_enqueue_def setup_record_def newRequestRecord_def)
  moreover have "last (client_calls c2) = ((length (sessions c), 0), Rtcp (Slept ns))" by (simp add: c2 rtcp_calls_def split: option.split)
  ultimately show ?thesis using run sub' assms(1)
    by (intro exI [of _ "after_sending (setup_record (RTSPClient.cseq c + 1) (length (sessions c), 0)) (setup_text host name agent (RTSPClient.cseq c + 1) p) c2"]
        exI [of _ sub'] exI [of _ l])
      (simp add: after_sending_def c2 get_session_def setup_record_def newRequestRecord_def can_send_def ready_client_def)
qed

lemma client_plays:
  assumes "awaits (setup_record n (i, 0)) c" and "RTSPClient.cseq c = n" and "scs_Session c = Some i" and "scs_Subsession c = Some (i, 0)"
    and "get_session i c = Some (ms\<lparr>subsessionIndex := 1, mediaSubsessions := Some sub # None # l\<rparr>)" and "can_send w c"
    and "dg_Realm (digest c) = []" and "userAgentHeaderStr c = ''User-Agent: '' @ agent @ crlf" and "baseURL c = stream_url host name" and "name \<noteq> []"
    and "address (remoteAddr x)" and "address (localAddr x)" and "plain (w_date sw)" and "address ident" and "p < 2 ^ 64" and "q < 2 ^ 64"
    and "n + 1 < 2 ^ 63"
  shows "\<exists>c2 sub'. handleResponseBytes md5 w (udp_transport sw ident p p2 q q2 (x\<lparr>currentCSeq := show_nat n\<rparr>)) c = Some c2 \<and>
    sent c2 = sent c @ [play_text host name agent (n + 1) ident] \<and> get_subsession (i, 0) c2 = Some sub' \<and> hasSink sub' \<and>
    clientPortNum sub' = clientPortNum sub \<and> readSource sub' = readSource sub \<and> awaits (play_record (n + 1) i) c2"
proof -
  let ?r = "setup_record n (i, 0)" and ?x = "x\<lparr>currentCSeq := show_nat n\<rparr>" and ?ms = "ms\<lparr>subsessionIndex := 1, mediaSubsessions := Some sub # None # l\<rparr>"
  have r: "commandName ?r = ''SETUP''" "rq_subsession ?r = Some (i, 0)" "handler ?r = AfterSETUP" "rq_cseq ?r = n"
    by (simp_all add: setup_record_def newRequestRecord_def)
  have ms: "mediaSubsessions ?ms = Some sub # None # l" "subsessionIndex ?ms = 1" by simp_all
  have x: "currentCSeq ?x = show_nat (rq_cseq ?r)" "address (remoteAddr ?x)" "address (localAddr ?x)" using assms(11,12) r(4) by simp_all
  have i: "i < length (sessions c)" using assms(5) by (auto simp: get_session_def idx_def split: if_splits)
  define t where "t = play_text host name agent (n + 1) ident"
  obtain c3 sub' where run: "handleResponseBytes md5 w (udp_transport sw ident p p2 q q2 ?x) c = Some (after_sending (play_record (n + 1) i) t c3)"
    and c3: "c3 = c\<lparr>lastSessionID := ident, requestsAwaitingResponse := (requestsAwaitingResponse c)\<lparr>index := 0\<rparr>,
      sessions := (sessions c)[i := ?ms\<lparr>mediaSubsessions := Some sub' # None # l, subsessionIndex := 2\<rparr>], scs_Subsession := None,
      client_calls := client_calls c @ ((i, 0), SinkStarted (readSource sub)) # (if rtcpBandwidth sub \<noteq> None then [((i, 0), ByeHandlerSet)] else [])\<rparr>"
    and sub': "sub' = sub\<lparr>sessionID := ident, rtpChannelID := 0xFF, rtcpChannelID := 0xFF, serverPortNum := 0, connectionEndpointName := localAddr ?x, hasSink := True\<rparr>"
    using setup_to_play [OF assms(1) r(1-3) assms(3-5) ms assms(6) x assms(13-16), of md5 p2 q2] unfolding assms(2) client_play_text [OF assms(7-10)] t_def [symmetric]
    by (elim exE conjE) (rule that; assumption)
  have sub: "get_subsession (i, 0) (after_sending (play_record (n + 1) i) t c3) = Some sub'" "hasSink sub'" "clientPortNum sub' = clientPortNum sub"
      "readSource sub' = readSource sub"
    using i by (simp_all add: after_sending_def c3 sub' get_subsession_def)
  have "awaits (play_record (n + 1) i) (after_sending (play_record (n + 1) i) t c3)"
    using assms(1,17) by (auto intro: less_SucI simp: awaits_def after_sending_def c3 queue_enqueue_def play_record_def setup_record_def newRequestRecord_def)
  moreover have "sent (after_sending (play_record (n + 1) i) t c3) = sent c @ [t]" by (simp add: after_sending_def c3)
  ultimately show ?thesis using run sub unfolding t_def by blast
qed

section \<open>The run\<close>

text \<open>The description that the server makes for an H.264 file that it can open.\<close>

definition describes_file :: "world \<Rightarrow> string \<Rightarrow> string \<Rightarrow> bool" where
  "describes_file w name sdp \<longleftrightarrow> w_openable w name \<and> kind_of name = H264FileMediaSubsession \<and> plain name \<and> plain (w_ip w) \<and>
     (\<exists>n fmtp. plain fmtp \<and> w_auxSDPLine w n = ''a=fmtp:'' @ fmtp @ crlf \<and> (\<forall>j < n. w_auxSDPLine w j = [])) \<and>
     (\<exists>y calls y'. createNewSMS w name = Some (Some y) \<and> GenerateSDPDescription w y = Some (sdp, calls, y'))"

lemma description_one_track:
  assumes "describes_file w name sdp"
  shows "\<exists>ms. NewMediaSession host sdp = Some (Some ms) \<and> one_track ms"
proof -
  obtain n fmtp y calls y' where d: "createNewSMS w name = Some (Some y)" "w_openable w name" "plain (w_ip w)" "plain name" "plain fmtp"
      "w_auxSDPLine w n = ''a=fmtp:'' @ fmtp @ crlf" "\<forall>j < n. w_auxSDPLine w j = []"
    and g: "GenerateSDPDescription w y = Some (sdp, calls, y')" "kind_of name = H264FileMediaSubsession"
    using assms unfolding describes_file_def by (elim exE conjE) (rule that; assumption)
  obtain ms sub l where ms: "NewMediaSession host sdp = Some (Some ms)" "mediaSubsessions ms = Some sub # l" "set l \<subseteq> {None}" "length l = 1023"
      "subsessionIndex ms = 0" "ms_controlPath ms = ''*''" "described_as H264FileMediaSubsession sub"
    using description_is_read [OF d, of host] g by auto
  obtain l' where "l = None # l'" using ms(3,4) by (cases l) auto
  then show ?thesis using ms by (intro exI [of _ ms] conjI) (simp_all add: one_track_def)
qed

text \<open>The client has a sink on a port, for the H.264 stream.\<close>

definition listens :: "nat \<times> nat \<Rightarrow> nat \<Rightarrow> RTSPClient \<Rightarrow> bool" where
  "listens q port c \<longleftrightarrow> (\<exists>sub. get_subsession q c = Some sub \<and> hasSink sub \<and> clientPortNum sub = port \<and> readSource sub = Some (H264VideoRTPSource 96 90000))"

text \<open>C15. The client plays the stream of the server: given the server's description of an H.264 file that nobody plays yet, the client
  first sleeps in the constructor of its RTCP instance and then sends one SETUP; the server's answer to the bytes of this request makes it
  start its sink and send one PLAY, which the server answers too. The task that the server has then makes the RTCP instance of the new
  stream and waits, for as long as the constructor sleeps, and in this time the stream does not go to the client. From the end of the
  sleep on, and with any clock that shows at least this time, the rest of the task makes the stream go to the address of the client's
  connection, to the port of the client's sink for RTP and to the next port for RTCP, and starts the sink of the stream.
\<close>

theorem client_plays_the_stream:
  assumes "ready_client w host name agent c" and "plain_names host name agent" and "gets_port w p" and "describes_file sw name sdp"
    and "ready_server sw conn name sv" and "connection_at sv conn = Some x"
  shows "\<exists>c1 t1 a1 sv1 c2 t2 sv2 a2 sv3 m d sv4 t ns cns.
    continueAfterDESCRIBE md5 w 0 sdp c = Some c1 \<and> sent c1 = sent c @ [t1] \<and>
    last (client_calls c1) = ((length (sessions c), 0), Rtcp (Slept cns)) \<and>
    handleRequestBytes md5 sw conn t1 sv = Some (a1, sv1) \<and>
    handleResponseBytes md5 w a1 c1 = Some c2 \<and> sent c2 = sent c1 @ [t2] \<and>
    run_task w1 (LivenessTask (next_session sv)) sv1 = Some sv2 \<and>
    handleRequestBytes md5 sw conn t2 sv2 = Some (a2, sv3) \<and>
    PlayTask (m, 0) (Some d) \<in> set (tasks sv3) \<and> run_task w1 (PlayTask (m, 0) (Some d)) sv3 = Some sv4 \<and>
    stream_of (m, 0) sv4 = Some t \<and> constructor_sleeps w1 t ns \<and> \<not> delivers (m, 0) (remoteAddr x) p sv4 \<and>
    WakeTask (m, 0) d (nanos w1 + ns) \<in> set (tasks sv4) \<and>
    (\<forall>w2. nanos w1 + ns \<le> nanos w2 \<longrightarrow>
       (\<exists>sv5. run_task w2 (WakeTask (m, 0) d (nanos w1 + ns)) sv4 = Some sv5 \<and> delivers (m, 0) (remoteAddr x) p sv5)) \<and>
    listens (length (sessions c), 0) p c2"
proof -
  have name: "name \<noteq> []" using assms(2) by (simp add: plain_names_def)
  have p: "p < 2 ^ 64" "p + 1 < 2 ^ 64" using assms(3) by (simp_all add: gets_port_def)
  have addr: "address (remoteAddr x)" "address (localAddr x)" "plain (w_date sw)" and bindable: "\<forall>q. w_bindable sw q \<longrightarrow> q < 2 ^ 16"
    using assms(5,6) by (auto simp: ready_server_def)
  have n: "RTSPClient.cseq c + 1 + 1 < 2 ^ 63" and agent: "userAgentHeaderStr c = ''User-Agent: '' @ agent @ crlf" "baseURL c = stream_url host name"
    using assms(1) by (simp_all add: ready_client_def)
  obtain ms where ms: "NewMediaSession (cw_hostname w) sdp = Some (Some ms)" "one_track ms" using description_one_track [OF assms(4)] by blast
  define i where "i = length (sessions c)"
  define k where "k = RTSPClient.cseq c + 1"
  obtain c1 sub l cns where c1: "continueAfterDESCRIBE md5 w 0 sdp c = Some c1" "sent c1 = sent c @ [setup_text host name agent k p]"
      "awaits (setup_record k (i, 0)) c1" "RTSPClient.cseq c1 = k" "scs_Session c1 = Some i" "scs_Subsession c1 = Some (i, 0)"
      "get_session i c1 = Some (ms\<lparr>subsessionIndex := 1, mediaSubsessions := Some sub # None # l\<rparr>)" "can_send w c1" "dg_Realm (digest c1) = []"
      "userAgentHeaderStr c1 = userAgentHeaderStr c" "baseURL c1 = baseURL c" "last (client_calls c1) = ((i, 0), Rtcp (Slept cns))"
    and sub: "clientPortNum sub = p" "readSource sub = Some (H264VideoRTPSource 96 90000)"
    using client_sets_up [OF assms(1) name assms(3) ms, of md5, folded k_def i_def] by (elim exE conjE) (rule that; assumption)
  obtain ident sv1 m t after where s1: "handleRequestBytes md5 sw conn (setup_text host name agent k p) sv =
        Some (udp_transport sw ident p (p + 1) (serverRTPPort t) (serverRTCPPort t) (x\<lparr>currentCSeq := show_nat k\<rparr>), sv1)"
      "set ident \<subseteq> set ''0123456789ABCDEF''" "ident \<noteq> []" "server_ok {} sv1" "clientSessions sv1 ident = Some (next_session sv)"
      "serverMediaSessions sv1 name = Some m" "session_at sv1 (next_session sv) = Some (set_up_session m after (live_session conn ident))"
      "receives (m, 0) ident (remoteAddr x) p (p + 1) sv1" "stream_of (m, 0) sv1 = Some t" "new_stream sw t"
      "serverRTPPort t < 2 ^ 16" "LivenessTask (next_session sv) \<in> set (tasks sv1)" "connection_at sv1 conn \<noteq> None"
    using server_sets_up [OF assms(5,6,2) p(2), of md5 k] by (elim exE conjE) (rule that; assumption)
  have q: "serverRTPPort t < 2 ^ 64" using s1(11) by simp
  obtain c2 sub' where c2: "handleResponseBytes md5 w (udp_transport sw ident p (p + 1) (serverRTPPort t) (serverRTCPPort t) (x\<lparr>currentCSeq := show_nat k\<rparr>)) c1 = Some c2"
      "sent c2 = sent c1 @ [play_text host name agent (k + 1) ident]" "get_subsession (i, 0) c2 = Some sub'" "hasSink sub'"
      "clientPortNum sub' = clientPortNum sub" "readSource sub' = readSource sub"
    using client_plays [OF c1(3-9) trans [OF c1(10) agent(1)] trans [OF c1(11) agent(2)] name addr hex_field(2) [OF s1(2,3)] p(1) q n [folded k_def],
        of md5 "p + 1" "serverRTCPPort t"] by (elim exE conjE) (rule that; assumption)
  obtain sv2 a2 sv3 d sv4 ns t4 where s2: "run_task w1 (LivenessTask (next_session sv)) sv1 = Some sv2"
      "handleRequestBytes md5 sw conn (play_text host name agent (k + 1) ident) sv2 = Some (a2, sv3)" "PlayTask (m, 0) (Some d) \<in> set (tasks sv3)"
      "run_task w1 (PlayTask (m, 0) (Some d)) sv3 = Some sv4" "stream_of (m, 0) sv4 = Some t4" "constructor_sleeps w1 t4 ns"
      "\<not> delivers (m, 0) (remoteAddr x) p sv4" "WakeTask (m, 0) d (nanos w1 + ns) \<in> set (tasks sv4)"
      "\<forall>w2. nanos w1 + ns \<le> nanos w2 \<longrightarrow>
         (\<exists>sv5. run_task w2 (WakeTask (m, 0) d (nanos w1 + ns)) sv4 = Some sv5 \<and> delivers (m, 0) (remoteAddr x) p sv5)"
    using server_plays [OF s1(4) assms(2) s1(2,5,7,6,13,12,8,9,10) bindable, of w1 md5 "k + 1"] by (elim exE conjE) (rule that; assumption)
  have l: "listens (length (sessions c), 0) p c2" using c2(3-6) sub by (simp add: listens_def i_def)
  show ?thesis
    by (rule exI [of _ c1], rule exI [of _ "setup_text host name agent k p"], rule exI, rule exI [of _ sv1],
        rule exI [of _ c2], rule exI [of _ "play_text host name agent (k + 1) ident"], intro exI conjI)
      (rule c1(1,2,12) [unfolded i_def] s1(1) c2(1,2) s2 l)+
qed

text \<open>The example: the camera's file for the client of \<open>10.0.0.2\<close>.\<close>

definition ex_run_world :: world where
  "ex_run_world = ex_world\<lparr>w_bindable := (\<lambda>p. p \<noteq> 6971 \<and> p < 2 ^ 16), w_auxSDPLine := (\<lambda>i. if i < 3 then [] else ''a=fmtp:'' @ ''96'' @ crlf)\<rparr>"

definition ex_run_client :: RTSPClient where
  "ex_run_client = ex_client\<lparr>userAgentHeaderStr := ''User-Agent: '' @ ''dorcli'' @ crlf\<rparr>"

lemma ex_run_ready:
  "ready_client ex_client_world ''cam'' ''a.264'' ''dorcli'' ex_run_client" "plain_names ''cam'' ''a.264'' ''dorcli''" "gets_port ex_client_world 40002"
  "ready_server ex_run_world 0 ''a.264'' (ex_connected None)" "\<exists>sdp. describes_file ex_run_world ''a.264'' sdp"
proof -
  show "ready_client ex_client_world ''cam'' ''a.264'' ''dorcli'' ex_run_client"
    by (simp add: ready_client_def ex_run_client_def ex_client_def client_New_def newRequestQueue_def NewDigest_def ex_client_world_def stream_url_def)
  have t: "CHR ''T'' \<notin> set ''dorcli''" "CHR ''T'' \<notin> set (stream_url ''cam'' ''a.264'' @ ''track1'')" by (simp_all add: stream_url_def)
  have "host_name ''cam''" by (simp add: host_name_def ascii_def)
  moreover have "path_part ''a.264''" by (rule path_partI) (simp_all add: ascii_def)
  moreover have "field_value ''dorcli''" by (simp add: field_value_def ascii_def line_end_def ws_def cr_def lf_def tab_def)
  ultimately show "plain_names ''cam'' ''a.264'' ''dorcli''" using t by (auto simp: plain_names_def dest!: set_mono_sublist)
  show "gets_port ex_client_world 40002"
    unfolding gets_port_def ex_client_world_def by (intro conjI exI [of _ 1]) simp_all
  have x: "address ''10.0.0.2''" "address ''10.0.0.1''" by (simp_all add: address_def ascii_space_def)
  show "ready_server ex_run_world 0 ''a.264'' (ex_connected None)"
    unfolding ready_server_def
  proof (intro conjI)
    show "server_ok {} (ex_connected None)" by (rule ex_connected_ok)
    show "\<exists>x. connection_at (ex_connected None) 0 = Some x \<and> address (remoteAddr x) \<and> address (localAddr x)"
      using x by (simp add: ex_connected_def newRTSPClientConnection_def New_def)
    show "plain (w_date ex_run_world)" by (simp add: ex_run_world_def ex_world_def eol_def cr_def lf_def)
    show "\<exists>j. clientSessions (ex_connected None) (show_hex8 (w_sessionIDs ex_run_world j)) = None" by (simp add: ex_connected_fields)
    show "w_openable ex_run_world ''a.264''" by (simp add: ex_run_world_def ex_world_def)
    show "\<exists>base ext others. Split ''a.264'' CHR ''.'' = base # ext # others \<and> ext \<in> {''264'', ''ts''}" unfolding ex_file(2) by blast
    show "\<exists>k. w_bindable ex_run_world (6970 + 2 * k) \<and> w_bindable ex_run_world (6970 + 2 * k + 1)"
      by (rule exI [of _ 1]) (simp add: ex_run_world_def)
    show "\<forall>q. w_bindable ex_run_world q \<longrightarrow> q < 2 ^ 16" by (simp add: ex_run_world_def)
    show "stream_of_file ''a.264'' (ex_connected None) = None"
      by (simp add: stream_of_file_def ex_connected_fields)
  qed
  obtain y where y: "createNewSMS ex_run_world ''a.264'' = Some (Some y)" using createNewSMS_returns [OF ex_file(2)] by blast
  have w: "w_openable ex_run_world ''a.264''" "plain (w_ip ex_run_world)" "plain ''a.264''" "plain ''96''"
    "w_auxSDPLine ex_run_world 3 = ''a=fmtp:'' @ ''96'' @ crlf" "\<forall>j < 3. w_auxSDPLine ex_run_world j = []"
    by (simp_all add: ex_run_world_def ex_world_def eol_def cr_def lf_def)
  obtain sdp calls y' where "GenerateSDPDescription ex_run_world y = Some (sdp, calls, y')"
    using description_is_read [OF y w, of "[]"] by (elim exE conjE) (rule that; assumption)
  moreover have "kind_of ''a.264'' = H264FileMediaSubsession" unfolding kind_of_def ex_file(2) by simp
  ultimately show "\<exists>sdp. describes_file ex_run_world ''a.264'' sdp" unfolding describes_file_def using w y
    by (intro exI [of _ sdp]) blast
qed

lemma ex_clock: "\<exists>w2. n \<le> nanos w2"
  by (rule exI [of _ "ex_world\<lparr>w_now := \<lparr>tv_sec = \<bar>n\<bar>, tv_usec = 0\<rparr>\<rparr>"]) (simp add: nanos_def)

lemma client_plays_the_stream_witness:
  "\<exists>sdp c1 t1 a1 sv1 c2 sv4 sv5 w2 m d until. continueAfterDESCRIBE id ex_client_world 0 sdp ex_run_client = Some c1 \<and> sent c1 = [t1] \<and>
     handleRequestBytes id ex_run_world 0 t1 (ex_connected None) = Some (a1, sv1) \<and> handleResponseBytes id ex_client_world a1 c1 = Some c2 \<and>
     run_task w2 (WakeTask (m, 0) d until) sv4 = Some sv5 \<and>
     delivers (m, 0) ''10.0.0.2'' 40002 sv5 \<and> listens (0, 0) 40002 c2"
proof -
  obtain sdp where sdp: "describes_file ex_run_world ''a.264'' sdp" using ex_run_ready(5) by blast
  obtain x where x: "connection_at (ex_connected None) 0 = Some x" "remoteAddr x = ''10.0.0.2''" using ex_connected_fields(1) by blast
  have c: "sent ex_run_client = []" "sessions ex_run_client = []" by (simp_all add: ex_run_client_def ex_client_def client_New_def)
  obtain c1 t1 a1 sv1 c2 sv4 m d ns where r: "continueAfterDESCRIBE id ex_client_world 0 sdp ex_run_client = Some c1" "sent c1 = [t1]"
      "handleRequestBytes id ex_run_world 0 t1 (ex_connected None) = Some (a1, sv1)" "handleResponseBytes id ex_client_world a1 c1 = Some c2"
      "\<forall>w2. nanos ex_run_world + ns \<le> nanos w2 \<longrightarrow>
         (\<exists>sv5. run_task w2 (WakeTask (m, 0) d (nanos ex_run_world + ns)) sv4 = Some sv5 \<and> delivers (m, 0) ''10.0.0.2'' 40002 sv5)"
      "listens (0, 0) 40002 c2"
    using client_plays_the_stream [OF ex_run_ready(1-3) sdp ex_run_ready(4) x(1), of id ex_run_world] unfolding x(2) c append.simps list.size(3)
    by (elim exE conjE) (rule that; assumption)
  obtain w2 where "nanos ex_run_world + ns \<le> nanos w2" using ex_clock by blast
  then obtain sv5 where "run_task w2 (WakeTask (m, 0) d (nanos ex_run_world + ns)) sv4 = Some sv5" "delivers (m, 0) ''10.0.0.2'' 40002 sv5"
    using r(5) by blast
  then show ?thesis using r(1-4,6) by (intro exI conjI)
qed

end
