(* ===== verification/ParameterSets.thy ===== *)
theory ParameterSets
  imports H264Stream PlayRun
begin

text \<open>
  The parameter sets of an H.264 stream in the description of the server: \<open>AuxSDPLine\<close> of \<^verbatim>\<open>livemedia/h264_video_rtp_sink.go\<close>, with the
  standard Base64 encoding of the Go library. What the line says is compared with what RFC 6184 lets a receiver read from it.
\<close>

section \<open>Base64\<close>

text \<open>\<open>EncodeToString\<close> of bytes; \<open>RtspClient\<close> has it for strings.\<close>

definition EncodeToString :: "bytes \<Rightarrow> string" where
  "EncodeToString bs = base64 (map (\<lambda>b. char_of (unat b)) bs)"

text \<open>The decoder of a receiver, for well-formed texts.\<close>

definition base64_value :: "char \<Rightarrow> nat" where
  "base64_value ch = length (takeWhile (\<lambda>x. x \<noteq> ch) ''ABCDEFGHIJKLMNOPQRSTUVWXYZabcdefghijklmnopqrstuvwxyz0123456789+/'')"

fun base64_decode :: "string \<Rightarrow> bytes" where
  "base64_decode (w # x # y # z # r) =
     (if y = CHR ''='' then [word_of_nat (base64_value w * 4 + base64_value x div 16)]
      else if z = CHR ''='' then [word_of_nat (base64_value w * 4 + base64_value x div 16), word_of_nat (base64_value x mod 16 * 16 + base64_value y div 4)]
      else word_of_nat (base64_value w * 4 + base64_value x div 16) # word_of_nat (base64_value x mod 16 * 16 + base64_value y div 4) #
        word_of_nat (base64_value y mod 4 * 64 + base64_value z) # base64_decode r)"
| "base64_decode _ = []"

lemma base64_alphabet:
  assumes "i < 64"
  shows "base64_value (base64_digit i) = i" "base64_digit i \<noteq> CHR ''=''" "base64_digit i \<noteq> CHR '',''" "\<not> eol (base64_digit i)"
proof -
  let ?s = "''ABCDEFGHIJKLMNOPQRSTUVWXYZabcdefghijklmnopqrstuvwxyz0123456789+/''"
  have "map base64_digit [0..<64] = ?s" by code_simp
  then have e: "base64_digit i = ?s ! i" if "i < 64" for i using that by (metis (no_types, lifting) add_0 diff_zero length_upt nth_map nth_upt)
  have "\<forall>i < 64. base64_value (?s ! i) = i \<and> ?s ! i \<noteq> CHR ''='' \<and> ?s ! i \<noteq> CHR '','' \<and> \<not> eol (?s ! i)" by code_simp
  then have "\<forall>i < 64. base64_value (base64_digit i) = i \<and> base64_digit i \<noteq> CHR ''='' \<and> base64_digit i \<noteq> CHR '','' \<and> \<not> eol (base64_digit i)"
    using e by simp
  then show "base64_value (base64_digit i) = i" "base64_digit i \<noteq> CHR ''=''" "base64_digit i \<noteq> CHR '',''" "\<not> eol (base64_digit i)" using assms by blast+
qed

lemma byte_less: "unat (a :: byte) < 256"
  using unsigned_less [of a] by simp

lemma byte_back: "word_of_nat (unat (a :: byte)) = a"
  by simp

lemma sextets:
  fixes a b c :: byte
  shows "unat a div 4 < 64" "unat a mod 4 * 16 < 64" "unat a mod 4 * 16 + unat b div 16 < 64" "unat b mod 16 * 4 < 64"
    "unat b mod 16 * 4 + unat c div 64 < 64" "unat c mod 64 < 64"
proof -
  have d: "unat a div 4 < 64" "unat b div 16 < 16" "unat c div 64 < 4" "unat a mod 4 < 4" "unat b mod 16 < 16" "unat c mod 64 < 64"
    using byte_less [of a] byte_less [of b] byte_less [of c] by simp_all
  show "unat a div 4 < 64" "unat a mod 4 * 16 < 64" "unat b mod 16 * 4 < 64" "unat c mod 64 < 64" using d(1,4,5,6) by linarith+
  show "unat a mod 4 * 16 + unat b div 16 < 64" using d(2,4) by linarith
  show "unat b mod 16 * 4 + unat c div 64 < 64" using d(3,5) by linarith
qed

lemma octets:
  fixes a b c :: byte
  shows "unat a div 4 * 4 + unat a mod 4 * 16 div 16 = unat a"
    "unat a div 4 * 4 + (unat a mod 4 * 16 + unat b div 16) div 16 = unat a"
    "(unat a mod 4 * 16 + unat b div 16) mod 16 * 16 + unat b mod 16 * 4 div 4 = unat b"
    "(unat a mod 4 * 16 + unat b div 16) mod 16 * 16 + (unat b mod 16 * 4 + unat c div 64) div 4 = unat b"
    "(unat b mod 16 * 4 + unat c div 64) mod 4 * 64 + unat c mod 64 = unat c"
proof -
  have l: "unat a < 256" "unat b < 256" "unat c < 256" using byte_less by blast+
  then have d: "unat b div 16 < 16" "unat c div 64 < 4" by simp_all
  show "unat a div 4 * 4 + unat a mod 4 * 16 div 16 = unat a" by simp
  show "unat a div 4 * 4 + (unat a mod 4 * 16 + unat b div 16) div 16 = unat a" using d by simp
  show "(unat a mod 4 * 16 + unat b div 16) mod 16 * 16 + unat b mod 16 * 4 div 4 = unat b" using d by (simp add: mod_add_left_eq [symmetric])
  show "(unat a mod 4 * 16 + unat b div 16) mod 16 * 16 + (unat b mod 16 * 4 + unat c div 64) div 4 = unat b"
    using d by (simp add: mod_add_left_eq [symmetric])
  show "(unat b mod 16 * 4 + unat c div 64) mod 4 * 64 + unat c mod 64 = unat c" using d by (simp add: mod_add_left_eq [symmetric])
qed

lemma octet_induct [case_names Nil One Two Three]:
  assumes "P []" and "\<And>a. P [a]" and "\<And>a b. P [a, b]" and "\<And>a b c r. P r \<Longrightarrow> P (a # b # c # r)"
  shows "P bs"
  using assms by induction_schema (pat_completeness, lexicographic_order)

lemma digits_of_24:
  fixes a b c :: nat
  assumes "a < 256" and "b < 256" and "c < 256"
  shows "(a * 65536 + b * 256 + c) div 262144 = a div 4" "(a * 65536 + b * 256 + c) div 4096 mod 64 = a mod 4 * 16 + b div 16"
    "(a * 65536 + b * 256 + c) div 64 mod 64 = b mod 16 * 4 + c div 64" "(a * 65536 + b * 256 + c) mod 64 = c mod 64"
proof -
  let ?n = "a * 65536 + b * 256 + c"
  have n: "?n div 64 = a * 1024 + b * 4 + c div 64" "?n div 4096 = a * 16 + b div 16" "?n div 262144 = a div 4" using assms by auto
  have r: "(x * k + y) mod (j * k) = x mod j * k + y" if "y < k" for j k x y :: nat
  proof -
    have "x * k + y = x div j * (j * k) + (x mod j * k + y)" using div_mult_mod_eq [of x j] by (metis add.assoc distrib_right mult.assoc)
    moreover have "x mod j * k + y < j * k" if "0 < j"
    proof -
      have "(x mod j + 1) * k \<le> j * k" using that by (intro mult_le_mono1) (simp add: Suc_leI)
      then show ?thesis using \<open>y < k\<close> by (simp add: distrib_right)
    qed
    ultimately show ?thesis by (cases "j = 0") (simp, metis bot_nat_0.not_eq_extremum mod_less mod_mult_self3)
  qed
  show "?n div 262144 = a div 4" by (rule n(3))
  show "?n div 4096 mod 64 = a mod 4 * 16 + b div 16" unfolding n(2) using r [of "b div 16" 16 a 4] assms by simp
  have m: "(a * 256 + b) mod 16 = b mod 16" using mod_mult_self3 [of "a * 16" 16 b] by (simp add: mult.assoc)
  have n1: "?n div 64 = (a * 256 + b) * 4 + c div 64" using n(1) by simp
  have "?n div 64 mod (16 * 4) = (a * 256 + b) mod 16 * 4 + c div 64" unfolding n1 by (rule r) (use assms in simp)
  then show "?n div 64 mod 64 = b mod 16 * 4 + c div 64" unfolding m by simp
  have n0: "?n = (a * 1024 + b * 4) * 64 + c" by simp
  show "?n mod 64 = c mod 64" unfolding n0 mod_mult_self3 ..
qed

lemma EncodeToString_groups:
  "EncodeToString [] = []"
  "EncodeToString [a] = [base64_digit (unat a div 4), base64_digit (unat a mod 4 * 16), CHR ''='', CHR ''='']"
  "EncodeToString [a, b] =
     [base64_digit (unat a div 4), base64_digit (unat a mod 4 * 16 + unat b div 16), base64_digit (unat b mod 16 * 4), CHR ''='']"
  "EncodeToString (a # b # c # r) =
     base64_digit (unat a div 4) # base64_digit (unat a mod 4 * 16 + unat b div 16) #
     base64_digit (unat b mod 16 * 4 + unat c div 64) # base64_digit (unat c mod 64) # EncodeToString r"
proof -
  have l: "unat x < 256" for x :: byte by (rule byte_less)
  then have m: "unat x mod 256 = unat x" for x :: byte by simp
  show "EncodeToString [] = []" by (simp add: EncodeToString_def)
  show "EncodeToString [a] = [base64_digit (unat a div 4), base64_digit (unat a mod 4 * 16), CHR ''='', CHR ''='']"
    using digits_of_24 [OF l, of 0 0 a] by (simp add: EncodeToString_def Let_def m)
  show "EncodeToString [a, b] =
     [base64_digit (unat a div 4), base64_digit (unat a mod 4 * 16 + unat b div 16), base64_digit (unat b mod 16 * 4), CHR ''='']"
    using digits_of_24 [OF l l, of 0 a b] by (simp add: EncodeToString_def Let_def m)
  show "EncodeToString (a # b # c # r) =
     base64_digit (unat a div 4) # base64_digit (unat a mod 4 * 16 + unat b div 16) #
     base64_digit (unat b mod 16 * 4 + unat c div 64) # base64_digit (unat c mod 64) # EncodeToString r"
    using digits_of_24 [OF l l l, of a b c] by (simp add: EncodeToString_def Let_def m)
qed

lemmas base64_steps = EncodeToString_groups base64_decode.simps base64_alphabet sextets octets byte_back if_False if_True simp_thms

lemma base64_round_trip: "base64_decode (EncodeToString bs) = bs"
  by (induction bs rule: octet_induct) (simp_all only: base64_steps)

lemma base64_text: "ch \<in> set (EncodeToString bs) \<Longrightarrow> ch \<noteq> CHR '','' \<and> \<not> eol ch"
proof (induction bs rule: octet_induct)
  case (One a)
  then show ?case using sextets base64_alphabet(3,4) by (auto simp: EncodeToString_groups eol_def cr_def lf_def)
next
  case (Two a b)
  then show ?case using sextets base64_alphabet(3,4) by (auto simp: EncodeToString_groups eol_def cr_def lf_def)
next
  case (Three a b c r)
  then show ?case using sextets base64_alphabet(3,4) by (auto simp: EncodeToString_groups)
qed (simp add: EncodeToString_groups)

section \<open>Hexadecimal numbers\<close>

text \<open>\<open>%0nX\<close> of a number that is not negative.\<close>

fun show_hex :: "nat \<Rightarrow> string" where
  "show_hex n = (if n < 16 then [hex_digit n] else show_hex (n div 16) @ [hex_digit (n mod 16)])"

declare show_hex.simps [simp del]

definition show_hex_padded :: "nat \<Rightarrow> nat \<Rightarrow> string" where
  "show_hex_padded w n = (let s = show_hex n in replicate (w - length s) CHR ''0'' @ s)"

lemma hex_digit_0: "hex_digit 0 = CHR ''0''"
  by code_simp

lemma show_hex_padded_Suc:
  assumes "0 < w"
  shows "show_hex_padded (Suc w) n = show_hex_padded w (n div 16) @ [hex_digit (n mod 16)]"
proof (cases "n < 16")
  case True
  have "show_hex 0 = ''0''" by (subst show_hex.simps) (simp add: hex_digit_0)
  moreover have "replicate w CHR ''0'' = replicate (w - 1) CHR ''0'' @ ''0''" using assms by (cases w) (simp_all add: replicate_append_same)
  ultimately show ?thesis using True assms by (simp add: show_hex_padded_def show_hex.simps [of n])
next
  case False
  then show ?thesis by (simp add: show_hex_padded_def Let_def show_hex.simps [of n])
qed

lemma show_hex_padded_digits:
  "n < 16 ^ Suc w \<Longrightarrow> show_hex_padded (Suc w) n = map (\<lambda>i. hex_digit (n div 16 ^ i mod 16)) (rev [0..<Suc w])"
proof (induction w arbitrary: n)
  case 0
  then show ?case by (simp add: show_hex_padded_def show_hex.simps)
next
  case (Suc w)
  have "n div 16 < 16 ^ Suc w" using Suc.prems by (simp add: div_less_iff_less_mult mult.commute)
  note ih = Suc.IH [OF this]
  have "[0..<Suc (Suc w)] = 0 # map Suc [0..<Suc w]" unfolding map_Suc_upt by (rule upt_conv_Cons) simp
  then show ?case unfolding show_hex_padded_Suc [OF zero_less_Suc] ih by (simp add: rev_map div_mult2_eq del: upt_Suc)
qed

lemma show_hex_six:
  assumes "n < 2 ^ 24"
  shows "show_hex_padded 6 n = map (\<lambda>i. hex_digit (n div 16 ^ i mod 16)) [5, 4, 3, 2, 1, 0]"
proof -
  have "rev [0..<Suc 5] = [5, 4, 3, 2, 1, 0]" by code_simp
  then show ?thesis using show_hex_padded_digits [of n 5] assms by simp
qed

section \<open>The line\<close>

text \<open>The fields that \<open>H264VideoRTPSink\<close> has for the parameter sets. The source of its fragmenter is asked with a type assertion.\<close>

record SinkParameterSets =
  sps :: bytes
  pps :: bytes
  spsSize :: nat
  ppsSize :: nat

datatype InputSource = Framer H264VideoStreamFramer | OtherSource

definition profileLevelID :: "SinkParameterSets \<Rightarrow> u32 option" where
  "profileLevelID s = (if 4 \<le> spsSize s then do { b \<leftarrow> slice (sps s) 1 4; Uint32 b } else Some 0)"

definition fmtp_line :: "u32 \<Rightarrow> SinkParameterSets \<Rightarrow> string option" where
  "fmtp_line payloadType s = do {
     ident \<leftarrow> profileLevelID s;
     Some (''a=fmtp:'' @ show_nat (unat payloadType) @ '' packetization-mode=1;profile-level-id='' @ show_hex_padded 6 (unat ident) @
       '';sprop-parameter-sets='' @ EncodeToString (sps s) @ '','' @ EncodeToString (pps s) @ crlf)
   }"

text \<open>The source of the fragmenter is \<open>None\<close> when there is no fragmenter yet.\<close>

definition AuxSDPLine :: "u32 \<Rightarrow> InputSource option \<Rightarrow> SinkParameterSets \<Rightarrow> (string \<times> SinkParameterSets) option" where
  "AuxSDPLine payloadType source s =
     (if sps s = [] \<or> pps s = [] then
        (case source of
           None \<Rightarrow> Some ([], s)
         | Some OtherSource \<Rightarrow> None
         | Some (Framer f) \<Rightarrow>
             (let (b, c, n, k) = getSPSandPPS f; s' = s\<lparr>sps := b, pps := c, spsSize := n, ppsSize := k\<rparr>
              in if b = [] \<or> c = [] then Some ([], s') else do { line \<leftarrow> fmtp_line payloadType s'; Some (line, s') }))
      else do { line \<leftarrow> fmtp_line payloadType s; Some (line, s) })"

text \<open>What a receiver reads from the line: the three bytes of the profile, and the two parameter sets.\<close>

definition hex_value :: "char \<Rightarrow> nat" where
  "hex_value ch = length (takeWhile (\<lambda>x. x \<noteq> ch) ''0123456789ABCDEF'')"

definition read_profile :: "string \<Rightarrow> nat list option" where
  "read_profile line = do {
     i \<leftarrow> Index line ''profile-level-id='';
     let s = map hex_value (take 6 (drop (i + 17) line));
     Some [s ! 0 * 16 + s ! 1, s ! 2 * 16 + s ! 3, s ! 4 * 16 + s ! 5]
   }"

definition read_parameter_sets :: "string \<Rightarrow> (bytes \<times> bytes) option" where
  "read_parameter_sets line = do {
     i \<leftarrow> Index line ''sprop-parameter-sets='';
     let s = drop (i + 21) line;
     Some (base64_decode (takeWhile (\<lambda>x. x \<noteq> CHR '','') s), base64_decode (takeWhile (\<lambda>x. \<not> eol x) (tl (dropWhile (\<lambda>x. x \<noteq> CHR '','') s))))
   }"

lemma hex_value: "d < 16 \<Longrightarrow> hex_value (hex_digit d) = d"
proof -
  have "\<forall>d < 16. hex_value (hex_digit d) = d" by code_simp
  then show "d < 16 \<Longrightarrow> hex_value (hex_digit d) = d" by blast
qed

text \<open>The text of the line, with any hexadecimal digits.\<close>

definition fmtp_text :: "nat \<Rightarrow> string \<Rightarrow> bytes \<Rightarrow> bytes \<Rightarrow> string" where
  "fmtp_text pt h b c = ''a=fmtp:'' @ show_nat pt @ '' packetization-mode=1;profile-level-id='' @ h @ '';sprop-parameter-sets='' @ EncodeToString b @ '','' @ EncodeToString c @ crlf"

lemma Index_letter:
  assumes "t \<noteq> []" and "hd t \<notin> set r"
  shows "Index (r @ t @ u) t = Some (length r)"
proof (rule Index_skip)
  show "\<forall>i < length r. \<not> prefix t (drop i (r @ t @ u))"
  proof (intro allI impI)
    fix i assume i: "i < length r"
    then have "drop i (r @ t @ u) = r ! i # drop (Suc i) (r @ t @ u)" by (simp add: Cons_nth_drop_Suc nth_append)
    moreover have "r ! i \<noteq> hd t" using i assms(2) by (metis nth_mem)
    ultimately show "\<not> prefix t (drop i (r @ t @ u))" using assms(1) by (cases t) auto
  qed
qed simp

lemma drop_after: "k = length r + length t \<Longrightarrow> drop k (r @ t @ u) = u"
  by simp

lemma read_parameter_sets_text:
  assumes "set h \<subseteq> set ''0123456789ABCDEF''"
  shows "read_parameter_sets (fmtp_text pt h b c) = Some (b, c)"
proof -
  let ?r = "''a=fmtp:'' @ show_nat pt @ '' packetization-mode=1;profile-level-id='' @ h @ '';''" and ?u = "EncodeToString b @ '','' @ EncodeToString c @ crlf"
  have "CHR ''s'' \<notin> set (show_nat pt)" using show_nat_digits [of pt] by (auto simp: is_digit_def)
  moreover have "CHR ''s'' \<notin> set h" using assms by auto
  ultimately have "CHR ''s'' \<notin> set ?r" by simp
  then have i: "Index (?r @ ''sprop-parameter-sets='' @ ?u) ''sprop-parameter-sets='' = Some (length ?r)" by (intro Index_letter) simp_all
  have d: "drop (length ?r + 21) (?r @ ''sprop-parameter-sets='' @ ?u) = ?u" by (rule drop_after) simp
  have t: "fmtp_text pt h b c = ?r @ ''sprop-parameter-sets='' @ ?u" by (simp add: fmtp_text_def)
  have "takeWhile (\<lambda>x. x \<noteq> CHR '','') ?u = EncodeToString b" using base64_text [of _ b] by (simp add: takeWhile_append2)
  moreover have "tl (dropWhile (\<lambda>x. x \<noteq> CHR '','') ?u) = EncodeToString c @ crlf" using base64_text [of _ b] by (simp add: dropWhile_append2)
  moreover have "takeWhile (\<lambda>x. \<not> eol x) (EncodeToString c @ crlf) = EncodeToString c"
    using base64_text [of _ c] by (simp add: takeWhile_append2 crlf_def eol_def)
  ultimately show ?thesis unfolding read_parameter_sets_def t i bind.bind_lunit d by (simp add: base64_round_trip)
qed

lemma nibbles: "(m :: nat) div 16 mod 16 * 16 + m mod 16 = m mod 256"
  using mod_mult2_eq [of m 16 16] by simp

lemma read_profile_text:
  assumes "x < 256" and "y < 256" and "z < 256" and "n = x * 65536 + y * 256 + z"
  shows "read_profile (fmtp_text pt (show_hex_padded 6 n) b c) = Some [x, y, z]"
proof -
  let ?r = "''a=fmtp:'' @ show_nat pt @ '' packetization-mode=1;''" and ?h = "map (\<lambda>i. hex_digit (n div 16 ^ i mod 16)) [5, 4, 3, 2, 1, 0]"
  have "n < 2 ^ 24" using assms by simp
  note h = show_hex_six [OF this]
  have "CHR ''r'' \<notin> set (show_nat pt)" using show_nat_digits [of pt] by (auto simp: is_digit_def)
  then have "CHR ''r'' \<notin> set ?r" by simp
  then have "\<not> sublist ''profile-level-id='' ?r" by (auto dest: set_mono_sublist)
  then have i: "Index (?r @ ''profile-level-id='' @ ?h @ u) ''profile-level-id='' = Some (length ?r)" for u by (rule Index_first) simp_all
  have t: "fmtp_text pt (show_hex_padded 6 n) b c = ?r @ ''profile-level-id='' @ ?h @ '';sprop-parameter-sets='' @ EncodeToString b @ '','' @ EncodeToString c @ crlf"
    unfolding h by (simp add: fmtp_text_def)
  have dr: "take 6 (drop (length ?r + 17) (?r @ ''profile-level-id='' @ ?h @ u)) = ?h" for u
    by (subst drop_after) simp_all
  have v: "map hex_value ?h = [n div 16 ^ 5 mod 16, n div 16 ^ 4 mod 16, n div 16 ^ 3 mod 16, n div 16 ^ 2 mod 16, n div 16 ^ 1 mod 16, n div 16 ^ 0 mod 16]"
    by (simp add: hex_value)
  have q: "n div 65536 = x" "n div 256 = x * 256 + y" "n mod 256 = z"
  proof -
    have n: "n = (x * 256 + y) * 256 + z" using assms(4) by simp
    show "n mod 256 = z" unfolding n mod_mult_self3 using assms(3) by simp
  qed (use assms in auto)
  have d: "n div 16 ^ 4 = x" "n div 16 ^ 5 = x div 16" "n div 16 ^ 2 = x * 256 + y" "n div 16 ^ 3 = (x * 256 + y) div 16"
    using q div_mult2_eq [of n 65536 16] div_mult2_eq [of n 256 16] by simp_all
  have y: "(x * 256 + y) mod 256 = y" unfolding mod_mult_self3 using assms(2) by simp
  have "n div 16 ^ 5 mod 16 * 16 + n div 16 ^ 4 mod 16 = x" unfolding d nibbles using assms(1) by simp
  moreover have "n div 16 ^ 3 mod 16 * 16 + n div 16 ^ 2 mod 16 = y" unfolding d nibbles by (rule y)
  moreover have "n div 16 ^ 1 mod 16 * 16 + n div 16 ^ 0 mod 16 = z" unfolding power_one_right power_0 div_by_1 nibbles by (rule q(3))
  ultimately have bytes: "n div 16 ^ 5 mod 16 * 16 + n div 16 ^ 4 mod 16 = x" "n div 16 ^ 3 mod 16 * 16 + n div 16 ^ 2 mod 16 = y"
    "n div 16 ^ 1 mod 16 * 16 + n div 16 ^ 0 mod 16 = z" .
  have "read_profile (?r @ ''profile-level-id='' @ ?h @ u) =
      Some [n div 16 ^ 5 mod 16 * 16 + n div 16 ^ 4 mod 16, n div 16 ^ 3 mod 16 * 16 + n div 16 ^ 2 mod 16, n div 16 ^ 1 mod 16 * 16 + n div 16 ^ 0 mod 16]" for u
    unfolding read_profile_def i bind.bind_lunit dr Let_def v by simp
  then show ?thesis unfolding t bytes by simp
qed

section \<open>The parameter sets that the framer has seen\<close>

lemma copy_take: "n \<le> length b \<Longrightarrow> copy_at (replicate n 0) 0 b = take n b"
  by (simp add: copy_at_def)

lemma fmtp_line_text:
  assumes "spsSize s = length (sps s)"
  shows "\<exists>h. fmtp_line pt s = Some (fmtp_text (unat pt) h (sps s) (pps s)) \<and> set h \<subseteq> set ''0123456789ABCDEF'' \<and>
    (4 \<le> length (sps s) \<longrightarrow> read_profile (fmtp_text (unat pt) h (sps s) (pps s)) = Some (map unat (take 3 (drop 1 (sps s)))))"
proof -
  have hex: "set (show_hex_padded 6 n) \<subseteq> set ''0123456789ABCDEF''" if "n < 2 ^ 24" for n
    unfolding show_hex_six [OF that] set_map by (intro image_subsetI hex_digit_char) simp
  show ?thesis
  proof (cases "4 \<le> length (sps s)")
    case True
    then obtain w x y z r where b: "sps s = w # x # y # z # r" by (auto simp: numeral_eq_Suc Suc_le_length_iff)
    define n where "n = unat x * 65536 + unat y * 256 + unat z"
    have small: "unat x < 256" "unat y < 256" "unat z < 256" by (rule byte_less)+
    have dr: "unat (drop_bit k w) = unat w div 2 ^ k" for k and w :: u32 unfolding unat_drop_bit_eq by (rule drop_bit_eq_div)
    have n: "n < 2 ^ 24" using small by (simp add: n_def)
    then have u: "unat (word_of_nat n :: u32) = n" by (simp add: unsigned_of_nat take_bit_eq_mod)
    have q: "n div 65536 = unat x" "n div 256 = unat x * 256 + unat y" "n = (unat x * 256 + unat y) * 256 + unat z" using small by (auto simp: n_def)
    have "n div 256 mod 256 = unat y" unfolding q(2) mod_mult_self3 using small(2) by simp
    moreover have "n mod 256 = unat z" unfolding q(3) mod_mult_self3 using small(3) by simp
    ultimately have "be32_enc (word_of_nat n) = [0, x, y, z]" using n q(1) small(1)
      by (simp add: be32_enc_def word_unat_eq_iff unsigned_ucast_eq take_bit_eq_mod dr u)
    then have "Uint32 [0, x, y, z] = Some (word_of_nat n)" using Uint32_enc [of "word_of_nat n"] by simp
    then have "profileLevelID s = Some (word_of_nat n)" using assms b by (simp add: profileLevelID_def slice_def Uint32_def pad_def)
    moreover note n u
    ultimately have "fmtp_line pt s = Some (fmtp_text (unat pt) (show_hex_padded 6 n) (sps s) (pps s))" by (simp add: fmtp_line_def fmtp_text_def)
    then show ?thesis using hex [OF \<open>n < 2 ^ 24\<close>] read_profile_text [OF small n_def] b by (intro exI [of _ "show_hex_padded 6 n"]) simp
  next
    case False
    then have "fmtp_line pt s = Some (fmtp_text (unat pt) (show_hex_padded 6 0) (sps s) (pps s))"
      using assms by (simp add: fmtp_line_def fmtp_text_def profileLevelID_def)
    then show ?thesis using hex [of 0] False by (intro exI [of _ "show_hex_padded 6 0"]) simp
  qed
qed

lemma fmtp_text_shape:
  assumes "set h \<subseteq> set ''0123456789ABCDEF''"
  shows "\<exists>fmtp. fmtp_text pt h b c = ''a=fmtp:'' @ fmtp @ crlf \<and> plain fmtp"
proof (intro exI conjI)
  let ?f = "show_nat pt @ '' packetization-mode=1;profile-level-id='' @ h @ '';sprop-parameter-sets='' @ EncodeToString b @ '','' @ EncodeToString c"
  show "fmtp_text pt h b c = ''a=fmtp:'' @ ?f @ crlf" by (simp add: fmtp_text_def)
  have "plain (EncodeToString bs)" for bs using base64_text by (auto simp: plain_def)
  moreover have "\<forall>ch \<in> set ''0123456789ABCDEF''. \<not> eol ch" by (simp add: eol_def cr_def lf_def)
  then have "plain h" using assms by (auto simp: plain_def simp del: set_simps)
  ultimately show "plain ?f" by (simp add: eol_def cr_def lf_def)
qed

text \<open>C26. Round trip of parameter sets: when the framer has saved a sequence and a picture parameter set, the line that the sink gives to the
  description is one attribute without line ends, from which a receiver reads the same two sets, and the profile, constraints and level of the
  sequence parameter set when it has four bytes. The sink keeps the sets, so that it gives the same line afterwards, without the framer.
\<close>

theorem parameter_sets_are_read_back:
  assumes "0 < n" and "n \<le> length b" and "0 < k" and "k \<le> length c" and "sps s = [] \<or> pps s = []"
  shows "\<exists>line s' fmtp. AuxSDPLine pt (Some (Framer (saveCopyOfPPS c k (saveCopyOfSPS b n f)))) s = Some (line, s') \<and>
    line = ''a=fmtp:'' @ fmtp @ crlf \<and> plain fmtp \<and> read_parameter_sets line = Some (take n b, take k c) \<and>
    (4 \<le> n \<longrightarrow> read_profile line = Some (map unat (take 3 (drop 1 b)))) \<and> AuxSDPLine pt source s' = Some (line, s')"
proof -
  define s' where "s' = s\<lparr>sps := take n b, pps := take k c, spsSize := n, ppsSize := k\<rparr>"
  have s': "sps s' = take n b" "pps s' = take k c" "spsSize s' = length (sps s')" "sps s' \<noteq> []" "pps s' \<noteq> []"
    using assms(1-4) by (auto simp: s'_def)
  obtain h where h: "fmtp_line pt s' = Some (fmtp_text (unat pt) h (sps s') (pps s'))" "set h \<subseteq> set ''0123456789ABCDEF''"
      "4 \<le> length (sps s') \<longrightarrow> read_profile (fmtp_text (unat pt) h (sps s') (pps s')) = Some (map unat (take 3 (drop 1 (sps s'))))"
    using fmtp_line_text [OF s'(3), of pt] by blast
  define line where "line = fmtp_text (unat pt) h (sps s') (pps s')"
  obtain fmtp where fmtp: "line = ''a=fmtp:'' @ fmtp @ crlf" "plain fmtp" using fmtp_text_shape [OF h(2)] unfolding line_def by blast
  have "AuxSDPLine pt (Some (Framer (saveCopyOfPPS c k (saveCopyOfSPS b n f)))) s = Some (line, s')"
    using assms h(1) s'(1,2,4,5) by (simp add: AuxSDPLine_def getSPSandPPS_def saveCopyOfPPS_def saveCopyOfSPS_def copy_take s'_def [symmetric] line_def)
  moreover have "AuxSDPLine pt source s' = Some (line, s')" using h(1) s'(4,5) by (simp add: AuxSDPLine_def line_def)
  moreover have "read_parameter_sets line = Some (take n b, take k c)" unfolding line_def read_parameter_sets_text [OF h(2)] s'(1,2) ..
  moreover have "4 \<le> n \<longrightarrow> read_profile line = Some (map unat (take 3 (drop 1 b)))"
  proof
    assume "4 \<le> n"
    then have "take 3 (drop 1 (take n b)) = take 3 (drop 1 b)" by (simp add: drop_take min_def)
    then show "read_profile line = Some (map unat (take 3 (drop 1 b)))" using h(3) \<open>4 \<le> n\<close> assms(2) s'(1) by (simp add: line_def)
  qed
  ultimately show ?thesis using fmtp by blast
qed

lemma parameter_sets_are_read_back_witness:
  "\<exists>line s'. AuxSDPLine 96 (Some (Framer (saveCopyOfPPS [0x68, 0xCE, 0x38, 0x80] 4
       (saveCopyOfSPS [0x67, 0x42, 0x00, 0x1E, 0x95] 5 (newH264VideoStreamFramer tv_zero))))) \<lparr>sps = [], pps = [], spsSize = 0, ppsSize = 0\<rparr> = Some (line, s') \<and>
     read_parameter_sets line = Some ([0x67, 0x42, 0x00, 0x1E, 0x95], [0x68, 0xCE, 0x38, 0x80]) \<and> read_profile line = Some [0x42, 0, 0x1E]"
  using parameter_sets_are_read_back [of 5 "[0x67, 0x42, 0x00, 0x1E, 0x95]" 4 "[0x68, 0xCE, 0x38, 0x80]"
      "\<lparr>sps = [], pps = [], spsSize = 0, ppsSize = 0\<rparr>" 96 "newH264VideoStreamFramer tv_zero" None] by auto

section \<open>The description with the line\<close>

text \<open>What \<open>describes_file\<close> asks of the sink holds once the framer has saved both sets: the description that waits for this line is read by the client.
\<close>

lemma description_with_parameter_sets:
  assumes "w_openable w name" and "kind_of name = H264FileMediaSubsession" and "plain name" and "plain (w_ip w)" and "createNewSMS w name = Some (Some y)"
    and "sps s \<noteq> []" and "pps s \<noteq> []" and "spsSize s = length (sps s)" and "AuxSDPLine pt source s = Some (w_auxSDPLine w i, s)"
    and "\<forall>j < i. w_auxSDPLine w j = []"
  shows "\<exists>sdp calls y'. GenerateSDPDescription w y = Some (sdp, calls, y') \<and> describes_file w name sdp"
proof -
  obtain h where h: "fmtp_line pt s = Some (fmtp_text (unat pt) h (sps s) (pps s))" "set h \<subseteq> set ''0123456789ABCDEF''"
    using fmtp_line_text [OF assms(8), of pt] by blast
  then have "w_auxSDPLine w i = fmtp_text (unat pt) h (sps s) (pps s)" using assms(6,7,9) by (simp add: AuxSDPLine_def)
  then obtain fmtp where fmtp: "plain fmtp" "w_auxSDPLine w i = ''a=fmtp:'' @ fmtp @ crlf" using fmtp_text_shape [OF h(2)] by metis
  obtain sdp calls y' where g: "GenerateSDPDescription w y = Some (sdp, calls, y')"
    using description_is_read [OF assms(5,1,4,3) fmtp assms(10), of "[]"] by (elim exE conjE) (rule that; assumption)
  moreover have "describes_file w name sdp" unfolding describes_file_def using assms(1-5,10) fmtp g
    by (intro conjI exI [of _ i] exI [of _ fmtp] exI [of _ y] exI [of _ calls] exI [of _ y']) assumption+
  ultimately show ?thesis by blast
qed

end
