(* ===== verification/TransportStream.thy ===== *)
theory TransportStream
  imports MultiFramedSink MediaSession GoFloat GoScanf
begin

text \<open>
  The parts of the server and the client that are only sketched in the code: the framer of transport streams, \<^verbatim>\<open>livemedia/m2ts_video_stream_framer.go\<close>, with
  the sink of \<^verbatim>\<open>livemedia/simple_rtp_sink.go\<close>; the source of \<^verbatim>\<open>livemedia/basic_udp_source.go\<close>; the base of the sinks in
  \<^verbatim>\<open>livemedia/media_sink.go\<close> with the sink of \<^verbatim>\<open>rtspclient/dummy_sink.go\<close>; and the rest of \<^verbatim>\<open>groupsock/groupsock.go\<close>. The framer looks at the clock references of packets; the lemmas say what becomes of them.
\<close>

section \<open>The framer of transport streams\<close>

definition transportSyncByte :: byte where "transportSyncByte = 0x47"

definition TRANSPORT_PACKET_SIZE :: nat where "TRANSPORT_PACKET_SIZE = 188"

record PIDStatus =
  firstClock :: float
  lastClock :: float
  firstRealTime :: float
  lastRealTime :: float
  lastPacketNum :: nat

definition NewPIDStatus :: PIDStatus where
  "NewPIDStatus = \<lparr>firstClock = Fin 0, lastClock = Fin 0, firstRealTime = Fin 0, lastRealTime = Fin 0, lastPacketNum = 0\<rparr>"

record M2TSVideoStreamFramer = FramedSource +
  pcrLimit :: float
  tsPCRCount :: nat
  tsPacketCount :: nat
  numTSPacketsToStream :: nat
  limitNumTSPacketsToStream :: bool
  limitTSPacketsToStreamByPCR :: bool
  pidStatusDict :: "byte \<rightharpoonup> PIDStatus"

definition NewM2TSVideoStreamFramer :: M2TSVideoStreamFramer where
  "NewM2TSVideoStreamFramer =
     \<lparr>buffTo = [], maxSize = 0, frameSize = 0, numTruncatedBytes = 0, durationInMicroseconds = 0, isCurrentlyAwaitingData = False,
      presentationTime = tv_zero, pcrLimit = Fin 0, tsPCRCount = 0, tsPacketCount = 0, numTSPacketsToStream = 0,
      limitNumTSPacketsToStream = False, limitTSPacketsToStreamByPCR = False, pidStatusDict = Map.empty\<rparr>"

text \<open>The product is a 64-bit number.\<close>

definition m2ts_doGetNextFrame :: "M2TSVideoStreamFramer \<Rightarrow> M2TSVideoStreamFramer" where
  "m2ts_doGetNextFrame f =
     (if limitNumTSPacketsToStream f then
        (if numTSPacketsToStream f = 0 then f
         else let n = numTSPacketsToStream f * TRANSPORT_PACKET_SIZE mod 2 ^ 64 in if n < maxSize f then f\<lparr>maxSize := n\<rparr> else f)
      else f)"

definition clearPIDStatusTable :: "M2TSVideoStreamFramer \<Rightarrow> M2TSVideoStreamFramer" where
  "clearPIDStatusTable f = f"

definition m2ts_doStopGettingFrames :: "M2TSVideoStreamFramer \<Rightarrow> M2TSVideoStreamFramer" where
  "m2ts_doStopGettingFrames f = clearPIDStatusTable (f\<lparr>tsPacketCount := 0, tsPCRCount := 0\<rparr>)"

definition setNumTSPacketsToStream :: "nat \<Rightarrow> M2TSVideoStreamFramer \<Rightarrow> M2TSVideoStreamFramer" where
  "setNumTSPacketsToStream numTSRecordsToStream f =
     (let f1 = f\<lparr>numTSPacketsToStream := numTSRecordsToStream\<rparr>
      in if 0 < numTSRecordsToStream then f1\<lparr>limitNumTSPacketsToStream := True\<rparr> else f1\<lparr>limitNumTSPacketsToStream := False\<rparr>)"

text \<open>The clock reference of a packet, in single precision: 33 bits in units of 1/90000 s, 9 bits in units of 1/27000000 s.\<close>

definition pcr_clock :: "bytes \<Rightarrow> float option" where
  "pcr_clock pkt = do {
     b6 \<leftarrow> idx pkt 6;
     b7 \<leftarrow> idx pkt 7;
     b8 \<leftarrow> idx pkt 8;
     b9 \<leftarrow> idx pkt 9;
     let pcrBaseHigh = fl_of_int F32 (uint (push_bit 24 (ucast b6) OR push_bit 16 (ucast b7) OR push_bit 8 (ucast b8) OR ucast b9 :: u64));
     let clock = fl_div F32 pcrBaseHigh (Fin 45000);
     b10 \<leftarrow> idx pkt 10;
     let clock1 = (if b10 AND 0x80 \<noteq> 0 then fl_add F32 clock (rnd F32 (1 / 90000)) else clock);
     b11 \<leftarrow> idx pkt 11;
     let pcrExt = fl_of_int F32 (uint (push_bit 8 (ucast b10 AND 0x01) OR ucast b11 :: u64));
     Some (fl_add F32 clock1 (fl_div F32 pcrExt (Fin 27000000)))
   }"

text \<open>A status that is in the table is changed in place; a new one is not put there.\<close>

definition noteClock :: "bytes \<Rightarrow> float \<Rightarrow> float \<Rightarrow> M2TSVideoStreamFramer \<Rightarrow> M2TSVideoStreamFramer option" where
  "noteClock pkt clock timeNow f = do {
     b1 \<leftarrow> idx pkt 1;
     b2 \<leftarrow> idx pkt 2;
     let pid = (push_bit 8 (ucast b1 AND 0x1F) OR ucast b2 :: u64);
     (case pidStatusDict f (ucast pid) of
        None \<Rightarrow> Some f
      | Some st \<Rightarrow> Some (f\<lparr>pidStatusDict := (pidStatusDict f)(ucast pid \<mapsto>
          st\<lparr>lastClock := clock, lastRealTime := timeNow, lastPacketNum := tsPacketCount f\<rparr>)\<rparr>))
   }"

definition updateTSPacketDurationEstimate :: "bytes \<Rightarrow> float \<Rightarrow> M2TSVideoStreamFramer \<Rightarrow> (bool \<times> M2TSVideoStreamFramer) option" where
  "updateTSPacketDurationEstimate pkt timeNow f = do {
     b0 \<leftarrow> idx pkt 0;
     if b0 = transportSyncByte then Some (False, f)
     else do {
       let f1 = f\<lparr>tsPacketCount := tsPacketCount f + 1\<rparr>;
       b3 \<leftarrow> idx pkt 3;
       let adaptation_field_control = drop_bit 4 (b3 AND 0x30);
       if adaptation_field_control \<noteq> 2 \<and> adaptation_field_control \<noteq> 3 then Some (False, f1)
       else do {
         adaptation_field_length \<leftarrow> idx pkt 4;
         if adaptation_field_length = 0 then Some (False, f1)
         else do {
           b5 \<leftarrow> idx pkt 5;
           if b5 AND 0x10 = 0 then Some (False, f1)
           else do {
             let f2 = f1\<lparr>tsPCRCount := tsPCRCount f1 + 1\<rparr>;
             clock \<leftarrow> pcr_clock pkt;
             if limitTSPacketsToStreamByPCR f2 \<and> fl_lt (pcrLimit f2) clock then Some (False, f2)
             else do { f3 \<leftarrow> noteClock pkt clock timeNow f2; Some (True, f3) }
           }
         }
       }
     }
   }"

section \<open>What the framer makes of packets\<close>

fun updates :: "(bytes \<times> float) list \<Rightarrow> M2TSVideoStreamFramer \<Rightarrow> (bool list \<times> M2TSVideoStreamFramer) option" where
  "updates [] f = Some ([], f)"
| "updates ((pkt, now) # ps) f = do {
     (ok, f1) \<leftarrow> updateTSPacketDurationEstimate pkt now f;
     (oks, f2) \<leftarrow> updates ps f1;
     Some (ok # oks, f2)
   }"

text \<open>A packet that the framer takes for one with a clock reference: it must not begin with the sync byte.\<close>

definition has_pcr :: "bytes \<Rightarrow> bool" where
  "has_pcr pkt \<longleftrightarrow> pkt ! 0 \<noteq> transportSyncByte \<and> pkt ! 3 AND 0x20 \<noteq> 0 \<and> pkt ! 4 \<noteq> 0 \<and> pkt ! 5 AND 0x10 \<noteq> 0"

lemma small_byte: "unat (w :: byte) < 4 \<Longrightarrow> w \<in> {0, 1, 2, 3}"
  by (auto simp: word_unat_eq_iff)

lemma adaptation: "(drop_bit 4 (b AND 0x30) \<noteq> 2 \<and> drop_bit 4 (b AND 0x30) \<noteq> 3) \<longleftrightarrow> (b :: byte) AND 0x20 = 0"
proof -
  let ?w = "drop_bit 4 (b AND 0x30)"
  have m: "(0x30 :: byte) = push_bit 4 (mask 2)" "(0x20 :: byte) = 2 ^ 5" by (simp_all add: push_bit_eq_mult mask_eq_exp_minus_1)
  have w: "?w = take_bit 2 (drop_bit 4 b)" unfolding m by (rule bit_word_eqI) (auto simp: bit_simps)
  have "unat ?w < 4" unfolding w unsigned_take_bit_eq by (simp add: take_bit_eq_mod)
  then have c: "?w \<in> {0, 1, 2, 3}" by (rule small_byte)
  have b: "bit ?w 1 \<longleftrightarrow> bit b 5" unfolding w by (simp add: bit_simps)
  have "b AND 0x20 = 0 \<longleftrightarrow> \<not> bit b 5" unfolding m(2) by (rule and_exp_eq_0_iff_not_bit)
  moreover have "(?w \<noteq> 2 \<and> ?w \<noteq> 3) \<longleftrightarrow> \<not> bit ?w 1" using c by (elim insertE emptyE) simp_all
  ultimately show ?thesis using b by blast
qed

lemma update_packet:
  assumes "12 \<le> length pkt" and "pidStatusDict f = Map.empty" and "\<not> limitTSPacketsToStreamByPCR f"
  shows "updateTSPacketDurationEstimate pkt now f = Some (has_pcr pkt,
    f\<lparr>tsPacketCount := tsPacketCount f + (if pkt ! 0 = transportSyncByte then 0 else 1), tsPCRCount := tsPCRCount f + (if has_pcr pkt then 1 else 0)\<rparr>)"
proof -
  obtain clock where clock: "pcr_clock pkt = Some clock" using assms(1) by (simp add: pcr_clock_def Let_def)
  have table: "noteClock pkt c now f' = Some f'" if "pidStatusDict f' = Map.empty" for c f'
    using assms(1) that by (simp add: noteClock_def Let_def)
  have i: "idx pkt 0 = Some (pkt ! 0)" "idx pkt 3 = Some (pkt ! 3)" "idx pkt 4 = Some (pkt ! 4)" "idx pkt 5 = Some (pkt ! 5)"
    using assms(1) by (auto intro: idx_Some)
  note a = adaptation [of "pkt ! 3"]
  show ?thesis
    unfolding updateTSPacketDurationEstimate_def i bind.bind_lunit Let_def has_pcr_def a using assms(2,3) clock by (simp add: table)
qed

lemma updates_packets:
  assumes "\<forall>(pkt, now) \<in> set ps. 12 \<le> length pkt" and "pidStatusDict f = Map.empty" and "\<not> limitTSPacketsToStreamByPCR f"
  shows "updates ps f = Some (map (has_pcr \<circ> fst) ps,
    f\<lparr>tsPacketCount := tsPacketCount f + length (filter (\<lambda>(pkt, now). pkt ! 0 \<noteq> transportSyncByte) ps),
      tsPCRCount := tsPCRCount f + length (filter (has_pcr \<circ> fst) ps)\<rparr>)"
  using assms
proof (induction ps arbitrary: f)
  case (Cons p ps)
  obtain pkt now where p: "p = (pkt, now)" by fastforce
  have l: "12 \<le> length pkt" using Cons.prems(1) p by simp
  have r: "\<forall>(pkt, now) \<in> set ps. 12 \<le> length pkt" using Cons.prems(1) by simp
  let ?f = "f\<lparr>tsPacketCount := tsPacketCount f + (if pkt ! 0 = transportSyncByte then 0 else 1), tsPCRCount := tsPCRCount f + (if has_pcr pkt then 1 else 0)\<rparr>"
  have "pidStatusDict ?f = Map.empty" "\<not> limitTSPacketsToStreamByPCR ?f" using Cons.prems(2,3) by simp_all
  from Cons.IH [OF r this] show ?case using update_packet [OF l Cons.prems(2,3), of now] by (simp add: p)
qed simp


text \<open>Two packets, a proper one with a clock reference and the same without its sync byte.\<close>

definition ex_ts_packet :: "byte \<Rightarrow> bytes" where
  "ex_ts_packet sync = [sync, 0x41, 0x00, 0x30, 0x07, 0x10, 0x00, 0x00, 0x1F, 0x40, 0x7E, 0x00] @ replicate 176 0xFF"


section \<open>The sink of transport streams\<close>

record SimpleRTPSink = MultiFramedRTPSink +
  allowMultipleFramesPerPacket :: bool

text \<open>The channels, the media type and the rule for the marker bit are arguments that are not used.\<close>

definition newSimpleRTPSink ::
  "u32 \<Rightarrow> u32 \<Rightarrow> u32 \<Rightarrow> u32 \<Rightarrow> u32 \<Rightarrow> u32 \<Rightarrow> string \<Rightarrow> string \<Rightarrow> bool \<Rightarrow> bool \<Rightarrow> SimpleRTPSink option" where
  "newSimpleRTPSink random16 random32 random32' payloadType frequency channels mediaType formatName allowMultiple doNormalMBitRule = do {
     s \<leftarrow> newMultiFramedRTPSink random16 random32 random32' payloadType frequency formatName;
     Some (MultiFramedRTPSink.extend s (SimpleRTPSink.fields allowMultiple))
   }"

definition simple_AuxSDPLine :: "SimpleRTPSink \<Rightarrow> string" where
  "simple_AuxSDPLine s = []"

definition simple_ContinuePlaying :: "SimpleRTPSink \<Rightarrow> SimpleRTPSink" where
  "simple_ContinuePlaying s = s"

definition m2ts_createNewRTPSink :: "u32 \<Rightarrow> u32 \<Rightarrow> u32 \<Rightarrow> SimpleRTPSink option" where
  "m2ts_createNewRTPSink random16 random32 random32' =
     newSimpleRTPSink random16 random32 random32' 33 90000 1 ''video'' ''MP2T'' True False"

text \<open>The sink is made, whatever the random numbers; playing leaves it as it is, without a source that is asked for a frame.\<close>

lemma m2ts_sink: "\<exists>s. m2ts_createNewRTPSink random16 random32 random32' = Some s \<and> allowMultipleFramesPerPacket s \<and> \<not> haveSource (simple_ContinuePlaying s)"
proof -
  obtain b where "newOutPacketBuffer OutPacketBufferMaxSize 1000 1448 = Some b" by (simp add: newOutPacketBuffer_def Let_def)
  then show ?thesis
    by (simp add: m2ts_createNewRTPSink_def newSimpleRTPSink_def newMultiFramedRTPSink_def simple_ContinuePlaying_def RTPSink.defs MultiFramedRTPSink.defs
        SimpleRTPSink.defs)
qed

section \<open>A source on a UDP socket\<close>

record BasicUDPSource = FramedSource +
  haveStartedReading :: bool

definition newBasicUDPSource :: BasicUDPSource where
  "newBasicUDPSource =
     \<lparr>buffTo = [], maxSize = 0, frameSize = 0, numTruncatedBytes = 0, durationInMicroseconds = 0, isCurrentlyAwaitingData = False,
      presentationTime = tv_zero, haveStartedReading = False\<rparr>"

definition udp_doStopGettingFrames :: "BasicUDPSource \<Rightarrow> BasicUDPSource" where
  "udp_doStopGettingFrames s = s\<lparr>haveStartedReading := False\<rparr>"

text \<open>The goroutine that a call of \<open>GetNextFrame\<close> starts: it takes the datagrams that arrive until a read fails, and calls the reader for each. What
  the reader does to the source is an argument. A datagram that is longer than the buffer is cut off.\<close>

fun incomingPacketHandler ::
  "(nat \<times> nat \<times> timeval \<Rightarrow> BasicUDPSource \<Rightarrow> BasicUDPSource) \<Rightarrow> bytes list \<Rightarrow> BasicUDPSource \<Rightarrow> BasicUDPSource \<times> (nat \<times> nat \<times> timeval) list" where
  "incomingPacketHandler reader [] s = (s, [])"
| "incomingPacketHandler reader (d # ds) s =
     (let n = min (length d) (length (buffTo s));
          (s1, args) = afterGetting (s\<lparr>buffTo := copy_at (buffTo s) 0 d, frameSize := n\<rparr>);
          (s2, calls) = incomingPacketHandler reader ds (reader args s1)
      in (s2, args # calls))"

text \<open>One request for a frame delivers every datagram: the reader is called again and again, although it has asked once.\<close>

lemma udp_source_keeps_delivering:
  assumes "\<And>args s. buffTo (reader args s) = buffTo s" and "length (buffTo s) = n"
  shows "map fst (snd (incomingPacketHandler reader ds s)) = map (\<lambda>d. min (length d) n) ds"
  using assms(2)
proof (induction ds arbitrary: s)
  case (Cons d ds)
  define s1 where "s1 = fst (afterGetting (s\<lparr>buffTo := copy_at (buffTo s) 0 d, frameSize := min (length d) (length (buffTo s))\<rparr>))"
  have "length (buffTo (reader args s1)) = n" for args using Cons.prems by (simp add: assms(1) s1_def afterGetting_def copy_at_def)
  from Cons.IH [OF this] show ?case using Cons.prems by (simp add: afterGetting_def Let_def s1_def case_prod_beta)
qed simp

definition maxPayloadSize :: nat where "maxPayloadSize = 1450"

record BasicUDPSink =
  udp_maxPayloadSize :: nat
  outputBuffer :: bytes
  udp_nextSendTime :: timeval

definition NewBasicUDPSink :: BasicUDPSink where
  "NewBasicUDPSink = \<lparr>udp_maxPayloadSize = maxPayloadSize, outputBuffer = replicate maxPayloadSize 0, udp_nextSendTime = tv_zero\<rparr>"

definition udp_ContinuePlaying :: "BasicUDPSink \<Rightarrow> BasicUDPSink" where
  "udp_ContinuePlaying s = s"

section \<open>The base of the sinks, and the sink of the client\<close>

text \<open>\<open>MediaSink\<close> over any kind of source: the source that is played, whether the sink knows its own methods, and what to do when the source ends.\<close>

record 'src MediaSink =
  sinkSource :: "'src option"
  hasRtpSink :: bool
  afterFunc :: "string option"

definition InitMediaSink :: "('src, 'a) MediaSink_scheme \<Rightarrow> ('src, 'a) MediaSink_scheme" where
  "InitMediaSink s = s\<lparr>hasRtpSink := True\<rparr>"

definition media_StartPlaying ::
  "(('src, 'a) MediaSink_scheme \<Rightarrow> ('src, 'a) MediaSink_scheme option) \<Rightarrow> 'src \<Rightarrow> string option \<Rightarrow> ('src, 'a) MediaSink_scheme \<Rightarrow>
     (bool \<times> ('src, 'a) MediaSink_scheme) option" where
  "media_StartPlaying continue_playing source after s =
     (if sinkSource s \<noteq> None then Some (False, s)
      else if \<not> hasRtpSink s then Some (False, s)
      else do { s1 \<leftarrow> continue_playing (s\<lparr>sinkSource := Some source, afterFunc := after\<rparr>); Some (True, s1) })"

text \<open>The source that is told to stop, and the sink after it.\<close>

definition media_StopPlaying :: "('src \<Rightarrow> 'src) \<Rightarrow> ('src, 'a) MediaSink_scheme \<Rightarrow> 'src option \<times> ('src, 'a) MediaSink_scheme" where
  "media_StopPlaying stop s = (map_option stop (sinkSource s), s\<lparr>sinkSource := None, afterFunc := None\<rparr>)"

text \<open>The function that is called when the source ends.\<close>

definition OnSourceClosure :: "('src, 'a) MediaSink_scheme \<Rightarrow> string option" where
  "OnSourceClosure s = afterFunc s"

definition dummySinkReceiveBufferSize :: nat where "dummySinkReceiveBufferSize = 100000"

record 'src DummySink = "'src MediaSink" +
  streamID :: string
  receiveBuffer :: bytes

definition NewDummySink :: "string \<Rightarrow> 'src DummySink" where
  "NewDummySink ident = InitMediaSink
     \<lparr>sinkSource = None, hasRtpSink = False, afterFunc = None, streamID = ident, receiveBuffer = replicate dummySinkReceiveBufferSize 0\<rparr>"

text \<open>A sink without a source panics. The frame goes into the buffer of the sink.\<close>

definition dummy_ContinuePlaying ::
  "('f FramedSource_scheme \<Rightarrow> 'f FramedSource_scheme option) \<Rightarrow> 'f FramedSource_scheme DummySink \<Rightarrow> 'f FramedSource_scheme DummySink option" where
  "dummy_ContinuePlaying doGetNextFrame s = do {
     f \<leftarrow> sinkSource s;
     f1 \<leftarrow> GetNextFrame doGetNextFrame (receiveBuffer s) dummySinkReceiveBufferSize f;
     Some (s\<lparr>sinkSource := Some f1\<rparr>)
   }"

text \<open>A new dummy sink takes one source and asks it for one frame of at most 100000 bytes; while it has this source, it takes no other and is not
  changed by the attempt; when it is stopped, the source is told, and the sink can be used again.
\<close>

lemma dummy_sink_plays:
  assumes "\<And>f. \<exists>f'. doGetNextFrame f = Some f'" and "\<not> isAwaitingData f"
  shows "\<exists>s f1. media_StartPlaying (dummy_ContinuePlaying doGetNextFrame) f after (NewDummySink ident) = Some (True, s) \<and>
    doGetNextFrame (f\<lparr>buffTo := replicate 100000 0, maxSize := 100000, isCurrentlyAwaitingData := True\<rparr>) = Some f1 \<and>
    sinkSource s = Some f1 \<and> OnSourceClosure s = after \<and>
    media_StartPlaying (dummy_ContinuePlaying doGetNextFrame) f' after' s = Some (False, s) \<and>
    media_StopPlaying stop s = (Some (stop f1), NewDummySink ident)"
proof -
  obtain f1 where f1: "doGetNextFrame (f\<lparr>buffTo := replicate 100000 0, maxSize := 100000, isCurrentlyAwaitingData := True\<rparr>) = Some f1"
    using assms(1) by blast
  show ?thesis using assms(2) f1
    by (simp add: media_StartPlaying_def media_StopPlaying_def dummy_ContinuePlaying_def NewDummySink_def InitMediaSink_def GetNextFrame_def isAwaitingData_def
        OnSourceClosure_def dummySinkReceiveBufferSize_def)
qed

section \<open>The sockets of a group\<close>

text \<open>The interface of RTP and RTCP stops reading by closing its group socket.\<close>

definition stopNetworkReading :: "GroupSock \<Rightarrow> GroupSock" where
  "stopNetworkReading g = Close g"

definition DelDestination :: "GroupSock \<Rightarrow> GroupSock" where
  "DelDestination g = g"

text \<open>The local address of the socket, if there is a socket. The number is converted to an unsigned one.\<close>

definition GetSourcePort :: "string option \<Rightarrow> nat" where
  "GetSourcePort localAddress =
     (case localAddress of
        None \<Rightarrow> 0
      | Some a \<Rightarrow> (case Atoi (last (Split a CHR '':'')) of Some n \<Rightarrow> nat (n mod 2 ^ 64) | None \<Rightarrow> 0))"

lemma last_Split: "d \<notin> set t \<Longrightarrow> last (Split (s @ d # t) d) = t \<and> tl (Split (s @ d # t) d) \<noteq> []"
proof (induction s)
  case Nil
  then show ?case using Split_append [of d "[]" t] Split_plain [of d t] by simp
next
  case (Cons c s)
  then show ?case using Split_nonempty [of "s @ d # t" d] by (auto split: list.splits)
qed

text \<open>The port is read back from the address that Go prints, of either family.\<close>

lemma source_port_is_read_back:
  assumes "p < 2 ^ 16"
  shows "GetSourcePort (Some (host @ '':'' @ show_nat p)) = p"
proof -
  have "CHR '':'' \<notin> set (show_nat p)" using show_nat_digits [of p] by (auto simp: is_digit_def)
  then have "last (Split (host @ '':'' @ show_nat p) CHR '':'') = show_nat p" using last_Split by simp
  then show ?thesis using assms by (simp add: GetSourcePort_def Atoi_def read_int_show)
qed

end
