(* ===== verification/ConnectionLoop.thy ===== *)
theory ConnectionLoop
  imports ServerClaims
begin

text \<open>
  \<open>incomingRequestHandler\<close> of \<^verbatim>\<open>rtspserver/connection.go\<close>: the goroutine of a connection, which reads requests from the socket until the
  connection is closed, and then destroys the session. What the socket gives to the reads is an argument, and so is whether each answer can be
  written; each round has a world of its own, for the clock and the random numbers. The requests of other connections and the tasks come between the rounds
  in \<open>server_step\<close>; here the connection is alone.
\<close>

section \<open>The loop\<close>

datatype read_result = Received string | ReadFailed string

partial_function (option) incomingRequestHandler ::
  "(string \<Rightarrow> string) \<Rightarrow> (nat \<Rightarrow> world) \<Rightarrow> nat \<Rightarrow> (nat \<Rightarrow> read_result) \<Rightarrow> (nat \<Rightarrow> bool) \<Rightarrow> nat \<Rightarrow> string list \<Rightarrow> RTSPServer \<Rightarrow>
     (string list \<times> RTSPServer) option" where
  "incomingRequestHandler md5 w c read writable i answers sv =
     (case read i of
        Received reqStr \<Rightarrow> do {
          (out, sv1) \<leftarrow> handleRequestBytes md5 (w i) c reqStr sv;
          if writable i then incomingRequestHandler md5 w c read writable (i + 1) (answers @ [out]) sv1
          else do { sv2 \<leftarrow> disconnect c sv1; Some (answers, sv2) }
        }
      | ReadFailed e \<Rightarrow>
          if e = ''EOF'' then do { sv1 \<leftarrow> disconnect c sv; Some (answers, sv1) }
          else incomingRequestHandler md5 w c read writable (i + 1) answers sv)"

text \<open>
  The rounds of the loop that do not end it, from round \<open>i\<close> on: a request is answered, and a read that fails is passed over. \<open>None\<close> is
  a panic of the handler of a request. \<open>passes\<close>: round \<open>j\<close> is such a round; \<open>goes_on\<close>: the first \<open>n\<close> rounds are.
\<close>

fun answer_reads :: "(string \<Rightarrow> string) \<Rightarrow> (nat \<Rightarrow> world) \<Rightarrow> nat \<Rightarrow> nat \<Rightarrow> read_result list \<Rightarrow> RTSPServer \<Rightarrow> (string list \<times> RTSPServer) option" where
  "answer_reads md5 w c i [] sv = Some ([], sv)"
| "answer_reads md5 w c i (Received r # rs) sv = do {
     (out, sv1) \<leftarrow> handleRequestBytes md5 (w i) c r sv;
     (outs, sv2) \<leftarrow> answer_reads md5 w c (i + 1) rs sv1;
     Some (out # outs, sv2)
   }"
| "answer_reads md5 w c i (ReadFailed e # rs) sv = answer_reads md5 w c (i + 1) rs sv"

definition passes :: "(nat \<Rightarrow> read_result) \<Rightarrow> (nat \<Rightarrow> bool) \<Rightarrow> nat \<Rightarrow> bool" where
  "passes read writable j = (case read j of Received r \<Rightarrow> writable j | ReadFailed e \<Rightarrow> e \<noteq> ''EOF'')"

definition goes_on :: "(nat \<Rightarrow> read_result) \<Rightarrow> (nat \<Rightarrow> bool) \<Rightarrow> nat \<Rightarrow> bool" where
  "goes_on read writable n = list_all (passes read writable) [0..<n]"

lemma handler_answers:
  assumes "list_all (passes read writable) [i..<i + n]"
  shows "incomingRequestHandler md5 w c read writable i answers sv = do {
    (outs, sv1) \<leftarrow> answer_reads md5 w c i (map read [i..<i + n]) sv;
    incomingRequestHandler md5 w c read writable (i + n) (answers @ outs) sv1
  }"
  using assms
proof (induction n arbitrary: i answers sv)
  case (Suc n)
  have upt: "[i..<i + Suc n] = i # [i + 1..<i + 1 + n]" by (simp add: upt_conv_Cons del: upt_Suc)
  have rest: "list_all (passes read writable) [i + 1..<i + 1 + n]" and "passes read writable i" using Suc.prems unfolding upt by simp_all
  then have r: "case read i of Received r \<Rightarrow> writable i | ReadFailed e \<Rightarrow> e \<noteq> ''EOF''" by (simp add: passes_def)
  note ih = Suc.IH [OF rest]
  show ?case
  proof (cases "read i")
    case (Received q)
    then have "incomingRequestHandler md5 w c read writable i answers sv = do {
        (out, sv1) \<leftarrow> handleRequestBytes md5 (w i) c q sv;
        incomingRequestHandler md5 w c read writable (i + 1) (answers @ [out]) sv1 }"
      using r by (subst incomingRequestHandler.simps) simp
    then show ?thesis unfolding ih upt list.map Received by (simp split: Option.bind_splits)
  next
    case (ReadFailed e)
    then have "incomingRequestHandler md5 w c read writable i answers sv = incomingRequestHandler md5 w c read writable (i + 1) answers sv"
      using r by (subst incomingRequestHandler.simps) simp
    then show ?thesis unfolding ih upt list.map ReadFailed by simp
  qed
qed simp

lemma steps_ok: "(server_step md5)\<^sup>*\<^sup>* sv sv' \<Longrightarrow> server_ok {} sv \<Longrightarrow> server_ok {} sv'"
  by (induction rule: rtranclp_induct) (auto intro: step_ok)

lemma handler_steps:
  assumes "incomingRequestHandler md5 w c read writable i answers sv = Some z"
  shows "(server_step md5)\<^sup>*\<^sup>* sv (snd z) \<and> (\<exists>outs. fst z = answers @ outs)"
proof (rule incomingRequestHandler.raw_induct [where P = "\<lambda>md5 w c read writable i answers sv z.
    (server_step md5)\<^sup>*\<^sup>* sv (snd z) \<and> (\<exists>outs. fst z = answers @ outs)", OF _ assms])
  fix f :: "(string \<Rightarrow> string) \<Rightarrow> (nat \<Rightarrow> world) \<Rightarrow> nat \<Rightarrow> (nat \<Rightarrow> read_result) \<Rightarrow> (nat \<Rightarrow> bool) \<Rightarrow> nat \<Rightarrow> string list \<Rightarrow> RTSPServer \<Rightarrow>
     (string list \<times> RTSPServer) option"
    and md5 w c read writable i answers sv z
  assume ih: "\<And>md5 w c read writable i answers sv z. f md5 w c read writable i answers sv = Some z \<Longrightarrow>
      (server_step md5)\<^sup>*\<^sup>* sv (snd z) \<and> (\<exists>outs. fst z = answers @ outs)"
    and run: "(case read i of
        Received reqStr \<Rightarrow> do {
          (out, sv1) \<leftarrow> handleRequestBytes md5 (w i) c reqStr sv;
          if writable i then f md5 w c read writable (i + 1) (answers @ [out]) sv1
          else do { sv2 \<leftarrow> disconnect c sv1; Some (answers, sv2) }
        }
      | ReadFailed e \<Rightarrow>
          if e = ''EOF'' then do { sv1 \<leftarrow> disconnect c sv; Some (answers, sv1) } else f md5 w c read writable (i + 1) answers sv) = Some z"
  have d: "server_step md5 sv sv'" if "disconnect c sv = Some sv'" for sv sv' using that by (rule server_step.disconnect)
  have r: "server_step md5 sv sv'" if "handleRequestBytes md5 (w i) c q sv = Some (out, sv')" for q out sv' using that by (rule server_step.request)
  show "(server_step md5)\<^sup>*\<^sup>* sv (snd z) \<and> (\<exists>outs. fst z = answers @ outs)"
  proof (cases "read i")
    case (ReadFailed e)
    then show ?thesis using run ih d by (auto split: if_splits Option.bind_splits)
  next
    case (Received q)
    then obtain out sv1 where q: "handleRequestBytes md5 (w i) c q sv = Some (out, sv1)"
      and rest: "(if writable i then f md5 w c read writable (i + 1) (answers @ [out]) sv1 else do { sv2 \<leftarrow> disconnect c sv1; Some (answers, sv2) }) = Some z"
      using run by (auto split: Option.bind_splits)
    have "(server_step md5)\<^sup>*\<^sup>* sv1 (snd z) \<and> (\<exists>outs. fst z = answers @ outs)"
      using rest d ih [of md5 w c read writable "i + 1" "answers @ [out]" sv1 z] by (auto split: if_splits Option.bind_splits)
    then show ?thesis using r [OF q] by (meson converse_rtranclp_into_rtranclp)
  qed
qed

text \<open>A connection is a run of the server: whatever the socket gives to the reads, when the goroutine of the connection ends, the server
  has taken steps of its transition system only, and so it keeps its invariant.
\<close>

theorem handler_runs_the_server:
  assumes "incomingRequestHandler md5 w c read writable i answers sv = Some (answers', sv')"
  shows "(server_step md5)\<^sup>*\<^sup>* sv sv' \<and> (server_ok {} sv \<longrightarrow> server_ok {} sv') \<and> (\<exists>outs. answers' = answers @ outs)"
  using handler_steps [OF assms] steps_ok by auto



lemma handler_runs_the_server_witness:
  "\<exists>sv'. incomingRequestHandler id (\<lambda>_. ex_world) 0 (\<lambda>j. ReadFailed ''EOF'') (\<lambda>_. True) 0 [] (ex_connected None) = Some ([], sv') \<and> server_ok {} sv'"
proof -
  obtain x where "connection_at (ex_connected None) 0 = Some x" "clientSession x = None"
    by (simp add: ex_connected_def newRTSPClientConnection_def New_def)
  then have "disconnect 0 (ex_connected None) = Some (ex_connected None)" by (simp add: disconnect_def)
  then have "incomingRequestHandler id (\<lambda>_. ex_world) 0 (\<lambda>j. ReadFailed ''EOF'') (\<lambda>_. True) 0 [] (ex_connected None) = Some ([], ex_connected None)"
    by (subst incomingRequestHandler.simps) simp
  then show ?thesis using handler_runs_the_server ex_connected_ok by blast
qed

end
