(* ===== verification/Spec2Isabelle.thy ===== *)
theory Spec2Isabelle
  imports BitVec OutBuffer Fragmenter RtpSource RtpInterface RtcpReport EndToEnd FramerDefects ParameterSets TransportStream ConnectionLoop
    PlayRun
begin

text \<open>
  The Dor streaming server: an RTSP server and client in Go that stream H.264 files over RTP, with RTCP reports. The server reads a
  file, cuts it into NAL units, fragments them into RTP packets and sends them to every client that has set up and started a
  session; the client describes, sets up and plays a stream, reorders what it receives and reports on it.

  \<^bold>\<open>How the code is modelled.\<close> Structures are records with the names of the fields, enumerations are datatypes, and a method is a function
  from the state to the new state. Machine integers keep their width: \<open>u8\<close>, \<open>u16\<close>, \<open>u32\<close>, \<open>u64\<close> wrap as in Go; a number of the
  code that is a \<open>uint\<close> and only counts is a \<open>nat\<close> where it cannot wrap. A slice is a list, and reading or writing out of range is \<open>None\<close>. In
  general \<open>None\<close> is a call that does not return: a panic, or a loop that never ends; an error that the code returns is a value of its own.
  Loops are structural recursions, functions with a measure, or \<open>partial_function (option)\<close> where the code does not end for every
  input (the search for ports, for a fresh session name, for the place of a packet, the read loop of an interleaved connection).
  The clock, random numbers, files, sockets and MD5 are parameters. What the code sends, or calls on another
  component, is returned as a list in the order of the code.

  \<^bold>\<open>Shared theories.\<close>
  \<^item> \<open>GoPrelude\<close>: words, slices, subtraction that wraps, time values, the collections of rewrite rules.
  \<^item> \<open>GoFloat\<close>: the single precision numbers that the code computes with, as reals with a rounding function.
  \<^item> \<open>GoString\<close>: strings, decimal printing, \<open>strings.EqualFold\<close>, \<open>Index\<close>, \<open>Split\<close> and the scanning of \<open>fmt\<close>.
  \<^item> \<open>KeyedStore\<close>: the contract of a table (locales \<open>keyed_store\<close>, \<open>deletable_store\<close>, \<open>keyed_events\<close>), interpreted for the statistics of
    \<open>RtpStatsDB\<close>, the sockets of \<open>RtpInterface\<close> and the sessions and media sessions of \<open>RtspServer\<close>.
  \<^item> \<open>Binary\<close>: \<^verbatim>\<open>livemedia/binary.go\<close>, the byte orders and the comparison of sequence numbers; locale \<open>byte_codec\<close>.

  \<^bold>\<open>From the file to the network.\<close>
  \<^item> \<open>Framed\<close>: \<^verbatim>\<open>livemedia/framed_source.go\<close>, the contract between a source and its reader.
  \<^item> \<open>StreamParser\<close>: \<^verbatim>\<open>livemedia/stream_parser.go\<close> and the file source: two banks of 150000 bytes (\<open>bankSize\<close>), refilled when empty.
  \<^item> \<open>H264Framer\<close>, \<open>H264Stream\<close>, \<open>NalSplit\<close>: \<^verbatim>\<open>livemedia/h264_video_stream_framer_linux_amd64.go\<close>. The scan for start codes, four
    bytes at a time, is proved equal to a cut at the first start code; emulation prevention is removed as it was added; times come from
    the SEI messages and the sequence parameter sets. \<open>FramerDefects\<close>: inputs on which the framer fails.
  \<^item> \<open>BitVec\<close>: \<^verbatim>\<open>livemedia/bit_vector.go\<close>, bits and Exp-Golomb codes.
  \<^item> \<open>OutBuffer\<close>: \<open>OutPacketBuffer\<close> of \<^verbatim>\<open>livemedia/media_sink.go\<close>; locales \<open>word_writer\<close>, \<open>word_patcher\<close>.
  \<^item> \<open>Fragmenter\<close>: the FU-A fragmenter of \<^verbatim>\<open>livemedia/h264_video_rtp_sink.go\<close>: the packets of RFC 6184 for every NAL unit.
  \<^item> \<open>RtpSink\<close>, \<open>MultiFramedSink\<close>, \<open>H264Sink\<close>: timestamps, and the loop that packs and sends frames; locale \<open>single_frame_format\<close>.
  \<^item> \<open>ParameterSets\<close>: the attribute with the parameter sets that the H.264 sink gives to the description, and what a receiver reads from it.
  \<^item> \<open>TransportStream\<close>: \<^verbatim>\<open>livemedia/m2ts_video_stream_framer.go\<close> and the sketched parts around it: the simple sink, the source and sink on UDP sockets, the
    base of the sinks and the dummy sink of the client, the source port of a socket.

  \<^bold>\<open>From the network to the player.\<close>
  \<^item> \<open>RtpPacket\<close>, \<open>Reorder\<close>, \<open>RtpSource\<close>: \<^verbatim>\<open>livemedia/multi_framed_rtp_source_linux_amd64.go\<close>: the header parser and the
    reordering buffer, which holds what has arrived in the order of the sequence numbers (a refinement of a set of numbers).
  \<^item> \<open>EndToEnd\<close>: what the sink sends is what the header parser of the receiver reads.
  \<^item> \<open>RtpStats\<close>, \<open>RtpStatsDB\<close>: reception and transmission statistics, per source.
  \<^item> \<open>Rtcp\<close>, \<open>RtcpReport\<close>: \<^verbatim>\<open>livemedia/rtcp_linux_amd64.go\<close>: reports that are built, and the parser of reports, with the round trips between them.
  \<^item> \<open>RtcpTimer\<close>: the constructor of an RTCP instance, which sleeps before it returns, and for how long.
  \<^item> \<open>RtpInterface\<close>: \<^verbatim>\<open>livemedia/rtp_interface.go\<close>: UDP, and frames interleaved on an RTSP connection.

  \<^bold>\<open>The server.\<close>
  \<^item> \<open>RtspRequest\<close>, \<open>RtspParse\<close>, \<open>RequestHeaders\<close>: the request parser of \<^verbatim>\<open>livemedia/common.go\<close>, its round trips, for requests with any
    headers in \<open>RequestHeaders\<close>, and the requests on which it panics.
  \<^item> \<open>Auth\<close>: \<^verbatim>\<open>auth/db.go\<close> and \<^verbatim>\<open>auth/digest.go\<close>.
  \<^item> \<open>MediaSession\<close>: the media sessions, their descriptions and the state of a stream (\<^verbatim>\<open>livemedia/server_media_session.go\<close>,
    \<^verbatim>\<open>livemedia/on_demand_server_media_subsession.go\<close>, \<^verbatim>\<open>livemedia/stream_state.go\<close> and the two kinds of files).
  \<^item> \<open>RtspServer\<close>, \<open>RtspHandlers\<close>: \<^verbatim>\<open>rtspserver/server.go\<close>, \<^verbatim>\<open>rtspserver/connection.go\<close>, \<^verbatim>\<open>rtspserver/session.go\<close>. Connections, sessions
    and media sessions are objects in stores; a goroutine is a task in the state. The goroutine of PLAY sleeps in the constructor of the
    stream's RTCP instance; from there on it is a second task, \<open>WakeTask\<close>, which becomes due when the sleep is over.
  \<^item> \<open>ServerInvariant\<close>, \<open>ServerKeeps\<close>, \<open>ServerRuns\<close>: the invariant of that state, that every handler and task keeps it, and the server as
    a transition system whose steps interleave in any order.
  \<^item> \<open>ServerClaims\<close>: what requests do in the states the server can reach.
  \<^item> \<open>ConnectionLoop\<close>: the goroutine of one connection, from its first read to the end of its session, with reads and writes that fail;
    a refinement of the transition system.

  \<^bold>\<open>The client.\<close>
  \<^item> \<open>GoScanf\<close>: \<open>fmt.Sscanf\<close> and \<open>strconv.Atoi\<close>, as the client uses them.
  \<^item> \<open>ClientMedia\<close>: \<^verbatim>\<open>livemedia/media_session.go\<close>, the parser of descriptions and the initiation of a subsession; \<open>Descriptions\<close>: how this
    parser reads the descriptions that \<open>MediaSession\<close> makes.
  \<^item> \<open>RtspClient\<close>: \<^verbatim>\<open>rtspclient/client.go\<close> and \<^verbatim>\<open>rtspclient/callback.go\<close>: requests, responses and what follows them. The setting up of the subsessions
    has a bound on its rounds, one more than the entries of the list; \<open>setup_rounds_enough\<close> shows that a larger one changes nothing.
    The sleep of a subsession's RTCP instance is one of the calls that are recorded.
  \<^item> \<open>ClientServer\<close>: client and server together, from the description over SETUP and its answer to PLAY, and through a challenge.
  \<^item> \<open>Playing\<close>, \<open>PlayRun\<close>: the requests of the client as the server reads them, and the run of both from the description to the task that
    starts the stream when its sleep is over, with nothing but the bytes of the requests and answers between them.

  \<^bold>\<open>What the lemmas show.\<close> For each component a well-formedness predicate and that the operations keep it (\<open>buff_wf\<close>, \<open>bv_wf\<close>,
  \<open>server_ok\<close> and others); the functional behaviour of the operations on every branch; round trips between the parts that write and the parts that
  read; and, where the code fails, the exact inputs and the effect. The names ending in \<open>_witness\<close> apply a theorem to a concrete input.

  \<^bold>\<open>Not modelled.\<close> Reading and writing of sockets and files themselves, printing, logging and command line glue (\<^verbatim>\<open>main.go\<close>,
  \<^verbatim>\<open>examples\<close>); goroutines run as tasks between handlers and not inside them, so that data races within one handler are outside
  the model; the variants for 32-bit machines, older copies of the 64-bit files that no longer compile with the rest of the program; what the
  dummy sink of the client prints; functions with an empty body and plain accessors of fields.
\<close>

end
